(* ===== verification/Relay_Prelude.thy ===== *)
theory Relay_Prelude
  imports Main "HOL-Library.AList" "HOL-Library.List_Lexorder" "HOL-Library.Product_Lexorder"
begin

text \<open>
  Shared vocabulary of the RelayForge development.

  \<^item> JavaScript objects used as string-keyed records (\<open>Record<string, T>\<close>, \<open>Map<string, T>\<close>)
    are association lists in insertion order: \<open>obj_get\<close> reads a property, \<open>obj_set\<close> overwrites a
    property in place or appends it, \<open>obj_values\<close> is \<open>Object.values\<close>.
  \<^item> A TypeScript function that throws returns a sum \<open>'e + 'a\<close>, with \<open>Inl\<close> for the thrown error.
    \<open>fold_res\<close> is the loop \<open>for (const e of events) state = apply(state, e)\<close>, stopped by the first throw,
    and \<open>first_err\<close> is a loop whose body only checks and throws.
  \<^item> \<open>collate_key\<close> is the sort key of \<open>String.prototype.localeCompare\<close> under the CLDR root collation,
    on the alphabet of the identifiers the program admits.
  \<^item> The locales \<open>event_fold\<close>, \<open>sequenced_fold\<close> and \<open>sticky_fold\<close> are the contracts of the event-sourced
    reducers: a component proves the one-step laws once and gets the laws of whole histories.
\<close>

section \<open>Collections of facts\<close>

named_theorems obj_simps \<open>rewriting of object reads after writes\<close>
named_theorems step_defs \<open>definitions of the handlers of an event\<close>

section \<open>JavaScript objects as association lists\<close>

type_synonym 'v obj = "(string \<times> 'v) list"

abbreviation obj_get :: "'v obj \<Rightarrow> string \<Rightarrow> 'v option" where
  "obj_get ob k \<equiv> map_of ob k"

abbreviation obj_set :: "string \<Rightarrow> 'v \<Rightarrow> 'v obj \<Rightarrow> 'v obj" where
  "obj_set k v ob \<equiv> AList.update k v ob"

definition obj_has :: "'v obj \<Rightarrow> string \<Rightarrow> bool" where
  "obj_has ob k \<longleftrightarrow> obj_get ob k \<noteq> None"

definition obj_values :: "'v obj \<Rightarrow> 'v list" where
  "obj_values ob = map snd ob"

definition obj_wf :: "'v obj \<Rightarrow> bool" where
  "obj_wf ob \<longleftrightarrow> distinct (map fst ob)"

lemma obj_get_set [simp, obj_simps]:
  "obj_get (obj_set k v ob) k' = (if k' = k then Some v else obj_get ob k')"
  by (simp add: update_conv')

lemma obj_wf_Nil [simp]: "obj_wf []"
  by (simp add: obj_wf_def)

lemma obj_wf_set [simp, intro]: "obj_wf ob \<Longrightarrow> obj_wf (obj_set k v ob)"
  by (simp add: obj_wf_def distinct_update)

lemma obj_has_set [simp]: "obj_has (obj_set k v ob) k' \<longleftrightarrow> k' = k \<or> obj_has ob k'"
  by (simp add: obj_has_def)

lemma obj_has_Nil [simp]: "\<not> obj_has [] k"
  by (simp add: obj_has_def)

lemma obj_values_Nil [simp]: "obj_values [] = []"
  by (simp add: obj_values_def)

lemma in_obj_values: "obj_wf ob \<Longrightarrow> v \<in> set (obj_values ob) \<longleftrightarrow> (\<exists>k. obj_get ob k = Some v)"
  unfolding obj_wf_def obj_values_def
  by (metis (no_types, lifting) image_iff list.set_map map_of_SomeD map_of_is_SomeI prod.collapse snd_conv)

lemma obj_get_in_values: "obj_get ob k = Some v \<Longrightarrow> v \<in> set (obj_values ob)"
  unfolding obj_values_def by (force dest: map_of_SomeD)

lemma obj_set_append:
  "obj_get ob k = None \<Longrightarrow> obj_set k v ob = ob @ [(k, v)]"
  by (induction ob) (auto split: if_splits)

lemma obj_values_append_new:
  "obj_get ob k = None \<Longrightarrow> obj_values (obj_set k v ob) = obj_values ob @ [v]"
  by (simp add: obj_set_append obj_values_def)

lemma obj_split:
  assumes "obj_get ob k = Some v"
  obtains pre post where "ob = pre @ (k, v) # post" "obj_get pre k = None"
proof -
  have "\<exists>pre post. ob = pre @ (k, v) # post \<and> obj_get pre k = None"
    using assms
  proof (induction ob)
    case Nil
    then show ?case by simp
  next
    case (Cons p ob)
    show ?case
    proof (cases "fst p = k")
      case True
      with Cons.prems have "p = (k, v)" by (cases p) simp
      then show ?thesis by (intro exI [of _ "[]"] exI [of _ ob]) simp
    next
      case False
      with Cons obtain pre post where "ob = pre @ (k, v) # post" "obj_get pre k = None"
        by (cases p) auto
      with False show ?thesis
        by (intro exI [of _ "p # pre"] exI [of _ post]) (cases p, simp)
    qed
  qed
  with that show ?thesis by blast
qed

lemma obj_set_split:
  "obj_get pre k = None \<Longrightarrow> obj_set k w (pre @ (k, v) # post) = pre @ (k, w) # post"
  by (induction pre) (auto split: if_splits)

section \<open>Loops that may throw\<close>

fun fold_res :: "('s \<Rightarrow> 'a \<Rightarrow> 'e + 's) \<Rightarrow> 's \<Rightarrow> 'a list \<Rightarrow> 'e + 's" where
  "fold_res f s [] = Inr s"
| "fold_res f s (x # xs) = (case f s x of Inl e \<Rightarrow> Inl e | Inr s' \<Rightarrow> fold_res f s' xs)"

fun first_err :: "('a \<Rightarrow> 'e option) \<Rightarrow> 'a list \<Rightarrow> 'e option" where
  "first_err f [] = None"
| "first_err f (x # xs) = (case f x of None \<Rightarrow> first_err f xs | Some e \<Rightarrow> Some e)"

lemma fold_res_append:
  "fold_res f s (xs @ ys) = (case fold_res f s xs of Inl e \<Rightarrow> Inl e | Inr s' \<Rightarrow> fold_res f s' ys)"
  by (induction xs arbitrary: s) (auto split: sum.splits)

lemma fold_res_snoc:
  "fold_res f s (xs @ [y]) = (case fold_res f s xs of Inl e \<Rightarrow> Inl e | Inr s' \<Rightarrow> f s' y)"
  by (auto simp: fold_res_append split: sum.splits)

lemma fold_res_prefix:
  "fold_res f s (xs @ ys) = Inr t \<Longrightarrow> \<exists>s'. fold_res f s xs = Inr s' \<and> fold_res f s' ys = Inr t"
  by (auto simp: fold_res_append split: sum.splits)

lemma first_err_None_iff: "first_err f xs = None \<longleftrightarrow> (\<forall>x \<in> set xs. f x = None)"
  by (induction xs) (auto split: option.splits)

lemma first_err_Some: "first_err f xs = Some e \<Longrightarrow> \<exists>x \<in> set xs. f x = Some e"
  by (induction xs) (auto split: option.splits)

lemma sum_list_map_zero: "(\<And>x. x \<in> set xs \<Longrightarrow> f x = 0) \<Longrightarrow> sum_list (map f xs) = (0::int)"
  by (induction xs) auto

lemma obj_all_iff:
  "obj_wf ob \<Longrightarrow> list_all (\<lambda>(k, v). Q k v) ob \<longleftrightarrow> (\<forall>k v. obj_get ob k = Some v \<longrightarrow> Q k v)"
  by (auto simp: list_all_iff obj_wf_def)

lemma map_sort_key_comp: "map f (sort_key (\<lambda>x. g (f x)) xs) = sort_key g (map f xs)"
proof (induction xs)
  case (Cons x xs)
  have "map f (insort_key (\<lambda>x. g (f x)) x ys) = insort_key g (f x) (map f ys)" for ys by (induction ys) auto
  with Cons show ?case by simp
qed simp

lemma in_set_filter_length_pos: "x \<in> set xs \<Longrightarrow> P x \<Longrightarrow> 0 < length (filter P xs)"
  by (auto simp: filter_empty_conv)

text \<open>One property of an object is written, or none: \<open>P key old new\<close> relates what was there to what is.\<close>

definition obj_change :: "(string \<Rightarrow> 'v option \<Rightarrow> 'v \<Rightarrow> bool) \<Rightarrow> 'v obj \<Rightarrow> 'v obj \<Rightarrow> bool" where
  "obj_change P ob ob' \<longleftrightarrow> ob' = ob \<or> (\<exists>k v. ob' = obj_set k v ob \<and> P k (obj_get ob k) v)"

lemma obj_change_refl [simp, intro]: "obj_change P ob ob"
  by (simp add: obj_change_def)

lemma obj_changeI: "ob' = obj_set k v ob \<Longrightarrow> P k (obj_get ob k) v \<Longrightarrow> obj_change P ob ob'"
  by (auto simp: obj_change_def)

lemma obj_change_backward:
  "obj_change P ob ob' \<Longrightarrow> obj_get ob' k = Some v \<Longrightarrow> obj_get ob k = Some v \<or> P k (obj_get ob k) v"
  by (auto simp: obj_change_def split: if_splits)

lemma obj_change_forward:
  "obj_change P ob ob' \<Longrightarrow> obj_get ob k = Some v \<Longrightarrow> \<exists>v'. obj_get ob' k = Some v' \<and> (v' = v \<or> P k (Some v) v')"
  by (auto simp: obj_change_def)

lemma obj_change_wf: "obj_change P ob ob' \<Longrightarrow> obj_wf ob \<Longrightarrow> obj_wf ob'"
  by (auto simp: obj_change_def)

text \<open>An invariant of all pairs of distinct entries survives a write whose value fits every other entry.\<close>

lemma obj_change_pairwise:
  assumes "obj_change P ob ob'"
    and "\<And>i j x y. i \<noteq> j \<Longrightarrow> obj_get ob i = Some x \<Longrightarrow> obj_get ob j = Some y \<Longrightarrow> R x y"
    and "\<And>k v i x. P k (obj_get ob k) v \<Longrightarrow> i \<noteq> k \<Longrightarrow> obj_get ob i = Some x \<Longrightarrow> R v x \<and> R x v"
    and "i \<noteq> j" "obj_get ob' i = Some x" "obj_get ob' j = Some y"
  shows "R x y"
proof -
  from assms(1) consider "ob' = ob" | k v where "ob' = obj_set k v ob" "P k (obj_get ob k) v"
    unfolding obj_change_def by blast
  then show ?thesis
  proof cases
    case 1
    with assms(2,4-6) show ?thesis by simp
  next
    case kv: 2
    consider (a) "i = k" | (b) "j = k" | (c) "i \<noteq> k" "j \<noteq> k" by blast
    then show ?thesis
    proof cases
      case a
      with kv assms(3) [of k v j y] assms(4-6) show ?thesis by simp
    next
      case b
      with kv assms(3) [of k v i x] assms(4-6) show ?thesis by simp
    next
      case c
      with kv assms(2) [of i j x y] assms(4-6) show ?thesis by simp
    qed
  qed
qed

section \<open>Results of fallible code\<close>

text \<open>
  A handler throws or returns; \<open>checks\<close> is a run of \<open>if (c) throw\<close> statements.
\<close>

definition bind_res :: "'e + 'a \<Rightarrow> ('a \<Rightarrow> 'e + 'b) \<Rightarrow> 'e + 'b" where
  "bind_res m f = (case m of Inl e \<Rightarrow> Inl e | Inr x \<Rightarrow> f x)"

fun checks :: "(bool \<times> 'e) list \<Rightarrow> 'e + unit" where
  "checks [] = Inr ()"
| "checks ((c, e) # cs) = (if c then Inl e else checks cs)"

definition require_some :: "'e \<Rightarrow> 'a option \<Rightarrow> 'e + 'a" where
  "require_some e v = (case v of None \<Rightarrow> Inl e | Some x \<Rightarrow> Inr x)"

lemma bind_res_Inr [simp]: "bind_res m f = Inr y \<longleftrightarrow> (\<exists>x. m = Inr x \<and> f x = Inr y)"
  by (cases m) (simp_all add: bind_res_def)

lemma checks_Inr [simp]: "checks cs = Inr u \<longleftrightarrow> (\<forall>c \<in> set cs. \<not> fst c)"
  by (induction cs rule: checks.induct) auto

declare checks.simps [simp del]

lemma require_some_Inr [simp]: "require_some e v = Inr x \<longleftrightarrow> v = Some x"
  by (cases v) (simp_all add: require_some_def)

text \<open>\<open>try { ... } catch (error) { throw f(error) }\<close>.\<close>

definition mapErr :: "('e \<Rightarrow> 'f) \<Rightarrow> 'e + 'a \<Rightarrow> 'f + 'a" where
  "mapErr f r = (case r of Inl e \<Rightarrow> Inl (f e) | Inr x \<Rightarrow> Inr x)"

lemma mapErr_Inr [simp]: "mapErr f r = Inr x \<longleftrightarrow> r = Inr x"
  by (simp add: mapErr_def split: sum.splits)

text \<open>\<open>values.map(f)\<close> where \<open>f\<close> may throw.\<close>

fun mapRes :: "('a \<Rightarrow> 'e + 'b) \<Rightarrow> 'a list \<Rightarrow> 'e + 'b list" where
  "mapRes f [] = Inr []"
| "mapRes f (x # xs) = bind_res (f x) (\<lambda>y. bind_res (mapRes f xs) (\<lambda>ys. Inr (y # ys)))"

lemma mapRes_Inr: "mapRes f xs = Inr ys \<longleftrightarrow> list_all2 (\<lambda>x y. f x = Inr y) xs ys"
  by (induction xs arbitrary: ys) (auto simp: list_all2_Cons1)

text \<open>
  \<open>replace_by\<close> is the update of the entries with a given key, where a vector of entries is mapped, the update may throw and
  an unknown key throws.
\<close>

fun update_where :: "('a \<Rightarrow> bool) \<Rightarrow> ('a \<Rightarrow> 'e + 'a) \<Rightarrow> 'a list \<Rightarrow> 'e + 'a list" where
  "update_where Q f [] = Inr []"
| "update_where Q f (e # es) = bind_res (if Q e then f e else Inr e) (\<lambda>e'. bind_res (update_where Q f es) (\<lambda>es'. Inr (e' # es')))"

definition replace_by :: "('a \<Rightarrow> string) \<Rightarrow> 'e \<Rightarrow> ('a \<Rightarrow> 'e + 'a) \<Rightarrow> string \<Rightarrow> 'a list \<Rightarrow> 'e + 'a list" where
  "replace_by key err f k es = bind_res (update_where (\<lambda>e. key e = k) f es) (\<lambda>es'. if k \<notin> set (map key es) then Inl err else Inr es')"

lemma update_where_Inr: "update_where Q f es = Inr es' \<longleftrightarrow> list_all2 (\<lambda>e e'. if Q e then f e = Inr e' else e' = e) es es'"
proof (induction es arbitrary: es')
  case (Cons e es)
  then show ?case by (cases es') (auto simp: list_all2_Cons1)
qed auto

lemma replace_by_Inr:
  "replace_by key err f k es = Inr es' \<longleftrightarrow> k \<in> set (map key es) \<and> list_all2 (\<lambda>e e'. if key e = k then f e = Inr e' else e' = e) es es'"
  by (auto simp: replace_by_def update_where_Inr split: if_splits)

lemma replace_by_one:
  assumes "distinct (map key es)" "e \<in> set es" "f e = Inr e'"
  obtains pre post where "es = pre @ e # post" "replace_by key err f (key e) es = Inr (pre @ e' # post)"
proof -
  obtain pre post where s: "es = pre @ e # post" using split_list [OF assms(2)] by blast
  have "key e \<notin> key ` (set pre \<union> set post)" using assms(1) unfolding s by auto
  then have "key x \<noteq> key e" if "x \<in> set pre \<union> set post" for x using that by (metis imageI)
  then have "replace_by key err f (key e) es = Inr (pre @ e' # post)"
    using assms(3) unfolding replace_by_Inr s by (auto intro!: list_all2_appendI simp: list_all2_same)
  with that s show thesis by blast
qed

lemma list_all2_all:
  assumes "list_all2 R es es'" "list_all A es" "\<And>e e'. A e \<Longrightarrow> R e e' \<Longrightarrow> B e'"
  shows "list_all B es'"
  using assms by (induction rule: list_all2_induct) auto

lemma list_all2_map_eq:
  assumes "list_all2 R es es'" "\<And>e e'. R e e' \<Longrightarrow> f e' = f e"
  shows "map f es' = map f es"
  using assms(1) by (induction rule: list_all2_induct) (use assms(2) in auto)

lemma find_member: "find Q es = Some e \<Longrightarrow> e \<in> set es \<and> Q e"
  by (auto simp: find_Some_iff)

section \<open>Contracts of event-sourced reducers\<close>

text \<open>A reducer whose steps keep an invariant: every replay keeps it.\<close>

locale event_fold =
  fixes step :: "'s \<Rightarrow> 'a \<Rightarrow> 'e + 's"
    and inv :: "'s \<Rightarrow> bool"
  assumes step_inv: "inv s \<Longrightarrow> step s e = Inr s' \<Longrightarrow> inv s'"
begin

lemma replay_inv: "inv s \<Longrightarrow> fold_res step s es = Inr s' \<Longrightarrow> inv s'"
  by (induction es arbitrary: s) (auto split: sum.splits dest: step_inv)

lemma replay_prefix_inv:
  assumes "inv s" "fold_res step s (es @ fs) = Inr s'"
  shows "\<exists>t. fold_res step s es = Inr t \<and> inv t \<and> fold_res step t fs = Inr s'"
  using assms by (auto dest!: fold_res_prefix intro: replay_inv)

end

text \<open>A reducer that accepts exactly the next sequence number of its head.\<close>

locale sequenced_fold =
  fixes step :: "'s \<Rightarrow> 'a \<Rightarrow> 'e + 's"
    and head :: "'s \<Rightarrow> nat"
    and seqOf :: "'a \<Rightarrow> nat"
  assumes step_seq: "step s e = Inr s' \<Longrightarrow> seqOf e = Suc (head s) \<and> head s' = seqOf e"
begin

lemma replay_head: "fold_res step s es = Inr s' \<Longrightarrow> head s' = head s + length es"
  by (induction es arbitrary: s) (auto split: sum.splits dest: step_seq)

lemma replay_seqs:
  "fold_res step s es = Inr s' \<Longrightarrow> map seqOf es = [Suc (head s)..<Suc (head s + length es)]"
proof (induction es arbitrary: s)
  case (Cons e es)
  then obtain t where t: "step s e = Inr t" "fold_res step t es = Inr s'"
    by (auto split: sum.splits)
  from Cons.IH [OF t(2)] step_seq [OF t(1)] show ?case
    by (simp add: upt_conv_Cons del: upt_Suc)
qed simp

lemma replay_no_duplicate: "fold_res step s es = Inr s' \<Longrightarrow> distinct (map seqOf es)"
  by (simp add: replay_seqs)

end

text \<open>A reducer with records that never change again once they satisfy \<open>final\<close>.\<close>

locale sticky_fold =
  fixes step :: "'s \<Rightarrow> 'a \<Rightarrow> 'e + 's"
    and look :: "'s \<Rightarrow> 'k \<Rightarrow> 'r option"
    and final :: "'r \<Rightarrow> bool"
  assumes step_sticky: "step s e = Inr s' \<Longrightarrow> look s k = Some r \<Longrightarrow> final r \<Longrightarrow> look s' k = Some r"
begin

lemma replay_sticky:
  "fold_res step s es = Inr s' \<Longrightarrow> look s k = Some r \<Longrightarrow> final r \<Longrightarrow> look s' k = Some r"
  by (induction es arbitrary: s) (auto split: sum.splits dest: step_sticky)

end

text \<open>The same of the states that keep an invariant.\<close>

locale guarded_sticky_fold = event_fold step inv
  for step :: "'s \<Rightarrow> 'a \<Rightarrow> 'e + 's" and inv :: "'s \<Rightarrow> bool" +
  fixes look :: "'s \<Rightarrow> 'k \<Rightarrow> 'r option"
    and final :: "'r \<Rightarrow> bool"
  assumes guarded_sticky: "inv s \<Longrightarrow> step s e = Inr s' \<Longrightarrow> look s k = Some r \<Longrightarrow> final r \<Longrightarrow> look s' k = Some r"
begin

lemma replay_guarded_sticky:
  "inv s \<Longrightarrow> fold_res step s es = Inr s' \<Longrightarrow> look s k = Some r \<Longrightarrow> final r \<Longrightarrow> look s' k = Some r"
  by (induction es arbitrary: s) (auto split: sum.splits dest: step_inv guarded_sticky)

end

section \<open>Characters, decimal numerals\<close>

abbreviation char_code :: "char \<Rightarrow> nat" where
  "char_code c \<equiv> of_char c"

definition is_digit :: "char \<Rightarrow> bool" where
  "is_digit c \<longleftrightarrow> 48 \<le> char_code c \<and> char_code c \<le> (57::nat)"

definition digit_val :: "char \<Rightarrow> nat" where
  "digit_val c = char_code c - 48"

definition digit_char :: "nat \<Rightarrow> char" where
  "digit_char d = char_of (48 + d)"

definition is_lower_hex :: "char \<Rightarrow> bool" where
  "is_lower_hex c \<longleftrightarrow> is_digit c \<or> (97 \<le> char_code c \<and> char_code c \<le> (102::nat))"

definition is_upper :: "char \<Rightarrow> bool" where
  "is_upper c \<longleftrightarrow> 65 \<le> char_code c \<and> char_code c \<le> (90::nat)"

definition is_lower :: "char \<Rightarrow> bool" where
  "is_lower c \<longleftrightarrow> 97 \<le> char_code c \<and> char_code c \<le> (122::nat)"

text \<open>\<open>BigInt(digits)\<close> and \<open>n.toString(10)\<close> on non-negative values.\<close>

definition digits_val :: "string \<Rightarrow> nat" where
  "digits_val s = fold (\<lambda>c n. 10 * n + digit_val c) s 0"

fun nat_digits :: "nat \<Rightarrow> string" where
  "nat_digits n = (if n < 10 then [digit_char n] else nat_digits (n div 10) @ [digit_char (n mod 10)])"

declare nat_digits.simps [simp del]

lemma digit_char_inverse [simp]: "d < 10 \<Longrightarrow> digit_val (digit_char d) = d"
  by (simp add: digit_val_def digit_char_def)

lemma digit_char_is_digit [simp]: "d < 10 \<Longrightarrow> is_digit (digit_char d)"
  by (simp add: is_digit_def digit_char_def)

lemma digits_val_snoc [simp]: "digits_val (s @ [c]) = 10 * digits_val s + digit_val c"
  by (simp add: digits_val_def)

lemma digits_val_Nil [simp]: "digits_val [] = 0"
  by (simp add: digits_val_def)

lemma nat_digits_nonempty [simp]: "nat_digits n \<noteq> []"
  by (subst nat_digits.simps) simp

lemma nat_digits_roundtrip: "digits_val (nat_digits n) = n"
proof (induction n rule: nat_digits.induct)
  case (1 n)
  show ?case
  proof (cases "n < 10")
    case True
    then show ?thesis
      using digits_val_snoc [of "[]" "digit_char n"] by (simp add: nat_digits.simps [of n])
  next
    case False
    with "1.IH" show ?thesis by (simp add: nat_digits.simps [of n])
  qed
qed

lemma nat_digits_all_digits: "list_all is_digit (nat_digits n)"
proof (induction n rule: nat_digits.induct)
  case (1 n)
  then show ?case by (subst nat_digits.simps) auto
qed

lemma nat_digits_inj: "nat_digits m = nat_digits n \<Longrightarrow> m = n"
  by (metis nat_digits_roundtrip)

section \<open>Splitting and joining text\<close>

text \<open>\<open>s.split(c)\<close> and \<open>parts.join(c)\<close> for a one-character separator.\<close>

fun split_on :: "char \<Rightarrow> string \<Rightarrow> string list" where
  "split_on c [] = [[]]"
| "split_on c (x # xs) =
     (if x = c then [] # split_on c xs
      else case split_on c xs of [] \<Rightarrow> [[x]] | p # ps \<Rightarrow> (x # p) # ps)"

fun join_with :: "char \<Rightarrow> string list \<Rightarrow> string" where
  "join_with c [] = []"
| "join_with c [p] = p"
| "join_with c (p # q # ps) = p @ c # join_with c (q # ps)"

lemma split_on_nonempty [simp]: "split_on c s \<noteq> []"
  by (induction s) (auto split: list.splits)

lemma split_on_no_sep: "c \<notin> set s \<Longrightarrow> split_on c s = [s]"
  by (induction s) auto

lemma split_on_append_sep: "c \<notin> set p \<Longrightarrow> split_on c (p @ c # s) = p # split_on c s"
  by (induction p) auto

lemma split_on_join:
  "ps \<noteq> [] \<Longrightarrow> (\<And>p. p \<in> set ps \<Longrightarrow> c \<notin> set p) \<Longrightarrow> split_on c (join_with c ps) = ps"
  by (induction c ps rule: join_with.induct) (auto simp: split_on_no_sep split_on_append_sep)

section \<open>Decimal rendering of integers\<close>

definition int_str :: "int \<Rightarrow> string" where
  "int_str n = (if n < 0 then CHR ''-'' # nat_digits (nat (- n)) else nat_digits (nat n))"

lemma is_digit_not_minus [simp]: "\<not> is_digit (CHR ''-'')"
  by (simp add: is_digit_def)

lemma nat_digits_digit: "c \<in> set (nat_digits n) \<Longrightarrow> is_digit c"
  using nat_digits_all_digits [of n] by (simp add: list_all_iff)

lemma nat_digits_no_minus: "nat_digits n \<noteq> CHR ''-'' # s"
  by (metis is_digit_not_minus list.set_intros(1) nat_digits_digit)

lemma int_str_inj: "int_str m = int_str n \<longleftrightarrow> m = n"
proof
  assume eq: "int_str m = int_str n"
  have neg: "m < 0 \<longleftrightarrow> n < 0"
    using eq nat_digits_no_minus nat_digits_no_minus [symmetric]
    by (auto simp: int_str_def split: if_splits)
  show "m = n"
  proof (cases "m < 0")
    case True
    with neg eq have "nat (- m) = nat (- n)" by (auto simp: int_str_def dest: nat_digits_inj)
    with True neg show ?thesis by simp
  next
    case False
    with neg eq have "nat m = nat n" by (auto simp: int_str_def dest: nat_digits_inj)
    with False neg show ?thesis by simp
  qed
qed simp

lemma int_str_nonempty [simp]: "int_str n \<noteq> []"
  by (simp add: int_str_def)

section \<open>Collation of identifiers\<close>

text \<open>
  \<open>localeCompare\<close> under the CLDR root collation compares, for the ASCII characters of an identifier,
  first the primary weights of all characters (\<open>_\<close>, \<open>-\<close>, \<open>:\<close>, \<open>.\<close>, digits, letters without case) and
  then, where those are equal, the case of the letters (lower before upper). Characters outside the
  identifier alphabet, which no admitted identifier has, are ranked after it by their code.
\<close>

definition collate_primary :: "char \<Rightarrow> nat" where
  "collate_primary c =
     (if c = CHR ''_'' then 0 else if c = CHR ''-'' then 1 else if c = CHR '':'' then 2
      else if c = CHR ''.'' then 3
      else if is_digit c then 10 + digit_val c
      else if is_lower c then 20 + (char_code c - 97)
      else if is_upper c then 20 + (char_code c - 65)
      else 100 + char_code c)"

definition collate_tertiary :: "char \<Rightarrow> nat" where
  "collate_tertiary c = (if is_upper c then 1 else 0)"

definition collate_key :: "string \<Rightarrow> nat list \<times> nat list" where
  "collate_key s = (map collate_primary s, map collate_tertiary s)"

definition localeCompare :: "string \<Rightarrow> string \<Rightarrow> int" where
  "localeCompare a b =
     (if collate_key a < collate_key b then -1 else if collate_key a = collate_key b then 0 else 1)"

lemma of_char_inj_nat: "(of_char c :: nat) = of_char d \<longleftrightarrow> c = d"
  by (metis char_of_char)

text \<open>The two weights of a character determine it: \<open>collate_decode\<close> recovers the code.\<close>

definition collate_decode :: "nat \<Rightarrow> nat \<Rightarrow> nat" where
  "collate_decode p t =
     (if p < 4 then [95, 45, 58, 46] ! p else if p < 20 then 38 + p
      else if p < 100 then (if t = 1 then 45 + p else 77 + p) else p - 100)"

lemma collate_decode_inverse:
  "collate_decode (collate_primary c) (collate_tertiary c) = char_code c"
proof -
  consider "c = CHR ''_''" | "c = CHR ''-''" | "c = CHR '':''" | "c = CHR ''.''"
    | "c \<noteq> CHR ''_''" "c \<noteq> CHR ''-''" "c \<noteq> CHR '':''" "c \<noteq> CHR ''.''" by blast
  then show ?thesis
  proof cases
    case 5
    then have "char_code c \<noteq> 95 \<and> char_code c \<noteq> 45 \<and> char_code c \<noteq> 58 \<and> char_code c \<noteq> 46"
      using of_char_inj_nat [of c "CHR ''_''"] of_char_inj_nat [of c "CHR ''-''"]
        of_char_inj_nat [of c "CHR '':''"] of_char_inj_nat [of c "CHR ''.''"] by simp
    with 5 show ?thesis
      by (auto simp: collate_primary_def collate_tertiary_def collate_decode_def is_digit_def
          is_lower_def is_upper_def digit_val_def)
  qed (simp_all add: collate_primary_def collate_tertiary_def collate_decode_def is_upper_def)
qed

lemma collate_char_inj:
  "collate_primary c = collate_primary d \<Longrightarrow> collate_tertiary c = collate_tertiary d \<Longrightarrow> c = d"
  by (metis collate_decode_inverse of_char_inj_nat)

lemma collate_key_inj: "collate_key a = collate_key b \<longleftrightarrow> a = b"
proof
  assume eq: "collate_key a = collate_key b"
  then have len: "length a = length b"
    by (metis collate_key_def length_map prod.inject)
  show "a = b"
  proof (rule nth_equalityI [OF len])
    fix i assume i: "i < length a"
    from eq have "map collate_primary a ! i = map collate_primary b ! i"
      "map collate_tertiary a ! i = map collate_tertiary b ! i"
      by (simp_all add: collate_key_def)
    with i len show "a ! i = b ! i" by (auto intro: collate_char_inj)
  qed
qed simp

lemma localeCompare_zero [simp]: "localeCompare a b = 0 \<longleftrightarrow> a = b"
  by (auto simp: localeCompare_def collate_key_inj)

lemma localeCompare_antisym: "localeCompare a b = - localeCompare b a"
  by (auto simp: localeCompare_def collate_key_inj)

definition sort_ids :: "string list \<Rightarrow> string list" where
  "sort_ids ids = sort_key collate_key ids"

lemma set_sort_ids [simp]: "set (sort_ids ids) = set ids"
  by (simp add: sort_ids_def)

lemma length_sort_ids [simp]: "length (sort_ids ids) = length ids"
  by (simp add: sort_ids_def)

lemma distinct_sort_ids [simp]: "distinct (sort_ids ids) = distinct ids"
  by (simp add: sort_ids_def)

section \<open>Identifiers: src/ids.ts\<close>

text \<open>\<open>isValidId\<close>: a leading alphanumeric, then at most 63 characters of \<open>[A-Za-z0-9._-]\<close>, no \<open>..\<close>.\<close>

definition is_alnum :: "char \<Rightarrow> bool" where
  "is_alnum c \<longleftrightarrow> is_digit c \<or> is_lower c \<or> is_upper c"

definition is_id_char :: "char \<Rightarrow> bool" where
  "is_id_char c \<longleftrightarrow> is_alnum c \<or> c = CHR ''.'' \<or> c = CHR ''_'' \<or> c = CHR ''-''"

definition is_control_char :: "char \<Rightarrow> bool" where
  "is_control_char c \<longleftrightarrow> char_code c < (32::nat) \<or> char_code c = (127::nat)"

text \<open>Evaluation of the character classes on the bits of a character.\<close>

lemma is_lower_hex_code [code]: "is_lower_hex (Char b0 b1 b2 b3 b4 b5 b6 b7) \<longleftrightarrow>
   \<not> b7 \<and> (\<not> b6 \<and> b5 \<and> b4 \<and> (\<not> b3 \<or> \<not> b2 \<and> \<not> b1) \<or> b6 \<and> b5 \<and> \<not> b4 \<and> \<not> b3 \<and> (b0 \<or> b1 \<or> b2) \<and> \<not> (b0 \<and> b1 \<and> b2))"
  by (cases b0; cases b1; cases b2; cases b3; cases b4; cases b5; cases b6; cases b7) (simp_all add: is_lower_hex_def is_digit_def of_char_def)

lemma is_digit_code [code]: "is_digit (Char b0 b1 b2 b3 b4 b5 b6 b7) \<longleftrightarrow> \<not> b7 \<and> \<not> b6 \<and> b5 \<and> b4 \<and> (\<not> b3 \<or> \<not> b2 \<and> \<not> b1)"
  by (cases b0; cases b1; cases b2; cases b3; cases b4; cases b5; cases b6; cases b7) (simp_all add: is_digit_def of_char_def)

lemma is_lower_code [code]: "is_lower (Char b0 b1 b2 b3 b4 b5 b6 b7) \<longleftrightarrow> \<not> b7 \<and> b6 \<and> b5 \<and> (b4 \<and> (\<not> b3 \<or> \<not> b2 \<and> \<not> (b1 \<and> b0)) \<or> \<not> b4 \<and> (b0 \<or> b1 \<or> b2 \<or> b3))"
  by (cases b0; cases b1; cases b2; cases b3; cases b4; cases b5; cases b6; cases b7) (simp_all add: is_lower_def of_char_def)

lemma is_upper_code [code]: "is_upper (Char b0 b1 b2 b3 b4 b5 b6 b7) \<longleftrightarrow> \<not> b7 \<and> b6 \<and> \<not> b5 \<and> (b4 \<and> (\<not> b3 \<or> \<not> b2 \<and> \<not> (b1 \<and> b0)) \<or> \<not> b4 \<and> (b0 \<or> b1 \<or> b2 \<or> b3))"
  by (cases b0; cases b1; cases b2; cases b3; cases b4; cases b5; cases b6; cases b7) (simp_all add: is_upper_def of_char_def)

lemma is_control_char_code [code]: "is_control_char (Char b0 b1 b2 b3 b4 b5 b6 b7) \<longleftrightarrow> \<not> b7 \<and> (\<not> b6 \<and> \<not> b5 \<or> b6 \<and> b5 \<and> b4 \<and> b3 \<and> b2 \<and> b1 \<and> b0)"
  by (cases b0; cases b1; cases b2; cases b3; cases b4; cases b5; cases b6; cases b7) (simp_all add: is_control_char_def of_char_def)

fun has_dotdot :: "string \<Rightarrow> bool" where
  "has_dotdot (a # b # s) = (a = CHR ''.'' \<and> b = CHR ''.'' \<or> has_dotdot (b # s))"
| "has_dotdot _ = False"

definition ID_PATTERN :: "string \<Rightarrow> bool" where
  "ID_PATTERN s = (case s of [] \<Rightarrow> False
     | c # cs \<Rightarrow> is_alnum c \<and> list_all is_id_char cs \<and> length cs \<le> 63)"

definition isValidId :: "string \<Rightarrow> bool" where
  "isValidId s =
     (if s = ''.'' \<or> s = ''..'' then False
      else if has_dotdot s then False
      else if list_ex is_control_char s then False
      else ID_PATTERN s)"

lemma isValidId_length: "isValidId s \<Longrightarrow> 0 < length s \<and> length s \<le> 64"
  by (auto simp: isValidId_def ID_PATTERN_def split: if_splits list.splits)

lemma isValidId_chars: "isValidId s \<Longrightarrow> c \<in> set s \<Longrightarrow> is_id_char c"
  by (auto simp: isValidId_def ID_PATTERN_def is_id_char_def list_all_iff split: if_splits list.splits)

section \<open>Fixed-width hexadecimal digests\<close>

definition isSha256Hex :: "string \<Rightarrow> bool" where
  "isSha256Hex s \<longleftrightarrow> length s = 64 \<and> list_all is_lower_hex s"

definition isHex :: "string \<Rightarrow> bool" where
  "isHex s \<longleftrightarrow> s \<noteq> [] \<and> list_all is_lower_hex s"

definition MAX_SAFE_INTEGER :: int where
  "MAX_SAFE_INTEGER = 9007199254740991"

end
