(* ===== verification/Money.thy ===== *)
theory Money
  imports Relay_Prelude Complex_Main
begin

text \<open>
  Exact money: \<open>src/money.ts\<close> (nano-USD as unbounded integers, conversion from the decimal rendering of
  a JavaScript number, the durable decimal strings) and the budget policy of \<open>src/cost.ts\<close>.

  A JavaScript number reaches \<open>usdToNano\<close> only through its tests and through \<open>String(v)\<close>; the model
  keeps exactly that: the kind of the value, its sign and the text \<open>String(|v|)\<close>. \<open>bigint\<close> is \<open>int\<close>.
  Amounts of the configuration (\<open>budgetUsd\<close>, \<open>maxCostPerCallUsd\<close>), which the policy only compares,
  are rationals.
\<close>

section \<open>src/money.ts\<close>

definition NANO_PER_USD :: int where
  "NANO_PER_USD = 1000000000"

definition MAX_NANO :: int where
  "MAX_NANO = 1000000000 * NANO_PER_USD"

definition MAX_ABS_EXP :: int where
  "MAX_ABS_EXP = 40"

datatype MoneyError =
    NotDecimal | ExponentOutOfRange | OverPrecision | NotANumber | NotFinite | NegativeAmount
  | ExceedsMaximum | NotNanoString

text \<open>The match of \<open>/^(\d+)(?:\.(\d+))?(?:[eE]([+-]?\d+))?$/\<close>: integer digits, fraction digits, exponent.\<close>

definition parse_exp :: "string \<Rightarrow> int option" where
  "parse_exp s =
     (let (neg, ds) = (case s of [] \<Rightarrow> (False, [])
            | c # cs \<Rightarrow> if c = CHR ''-'' then (True, cs) else if c = CHR ''+'' then (False, cs) else (False, s))
      in if ds = [] \<or> \<not> list_all is_digit ds then None
         else Some (if neg then - int (digits_val ds) else int (digits_val ds)))"

definition DECIMAL :: "string \<Rightarrow> (string \<times> string \<times> int) option" where
  "DECIMAL s =
     (let i = takeWhile is_digit s; r = dropWhile is_digit s
      in if i = [] then None
         else case r of [] \<Rightarrow> Some (i, [], 0)
           | c # r' \<Rightarrow>
               let f = (if c = CHR ''.'' then takeWhile is_digit r' else []);
                   r2 = (if c = CHR ''.'' then dropWhile is_digit r' else r)
               in if c = CHR ''.'' \<and> f = [] then None
                  else case r2 of [] \<Rightarrow> Some (i, f, 0)
                    | e # r3 \<Rightarrow>
                        if e = CHR ''e'' \<or> e = CHR ''E''
                        then (case parse_exp r3 of None \<Rightarrow> None | Some x \<Rightarrow> Some (i, f, x))
                        else None)"

definition decimalToNano :: "string \<Rightarrow> MoneyError + int" where
  "decimalToNano s =
     (case DECIMAL s of None \<Rightarrow> Inl NotDecimal
      | Some (i, fr, x) \<Rightarrow>
          if \<bar>x\<bar> > MAX_ABS_EXP then Inl ExponentOutOfRange
          else
            let n = int (digits_val (i @ fr)); scale = 9 + x - int (length fr)
            in if scale \<ge> 0 then Inr (n * 10 ^ nat scale)
               else
                 let dv = 10 ^ nat (- scale)
                 in if n mod dv \<noteq> 0 then Inl OverPrecision else Inr (n div dv))"

datatype js_value = JsOther | JsNaN | JsInfinity | JsFinite bool string

definition usdToNano :: "js_value \<Rightarrow> MoneyError + int" where
  "usdToNano v =
     (case v of
        JsOther \<Rightarrow> Inl NotANumber
      | JsNaN \<Rightarrow> Inl NotFinite
      | JsInfinity \<Rightarrow> Inl NotFinite
      | JsFinite neg s \<Rightarrow>
          if neg \<and> s \<noteq> ''0'' then Inl NegativeAmount
          else if neg \<and> s = ''0'' then Inr 0
          else case decimalToNano s of Inl e \<Rightarrow> Inl e
            | Inr n \<Rightarrow> if n > MAX_NANO then Inl ExceedsMaximum else Inr n)"

definition parseNano :: "string \<Rightarrow> MoneyError + int" where
  "parseNano v =
     (if v = [] \<or> \<not> list_all is_digit v then Inl NotNanoString
      else let n = int (digits_val v) in if n > MAX_NANO then Inl ExceedsMaximum else Inr n)"

definition isNanoString :: "string \<Rightarrow> bool" where
  "isNanoString v = (case parseNano v of Inl _ \<Rightarrow> False | Inr _ \<Rightarrow> True)"

definition formatNano :: "int \<Rightarrow> string" where
  "formatNano n = int_str n"

subsection \<open>Exactness\<close>

text \<open>The rational number a decimal rendering denotes: the specification of the conversion.\<close>

definition decimal_value :: "string \<Rightarrow> rat option" where
  "decimal_value s =
     (case DECIMAL s of None \<Rightarrow> None
      | Some (i, fr, x) \<Rightarrow>
          Some (of_nat (digits_val (i @ fr)) * 10 powi (x - int (length fr))))"

definition decimal_exponent :: "string \<Rightarrow> int" where
  "decimal_exponent s = (case DECIMAL s of None \<Rightarrow> 0 | Some (_, _, x) \<Rightarrow> x)"

lemma dvd_quotient_rat:
  fixes n m d :: int
  assumes "0 < d"
  shows "(of_int m :: rat) = of_int n * inverse (of_int d) \<longleftrightarrow> n mod d = 0 \<and> m = n div d"
proof
  assume "(of_int m :: rat) = of_int n * inverse (of_int d)"
  with assms have "(of_int n :: rat) = of_int (m * d)" by (simp add: field_simps)
  then have "n = m * d" by (simp only: of_int_eq_iff)
  with assms show "n mod d = 0 \<and> m = n div d" by simp
next
  assume "n mod d = 0 \<and> m = n div d"
  then have "n = m * d" by (metis dvd_mult_div_cancel mod_0_imp_dvd mult.commute)
  with assms show "(of_int m :: rat) = of_int n * inverse (of_int d)" by simp
qed

lemma scaled_integer:
  "(of_int n :: rat) = of_int d * 10 powi k \<longleftrightarrow>
     (if 0 \<le> k then n = d * 10 ^ nat k else d mod 10 ^ nat (- k) = 0 \<and> n = d div 10 ^ nat (- k))"
proof (cases "0 \<le> k")
  case True
  have "(of_int d * 10 ^ nat k :: rat) = of_int (d * 10 ^ nat k)" by simp
  with True show ?thesis by (simp only: power_int_def of_int_eq_iff if_True)
next
  case False
  then have "(10::rat) powi k = inverse (of_int (10 ^ nat (- k)))"
    by (simp add: power_int_def power_one_over inverse_eq_divide)
  with False dvd_quotient_rat [of "10 ^ nat (- k)" n d] show ?thesis by simp
qed

lemma powi_shift9: "(10::rat) powi k * 10 ^ 9 = 10 powi (9 + k)"
proof -
  have "(10::rat) powi (k + 9) = 10 powi k * 10 powi 9"
    by (rule power_int_add) simp
  then show ?thesis by (simp only: power_int_numeral add.commute)
qed

lemma decimalToNano_exact:
  "decimalToNano s = Inr n \<longleftrightarrow>
     (\<exists>v. decimal_value s = Some v \<and> \<bar>decimal_exponent s\<bar> \<le> MAX_ABS_EXP \<and> of_int n = v * 10 ^ 9)"
proof (cases "DECIMAL s")
  case None
  then show ?thesis by (simp add: decimalToNano_def decimal_value_def)
next
  case (Some t)
  obtain i f x where t: "t = (i, f, x)" by (cases t)
  define d where "d = digits_val (i @ f)"
  define k where "k = 9 + x - int (length f)"
  have v: "decimal_value s = Some (of_int (int d) * 10 powi (x - int (length f)))"
    by (simp add: decimal_value_def Some t d_def)
  have k9: "(of_int (int d) :: rat) * 10 powi (x - int (length f)) * 10 ^ 9 = of_int (int d) * 10 powi k"
    using powi_shift9 [of "x - int (length f)"]
    by (simp only: k_def mult.assoc add_diff_eq)
  have m: "decimalToNano s = Inr n \<longleftrightarrow> \<bar>x\<bar> \<le> MAX_ABS_EXP \<and>
      (if 0 \<le> k then n = int d * 10 ^ nat k
       else int d mod 10 ^ nat (- k) = 0 \<and> n = int d div 10 ^ nat (- k))"
    unfolding decimalToNano_def Some t d_def [symmetric] k_def [symmetric] Let_def
    by (auto simp: d_def [symmetric] k_def [symmetric])
  show ?thesis
    unfolding m scaled_integer [symmetric]
    by (simp only: v option.inject k9 [symmetric] ex_simps simp_thms)
       (auto simp: decimal_exponent_def Some t k9)
qed

lemma decimalToNano_nonneg: "decimalToNano s = Inr n \<Longrightarrow> 0 \<le> n"
  by (auto simp: decimalToNano_def Let_def pos_imp_zdiv_nonneg_iff split: option.splits if_splits)

lemma usdToNano_range: "usdToNano v = Inr n \<Longrightarrow> 0 \<le> n \<and> n \<le> MAX_NANO"
  by (auto simp: usdToNano_def MAX_NANO_def NANO_PER_USD_def
      split: js_value.splits if_splits sum.splits dest: decimalToNano_nonneg)

lemma parseNano_range: "parseNano s = Inr n \<Longrightarrow> 0 \<le> n \<and> n \<le> MAX_NANO"
  by (auto simp: parseNano_def Let_def split: if_splits)

lemma parse_format_nano:
  "0 \<le> n \<Longrightarrow> n \<le> MAX_NANO \<Longrightarrow> parseNano (formatNano n) = Inr n"
  by (simp add: parseNano_def formatNano_def int_str_def nat_digits_all_digits nat_digits_roundtrip)

section \<open>The budget policy of src/cost.ts\<close>

datatype BudgetMode = Unlimited | EstimatedUsd | HardUsd | SubscriptionQuota

record BudgetPolicy =
  budgetUsd :: "rat option"
  maxCostPerCallUsd :: "rat option"
  budgetMode :: "BudgetMode option"

datatype BudgetRefusal =
    QuotaWithBudget | HardWithoutBudget | CapMissing | CapAboveBudget | NoGateway

definition numOr0 :: "rat option \<Rightarrow> rat" where
  "numOr0 x = (case x of None \<Rightarrow> 0 | Some v \<Rightarrow> v)"

definition resolveBudgetMode :: "BudgetPolicy \<Rightarrow> BudgetMode" where
  "resolveBudgetMode loop =
     (case budgetMode loop of Some m \<Rightarrow> m
      | None \<Rightarrow> if numOr0 (budgetUsd loop) > 0 then EstimatedUsd else Unlimited)"

definition assertBudgetEnforceable :: "BudgetPolicy \<Rightarrow> BudgetRefusal option" where
  "assertBudgetEnforceable loop =
     (let budget = numOr0 (budgetUsd loop) in
      if budget \<le> 0 then None
      else let cap = numOr0 (maxCostPerCallUsd loop) in
           if cap \<le> 0 then Some CapMissing
           else if cap > budget then Some CapAboveBudget
           else None)"

definition assertBudgetContract :: "BudgetPolicy \<Rightarrow> bool list \<Rightarrow> BudgetRefusal option" where
  "assertBudgetContract loop routeGatewayCapable =
     (let mode = resolveBudgetMode loop; budget = numOr0 (budgetUsd loop) in
      if mode = Unlimited then None
      else if mode = SubscriptionQuota then (if budget > 0 then Some QuotaWithBudget else None)
      else if mode = EstimatedUsd then assertBudgetEnforceable loop
      else if budget \<le> 0 then Some HardWithoutBudget
      else case assertBudgetEnforceable loop of Some e \<Rightarrow> Some e | None \<Rightarrow> Some NoGateway)"

definition perCallReservation :: "BudgetPolicy \<Rightarrow> rat \<Rightarrow> rat" where
  "perCallReservation loop budget =
     (if budget \<le> 0 then 0
      else let cap = numOr0 (maxCostPerCallUsd loop) in if cap > 0 then cap else budget)"

lemma assertBudgetEnforceable_None:
  "assertBudgetEnforceable loop = None \<longleftrightarrow>
     numOr0 (budgetUsd loop) \<le> 0 \<or>
     0 < numOr0 (maxCostPerCallUsd loop) \<and> numOr0 (maxCostPerCallUsd loop) \<le> numOr0 (budgetUsd loop)"
  by (auto simp: assertBudgetEnforceable_def Let_def)

section \<open>Properties\<close>

text \<open>
  C40. \<open>usdToNano\<close> is exact: it returns the nano-USD amount \<open>n\<close> only when the number's decimal
  rendering denotes exactly \<open>n\<close> billionths of a dollar, within \<open>[0, MAX_NANO]\<close>; no amount is ever
  rounded, and NaN, infinities, negative numbers and non-numbers are refused.
\<close>

theorem usdToNano_exact:
  "usdToNano v = Inr n \<Longrightarrow>
     0 \<le> n \<and> n \<le> MAX_NANO \<and>
     (\<exists>neg s. v = JsFinite neg s \<and>
        (neg \<and> s = ''0'' \<and> n = 0 \<or>
         \<not> neg \<and> (\<exists>x. decimal_value s = Some x \<and> of_int n = x * 10 ^ 9)))"
  using usdToNano_range [of v n] decimalToNano_exact
  by (auto simp: usdToNano_def split: js_value.splits if_splits sum.splits)

theorem usdToNano_exact_witness:
  "usdToNano (JsFinite False ''0.1'') = Inr 100000000 \<and>
   (0::int) \<le> 100000000 \<and> (100000000::int) \<le> MAX_NANO"
proof -
  have h: "usdToNano (JsFinite False ''0.1'') = Inr 100000000" by code_simp
  show ?thesis using h usdToNano_exact [OF h] by blast
qed

text \<open>
  The durable form of money round-trips: every amount in range is written by \<open>formatNano\<close> as a
  decimal string that \<open>parseNano\<close> reads back as the same amount.
\<close>

theorem nano_roundtrip:
  "0 \<le> n \<Longrightarrow> n \<le> MAX_NANO \<Longrightarrow> isNanoString (formatNano n) \<and> parseNano (formatNano n) = Inr n"
  by (simp add: parse_format_nano isNanoString_def)

theorem nano_roundtrip_witness:
  "isNanoString (formatNano 1500000000) \<and> parseNano (formatNano 1500000000) = Inr 1500000000"
  by (rule nano_roundtrip) (simp_all add: MAX_NANO_def NANO_PER_USD_def)

text \<open>
  The budget contract: a run is let through exactly when it is unlimited, or metered by a
  subscription without a USD budget, or estimated with no positive budget or a per-call cap in
  \<open>(0, budget]\<close>; in the last case one call reserves the cap, never more than the budget. \<open>hard-usd\<close> is
  refused whatever the routes claim about their gateways.
\<close>

theorem budget_contract:
  "(assertBudgetContract loop routes = None \<longleftrightarrow>
      resolveBudgetMode loop = Unlimited \<or>
      resolveBudgetMode loop = SubscriptionQuota \<and> numOr0 (budgetUsd loop) \<le> 0 \<or>
      resolveBudgetMode loop = EstimatedUsd \<and>
        (numOr0 (budgetUsd loop) \<le> 0 \<or>
         0 < numOr0 (maxCostPerCallUsd loop) \<and>
         numOr0 (maxCostPerCallUsd loop) \<le> numOr0 (budgetUsd loop) \<and>
         perCallReservation loop (numOr0 (budgetUsd loop)) = numOr0 (maxCostPerCallUsd loop))) \<and>
   (resolveBudgetMode loop = HardUsd \<longrightarrow> assertBudgetContract loop routes \<noteq> None)"
  by (cases "resolveBudgetMode loop")
     (auto simp: assertBudgetContract_def assertBudgetEnforceable_None perCallReservation_def Let_def
       split: option.splits)

theorem budget_contract_witness:
  "resolveBudgetMode \<lparr>budgetUsd = Some 5, maxCostPerCallUsd = Some 1, budgetMode = Some HardUsd\<rparr> = HardUsd \<and>
   assertBudgetContract \<lparr>budgetUsd = Some 5, maxCostPerCallUsd = Some 1, budgetMode = Some HardUsd\<rparr> [True] \<noteq> None"
proof -
  let ?p = "\<lparr>budgetUsd = Some 5, maxCostPerCallUsd = Some 1, budgetMode = Some HardUsd\<rparr> :: BudgetPolicy"
  have h: "resolveBudgetMode ?p = HardUsd" by (simp add: resolveBudgetMode_def)
  show ?thesis using h budget_contract [of ?p "[True]"] by blast
qed

end
