(* ===== verification/Attest.thy ===== *)
theory Attest
  imports Money
begin

text \<open>
  The evidence a settlement's authority rests on: process-scope identities (\<open>src/scope.ts\<close>), the exact
  adapter-call identity (\<open>src/ledger.ts\<close>, \<open>src/streaming.ts\<close>) and the ledger's MAC-tagged attestation
  (\<open>src/attest.ts\<close>).

  Strings are byte strings. HMAC-SHA256 under the ledger's key is the parameter \<open>mac\<close> (canonical bytes
  to a lower-case hexadecimal tag) and \<open>sha256(JSON.stringify(values))\<close> the parameter \<open>hashValues\<close>.
  Values that the schema types as safe integers are \<open>int\<close>; a typed field is a field of the right type,
  so of the shape tests only those on values remain.
\<close>

section \<open>Process scopes: src/scope.ts\<close>

datatype ScopeRef = Pgid int | Cgroup2 (cg_pid: int) (cg_name: string) (cg_ino: string)

datatype ScopeBackend = BPgid | BCgroup2

definition backendOf :: "ScopeRef \<Rightarrow> ScopeBackend" where
  "backendOf r = (case r of Pgid _ \<Rightarrow> BPgid | Cgroup2 _ _ _ \<Rightarrow> BCgroup2)"

definition scopePid :: "ScopeRef \<Rightarrow> int" where
  "scopePid r = (case r of Pgid p \<Rightarrow> p | Cgroup2 p _ _ \<Rightarrow> p)"

definition scopeIdOf :: "ScopeRef \<Rightarrow> string" where
  "scopeIdOf r = (case r of
     Pgid p \<Rightarrow> join_with (CHR '':'') [''pgid'', int_str p]
   | Cgroup2 p nm ino \<Rightarrow> join_with (CHR '':'') [''cgroup2'', ino, nm, int_str p])"

text \<open>\<open>[1-9][0-9]{0,k}\<close> and \<open>loop-[0-9a-f]{8,32}\<close>.\<close>

definition posDecimal :: "nat \<Rightarrow> string \<Rightarrow> bool" where
  "posDecimal k s = (case s of [] \<Rightarrow> False
     | c # cs \<Rightarrow> is_digit c \<and> c \<noteq> CHR ''0'' \<and> list_all is_digit cs \<and> length cs \<le> k)"

definition SCOPE_NAME :: "string \<Rightarrow> bool" where
  "SCOPE_NAME s \<longleftrightarrow> take 5 s = ''loop-'' \<and> list_all is_lower_hex (drop 5 s) \<and>
     8 \<le> length (drop 5 s) \<and> length (drop 5 s) \<le> 32"

definition parseScopeId :: "string option \<Rightarrow> ScopeRef option" where
  "parseScopeId sid = (case sid of None \<Rightarrow> None
   | Some s \<Rightarrow> (case split_on (CHR '':'') s of
       [t, d] \<Rightarrow> if t = ''pgid'' \<and> posDecimal 9 d then Some (Pgid (int (digits_val d))) else None
     | [t, ino, nm, d] \<Rightarrow>
         if t = ''cgroup2'' \<and> posDecimal 19 ino \<and> SCOPE_NAME nm \<and> posDecimal 9 d
         then Some (Cgroup2 (int (digits_val d)) nm ino) else None
     | _ \<Rightarrow> None))"

definition reapProofOf :: "ScopeRef \<Rightarrow> string" where
  "reapProofOf r = (case r of
     Pgid p \<Rightarrow> ''pgid-empty:ESRCH:'' @ int_str p
   | Cgroup2 p nm ino \<Rightarrow> ''cgroup2-empty:RMDIR:'' @ ino @ '':'' @ nm @ ''+pgid-empty:ESRCH:'' @ int_str p)"

definition scope_wf :: "ScopeRef \<Rightarrow> bool" where
  "scope_wf r = (0 < scopePid r \<and> scopePid r < 10 ^ 10 \<and>
     (case r of Pgid _ \<Rightarrow> True | Cgroup2 _ nm ino \<Rightarrow> SCOPE_NAME nm \<and> posDecimal 19 ino))"

section \<open>Adapter-call identities: src/streaming.ts and src/ledger.ts\<close>

datatype TransportKind = OneshotJsonl | OneshotText | RpcJsonl | AcpV1 | AppServerJsonRpc
datatype ProviderKind = Claude | Codex | Gemini | Custom
datatype RequestId = RidNum int | RidStr string

record ComponentId =
  comp_id :: string
  comp_version :: int

record ReplayBinding =
  adapterId :: string
  contractVersion :: int
  transportKind :: TransportKind
  wireVersion :: string
  codec :: ComponentId
  normalizer :: ComponentId

datatype Correlation =
    Oneshot ProviderKind
  | AcpSession string RequestId
  | AcpLifecycle RequestId RequestId RequestId
  | PiSession string string
  | PiLifecycle string string string string "string option"

record AdapterCallIdentity =
  replay :: ReplayBinding
  correlation :: Correlation
  runtimeIdentitySha256 :: "string option"

definition adapterString :: "nat \<Rightarrow> string \<Rightarrow> bool" where
  "adapterString mx s \<longleftrightarrow> s \<noteq> [] \<and> length s \<le> mx \<and> CHR 0x00 \<notin> set s"

definition isSafeInt :: "int \<Rightarrow> bool" where
  "isSafeInt n \<longleftrightarrow> \<bar>n\<bar> \<le> MAX_SAFE_INTEGER"

definition requestIdOk :: "RequestId \<Rightarrow> bool" where
  "requestIdOk r = (case r of RidNum n \<Rightarrow> isSafeInt n | RidStr s \<Rightarrow> adapterString 512 s)"

definition componentOk :: "ComponentId \<Rightarrow> bool" where
  "componentOk c \<longleftrightarrow> adapterString 128 (comp_id c) \<and> isSafeInt (comp_version c) \<and> 1 \<le> comp_version c"

definition validateAdapterCallIdentity :: "AdapterCallIdentity \<Rightarrow> string option" where
  "validateAdapterCallIdentity a =
     (let r = replay a in
      if (case runtimeIdentitySha256 a of None \<Rightarrow> False | Some h \<Rightarrow> \<not> isSha256Hex h)
      then Some ''runtime identity''
      else if \<not> adapterString 64 (adapterId r) then Some ''adapterId''
      else if \<not> isSafeInt (contractVersion r) \<or> contractVersion r < 1 then Some ''contractVersion''
      else if \<not> adapterString 128 (wireVersion r) then Some ''wireVersion''
      else if \<not> componentOk (codec r) then Some ''codec''
      else if \<not> componentOk (normalizer r) then Some ''normalizer''
      else (case correlation a of
          Oneshot pk \<Rightarrow>
            if transportKind r \<noteq> OneshotJsonl \<and> transportKind r \<noteq> OneshotText
            then Some ''transportKind'' else None
        | AcpSession sid rid \<Rightarrow>
            if \<not> adapterString 512 sid \<or> \<not> requestIdOk rid \<or> transportKind r \<noteq> AcpV1
            then Some ''ACP correlation'' else None
        | AcpLifecycle i n p \<Rightarrow>
            if \<not> (requestIdOk i \<and> requestIdOk n \<and> requestIdOk p) \<or> \<not> distinct [i, n, p] \<or>
               transportKind r \<noteq> AcpV1
            then Some ''ACP correlation'' else None
        | PiSession sid rid \<Rightarrow>
            if \<not> adapterString 512 sid \<or> \<not> adapterString 512 rid \<or> transportKind r \<noteq> RpcJsonl
            then Some ''Pi correlation'' else None
        | PiLifecycle st b p af c \<Rightarrow>
            let ids = [st, b, p, af] @ (case c of None \<Rightarrow> [] | Some x \<Rightarrow> [x]) in
            if \<not> list_all (adapterString 512) ids \<or> \<not> distinct ids \<or> transportKind r \<noteq> RpcJsonl
            then Some ''Pi correlation'' else None))"

text \<open>The list that \<open>adapterEvidenceIdentity\<close> serialises with \<open>JSON.stringify\<close> and hashes.\<close>

datatype JsonValue = JNull | JStr string | JNum int

definition transportName :: "TransportKind \<Rightarrow> string" where
  "transportName t = (case t of OneshotJsonl \<Rightarrow> ''oneshot-jsonl'' | OneshotText \<Rightarrow> ''oneshot-text''
     | RpcJsonl \<Rightarrow> ''rpc-jsonl'' | AcpV1 \<Rightarrow> ''acp-v1'' | AppServerJsonRpc \<Rightarrow> ''app-server-jsonrpc'')"

definition providerName :: "ProviderKind \<Rightarrow> string" where
  "providerName p = (case p of Claude \<Rightarrow> ''claude'' | Codex \<Rightarrow> ''codex'' | Gemini \<Rightarrow> ''gemini'' | Custom \<Rightarrow> ''custom'')"

definition ridJson :: "RequestId \<Rightarrow> JsonValue" where
  "ridJson r = (case r of RidNum n \<Rightarrow> JNum n | RidStr s \<Rightarrow> JStr s)"

definition correlationName :: "Correlation \<Rightarrow> string" where
  "correlationName c = (case c of Oneshot _ \<Rightarrow> ''oneshot'' | AcpSession _ _ \<Rightarrow> ''acp-v1''
     | AcpLifecycle _ _ _ \<Rightarrow> ''acp-v1'' | PiSession _ _ \<Rightarrow> ''pi-rpc'' | PiLifecycle _ _ _ _ _ \<Rightarrow> ''pi-rpc'')"

definition adapterEvidenceValues :: "AdapterCallIdentity \<Rightarrow> JsonValue list" where
  "adapterEvidenceValues a =
     (let r = replay a in
      [JStr (adapterId r), JNum (contractVersion r), JStr (transportName (transportKind r)),
       JStr (wireVersion r), JStr (comp_id (codec r)), JNum (comp_version (codec r)),
       JStr (comp_id (normalizer r)), JNum (comp_version (normalizer r)),
       JStr (correlationName (correlation a)),
       (case runtimeIdentitySha256 a of None \<Rightarrow> JNull | Some h \<Rightarrow> JStr h)] @
      (case correlation a of
         Oneshot p \<Rightarrow> [JStr (providerName p)]
       | AcpSession s p \<Rightarrow> [JStr s, ridJson p]
       | PiSession s p \<Rightarrow> [JStr s, JStr p]
       | AcpLifecycle i n p \<Rightarrow> [ridJson i, ridJson n, ridJson p]
       | PiLifecycle st b p af c \<Rightarrow>
           [JStr st, JStr b, JStr p, JStr af] @
           (case c of None \<Rightarrow> [] | Some x \<Rightarrow> if x = [] then [] else [JStr x])))"

definition adapterEvidenceIdentity :: "(JsonValue list \<Rightarrow> string) \<Rightarrow> AdapterCallIdentity \<Rightarrow> string + string" where
  "adapterEvidenceIdentity hashValues a =
     (case validateAdapterCallIdentity a of Some e \<Rightarrow> Inl e
      | None \<Rightarrow> Inr (''adapter-sha256:'' @ hashValues (adapterEvidenceValues a)))"

section \<open>Attestations: src/attest.ts\<close>

datatype AttestKind = AccountedTerminal | TrustedFallback
datatype CostProvenance = ProviderReported | UnknownCost

record AttestPayload =
  p_schema :: string
  p_kind :: AttestKind
  p_ledgerEpoch :: string
  p_runNonce :: string
  p_callId :: string
  p_callNonce :: string
  p_reservationId :: string
  p_routeEpoch :: int
  p_provider :: string
  p_model :: string
  p_providerKind :: string
  p_attempt :: int
  p_scopeBackend :: ScopeBackend
  p_scopeId :: string
  p_scopeReapProof :: string
  p_transcriptDev :: string
  p_transcriptIno :: string
  p_transcriptSha256 :: string
  p_transcriptBytes :: int
  p_terminalSha256 :: string
  p_terminalBytes :: int
  p_terminalOffset :: int
  p_limitSha256 :: "string option"
  p_limitBytes :: "int option"
  p_limitOffset :: "int option"
  p_usdNano :: string
  p_costProvenance :: CostProvenance
  p_ts :: string

record DurableAttestation =
  att_payload :: AttestPayload
  att_tag :: string

definition ATTEST_SCHEMA :: string where
  "ATTEST_SCHEMA = ''loop.ledger.attest.v2''"

definition DEC :: "string \<Rightarrow> bool" where
  "DEC s \<longleftrightarrow> s = ''0'' \<or> posDecimal (length s) s"

definition NANO :: "string \<Rightarrow> bool" where
  "NANO s = (DEC s \<or> (case s of [] \<Rightarrow> False | c # cs \<Rightarrow> c = CHR ''-'' \<and> DEC cs))"

definition longHex :: "string \<Rightarrow> bool" where
  "longHex s \<longleftrightarrow> 32 \<le> length s \<and> isHex s"

definition hasLimit :: "AttestPayload \<Rightarrow> bool" where
  "hasLimit p \<longleftrightarrow> p_limitSha256 p \<noteq> None \<or> p_limitBytes p \<noteq> None \<or> p_limitOffset p \<noteq> None"

definition limitFrameError :: "AttestPayload \<Rightarrow> string option" where
  "limitFrameError p =
     (if p_kind p = TrustedFallback then
        (if \<not> hasLimit p then Some ''fallback without limit frame''
         else case (p_limitSha256 p, p_limitBytes p, p_limitOffset p) of
             (Some h, Some b, Some off) \<Rightarrow>
               if \<not> isSha256Hex h then Some ''limitSha256''
               else if b \<le> 0 then Some ''limitBytes''
               else if off < 0 then Some ''limitOffset''
               else if off + b > p_transcriptBytes p then Some ''limit evidence'' else None
           | (None, _, _) \<Rightarrow> Some ''limitSha256''
           | (_, None, _) \<Rightarrow> Some ''limitBytes''
           | (_, _, None) \<Rightarrow> Some ''limitOffset'')
      else if hasLimit p then Some ''accounted terminal with limit frame'' else None)"

definition validatePayloadShape :: "AttestPayload \<Rightarrow> string option" where
  "validatePayloadShape p =
     (if p_schema p \<noteq> ATTEST_SCHEMA then Some ''schema''
      else if \<not> longHex (p_ledgerEpoch p) then Some ''ledgerEpoch''
      else if \<not> longHex (p_runNonce p) then Some ''runNonce''
      else if p_callId p = [] then Some ''callId''
      else if \<not> longHex (p_callNonce p) then Some ''callNonce''
      else if \<not> longHex (p_reservationId p) then Some ''reservationId''
      else if p_routeEpoch p < 0 then Some ''routeEpoch''
      else if p_provider p = [] then Some ''provider''
      else if p_model p = [] then Some ''model''
      else if p_providerKind p = [] then Some ''providerKind''
      else if p_attempt p < 0 then Some ''attempt''
      else case parseScopeId (Some (p_scopeId p)) of
          None \<Rightarrow> Some ''scopeId''
        | Some scope \<Rightarrow>
            if backendOf scope \<noteq> p_scopeBackend p then Some ''scope backend''
            else if p_scopeReapProof p \<noteq> reapProofOf scope then Some ''scopeReapProof''
            else if \<not> DEC (p_transcriptDev p) then Some ''transcriptDev''
            else if \<not> DEC (p_transcriptIno p) then Some ''transcriptIno''
            else if \<not> isSha256Hex (p_transcriptSha256 p) then Some ''transcriptSha256''
            else if p_transcriptBytes p \<le> 0 then Some ''transcriptBytes''
            else if \<not> isSha256Hex (p_terminalSha256 p) then Some ''terminalSha256''
            else if p_terminalBytes p \<le> 0 then Some ''terminalBytes''
            else if p_terminalOffset p < 0 then Some ''terminalOffset''
            else if p_terminalOffset p + p_terminalBytes p > p_transcriptBytes p then Some ''terminal evidence''
            else case limitFrameError p of Some e \<Rightarrow> Some e
              | None \<Rightarrow>
                  if \<not> NANO (p_usdNano p) then Some ''usdNano''
                  else if p_costProvenance p = UnknownCost \<and> p_usdNano p \<noteq> ''0'' then Some ''unknown cost charged''
                  else if p_ts p = [] then Some ''ts''
                  else None)"

text \<open>The canonical encoding: every field in fixed order, length-prefixed, absent fields marked.\<close>

definition put :: "string \<Rightarrow> string option \<Rightarrow> string" where
  "put name v = (case v of None \<Rightarrow> name @ '':-''
     | Some s \<Rightarrow> name @ '':'' @ nat_digits (length s) @ '':'' @ s)"

definition kindName :: "AttestKind \<Rightarrow> string" where
  "kindName k = (case k of AccountedTerminal \<Rightarrow> ''accounted-terminal'' | TrustedFallback \<Rightarrow> ''trusted-fallback'')"

definition backendName :: "ScopeBackend \<Rightarrow> string" where
  "backendName b = (case b of BPgid \<Rightarrow> ''pgid'' | BCgroup2 \<Rightarrow> ''cgroup2'')"

definition provenanceName :: "CostProvenance \<Rightarrow> string" where
  "provenanceName c = (case c of ProviderReported \<Rightarrow> ''provider-reported'' | UnknownCost \<Rightarrow> ''unknown'')"

definition payload_fields :: "AttestPayload \<Rightarrow> (string \<times> string option) list" where
  "payload_fields p =
    [(''schema'', Some (p_schema p)), (''kind'', Some (kindName (p_kind p))),
     (''ledgerEpoch'', Some (p_ledgerEpoch p)), (''runNonce'', Some (p_runNonce p)),
     (''callId'', Some (p_callId p)), (''callNonce'', Some (p_callNonce p)),
     (''reservationId'', Some (p_reservationId p)), (''routeEpoch'', Some (int_str (p_routeEpoch p))),
     (''provider'', Some (p_provider p)), (''model'', Some (p_model p)),
     (''providerKind'', Some (p_providerKind p)), (''attempt'', Some (int_str (p_attempt p))),
     (''scopeBackend'', Some (backendName (p_scopeBackend p))), (''scopeId'', Some (p_scopeId p)),
     (''scopeReapProof'', Some (p_scopeReapProof p)), (''transcriptDev'', Some (p_transcriptDev p)),
     (''transcriptIno'', Some (p_transcriptIno p)), (''transcriptSha256'', Some (p_transcriptSha256 p)),
     (''transcriptBytes'', Some (int_str (p_transcriptBytes p))),
     (''terminalSha256'', Some (p_terminalSha256 p)), (''terminalBytes'', Some (int_str (p_terminalBytes p))),
     (''terminalOffset'', Some (int_str (p_terminalOffset p))), (''limitSha256'', p_limitSha256 p),
     (''limitBytes'', map_option int_str (p_limitBytes p)),
     (''limitOffset'', map_option int_str (p_limitOffset p)), (''usdNano'', Some (p_usdNano p)),
     (''costProvenance'', Some (provenanceName (p_costProvenance p))), (''ts'', Some (p_ts p))]"

definition canonical :: "AttestPayload \<Rightarrow> string" where
  "canonical p = join_with (CHR ''|'') (map (\<lambda>(n, v). put n v) (payload_fields p))"

definition tagPayload :: "(string \<Rightarrow> string) \<Rightarrow> AttestPayload \<Rightarrow> string" where
  "tagPayload mac p = mac (canonical p)"

definition verifyAttestation :: "(string \<Rightarrow> string) \<Rightarrow> DurableAttestation \<Rightarrow> string option" where
  "verifyAttestation mac a =
     (if \<not> isSha256Hex (att_tag a) then Some ''tag''
      else case validatePayloadShape (att_payload a) of Some e \<Rightarrow> Some e
        | None \<Rightarrow> if att_tag a \<noteq> tagPayload mac (att_payload a) then Some ''tag does not verify'' else None)"

section \<open>Scope identities round-trip\<close>

lemma is_digit_not_colon [simp]: "\<not> is_digit (CHR '':'')"
  by (simp add: is_digit_def)

lemma colon_not_in_digits: "list_all is_digit s \<Longrightarrow> CHR '':'' \<notin> set s"
  by (auto simp: list_all_iff)

lemma colon_not_in_nat_digits [simp]: "CHR '':'' \<notin> set (nat_digits n)"
  by (rule colon_not_in_digits [OF nat_digits_all_digits])

lemma posDecimal_no_colon: "posDecimal k s \<Longrightarrow> CHR '':'' \<notin> set s"
  by (auto simp: posDecimal_def list_all_iff split: list.splits)

lemma SCOPE_NAME_no_colon:
  assumes "SCOPE_NAME s" shows "CHR '':'' \<notin> set s"
proof -
  have s: "s = ''loop-'' @ drop 5 s"
    using assms append_take_drop_id [of 5 s] by (simp add: SCOPE_NAME_def)
  have "CHR '':'' \<notin> set (drop 5 s)"
    using assms by (auto simp: SCOPE_NAME_def list_all_iff is_lower_hex_def is_digit_def simp del: set_drop_subset)
  then show ?thesis by (subst s) simp
qed

lemma digit_char_zero_iff: "d < 10 \<Longrightarrow> digit_char d = CHR ''0'' \<longleftrightarrow> d = 0"
proof
  assume "d < 10" "digit_char d = CHR ''0''"
  then have "digit_val (CHR ''0'') = d" using digit_char_inverse [of d] by simp
  then show "d = 0" by (simp add: digit_val_def)
qed (simp add: digit_char_def char_of_def bit_0)

lemma nat_digits_posDecimal: "0 < n \<Longrightarrow> n < 10 ^ Suc k \<Longrightarrow> posDecimal k (nat_digits n)"
proof (induction n arbitrary: k rule: nat_digits.induct)
  case (1 n)
  show ?case
  proof (cases "n < 10")
    case True
    with "1.prems" show ?thesis
      by (simp add: nat_digits.simps [of n] posDecimal_def digit_char_zero_iff)
  next
    case False
    then obtain k' where k: "k = Suc k'" using "1.prems" by (cases k) auto
    have "n div 10 < 10 ^ Suc k'" using "1.prems" by (simp add: k less_mult_imp_div_less)
    with "1.IH" [OF False, of k'] False have "posDecimal k' (nat_digits (n div 10))" by simp
    with False show ?thesis
      by (auto simp: nat_digits.simps [of n] posDecimal_def k split: list.splits)
  qed
qed

lemma parseScopeId_scopeIdOf:
  assumes "scope_wf r"
  shows "parseScopeId (Some (scopeIdOf r)) = Some r"
proof -
  let ?d = "nat_digits (nat (scopePid r))"
  have pd: "posDecimal 9 ?d"
    using assms by (intro nat_digits_posDecimal) (auto simp: scope_wf_def nat_less_iff)
  have str: "int_str (scopePid r) = ?d" and bk: "int (digits_val ?d) = scopePid r"
    using assms by (auto simp: scope_wf_def int_str_def nat_digits_roundtrip)
  show ?thesis
  proof (cases r)
    case (Pgid p)
    have "split_on (CHR '':'') (scopeIdOf r) = [''pgid'', ?d]"
      using Pgid str by (simp add: scopeIdOf_def scopePid_def split_on_no_sep)
    with pd bk Pgid show ?thesis by (simp add: parseScopeId_def scopePid_def)
  next
    case (Cgroup2 p nm ino)
    with assms have wf: "SCOPE_NAME nm" "posDecimal 19 ino" by (auto simp: scope_wf_def)
    have "split_on (CHR '':'') (scopeIdOf r) = [''cgroup2'', ino, nm, ?d]"
      using Cgroup2 str wf
      by (simp add: scopeIdOf_def scopePid_def SCOPE_NAME_no_colon posDecimal_no_colon
          split_on_append_sep split_on_no_sep)
    with pd bk Cgroup2 wf show ?thesis by (simp add: parseScopeId_def scopePid_def)
  qed
qed

section \<open>The canonical encoding is injective\<close>

lemma digits_colon_cancel:
  assumes "nat_digits m @ CHR '':'' # s = nat_digits n @ CHR '':'' # t"
  shows "m = n \<and> s = t"
proof -
  have "takeWhile (\<lambda>c. c \<noteq> CHR '':'') (nat_digits m @ CHR '':'' # s) = nat_digits m" for m s
    by (subst takeWhile_append2) auto
  with assms have "nat_digits m = nat_digits n" by metis
  with assms show ?thesis by (auto dest: nat_digits_inj)
qed

lemma put_cancel:
  assumes "put n v @ r = put n w @ r'"
  shows "v = w \<and> r = r'"
proof -
  have none_some: "CHR ''-'' # r \<noteq> nat_digits k @ s" for r k s
    using nat_digits_no_minus [of k] by (cases "nat_digits k") (auto simp: nat_digits_nonempty)
  show ?thesis
    using assms none_some none_some [symmetric]
    by (cases v; cases w) (auto simp: put_def dest: digits_colon_cancel)
qed

lemma join_with_Cons:
  "join_with c (p # ps) = p @ (if ps = [] then [] else c # join_with c ps)"
  by (cases ps) auto

lemma encode_fields_inj:
  "map fst xs = map fst ys \<Longrightarrow>
   join_with c (map (\<lambda>(n, v). put n v) xs) = join_with c (map (\<lambda>(n, v). put n v) ys) \<Longrightarrow> xs = ys"
proof (induction xs arbitrary: ys)
  case Nil
  then show ?case by simp
next
  case (Cons x xs)
  then obtain y ys' where ys: "ys = y # ys'" "fst x = fst y" "map fst xs = map fst ys'"
    by (cases ys) auto
  obtain n v w where x: "x = (n, v)" and y: "y = (n, w)" using ys(2) by (cases x; cases y) auto
  have "v = w \<and> (if xs = [] then [] else c # join_with c (map (\<lambda>(n, v). put n v) xs)) =
      (if ys' = [] then [] else c # join_with c (map (\<lambda>(n, v). put n v) ys'))"
    using Cons.prems(2) by (intro put_cancel) (simp add: ys(1) x y join_with_Cons)
  with ys x y Cons.IH [OF ys(3)] show ?case by (auto split: if_splits)
qed

lemma payload_fields_names: "map fst (payload_fields p) = map fst (payload_fields q)"
  by (simp add: payload_fields_def)

lemma enum_names_inj:
  "kindName k = kindName k' \<longleftrightarrow> k = k'" "backendName b = backendName b' \<longleftrightarrow> b = b'"
  "provenanceName c = provenanceName c' \<longleftrightarrow> c = c'"
proof -
  show "kindName k = kindName k' \<longleftrightarrow> k = k'" by (cases k; cases k') (simp_all add: kindName_def)
  show "backendName b = backendName b' \<longleftrightarrow> b = b'" by (cases b; cases b') (simp_all add: backendName_def)
  show "provenanceName c = provenanceName c' \<longleftrightarrow> c = c'"
    by (cases c; cases c') (simp_all add: provenanceName_def)
qed

lemma payload_fields_inj:
  assumes "payload_fields p = payload_fields q" shows "p = (q :: AttestPayload)"
proof -
  have opt: "map_option int_str a = map_option int_str b \<longleftrightarrow> a = b" for a b
    by (cases a; cases b) (auto simp: int_str_inj)
  from assms show ?thesis
    by (intro AttestPayload.equality)
       (simp_all add: payload_fields_def enum_names_inj int_str_inj opt)
qed

lemma canonical_inj: "canonical p = canonical q \<longleftrightarrow> p = (q :: AttestPayload)"
  using encode_fields_inj [OF payload_fields_names, of "CHR ''|''" p q] payload_fields_inj
  unfolding canonical_def by auto

lemma verifyAttestation_None:
  "verifyAttestation mac a = None \<longleftrightarrow>
     isSha256Hex (att_tag a) \<and> validatePayloadShape (att_payload a) = None \<and>
     att_tag a = mac (canonical (att_payload a))"
  by (auto simp: verifyAttestation_def tagPayload_def split: option.splits)

lemma shape_limit: "validatePayloadShape p = None \<Longrightarrow> limitFrameError p = None"
  by (auto simp: validatePayloadShape_def split: if_splits option.splits)

lemma shape_unknown_cost:
  "validatePayloadShape p = None \<Longrightarrow> p_costProvenance p = UnknownCost \<Longrightarrow> p_usdNano p = ''0''"
  by (auto simp: validatePayloadShape_def split: if_splits option.splits)

lemma limitFrame_kind:
  "limitFrameError p = None \<Longrightarrow>
     (p_kind p = TrustedFallback) = (p_limitSha256 p \<noteq> None \<and> p_limitBytes p \<noteq> None \<and> p_limitOffset p \<noteq> None)"
  by (cases "p_kind p") (auto simp: limitFrameError_def hasLimit_def split: if_splits option.splits)

section \<open>Properties\<close>

text \<open>
  The attestation MAC covers the whole payload: when the MAC has no collision among the payloads
  in question, two authentic attestations with the same tag carry the same payload, field for field, so
  no field can be edited or moved to another record without invalidating the tag.
\<close>

theorem attestation_binds_payload:
  assumes "inj_on mac (canonical ` S)" and "att_payload a \<in> S" and "att_payload b \<in> S"
    and "verifyAttestation mac a = None" and "verifyAttestation mac b = None"
    and "att_tag a = att_tag b"
  shows "att_payload a = att_payload b"
proof -
  have "mac (canonical (att_payload a)) = mac (canonical (att_payload b))"
    using assms(4-6) by (simp add: verifyAttestation_None)
  then have "canonical (att_payload a) = canonical (att_payload b)"
    by (rule inj_onD [OF assms(1)]) (use assms(2,3) in blast)+
  then show ?thesis by (simp only: canonical_inj)
qed

text \<open>Concrete evidence used by the witnesses: a cgroup scope, an accounted terminal, a constant tag.\<close>

definition zeros64 :: string where
  "zeros64 = replicate 64 CHR ''0''"

definition example_scope :: ScopeRef where
  "example_scope = Cgroup2 4242 ''loop-0a1b2c3d'' ''77''"

definition example_payload :: AttestPayload where
  "example_payload = \<lparr>p_schema = ATTEST_SCHEMA, p_kind = AccountedTerminal, p_ledgerEpoch = zeros64,
     p_runNonce = zeros64, p_callId = ''c1'', p_callNonce = zeros64, p_reservationId = zeros64,
     p_routeEpoch = 0, p_provider = ''claude'', p_model = ''m'', p_providerKind = ''claude'', p_attempt = 0,
     p_scopeBackend = BCgroup2, p_scopeId = scopeIdOf example_scope,
     p_scopeReapProof = reapProofOf example_scope, p_transcriptDev = ''1'', p_transcriptIno = ''2'',
     p_transcriptSha256 = zeros64, p_transcriptBytes = 10, p_terminalSha256 = zeros64,
     p_terminalBytes = 4, p_terminalOffset = 6, p_limitSha256 = None, p_limitBytes = None,
     p_limitOffset = None, p_usdNano = ''1000000'', p_costProvenance = ProviderReported, p_ts = ''t''\<rparr>"

definition example_attestation :: DurableAttestation where
  "example_attestation = \<lparr>att_payload = example_payload, att_tag = zeros64\<rparr>"

lemma zeros64_ok [simp]: "isSha256Hex zeros64" "longHex zeros64"
  by (simp_all add: zeros64_def isSha256Hex_def longHex_def isHex_def list_all_iff is_lower_hex_def is_digit_def)

lemma example_scope_ok [simp]: "parseScopeId (Some (scopeIdOf example_scope)) = Some example_scope"
  by (rule parseScopeId_scopeIdOf)
     (simp add: scope_wf_def example_scope_def scopePid_def SCOPE_NAME_def posDecimal_def is_digit_def
       is_lower_hex_def)

lemma example_attestation_ok: "verifyAttestation (\<lambda>_. zeros64) example_attestation = None"
  by (simp add: verifyAttestation_None example_attestation_def example_payload_def validatePayloadShape_def
      ATTEST_SCHEMA_def backendOf_def DEC_def NANO_def posDecimal_def is_digit_def limitFrameError_def
      hasLimit_def, simp add: example_scope_def)

theorem attestation_binds_payload_witness:
  "att_payload example_attestation = att_payload (example_attestation\<lparr>att_tag := zeros64\<rparr>)"
proof (rule attestation_binds_payload [where S = "{example_payload}" and mac = "\<lambda>_. zeros64"])
  show "verifyAttestation (\<lambda>_. zeros64) example_attestation = None"
    by (rule example_attestation_ok)
  then show "verifyAttestation (\<lambda>_. zeros64) (example_attestation\<lparr>att_tag := zeros64\<rparr>) = None"
    by (simp add: example_attestation_def)
qed (simp_all add: example_attestation_def)

text \<open>
  C37. The two authorities are exclusive on disk: an authentic attestation pins a \<open>rate_limit_event\<close>
  frame exactly when it is a \<open>trusted-fallback\<close>, and an attestation of unknown cost charges nothing.
\<close>

theorem attestation_kinds_exclusive:
  assumes "verifyAttestation mac a = None"
  shows "((p_kind (att_payload a) = TrustedFallback) =
      (p_limitSha256 (att_payload a) \<noteq> None \<and> p_limitBytes (att_payload a) \<noteq> None \<and>
       p_limitOffset (att_payload a) \<noteq> None)) \<and>
    (p_costProvenance (att_payload a) = UnknownCost \<longrightarrow> p_usdNano (att_payload a) = ''0'')"
proof -
  have shape: "validatePayloadShape (att_payload a) = None"
    using assms by (simp add: verifyAttestation_None)
  show ?thesis
    by (intro conjI impI limitFrame_kind shape_limit shape_unknown_cost shape)
qed

theorem attestation_kinds_exclusive_witness:
  "p_kind (att_payload example_attestation) \<noteq> TrustedFallback \<and>
   p_limitSha256 (att_payload example_attestation) = None"
  using attestation_kinds_exclusive [OF example_attestation_ok]
  by (simp add: example_attestation_def example_payload_def)

text \<open>
  C39. A scope identity read back is the scope that was written: every process scope the host can own
  prints to an identity string that \<open>parseScopeId\<close> maps to the same scope.
\<close>

theorem scope_id_roundtrip: "scope_wf r \<Longrightarrow> parseScopeId (Some (scopeIdOf r)) = Some r"
  by (rule parseScopeId_scopeIdOf)

theorem scope_id_roundtrip_witness:
  "scope_wf (Cgroup2 4242 ''loop-0a1b2c3d'' ''77'') \<and>
   parseScopeId (Some (scopeIdOf (Cgroup2 4242 ''loop-0a1b2c3d'' ''77''))) = Some (Cgroup2 4242 ''loop-0a1b2c3d'' ''77'')"
proof -
  have h: "scope_wf (Cgroup2 4242 ''loop-0a1b2c3d'' ''77'')" by code_simp
  show ?thesis using h scope_id_roundtrip [OF h] by blast
qed

end
