(* ===== verification/Ledger.thy ===== *)
theory Ledger
  imports Attest
begin

text \<open>
  The money ledger of \<open>src/ledger.ts\<close> above its bytes: call bindings, journal records and their
  validation, the replay of the journal into per-call reservations, the effective spend, and the
  decisions of \<open>reserve\<close>, \<open>settleUncertain\<close>, \<open>#attestAndSettle\<close> and \<open>#attestFallback\<close>. The hash-chained
  bytes, the write-ahead log and the transaction that appends a decided record are in \<open>Ledger_File\<close>.

  The record \<open>Prims\<close> holds the primitives of the platform: HMAC under the ledger's key, SHA-256, and
  \<open>JSON.stringify\<close>/\<open>JSON.parse\<close> on the typed values. \<open>Generation\<close> is the part of the manifest a fold
  reads. Money inside a record stays the decimal string the journal holds.
\<close>

section \<open>Records\<close>

record EgressAuthority =
  eg_policySha256 :: string
  eg_probeReceiptSha256 :: string
  eg_socketIdentitySha256 :: string

record EgressEvidence =
  ev_policySha256 :: string
  ev_probeReceiptSha256 :: string
  ev_decisionLogSha256 :: string
  ev_socketIdentitySha256 :: string
  ev_cleanupSha256 :: string

record CallBinding =
  b_runNonce :: string
  b_callNonce :: string
  b_callId :: string
  b_reservationId :: string
  b_routeEpoch :: int
  b_provider :: string
  b_model :: string
  b_attempt :: int
  b_intentSha256 :: string
  b_stdinSha256 :: string
  b_stdinBytes :: int
  b_adapter :: "AdapterCallIdentity option"
  b_egress :: "EgressAuthority option"

record ReserveData =
  r_callId :: string
  r_worstCaseNano :: string
  r_enforced :: bool
  r_ts :: string
  r_epoch :: string
  r_bind :: CallBinding

record SettleData =
  s_callId :: string
  s_usdNano :: string
  s_reported :: bool
  s_ts :: string
  s_epoch :: string
  s_bind :: CallBinding
  s_attest :: "DurableAttestation option"
  s_egress :: "EgressEvidence option"

datatype JournalData = Reserve ReserveData | Settle SettleData

record JournalRecord =
  rec_seq :: nat
  rec_prev :: string
  rec_hash :: string
  rec_data :: JournalData

record Prims =
  pm_mac :: "string \<Rightarrow> string"
  pm_sha256 :: "string \<Rightarrow> string"
  pm_hashValues :: "JsonValue list \<Rightarrow> string"
  pm_jsonData :: "JournalData \<Rightarrow> string"
  pm_jsonRecord :: "JournalRecord \<Rightarrow> string"
  pm_parseRecord :: "string \<Rightarrow> JournalRecord option"

record Generation =
  g_epoch :: string
  g_genesis :: string
  g_runNonce :: string

datatype LedgerError =
    RecoveryRequired string | CorruptJournal string | MoneyErr MoneyError | MintRefused string | IoFailure string

section \<open>Validation\<close>

definition validateGrokEgressEvidence :: "EgressEvidence \<Rightarrow> CallBinding \<Rightarrow> string option" where
  "validateGrokEgressEvidence e b =
     (if \<not> list_all isSha256Hex [ev_policySha256 e, ev_probeReceiptSha256 e, ev_decisionLogSha256 e,
          ev_socketIdentitySha256 e, ev_cleanupSha256 e] then Some ''invalid settlement egress''
      else case b_egress b of None \<Rightarrow> Some ''egress not authorized''
        | Some a \<Rightarrow>
            if ev_policySha256 e \<noteq> eg_policySha256 a \<or> ev_probeReceiptSha256 e \<noteq> eg_probeReceiptSha256 a \<or>
               ev_socketIdentitySha256 e \<noteq> eg_socketIdentitySha256 a
            then Some ''egress mismatch'' else None)"

definition validateBinding :: "CallBinding \<Rightarrow> string option" where
  "validateBinding b =
     (if \<not> longHex (b_runNonce b) then Some ''runNonce''
      else if \<not> longHex (b_callNonce b) then Some ''callNonce''
      else if b_callId b = [] then Some ''callId''
      else if \<not> longHex (b_reservationId b) then Some ''reservationId''
      else if b_routeEpoch b < 0 then Some ''routeEpoch''
      else if b_provider b = [] then Some ''provider''
      else if b_model b = [] then Some ''model''
      else if b_attempt b < 0 then Some ''attempt''
      else if \<not> isSha256Hex (b_intentSha256 b) then Some ''intentSha256''
      else if \<not> isSha256Hex (b_stdinSha256 b) then Some ''stdinSha256''
      else if b_stdinBytes b < 0 then Some ''stdinBytes''
      else case (case b_adapter b of None \<Rightarrow> None | Some a \<Rightarrow> validateAdapterCallIdentity a) of
          Some e \<Rightarrow> Some e
        | None \<Rightarrow> (case b_egress b of None \<Rightarrow> None
            | Some g \<Rightarrow>
                if \<not> list_all isSha256Hex [eg_policySha256 g, eg_probeReceiptSha256 g, eg_socketIdentitySha256 g]
                then Some ''egress authority''
                else case b_adapter b of None \<Rightarrow> Some ''egress belongs only to grok''
                  | Some a \<Rightarrow> if adapterId (replay a) \<noteq> ''grok'' then Some ''egress belongs only to grok'' else None))"

definition attestationBindingError :: "Prims \<Rightarrow> Generation \<Rightarrow> SettleData \<Rightarrow> string option" where
  "attestationBindingError P G s =
     (case s_attest s of None \<Rightarrow> None
      | Some a \<Rightarrow>
          (case verifyAttestation (pm_mac P) a of Some e \<Rightarrow> Some e
           | None \<Rightarrow>
               let p = att_payload a; b = s_bind s in
               if p_ledgerEpoch p \<noteq> g_epoch G then Some ''epoch''
               else if p_runNonce p \<noteq> g_runNonce G then Some ''runNonce''
               else if p_callId p \<noteq> s_callId s then Some ''callId''
               else if p_callId p \<noteq> b_callId b then Some ''callId''
               else if p_callNonce p \<noteq> b_callNonce b then Some ''callNonce''
               else if p_reservationId p \<noteq> b_reservationId b then Some ''reservationId''
               else if p_routeEpoch p \<noteq> b_routeEpoch b then Some ''routeEpoch''
               else if p_provider p \<noteq> b_provider b then Some ''provider''
               else if p_model p \<noteq> b_model b then Some ''model''
               else if p_attempt p \<noteq> b_attempt b then Some ''attempt''
               else if (case b_adapter b of None \<Rightarrow> False
                        | Some ad \<Rightarrow> Inr (p_providerKind p) \<noteq> adapterEvidenceIdentity (pm_hashValues P) ad)
                    then Some ''adapter replay identity''
               else if p_usdNano p \<noteq> s_usdNano s then Some ''usdNano''
               else if s_reported s \<noteq> (p_costProvenance p = ProviderReported) then Some ''reported''
               else None))"

definition costIsTrusted :: "Prims \<Rightarrow> Generation \<Rightarrow> SettleData \<Rightarrow> bool" where
  "costIsTrusted P G s =
     (case s_attest s of None \<Rightarrow> False
      | Some a \<Rightarrow> s_reported s \<and> attestationBindingError P G s = None \<and>
          p_costProvenance (att_payload a) = ProviderReported)"

definition authorizesFallback :: "Prims \<Rightarrow> Generation \<Rightarrow> SettleData \<Rightarrow> bool" where
  "authorizesFallback P G s =
     (case s_attest s of None \<Rightarrow> False
      | Some a \<Rightarrow> attestationBindingError P G s = None \<and> p_kind (att_payload a) = TrustedFallback)"

definition moneyOk :: "string \<Rightarrow> string option" where
  "moneyOk v = (case parseNano v of Inl _ \<Rightarrow> Some ''money'' | Inr _ \<Rightarrow> None)"

definition dataTs :: "JournalData \<Rightarrow> string" where
  "dataTs d = (case d of Reserve r \<Rightarrow> r_ts r | Settle s \<Rightarrow> s_ts s)"

definition dataCallId :: "JournalData \<Rightarrow> string" where
  "dataCallId d = (case d of Reserve r \<Rightarrow> r_callId r | Settle s \<Rightarrow> s_callId s)"

definition dataEpoch :: "JournalData \<Rightarrow> string" where
  "dataEpoch d = (case d of Reserve r \<Rightarrow> r_epoch r | Settle s \<Rightarrow> s_epoch s)"

definition dataBind :: "JournalData \<Rightarrow> CallBinding" where
  "dataBind d = (case d of Reserve r \<Rightarrow> r_bind r | Settle s \<Rightarrow> s_bind s)"

text \<open>The part of \<open>validateRecordSchema\<close> that concerns \<open>rec.data\<close>.\<close>

definition validateData :: "Prims \<Rightarrow> Generation \<Rightarrow> JournalData \<Rightarrow> string option" where
  "validateData P G d =
     (if dataTs d = [] then Some ''ts''
      else if dataCallId d = [] then Some ''callId''
      else if dataEpoch d \<noteq> g_epoch G then Some ''epoch''
      else case validateBinding (dataBind d) of Some e \<Rightarrow> Some e
        | None \<Rightarrow>
            if b_runNonce (dataBind d) \<noteq> g_runNonce G then Some ''runNonce''
            else if b_callId (dataBind d) \<noteq> dataCallId d then Some ''callId binding''
            else case d of
                Reserve r \<Rightarrow> moneyOk (r_worstCaseNano r)
              | Settle s \<Rightarrow>
                  (case moneyOk (s_usdNano s) of Some e \<Rightarrow> Some e
                   | None \<Rightarrow>
                       (case (if s_attest s \<noteq> None then attestationBindingError P G s else None) of
                          Some e \<Rightarrow> Some e
                        | None \<Rightarrow>
                            (case s_egress s of
                               Some ev \<Rightarrow> validateGrokEgressEvidence ev (s_bind s)
                             | None \<Rightarrow>
                                 if b_egress (s_bind s) \<noteq> None \<and> s_attest s \<noteq> None
                                 then Some ''missing egress evidence'' else None))))"

definition validateRecordSchema :: "Prims \<Rightarrow> Generation \<Rightarrow> JournalRecord \<Rightarrow> string option" where
  "validateRecordSchema P G r =
     (if rec_prev r = [] then Some ''prev''
      else if rec_hash r = [] then Some ''hash''
      else validateData P G (rec_data r))"

definition bindingMismatch :: "Prims \<Rightarrow> CallBinding \<Rightarrow> CallBinding \<Rightarrow> string option" where
  "bindingMismatch P rv st =
     (if b_runNonce rv \<noteq> b_runNonce st then Some ''runNonce''
      else if b_callNonce rv \<noteq> b_callNonce st then Some ''callNonce''
      else if b_callId rv \<noteq> b_callId st then Some ''callId''
      else if b_reservationId rv \<noteq> b_reservationId st then Some ''reservationId''
      else if b_routeEpoch rv \<noteq> b_routeEpoch st then Some ''routeEpoch''
      else if b_provider rv \<noteq> b_provider st then Some ''provider''
      else if b_model rv \<noteq> b_model st then Some ''model''
      else if b_attempt rv \<noteq> b_attempt st then Some ''attempt''
      else if b_intentSha256 rv \<noteq> b_intentSha256 st then Some ''intentSha256''
      else if b_stdinSha256 rv \<noteq> b_stdinSha256 st then Some ''stdinSha256''
      else if b_stdinBytes rv \<noteq> b_stdinBytes st then Some ''stdinBytes''
      else if (b_adapter rv = None) \<noteq> (b_adapter st = None) \<or>
              (case (b_adapter rv, b_adapter st) of
                 (Some x, Some y) \<Rightarrow>
                   adapterEvidenceIdentity (pm_hashValues P) x \<noteq> adapterEvidenceIdentity (pm_hashValues P) y
               | _ \<Rightarrow> False) then Some ''adapter''
      else if b_egress rv \<noteq> b_egress st then Some ''egress''
      else None)"

section \<open>Replay\<close>

record Reservation =
  worstCase :: int
  enforced :: bool
  settled :: bool
  trustedUsd :: "int option"
  fallbackAuthorized :: bool
  over :: bool
  res_bind :: CallBinding

type_synonym FoldState = "Reservation obj \<times> string list"

definition foldReserve :: "ReserveData \<Rightarrow> FoldState \<Rightarrow> LedgerError + FoldState" where
  "foldReserve r st =
     (let (m, spentNonces) = st in
      if obj_has m (r_callId r) then Inl (CorruptJournal ''duplicate/re-reserve'')
      else if b_callNonce (r_bind r) \<in> set spentNonces then Inl (CorruptJournal ''replayed call nonce'')
      else case parseNano (r_worstCaseNano r) of Inl e \<Rightarrow> Inl (MoneyErr e)
        | Inr w \<Rightarrow>
            Inr (obj_set (r_callId r)
                   \<lparr>worstCase = w, enforced = r_enforced r, settled = False, trustedUsd = None,
                    fallbackAuthorized = False, over = False, res_bind = r_bind r\<rparr> m,
                 b_callNonce (r_bind r) # spentNonces))"

definition settleReservation :: "Prims \<Rightarrow> Generation \<Rightarrow> SettleData \<Rightarrow> Reservation \<Rightarrow> LedgerError + Reservation" where
  "settleReservation P G s cur =
     (case (if costIsTrusted P G s
            then (case parseNano (s_usdNano s) of Inl e \<Rightarrow> Inl (MoneyErr e) | Inr u \<Rightarrow> Inr (Some u))
            else Inr None) of
        Inl e \<Rightarrow> Inl e
      | Inr t \<Rightarrow>
          Inr (cur\<lparr>settled := True, trustedUsd := t, fallbackAuthorized := authorizesFallback P G s,
                   over := (over cur \<or> enforced cur \<and> (case t of None \<Rightarrow> False | Some u \<Rightarrow> u > worstCase cur))\<rparr>))"

definition foldSettle :: "Prims \<Rightarrow> Generation \<Rightarrow> SettleData \<Rightarrow> FoldState \<Rightarrow> LedgerError + FoldState" where
  "foldSettle P G s st =
     (let (m, spentNonces) = st in
      case obj_get m (s_callId s) of None \<Rightarrow> Inl (CorruptJournal ''orphan settle'')
      | Some cur \<Rightarrow>
          if settled cur then Inl (CorruptJournal ''duplicate settle'')
          else case bindingMismatch P (res_bind cur) (s_bind s) of
              Some e \<Rightarrow> Inl (CorruptJournal ''settlement identity mismatch'')
            | None \<Rightarrow>
                (case settleReservation P G s cur of Inl e \<Rightarrow> Inl e
                 | Inr cur' \<Rightarrow> Inr (obj_set (s_callId s) cur' m, spentNonces)))"

definition foldStep :: "Prims \<Rightarrow> Generation \<Rightarrow> FoldState \<Rightarrow> JournalData \<Rightarrow> LedgerError + FoldState" where
  "foldStep P G st d = (case d of Reserve r \<Rightarrow> foldReserve r st | Settle s \<Rightarrow> foldSettle P G s st)"

definition foldReservations :: "Prims \<Rightarrow> Generation \<Rightarrow> JournalData list \<Rightarrow> LedgerError + Reservation obj" where
  "foldReservations P G datas =
     (case fold_res (foldStep P G) ([], []) datas of Inl e \<Rightarrow> Inl e | Inr st \<Rightarrow> Inr (fst st))"

definition charge :: "Reservation \<Rightarrow> int" where
  "charge r = (case (settled r, trustedUsd r) of (True, Some u) \<Rightarrow> u | _ \<Rightarrow> worstCase r)"

definition spendOf :: "Reservation obj \<Rightarrow> int" where
  "spendOf m = sum_list (map charge (obj_values m))"

section \<open>Decisions of the transactions\<close>

text \<open>The callbacks that \<open>txn\<close> runs under the lock on the folded journal: \<open>None\<close> appends nothing.\<close>

definition reserveDecide ::
  "Prims \<Rightarrow> Generation \<Rightarrow> CallBinding \<Rightarrow> int \<Rightarrow> int \<Rightarrow> string \<Rightarrow> JournalData list \<Rightarrow> LedgerError + (JournalData option \<times> bool)" where
  "reserveDecide P G bind wc budget ts datas =
     (case foldReservations P G datas of Inl e \<Rightarrow> Inl e
      | Inr m \<Rightarrow>
          if obj_has m (b_callId bind) then Inl (CorruptJournal ''re-reserve of live call id'')
          else if list_ex (\<lambda>d. case d of Reserve r \<Rightarrow> b_callNonce (r_bind r) = b_callNonce bind | Settle _ \<Rightarrow> False) datas
          then Inl (CorruptJournal ''replayed call nonce'')
          else if \<not> budget > 0
          then Inr (Some (Reserve \<lparr>r_callId = b_callId bind, r_worstCaseNano = formatNano 0, r_enforced = False,
                                   r_ts = ts, r_epoch = g_epoch G, r_bind = bind\<rparr>), True)
          else if spendOf m + wc > budget then Inr (None, False)
          else Inr (Some (Reserve \<lparr>r_callId = b_callId bind, r_worstCaseNano = formatNano wc, r_enforced = True,
                                   r_ts = ts, r_epoch = g_epoch G, r_bind = bind\<rparr>), True))"

definition reserve ::
  "Prims \<Rightarrow> Generation \<Rightarrow> CallBinding \<Rightarrow> js_value \<Rightarrow> js_value \<Rightarrow> string \<Rightarrow> JournalData list \<Rightarrow> LedgerError + (JournalData option \<times> bool)" where
  "reserve P G bind worstCaseUsd budgetUsdV ts datas =
     (case validateBinding bind of Some e \<Rightarrow> Inl (MintRefused e)
      | None \<Rightarrow> (case usdToNano budgetUsdV of Inl e \<Rightarrow> Inl (MoneyErr e)
        | Inr budget \<Rightarrow> (case usdToNano worstCaseUsd of Inl e \<Rightarrow> Inl (MoneyErr e)
          | Inr wc \<Rightarrow> reserveDecide P G bind wc budget ts datas)))"

definition appendSettlement ::
  "Prims \<Rightarrow> Generation \<Rightarrow> CallBinding \<Rightarrow> DurableAttestation option \<Rightarrow> int \<Rightarrow> bool \<Rightarrow> EgressEvidence option \<Rightarrow>
   string \<Rightarrow> JournalData list \<Rightarrow> LedgerError + JournalData" where
  "appendSettlement P G bind attest usdNano reported egress ts datas =
     (case foldReservations P G datas of Inl e \<Rightarrow> Inl e
      | Inr m \<Rightarrow>
          (case obj_get m (b_callId bind) of None \<Rightarrow> Inl (CorruptJournal ''orphan settle'')
           | Some existing \<Rightarrow>
               if settled existing then Inl (CorruptJournal ''duplicate settle'')
               else case bindingMismatch P (res_bind existing) bind of
                   Some e \<Rightarrow> Inl (CorruptJournal ''settlement identity mismatch'')
                 | None \<Rightarrow> Inr (Settle \<lparr>s_callId = b_callId bind, s_usdNano = formatNano usdNano,
                             s_reported = reported, s_ts = ts, s_epoch = g_epoch G, s_bind = bind,
                             s_attest = attest, s_egress = egress\<rparr>)))"

definition settleUncertain ::
  "Prims \<Rightarrow> Generation \<Rightarrow> CallBinding \<Rightarrow> EgressEvidence option \<Rightarrow> string \<Rightarrow> JournalData list \<Rightarrow> LedgerError + JournalData" where
  "settleUncertain P G bind egress ts datas =
     (case validateBinding bind of Some e \<Rightarrow> Inl (MintRefused e)
      | None \<Rightarrow> appendSettlement P G bind None 0 False egress ts datas)"

record LedgerCaps =
  scopeAlive :: "ScopeRef \<Rightarrow> bool"
  strongScopeAvailable :: bool

definition assertMintable ::
  "Generation \<Rightarrow> LedgerCaps \<Rightarrow> CallBinding \<Rightarrow> ScopeRef \<Rightarrow> LedgerError + (ScopeBackend \<times> string \<times> string)" where
  "assertMintable G caps bind scope =
     (case validateBinding bind of Some e \<Rightarrow> Inl (MintRefused e)
      | None \<Rightarrow>
          if b_runNonce bind \<noteq> g_runNonce G then Inl (RecoveryRequired ''foreign run'')
          else if scopePid scope \<le> 0 then Inl (MintRefused ''scope leader'')
          else if backendOf scope = BPgid \<and> strongScopeAvailable caps then Inl (MintRefused ''scope downgrade'')
          else if scopeAlive caps scope then Inl (MintRefused ''scope alive'')
          else Inr (backendOf scope, scopeIdOf scope, reapProofOf scope))"

record SettlementDraft =
  d_providerKind :: string
  d_scope :: ScopeRef
  d_transcriptDev :: string
  d_transcriptIno :: string
  d_transcriptSha256 :: string
  d_transcriptBytes :: int
  d_terminalSha256 :: string
  d_terminalBytes :: int
  d_terminalOffset :: int
  d_egress :: "EgressEvidence option"

record KernelSettlementDraft = SettlementDraft +
  d_usdNano :: string

record KernelFallbackDraft = SettlementDraft +
  d_limitSha256 :: string
  d_limitBytes :: int
  d_limitOffset :: int

definition sealAndSettle ::
  "Prims \<Rightarrow> Generation \<Rightarrow> CallBinding \<Rightarrow> AttestPayload \<Rightarrow> int \<Rightarrow> bool \<Rightarrow> EgressEvidence option \<Rightarrow> string \<Rightarrow>
   JournalData list \<Rightarrow> LedgerError + JournalData" where
  "sealAndSettle P G bind payload usdNano reported egress ts datas =
     (let attest = \<lparr>att_payload = payload, att_tag = tagPayload (pm_mac P) payload\<rparr> in
      case verifyAttestation (pm_mac P) attest of Some e \<Rightarrow> Inl (MintRefused e)
      | None \<Rightarrow> appendSettlement P G bind (Some attest) usdNano reported egress ts datas)"

definition adapterGrammarOk :: "Prims \<Rightarrow> CallBinding \<Rightarrow> string \<Rightarrow> bool" where
  "adapterGrammarOk P bind pk =
     (case b_adapter bind of None \<Rightarrow> True | Some a \<Rightarrow> adapterEvidenceIdentity (pm_hashValues P) a = Inr pk)"

definition basePayload ::
  "Generation \<Rightarrow> CallBinding \<Rightarrow> 'a SettlementDraft_scheme \<Rightarrow> ScopeBackend \<times> string \<times> string \<Rightarrow> string \<Rightarrow> AttestPayload" where
  "basePayload G bind draft scope ts =
     \<lparr>p_schema = ATTEST_SCHEMA, p_kind = AccountedTerminal, p_ledgerEpoch = g_epoch G,
      p_runNonce = g_runNonce G, p_callId = b_callId bind, p_callNonce = b_callNonce bind,
      p_reservationId = b_reservationId bind, p_routeEpoch = b_routeEpoch bind,
      p_provider = b_provider bind, p_model = b_model bind, p_providerKind = d_providerKind draft,
      p_attempt = b_attempt bind, p_scopeBackend = fst scope, p_scopeId = fst (snd scope),
      p_scopeReapProof = snd (snd scope), p_transcriptDev = d_transcriptDev draft,
      p_transcriptIno = d_transcriptIno draft, p_transcriptSha256 = d_transcriptSha256 draft,
      p_transcriptBytes = d_transcriptBytes draft, p_terminalSha256 = d_terminalSha256 draft,
      p_terminalBytes = d_terminalBytes draft, p_terminalOffset = d_terminalOffset draft,
      p_limitSha256 = None, p_limitBytes = None, p_limitOffset = None,
      p_usdNano = formatNano 0, p_costProvenance = UnknownCost, p_ts = ts\<rparr>"

definition attestAndSettle ::
  "Prims \<Rightarrow> Generation \<Rightarrow> LedgerCaps \<Rightarrow> CallBinding \<Rightarrow> KernelSettlementDraft \<Rightarrow> string \<Rightarrow> JournalData list \<Rightarrow>
   LedgerError + JournalData" where
  "attestAndSettle P G caps bind draft ts datas =
     (case assertMintable G caps bind (d_scope draft) of Inl e \<Rightarrow> Inl e
      | Inr scope \<Rightarrow>
          if \<not> adapterGrammarOk P bind (d_providerKind draft) then Inl (MintRefused ''adapter grammar'')
          else case parseNano (d_usdNano draft) of Inl e \<Rightarrow> Inl (MoneyErr e)
            | Inr usd \<Rightarrow>
                if usd < 0 then Inl (MintRefused ''negative cost'')
                else sealAndSettle P G bind
                       ((basePayload G bind draft scope ts)
                          \<lparr>p_usdNano := formatNano usd, p_costProvenance := ProviderReported\<rparr>)
                       usd True (d_egress draft) ts datas)"

definition attestFallback ::
  "Prims \<Rightarrow> Generation \<Rightarrow> LedgerCaps \<Rightarrow> CallBinding \<Rightarrow> KernelFallbackDraft \<Rightarrow> string \<Rightarrow> JournalData list \<Rightarrow>
   LedgerError + JournalData" where
  "attestFallback P G caps bind draft ts datas =
     (case assertMintable G caps bind (d_scope draft) of Inl e \<Rightarrow> Inl e
      | Inr scope \<Rightarrow>
          if \<not> adapterGrammarOk P bind (d_providerKind draft) then Inl (MintRefused ''adapter grammar'')
          else sealAndSettle P G bind
                 ((basePayload G bind draft scope ts)
                    \<lparr>p_kind := TrustedFallback, p_limitSha256 := Some (d_limitSha256 draft),
                     p_limitBytes := Some (d_limitBytes draft), p_limitOffset := Some (d_limitOffset draft)\<rparr>)
                 0 False None ts datas)"

section \<open>Reads\<close>

definition effectiveSpendNano :: "Prims \<Rightarrow> Generation \<Rightarrow> JournalData list \<Rightarrow> LedgerError + int" where
  "effectiveSpendNano P G datas = (case foldReservations P G datas of Inl e \<Rightarrow> Inl e | Inr m \<Rightarrow> Inr (spendOf m))"

definition budgetReached :: "Prims \<Rightarrow> Generation \<Rightarrow> js_value \<Rightarrow> JournalData list \<Rightarrow> LedgerError + bool" where
  "budgetReached P G budgetV datas =
     (case usdToNano budgetV of Inl e \<Rightarrow> Inl (MoneyErr e)
      | Inr budget \<Rightarrow> if budget \<le> 0 then Inr False
          else case effectiveSpendNano P G datas of Inl e \<Rightarrow> Inl e | Inr s \<Rightarrow> Inr (s \<ge> budget))"

definition budgetViolation :: "Prims \<Rightarrow> Generation \<Rightarrow> JournalData list \<Rightarrow> LedgerError + string option" where
  "budgetViolation P G datas =
     (case foldReservations P G datas of Inl e \<Rightarrow> Inl e
      | Inr m \<Rightarrow> Inr (map_option fst (find (\<lambda>(k, r). over r) m)))"

record SettlementStatus =
  st_settled :: bool
  st_costTrusted :: bool
  st_fallbackAuthorized :: bool

definition settlementOf :: "Prims \<Rightarrow> Generation \<Rightarrow> string \<Rightarrow> JournalData list \<Rightarrow> LedgerError + SettlementStatus" where
  "settlementOf P G callId datas =
     (case foldReservations P G datas of Inl e \<Rightarrow> Inl e
      | Inr m \<Rightarrow> (case obj_get m callId of
            None \<Rightarrow> Inr \<lparr>st_settled = False, st_costTrusted = False, st_fallbackAuthorized = False\<rparr>
          | Some r \<Rightarrow>
              if \<not> settled r then Inr \<lparr>st_settled = False, st_costTrusted = False, st_fallbackAuthorized = False\<rparr>
              else Inr \<lparr>st_settled = True, st_costTrusted = trustedUsd r \<noteq> None,
                        st_fallbackAuthorized = fallbackAuthorized r\<rparr>))"

definition hasReservation :: "Prims \<Rightarrow> Generation \<Rightarrow> string \<Rightarrow> JournalData list \<Rightarrow> LedgerError + bool" where
  "hasReservation P G callId datas =
     (case foldReservations P G datas of Inl e \<Rightarrow> Inl e | Inr m \<Rightarrow> Inr (obj_has m callId))"

section \<open>Invariant of the replay\<close>

definition reservation_ok :: "Reservation \<Rightarrow> bool" where
  "reservation_ok r \<longleftrightarrow> 0 \<le> worstCase r \<and> (\<forall>u. trustedUsd r = Some u \<longrightarrow> 0 \<le> u \<and> settled r) \<and>
     (fallbackAuthorized r \<longrightarrow> settled r) \<and>
     (over r \<longleftrightarrow> enforced r \<and> (\<exists>u. trustedUsd r = Some u \<and> worstCase r < u))"

definition fold_ok :: "FoldState \<Rightarrow> bool" where
  "fold_ok st \<longleftrightarrow> obj_wf (fst st) \<and> distinct (snd st) \<and> (\<forall>k r. obj_get (fst st) k = Some r \<longrightarrow> reservation_ok r)"

lemma settleReservation_ok:
  "reservation_ok r \<Longrightarrow> \<not> settled r \<Longrightarrow> settleReservation P G s r = Inr r' \<Longrightarrow> reservation_ok r'"
  by (auto simp: settleReservation_def reservation_ok_def split: if_splits sum.splits dest: parseNano_range)

lemma fold_ok_set:
  "fold_ok (m, ns) \<Longrightarrow> reservation_ok r \<Longrightarrow> distinct ns' \<Longrightarrow> fold_ok (obj_set k r m, ns')"
  by (auto simp: fold_ok_def)

lemma foldReserve_ok: "fold_ok st \<Longrightarrow> foldReserve r st = Inr st' \<Longrightarrow> fold_ok st'"
  by (auto simp: foldReserve_def Let_def split: if_splits sum.splits prod.splits intro!: fold_ok_set)
     (auto simp: reservation_ok_def fold_ok_def dest: parseNano_range)

lemma foldSettle_ok:
  assumes "fold_ok st" "foldSettle P G s st = Inr st'" shows "fold_ok st'"
proof -
  from assms(2) obtain m ns cur cur' where h: "st = (m, ns)" "obj_get m (s_callId s) = Some cur"
      "\<not> settled cur" "settleReservation P G s cur = Inr cur'" "st' = (obj_set (s_callId s) cur' m, ns)"
    by (auto simp: foldSettle_def Let_def split: if_splits sum.splits option.splits prod.splits)
  then have "reservation_ok cur'"
    using assms(1) by (auto simp: fold_ok_def intro: settleReservation_ok)
  with h assms(1) show ?thesis by (auto intro: fold_ok_set simp: fold_ok_def)
qed

lemma foldStep_ok: "fold_ok st \<Longrightarrow> foldStep P G st d = Inr st' \<Longrightarrow> fold_ok st'"
  by (cases d) (auto simp: foldStep_def intro: foldReserve_ok foldSettle_ok)

interpretation journal: event_fold "foldStep P G" fold_ok for P G
  by unfold_locales (rule foldStep_ok)

lemma fold_ok_init [simp]: "fold_ok ([], [])"
  by (simp add: fold_ok_def)

definition reserve_nonces :: "JournalData list \<Rightarrow> string list" where
  "reserve_nonces ds = concat (map (\<lambda>d. case d of Reserve r \<Rightarrow> [b_callNonce (r_bind r)] | Settle _ \<Rightarrow> []) ds)"

lemma reserve_nonces_snoc:
  "reserve_nonces (ds @ [d]) = reserve_nonces ds @ (case d of Reserve r \<Rightarrow> [b_callNonce (r_bind r)] | Settle _ \<Rightarrow> [])"
  by (simp add: reserve_nonces_def)

lemma foldStep_nonces:
  "foldStep P G st d = Inr st' \<Longrightarrow>
     snd st' = rev (case d of Reserve r \<Rightarrow> [b_callNonce (r_bind r)] | Settle _ \<Rightarrow> []) @ snd st"
  by (cases d)
     (auto simp: foldStep_def foldReserve_def foldSettle_def Let_def
       split: if_splits sum.splits option.splits prod.splits)

lemma fold_nonces:
  "fold_res (foldStep P G) ([], []) ds = Inr st \<Longrightarrow> snd st = rev (reserve_nonces ds)"
proof (induction ds arbitrary: st rule: rev_induct)
  case Nil
  then show ?case by (auto simp: reserve_nonces_def)
next
  case (snoc d ds)
  then obtain st0 where "fold_res (foldStep P G) ([], []) ds = Inr st0" "foldStep P G st0 d = Inr st"
    by (auto simp: fold_res_snoc split: sum.splits)
  with snoc.IH show ?case
    by (simp add: foldStep_nonces reserve_nonces_snoc)
qed

lemma foldReservations_state:
  assumes "foldReservations P G ds = Inr m"
  shows "fold_res (foldStep P G) ([], []) ds = Inr (m, rev (reserve_nonces ds))"
    and "fold_ok (m, rev (reserve_nonces ds))"
proof -
  from assms obtain st where st: "fold_res (foldStep P G) ([], []) ds = Inr st" "m = fst st"
    by (auto simp: foldReservations_def split: sum.splits)
  then have eq: "st = (m, rev (reserve_nonces ds))"
    using fold_nonces [OF st(1)] by (cases st) simp
  from st(1) eq show "fold_res (foldStep P G) ([], []) ds = Inr (m, rev (reserve_nonces ds))" by simp
  from journal.replay_inv [OF fold_ok_init st(1)] eq show "fold_ok (m, rev (reserve_nonces ds))" by simp
qed

lemma foldReservations_snoc:
  assumes "foldReservations P G ds = Inr m"
  shows "foldReservations P G (ds @ [d]) =
    (case foldStep P G (m, rev (reserve_nonces ds)) d of Inl e \<Rightarrow> Inl e | Inr st \<Rightarrow> Inr (fst st))"
  by (simp add: foldReservations_def fold_res_snoc foldReservations_state(1) [OF assms])

lemma reserve_nonce_replayed:
  "list_ex (\<lambda>d. case d of Reserve r \<Rightarrow> b_callNonce (r_bind r) = n | Settle _ \<Rightarrow> False) ds \<longleftrightarrow>
     n \<in> set (reserve_nonces ds)"
  by (induction ds) (auto simp: reserve_nonces_def split: JournalData.splits)

lemma foldReservations_values_ok:
  "foldReservations P G ds = Inr m \<Longrightarrow> obj_get m k = Some r \<Longrightarrow> reservation_ok r"
  by (drule foldReservations_state(2)) (auto simp: fold_ok_def)

section \<open>Spend under updates\<close>

lemma spendOf_new: "obj_get m k = None \<Longrightarrow> spendOf (obj_set k r m) = spendOf m + charge r"
  by (simp add: spendOf_def obj_values_append_new)

lemma spendOf_replace:
  assumes "obj_get m k = Some r"
  shows "spendOf (obj_set k r' m) = spendOf m - charge r + charge r'"
  using assms by (rule obj_split) (simp add: obj_set_split spendOf_def obj_values_def)

lemma charge_open [simp]: "\<not> settled r \<Longrightarrow> charge r = worstCase r"
  by (simp add: charge_def)

lemma charge_settled: "settled r \<Longrightarrow> charge r = (case trustedUsd r of None \<Rightarrow> worstCase r | Some u \<Rightarrow> u)"
  by (simp add: charge_def split: option.splits)

section \<open>What each transaction does to the fold\<close>

lemma reserve_appends:
  assumes "reserveDecide P G bind wc budget ts ds = Inr (Some d, ok)"
    and "0 \<le> wc" "wc \<le> MAX_NANO"
  shows "\<exists>m r. foldReservations P G ds = Inr m \<and> obj_get m (b_callId bind) = None \<and>
     foldReservations P G (ds @ [d]) = Inr (obj_set (b_callId bind) r m) \<and>
     \<not> settled r \<and> res_bind r = bind \<and> enforced r = (0 < budget) \<and>
     worstCase r = (if 0 < budget then wc else 0) \<and> (0 < budget \<longrightarrow> spendOf m + wc \<le> budget)"
proof -
  from assms(1) obtain m where m: "foldReservations P G ds = Inr m" "\<not> obj_has m (b_callId bind)"
      "b_callNonce bind \<notin> set (reserve_nonces ds)"
      "d = Reserve \<lparr>r_callId = b_callId bind, r_worstCaseNano = formatNano (if 0 < budget then wc else 0),
          r_enforced = (0 < budget), r_ts = ts, r_epoch = g_epoch G, r_bind = bind\<rparr>"
      "0 < budget \<longrightarrow> spendOf m + wc \<le> budget"
    by (auto simp: reserveDecide_def reserve_nonce_replayed split: sum.splits if_splits)
  have nano: "parseNano (formatNano (if 0 < budget then wc else 0)) = Inr (if 0 < budget then wc else 0)"
    by (rule parse_format_nano) (use assms(2,3) in \<open>auto simp: MAX_NANO_def NANO_PER_USD_def\<close>)
  define r where "r = \<lparr>worstCase = (if 0 < budget then wc else 0), enforced = (0 < budget), settled = False,
      trustedUsd = None, fallbackAuthorized = False, over = False, res_bind = bind\<rparr>"
  have "foldReservations P G (ds @ [d]) = Inr (obj_set (b_callId bind) r m)"
    using m(2,3) nano
    by (simp add: foldReservations_snoc [OF m(1)] m(4) foldStep_def foldReserve_def r_def)
  with m show ?thesis
    by (intro exI [of _ m] exI [of _ r]) (simp add: r_def obj_has_def)
qed

lemma settle_appends:
  assumes "appendSettlement P G bind att usd rep eg ts ds = Inr d" and "0 \<le> usd" "usd \<le> MAX_NANO"
  shows "\<exists>m r r'. foldReservations P G ds = Inr m \<and> obj_get m (b_callId bind) = Some r \<and> \<not> settled r \<and>
     foldReservations P G (ds @ [d]) = Inr (obj_set (b_callId bind) r' m) \<and>
     (\<exists>s. d = Settle s \<and> s_bind s = bind \<and> s_attest s = att \<and> s_reported s = rep \<and> s_callId s = b_callId bind \<and>
        s_usdNano s = formatNano usd \<and> s_epoch s = g_epoch G \<and>
        r' = r\<lparr>settled := True, trustedUsd := (if costIsTrusted P G s then Some usd else None),
               fallbackAuthorized := authorizesFallback P G s,
               over := (over r \<or> enforced r \<and> costIsTrusted P G s \<and> usd > worstCase r)\<rparr>)"
proof -
  define s where "s = \<lparr>s_callId = b_callId bind, s_usdNano = formatNano usd, s_reported = rep, s_ts = ts,
      s_epoch = g_epoch G, s_bind = bind, s_attest = att, s_egress = eg\<rparr>"
  from assms(1) obtain m r where m: "foldReservations P G ds = Inr m"
      "obj_get m (b_callId bind) = Some r" "\<not> settled r" "bindingMismatch P (res_bind r) bind = None"
      "d = Settle s"
    by (auto simp: appendSettlement_def s_def split: sum.splits option.splits if_splits)
  have nano: "parseNano (formatNano usd) = Inr usd"
    using assms(2,3) by (rule parse_format_nano)
  define r' where "r' = r\<lparr>settled := True, trustedUsd := (if costIsTrusted P G s then Some usd else None),
      fallbackAuthorized := authorizesFallback P G s,
      over := (over r \<or> enforced r \<and> costIsTrusted P G s \<and> usd > worstCase r)\<rparr>"
  have "settleReservation P G s r = Inr r'"
    using nano by (simp add: settleReservation_def r'_def s_def)
  then have "foldReservations P G (ds @ [d]) = Inr (obj_set (b_callId bind) r' m)"
    using m by (simp add: foldReservations_snoc [OF m(1)] foldStep_def foldSettle_def s_def)
  moreover have "s_bind s = bind \<and> s_attest s = att \<and> s_reported s = rep \<and> s_callId s = b_callId bind \<and>
      s_usdNano s = formatNano usd \<and> s_epoch s = g_epoch G"
    by (simp add: s_def)
  ultimately show ?thesis using m r'_def by blast
qed

lemma uncertain_keeps_spend:
  assumes "settleUncertain P G bind eg ts ds = Inr d"
  shows "\<exists>m m'. foldReservations P G ds = Inr m \<and> foldReservations P G (ds @ [d]) = Inr m' \<and>
     spendOf m' = spendOf m \<and>
     (\<exists>r. obj_get m' (b_callId bind) = Some r \<and> settled r \<and> trustedUsd r = None \<and> \<not> fallbackAuthorized r)"
proof -
  from assms have "appendSettlement P G bind None 0 False eg ts ds = Inr d"
    by (auto simp: settleUncertain_def split: option.splits)
  from settle_appends [OF this] obtain m r r' s where h: "foldReservations P G ds = Inr m"
      "obj_get m (b_callId bind) = Some r" "\<not> settled r" "s_attest s = None"
      "foldReservations P G (ds @ [d]) = Inr (obj_set (b_callId bind) r' m)"
      "r' = r\<lparr>settled := True, trustedUsd := (if costIsTrusted P G s then Some 0 else None),
        fallbackAuthorized := authorizesFallback P G s,
        over := (over r \<or> enforced r \<and> costIsTrusted P G s \<and> 0 > worstCase r)\<rparr>"
    by (auto simp: MAX_NANO_def NANO_PER_USD_def)
  then have r': "settled r'" "trustedUsd r' = None" "\<not> fallbackAuthorized r'" "worstCase r' = worstCase r"
    by (simp_all add: costIsTrusted_def authorizesFallback_def)
  then have "spendOf (obj_set (b_callId bind) r' m) = spendOf m"
    using h by (simp add: spendOf_replace charge_settled)
  with h r' show ?thesis by auto
qed

lemma sealed_binding_ok:
  assumes "verifyAttestation (pm_mac P) a = None"
    and "p_ledgerEpoch (att_payload a) = g_epoch G" "p_runNonce (att_payload a) = g_runNonce G"
    and "p_callId (att_payload a) = b_callId bind" "p_callNonce (att_payload a) = b_callNonce bind"
    and "p_reservationId (att_payload a) = b_reservationId bind" "p_routeEpoch (att_payload a) = b_routeEpoch bind"
    and "p_provider (att_payload a) = b_provider bind" "p_model (att_payload a) = b_model bind"
    and "p_attempt (att_payload a) = b_attempt bind"
    and "adapterGrammarOk P bind (p_providerKind (att_payload a))"
    and "s_attest s = Some a" "s_bind s = bind" "s_callId s = b_callId bind"
    and "s_usdNano s = p_usdNano (att_payload a)"
    and "s_reported s = (p_costProvenance (att_payload a) = ProviderReported)"
  shows "attestationBindingError P G s = None"
  using assms by (auto simp: attestationBindingError_def adapterGrammarOk_def Let_def split: option.splits)

lemma attestAndSettle_effect:
  assumes "attestAndSettle P G caps bind draft ts ds = Inr d"
  shows "\<exists>m m' r usd. foldReservations P G ds = Inr m \<and> obj_get m (b_callId bind) = Some r \<and> \<not> settled r \<and>
     foldReservations P G (ds @ [d]) = Inr m' \<and> parseNano (d_usdNano draft) = Inr usd \<and>
     \<not> scopeAlive caps (d_scope draft) \<and>
     obj_get m' (b_callId bind) = Some (r\<lparr>settled := True, trustedUsd := Some usd, fallbackAuthorized := False,
        over := (over r \<or> enforced r \<and> usd > worstCase r)\<rparr>) \<and>
     spendOf m' = spendOf m - worstCase r + usd"
proof -
  from assms obtain scope usd where h: "\<not> scopeAlive caps (d_scope draft)" "parseNano (d_usdNano draft) = Inr usd"
      "adapterGrammarOk P bind (d_providerKind draft)"
      "sealAndSettle P G bind ((basePayload G bind draft scope ts)
         \<lparr>p_usdNano := formatNano usd, p_costProvenance := ProviderReported\<rparr>) usd True (d_egress draft) ts ds = Inr d"
    by (auto simp: attestAndSettle_def assertMintable_def split: sum.splits if_splits option.splits)
  define pl where "pl = (basePayload G bind draft scope ts)
      \<lparr>p_usdNano := formatNano usd, p_costProvenance := ProviderReported\<rparr>"
  define a where "a = \<lparr>att_payload = pl, att_tag = tagPayload (pm_mac P) pl\<rparr>"
  from h(4) have ver: "verifyAttestation (pm_mac P) a = None"
    and app: "appendSettlement P G bind (Some a) usd True (d_egress draft) ts ds = Inr d"
    by (auto simp: sealAndSettle_def a_def pl_def Let_def split: option.splits)
  from settle_appends [OF app] parseNano_range [OF h(2)] obtain m r r' s where k:
      "foldReservations P G ds = Inr m" "obj_get m (b_callId bind) = Some r" "\<not> settled r"
      "foldReservations P G (ds @ [d]) = Inr (obj_set (b_callId bind) r' m)"
      "s_bind s = bind" "s_attest s = Some a" "s_reported s" "s_callId s = b_callId bind"
      "s_usdNano s = formatNano usd"
      "r' = r\<lparr>settled := True, trustedUsd := (if costIsTrusted P G s then Some usd else None),
        fallbackAuthorized := authorizesFallback P G s,
        over := (over r \<or> enforced r \<and> costIsTrusted P G s \<and> usd > worstCase r)\<rparr>"
    by auto
  have "attestationBindingError P G s = None"
    by (rule sealed_binding_ok [OF ver, where bind = bind])
       (simp_all add: a_def pl_def basePayload_def k h(3))
  then have "costIsTrusted P G s" "\<not> authorizesFallback P G s"
    by (simp_all add: costIsTrusted_def authorizesFallback_def k a_def pl_def basePayload_def)
  with k h show ?thesis by (auto simp: spendOf_replace charge_settled)
qed

lemma attestFallback_effect:
  assumes "attestFallback P G caps bind draft ts ds = Inr d"
  shows "\<exists>m m' r. foldReservations P G ds = Inr m \<and> obj_get m (b_callId bind) = Some r \<and> \<not> settled r \<and>
     foldReservations P G (ds @ [d]) = Inr m' \<and> \<not> scopeAlive caps (d_scope draft) \<and>
     obj_get m' (b_callId bind) = Some (r\<lparr>settled := True, trustedUsd := None, fallbackAuthorized := True\<rparr>) \<and>
     spendOf m' = spendOf m"
proof -
  from assms obtain scope where h: "\<not> scopeAlive caps (d_scope draft)"
      "adapterGrammarOk P bind (d_providerKind draft)"
      "sealAndSettle P G bind ((basePayload G bind draft scope ts)
         \<lparr>p_kind := TrustedFallback, p_limitSha256 := Some (d_limitSha256 draft),
          p_limitBytes := Some (d_limitBytes draft), p_limitOffset := Some (d_limitOffset draft)\<rparr>) 0 False None ts ds = Inr d"
    by (auto simp: attestFallback_def assertMintable_def split: sum.splits if_splits option.splits)
  define pl where "pl = (basePayload G bind draft scope ts)
      \<lparr>p_kind := TrustedFallback, p_limitSha256 := Some (d_limitSha256 draft),
       p_limitBytes := Some (d_limitBytes draft), p_limitOffset := Some (d_limitOffset draft)\<rparr>"
  define a where "a = \<lparr>att_payload = pl, att_tag = tagPayload (pm_mac P) pl\<rparr>"
  from h(3) have ver: "verifyAttestation (pm_mac P) a = None"
    and app: "appendSettlement P G bind (Some a) 0 False None ts ds = Inr d"
    by (auto simp: sealAndSettle_def a_def pl_def Let_def split: option.splits)
  have "(0::int) \<le> MAX_NANO" by (simp add: MAX_NANO_def NANO_PER_USD_def)
  from settle_appends [OF app _ this] obtain m r r' s where k:
      "foldReservations P G ds = Inr m" "obj_get m (b_callId bind) = Some r" "\<not> settled r"
      "foldReservations P G (ds @ [d]) = Inr (obj_set (b_callId bind) r' m)"
      "s_bind s = bind" "s_attest s = Some a" "\<not> s_reported s" "s_callId s = b_callId bind"
      "s_usdNano s = formatNano 0"
      "r' = r\<lparr>settled := True, trustedUsd := (if costIsTrusted P G s then Some 0 else None),
        fallbackAuthorized := authorizesFallback P G s,
        over := (over r \<or> enforced r \<and> costIsTrusted P G s \<and> 0 > worstCase r)\<rparr>"
    by auto
  have "attestationBindingError P G s = None"
    by (rule sealed_binding_ok [OF ver, where bind = bind])
       (simp_all add: a_def pl_def basePayload_def k h(2))
  then have "\<not> costIsTrusted P G s" "authorizesFallback P G s"
    by (simp_all add: costIsTrusted_def authorizesFallback_def k a_def pl_def basePayload_def)
  with k h show ?thesis by (auto simp: spendOf_replace charge_settled)
qed

section \<open>Histories of a run and the budget\<close>

text \<open>
  The journals a run can produce: reservations under one configured budget, uncertain settlements,
  and the two attested settlements, in any order and any number.
\<close>

inductive ledger_run :: "Prims \<Rightarrow> Generation \<Rightarrow> LedgerCaps \<Rightarrow> js_value \<Rightarrow> JournalData list \<Rightarrow> bool"
  for P G caps budgetV where
  empty: "ledger_run P G caps budgetV []"
| reserve: "ledger_run P G caps budgetV ds \<Longrightarrow> reserve P G bind wcV budgetV ts ds = Inr (Some d, ok) \<Longrightarrow>
     ledger_run P G caps budgetV (ds @ [d])"
| uncertain: "ledger_run P G caps budgetV ds \<Longrightarrow> settleUncertain P G bind eg ts ds = Inr d \<Longrightarrow>
     ledger_run P G caps budgetV (ds @ [d])"
| accounted: "ledger_run P G caps budgetV ds \<Longrightarrow> attestAndSettle P G caps bind draft ts ds = Inr d \<Longrightarrow>
     ledger_run P G caps budgetV (ds @ [d])"
| fallback: "ledger_run P G caps budgetV ds \<Longrightarrow> attestFallback P G caps bind fdraft ts ds = Inr d \<Longrightarrow>
     ledger_run P G caps budgetV (ds @ [d])"

definition overrun :: "Reservation \<Rightarrow> int" where
  "overrun r = max 0 (charge r - worstCase r)"

definition overruns :: "Reservation obj \<Rightarrow> int" where
  "overruns m = sum_list (map overrun (obj_values m))"

lemma overruns_new: "obj_get m k = None \<Longrightarrow> overruns (obj_set k r m) = overruns m + overrun r"
  by (simp add: overruns_def obj_values_append_new)

lemma overruns_replace:
  assumes "obj_get m k = Some r"
  shows "overruns (obj_set k r' m) = overruns m - overrun r + overrun r'"
  using assms by (rule obj_split) (simp add: obj_set_split overruns_def obj_values_def)

lemma overruns_nonneg: "0 \<le> overruns m"
  by (auto simp: overruns_def overrun_def intro!: sum_list_nonneg)

lemma settle_within:
  assumes "appendSettlement P G bind att usd rep eg ts ds = Inr d" "0 \<le> usd" "usd \<le> MAX_NANO"
    and "foldReservations P G ds = Inr m" "spendOf m \<le> B + overruns m"
    and "\<forall>k r. obj_get m k = Some r \<longrightarrow> enforced r"
  shows "\<exists>m'. foldReservations P G (ds @ [d]) = Inr m' \<and> spendOf m' \<le> B + overruns m' \<and>
     (\<forall>k r. obj_get m' k = Some r \<longrightarrow> enforced r)"
proof -
  from settle_appends [OF assms(1-3)] assms(4) obtain r r' where h: "obj_get m (b_callId bind) = Some r"
      "\<not> settled r" "foldReservations P G (ds @ [d]) = Inr (obj_set (b_callId bind) r' m)"
      "worstCase r' = worstCase r" "enforced r' = enforced r"
    by auto
  have "charge r' \<le> worstCase r' + overrun r'" and "overrun r = 0"
    using h by (simp_all add: overrun_def)
  with h assms(5,6) show ?thesis
    by (auto simp: spendOf_replace overruns_replace)
qed

lemma ledger_run_within:
  assumes "ledger_run P G caps budgetV ds" and B: "usdToNano budgetV = Inr B" "0 < B"
  shows "\<exists>m. foldReservations P G ds = Inr m \<and> spendOf m \<le> B + overruns m \<and>
     (\<forall>k r. obj_get m k = Some r \<longrightarrow> enforced r)"
  using assms(1)
proof (induction rule: ledger_run.induct)
  case empty
  show ?case using B by (simp add: foldReservations_def spendOf_def overruns_def)
next
  case (reserve ds bind wcV ts d ok)
  then obtain m where m: "foldReservations P G ds = Inr m" "\<forall>k r. obj_get m k = Some r \<longrightarrow> enforced r" by blast
  from reserve.hyps(2) B obtain wc where wc: "usdToNano wcV = Inr wc"
      "reserveDecide P G bind wc B ts ds = Inr (Some d, ok)"
    by (auto simp: reserve_def split: option.splits sum.splits)
  from reserve_appends [OF wc(2)] usdToNano_range [OF wc(1)] m(1) B(2) obtain r where r:
      "obj_get m (b_callId bind) = None" "foldReservations P G (ds @ [d]) = Inr (obj_set (b_callId bind) r m)"
      "\<not> settled r" "enforced r" "worstCase r = wc" "spendOf m + wc \<le> B"
    by auto
  with m overruns_nonneg [of "obj_set (b_callId bind) r m"] show ?case
    by (auto simp: spendOf_new)
next
  case (uncertain ds bind eg ts d)
  then have "appendSettlement P G bind None 0 False eg ts ds = Inr d"
    by (auto simp: settleUncertain_def split: option.splits)
  then show ?case
    using uncertain.IH settle_within by (fastforce simp: MAX_NANO_def NANO_PER_USD_def)
next
  case (accounted ds bind draft ts d)
  then obtain att usd where "appendSettlement P G bind att usd True (d_egress draft) ts ds = Inr d"
      "parseNano (d_usdNano draft) = Inr usd"
    by (auto simp: attestAndSettle_def sealAndSettle_def Let_def split: sum.splits if_splits option.splits)
  then show ?case
    using accounted.IH settle_within parseNano_range by blast
next
  case (fallback ds bind fdraft ts d)
  then obtain att where "appendSettlement P G bind att 0 False None ts ds = Inr d"
    by (auto simp: attestFallback_def sealAndSettle_def Let_def split: sum.splits if_splits option.splits)
  then show ?case
    using fallback.IH settle_within by (fastforce simp: MAX_NANO_def NANO_PER_USD_def)
qed

lemma no_over_no_overrun:
  assumes "foldReservations P G ds = Inr m" "\<forall>k r. obj_get m k = Some r \<longrightarrow> enforced r"
    and "budgetViolation P G ds = Inr None"
  shows "overruns m = 0"
proof -
  have wf: "obj_wf m" using foldReservations_state(2) [OF assms(1)] by (simp add: fold_ok_def)
  have "overrun r = 0" if "r \<in> set (obj_values m)" for r
  proof -
    from that wf obtain k where k: "obj_get m k = Some r" by (auto simp: in_obj_values)
    then have "(k, r) \<in> set m" by (rule map_of_SomeD)
    with assms(1,3) have "\<not> over r"
      by (auto simp: budgetViolation_def find_None_iff)
    with foldReservations_values_ok [OF assms(1) k] assms(2) k show ?thesis
      by (auto simp: overrun_def reservation_ok_def charge_def split: option.splits bool.splits)
  qed
  then show ?thesis by (simp add: overruns_def sum_list_map_zero)
qed

section \<open>Where the fold's facts come from\<close>

definition reserve_ids :: "JournalData list \<Rightarrow> string list" where
  "reserve_ids ds = concat (map (\<lambda>d. case d of Reserve r \<Rightarrow> [r_callId r] | Settle _ \<Rightarrow> []) ds)"

definition settle_ids :: "JournalData list \<Rightarrow> string list" where
  "settle_ids ds = concat (map (\<lambda>d. case d of Reserve _ \<Rightarrow> [] | Settle s \<Rightarrow> [s_callId s]) ds)"

definition single_use :: "JournalData list \<Rightarrow> Reservation obj \<Rightarrow> bool" where
  "single_use ds m \<longleftrightarrow> distinct (reserve_ids ds) \<and> distinct (settle_ids ds) \<and>
     set (settle_ids ds) \<subseteq> set (reserve_ids ds) \<and>
     (\<forall>k. obj_has m k \<longleftrightarrow> k \<in> set (reserve_ids ds)) \<and>
     (\<forall>k r. obj_get m k = Some r \<longrightarrow> (settled r \<longleftrightarrow> k \<in> set (settle_ids ds)))"

lemma call_ids_snoc [simp]:
  "reserve_ids [] = []" "settle_ids [] = []"
  "reserve_ids (ds @ [Reserve r]) = reserve_ids ds @ [r_callId r]" "reserve_ids (ds @ [Settle s]) = reserve_ids ds"
  "settle_ids (ds @ [Reserve r]) = settle_ids ds" "settle_ids (ds @ [Settle s]) = settle_ids ds @ [s_callId s]"
  by (simp_all add: reserve_ids_def settle_ids_def)

lemma foldReserve_shape:
  "foldReserve r st = Inr st' \<Longrightarrow> \<exists>v. obj_get (fst st) (r_callId r) = None \<and>
     fst st' = obj_set (r_callId r) v (fst st) \<and> \<not> settled v \<and> trustedUsd v = None \<and>
     \<not> fallbackAuthorized v \<and> res_bind v = r_bind r"
  by (auto simp: foldReserve_def obj_has_def Let_def split: prod.splits if_splits sum.splits)

lemma foldSettle_shape:
  "foldSettle P G s st = Inr st' \<Longrightarrow> \<exists>v v'. obj_get (fst st) (s_callId s) = Some v \<and> \<not> settled v \<and>
     settleReservation P G s v = Inr v' \<and> bindingMismatch P (res_bind v) (s_bind s) = None \<and>
     fst st' = obj_set (s_callId s) v' (fst st)"
  by (auto simp: foldSettle_def Let_def split: prod.splits if_splits sum.splits option.splits)

lemma settleReservation_shape:
  "settleReservation P G s v = Inr v' \<Longrightarrow> settled v' \<and> res_bind v' = res_bind v \<and>
     fallbackAuthorized v' = authorizesFallback P G s \<and>
     (\<forall>u. trustedUsd v' = Some u \<longrightarrow> costIsTrusted P G s \<and> parseNano (s_usdNano s) = Inr u)"
  by (auto simp: settleReservation_def split: if_splits sum.splits)

lemma foldReservations_induct [consumes 1, case_names empty reserve settle]:
  assumes "foldReservations P G ds = Inr m"
    and "Q [] []"
    and "\<And>ds m r v. foldReservations P G ds = Inr m \<Longrightarrow> Q ds m \<Longrightarrow> obj_get m (r_callId r) = None \<Longrightarrow>
      \<not> settled v \<Longrightarrow> trustedUsd v = None \<Longrightarrow> \<not> fallbackAuthorized v \<Longrightarrow> res_bind v = r_bind r \<Longrightarrow>
      Q (ds @ [Reserve r]) (obj_set (r_callId r) v m)"
    and "\<And>ds m s v v'. foldReservations P G ds = Inr m \<Longrightarrow> Q ds m \<Longrightarrow> obj_get m (s_callId s) = Some v \<Longrightarrow>
      \<not> settled v \<Longrightarrow> settleReservation P G s v = Inr v' \<Longrightarrow> bindingMismatch P (res_bind v) (s_bind s) = None \<Longrightarrow>
      Q (ds @ [Settle s]) (obj_set (s_callId s) v' m)"
  shows "Q ds m"
  using assms(1)
proof (induction ds arbitrary: m rule: rev_induct)
  case Nil
  then show ?case using assms(2) by (simp add: foldReservations_def)
next
  case (snoc d ds)
  then obtain st st' where st: "fold_res (foldStep P G) ([], []) ds = Inr st" "foldStep P G st d = Inr st'"
      "m = fst st'"
    by (auto simp: foldReservations_def fold_res_snoc split: sum.splits)
  then have prev: "foldReservations P G ds = Inr (fst st)" by (simp add: foldReservations_def)
  show ?case
  proof (cases d)
    case (Reserve r)
    with st(2) have "foldReserve r st = Inr st'" by (simp add: foldStep_def)
    from foldReserve_shape [OF this] show ?thesis
      using assms(3) [OF prev snoc.IH [OF prev]] Reserve st(3) by auto
  next
    case (Settle s)
    with st(2) have "foldSettle P G s st = Inr st'" by (simp add: foldStep_def)
    from foldSettle_shape [OF this] show ?thesis
      using assms(4) [OF prev snoc.IH [OF prev]] Settle st(3) by auto
  qed
qed

lemma foldReservations_single_use: "foldReservations P G ds = Inr m \<Longrightarrow> single_use ds m"
proof (induction rule: foldReservations_induct)
  case empty
  then show ?case by (simp add: single_use_def)
next
  case (reserve ds m r v)
  then have "r_callId r \<notin> set (reserve_ids ds)"
    unfolding single_use_def obj_has_def by (metis option.distinct(1))
  with reserve show ?case by (auto simp: single_use_def)
next
  case (settle ds m s v v')
  then have "s_callId s \<notin> set (settle_ids ds)" "s_callId s \<in> set (reserve_ids ds)" "obj_has m (s_callId s)"
    by (auto simp: single_use_def obj_has_def)
  with settle settleReservation_shape [OF settle.hyps(4)] show ?case by (auto simp: single_use_def)
qed

text \<open>A reservation's reported cost or fallback authority comes from a settlement of that very call.\<close>

definition vouched :: "Prims \<Rightarrow> Generation \<Rightarrow> SettleData \<Rightarrow> string \<Rightarrow> Reservation \<Rightarrow> bool" where
  "vouched P G s k r \<longleftrightarrow> s_callId s = k \<and> bindingMismatch P (res_bind r) (s_bind s) = None \<and>
     (case s_attest s of None \<Rightarrow> False | Some a \<Rightarrow>
        verifyAttestation (pm_mac P) a = None \<and> attestationBindingError P G s = None \<and>
        p_callId (att_payload a) = k \<and> p_callNonce (att_payload a) = b_callNonce (res_bind r) \<and>
        p_reservationId (att_payload a) = b_reservationId (res_bind r) \<and>
        p_runNonce (att_payload a) = g_runNonce G \<and> p_ledgerEpoch (att_payload a) = g_epoch G \<and>
        (fallbackAuthorized r \<longrightarrow> p_kind (att_payload a) = TrustedFallback) \<and>
        (\<forall>u. trustedUsd r = Some u \<longrightarrow>
           p_costProvenance (att_payload a) = ProviderReported \<and> parseNano (p_usdNano (att_payload a)) = Inr u))"

lemma attestation_binding_fields:
  assumes "s_attest s = Some a" "attestationBindingError P G s = None"
  shows "verifyAttestation (pm_mac P) a = None" "p_ledgerEpoch (att_payload a) = g_epoch G"
    "p_runNonce (att_payload a) = g_runNonce G" "p_callId (att_payload a) = s_callId s"
    "p_callNonce (att_payload a) = b_callNonce (s_bind s)"
    "p_reservationId (att_payload a) = b_reservationId (s_bind s)"
    "p_usdNano (att_payload a) = s_usdNano s"
  using assms by (auto simp: attestationBindingError_def Let_def split: option.splits if_splits)

lemma settlement_vouched:
  assumes "settleReservation P G s v = Inr v'" "bindingMismatch P (res_bind v) (s_bind s) = None"
    and "trustedUsd v' \<noteq> None \<or> fallbackAuthorized v'"
  shows "vouched P G s (s_callId s) v'"
proof -
  note shape = settleReservation_shape [OF assms(1)]
  from assms(3) shape have "costIsTrusted P G s \<or> authorizesFallback P G s" by auto
  then obtain a where a: "s_attest s = Some a" "attestationBindingError P G s = None"
    by (auto simp: costIsTrusted_def authorizesFallback_def split: option.splits)
  have "b_callNonce (s_bind s) = b_callNonce (res_bind v)" "b_reservationId (s_bind s) = b_reservationId (res_bind v)"
    using assms(2) by (auto simp: bindingMismatch_def split: if_splits)
  then show ?thesis
    using shape assms(2) a attestation_binding_fields [OF a]
    by (auto simp: vouched_def costIsTrusted_def authorizesFallback_def)
qed

lemma fold_vouched:
  "foldReservations P G ds = Inr m \<Longrightarrow> obj_get m k = Some r \<Longrightarrow> trustedUsd r \<noteq> None \<or> fallbackAuthorized r \<Longrightarrow>
     \<exists>s. Settle s \<in> set ds \<and> vouched P G s k r"
proof (induction arbitrary: k r rule: foldReservations_induct)
  case (settle ds m s v v')
  show ?case
  proof (cases "k = s_callId s")
    case True
    with settle.prems settlement_vouched [OF settle.hyps(4,5)] show ?thesis by auto
  next
    case False
    with settle.IH [of k r] settle.prems show ?thesis by auto
  qed
qed (auto split: if_splits)

lemma effectiveSpend_fold: "foldReservations P G ds = Inr m \<Longrightarrow> effectiveSpendNano P G ds = Inr (spendOf m)"
  by (simp add: effectiveSpendNano_def)

lemma settlementOf_fold:
  "foldReservations P G ds = Inr m \<Longrightarrow> obj_get m k = Some r \<Longrightarrow> settled r \<Longrightarrow>
     settlementOf P G k ds = Inr \<lparr>st_settled = True, st_costTrusted = trustedUsd r \<noteq> None,
        st_fallbackAuthorized = fallbackAuthorized r\<rparr>"
  by (simp add: settlementOf_def)

section \<open>A concrete run\<close>

text \<open>Values the witnesses evaluate: constant primitives, one call, a budget of 5 USD and a cap of 1 USD.\<close>

definition example_prims :: Prims where
  "example_prims = \<lparr>pm_mac = (\<lambda>_. zeros64), pm_sha256 = (\<lambda>_. zeros64), pm_hashValues = (\<lambda>_. zeros64),
     pm_jsonData = (\<lambda>_. []), pm_jsonRecord = (\<lambda>_. []), pm_parseRecord = (\<lambda>_. None)\<rparr>"

definition example_gen :: Generation where
  "example_gen = \<lparr>g_epoch = zeros64, g_genesis = zeros64, g_runNonce = zeros64\<rparr>"

definition example_caps :: LedgerCaps where
  "example_caps = \<lparr>scopeAlive = (\<lambda>_. False), strongScopeAvailable = True\<rparr>"

definition example_bind :: CallBinding where
  "example_bind = \<lparr>b_runNonce = zeros64, b_callNonce = zeros64, b_callId = ''c1'', b_reservationId = zeros64,
     b_routeEpoch = 0, b_provider = ''claude'', b_model = ''m'', b_attempt = 0, b_intentSha256 = zeros64,
     b_stdinSha256 = zeros64, b_stdinBytes = 0, b_adapter = None, b_egress = None\<rparr>"

definition example_reserve :: JournalData where
  "example_reserve = Reserve \<lparr>r_callId = ''c1'', r_worstCaseNano = formatNano 1000000000, r_enforced = True,
     r_ts = ''t'', r_epoch = zeros64, r_bind = example_bind\<rparr>"

definition example_draft :: KernelSettlementDraft where
  "example_draft = \<lparr>d_providerKind = ''claude'', d_scope = example_scope, d_transcriptDev = ''1'',
     d_transcriptIno = ''2'', d_transcriptSha256 = zeros64, d_transcriptBytes = 10, d_terminalSha256 = zeros64,
     d_terminalBytes = 4, d_terminalOffset = 6, d_egress = None, d_usdNano = ''1000000''\<rparr>"

definition example_fallback_draft :: KernelFallbackDraft where
  "example_fallback_draft = \<lparr>d_providerKind = ''claude'', d_scope = example_scope, d_transcriptDev = ''1'',
     d_transcriptIno = ''2'', d_transcriptSha256 = zeros64, d_transcriptBytes = 10, d_terminalSha256 = zeros64,
     d_terminalBytes = 4, d_terminalOffset = 6, d_egress = None, d_limitSha256 = zeros64, d_limitBytes = 3,
     d_limitOffset = 0\<rparr>"

lemma example_bind_ok: "validateBinding example_bind = None"
  by (simp add: validateBinding_def example_bind_def)

lemma example_money:
  "usdToNano (JsFinite False ''5'') = Inr 5000000000" "usdToNano (JsFinite False ''1'') = Inr 1000000000"
  "parseNano ''1000000'' = Inr 1000000" "formatNano 1000000 = ''1000000''" "formatNano 0 = ''0''"
proof -
  show "usdToNano (JsFinite False ''5'') = Inr 5000000000" by code_simp
  show "usdToNano (JsFinite False ''1'') = Inr 1000000000" by code_simp
  show "parseNano ''1000000'' = Inr 1000000"
    by (simp add: parseNano_def digits_val_def digit_val_def is_digit_def MAX_NANO_def NANO_PER_USD_def)
  show "formatNano 1000000 = ''1000000''"
    by (simp add: formatNano_def int_str_def nat_digits.simps digit_char_def char_of_def bit_iff_odd)
  show "formatNano 0 = ''0''"
    by (simp add: formatNano_def int_str_def nat_digits.simps digit_char_def char_of_def bit_iff_odd)
qed

lemma example_reserved:
  "reserve example_prims example_gen example_bind (JsFinite False ''1'') (JsFinite False ''5'') ''t'' [] =
     Inr (Some example_reserve, True)"
proof -
  have "b_callId example_bind = ''c1''" "g_epoch example_gen = zeros64"
    by (simp_all add: example_bind_def example_gen_def)
  then show ?thesis
    by (simp add: reserve_def example_bind_ok example_money reserveDecide_def foldReservations_def spendOf_def
        example_reserve_def)
qed

lemma example_run1: "ledger_run example_prims example_gen example_caps (JsFinite False ''5'') [example_reserve]"
  using ledger_run.reserve [OF ledger_run.empty example_reserved] by simp

definition example_reservation :: Reservation where
  "example_reservation = \<lparr>worstCase = 1000000000, enforced = True, settled = False, trustedUsd = None,
     fallbackAuthorized = False, over = False, res_bind = example_bind\<rparr>"

lemma example_fold1:
  "foldReservations example_prims example_gen [example_reserve] = Inr [(''c1'', example_reservation)]"
proof -
  have "parseNano (formatNano 1000000000) = Inr 1000000000"
    by (rule parse_format_nano) (simp_all add: MAX_NANO_def NANO_PER_USD_def)
  then show ?thesis
    by (simp add: foldReservations_def foldStep_def foldReserve_def example_reserve_def example_reservation_def)
qed

lemma example_mismatch [simp]: "bindingMismatch P b b = None"
  by (simp add: bindingMismatch_def split: option.splits)

lemma example_append:
  "appendSettlement example_prims example_gen example_bind att usd rep eg ts [example_reserve] =
     Inr (Settle \<lparr>s_callId = ''c1'', s_usdNano = formatNano usd, s_reported = rep, s_ts = ts, s_epoch = zeros64,
       s_bind = example_bind, s_attest = att, s_egress = eg\<rparr>)"
proof -
  have "b_callId example_bind = ''c1''" "g_epoch example_gen = zeros64" "res_bind example_reservation = example_bind"
    "\<not> settled example_reservation"
    by (simp_all add: example_bind_def example_gen_def example_reservation_def)
  then show ?thesis by (simp add: appendSettlement_def example_fold1)
qed

lemma example_mintable:
  "assertMintable example_gen example_caps example_bind example_scope =
     Inr (BCgroup2, scopeIdOf example_scope, reapProofOf example_scope)"
  by (simp add: assertMintable_def example_bind_ok, simp add: example_bind_def example_gen_def example_scope_def
      example_caps_def scopePid_def backendOf_def)

lemma example_payload_of:
  "basePayload example_gen example_bind example_draft (BCgroup2, scopeIdOf example_scope, reapProofOf example_scope) ''t''
     \<lparr>p_usdNano := ''1000000'', p_costProvenance := ProviderReported\<rparr> = example_payload"
  by (simp add: basePayload_def example_payload_def example_gen_def example_bind_def example_draft_def example_money)

lemma example_attested:
  "\<exists>d. attestAndSettle example_prims example_gen example_caps example_bind example_draft ''t'' [example_reserve] = Inr d"
proof -
  have "b_adapter example_bind = None" "d_scope example_draft = example_scope" "d_usdNano example_draft = ''1000000''"
    "pm_mac example_prims = (\<lambda>_. zeros64)"
    by (simp_all add: example_bind_def example_draft_def example_prims_def)
  then show ?thesis
    using example_attestation_ok
    by (simp add: attestAndSettle_def example_mintable adapterGrammarOk_def example_money example_payload_of
        sealAndSettle_def tagPayload_def example_append Let_def flip: example_attestation_def)
qed

lemma example_fallback:
  "\<exists>d. attestFallback example_prims example_gen example_caps example_bind example_fallback_draft ''t'' [example_reserve] = Inr d"
proof -
  let ?p = "basePayload example_gen example_bind example_fallback_draft
      (BCgroup2, scopeIdOf example_scope, reapProofOf example_scope) ''t''
      \<lparr>p_kind := TrustedFallback, p_limitSha256 := Some zeros64, p_limitBytes := Some 3, p_limitOffset := Some 0\<rparr>"
  have "validatePayloadShape ?p = None"
    by (simp add: basePayload_def example_gen_def example_bind_def example_fallback_draft_def example_money
      validatePayloadShape_def ATTEST_SCHEMA_def backendOf_def DEC_def NANO_def posDecimal_def is_digit_def
      limitFrameError_def hasLimit_def, simp add: example_scope_def)
  then have "verifyAttestation (\<lambda>_. zeros64) \<lparr>att_payload = ?p, att_tag = zeros64\<rparr> = None"
    by (simp add: verifyAttestation_None)
  moreover have "b_adapter example_bind = None" "d_scope example_fallback_draft = example_scope"
    "pm_mac example_prims = (\<lambda>_. zeros64)" "d_limitSha256 example_fallback_draft = zeros64"
    "d_limitBytes example_fallback_draft = 3" "d_limitOffset example_fallback_draft = 0"
    by (simp_all add: example_bind_def example_fallback_draft_def example_prims_def)
  ultimately show ?thesis
    by (simp add: attestFallback_def example_mintable adapterGrammarOk_def
        sealAndSettle_def tagPayload_def example_append)
qed

section \<open>Properties\<close>

text \<open>
  C1. Budget safety: in every history of a run under a positive budget \<open>B\<close> the journal folds, and the
  effective spend never exceeds \<open>B\<close> plus what enforced calls reported above their own worst case; while
  no budget violation is flagged, the effective spend is at most \<open>B\<close>.
\<close>

theorem budget_safety:
  assumes "ledger_run P G caps budgetV ds" and "usdToNano budgetV = Inr B" and "0 < B"
  shows "\<exists>m. foldReservations P G ds = Inr m \<and> effectiveSpendNano P G ds = Inr (spendOf m) \<and>
     spendOf m \<le> B + overruns m \<and> (budgetViolation P G ds = Inr None \<longrightarrow> spendOf m \<le> B)"
proof -
  from ledger_run_within [OF assms] obtain m where m: "foldReservations P G ds = Inr m"
      "spendOf m \<le> B + overruns m" "\<forall>k r. obj_get m k = Some r \<longrightarrow> enforced r" by blast
  with no_over_no_overrun [OF m(1,3)] show ?thesis by (auto simp: effectiveSpend_fold)
qed

theorem budget_safety_witness:
  "\<exists>m. effectiveSpendNano example_prims example_gen [example_reserve] = Inr (spendOf m) \<and> spendOf m \<le> 5000000000"
proof -
  have "budgetViolation example_prims example_gen [example_reserve] = Inr None"
    by (simp add: budgetViolation_def example_fold1 example_reservation_def)
  with budget_safety [OF example_run1 example_money(1)] show ?thesis by auto
qed

text \<open>
  The reservation decision: on a journal that folds, for a well-formed binding whose call id and
  nonce are new, \<open>reserve\<close> refuses exactly when the effective spend plus the call's worst case exceeds the
  budget, and otherwise appends a reservation that raises the effective spend by exactly that worst case;
  without a budget it always appends an unenforced reservation of zero.
\<close>

theorem reserve_decision:
  assumes "foldReservations P G ds = Inr m" "validateBinding bind = None"
    and "usdToNano budgetV = Inr B" "usdToNano wcV = Inr wc"
    and "\<not> obj_has m (b_callId bind)" "b_callNonce bind \<notin> set (reserve_nonces ds)"
  shows "(reserve P G bind wcV budgetV ts ds = Inr (None, False) \<longleftrightarrow> 0 < B \<and> B < spendOf m + wc) \<and>
    (\<not> (0 < B \<and> B < spendOf m + wc) \<longrightarrow>
       (\<exists>d. reserve P G bind wcV budgetV ts ds = Inr (Some d, True) \<and>
          effectiveSpendNano P G (ds @ [d]) = Inr (spendOf m + (if 0 < B then wc else 0)) \<and>
          settlementOf P G (b_callId bind) (ds @ [d]) =
            Inr \<lparr>st_settled = False, st_costTrusted = False, st_fallbackAuthorized = False\<rparr>))"
proof -
  have res: "reserve P G bind wcV budgetV ts ds = reserveDecide P G bind wc B ts ds"
    using assms by (simp add: reserve_def)
  have refuse: "reserveDecide P G bind wc B ts ds = Inr (None, False) \<longleftrightarrow> 0 < B \<and> B < spendOf m + wc"
    using assms by (auto simp: reserveDecide_def reserve_nonce_replayed)
  have "\<exists>d. reserveDecide P G bind wc B ts ds = Inr (Some d, True)" if "\<not> (0 < B \<and> B < spendOf m + wc)"
    using that assms by (auto simp: reserveDecide_def reserve_nonce_replayed)
  moreover have "effectiveSpendNano P G (ds @ [d]) = Inr (spendOf m + (if 0 < B then wc else 0)) \<and>
      settlementOf P G (b_callId bind) (ds @ [d]) =
        Inr \<lparr>st_settled = False, st_costTrusted = False, st_fallbackAuthorized = False\<rparr>"
    if "reserveDecide P G bind wc B ts ds = Inr (Some d, True)" for d
    using reserve_appends [OF that] usdToNano_range [OF assms(4)] assms(1)
    by (auto simp: effectiveSpendNano_def settlementOf_def spendOf_new)
  ultimately show ?thesis unfolding res refuse by blast
qed

theorem reserve_decision_witness:
  "\<exists>d. reserve example_prims example_gen example_bind (JsFinite False ''1'') (JsFinite False ''5'') ''t'' [] =
     Inr (Some d, True) \<and> effectiveSpendNano example_prims example_gen [d] = Inr 1000000000"
  using reserve_decision [of example_prims example_gen "[]" "[]" example_bind, OF _ example_bind_ok example_money(1,2)]
  by (auto simp: foldReservations_def spendOf_def reserve_nonces_def)

text \<open>
  An uncertain settlement is conservative: it is accepted only for a reserved, unsettled call of the
  same identity, leaves the effective spend exactly as it was, and yields a call that is settled but neither
  cost-trusted nor allowed to fall back.
\<close>

theorem settle_uncertain_conservative:
  assumes "settleUncertain P G bind eg ts ds = Inr d"
  shows "\<exists>s. effectiveSpendNano P G ds = Inr s \<and> effectiveSpendNano P G (ds @ [d]) = Inr s \<and>
     hasReservation P G (b_callId bind) ds = Inr True \<and>
     settlementOf P G (b_callId bind) ds =
       Inr \<lparr>st_settled = False, st_costTrusted = False, st_fallbackAuthorized = False\<rparr> \<and>
     settlementOf P G (b_callId bind) (ds @ [d]) =
       Inr \<lparr>st_settled = True, st_costTrusted = False, st_fallbackAuthorized = False\<rparr>"
proof -
  from assms obtain m r where "foldReservations P G ds = Inr m" "obj_get m (b_callId bind) = Some r" "\<not> settled r"
    by (auto simp: settleUncertain_def appendSettlement_def split: option.splits sum.splits if_splits)
  with uncertain_keeps_spend [OF assms] show ?thesis
    by (auto simp: effectiveSpendNano_def settlementOf_def hasReservation_def obj_has_def)
qed

theorem settle_uncertain_conservative_witness:
  "\<exists>d. settleUncertain example_prims example_gen example_bind None ''t'' [example_reserve] = Inr d \<and>
     settlementOf example_prims example_gen ''c1'' [example_reserve, d] =
       Inr \<lparr>st_settled = True, st_costTrusted = False, st_fallbackAuthorized = False\<rparr>"
proof -
  obtain d where d: "settleUncertain example_prims example_gen example_bind None ''t'' [example_reserve] = Inr d"
    by (simp add: settleUncertain_def example_bind_ok example_append)
  have "b_callId example_bind = ''c1''" by (simp add: example_bind_def)
  with d settle_uncertain_conservative [OF d] show ?thesis by auto
qed

text \<open>
  An accounted settlement replaces the worst case by the reported cost: it is accepted only once
  the call's process scope is observed dead, the effective spend moves from the reservation's worst case
  \<open>w\<close> to exactly the drafted amount, and the call is cost-trusted but may not fall back.
\<close>

theorem accounted_settlement:
  assumes "attestAndSettle P G caps bind draft ts ds = Inr d"
  shows "\<exists>s w usd. effectiveSpendNano P G ds = Inr s \<and> parseNano (d_usdNano draft) = Inr usd \<and>
     \<not> scopeAlive caps (d_scope draft) \<and> 0 \<le> w \<and>
     effectiveSpendNano P G (ds @ [d]) = Inr (s - w + usd) \<and>
     settlementOf P G (b_callId bind) (ds @ [d]) =
       Inr \<lparr>st_settled = True, st_costTrusted = True, st_fallbackAuthorized = False\<rparr>"
proof -
  from attestAndSettle_effect [OF assms] obtain m m' r usd where h: "foldReservations P G ds = Inr m"
      "obj_get m (b_callId bind) = Some r" "foldReservations P G (ds @ [d]) = Inr m'"
      "parseNano (d_usdNano draft) = Inr usd" "\<not> scopeAlive caps (d_scope draft)"
      "obj_get m' (b_callId bind) = Some (r\<lparr>settled := True, trustedUsd := Some usd, fallbackAuthorized := False,
        over := (over r \<or> enforced r \<and> usd > worstCase r)\<rparr>)" "spendOf m' = spendOf m - worstCase r + usd"
    by blast
  have "0 \<le> worstCase r" using foldReservations_values_ok [OF h(1,2)] by (simp add: reservation_ok_def)
  with h show ?thesis
    by (intro exI [of _ "spendOf m"] exI [of _ "worstCase r"] exI [of _ usd])
       (simp add: effectiveSpend_fold settlementOf_def)
qed

theorem accounted_settlement_witness:
  "\<exists>d. settlementOf example_prims example_gen ''c1'' [example_reserve, d] =
     Inr \<lparr>st_settled = True, st_costTrusted = True, st_fallbackAuthorized = False\<rparr>"
proof -
  obtain d where d: "attestAndSettle example_prims example_gen example_caps example_bind example_draft ''t''
      [example_reserve] = Inr d"
    using example_attested by blast
  have "b_callId example_bind = ''c1''" by (simp add: example_bind_def)
  with accounted_settlement [OF d] show ?thesis by auto
qed

text \<open>
  An attested fallback authorizes re-dispatch and nothing else: the call keeps being charged its
  worst case, is not cost-trusted, and is the only kind of settlement that authorizes a fallback.
\<close>

theorem fallback_settlement:
  assumes "attestFallback P G caps bind draft ts ds = Inr d"
  shows "\<exists>s. effectiveSpendNano P G ds = Inr s \<and> effectiveSpendNano P G (ds @ [d]) = Inr s \<and>
     \<not> scopeAlive caps (d_scope draft) \<and>
     settlementOf P G (b_callId bind) (ds @ [d]) =
       Inr \<lparr>st_settled = True, st_costTrusted = False, st_fallbackAuthorized = True\<rparr>"
  using attestFallback_effect [OF assms] by (auto simp: effectiveSpendNano_def settlementOf_def)

theorem fallback_settlement_witness:
  "\<exists>d. settlementOf example_prims example_gen ''c1'' [example_reserve, d] =
     Inr \<lparr>st_settled = True, st_costTrusted = False, st_fallbackAuthorized = True\<rparr>"
proof -
  obtain d where d: "attestFallback example_prims example_gen example_caps example_bind example_fallback_draft ''t''
      [example_reserve] = Inr d"
    using example_fallback by blast
  have "b_callId example_bind = ''c1''" by (simp add: example_bind_def)
  with fallback_settlement [OF d] show ?thesis by auto
qed

text \<open>
  Identities are single-use: in every journal that folds, no call id and no call nonce is reserved
  twice, no call is settled twice, and every settlement belongs to a reserved call.
\<close>

theorem journal_single_use:
  assumes "foldReservations P G ds = Inr m"
  shows "distinct (reserve_ids ds) \<and> distinct (reserve_nonces ds) \<and> distinct (settle_ids ds) \<and>
     set (settle_ids ds) \<subseteq> set (reserve_ids ds)"
  using foldReservations_single_use [OF assms] foldReservations_state(2) [OF assms]
  by (simp add: single_use_def fold_ok_def)

theorem journal_single_use_witness:
  "distinct (reserve_ids [example_reserve]) \<and> set (settle_ids [example_reserve]) \<subseteq> set (reserve_ids [example_reserve])"
  using journal_single_use [OF example_fold1] by blast

text \<open>
  C3. Only authentic evidence lowers a charge or opens a fallback: whatever records the journal holds,
  a reservation is charged a reported amount, or may fall back, only if the journal has a settlement of
  that call whose attestation verifies under the ledger's key, names this call, its nonce, reservation and
  this ledger generation, and carries that amount (respectively is a \<open>trusted-fallback\<close>).
\<close>

theorem trust_needs_attestation:
  assumes "foldReservations P G ds = Inr m" "obj_get m k = Some r"
    and "trustedUsd r = Some u \<or> fallbackAuthorized r"
  shows "\<exists>s a. Settle s \<in> set ds \<and> s_callId s = k \<and> s_attest s = Some a \<and>
     verifyAttestation (pm_mac P) a = None \<and> p_callId (att_payload a) = k \<and>
     p_callNonce (att_payload a) = b_callNonce (res_bind r) \<and>
     p_reservationId (att_payload a) = b_reservationId (res_bind r) \<and>
     p_runNonce (att_payload a) = g_runNonce G \<and> p_ledgerEpoch (att_payload a) = g_epoch G \<and>
     (trustedUsd r = Some u \<longrightarrow>
        p_costProvenance (att_payload a) = ProviderReported \<and> parseNano (p_usdNano (att_payload a)) = Inr u) \<and>
     (fallbackAuthorized r \<longrightarrow> p_kind (att_payload a) = TrustedFallback)"
proof -
  from assms(3) have "trustedUsd r \<noteq> None \<or> fallbackAuthorized r" by auto
  from fold_vouched [OF assms(1,2) this] obtain s where "Settle s \<in> set ds" "vouched P G s k r" by blast
  then show ?thesis by (auto simp: vouched_def split: option.splits)
qed

theorem trust_needs_attestation_witness:
  "\<exists>ds a s. Settle s \<in> set ds \<and> s_attest s = Some a \<and> verifyAttestation (pm_mac example_prims) a = None \<and>
     parseNano (p_usdNano (att_payload a)) = Inr 1000000"
proof -
  obtain d where d: "attestAndSettle example_prims example_gen example_caps example_bind example_draft ''t''
      [example_reserve] = Inr d"
    using example_attested by blast
  have "d_usdNano example_draft = ''1000000''" by (simp add: example_draft_def)
  with attestAndSettle_effect [OF d] obtain m r where
    "foldReservations example_prims example_gen ([example_reserve] @ [d]) = Inr m"
    "obj_get m (b_callId example_bind) = Some r" "trustedUsd r = Some 1000000"
    by (auto simp: example_money)
  from trust_needs_attestation [OF this(1,2), of 1000000] this(3) show ?thesis by blast
qed

end
