(* ===== verification/Line_Log.thy ===== *)
theory Line_Log
  imports Relay_Prelude
begin

text \<open>
  Append-only text logs read line by line, as \<open>foldContent\<close> and \<open>foldWal\<close> of \<open>src/ledger.ts\<close> read the
  journal and its write-ahead log: the text is split at newlines, the last line is \<open>unterminated\<close> when the
  text does not end in a newline, and the body of the loop either throws, breaks, or goes on with a new
  state. Texts are the bytes of the file (UTF-8). The locale \<open>line_log\<close> is the contract of such a loop body:
  it never breaks on a terminated line, and it counts the bytes it consumed.
\<close>

abbreviation nl :: char where
  "nl \<equiv> CHR 0x0A"

abbreviation nul :: char where
  "nul \<equiv> CHR 0x00"

definition is_space :: "char \<Rightarrow> bool" where
  "is_space c \<longleftrightarrow> char_code c = (32::nat) \<or> (9 \<le> char_code c \<and> char_code c \<le> (13::nat))"

text \<open>\<open>line.trim() === ""\<close>\<close>

definition blank :: "string \<Rightarrow> bool" where
  "blank l \<longleftrightarrow> list_all is_space l"

lemma blank_Nil [simp]: "blank []"
  by (simp add: blank_def)

text \<open>The loop: \<open>Inl\<close> throws, \<open>Inr None\<close> breaks, \<open>Inr (Some s')\<close> continues.\<close>

fun fold_lines :: "(bool \<Rightarrow> 's \<Rightarrow> string \<Rightarrow> 'e + 's option) \<Rightarrow> bool \<Rightarrow> 's \<Rightarrow> string list \<Rightarrow> 'e + 's" where
  "fold_lines f ends s [] = Inr s"
| "fold_lines f ends s (l # ls) =
     (case f (ls = [] \<and> \<not> ends) s l of Inl e \<Rightarrow> Inl e
      | Inr None \<Rightarrow> Inr s
      | Inr (Some s') \<Rightarrow> fold_lines f ends s' ls)"

definition fold_text :: "(bool \<Rightarrow> 's \<Rightarrow> string \<Rightarrow> 'e + 's option) \<Rightarrow> 's \<Rightarrow> string \<Rightarrow> 'e + 's" where
  "fold_text f s raw =
     (if raw = [] then Inr s
      else let endsWithNewline = (last raw = nl); lines = split_on nl raw in
           fold_lines f endsWithNewline s (if endsWithNewline then butlast lines else lines))"

lemma fold_lines_inv:
  assumes "\<And>s u l s'. I s \<Longrightarrow> f u s l = Inr (Some s') \<Longrightarrow> I s'"
  shows "I s \<Longrightarrow> fold_lines f ends s ls = Inr t \<Longrightarrow> I t"
  by (induction ls arbitrary: s) (auto split: sum.splits option.splits dest: assms)

lemma fold_text_inv:
  assumes "\<And>s u l s'. I s \<Longrightarrow> f u s l = Inr (Some s') \<Longrightarrow> I s'"
    and "I s" "fold_text f s raw = Inr t"
  shows "I t"
proof (cases "raw = []")
  case True
  with assms(2,3) show ?thesis by (simp add: fold_text_def)
next
  case False
  with assms(3) obtain ends ls where "fold_lines f ends s ls = Inr t" by (auto simp: fold_text_def Let_def)
  with assms(1,2) show ?thesis by (rule fold_lines_inv)
qed

text \<open>A positioned write; a gap beyond the end of the file reads as NUL bytes.\<close>

definition pwrite :: "string \<Rightarrow> nat \<Rightarrow> string \<Rightarrow> string" where
  "pwrite s off bytes =
     (if bytes = [] then s
      else take off (s @ replicate (off - length s) nul) @ bytes @ drop (off + length bytes) s)"

definition ftruncate :: "string \<Rightarrow> nat \<Rightarrow> string" where
  "ftruncate s n = (if length s > n then take n s else s)"

lemma pwrite_at_end [simp]: "pwrite s (length s) bytes = s @ bytes"
  by (simp add: pwrite_def)

lemma pwrite_hole [simp]: "bytes \<noteq> [] \<Longrightarrow> pwrite s (Suc (length s)) bytes = s @ nul # bytes"
  by (simp add: pwrite_def)

lemma ftruncate_id [simp]: "length s \<le> n \<Longrightarrow> ftruncate s n = s"
  by (simp add: ftruncate_def)

lemma ftruncate_append [simp]: "ftruncate (s @ t) (length s) = s"
  by (simp add: ftruncate_def)

section \<open>Texts that end at a line\<close>

definition clean_text :: "string \<Rightarrow> bool" where
  "clean_text s \<longleftrightarrow> s = [] \<or> last s = nl"

lemma clean_text_Nil [simp]: "clean_text []"
  by (simp add: clean_text_def)

lemma clean_text_line [simp]: "clean_text (s @ l @ [nl])"
  by (simp add: clean_text_def)

lemma split_on_append: "split_on c (p @ c # q) = split_on c p @ split_on c q"
  by (induction p) (auto split: list.splits)

lemma split_on_snoc_sep: "split_on c (p @ [c]) = split_on c p @ [[]]"
  using split_on_append [of c p "[]"] by simp

lemma clean_split:
  assumes "clean_text s" "s \<noteq> []"
  shows "split_on nl (s @ t) = butlast (split_on nl s) @ split_on nl t"
proof -
  from assms obtain p where s: "s = p @ [nl]"
    by (metis append_butlast_last_id clean_text_def)
  then show ?thesis by (simp add: split_on_append split_on_snoc_sep)
qed

lemma split_at_last_line:
  obtains c t where "s = c @ t" "clean_text c" "nl \<notin> set t"
proof
  let ?t = "rev (takeWhile (\<lambda>x. x \<noteq> nl) (rev s))" and ?c = "rev (dropWhile (\<lambda>x. x \<noteq> nl) (rev s))"
  show "s = ?c @ ?t" by (metis rev_append rev_rev_ident takeWhile_dropWhile_id)
  show "clean_text ?c" using hd_dropWhile [of "\<lambda>x. x \<noteq> nl" "rev s"] by (auto simp: clean_text_def last_rev)
  show "nl \<notin> set ?t" by (auto dest: set_takeWhileD)
qed

lemma clean_text_cases:
  assumes "clean_text s"
  obtains "s = []" | c l where "s = c @ l @ [nl]" "clean_text c" "nl \<notin> set l"
proof (cases "s = []")
  case False
  then have "s = butlast s @ [nl]" using assms by (metis append_butlast_last_id clean_text_def)
  moreover obtain c l where "butlast s = c @ l" "clean_text c" "nl \<notin> set l" by (rule split_at_last_line)
  ultimately show ?thesis using that(2) by (metis append.assoc)
qed (use that in blast)

lemma clean_text_induct [consumes 1, case_names empty line]:
  assumes "clean_text s" and "Q []"
    and "\<And>c l. clean_text c \<Longrightarrow> Q c \<Longrightarrow> nl \<notin> set l \<Longrightarrow> Q (c @ l @ [nl])"
  shows "Q s"
  using assms(1)
proof (induction s rule: length_induct)
  case (1 s)
  from \<open>clean_text s\<close> show ?case
  proof (cases rule: clean_text_cases)
    case (2 c l)
    with "1.IH" have "Q c" by simp
    with assms(3) 2 show ?thesis by simp
  qed (use assms(2) in simp)
qed

section \<open>The contract of a log reader\<close>

locale line_log =
  fixes body :: "bool \<Rightarrow> 's \<Rightarrow> string \<Rightarrow> 'e + 's option"
    and consumed :: "'s \<Rightarrow> nat"
  assumes no_break: "body False s l \<noteq> Inr None"
    and body_size: "body u s l = Inr (Some s') \<Longrightarrow> consumed s' = consumed s + length l + 1"
begin

lemma fold_lines_append:
  "ys \<noteq> [] \<Longrightarrow> fold_lines body ends s (xs @ ys) =
     (case fold_lines body True s xs of Inl e \<Rightarrow> Inl e | Inr s' \<Rightarrow> fold_lines body ends s' ys)"
proof (induction xs arbitrary: s)
  case (Cons x xs)
  then show ?case using no_break [of s x] by (auto split: sum.splits option.splits)
qed simp

lemma fold_text_line:
  assumes "clean_text c" "nl \<notin> set l"
  shows "fold_text body s (c @ l @ [nl]) =
    (case fold_text body s c of Inl e \<Rightarrow> Inl e
     | Inr s' \<Rightarrow> (case body False s' l of Inl e \<Rightarrow> Inl e | Inr r \<Rightarrow> Inr (the r)))"
proof -
  have sp: "split_on nl (l @ [nl]) = [l, []]" using assms(2) by (simp add: split_on_snoc_sep split_on_no_sep)
  have one: "fold_lines body True s' [l] = (case body False s' l of Inl e \<Rightarrow> Inl e | Inr r \<Rightarrow> Inr (the r))" for s'
    using no_break [of s' l] by (auto split: sum.splits option.splits)
  show ?thesis
  proof (cases "c = []")
    case False
    then have "last c = nl" using assms(1) by (simp add: clean_text_def)
    with False show ?thesis
      using clean_split [OF assms(1) False, of "l @ [nl]"]
      by (simp add: fold_text_def sp butlast_append fold_lines_append one del: fold_lines.simps(2) split: sum.split)
  qed (simp add: fold_text_def sp one del: fold_lines.simps(2))
qed

lemma fold_text_tail:
  assumes "clean_text c" "nl \<notin> set l" "l \<noteq> []"
  shows "fold_text body s (c @ l) =
    (case fold_text body s c of Inl e \<Rightarrow> Inl e
     | Inr s' \<Rightarrow> (case body True s' l of Inl e \<Rightarrow> Inl e | Inr None \<Rightarrow> Inr s' | Inr (Some s'') \<Rightarrow> Inr s''))"
proof -
  have one: "fold_lines body False s' [l] =
      (case body True s' l of Inl e \<Rightarrow> Inl e | Inr None \<Rightarrow> Inr s' | Inr (Some s'') \<Rightarrow> Inr s'')" for s'
    by (auto split: sum.splits option.splits)
  have lst: "last l \<noteq> nl" using assms(2,3) by (metis last_in_set)
  show ?thesis
  proof (cases "c = []")
    case False
    then have "last c = nl" using assms(1) by (simp add: clean_text_def)
    with False lst show ?thesis
      using clean_split [OF assms(1) False, of l] assms(3)
      by (simp add: fold_text_def split_on_no_sep [OF assms(2)] fold_lines_append one del: fold_lines.simps(2) split: sum.split)
  qed (use lst assms(3) in \<open>simp add: fold_text_def split_on_no_sep [OF assms(2)] one del: fold_lines.simps(2)\<close>)
qed

lemma fold_text_size:
  "clean_text c \<Longrightarrow> fold_text body s c = Inr s' \<Longrightarrow> consumed s' = consumed s + length c"
proof (induction arbitrary: s' rule: clean_text_induct)
  case (line c l)
  then obtain t r where t: "fold_text body s c = Inr t" "body False t l = Inr r" "s' = the r"
    by (auto simp: fold_text_line split: sum.splits)
  with no_break [of t l] obtain t' where "r = Some t'" by auto
  with t line.IH [OF t(1)] body_size show ?case by (metis add.assoc length_append length_append_singleton option.sel Suc_eq_plus1)
qed (simp add: fold_text_def)

lemma fold_text_overcount:
  assumes "clean_text c" "nl \<notin> set l" "l \<noteq> []"
    and "fold_text body s c = Inr t" "body True t l = Inr (Some t')"
  shows "fold_text body s (c @ l) = Inr t' \<and> consumed t' = consumed s + length (c @ l) + 1"
  using assms fold_text_size [OF assms(1,4)] body_size [OF assms(5)] by (simp add: fold_text_tail)

end

end
