(* ===== verification/Ledger_File.thy ===== *)
theory Ledger_File
  imports Ledger Line_Log
begin

text \<open>
  The bytes of the ledger (\<open>src/ledger.ts\<close>): the hash-chained journal (\<open>foldContent\<close>), its write-ahead log
  (\<open>foldWal\<close>, \<open>walAppend\<close>), and the locked transaction that appends one decided record between a fsynced
  intent and its commit (\<open>txn\<close>, \<open>poison\<close>, \<open>read\<close>, \<open>reconcile\<close>).

  The kernel lock makes transactions of all processes sequential, so a transaction is a function of the
  files and of a \<open>TxnEnv\<close> that says how each I/O step of this transaction ends: a write is \<open>Done\<close>, fails
  before it touches the file, or is \<open>Torn\<close> after \<open>k\<close> bytes (a short write, a failed fsync, or the death of
  the process there, which is the case where the poison record is not written either). \<open>e_identity\<close> and
  \<open>e_published\<close> are the outcomes of the inode checks before the lock and after the write.
  \<open>WalCodec\<close> holds \<open>JSON.stringify\<close> and \<open>JSON.parse\<close> on write-ahead records.
\<close>

section \<open>The hash-chained journal\<close>

record Folded =
  f_datas :: "JournalData list"
  f_tip :: string
  f_seq :: nat
  f_durableBytes :: nat

definition recordHash :: "Prims \<Rightarrow> string \<Rightarrow> nat \<Rightarrow> JournalData \<Rightarrow> string" where
  "recordHash P prev seq d = pm_sha256 P (prev @ ''|'' @ nat_digits seq @ ''|'' @ pm_jsonData P d)"

text \<open>The checks of one line: what is wrong with it, or its record.\<close>

definition checkLine :: "Prims \<Rightarrow> Generation \<Rightarrow> Folded \<Rightarrow> string \<Rightarrow> string + JournalRecord" where
  "checkLine P G st line =
     (if blank line then Inl ''blank record''
      else case pm_parseRecord P line of None \<Rightarrow> Inl ''unparseable record''
        | Some r \<Rightarrow>
            (case validateRecordSchema P G r of Some e \<Rightarrow> Inl e
             | None \<Rightarrow>
                 if rec_prev r \<noteq> f_tip st \<or> rec_seq r \<noteq> f_seq st then Inl ''broken chain link''
                 else if rec_hash r \<noteq> recordHash P (f_tip st) (f_seq st) (rec_data r) then Inl ''hash mismatch''
                 else Inr r))"

definition contentStep :: "Prims \<Rightarrow> Generation \<Rightarrow> bool \<Rightarrow> Folded \<Rightarrow> string \<Rightarrow> LedgerError + Folded option" where
  "contentStep P G unterminated st line =
     (case checkLine P G st line of
        Inl e \<Rightarrow> if unterminated then Inr None else Inl (CorruptJournal e)
      | Inr r \<Rightarrow> Inr (Some \<lparr>f_datas = f_datas st @ [rec_data r], f_tip = rec_hash r, f_seq = f_seq st + 1,
                            f_durableBytes = f_durableBytes st + length line + 1\<rparr>))"

definition foldContent :: "Prims \<Rightarrow> Generation \<Rightarrow> string \<Rightarrow> LedgerError + Folded" where
  "foldContent P G raw =
     fold_text (contentStep P G) \<lparr>f_datas = [], f_tip = g_genesis G, f_seq = 0, f_durableBytes = 0\<rparr> raw"

interpretation content_log: line_log "contentStep P G" f_durableBytes for P G
  by unfold_locales (auto simp: contentStep_def split: sum.splits if_splits)

section \<open>The write-ahead log\<close>

datatype WalRecord =
    WIntent nat nat string string
  | WCommit nat string string
  | WPoison string string
  | WRecovered string string

text \<open>What \<open>JSON.parse\<close> makes of a line: a well-typed record, or one of the ill-typed shapes the switch tells apart.\<close>

datatype WalLine = WalRec WalRecord | WalBadIntent | WalBadCommit | WalBadPoison | WalUnknown | WalNull

record WalCodec =
  wc_json :: "WalRecord \<Rightarrow> string"
  wc_parse :: "string \<Rightarrow> WalLine option"

record WalState =
  w_durableBytes :: nat
  w_pending :: "(nat \<times> string) option"
  w_poison :: "string option"

text \<open>
  The switch on \<open>rec.t\<close>. A \<open>break\<close> inside it leaves the switch, not the loop: an invalid record on an
  unterminated line changes nothing, but its bytes are counted.
\<close>

definition walSwitch :: "bool \<Rightarrow> WalLine \<Rightarrow> WalState \<Rightarrow> LedgerError + WalState" where
  "walSwitch unterminated r st =
     (case r of
        WalRec (WIntent seq off h ts) \<Rightarrow> Inr (st\<lparr>w_pending := Some (seq, h)\<rparr>)
      | WalBadIntent \<Rightarrow> if unterminated then Inr st else Inl (CorruptJournal ''invalid WAL intent'')
      | WalRec (WCommit seq h ts) \<Rightarrow>
          if w_pending st \<noteq> Some (seq, h)
          then (if unterminated then Inr st else Inl (CorruptJournal ''WAL commit mismatch''))
          else Inr (st\<lparr>w_pending := None\<rparr>)
      | WalBadCommit \<Rightarrow> if unterminated then Inr st else Inl (CorruptJournal ''WAL commit mismatch'')
      | WalRec (WPoison reason ts) \<Rightarrow> Inr (st\<lparr>w_poison := Some reason\<rparr>)
      | WalBadPoison \<Rightarrow> Inr (st\<lparr>w_poison := Some ''unspecified''\<rparr>)
      | WalRec (WRecovered receipt ts) \<Rightarrow> Inr (st\<lparr>w_pending := None, w_poison := None\<rparr>)
      | WalUnknown \<Rightarrow> if unterminated then Inr st else Inl (CorruptJournal ''unknown WAL record'')
      | WalNull \<Rightarrow> Inl (IoFailure ''TypeError''))"

definition walStep :: "WalCodec \<Rightarrow> bool \<Rightarrow> WalState \<Rightarrow> string \<Rightarrow> LedgerError + WalState option" where
  "walStep W unterminated st line =
     (if blank line then (if unterminated then Inr None else Inl (CorruptJournal ''blank WAL record''))
      else case wc_parse W line of
          None \<Rightarrow> if unterminated then Inr None else Inl (CorruptJournal ''unparseable WAL record'')
        | Some r \<Rightarrow> (case walSwitch unterminated r st of Inl e \<Rightarrow> Inl e
            | Inr st' \<Rightarrow> Inr (Some (st'\<lparr>w_durableBytes := w_durableBytes st' + length line + 1\<rparr>))))"

definition foldWal :: "WalCodec \<Rightarrow> string \<Rightarrow> LedgerError + WalState" where
  "foldWal W raw = fold_text (walStep W) \<lparr>w_durableBytes = 0, w_pending = None, w_poison = None\<rparr> raw"

lemma walSwitch_durable: "walSwitch u r st = Inr st' \<Longrightarrow> w_durableBytes st' = w_durableBytes st"
  by (auto simp: walSwitch_def split: WalLine.splits WalRecord.splits if_splits)

interpretation wal_log: line_log "walStep W" w_durableBytes for W
  by unfold_locales
     (auto simp: walStep_def walSwitch_durable split: if_splits option.splits sum.splits)

section \<open>Files, handles, and one transaction\<close>

definition MAX_LEDGER_BYTES :: nat where
  "MAX_LEDGER_BYTES = 64 * 1024 * 1024"

definition MAX_WAL_BYTES :: nat where
  "MAX_WAL_BYTES = 64 * 1024 * 1024"

record LedgerFs =
  fs_leaf :: string
  fs_wal :: string

record Handle =
  h_closed :: bool
  h_poison :: "string option"

datatype WriteOutcome = Done | FailBefore | Torn nat

record TxnEnv =
  e_identity :: bool
  e_intent :: WriteOutcome
  e_leaf :: WriteOutcome
  e_published :: bool
  e_commit :: WriteOutcome
  e_poison :: WriteOutcome
  e_now :: string

definition readAll :: "nat \<Rightarrow> string \<Rightarrow> LedgerError + string" where
  "readAll maxBytes s = (if length s > maxBytes then Inl (IoFailure ''refusing an unbounded read'') else Inr s)"

definition readWal :: "WalCodec \<Rightarrow> string \<Rightarrow> LedgerError + WalState" where
  "readWal W wal = (case readAll MAX_WAL_BYTES wal of Inl e \<Rightarrow> Inl e | Inr raw \<Rightarrow> foldWal W raw)"

definition readLeaf :: "Prims \<Rightarrow> Generation \<Rightarrow> string \<Rightarrow> LedgerError + Folded" where
  "readLeaf P G leaf = (case readAll MAX_LEDGER_BYTES leaf of Inl e \<Rightarrow> Inl e | Inr raw \<Rightarrow> foldContent P G raw)"

text \<open>\<open>pwriteAll\<close> followed by \<open>fsync\<close>, after dropping the bytes beyond the durable offset.\<close>

definition writeAt :: "WriteOutcome \<Rightarrow> nat \<Rightarrow> string \<Rightarrow> string \<Rightarrow> (LedgerError + unit) \<times> string" where
  "writeAt out off line file =
     (case out of
        FailBefore \<Rightarrow> (Inl (IoFailure ''io''), file)
      | Torn k \<Rightarrow> (Inl (IoFailure ''io''), pwrite (ftruncate file off) off (take k line))
      | Done \<Rightarrow> (Inr (), pwrite (ftruncate file off) off line))"

definition walAppend :: "WalCodec \<Rightarrow> WriteOutcome \<Rightarrow> WalRecord \<Rightarrow> string \<Rightarrow> (LedgerError + unit) \<times> string" where
  "walAppend W out r wal =
     (case readWal W wal of Inl e \<Rightarrow> (Inl e, wal)
      | Inr st \<Rightarrow> writeAt out (w_durableBytes st) (wc_json W r @ [nl]) wal)"

definition assertUsable :: "Handle \<Rightarrow> LedgerError option" where
  "assertUsable h =
     (if h_closed h then Some (RecoveryRequired ''the ledger handle is closed'')
      else map_option RecoveryRequired (h_poison h))"

definition walRefusal :: "WalState \<Rightarrow> LedgerError option" where
  "walRefusal w =
     (case w_poison w of
        Some r \<Rightarrow> if r \<noteq> [] then Some (RecoveryRequired r)
          else if w_pending w \<noteq> None then Some (RecoveryRequired ''uncommitted intent'') else None
      | None \<Rightarrow> if w_pending w \<noteq> None then Some (RecoveryRequired ''uncommitted intent'') else None)"

definition POISON_REASON :: string where
  "POISON_REASON = ''transaction failed after a possible mutation''"

definition poison :: "WalCodec \<Rightarrow> TxnEnv \<Rightarrow> Handle \<times> LedgerFs \<Rightarrow> Handle \<times> LedgerFs" where
  "poison W env s =
     (let (h, fs) = s in
      (h\<lparr>h_poison := Some POISON_REASON\<rparr>,
       fs\<lparr>fs_wal := snd (walAppend W (e_poison env) (WPoison POISON_REASON (e_now env)) (fs_wal fs))\<rparr>))"

definition sealRecord :: "Prims \<Rightarrow> Folded \<Rightarrow> JournalData \<Rightarrow> JournalRecord" where
  "sealRecord P f d = \<lparr>rec_seq = f_seq f, rec_prev = f_tip f, rec_hash = recordHash P (f_tip f) (f_seq f) d, rec_data = d\<rparr>"

text \<open>Steps 8 to 12 of the transaction, entered with the intent durable; a failure poisons.\<close>

definition publishRecord ::
  "Prims \<Rightarrow> WalCodec \<Rightarrow> TxnEnv \<Rightarrow> Folded \<Rightarrow> JournalRecord \<Rightarrow> 'r \<Rightarrow> Handle \<times> LedgerFs \<Rightarrow> (LedgerError + 'r) \<times> Handle \<times> LedgerFs" where
  "publishRecord P W env f r res s =
     (let (h, fs) = s; line = pm_jsonRecord P r @ [nl];
          (w, leaf') = writeAt (e_leaf env) (f_durableBytes f) line (fs_leaf fs);
          fs' = fs\<lparr>fs_leaf := leaf'\<rparr> in
      case w of Inl e \<Rightarrow> (Inl e, poison W env (h, fs'))
      | Inr _ \<Rightarrow>
          if length leaf' \<noteq> f_durableBytes f + length line then (Inl (IoFailure ''post-write size''), poison W env (h, fs'))
          else if \<not> e_published env then (Inl (RecoveryRequired ''not published''), poison W env (h, fs'))
          else case walAppend W (e_commit env) (WCommit (rec_seq r) (rec_hash r) (e_now env)) (fs_wal fs) of
              (Inl e, wal') \<Rightarrow> (Inl e, poison W env (h, fs'\<lparr>fs_wal := wal'\<rparr>))
            | (Inr _, wal') \<Rightarrow> (Inr res, h, fs'\<lparr>fs_wal := wal'\<rparr>))"

definition txn ::
  "Prims \<Rightarrow> WalCodec \<Rightarrow> Generation \<Rightarrow> TxnEnv \<Rightarrow> (Folded \<Rightarrow> LedgerError + (JournalData option \<times> 'r)) \<Rightarrow>
   Handle \<times> LedgerFs \<Rightarrow> (LedgerError + 'r) \<times> Handle \<times> LedgerFs" where
  "txn P W G env decide s =
     (let (h, fs) = s in
      case assertUsable h of Some e \<Rightarrow> (Inl e, s)
      | None \<Rightarrow>
          if \<not> e_identity env then (Inl (RecoveryRequired ''identity''), s)
          else case readWal W (fs_wal fs) of Inl e \<Rightarrow> (Inl e, s)
            | Inr w \<Rightarrow> (case walRefusal w of Some e \<Rightarrow> (Inl e, s)
              | None \<Rightarrow> (case readLeaf P G (fs_leaf fs) of Inl e \<Rightarrow> (Inl e, s)
                | Inr f \<Rightarrow> (case decide f of Inl e \<Rightarrow> (Inl e, s)
                  | Inr (None, res) \<Rightarrow> (Inr res, s)
                  | Inr (Some d, res) \<Rightarrow>
                      let r = sealRecord P f d in
                      (case walAppend W (e_intent env) (WIntent (rec_seq r) (f_durableBytes f) (rec_hash r) (e_now env)) (fs_wal fs) of
                         (Inl e, wal') \<Rightarrow> (Inl e, h, fs\<lparr>fs_wal := wal'\<rparr>)
                       | (Inr _, wal') \<Rightarrow> publishRecord P W env f r res (h, fs\<lparr>fs_wal := wal'\<rparr>))))))"

definition readLedger ::
  "Prims \<Rightarrow> WalCodec \<Rightarrow> Generation \<Rightarrow> TxnEnv \<Rightarrow> (Folded \<Rightarrow> LedgerError + 'r) \<Rightarrow> Handle \<times> LedgerFs \<Rightarrow> LedgerError + 'r" where
  "readLedger P W G env fn s =
     (let (h, fs) = s in
      case assertUsable h of Some e \<Rightarrow> Inl e
      | None \<Rightarrow>
          if \<not> e_identity env then Inl (RecoveryRequired ''identity'')
          else case readWal W (fs_wal fs) of Inl e \<Rightarrow> Inl e
            | Inr w \<Rightarrow> (case walRefusal w of Some e \<Rightarrow> Inl e
              | None \<Rightarrow> (case readLeaf P G (fs_leaf fs) of Inl e \<Rightarrow> Inl e | Inr f \<Rightarrow> fn f)))"

text \<open>
  \<open>reconcile\<close>: the recovery receipt itself is a separate file, whose publication is part of \<open>e_published\<close>;
  its hash is the argument \<open>receipt\<close>.
\<close>

definition reconcile ::
  "Prims \<Rightarrow> WalCodec \<Rightarrow> Generation \<Rightarrow> TxnEnv \<Rightarrow> string \<Rightarrow> Handle \<times> LedgerFs \<Rightarrow> (LedgerError + string) \<times> Handle \<times> LedgerFs" where
  "reconcile P W G env receipt s =
     (let (h, fs) = s in
      if h_closed h then (Inl (RecoveryRequired ''the ledger handle is closed''), s)
      else if \<not> e_identity env then (Inl (RecoveryRequired ''identity''), s)
      else case readWal W (fs_wal fs) of Inl e \<Rightarrow> (Inl e, s)
        | Inr before \<Rightarrow> (case readLeaf P G (fs_leaf fs) of Inl e \<Rightarrow> (Inl e, s)
          | Inr state \<Rightarrow>
              if \<not> e_published env then (Inl (IoFailure ''receipt''), s)
              else (case walAppend W (e_commit env) (WRecovered receipt (e_now env)) (fs_wal fs) of
                     (Inl e, wal') \<Rightarrow> (Inl e, h, fs\<lparr>fs_wal := wal'\<rparr>)
                   | (Inr _, wal') \<Rightarrow> (Inr receipt, h\<lparr>h_poison := None\<rparr>, fs\<lparr>fs_wal := wal'\<rparr>))))"

section \<open>Public operations that append\<close>

definition reserveCall ::
  "Prims \<Rightarrow> WalCodec \<Rightarrow> Generation \<Rightarrow> TxnEnv \<Rightarrow> CallBinding \<Rightarrow> js_value \<Rightarrow> js_value \<Rightarrow> Handle \<times> LedgerFs \<Rightarrow>
   (LedgerError + bool) \<times> Handle \<times> LedgerFs" where
  "reserveCall P W G env bind worstCaseUsd budgetUsdV s =
     (case validateBinding bind of Some e \<Rightarrow> (Inl (MintRefused e), s)
      | None \<Rightarrow> (case usdToNano budgetUsdV of Inl e \<Rightarrow> (Inl (MoneyErr e), s)
        | Inr budget \<Rightarrow> (case usdToNano worstCaseUsd of Inl e \<Rightarrow> (Inl (MoneyErr e), s)
          | Inr wc \<Rightarrow> txn P W G env (\<lambda>f. reserveDecide P G bind wc budget (e_now env) (f_datas f)) s)))"

definition settleUncertainCall ::
  "Prims \<Rightarrow> WalCodec \<Rightarrow> Generation \<Rightarrow> TxnEnv \<Rightarrow> CallBinding \<Rightarrow> EgressEvidence option \<Rightarrow> Handle \<times> LedgerFs \<Rightarrow>
   (LedgerError + unit) \<times> Handle \<times> LedgerFs" where
  "settleUncertainCall P W G env bind egress s =
     (case validateBinding bind of Some e \<Rightarrow> (Inl (MintRefused e), s)
      | None \<Rightarrow> txn P W G env (\<lambda>f. case appendSettlement P G bind None 0 False egress (e_now env) (f_datas f) of
            Inl e \<Rightarrow> Inl e | Inr d \<Rightarrow> Inr (Some d, ())) s)"

section \<open>The chain\<close>

text \<open>The tip after a list of data: each record hashes its predecessor's hash, its number and its data.\<close>

fun chainTip :: "Prims \<Rightarrow> string \<Rightarrow> nat \<Rightarrow> JournalData list \<Rightarrow> string" where
  "chainTip P tip seq [] = tip"
| "chainTip P tip seq (d # ds) = chainTip P (recordHash P tip seq d) (Suc seq) ds"

lemma chainTip_snoc: "chainTip P tip seq (ds @ [d]) = recordHash P (chainTip P tip seq ds) (seq + length ds) d"
  by (induction ds arbitrary: tip seq) simp_all

definition chained :: "Prims \<Rightarrow> Generation \<Rightarrow> Folded \<Rightarrow> bool" where
  "chained P G f \<longleftrightarrow> f_tip f = chainTip P (g_genesis G) 0 (f_datas f) \<and> f_seq f = length (f_datas f) \<and>
     list_all (\<lambda>d. validateData P G d = None) (f_datas f)"

lemma checkLine_ok:
  "checkLine P G st line = Inr r \<Longrightarrow> rec_hash r = recordHash P (f_tip st) (f_seq st) (rec_data r) \<and>
     validateData P G (rec_data r) = None"
  by (auto simp: checkLine_def validateRecordSchema_def split: if_splits option.splits)

lemma contentStep_chained:
  "chained P G st \<Longrightarrow> contentStep P G u st line = Inr (Some st') \<Longrightarrow> chained P G st'"
  by (auto simp: contentStep_def chained_def chainTip_snoc split: sum.splits if_splits dest: checkLine_ok)

lemma foldContent_chained: "foldContent P G raw = Inr f \<Longrightarrow> chained P G f"
  unfolding foldContent_def
  by (rule fold_text_inv [where I = "chained P G", OF contentStep_chained]) (auto simp: chained_def)

text \<open>The preimages are unambiguous when digests and numerals have no separator in them.\<close>

lemma preimage_cancel:
  assumes "CHR ''|'' \<notin> set a" "CHR ''|'' \<notin> set b" "a @ CHR ''|'' # x = b @ CHR ''|'' # y"
  shows "a = b \<and> x = y"
proof -
  have tw: "takeWhile (\<lambda>c. c \<noteq> CHR ''|'') (a @ CHR ''|'' # x) = a" if "CHR ''|'' \<notin> set a" for a x
    using that by (induction a) auto
  have "a = b" using tw [OF assms(1), of x] tw [OF assms(2), of y] assms(3) by simp
  with assms(3) show ?thesis by simp
qed

lemma nat_digits_no_bar: "CHR ''|'' \<notin> set (nat_digits n)"
  by (auto dest: nat_digits_digit simp: is_digit_def)

definition preimage :: "Prims \<Rightarrow> string \<Rightarrow> nat \<Rightarrow> JournalData \<Rightarrow> string" where
  "preimage P prev seq d = prev @ ''|'' @ nat_digits seq @ ''|'' @ pm_jsonData P d"

lemma preimage_inj:
  assumes "CHR ''|'' \<notin> set p" "CHR ''|'' \<notin> set q" "preimage P p i d = preimage P q j e"
  shows "p = q \<and> i = j \<and> pm_jsonData P d = pm_jsonData P e"
proof -
  from assms(3) have "p @ CHR ''|'' # (nat_digits i @ CHR ''|'' # pm_jsonData P d) =
      q @ CHR ''|'' # (nat_digits j @ CHR ''|'' # pm_jsonData P e)"
    by (simp add: preimage_def)
  from preimage_cancel [OF assms(1,2) this] have "p = q"
    "nat_digits i @ CHR ''|'' # pm_jsonData P d = nat_digits j @ CHR ''|'' # pm_jsonData P e" by simp_all
  with preimage_cancel [OF nat_digits_no_bar nat_digits_no_bar this(2)] show ?thesis
    by (auto dest: nat_digits_inj)
qed

text \<open>The texts hashed while a chain is built.\<close>

fun chainTexts :: "Prims \<Rightarrow> string \<Rightarrow> nat \<Rightarrow> JournalData list \<Rightarrow> string list" where
  "chainTexts P tip seq [] = []"
| "chainTexts P tip seq (d # ds) = preimage P tip seq d # chainTexts P (recordHash P tip seq d) (Suc seq) ds"

lemma chainTexts_snoc:
  "chainTexts P tip seq (ds @ [d]) = chainTexts P tip seq ds @ [preimage P (chainTip P tip seq ds) (seq + length ds) d]"
  by (induction ds arbitrary: tip seq) simp_all

lemma chainTip_no_bar:
  "CHR ''|'' \<notin> set tip \<Longrightarrow> (\<And>x. CHR ''|'' \<notin> set (pm_sha256 P x)) \<Longrightarrow> CHR ''|'' \<notin> set (chainTip P tip seq ds)"
  by (induction ds arbitrary: tip seq) (simp_all add: recordHash_def)

lemma chain_binds:
  assumes "length ds = length es" "chainTip P g 0 ds = chainTip P g 0 es"
    and "inj_on (pm_sha256 P) (set (chainTexts P g 0 ds) \<union> set (chainTexts P g 0 es))"
    and "inj_on (pm_jsonData P) (set ds \<union> set es)"
    and "CHR ''|'' \<notin> set g" "\<And>x. CHR ''|'' \<notin> set (pm_sha256 P x)"
  shows "ds = es"
  using assms(1-4)
proof (induction ds arbitrary: es rule: rev_induct)
  case (snoc d ds)
  then obtain e es' where es: "es = es' @ [e]" "length ds = length es'"
    by (metis length_0_conv length_append_singleton nat.distinct(1) nat.inject rev_exhaust)
  let ?p = "preimage P (chainTip P g 0 ds) (length ds) d" and ?q = "preimage P (chainTip P g 0 es') (length es') e"
  have "pm_sha256 P ?p = pm_sha256 P ?q"
    using snoc.prems(2) by (simp add: es(1) chainTip_snoc recordHash_def preimage_def)
  then have "?p = ?q"
    by (rule inj_onD [OF snoc.prems(3)]) (simp_all add: es(1) chainTexts_snoc)
  then have tips: "chainTip P g 0 ds = chainTip P g 0 es'" and js: "pm_jsonData P d = pm_jsonData P e"
    using preimage_inj [OF chainTip_no_bar chainTip_no_bar, OF assms(5,6) assms(5,6)] by blast+
  have "d = e" by (rule inj_onD [OF snoc.prems(4) js]) (simp_all add: es(1))
  moreover have "ds = es'"
    by (rule snoc.IH [OF es(2) tips]) (rule inj_on_subset [OF snoc.prems(3)] inj_on_subset [OF snoc.prems(4)],
        auto simp: es(1) chainTexts_snoc)+
  ultimately show ?case by (simp add: es(1))
qed simp

section \<open>Appending to the journal\<close>

definition record_codec_ok :: "Prims \<Rightarrow> JournalRecord \<Rightarrow> bool" where
  "record_codec_ok P r \<longleftrightarrow> nl \<notin> set (pm_jsonRecord P r) \<and> \<not> blank (pm_jsonRecord P r) \<and>
     pm_parseRecord P (pm_jsonRecord P r) = Some r"

definition wal_codec_ok :: "WalCodec \<Rightarrow> WalRecord \<Rightarrow> bool" where
  "wal_codec_ok W r \<longleftrightarrow> nl \<notin> set (wc_json W r) \<and> \<not> blank (wc_json W r) \<and>
     wc_parse W (wc_json W r) = Some (WalRec r) \<and>
     (\<forall>k < length (wc_json W r). wc_parse W (take k (wc_json W r)) = None)"

lemma sealed_line_ok:
  assumes "record_codec_ok P (sealRecord P f d)" "validateData P G d = None" "f_tip f \<noteq> []"
    and "\<And>x. pm_sha256 P x \<noteq> []"
  shows "checkLine P G f (pm_jsonRecord P (sealRecord P f d)) = Inr (sealRecord P f d)"
  using assms by (simp add: checkLine_def record_codec_ok_def validateRecordSchema_def, simp add: sealRecord_def recordHash_def)

lemma chainTip_nonempty:
  "tip \<noteq> [] \<Longrightarrow> (\<And>x. pm_sha256 P x \<noteq> []) \<Longrightarrow> chainTip P tip seq ds \<noteq> []"
  by (induction ds arbitrary: tip seq) (simp_all add: recordHash_def)

lemma foldContent_append:
  assumes "clean_text leaf" "foldContent P G leaf = Inr f" "validateData P G d = None"
    and "record_codec_ok P (sealRecord P f d)" "g_genesis G \<noteq> []" "\<And>x. pm_sha256 P x \<noteq> []"
  shows "\<exists>f'. foldContent P G (leaf @ pm_jsonRecord P (sealRecord P f d) @ [nl]) = Inr f' \<and>
     f_datas f' = f_datas f @ [d] \<and> f_seq f' = Suc (f_seq f) \<and>
     f_tip f' = recordHash P (f_tip f) (f_seq f) d"
proof -
  have "f_tip f \<noteq> []"
    using foldContent_chained [OF assms(2)] assms(5,6) by (simp add: chained_def chainTip_nonempty)
  then have line: "checkLine P G f (pm_jsonRecord P (sealRecord P f d)) = Inr (sealRecord P f d)"
    using assms by (intro sealed_line_ok) auto
  have "nl \<notin> set (pm_jsonRecord P (sealRecord P f d))" using assms(4) by (simp add: record_codec_ok_def)
  with line assms(1,2) show ?thesis
    by (simp add: foldContent_def content_log.fold_text_line contentStep_def)
       (simp add: sealRecord_def)
qed

lemma foldContent_durable: "clean_text leaf \<Longrightarrow> foldContent P G leaf = Inr f \<Longrightarrow> f_durableBytes f = length leaf"
  using content_log.fold_text_size by (fastforce simp: foldContent_def)

lemma foldWal_durable: "clean_text wal \<Longrightarrow> foldWal W wal = Inr w \<Longrightarrow> w_durableBytes w = length wal"
  using wal_log.fold_text_size by (fastforce simp: foldWal_def)

section \<open>Appending to the write-ahead log\<close>

definition blocked :: "WalCodec \<Rightarrow> LedgerFs \<Rightarrow> bool" where
  "blocked W fs \<longleftrightarrow> (case readWal W (fs_wal fs) of Inl _ \<Rightarrow> True | Inr w \<Rightarrow> walRefusal w \<noteq> None)"

definition quiescent :: "Prims \<Rightarrow> WalCodec \<Rightarrow> Generation \<Rightarrow> Folded \<Rightarrow> LedgerFs \<Rightarrow> bool" where
  "quiescent P W G f fs \<longleftrightarrow> clean_text (fs_leaf fs) \<and> foldContent P G (fs_leaf fs) = Inr f \<and>
     clean_text (fs_wal fs) \<and>
     (case foldWal W (fs_wal fs) of Inl _ \<Rightarrow> False | Inr w \<Rightarrow> walRefusal w = None)"

lemma pending_refused: "w_pending w \<noteq> None \<Longrightarrow> walRefusal w \<noteq> None"
  by (auto simp: walRefusal_def split: option.splits)

lemma walAppend_clean:
  assumes "clean_text wal" "foldWal W wal = Inr w"
  shows "walAppend W out r wal =
    (if length wal > MAX_WAL_BYTES then (Inl (IoFailure ''refusing an unbounded read''), wal)
     else case out of FailBefore \<Rightarrow> (Inl (IoFailure ''io''), wal)
       | Torn k \<Rightarrow> (Inl (IoFailure ''io''), wal @ take k (wc_json W r @ [nl]))
       | Done \<Rightarrow> (Inr (), wal @ wc_json W r @ [nl]))"
  using foldWal_durable [OF assms] assms(2)
  by (auto simp: walAppend_def readWal_def readAll_def writeAt_def split: WriteOutcome.splits)

lemma foldWal_line:
  assumes "clean_text wal" "foldWal W wal = Inr w" "wal_codec_ok W r"
  shows "foldWal W (wal @ wc_json W r @ [nl]) =
    (case walSwitch False (WalRec r) w of Inl e \<Rightarrow> Inl e
     | Inr w' \<Rightarrow> Inr (w'\<lparr>w_durableBytes := w_durableBytes w' + length (wc_json W r) + 1\<rparr>))"
  using assms by (simp add: foldWal_def wal_log.fold_text_line wal_codec_ok_def walStep_def split: sum.split)

lemma foldWal_unterminated:
  assumes "clean_text wal" "foldWal W wal = Inr w" "wal_codec_ok W r"
  shows "foldWal W (wal @ wc_json W r) =
    (case walSwitch True (WalRec r) w of Inl e \<Rightarrow> Inl e
     | Inr w' \<Rightarrow> Inr (w'\<lparr>w_durableBytes := w_durableBytes w' + length (wc_json W r) + 1\<rparr>))"
proof -
  have "wc_json W r \<noteq> []" using assms(3) by (auto simp: wal_codec_ok_def)
  with assms show ?thesis
    by (simp add: foldWal_def wal_log.fold_text_tail wal_codec_ok_def walStep_def split: sum.split)
qed

lemma foldWal_torn:
  assumes "clean_text wal" "foldWal W wal = Inr w" "wal_codec_ok W r" "k < length (wc_json W r)"
  shows "foldWal W (wal @ take k (wc_json W r)) = Inr w"
proof (cases "take k (wc_json W r) = []")
  case True
  show ?thesis unfolding True using assms(2) by simp
next
  case False
  have "nl \<notin> set (take k (wc_json W r))"
    using assms(3) by (auto simp: wal_codec_ok_def dest: in_set_takeD)
  with assms False show ?thesis
    by (simp add: foldWal_def wal_log.fold_text_tail wal_codec_ok_def walStep_def)
qed

lemma torn_cases:
  obtains "k < length j" "take k (j @ [nl]) = take k j" | "take k (j @ [nl]) = j" | "take k (j @ [nl]) = j @ [nl]"
proof -
  consider "k < length j" | "k = length j" | "k > length j" by linarith
  then show ?thesis
    by cases (use that in auto)
qed

text \<open>Once an intent is pending, no outcome of writing the poison record clears it.\<close>

lemma poison_keeps_pending:
  assumes "clean_text wal" "foldWal W wal = Inr w" "w_pending w \<noteq> None" "wal_codec_ok W (WPoison reason ts)"
  shows "\<exists>w'. foldWal W (snd (walAppend W out (WPoison reason ts) wal)) = Inr w' \<and> w_pending w' \<noteq> None"
proof -
  have full: "\<exists>w'. foldWal W (wal @ wc_json W (WPoison reason ts) @ [nl]) = Inr w' \<and> w_pending w' \<noteq> None"
    using assms by (simp add: foldWal_line walSwitch_def)
  have unt: "\<exists>w'. foldWal W (wal @ wc_json W (WPoison reason ts)) = Inr w' \<and> w_pending w' \<noteq> None"
    using assms by (simp add: foldWal_unterminated walSwitch_def)
  have torn: "\<exists>w'. foldWal W (wal @ take k (wc_json W (WPoison reason ts) @ [nl])) = Inr w' \<and> w_pending w' \<noteq> None" for k
  proof (cases k "wc_json W (WPoison reason ts)" rule: torn_cases)
    case 1
    then show ?thesis using assms by (simp add: foldWal_torn)
  qed (use full unt in simp_all)
  show ?thesis
    using assms full torn by (auto simp: walAppend_clean split: WriteOutcome.splits)
qed

lemma pending_blocked: "foldWal W (fs_wal fs) = Inr w \<Longrightarrow> w_pending w \<noteq> None \<Longrightarrow> blocked W fs"
  using pending_refused [of w] by (simp add: blocked_def readWal_def readAll_def)

lemma poison_blocked:
  assumes "clean_text (fs_wal fs)" "foldWal W (fs_wal fs) = Inr w" "w_pending w \<noteq> None"
    and "wal_codec_ok W (WPoison POISON_REASON (e_now env))"
  shows "blocked W (snd (poison W env (h, fs)))"
proof -
  obtain w' where "foldWal W (snd (walAppend W (e_poison env) (WPoison POISON_REASON (e_now env)) (fs_wal fs))) = Inr w'"
      "w_pending w' \<noteq> None"
    using poison_keeps_pending [OF assms] by blast
  then show ?thesis by (simp add: poison_def pending_blocked)
qed

lemma poison_keeps_leaf [simp]: "fs_leaf (snd (poison W env (h, fs))) = fs_leaf fs"
  by (simp add: poison_def)

section \<open>A blocked ledger answers nothing\<close>

lemma blocked_txn: "blocked W fs \<Longrightarrow> \<exists>e. txn P W G env decide (h, fs) = (Inl e, h, fs)"
  by (auto simp: blocked_def txn_def split: sum.splits option.splits)

lemma blocked_read: "blocked W fs \<Longrightarrow> \<exists>e. readLedger P W G env fn (h, fs) = Inl e"
  by (auto simp: blocked_def readLedger_def split: sum.splits option.splits)

section \<open>Outcomes of a transaction\<close>

text \<open>What the code relies on about the platform: digests are non-empty, the genesis is, and the JSON codec
  is faithful on the records at hand.\<close>

definition txn_laws :: "Prims \<Rightarrow> WalCodec \<Rightarrow> Generation \<Rightarrow> TxnEnv \<Rightarrow> Folded \<Rightarrow> JournalData \<Rightarrow> bool" where
  "txn_laws P W G env f d \<longleftrightarrow> g_genesis G \<noteq> [] \<and> (\<forall>x. pm_sha256 P x \<noteq> []) \<and>
     record_codec_ok P (sealRecord P f d) \<and>
     (let r = sealRecord P f d; now = e_now env in
      list_all (wal_codec_ok W) [WIntent (rec_seq r) (f_durableBytes f) (rec_hash r) now,
        WCommit (rec_seq r) (rec_hash r) now, WPoison POISON_REASON now])"

lemma publish_outcomes:
  assumes pub: "publishRecord P W env f (sealRecord P f d) res (h, fs) = (out, h', fs')"
    and leaf: "clean_text (fs_leaf fs)" "foldContent P G (fs_leaf fs) = Inr f" "validateData P G d = None"
    and wal: "clean_text (fs_wal fs)" "foldWal W (fs_wal fs) = Inr w"
      "w_pending w = Some (f_seq f, recordHash P (f_tip f) (f_seq f) d)" "w_poison w = None \<or> w_poison w = Some []"
    and laws: "txn_laws P W G env f d"
  shows "(\<exists>f'. (case out of Inl _ \<Rightarrow> foldContent P G (fs_leaf fs') = Inr f' | Inr x \<Rightarrow> x = res \<and> quiescent P W G f' fs') \<and>
      f_datas f' = f_datas f @ [d]) \<or> (\<exists>e. out = Inl e) \<and> blocked W fs'"
proof -
  let ?r = "sealRecord P f d"
  let ?leaf = "fs_leaf fs @ pm_jsonRecord P ?r @ [nl]"
  have dur: "f_durableBytes f = length (fs_leaf fs)" by (rule foldContent_durable [OF leaf(1,2)])
  have ok: "wal_codec_ok W (WPoison POISON_REASON (e_now env))"
      "wal_codec_ok W (WCommit (rec_seq ?r) (rec_hash ?r) (e_now env))" "record_codec_ok P ?r"
      "g_genesis G \<noteq> []" "\<And>x. pm_sha256 P x \<noteq> []"
    using laws by (auto simp: txn_laws_def Let_def)
  from foldContent_append [OF leaf(1-3) ok(3-5)] obtain f' where f': "foldContent P G ?leaf = Inr f'"
      "f_datas f' = f_datas f @ [d]" by blast
  have poisoned: "blocked W (snd (poison W env (h, fs\<lparr>fs_leaf := l\<rparr>)))" for l
    using poison_blocked [of "fs\<lparr>fs_leaf := l\<rparr>" W w env h] wal ok(1) by simp
  show ?thesis
  proof (cases "e_leaf env = Done \<and> e_published env")
    case False
    then have "\<exists>e l. publishRecord P W env f ?r res (h, fs) = (Inl e, poison W env (h, fs\<lparr>fs_leaf := l\<rparr>))"
      by (cases "e_leaf env") (auto simp: publishRecord_def writeAt_def dur intro: exI [of _ "fs_leaf fs"])
    with pub obtain e l where "out = Inl e" "(h', fs') = poison W env (h, fs\<lparr>fs_leaf := l\<rparr>)" by auto
    with poisoned [of l] show ?thesis by (metis snd_conv)
  next
    case True
    have commit: "foldWal W (fs_wal fs @ wc_json W (WCommit (rec_seq ?r) (rec_hash ?r) (e_now env)) @ [nl]) =
        Inr (w\<lparr>w_pending := None, w_durableBytes := w_durableBytes w +
          length (wc_json W (WCommit (rec_seq ?r) (rec_hash ?r) (e_now env))) + 1\<rparr>)"
      using wal ok(2) by (simp add: foldWal_line walSwitch_def sealRecord_def)
    have leaf': "fs_leaf fs' = ?leaf"
      using pub True by (auto simp: publishRecord_def writeAt_def Let_def dur poison_def split: sum.splits prod.splits)
    show ?thesis
    proof (cases out)
      case (Inl e)
      with leaf' f' show ?thesis by auto
    next
      case (Inr x)
      with pub True wal(1,2) have "fs_wal fs' = fs_wal fs @ wc_json W (WCommit (rec_seq ?r) (rec_hash ?r) (e_now env)) @ [nl]"
        by (auto simp: publishRecord_def writeAt_def Let_def dur walAppend_clean
            split: sum.splits prod.splits if_splits WriteOutcome.splits)
      moreover have "x = res"
        using pub Inr by (auto simp: publishRecord_def Let_def split: sum.splits prod.splits if_splits)
      ultimately show ?thesis
        using commit wal(4) leaf' f' Inr by (auto simp: quiescent_def walRefusal_def)
    qed
  qed
qed

lemma txn_cases:
  assumes "txn P W G env decide (h, fs) = (out, h', fs')"
    and q: "quiescent P W G f fs" and laws: "\<And>d res. decide f = Inr (Some d, res) \<Longrightarrow> txn_laws P W G env f d"
    and valid: "\<And>d res. decide f = Inr (Some d, res) \<Longrightarrow> validateData P G d = None"
  shows "(\<exists>e. out = Inl e) \<and> (fs_leaf fs' = fs_leaf fs \<or> blocked W fs') \<or>
     (\<exists>res. decide f = Inr (None, res) \<and> out = Inr res \<and> fs' = fs) \<or>
     (\<exists>d res f'. decide f = Inr (Some d, res) \<and> f_datas f' = f_datas f @ [d] \<and>
        foldContent P G (fs_leaf fs') = Inr f' \<and> (out = Inr res \<and> quiescent P W G f' fs' \<or> (\<exists>e. out = Inl e)))"
proof (cases "\<exists>e. txn P W G env decide (h, fs) = (Inl e, h, fs)")
  case True
  then show ?thesis using assms(1) by auto
next
  case False
  obtain w where w: "foldWal W (fs_wal fs) = Inr w" "walRefusal w = None"
    using q by (auto simp: quiescent_def split: sum.splits)
  have leaf: "clean_text (fs_leaf fs)" "foldContent P G (fs_leaf fs) = Inr f" "clean_text (fs_wal fs)"
    using q by (auto simp: quiescent_def)
  from False w leaf have go: "assertUsable h = None" "e_identity env" "\<not> MAX_WAL_BYTES < length (fs_wal fs)"
      "\<not> MAX_LEDGER_BYTES < length (fs_leaf fs)" "\<exists>x. decide f = Inr x"
    by (auto simp: txn_def readWal_def readLeaf_def readAll_def split: option.splits if_splits sum.splits)
  have w0: "w_poison w = None \<or> w_poison w = Some []"
    using w(2) by (auto simp: walRefusal_def split: option.splits if_splits)
  obtain od res where dec: "decide f = Inr (od, res)" using go(5) by auto
  show ?thesis
  proof (cases od)
    case None
    with dec go w leaf assms(1) show ?thesis
      by (simp add: txn_def readWal_def readLeaf_def readAll_def)
  next
    case (Some d)
    let ?r = "sealRecord P f d"
    let ?i = "WIntent (rec_seq ?r) (f_durableBytes f) (rec_hash ?r) (e_now env)"
    note L = laws [OF dec [unfolded Some]] and V = valid [OF dec [unfolded Some]]
    have iok: "wal_codec_ok W ?i" using L by (simp add: txn_laws_def Let_def)
    show ?thesis
    proof (cases "e_intent env = Done")
      case False
      then have "fs_leaf fs' = fs_leaf fs \<and> (\<exists>e. out = Inl e)"
        using assms(1) dec Some go w leaf
        by (cases "e_intent env") (auto simp: txn_def readWal_def readLeaf_def readAll_def walAppend_clean Let_def)
      then show ?thesis by blast
    next
      case True
      let ?fs = "fs\<lparr>fs_wal := fs_wal fs @ wc_json W ?i @ [nl]\<rparr>"
      have pub: "publishRecord P W env f ?r res (h, ?fs) = (out, h', fs')"
        using assms(1) True dec Some go w leaf
        by (simp add: txn_def readWal_def readLeaf_def readAll_def walAppend_clean Let_def)
      obtain w' where w': "foldWal W (fs_wal ?fs) = Inr w'"
          "w_pending w' = Some (f_seq f, recordHash P (f_tip f) (f_seq f) d)" "w_poison w' = w_poison w"
        using foldWal_line [OF leaf(3) w(1) iok] by (simp add: walSwitch_def, simp add: sealRecord_def)
      from publish_outcomes [OF pub, of G w'] leaf w' w0 V L have
        "(\<exists>f'. (case out of Inl _ \<Rightarrow> foldContent P G (fs_leaf fs') = Inr f' | Inr x \<Rightarrow> x = res \<and> quiescent P W G f' fs') \<and>
          f_datas f' = f_datas f @ [d]) \<or> (\<exists>e. out = Inl e) \<and> blocked W fs'"
        by simp
      then show ?thesis
        using dec Some by (cases out) (auto simp: quiescent_def)
    qed
  qed
qed

section \<open>The ledger's own records pass its own validation\<close>

lemma moneyOk_format: "0 \<le> n \<Longrightarrow> n \<le> MAX_NANO \<Longrightarrow> moneyOk (formatNano n) = None"
  by (simp add: moneyOk_def parse_format_nano)

lemma reserve_record_valid:
  assumes "reserveDecide P G bind wc budget ts ds = Inr (Some d, ok)" "0 \<le> wc" "wc \<le> MAX_NANO"
    and "validateBinding bind = None" "ts \<noteq> []"
  shows "validateData P G d = None \<longleftrightarrow> b_runNonce bind = g_runNonce G"
proof -
  have "b_callId bind \<noteq> []" using assms(4) by (auto simp: validateBinding_def split: if_splits)
  moreover have "moneyOk (formatNano 0) = None" "moneyOk (formatNano wc) = None"
    using assms(2,3) by (auto intro: moneyOk_format simp: MAX_NANO_def NANO_PER_USD_def)
  ultimately show ?thesis
    using assms(1,4,5)
    by (auto simp: reserveDecide_def validateData_def dataTs_def dataCallId_def dataEpoch_def dataBind_def
        split: sum.splits if_splits)
qed

lemma fold_binds:
  "foldReservations P G ds = Inr m \<Longrightarrow> obj_get m k = Some r \<Longrightarrow>
     \<exists>rd. Reserve rd \<in> set ds \<and> r_callId rd = k \<and> res_bind r = r_bind rd"
proof (induction arbitrary: k r rule: foldReservations_induct)
  case (settle ds m s v v')
  then show ?case
    using settleReservation_shape [OF settle.hyps(4)] by (fastforce split: if_splits)
qed (auto split: if_splits)

lemma settle_record_valid:
  assumes "settleUncertain P G bind eg ts ds = Inr d" "ts \<noteq> []"
    and "list_all (\<lambda>d. validateData P G d = None) ds"
    and "\<And>e. eg = Some e \<Longrightarrow> validateGrokEgressEvidence e bind = None"
  shows "validateData P G d = None"
proof -
  from assms(1) obtain m r where h: "validateBinding bind = None" "foldReservations P G ds = Inr m"
      "obj_get m (b_callId bind) = Some r" "bindingMismatch P (res_bind r) bind = None"
      "d = Settle \<lparr>s_callId = b_callId bind, s_usdNano = formatNano 0, s_reported = False, s_ts = ts,
        s_epoch = g_epoch G, s_bind = bind, s_attest = None, s_egress = eg\<rparr>"
    by (auto simp: settleUncertain_def appendSettlement_def split: option.splits sum.splits if_splits)
  from fold_binds [OF h(2,3)] obtain rd where rd: "Reserve rd \<in> set ds" "res_bind r = r_bind rd" by blast
  have "validateData P G (Reserve rd) = None" using rd(1) assms(3) by (simp add: list_all_iff)
  then have "b_runNonce (r_bind rd) = g_runNonce G"
    by (auto simp: validateData_def dataBind_def split: if_splits option.splits)
  with h(4) rd(2) have run: "b_runNonce bind = g_runNonce G"
    by (auto simp: bindingMismatch_def split: if_splits)
  have "b_callId bind \<noteq> []" using h(1) by (auto simp: validateBinding_def split: if_splits)
  moreover have "moneyOk (formatNano 0) = None" by (rule moneyOk_format) (simp_all add: MAX_NANO_def NANO_PER_USD_def)
  ultimately show ?thesis
    using h(1) run assms(2,4)
    by (auto simp: h(5) validateData_def dataTs_def dataCallId_def dataEpoch_def dataBind_def split: option.splits)
qed

section \<open>Reconciliation\<close>

lemma reconcile_clears:
  assumes "reconcile P W G env receipt (h, fs) = (Inr x, h', fs')" "clean_text (fs_wal fs)"
    and "wal_codec_ok W (WRecovered receipt (e_now env))"
  shows "fs_leaf fs' = fs_leaf fs \<and> h_poison h' = None \<and> clean_text (fs_wal fs') \<and>
     (\<exists>w. foldWal W (fs_wal fs') = Inr w \<and> walRefusal w = None)"
proof -
  from assms(1) obtain w0 f where w0: "foldWal W (fs_wal fs) = Inr w0"
    and app: "walAppend W (e_commit env) (WRecovered receipt (e_now env)) (fs_wal fs) = (Inr (), fs_wal fs')"
    and res: "fs_leaf fs' = fs_leaf fs" "h_poison h' = None"
    by (auto simp: reconcile_def readWal_def readAll_def Let_def split: if_splits sum.splits prod.splits)
  then have wal: "fs_wal fs' = fs_wal fs @ wc_json W (WRecovered receipt (e_now env)) @ [nl]"
    using assms(2) by (auto simp: walAppend_clean split: if_splits WriteOutcome.splits)
  with foldWal_line [OF assms(2) w0 assms(3)] res show ?thesis
    by (simp add: walSwitch_def walRefusal_def)
qed

section \<open>A torn newline\<close>

lemma torn_newline_overcounts:
  assumes "clean_text c" "foldContent P G c = Inr f" "validateData P G d = None"
    and "record_codec_ok P (sealRecord P f d)" "g_genesis G \<noteq> []" "\<And>x. pm_sha256 P x \<noteq> []"
  shows "\<exists>f'. foldContent P G (c @ pm_jsonRecord P (sealRecord P f d)) = Inr f' \<and>
     f_durableBytes f' = Suc (length (c @ pm_jsonRecord P (sealRecord P f d)))"
proof -
  have ft: "f_tip f \<noteq> []"
    using foldContent_chained [OF assms(2)] assms(5,6) by (simp add: chained_def chainTip_nonempty)
  let ?l = "pm_jsonRecord P (sealRecord P f d)"
  have "checkLine P G f ?l = Inr (sealRecord P f d)"
    using assms ft by (intro sealed_line_ok) auto
  then obtain f' where "contentStep P G True f ?l = Inr (Some f')" by (simp add: contentStep_def)
  moreover have "nl \<notin> set ?l" "?l \<noteq> []" using assms(4) by (auto simp: record_codec_ok_def)
  ultimately show ?thesis
    using content_log.fold_text_overcount [of c ?l P G "\<lparr>f_datas = [], f_tip = g_genesis G, f_seq = 0, f_durableBytes = 0\<rparr>" f f']
      assms(1,2) by (simp add: foldContent_def)
qed

lemma nul_hole_corrupts:
  assumes "clean_text c" "foldContent P G c = Inr f" "nl \<notin> set l" "l \<noteq> []" "nl \<notin> set l2" "l2 \<noteq> []"
    and "pm_parseRecord P (l @ nul # l2) = None"
  shows "\<exists>e. foldContent P G (pwrite (c @ l) (Suc (length (c @ l))) (l2 @ [nl])) = Inl (CorruptJournal e)"
proof -
  have "pwrite (c @ l) (Suc (length (c @ l))) (l2 @ [nl]) = c @ (l @ nul # l2) @ [nl]"
    using pwrite_hole [of "l2 @ [nl]" "c @ l"] by simp
  moreover have "nl \<notin> set (l @ nul # l2)" using assms(3,5) by simp
  ultimately show ?thesis
    using assms(1,2,7)
    by (simp add: foldContent_def content_log.fold_text_line contentStep_def checkLine_def del: append_assoc)
qed

section \<open>A concrete ledger\<close>

text \<open>One reservation and a codec that is faithful on the records of its transaction.\<close>

definition example_empty_fold :: Folded where
  "example_empty_fold = \<lparr>f_datas = [], f_tip = zeros64, f_seq = 0, f_durableBytes = 0\<rparr>"

definition example_record :: JournalRecord where
  "example_record = \<lparr>rec_seq = 0, rec_prev = zeros64, rec_hash = zeros64, rec_data = example_reserve\<rparr>"

definition example_fprims :: Prims where
  "example_fprims = example_prims\<lparr>pm_jsonRecord := (\<lambda>_. ''{r}''),
     pm_parseRecord := (\<lambda>s. if s = ''{r}'' then Some example_record else None)\<rparr>"

definition example_wal :: WalCodec where
  "example_wal = \<lparr>wc_json = (\<lambda>r. case r of WIntent _ _ _ _ \<Rightarrow> ''{i}'' | WCommit _ _ _ \<Rightarrow> ''{c}''
       | WPoison _ _ \<Rightarrow> ''{p}'' | WRecovered _ _ \<Rightarrow> ''{o}''),
     wc_parse = (\<lambda>s. if s = ''{i}'' then Some (WalRec (WIntent 0 0 zeros64 ''t''))
       else if s = ''{c}'' then Some (WalRec (WCommit 0 zeros64 ''t''))
       else if s = ''{p}'' then Some (WalRec (WPoison POISON_REASON ''t''))
       else if s = ''{o}'' then Some (WalRec (WRecovered zeros64 ''t'')) else None)\<rparr>"

definition example_env :: TxnEnv where
  "example_env = \<lparr>e_identity = True, e_intent = Done, e_leaf = Done, e_published = True, e_commit = Done,
     e_poison = Done, e_now = ''t''\<rparr>"

definition example_fs :: LedgerFs where
  "example_fs = \<lparr>fs_leaf = [], fs_wal = []\<rparr>"

definition example_handle :: Handle where
  "example_handle = \<lparr>h_closed = False, h_poison = None\<rparr>"

lemma example_fsealed: "sealRecord example_fprims example_empty_fold example_reserve = example_record"
  by (simp add: sealRecord_def example_empty_fold_def example_record_def recordHash_def example_fprims_def
      example_prims_def)

lemma example_codec_ok:
  "record_codec_ok example_fprims example_record"
  "wal_codec_ok example_wal (WIntent 0 0 zeros64 ''t'')" "wal_codec_ok example_wal (WCommit 0 zeros64 ''t'')"
  "wal_codec_ok example_wal (WPoison POISON_REASON ''t'')" "wal_codec_ok example_wal (WRecovered zeros64 ''t'')"
  by (auto simp: record_codec_ok_def wal_codec_ok_def example_fprims_def example_wal_def blank_def is_space_def
      less_Suc_eq numeral_eq_Suc)

lemma example_sha: "pm_sha256 example_fprims x \<noteq> []" "g_genesis example_gen \<noteq> []"
  by (simp_all add: example_fprims_def example_prims_def example_gen_def zeros64_def)

lemma example_txn_laws: "txn_laws example_fprims example_wal example_gen example_env example_empty_fold example_reserve"
  using example_codec_ok example_sha
  by (simp add: txn_laws_def example_fsealed Let_def, simp add: example_env_def example_record_def example_empty_fold_def)

lemma example_quiescent: "quiescent example_fprims example_wal example_gen example_empty_fold example_fs"
  by (simp add: quiescent_def example_fs_def foldContent_def foldWal_def fold_text_def walRefusal_def
      example_empty_fold_def example_gen_def)

lemma example_valid: "validateData P example_gen example_reserve = None"
proof -
  have "moneyOk (formatNano 1000000000) = None" by (rule moneyOk_format) (simp_all add: MAX_NANO_def NANO_PER_USD_def)
  moreover have "b_callId example_bind = ''c1''" "b_runNonce example_bind = zeros64"
    by (simp_all add: example_bind_def)
  ultimately show ?thesis
    using example_bind_ok
    by (simp add: validateData_def example_reserve_def dataTs_def dataCallId_def dataEpoch_def dataBind_def example_gen_def)
qed

section \<open>Properties\<close>

text \<open>
  C2. Atomic and durable transactions: from a quiescent ledger, whatever fails and wherever, a
  transaction either reports an error with the journal bytes untouched, or reports an error and leaves
  a ledger that refuses every operation, or returns its result with nothing appended because nothing was
  to append, or has appended exactly the decided record to the folded journal: and then it returns normally
  only on a ledger that is quiescent again.
\<close>

theorem txn_atomic:
  assumes "txn P W G env decide (h, fs) = (out, h', fs')" and "quiescent P W G f fs"
    and "\<And>d res. decide f = Inr (Some d, res) \<Longrightarrow> txn_laws P W G env f d"
    and "\<And>d res. decide f = Inr (Some d, res) \<Longrightarrow> validateData P G d = None"
  shows "(\<exists>e. out = Inl e) \<and> (fs_leaf fs' = fs_leaf fs \<or> blocked W fs') \<or>
     (\<exists>res. decide f = Inr (None, res) \<and> out = Inr res \<and> fs' = fs) \<or>
     (\<exists>d res f'. decide f = Inr (Some d, res) \<and> f_datas f' = f_datas f @ [d] \<and>
        foldContent P G (fs_leaf fs') = Inr f' \<and> (out = Inr res \<and> quiescent P W G f' fs' \<or> (\<exists>e. out = Inl e)))"
  using assms by (rule txn_cases)

theorem txn_atomic_witness:
  "\<exists>f'. f_datas f' = [example_reserve] \<and>
     foldContent example_fprims example_gen
       (fs_leaf (snd (snd (txn example_fprims example_wal example_gen example_env
          (\<lambda>_. Inr (Some example_reserve, True)) (example_handle, example_fs))))) = Inr f'"
proof -
  let ?t = "txn example_fprims example_wal example_gen example_env (\<lambda>_. Inr (Some example_reserve, True))
      (example_handle, example_fs)"
  have run: "fst ?t = Inr True"
    by (simp add: txn_def assertUsable_def readWal_def readLeaf_def readAll_def walAppend_def publishRecord_def
        writeAt_def example_handle_def example_env_def example_fs_def foldWal_def foldContent_def fold_text_def
        walRefusal_def Let_def walStep_def walSwitch_def blank_def is_space_def example_wal_def pwrite_def
        ftruncate_def MAX_WAL_BYTES_def sealRecord_def recordHash_def example_fprims_def example_prims_def)
  obtain h' fs' where "?t = (Inr True, h', fs')" using run by (cases ?t) auto
  from txn_atomic [OF this example_quiescent] this example_txn_laws example_valid show ?thesis
    by (auto simp: example_empty_fold_def)
qed

text \<open>
  An unproven mutation is never laundered: a ledger whose write-ahead log holds an uncommitted
  intent or a poison record (or cannot be read) refuses every transaction without touching a byte, and
  refuses every read, on any handle.
\<close>

theorem blocked_refuses:
  assumes "blocked W fs"
  shows "(\<exists>e. txn P W G env decide (h, fs) = (Inl e, h, fs)) \<and> (\<exists>e. readLedger P W G env fn (h, fs) = Inl e)"
  using blocked_txn [OF assms] blocked_read [OF assms] by blast

theorem blocked_refuses_witness:
  "\<exists>e. readLedger example_fprims example_wal example_gen example_env Inr
     (example_handle, \<lparr>fs_leaf = [], fs_wal = ''{i}'' @ [nl]\<rparr>) = Inl e"
proof -
  have "foldWal example_wal [] = Inr \<lparr>w_durableBytes = 0, w_pending = None, w_poison = None\<rparr>"
    by (simp add: foldWal_def fold_text_def)
  from foldWal_line [OF clean_text_Nil this example_codec_ok(2)]
  obtain w where "foldWal example_wal ([] @ wc_json example_wal (WIntent 0 0 zeros64 ''t'') @ [nl]) = Inr w"
      "w_pending w = Some (0, zeros64)"
    by (simp add: walSwitch_def)
  then have "blocked example_wal \<lparr>fs_leaf = [], fs_wal = ''{i}'' @ [nl]\<rparr>"
    by (intro pending_blocked) (auto simp: example_wal_def)
  from blocked_refuses [OF this] show ?thesis by blast
qed

text \<open>
  Only an explicit reconciliation returns a ledger to service: a successful \<open>reconcile\<close> leaves the
  journal bytes as they are, clears the handle's poison, and leaves a write-ahead log with neither a
  pending intent nor a poison.
\<close>

theorem reconcile_restores:
  assumes "reconcile P W G env receipt (h, fs) = (Inr x, h', fs')" "clean_text (fs_wal fs)"
    and "wal_codec_ok W (WRecovered receipt (e_now env))"
  shows "fs_leaf fs' = fs_leaf fs \<and> h_poison h' = None \<and>
     (\<exists>w. foldWal W (fs_wal fs') = Inr w \<and> walRefusal w = None)"
  using reconcile_clears [OF assms] by blast

theorem reconcile_restores_witness:
  "\<exists>w. foldWal example_wal (fs_wal (snd (snd (reconcile example_fprims example_wal example_gen example_env zeros64
     (example_handle, \<lparr>fs_leaf = [], fs_wal = ''{i}'' @ [nl]\<rparr>))))) = Inr w \<and> walRefusal w = None"
proof -
  let ?fs = "\<lparr>fs_leaf = [], fs_wal = ''{i}'' @ [nl]\<rparr>"
  let ?t = "reconcile example_fprims example_wal example_gen example_env zeros64 (example_handle, ?fs)"
  have run: "fst ?t = Inr zeros64"
    by (simp add: reconcile_def readWal_def readLeaf_def readAll_def walAppend_def writeAt_def example_handle_def
        example_env_def foldWal_def foldContent_def fold_text_def Let_def walStep_def walSwitch_def blank_def
        is_space_def example_wal_def MAX_WAL_BYTES_def)
  obtain h' fs' where "?t = (Inr zeros64, h', fs')" using run by (cases ?t) auto
  from reconcile_restores [OF this] this example_codec_ok(5) show ?thesis
    by (simp add: clean_text_def example_env_def)
qed

text \<open>
  C4. The chain pins the journal: when SHA-256 has no collision among the texts hashed and JSON
  distinguishes the data at hand, two journals of one generation that fold to the same number of records
  and the same tip hold the same data in the same order, so no record can be edited, dropped or reordered
  under a published tip.
\<close>

theorem chain_tamper_evident:
  assumes "foldContent P G raw = Inr f" "foldContent P G raw' = Inr f'"
    and "f_seq f = f_seq f'" "f_tip f = f_tip f'"
    and "inj_on (pm_sha256 P) (set (chainTexts P (g_genesis G) 0 (f_datas f)) \<union>
      set (chainTexts P (g_genesis G) 0 (f_datas f')))"
    and "inj_on (pm_jsonData P) (set (f_datas f) \<union> set (f_datas f'))"
    and "CHR ''|'' \<notin> set (g_genesis G)" "\<And>x. CHR ''|'' \<notin> set (pm_sha256 P x)"
  shows "f_datas f = f_datas f'"
proof (rule chain_binds [OF _ _ assms(5-8)])
  show "length (f_datas f) = length (f_datas f')" "chainTip P (g_genesis G) 0 (f_datas f) = chainTip P (g_genesis G) 0 (f_datas f')"
    using foldContent_chained [OF assms(1)] foldContent_chained [OF assms(2)] assms(3,4) by (simp_all add: chained_def)
qed

theorem chain_tamper_evident_witness:
  "\<exists>f f'. foldContent example_fprims example_gen (''{r}'' @ [nl]) = Inr f \<and>
     foldContent example_fprims example_gen ''{r}'' = Inr f' \<and> f_datas f = f_datas f'"
proof -
  have line: "checkLine example_fprims example_gen example_empty_fold ''{r}'' = Inr example_record"
    using example_valid
    by (simp add: checkLine_def blank_def is_space_def example_fprims_def validateRecordSchema_def example_record_def
        example_empty_fold_def recordHash_def example_prims_def, simp add: zeros64_def)
  have "foldContent example_fprims example_gen ([] @ ''{r}'' @ [nl]) =
      Inr \<lparr>f_datas = [example_reserve], f_tip = zeros64, f_seq = 1, f_durableBytes = 4\<rparr>"
    using line unfolding foldContent_def
    by (subst content_log.fold_text_line)
       (simp_all add: fold_text_def contentStep_def example_record_def example_empty_fold_def example_gen_def)
  moreover have "foldContent example_fprims example_gen ''{r}'' =
      Inr \<lparr>f_datas = [example_reserve], f_tip = zeros64, f_seq = 1, f_durableBytes = 4\<rparr>"
    using line by (simp add: foldContent_def fold_text_def contentStep_def example_record_def example_empty_fold_def
        example_gen_def)
  moreover have "CHR ''|'' \<notin> set zeros64" by (simp add: zeros64_def)
  ultimately show ?thesis
    using chain_tamper_evident [of example_fprims example_gen "''{r}'' @ [nl]" _ "''{r}''"]
    by (simp add: example_fprims_def example_prims_def example_gen_def)
qed

text \<open>
  C35. The ledger accepts its own reservation exactly when the binding carries the run's nonce:
  \<open>reserve\<close> checks the binding's shape but not that it belongs to this run, so for a binding of another run
  it appends a record that every later fold rejects as corruption.
\<close>

theorem reserve_record_folds:
  assumes "reserveDecide P G bind wc budget ts ds = Inr (Some d, ok)" "0 \<le> wc" "wc \<le> MAX_NANO"
    and "validateBinding bind = None" "ts \<noteq> []"
  shows "validateData P G d = None \<longleftrightarrow> b_runNonce bind = g_runNonce G"
  using assms by (rule reserve_record_valid)

theorem reserve_record_folds_witness:
  "\<exists>d. reserveDecide example_prims (example_gen\<lparr>g_runNonce := ''other''\<rparr>) example_bind 0 0 ''t'' [] = Inr (Some d, True) \<and>
     validateData example_prims (example_gen\<lparr>g_runNonce := ''other''\<rparr>) d \<noteq> None"
proof -
  let ?G = "example_gen\<lparr>g_runNonce := ''other''\<rparr>"
  obtain d where d: "reserveDecide example_prims ?G example_bind 0 0 ''t'' [] = Inr (Some d, True)"
    by (simp add: reserveDecide_def foldReservations_def)
  have "b_runNonce example_bind \<noteq> ''other''" by (simp add: example_bind_def zeros64_def numeral_eq_Suc)
  with reserve_record_folds [OF d _ _ example_bind_ok] d show ?thesis
    by (auto simp: MAX_NANO_def NANO_PER_USD_def)
qed

text \<open>
  An uncertain settlement of a validated journal is itself a record that folds: it inherits the run
  nonce through the binding it must match, and its amount and epoch are the ledger's own.
\<close>

theorem settle_record_folds:
  assumes "settleUncertain P G bind eg ts ds = Inr d" "ts \<noteq> []"
    and "list_all (\<lambda>d. validateData P G d = None) ds"
    and "\<And>e. eg = Some e \<Longrightarrow> validateGrokEgressEvidence e bind = None"
  shows "validateData P G d = None"
  using assms by (rule settle_record_valid)

theorem settle_record_folds_witness:
  "\<exists>d. settleUncertain example_prims example_gen example_bind None ''t'' [example_reserve] = Inr d \<and>
     validateData example_prims example_gen d = None"
proof -
  obtain d where d: "settleUncertain example_prims example_gen example_bind None ''t'' [example_reserve] = Inr d"
    by (simp add: settleUncertain_def example_bind_ok example_append)
  from settle_record_folds [OF d] d example_valid show ?thesis by auto
qed

text \<open>
  C38. A tear at the very last byte defeats the torn-tail rule: a complete record whose newline never
  reached the disk is folded as durable, with one byte more than the file has; the next append leaves a
  NUL byte between the two records, and the journal is corrupt from then on.
\<close>

theorem torn_newline_corrupts:
  assumes "clean_text c" "foldContent P G c = Inr f" "validateData P G d = None"
    and "record_codec_ok P (sealRecord P f d)" "g_genesis G \<noteq> []" "\<And>x. pm_sha256 P x \<noteq> []"
    and "nl \<notin> set l2" "l2 \<noteq> []" "pm_parseRecord P (pm_jsonRecord P (sealRecord P f d) @ nul # l2) = None"
  shows "\<exists>f' e. foldContent P G (c @ pm_jsonRecord P (sealRecord P f d)) = Inr f' \<and>
     foldContent P G (snd (writeAt Done (f_durableBytes f') (l2 @ [nl]) (c @ pm_jsonRecord P (sealRecord P f d)))) =
       Inl (CorruptJournal e)"
proof -
  let ?l = "pm_jsonRecord P (sealRecord P f d)"
  have l: "nl \<notin> set ?l" "?l \<noteq> []" using assms(4) by (auto simp: record_codec_ok_def)
  from torn_newline_overcounts [OF assms(1-6)] nul_hole_corrupts [OF assms(1,2) l assms(7-9)] show ?thesis
    by (auto simp: writeAt_def)
qed

theorem torn_newline_corrupts_witness:
  "\<exists>f' e. foldContent example_fprims example_gen ''{r}'' = Inr f' \<and>
     foldContent example_fprims example_gen (snd (writeAt Done (f_durableBytes f') (''{r}'' @ [nl]) ''{r}'')) =
       Inl (CorruptJournal e)"
proof -
  have e: "foldContent example_fprims example_gen [] = Inr example_empty_fold"
    using example_quiescent by (simp add: quiescent_def example_fs_def)
  have "pm_jsonRecord example_fprims example_record = ''{r}''" "pm_parseRecord example_fprims (''{r}'' @ nul # ''{r}'') = None"
    by (simp_all add: example_fprims_def)
  with torn_newline_corrupts [OF clean_text_Nil e example_valid, of "''{r}''"] example_codec_ok(1) example_sha
  show ?thesis by (simp add: example_fsealed)
qed

end
