(* ===== verification/Control_Types.thy ===== *)
theory Control_Types
  imports Relay_Prelude
begin

text \<open>
  Data of the durable control store (\<open>src/control/reducer.ts\<close>, \<open>src/control/events.ts\<close>, \<open>src/scm/types.ts\<close>):
  the facts a projection keeps, the events that change them, and the projection itself.

  Optional fields are options; \<open>observedRemoteOid?: string | null\<close> is an option of an option. Enumerations are
  datatypes. Sequence numbers, versions and generations are naturals, as their schemas demand. The fields
  \<open>observability\<close> and \<open>multirepo\<close> of the projection, which only their own events and the control-room
  refresh write, and those events, are left out: the slice that is kept does not depend on them.
\<close>

section \<open>Source control values: src/scm/types.ts\<close>

datatype ScmPublicationState =
    Unpublished | PushIntent | PushAmbiguous | BranchPublished | PrIntent | PrAmbiguous | Published
  | PubSuperseded | PubRefused

datatype ScmCiState = CiUnknown | CiPending | CiPassing | CiFailing

datatype ScmCheckBucket = CbUnknown | CbPending | CbPassing | CbFailing | CbSkipping | CbCancelled

datatype ScmReviewDecision = RvUnknown | RvPending | RvApproved | RvChangesRequested | RvDismissed

datatype ScmMergeabilityState = MgUnknown | MgMergeable | MgConflicting | MgBlocked | MgUnstable

datatype ScmCompleteness = Complete | Partial

datatype ScmLifecycle = PrOpen | PrClosed | PrMerged

record ScmRepositoryId =
  repo_provider :: string
  repo_host :: string
  repo_owner :: string
  repo_name :: string

datatype ScmRemoteExpectation = RemoteAbsent | RemoteOid string

record ScmPublicationIntent =
  in_publicationId :: string
  in_publicationGeneration :: nat
  in_attempt :: nat
  in_runId :: string
  in_runEpoch :: string
  in_repository :: ScmRepositoryId
  in_integrationRef :: string
  in_integrationOid :: string
  in_localExpectedOid :: string
  in_remoteName :: string
  in_remoteRef :: string
  in_expectedRemote :: ScmRemoteExpectation
  in_baseRepository :: ScmRepositoryId
  in_baseRef :: string
  in_titleSha256 :: string
  in_bodySha256 :: string
  in_draft :: bool
  in_createdAt :: string

record ScmPullRequestIdentity =
  pr_providerId :: string
  pr_number :: nat
  pr_url :: string
  pr_repository :: ScmRepositoryId
  pr_headRepository :: ScmRepositoryId
  pr_headRef :: string
  pr_headSha :: string
  pr_baseRepository :: ScmRepositoryId
  pr_baseRef :: string
  pr_baseSha :: string

record ScmPullRequestFact = ScmPullRequestIdentity +
  pr_lifecycle :: ScmLifecycle
  pr_draft :: bool
  pr_resourceVersion :: "string option"

record ScmNormalizedCheck =
  ck_key :: string
  ck_providerCheckId :: string
  ck_providerRunId :: string
  ck_name :: string
  ck_required :: bool
  ck_bucket :: ScmCheckBucket
  ck_status :: string
  ck_conclusion :: "string option"
  ck_attempt :: nat
  ck_startedAt :: string
  ck_completedAt :: "string option"

record ScmCiFact =
  ci_state :: ScmCiState
  ci_checks :: "ScmNormalizedCheck list"
  ci_requiredCheckCount :: nat
  ci_failureFingerprint :: "string option"
  ci_conflicts :: "string list"

record ScmReviewFact =
  rv_decision :: ScmReviewDecision
  rv_humanApprovals :: nat
  rv_unresolvedSelectedEvidenceIds :: "string list"
  rv_conflicts :: "string list"

record ScmMergeabilityFact =
  mg_state :: ScmMergeabilityState
  mg_blockers :: "string list"

record ScmBucketMeta =
  bm_completeness :: ScmCompleteness
  bm_observedHeadSha :: string
  bm_observedAt :: string
  bm_freshUntil :: string
  bm_semanticHash :: string
  bm_guard :: "string option"
  bm_cursor :: "string option"

record 'f ScmFactBucket =
  fb_meta :: ScmBucketMeta
  fb_facts :: 'f

datatype ScmProviderFailureKind =
    FkCancelled | FkTimeout | FkNetwork | FkRateLimited | FkAuth | FkPermission | FkSchema | FkPagination
  | FkBudgetExceeded | FkProvider

record ScmProviderFailure =
  fl_kind :: ScmProviderFailureKind
  fl_retryable :: bool
  fl_code :: string
  fl_diagnostic :: string
  fl_nextEligibleAt :: "string option"

record ScmProviderLimits =
  lm_requestTimeoutMs :: nat
  lm_maxPagesPerEndpoint :: nat
  lm_maxItemsPerPage :: nat
  lm_maxItemsPerEndpoint :: nat
  lm_maxDecodedBytesPerRequest :: nat
  lm_maxDecodedBytesPerPoll :: nat
  lm_maxEvidenceBodyBytes :: nat
  lm_maxEvidencePreviewBytes :: nat
  lm_maxFailureLogBytes :: nat
  lm_maxFailureLogsBytes :: nat
  lm_maxConcurrentPerRepository :: nat
  lm_maxConcurrentPerRun :: nat

record ScmObservationGuards =
  gd_pullRequest :: "string option"
  gd_checks :: "string option"
  gd_reviews :: "string option"
  gd_mergeability :: "string option"

section \<open>Facts of the projection: src/control/reducer.ts\<close>

datatype ControlTaskStatus =
    TOpen | TClaimed | TInProgress | TNeedsReview | TBlocked | TDone | TRejected | TEscalated

record TaskFact =
  t_id :: string
  t_generation :: nat
  t_title :: string
  t_assignee :: string
  t_createdBy :: string
  t_description :: string
  t_acceptanceCriteria :: "string list"
  t_dependsOn :: "string list"
  t_priority :: int
  t_createdAt :: string
  t_files :: "string list option"
  t_status :: ControlTaskStatus
  t_claimedBy :: "string option"
  t_lastSummary :: "string option"
  t_lastUpdate :: string
  t_attempts :: nat
  t_version :: nat
  t_updatedSeq :: nat

record MessageFact =
  m_messageId :: string
  m_seq :: nat
  m_taskId :: "string option"
  m_taskGeneration :: "nat option"
  m_from :: string
  m_to :: string
  m_body :: string
  m_occurredAt :: string

datatype Observation = Available | WaitingInput | ObsBlocked | ObsExited | ProbeFailed

record RuntimeFact =
  rt_sessionId :: string
  rt_sessionGeneration :: nat
  rt_taskId :: "string option"
  rt_taskGeneration :: "nat option"
  rt_observation :: Observation
  rt_launchId :: "string option"
  rt_reason :: "string option"
  rt_observedAt :: string
  rt_updatedSeq :: nat

datatype AttemptState = Prepared | Active | Exited | Abandoned

datatype AttemptOutcome = Succeeded | Failed | Cancelled | Uncertain

datatype AbandonReason = OperatorAbandoned | VerifiedNeverStarted | ArtifactUnrecoverable

record AttemptFact =
  a_attemptId :: string
  a_attemptGeneration :: nat
  a_taskId :: string
  a_taskGeneration :: nat
  a_sessionId :: string
  a_sessionGeneration :: nat
  a_artifactLocator :: string
  a_promptSha256 :: string
  a_promptBytes :: nat
  a_rendererVersion :: nat
  a_captureCutoffSeq :: nat
  a_steeringCommandIds :: "string list"
  a_launchId :: "string option"
  a_pid :: "nat option"
  a_processStartToken :: "string option"
  a_state :: AttemptState
  a_outcome :: "AttemptOutcome option"
  a_exitCode :: "int option"
  a_summary :: "string option"
  a_abandonReason :: "AbandonReason option"
  a_preparedSeq :: nat
  a_launchPlannedSeq :: "nat option"
  a_startedSeq :: "nat option"
  a_exitedSeq :: "nat option"
  a_abandonedSeq :: "nat option"

datatype SteeringStatus = SPending | SIncluded | SRefused | SWithdrawn | SSuperseded | SExpired

datatype SteeringSource = SrcOperator | SrcReviewGate | SrcVerifier | SrcControlPlane

datatype ObservedActivity =
    OaIdle | OaWaitingInput | OaDispatching | OaActive | OaSettling | OaBlocked | OaExited | OaIndeterminate

record SteeringFact =
  sf_commandId :: string
  sf_sessionId :: string
  sf_sessionGeneration :: nat
  sf_taskId :: string
  sf_taskGeneration :: nat
  sf_bodySha256 :: string
  sf_requestSemanticDigest :: "string option"
  sf_observedSeq :: "nat option"
  sf_observedActivity :: "ObservedActivity option"
  sf_status :: SteeringStatus
  sf_admittedSeq :: "nat option"
  sf_terminalSeq :: "nat option"
  sf_notBeforeAttemptGeneration :: "nat option"
  sf_sourceKind :: "SteeringSource option"
  sf_parentPrincipal :: "string option"
  sf_evidenceRefs :: "string list option"
  sf_body :: "string option"
  sf_createdAt :: "string option"
  sf_expiresAt :: "string option"
  sf_supersedesCommandId :: "string option"
  sf_reasonCode :: "string option"
  sf_attemptId :: "string option"
  sf_attemptGeneration :: "nat option"
  sf_promptSha256 :: "string option"
  sf_byCommandId :: "string option"

record ScmPublicationFact =
  pub_publicationId :: string
  pub_generation :: nat
  pub_version :: nat
  pub_state :: ScmPublicationState
  pub_intent :: ScmPublicationIntent
  pub_taskId :: string
  pub_taskGeneration :: nat
  pub_observedRemoteOid :: "string option option"
  pub_pullRequest :: "ScmPullRequestFact option"
  pub_reasonCode :: "string option"
  pub_createdSeq :: nat
  pub_updatedSeq :: nat

datatype ScmBucketKind = BkPullRequest | BkCi | BkReview | BkMergeability

datatype ScmBucketDecision = AcceptNew | AcceptChanged | AcceptRefresh | AcceptMergedPartial | Preserve | RefuseBucket

record ScmPollBucketOutcome =
  bo_kind :: ScmBucketKind
  bo_decision :: ScmBucketDecision
  bo_semanticHash :: "string option"
  bo_reasonCode :: "string option"
  bo_failure :: "ScmProviderFailure option"

datatype ScmPollState = PollStarted | PollCompleted | PollFailed

record ScmPollFact =
  pl_pollId :: string
  pl_pollAttempt :: nat
  pl_publicationId :: string
  pl_publicationGeneration :: nat
  pl_taskId :: string
  pl_taskGeneration :: nat
  pl_sessionId :: string
  pl_sessionGeneration :: nat
  pl_expectedHeadSha :: string
  pl_pullRequest :: ScmPullRequestIdentity
  pl_guards :: ScmObservationGuards
  pl_forceFullRefresh :: bool
  pl_limits :: ScmProviderLimits
  pl_state :: ScmPollState
  pl_requestCount :: "nat option"
  pl_decodedBytes :: "nat option"
  pl_bucketOutcomes :: "ScmPollBucketOutcome list option"
  pl_acceptedKinds :: "ScmBucketKind list"
  pl_failure :: "ScmProviderFailure option"
  pl_nextEligibleAt :: "string option"
  pl_startedAt :: string
  pl_startedSeq :: nat
  pl_terminalSeq :: "nat option"

record ScmObservationBuckets =
  bk_pullRequest :: "ScmPullRequestFact ScmFactBucket option"
  bk_ci :: "ScmCiFact ScmFactBucket option"
  bk_review :: "ScmReviewFact ScmFactBucket option"
  bk_mergeability :: "ScmMergeabilityFact ScmFactBucket option"

record ScmObservationFact =
  ob_publicationId :: string
  ob_publicationGeneration :: nat
  ob_taskId :: string
  ob_taskGeneration :: nat
  ob_headSha :: string
  ob_buckets :: ScmObservationBuckets
  ob_updatedSeq :: nat

datatype ScmReactionState =
    RxPending | RxCommandAdmitted | RxIncluded | RxObservationResolved | RxSuperseded | RxRefused | RxFailedRetryable

datatype ScmFactKind = FactCi | FactReview

record ScmReactionFact =
  rx_reactionKey :: string
  rx_publicationId :: string
  rx_publicationGeneration :: nat
  rx_taskId :: string
  rx_taskGeneration :: nat
  rx_headSha :: string
  rx_factKind :: ScmFactKind
  rx_evidenceRefs :: "string list"
  rx_commandId :: string
  rx_sessionId :: string
  rx_sessionGeneration :: nat
  rx_notBeforeAttemptGeneration :: nat
  rx_supersedesCommandId :: "string option"
  rx_previewSha256 :: string
  rx_preview :: string
  rx_state :: ScmReactionState
  rx_version :: nat
  rx_steeringSeq :: "nat option"
  rx_reasonCode :: "string option"
  rx_observationSemanticHash :: "string option"
  rx_createdSeq :: nat
  rx_updatedSeq :: nat

record ScmControlProjection =
  scm_publications :: "ScmPublicationFact obj"
  scm_polls :: "ScmPollFact obj"
  scm_observations :: "ScmObservationFact obj"
  scm_reactions :: "ScmReactionFact obj"

datatype AggregateKind = AggRun | AggTask | AggSession

record AggregateVersion =
  ag_kind :: AggregateKind
  ag_id :: string
  ag_generation :: nat
  ag_version :: nat
  ag_updatedSeq :: nat

datatype LoopPhase = PhInit | PhVerifyPreflight | PhDispatch | PhReview | PhPostCheck | PhStopped | PhCancelled | PhComplete

datatype LoopStatus = LsRunning | LsPlanned | LsBlocked | LsDone | LsUnverified | LsStopped | LsCancelled

record LoopCheckpointFact =
  cp_project :: string
  cp_phase :: LoopPhase
  cp_status :: LoopStatus
  cp_iteration :: nat
  cp_dispatched :: nat
  cp_accepted :: nat
  cp_rejected :: nat
  cp_escalations :: nat
  cp_repeatFailures :: nat
  cp_unknownCostCalls :: nat
  cp_runBranch :: "string option"
  cp_lastGreenCommit :: "string option"
  cp_lastFailureSignature :: "string option"
  cp_lastFailureSummary :: "string option"
  cp_lastStopReason :: "string option"
  cp_verifyFingerprint :: "string option"
  cp_startedAt :: string
  cp_updatedAt :: string

datatype RunStatus = RunStarted | RunCompleted | RunFailed | RunCancelled

record RunFact =
  run_status :: RunStatus
  run_startedBy :: string
  run_goal :: "string option"
  run_configDigest :: "string option"
  run_startedAt :: string
  run_terminalAt :: "string option"
  run_reasonCode :: "string option"
  run_summary :: "string option"
  run_cancelledBy :: "string option"
  run_checkpoint :: "LoopCheckpointFact option"
  run_version :: nat
  run_updatedSeq :: nat

record ControlProjection =
  cs_runId :: string
  cs_runEpoch :: string
  cs_headSeq :: nat
  cs_run :: "RunFact option"
  cs_tasks :: "TaskFact obj"
  cs_messages :: "MessageFact list"
  cs_runtimes :: "RuntimeFact obj"
  cs_attempts :: "AttemptFact obj"
  cs_steering :: "SteeringFact obj"
  cs_scm :: ScmControlProjection
  cs_aggregateVersions :: "AggregateVersion obj"

definition emptyScmControlProjection :: ScmControlProjection where
  "emptyScmControlProjection = \<lparr>scm_publications = [], scm_polls = [], scm_observations = [], scm_reactions = []\<rparr>"

definition emptyControlProjection :: "string \<Rightarrow> string \<Rightarrow> ControlProjection" where
  "emptyControlProjection runId runEpoch =
     \<lparr>cs_runId = runId, cs_runEpoch = runEpoch, cs_headSeq = 0, cs_run = None, cs_tasks = [], cs_messages = [],
      cs_runtimes = [], cs_attempts = [], cs_steering = [], cs_scm = emptyScmControlProjection,
      cs_aggregateVersions = []\<rparr>"

section \<open>Events: src/control/events.ts\<close>

record TaskCreatedPayload =
  tc_title :: string
  tc_assignee :: string
  tc_createdBy :: string
  tc_description :: string
  tc_acceptanceCriteria :: "string list"
  tc_dependsOn :: "string list"
  tc_priority :: int
  tc_createdAt :: string
  tc_files :: "string list option"

record RuntimePayload =
  ro_sessionId :: string
  ro_sessionGeneration :: nat
  ro_observation :: Observation
  ro_launchId :: "string option"
  ro_reason :: "string option"

record AttemptBase =
  ab_attemptId :: string
  ab_attemptGeneration :: nat
  ab_sessionId :: string
  ab_sessionGeneration :: nat

record AttemptPreparedPayload = AttemptBase +
  ap_artifactLocator :: string
  ap_promptSha256 :: string
  ap_promptBytes :: nat
  ap_rendererVersion :: nat
  ap_captureCutoffSeq :: nat
  ap_steeringCommandIds :: "string list"

record SteeringTarget =
  tg_commandId :: string
  tg_sessionId :: string
  tg_sessionGeneration :: nat

record SteeringAdmittedPayload = SteeringTarget +
  sa_notBeforeAttemptGeneration :: nat
  sa_sourceKind :: SteeringSource
  sa_parentPrincipal :: string
  sa_evidenceRefs :: "string list"
  sa_body :: string
  sa_bodySha256 :: string
  sa_createdAt :: string
  sa_expiresAt :: "string option"
  sa_supersedesCommandId :: "string option"

record SteeringRefusedPayload = SteeringTarget +
  sr_bodySha256 :: string
  sr_requestSemanticDigest :: string
  sr_observedSeq :: nat
  sr_observedActivity :: ObservedActivity
  sr_reasonCode :: string

record SteeringTerminalRefusedPayload = SteeringTarget +
  st_requestSemanticDigest :: string
  st_observedSeq :: nat
  st_observedActivity :: ObservedActivity
  st_reasonCode :: string

record ScmPublicationStateChangedPayload =
  ps_publicationId :: string
  ps_publicationGeneration :: nat
  ps_fromState :: ScmPublicationState
  ps_toState :: ScmPublicationState
  ps_observedRemoteOid :: "string option option"
  ps_pullRequest :: "ScmPullRequestFact option"
  ps_reasonCode :: "string option"

record ScmPollRef =
  pf_pollId :: string
  pf_pollAttempt :: nat
  pf_publicationId :: string
  pf_publicationGeneration :: nat
  pf_expectedHeadSha :: string

record ScmPollStartedPayload = ScmPollRef +
  po_sessionId :: string
  po_sessionGeneration :: nat
  po_pullRequest :: ScmPullRequestIdentity
  po_guards :: ScmObservationGuards
  po_forceFullRefresh :: bool
  po_limits :: ScmProviderLimits

record ScmPollCompletedPayload = ScmPollRef +
  pc_requestCount :: nat
  pc_decodedBytes :: nat
  pc_bucketOutcomes :: "ScmPollBucketOutcome list"

text \<open>The bucket of a \<open>bucket_accepted\<close> payload carries the facts of its kind, as its schema checks.\<close>

datatype ScmAnyBucket =
    PullBucket "ScmPullRequestFact ScmFactBucket"
  | CiBucket "ScmCiFact ScmFactBucket"
  | ReviewBucket "ScmReviewFact ScmFactBucket"
  | MergeBucket "ScmMergeabilityFact ScmFactBucket"

record ScmBucketAcceptedPayload =
  ba_pollId :: string
  ba_publicationId :: string
  ba_publicationGeneration :: nat
  ba_decision :: ScmBucketDecision
  ba_previousSemanticHash :: "string option"
  ba_bucket :: ScmAnyBucket

record ScmReactionCreatedPayload =
  rc_reactionKey :: string
  rc_publicationId :: string
  rc_publicationGeneration :: nat
  rc_headSha :: string
  rc_factKind :: ScmFactKind
  rc_evidenceRefs :: "string list"
  rc_commandId :: string
  rc_sessionId :: string
  rc_sessionGeneration :: nat
  rc_notBeforeAttemptGeneration :: nat
  rc_supersedesCommandId :: "string option"
  rc_previewSha256 :: string
  rc_preview :: string

record ScmReactionTransitionedPayload =
  rr_reactionKey :: string
  rr_reactionVersion :: nat
  rr_fromState :: ScmReactionState
  rr_toState :: ScmReactionState
  rr_commandId :: string
  rr_steeringSeq :: "nat option"
  rr_reasonCode :: "string option"
  rr_observationSemanticHash :: "string option"

datatype ControlEventBody =
    EvRunStarted string "string option" "string option"
  | EvRunCompleted "string option"
  | EvRunFailed string "string option"
  | EvRunCancelled string "string option"
  | EvRunCheckpointed LoopCheckpointFact
  | EvTaskCreated TaskCreatedPayload
  | EvTaskReopened nat "string option"
  | EvTaskStatusChanged string ControlTaskStatus "string option"
  | EvMessagePosted string string string string
  | EvRuntimeObserved RuntimePayload
  | EvAttemptPrepared AttemptPreparedPayload
  | EvAttemptLaunchPlanned AttemptBase string
  | EvAttemptStarted AttemptBase string nat string
  | EvAttemptExited AttemptBase AttemptOutcome "int option" "string option"
  | EvAttemptAbandoned AttemptBase AbandonReason "string option"
  | EvSteeringAdmitted SteeringAdmittedPayload
  | EvSteeringRefused SteeringRefusedPayload
  | EvSteeringTerminalRefused SteeringTerminalRefusedPayload
  | EvSteeringIncluded SteeringTarget string nat string
  | EvSteeringWithdrawn SteeringTarget "string option"
  | EvSteeringSuperseded SteeringTarget string
  | EvSteeringExpired SteeringTarget
  | EvPublicationRecorded ScmPublicationIntent
  | EvPublicationStateChanged ScmPublicationStateChangedPayload
  | EvPollStarted ScmPollStartedPayload
  | EvPollCompleted ScmPollCompletedPayload
  | EvPollFailed ScmPollRef ScmProviderFailure
  | EvBucketAccepted ScmBucketAcceptedPayload
  | EvReactionCreated ScmReactionCreatedPayload
  | EvReactionTransitioned ScmReactionTransitionedPayload

datatype ControlActorKind = ActControlPlane | ActOperator | ActAgent | ActMigration | ActSystem | ActIntegration

record ControlEvent =
  ev_eventId :: string
  ev_runId :: string
  ev_runEpoch :: string
  ev_taskId :: "string option"
  ev_taskGeneration :: "nat option"
  ev_expectedVersion :: nat
  ev_occurredAt :: string
  ev_actorKind :: ControlActorKind
  ev_actorId :: string
  ev_seq :: nat
  ev_recordedAt :: string
  ev_body :: ControlEventBody

text \<open>
  What the reducer takes from the platform: \<open>Date.parse\<close>, \<open>new Date(ms).toISOString()\<close>, and the digest
  \<open>sha256Text(canonicalJson(...))\<close> of the identity of a reaction.
\<close>

record ControlPrims =
  cx_dateParse :: "string \<Rightarrow> int"
  cx_toISOString :: "int \<Rightarrow> string"
  cx_reactionDigest :: "string \<Rightarrow> nat \<Rightarrow> string \<Rightarrow> ScmFactKind \<Rightarrow> string list \<Rightarrow> string"

end
