(* ===== verification/Control.thy ===== *)
theory Control
  imports Control_Types
begin

text \<open>
  The reducer of the durable control store: \<open>applyControlEvent\<close> of \<open>src/control/reducer.ts\<close>, one definition
  per case of its switch, with \<open>aggregateForEvent\<close> and \<open>assertControlEventScope\<close> of
  \<open>src/control/events.ts\<close>, and \<open>deriveActivity\<close>.

  A handler takes the projection, the event's envelope and its payload, and returns the changed
  projection; \<open>applyControlEvent\<close> then stamps the aggregate version and the head sequence. Where the code
  compares \<open>canonicalJson\<close> of two pull-request identities the model compares the identities: canonical JSON
  is injective on them. Keys of objects are identifiers of the event schema, taken to be different from the
  property names every JavaScript object inherits.
\<close>

section \<open>Tables\<close>

definition allowedTransitions :: "ControlTaskStatus \<Rightarrow> ControlTaskStatus list" where
  "allowedTransitions s = (case s of
     TOpen \<Rightarrow> [TClaimed, TBlocked, TEscalated]
   | TClaimed \<Rightarrow> [TInProgress, TNeedsReview, TBlocked, TRejected, TEscalated]
   | TInProgress \<Rightarrow> [TNeedsReview, TBlocked, TRejected, TEscalated]
   | TNeedsReview \<Rightarrow> [TDone, TRejected, TBlocked, TEscalated]
   | TBlocked \<Rightarrow> [TClaimed, TInProgress, TEscalated]
   | TRejected \<Rightarrow> [TClaimed, TInProgress, TEscalated]
   | TDone \<Rightarrow> []
   | TEscalated \<Rightarrow> [])"

definition scmPublicationTransitions :: "ScmPublicationState \<Rightarrow> ScmPublicationState list" where
  "scmPublicationTransitions s = (case s of
     Unpublished \<Rightarrow> [PushIntent, PubRefused, PubSuperseded]
   | PushIntent \<Rightarrow> [PushAmbiguous, BranchPublished, PubRefused, PubSuperseded]
   | PushAmbiguous \<Rightarrow> [PushIntent, BranchPublished, PubRefused, PubSuperseded]
   | BranchPublished \<Rightarrow> [PrIntent, PubRefused, PubSuperseded]
   | PrIntent \<Rightarrow> [PrAmbiguous, Published, PubRefused, PubSuperseded]
   | PrAmbiguous \<Rightarrow> [PrIntent, Published, PubRefused, PubSuperseded]
   | Published \<Rightarrow> [PubSuperseded]
   | PubSuperseded \<Rightarrow> []
   | PubRefused \<Rightarrow> [])"

definition scmReactionTransitions :: "ScmReactionState \<Rightarrow> ScmReactionState list" where
  "scmReactionTransitions s = (case s of
     RxPending \<Rightarrow> [RxCommandAdmitted, RxRefused, RxSuperseded, RxFailedRetryable]
   | RxCommandAdmitted \<Rightarrow> [RxIncluded, RxRefused, RxSuperseded, RxFailedRetryable]
   | RxIncluded \<Rightarrow> [RxObservationResolved, RxSuperseded]
   | RxObservationResolved \<Rightarrow> []
   | RxSuperseded \<Rightarrow> []
   | RxRefused \<Rightarrow> []
   | RxFailedRetryable \<Rightarrow> [RxCommandAdmitted, RxRefused, RxSuperseded, RxFailedRetryable])"

section \<open>Aggregates and scope\<close>

datatype EventFamily = FamRun | FamTask | FamMessage | FamRuntime | FamAttempt | FamSteering | FamScm

definition eventFamily :: "ControlEventBody \<Rightarrow> EventFamily" where
  "eventFamily b = (case b of
     EvRunStarted _ _ _ \<Rightarrow> FamRun | EvRunCompleted _ \<Rightarrow> FamRun | EvRunFailed _ _ \<Rightarrow> FamRun
   | EvRunCancelled _ _ \<Rightarrow> FamRun | EvRunCheckpointed _ \<Rightarrow> FamRun
   | EvTaskCreated _ \<Rightarrow> FamTask | EvTaskReopened _ _ \<Rightarrow> FamTask | EvTaskStatusChanged _ _ _ \<Rightarrow> FamTask
   | EvMessagePosted _ _ _ _ \<Rightarrow> FamMessage
   | EvRuntimeObserved _ \<Rightarrow> FamRuntime
   | EvAttemptPrepared _ \<Rightarrow> FamAttempt | EvAttemptLaunchPlanned _ _ \<Rightarrow> FamAttempt
   | EvAttemptStarted _ _ _ _ \<Rightarrow> FamAttempt | EvAttemptExited _ _ _ _ \<Rightarrow> FamAttempt
   | EvAttemptAbandoned _ _ _ \<Rightarrow> FamAttempt
   | EvSteeringAdmitted _ \<Rightarrow> FamSteering | EvSteeringRefused _ \<Rightarrow> FamSteering
   | EvSteeringTerminalRefused _ \<Rightarrow> FamSteering | EvSteeringIncluded _ _ _ _ \<Rightarrow> FamSteering
   | EvSteeringWithdrawn _ _ \<Rightarrow> FamSteering | EvSteeringSuperseded _ _ \<Rightarrow> FamSteering
   | EvSteeringExpired _ \<Rightarrow> FamSteering
   | _ \<Rightarrow> FamScm)"

definition assertControlEventScope :: "ControlEvent \<Rightarrow> string + unit" where
  "assertControlEventScope e =
     (let fam = eventFamily (ev_body e);
          taskRequired = (fam = FamTask \<or> fam = FamAttempt \<or> fam = FamSteering \<or> fam = FamScm) in
      checks [(taskRequired \<and> (ev_taskId e = None \<or> ev_taskGeneration e = None), ''requires taskId and taskGeneration''),
              ((ev_taskId e = None) \<noteq> (ev_taskGeneration e = None), ''taskId and taskGeneration together''),
              (fam = FamRun \<and> ev_taskId e \<noteq> None, ''must be run-scoped'')])"

text \<open>The session of a session-scoped event.\<close>

definition eventSession :: "ControlEventBody \<Rightarrow> (string \<times> nat) option" where
  "eventSession b = (case b of
     EvRuntimeObserved p \<Rightarrow> Some (ro_sessionId p, ro_sessionGeneration p)
   | EvSteeringAdmitted p \<Rightarrow> Some (tg_sessionId p, tg_sessionGeneration p)
   | EvSteeringRefused p \<Rightarrow> Some (tg_sessionId p, tg_sessionGeneration p)
   | EvSteeringTerminalRefused p \<Rightarrow> Some (tg_sessionId p, tg_sessionGeneration p)
   | EvSteeringIncluded p _ _ _ \<Rightarrow> Some (tg_sessionId p, tg_sessionGeneration p)
   | EvSteeringWithdrawn p _ \<Rightarrow> Some (tg_sessionId p, tg_sessionGeneration p)
   | EvSteeringSuperseded p _ \<Rightarrow> Some (tg_sessionId p, tg_sessionGeneration p)
   | EvSteeringExpired p \<Rightarrow> Some (tg_sessionId p, tg_sessionGeneration p)
   | _ \<Rightarrow> None)"

record ControlAggregate =
  agg_kind :: AggregateKind
  agg_id :: string
  agg_generation :: nat
  agg_key :: string

definition aggregateKey :: "string \<Rightarrow> string \<Rightarrow> nat \<Rightarrow> string" where
  "aggregateKey prefix i g = prefix @ '':'' @ i @ '':'' @ nat_digits g"

definition aggregateForEvent :: "ControlEvent \<Rightarrow> string + ControlAggregate" where
  "aggregateForEvent e =
     (case eventSession (ev_body e) of
        Some (sid, g) \<Rightarrow> Inr \<lparr>agg_kind = AggSession, agg_id = sid, agg_generation = g, agg_key = aggregateKey ''session'' sid g\<rparr>
      | None \<Rightarrow>
          (case ev_taskId e of
             Some t \<Rightarrow> bind_res (require_some ''task-scoped event requires taskGeneration'' (ev_taskGeneration e))
               (\<lambda>g. Inr \<lparr>agg_kind = AggTask, agg_id = t, agg_generation = g, agg_key = aggregateKey ''task'' t g\<rparr>)
           | None \<Rightarrow> Inr \<lparr>agg_kind = AggRun, agg_id = ev_runId e, agg_generation = 1, agg_key = aggregateKey ''run'' (ev_runId e) 1\<rparr>))"

section \<open>Assertions shared by the handlers\<close>

text \<open>\<open>event.taskId!\<close> and \<open>event.taskGeneration!\<close>: present whenever the scope assertion asks for them.\<close>

definition evTask :: "ControlEvent \<Rightarrow> string" where
  "evTask e = (case ev_taskId e of None \<Rightarrow> [] | Some t \<Rightarrow> t)"

definition evTaskGen :: "ControlEvent \<Rightarrow> nat" where
  "evTaskGen e = (case ev_taskGeneration e of None \<Rightarrow> 0 | Some g \<Rightarrow> g)"

definition assertTask :: "ControlProjection \<Rightarrow> string \<Rightarrow> nat \<Rightarrow> string + TaskFact" where
  "assertTask st taskId generation =
     bind_res (require_some ''event references missing task'' (obj_get (cs_tasks st) taskId)) (\<lambda>task.
     if t_generation task \<noteq> generation then Inl ''task generation is stale'' else Inr task)"

definition assertSession :: "ControlProjection \<Rightarrow> string \<Rightarrow> nat \<Rightarrow> string + RuntimeFact" where
  "assertSession st sessionId generation =
     bind_res (require_some ''event references missing session'' (obj_get (cs_runtimes st) sessionId)) (\<lambda>runtime.
     if rt_sessionGeneration runtime \<noteq> generation then Inl ''session generation is stale'' else Inr runtime)"

definition assertScmPublication :: "ControlProjection \<Rightarrow> string \<Rightarrow> nat \<Rightarrow> string + ScmPublicationFact" where
  "assertScmPublication st publicationId generation =
     bind_res (require_some ''SCM publication does not exist'' (obj_get (scm_publications (cs_scm st)) publicationId)) (\<lambda>publication.
     if pub_generation publication \<noteq> generation then Inl ''SCM publication generation is stale'' else Inr publication)"

definition assignedTo :: "RuntimeFact \<Rightarrow> ControlEvent \<Rightarrow> bool" where
  "assignedTo runtime e \<longleftrightarrow> rt_taskId runtime = ev_taskId e \<and> rt_taskGeneration runtime = ev_taskGeneration e"

definition taskTerminal :: "TaskFact \<Rightarrow> bool" where
  "taskTerminal task \<longleftrightarrow> t_status task = TDone \<or> t_status task = TEscalated"

definition scmRepositoryKey :: "ScmRepositoryId \<Rightarrow> string" where
  "scmRepositoryKey r = repo_provider r @ '':'' @ repo_host r @ ''/'' @ repo_owner r @ ''/'' @ repo_name r"

definition pullIdentityValue :: "'a ScmPullRequestIdentity_scheme \<Rightarrow> ScmPullRequestIdentity" where
  "pullIdentityValue pull = ScmPullRequestIdentity.truncate pull"

definition pullMatchesPublication :: "ScmPublicationFact \<Rightarrow> 'a ScmPullRequestIdentity_scheme \<Rightarrow> bool" where
  "pullMatchesPublication publication pull \<longleftrightarrow>
     (let i = pub_intent publication in
      scmRepositoryKey (pr_repository pull) = scmRepositoryKey (in_baseRepository i) \<and>
      scmRepositoryKey (pr_headRepository pull) = scmRepositoryKey (in_repository i) \<and>
      pr_headRef pull = in_remoteRef i \<and>
      pr_headSha pull = in_integrationOid i \<and>
      scmRepositoryKey (pr_baseRepository pull) = scmRepositoryKey (in_baseRepository i) \<and>
      pr_baseRef pull = in_baseRef i)"

text \<open>\<open>[...refs].sort()\<close>: by UTF-16 code units.\<close>

definition sort_strings :: "string list \<Rightarrow> string list" where
  "sort_strings xs = sort_key (map (of_char :: char \<Rightarrow> nat)) xs"

definition expectedReactionKey :: "ControlPrims \<Rightarrow> ScmPublicationFact \<Rightarrow> string \<Rightarrow> ScmFactKind \<Rightarrow> string list \<Rightarrow> string + string" where
  "expectedReactionKey C publication headSha factKind evidenceRefs =
     bind_res (require_some ''SCM publication has no pull request identity'' (pub_pullRequest publication)) (\<lambda>pr.
     Inr (cx_reactionDigest C (scmRepositoryKey (pr_repository pr)) (pr_number pr) headSha factKind (sort_strings evidenceRefs)))"

definition assertCheckpoint :: "ControlPrims \<Rightarrow> LoopCheckpointFact option \<Rightarrow> LoopCheckpointFact \<Rightarrow> string + unit" where
  "assertCheckpoint C previous next =
     bind_res (checks
       [(cx_dateParse C (cp_updatedAt next) < cx_dateParse C (cp_startedAt next), ''updatedAt precedes startedAt''),
        (cp_accepted next > cp_dispatched next \<or> cp_escalations next > cp_dispatched next, ''counters contradict dispatched work''),
        (cp_status next = LsDone \<and> cp_phase next \<noteq> PhComplete \<or>
         cp_status next = LsCancelled \<and> cp_phase next \<noteq> PhCancelled \<or>
         cp_status next = LsStopped \<and> cp_phase next \<noteq> PhStopped, ''terminal status and phase disagree'')]) (\<lambda>_.
     case previous of None \<Rightarrow> Inr ()
     | Some p \<Rightarrow> checks
       [(cp_project p \<noteq> cp_project next \<or> cp_startedAt p \<noteq> cp_startedAt next, ''immutable identity changed''),
        (cx_dateParse C (cp_updatedAt next) < cx_dateParse C (cp_updatedAt p), ''updatedAt regressed''),
        (cp_status p \<noteq> LsRunning, ''terminal run checkpoint cannot be replaced''),
        (cp_iteration next < cp_iteration p, ''iteration regressed''),
        (cp_dispatched next < cp_dispatched p, ''dispatched regressed''),
        (cp_accepted next < cp_accepted p, ''accepted regressed''),
        (cp_rejected next < cp_rejected p, ''rejected regressed''),
        (cp_escalations next < cp_escalations p, ''escalations regressed''),
        (cp_unknownCostCalls next < cp_unknownCostCalls p, ''unknownCostCalls regressed'')])"

section \<open>Run lifecycle\<close>

definition onRunStarted :: "ControlProjection \<Rightarrow> ControlEvent \<Rightarrow> string \<Rightarrow> string option \<Rightarrow> string option \<Rightarrow> string + ControlProjection" where
  "onRunStarted st e startedBy goal configDigest =
     bind_res (checks [(cs_run st \<noteq> None, ''run lifecycle already started''),
                       (ev_expectedVersion e \<noteq> 0, ''run.started must be the first run aggregate event'')]) (\<lambda>_.
     Inr (st\<lparr>cs_run := Some \<lparr>run_status = RunStarted, run_startedBy = startedBy, run_goal = goal,
        run_configDigest = configDigest, run_startedAt = ev_occurredAt e, run_terminalAt = None,
        run_reasonCode = None, run_summary = None, run_cancelledBy = None, run_checkpoint = None,
        run_version = 1, run_updatedSeq = ev_seq e\<rparr>\<rparr>))"

definition onRunTerminal :: "ControlProjection \<Rightarrow> ControlEvent \<Rightarrow> (RunFact \<Rightarrow> RunFact) \<Rightarrow> string + ControlProjection" where
  "onRunTerminal st e finish =
     bind_res (require_some ''requires a nonterminal started run'' (cs_run st)) (\<lambda>run.
     bind_res (checks [(run_status run \<noteq> RunStarted, ''requires a nonterminal started run'')]) (\<lambda>_.
     Inr (st\<lparr>cs_run := Some (finish (run\<lparr>run_terminalAt := Some (ev_occurredAt e),
        run_version := ev_expectedVersion e + 1, run_updatedSeq := ev_seq e\<rparr>))\<rparr>)))"

definition onRunCheckpointed :: "ControlPrims \<Rightarrow> ControlProjection \<Rightarrow> ControlEvent \<Rightarrow> LoopCheckpointFact \<Rightarrow> string + ControlProjection" where
  "onRunCheckpointed C st e payload =
     bind_res (require_some ''run.checkpointed requires a nonterminal started run'' (cs_run st)) (\<lambda>run.
     bind_res (checks [(run_status run \<noteq> RunStarted, ''run.checkpointed requires a nonterminal started run''),
                       (cp_startedAt payload \<noteq> run_startedAt run, ''startedAt does not match the run lifecycle'')]) (\<lambda>_.
     bind_res (assertCheckpoint C (run_checkpoint run) payload) (\<lambda>_.
     Inr (st\<lparr>cs_run := Some (run\<lparr>run_checkpoint := Some payload, run_version := ev_expectedVersion e + 1,
        run_updatedSeq := ev_seq e\<rparr>)\<rparr>))))"

section \<open>Tasks and messages\<close>

definition setTask :: "TaskFact \<Rightarrow> ControlProjection \<Rightarrow> ControlProjection" where
  "setTask task st = st\<lparr>cs_tasks := obj_set (t_id task) task (cs_tasks st)\<rparr>"

definition onTaskCreated :: "ControlProjection \<Rightarrow> ControlEvent \<Rightarrow> TaskCreatedPayload \<Rightarrow> string + ControlProjection" where
  "onTaskCreated st e p =
     bind_res (checks [(obj_has (cs_tasks st) (evTask e), ''task already exists'')]) (\<lambda>_.
     Inr (setTask \<lparr>t_id = evTask e, t_generation = evTaskGen e, t_title = tc_title p, t_assignee = tc_assignee p,
        t_createdBy = tc_createdBy p, t_description = tc_description p,
        t_acceptanceCriteria = tc_acceptanceCriteria p, t_dependsOn = tc_dependsOn p,
        t_priority = tc_priority p, t_createdAt = tc_createdAt p, t_files = tc_files p, t_status = TOpen,
        t_claimedBy = None, t_lastSummary = None, t_lastUpdate = ev_occurredAt e, t_attempts = 0,
        t_version = ev_expectedVersion e + 1, t_updatedSeq = ev_seq e\<rparr> st))"

definition claimCheck :: "TaskFact \<Rightarrow> string \<Rightarrow> ControlTaskStatus \<Rightarrow> string + string option" where
  "claimCheck task role nextStatus =
     (if nextStatus = TClaimed then
        (if t_claimedBy task \<noteq> None \<and> t_claimedBy task \<noteq> Some role then Inl ''task is already claimed''
         else Inr (Some role))
      else if t_claimedBy task \<noteq> None \<and> t_claimedBy task \<noteq> Some role \<and>
              nextStatus \<notin> {TBlocked, TRejected, TEscalated}
        then Inl ''role cannot advance a claimed task''
      else Inr (t_claimedBy task))"

definition onTaskStatusChanged :: "ControlProjection \<Rightarrow> ControlEvent \<Rightarrow> string \<Rightarrow> ControlTaskStatus \<Rightarrow> string option \<Rightarrow> string + ControlProjection" where
  "onTaskStatusChanged st e role nextStatus summary =
     bind_res (assertTask st (evTask e) (evTaskGen e)) (\<lambda>task.
     bind_res (checks [(nextStatus \<noteq> t_status task \<and> nextStatus \<notin> set (allowedTransitions (t_status task)),
                        ''illegal task transition'')]) (\<lambda>_.
     bind_res (claimCheck task role nextStatus) (\<lambda>claim.
     Inr (st\<lparr>cs_tasks := obj_set (evTask e) (task\<lparr>t_claimedBy := claim, t_status := nextStatus,
        t_attempts := (if nextStatus = TBlocked \<or> nextStatus = TRejected then t_attempts task + 1 else t_attempts task),
        t_lastSummary := (case summary of None \<Rightarrow> t_lastSummary task | Some s \<Rightarrow> Some s),
        t_lastUpdate := ev_occurredAt e, t_version := ev_expectedVersion e + 1, t_updatedSeq := ev_seq e\<rparr>)
        (cs_tasks st)\<rparr>))))"

definition onTaskReopened :: "ControlProjection \<Rightarrow> ControlEvent \<Rightarrow> nat \<Rightarrow> string option \<Rightarrow> string + ControlProjection" where
  "onTaskReopened st e newGeneration reason =
     bind_res (assertTask st (evTask e) (evTaskGen e)) (\<lambda>task.
     bind_res (checks [(\<not> taskTerminal task, ''task generation is not terminal''),
                       (newGeneration \<noteq> t_generation task + 1, ''reopen generation must be the next'')]) (\<lambda>_.
     Inr (st\<lparr>cs_tasks := obj_set (evTask e) (task\<lparr>t_generation := newGeneration, t_status := TOpen,
          t_claimedBy := None, t_lastSummary := reason, t_lastUpdate := ev_occurredAt e, t_attempts := 0,
          t_version := 0, t_updatedSeq := ev_seq e\<rparr>) (cs_tasks st),
        cs_aggregateVersions := obj_set (aggregateKey ''task'' (t_id task) newGeneration)
          \<lparr>ag_kind = AggTask, ag_id = t_id task, ag_generation = newGeneration, ag_version = 0,
           ag_updatedSeq = ev_seq e\<rparr> (cs_aggregateVersions st)\<rparr>)))"

text \<open>\<open>if (event.taskId !== null) assertTask(...)\<close>\<close>

definition assertOptionalTask :: "ControlProjection \<Rightarrow> ControlEvent \<Rightarrow> string + unit" where
  "assertOptionalTask st e =
     (if ev_taskId e = None then Inr () else bind_res (assertTask st (evTask e) (evTaskGen e)) (\<lambda>_. Inr ()))"

definition onMessagePosted :: "ControlProjection \<Rightarrow> ControlEvent \<Rightarrow> string \<Rightarrow> string \<Rightarrow> string \<Rightarrow> string \<Rightarrow> string + ControlProjection" where
  "onMessagePosted st e messageId frm to body =
     bind_res (assertOptionalTask st e) (\<lambda>_.
     bind_res (checks [(list_ex (\<lambda>m. m_messageId m = messageId) (cs_messages st), ''message already exists'')]) (\<lambda>_.
     Inr (st\<lparr>cs_messages := cs_messages st @ [\<lparr>m_messageId = messageId, m_seq = ev_seq e, m_taskId = ev_taskId e,
        m_taskGeneration = ev_taskGeneration e, m_from = frm, m_to = to, m_body = body,
        m_occurredAt = ev_occurredAt e\<rparr>]\<rparr>)))"

section \<open>Sessions and attempts\<close>

definition runtimeError :: "RuntimeFact \<Rightarrow> ControlEvent \<Rightarrow> RuntimePayload \<Rightarrow> string + unit" where
  "runtimeError prior e p = checks
     [(ro_sessionGeneration p < rt_sessionGeneration prior, ''stale session generation''),
      (ro_sessionGeneration p > rt_sessionGeneration prior \<and> rt_observation prior \<noteq> ObsExited,
       ''session generation advanced before exit''),
      (ro_sessionGeneration p = rt_sessionGeneration prior \<and> rt_observation prior = ObsExited \<and>
       ro_observation p \<noteq> ObsExited, ''session terminal generation cannot be resurrected''),
      (ro_sessionGeneration p = rt_sessionGeneration prior \<and>
       (rt_taskId prior \<noteq> ev_taskId e \<or> rt_taskGeneration prior \<noteq> ev_taskGeneration e),
       ''session generation cannot be retargeted'')]"

definition onRuntimeObserved :: "ControlProjection \<Rightarrow> ControlEvent \<Rightarrow> RuntimePayload \<Rightarrow> string + ControlProjection" where
  "onRuntimeObserved st e p =
     bind_res (assertOptionalTask st e) (\<lambda>_.
     bind_res (case obj_get (cs_runtimes st) (ro_sessionId p) of None \<Rightarrow> Inr () | Some prior \<Rightarrow> runtimeError prior e p) (\<lambda>_.
     Inr (st\<lparr>cs_runtimes := obj_set (ro_sessionId p)
        \<lparr>rt_sessionId = ro_sessionId p, rt_sessionGeneration = ro_sessionGeneration p, rt_taskId = ev_taskId e,
         rt_taskGeneration = ev_taskGeneration e, rt_observation = ro_observation p, rt_launchId = ro_launchId p,
         rt_reason = ro_reason p, rt_observedAt = ev_occurredAt e, rt_updatedSeq = ev_seq e\<rparr> (cs_runtimes st)\<rparr>)))"

definition nextAttemptGeneration :: "ControlProjection \<Rightarrow> ControlEvent \<Rightarrow> nat" where
  "nextAttemptGeneration st e =
     fold max (map a_attemptGeneration
       (filter (\<lambda>a. a_taskId a = evTask e \<and> a_taskGeneration a = evTaskGen e) (obj_values (cs_attempts st)))) 0 + 1"

definition onAttemptPrepared :: "ControlProjection \<Rightarrow> ControlEvent \<Rightarrow> AttemptPreparedPayload \<Rightarrow> string + ControlProjection" where
  "onAttemptPrepared st e p =
     bind_res (assertTask st (evTask e) (evTaskGen e)) (\<lambda>_.
     bind_res (assertSession st (ab_sessionId p) (ab_sessionGeneration p)) (\<lambda>runtime.
     bind_res (checks [(\<not> assignedTo runtime e, ''session is not assigned to task''),
                       (obj_has (cs_attempts st) (ab_attemptId p), ''attempt already exists''),
                       (ab_attemptGeneration p \<noteq> nextAttemptGeneration st e, ''attempt generation'')]) (\<lambda>_.
     Inr (st\<lparr>cs_attempts := obj_set (ab_attemptId p)
        \<lparr>a_attemptId = ab_attemptId p, a_attemptGeneration = ab_attemptGeneration p, a_taskId = evTask e,
         a_taskGeneration = evTaskGen e, a_sessionId = ab_sessionId p, a_sessionGeneration = ab_sessionGeneration p,
         a_artifactLocator = ap_artifactLocator p, a_promptSha256 = ap_promptSha256 p,
         a_promptBytes = ap_promptBytes p, a_rendererVersion = ap_rendererVersion p,
         a_captureCutoffSeq = ap_captureCutoffSeq p, a_steeringCommandIds = ap_steeringCommandIds p,
         a_launchId = None, a_pid = None, a_processStartToken = None, a_state = Prepared, a_outcome = None,
         a_exitCode = None, a_summary = None, a_abandonReason = None, a_preparedSeq = ev_seq e,
         a_launchPlannedSeq = None, a_startedSeq = None, a_exitedSeq = None, a_abandonedSeq = None\<rparr>
        (cs_attempts st)\<rparr>))))"

definition attemptIdentity :: "AttemptFact \<Rightarrow> AttemptBase \<Rightarrow> bool" where
  "attemptIdentity a p \<longleftrightarrow> a_attemptGeneration a = ab_attemptGeneration p \<and> a_sessionId a = ab_sessionId p \<and>
     a_sessionGeneration a = ab_sessionGeneration p"

text \<open>The attempt an event changes: it exists and is in the state the event requires.\<close>

definition attemptIn :: "ControlProjection \<Rightarrow> string \<Rightarrow> AttemptState \<Rightarrow> string + AttemptFact" where
  "attemptIn st i s =
     bind_res (require_some ''attempt does not exist'' (obj_get (cs_attempts st) i)) (\<lambda>a.
     if a_state a \<noteq> s then Inl ''attempt is not in the required state'' else Inr a)"

definition setAttempt :: "string \<Rightarrow> AttemptFact \<Rightarrow> ControlProjection \<Rightarrow> ControlProjection" where
  "setAttempt i a st = st\<lparr>cs_attempts := obj_set i a (cs_attempts st)\<rparr>"

definition onAttemptLaunchPlanned :: "ControlProjection \<Rightarrow> ControlEvent \<Rightarrow> AttemptBase \<Rightarrow> string \<Rightarrow> string + ControlProjection" where
  "onAttemptLaunchPlanned st e p launchId =
     bind_res (attemptIn st (ab_attemptId p) Prepared) (\<lambda>a.
     bind_res (checks [(a_launchId a \<noteq> None, ''attempt already has a launch plan''),
                       (\<not> attemptIdentity a p, ''attempt identity mismatch'')]) (\<lambda>_.
     Inr (setAttempt (ab_attemptId p) (a\<lparr>a_launchId := Some launchId, a_launchPlannedSeq := Some (ev_seq e)\<rparr>) st)))"

definition onAttemptStarted :: "ControlProjection \<Rightarrow> ControlEvent \<Rightarrow> AttemptBase \<Rightarrow> string \<Rightarrow> nat \<Rightarrow> string \<Rightarrow> string + ControlProjection" where
  "onAttemptStarted st e p launchId pid token =
     bind_res (attemptIn st (ab_attemptId p) Prepared) (\<lambda>a.
     bind_res (checks [(\<not> attemptIdentity a p, ''attempt identity mismatch''),
                       (a_launchId a = None \<or> a_launchId a = Some [] \<or> a_launchId a \<noteq> Some launchId \<or>
                        a_launchPlannedSeq a = None, ''attempt has no matching durable launch plan'')]) (\<lambda>_.
     Inr (setAttempt (ab_attemptId p) (a\<lparr>a_state := Active, a_pid := Some pid, a_processStartToken := Some token,
        a_startedSeq := Some (ev_seq e)\<rparr>) st)))"

definition onAttemptExited :: "ControlProjection \<Rightarrow> ControlEvent \<Rightarrow> AttemptBase \<Rightarrow> AttemptOutcome \<Rightarrow> int option \<Rightarrow> string option \<Rightarrow> string + ControlProjection" where
  "onAttemptExited st e p outcome exitCode summary =
     bind_res (attemptIn st (ab_attemptId p) Active) (\<lambda>a.
     bind_res (checks [(\<not> attemptIdentity a p, ''attempt identity mismatch'')]) (\<lambda>_.
     Inr (setAttempt (ab_attemptId p) (a\<lparr>a_state := Exited, a_outcome := Some outcome, a_exitCode := exitCode,
        a_summary := summary, a_exitedSeq := Some (ev_seq e)\<rparr>) st)))"

definition onAttemptAbandoned :: "ControlProjection \<Rightarrow> ControlEvent \<Rightarrow> AttemptBase \<Rightarrow> AbandonReason \<Rightarrow> string option \<Rightarrow> string + ControlProjection" where
  "onAttemptAbandoned st e p reason summary =
     bind_res (attemptIn st (ab_attemptId p) Prepared) (\<lambda>a.
     bind_res (checks [(\<not> attemptIdentity a p, ''attempt identity mismatch'')]) (\<lambda>_.
     Inr (setAttempt (ab_attemptId p) (a\<lparr>a_state := Abandoned, a_abandonReason := Some reason, a_summary := summary,
        a_abandonedSeq := Some (ev_seq e)\<rparr>) st)))"

section \<open>Steering commands\<close>

definition setSteering :: "string \<Rightarrow> SteeringFact \<Rightarrow> ControlProjection \<Rightarrow> ControlProjection" where
  "setSteering i c st = st\<lparr>cs_steering := obj_set i c (cs_steering st)\<rparr>"

definition onSteeringAdmitted :: "ControlProjection \<Rightarrow> ControlEvent \<Rightarrow> SteeringAdmittedPayload \<Rightarrow> string + ControlProjection" where
  "onSteeringAdmitted st e p =
     bind_res (assertTask st (evTask e) (evTaskGen e)) (\<lambda>_.
     bind_res (assertSession st (tg_sessionId p) (tg_sessionGeneration p)) (\<lambda>runtime.
     bind_res (checks [(\<not> assignedTo runtime e, ''session is not assigned to task''),
                       (obj_has (cs_steering st) (tg_commandId p), ''steering command already exists'')]) (\<lambda>_.
     Inr (setSteering (tg_commandId p)
        \<lparr>sf_commandId = tg_commandId p, sf_sessionId = tg_sessionId p, sf_sessionGeneration = tg_sessionGeneration p,
         sf_taskId = evTask e, sf_taskGeneration = evTaskGen e, sf_bodySha256 = sa_bodySha256 p,
         sf_requestSemanticDigest = None, sf_observedSeq = None, sf_observedActivity = None, sf_status = SPending,
         sf_admittedSeq = Some (ev_seq e), sf_terminalSeq = None,
         sf_notBeforeAttemptGeneration = Some (sa_notBeforeAttemptGeneration p),
         sf_sourceKind = Some (sa_sourceKind p), sf_parentPrincipal = Some (sa_parentPrincipal p),
         sf_evidenceRefs = Some (sa_evidenceRefs p), sf_body = Some (sa_body p), sf_createdAt = Some (sa_createdAt p),
         sf_expiresAt = sa_expiresAt p, sf_supersedesCommandId = sa_supersedesCommandId p, sf_reasonCode = None,
         sf_attemptId = None, sf_attemptGeneration = None, sf_promptSha256 = None, sf_byCommandId = None\<rparr> st))))"

definition onSteeringRefused :: "ControlProjection \<Rightarrow> ControlEvent \<Rightarrow> SteeringRefusedPayload \<Rightarrow> string + ControlProjection" where
  "onSteeringRefused st e p =
     bind_res (checks [(obj_has (cs_steering st) (tg_commandId p), ''steering command already exists'')]) (\<lambda>_.
     Inr (setSteering (tg_commandId p)
        \<lparr>sf_commandId = tg_commandId p, sf_sessionId = tg_sessionId p, sf_sessionGeneration = tg_sessionGeneration p,
         sf_taskId = evTask e, sf_taskGeneration = evTaskGen e, sf_bodySha256 = sr_bodySha256 p,
         sf_requestSemanticDigest = Some (sr_requestSemanticDigest p), sf_observedSeq = Some (sr_observedSeq p),
         sf_observedActivity = Some (sr_observedActivity p), sf_status = SRefused, sf_admittedSeq = None,
         sf_terminalSeq = Some (ev_seq e), sf_notBeforeAttemptGeneration = None, sf_sourceKind = None,
         sf_parentPrincipal = None, sf_evidenceRefs = None, sf_body = None, sf_createdAt = None, sf_expiresAt = None,
         sf_supersedesCommandId = None, sf_reasonCode = Some (sr_reasonCode p), sf_attemptId = None,
         sf_attemptGeneration = None, sf_promptSha256 = None, sf_byCommandId = None\<rparr> st))"

definition pendingCommand :: "ControlProjection \<Rightarrow> string \<Rightarrow> string + SteeringFact" where
  "pendingCommand st i =
     bind_res (require_some ''steering command is not pending'' (obj_get (cs_steering st) i)) (\<lambda>c.
     if sf_status c \<noteq> SPending then Inl ''steering command is not pending'' else Inr c)"

definition onSteeringTerminalRefused :: "ControlProjection \<Rightarrow> ControlEvent \<Rightarrow> SteeringTerminalRefusedPayload \<Rightarrow> string + ControlProjection" where
  "onSteeringTerminalRefused st e p =
     bind_res (pendingCommand st (tg_commandId p)) (\<lambda>c.
     bind_res (checks [(Some (sf_taskId c) \<noteq> ev_taskId e \<or> Some (sf_taskGeneration c) \<noteq> ev_taskGeneration e \<or>
                        sf_sessionId c \<noteq> tg_sessionId p \<or> sf_sessionGeneration c \<noteq> tg_sessionGeneration p,
                        ''steering command target mismatch'')]) (\<lambda>_.
     Inr (setSteering (tg_commandId p) (c\<lparr>sf_status := SRefused,
        sf_requestSemanticDigest := Some (st_requestSemanticDigest p), sf_observedSeq := Some (st_observedSeq p),
        sf_observedActivity := Some (st_observedActivity p), sf_reasonCode := Some (st_reasonCode p),
        sf_terminalSeq := Some (ev_seq e)\<rparr>) st)))"

definition onSteeringIncluded :: "ControlProjection \<Rightarrow> ControlEvent \<Rightarrow> SteeringTarget \<Rightarrow> string \<Rightarrow> string \<Rightarrow> string + ControlProjection" where
  "onSteeringIncluded st e p attemptId promptSha256 =
     bind_res (pendingCommand st (tg_commandId p)) (\<lambda>c.
     bind_res (attemptIn st attemptId Prepared) (\<lambda>a.
     bind_res (checks [(a_promptSha256 a \<noteq> promptSha256 \<or> sf_commandId c \<notin> set (a_steeringCommandIds a),
                        ''steering command has no matching prepared prompt'')]) (\<lambda>_.
     Inr (setSteering (tg_commandId p) (c\<lparr>sf_status := SIncluded, sf_terminalSeq := Some (ev_seq e),
        sf_attemptId := Some (a_attemptId a), sf_attemptGeneration := Some (a_attemptGeneration a),
        sf_promptSha256 := Some (a_promptSha256 a)\<rparr>) st))))"

definition onSteeringClosed :: "ControlProjection \<Rightarrow> ControlEvent \<Rightarrow> SteeringTarget \<Rightarrow> SteeringStatus \<Rightarrow> string option \<Rightarrow> string + ControlProjection" where
  "onSteeringClosed st e p status byCommandId =
     bind_res (pendingCommand st (tg_commandId p)) (\<lambda>c.
     Inr (setSteering (tg_commandId p) (c\<lparr>sf_status := status, sf_terminalSeq := Some (ev_seq e),
        sf_byCommandId := (if status = SSuperseded then byCommandId else sf_byCommandId c)\<rparr>) st))"

section \<open>Publications\<close>

definition setPublication :: "string \<Rightarrow> ScmPublicationFact \<Rightarrow> ControlProjection \<Rightarrow> ControlProjection" where
  "setPublication i p st = st\<lparr>cs_scm := (cs_scm st)\<lparr>scm_publications := obj_set i p (scm_publications (cs_scm st))\<rparr>\<rparr>"

definition setPoll :: "string \<Rightarrow> ScmPollFact \<Rightarrow> ControlProjection \<Rightarrow> ControlProjection" where
  "setPoll i p st = st\<lparr>cs_scm := (cs_scm st)\<lparr>scm_polls := obj_set i p (scm_polls (cs_scm st))\<rparr>\<rparr>"

definition setObservation :: "string \<Rightarrow> ScmObservationFact \<Rightarrow> ControlProjection \<Rightarrow> ControlProjection" where
  "setObservation i p st = st\<lparr>cs_scm := (cs_scm st)\<lparr>scm_observations := obj_set i p (scm_observations (cs_scm st))\<rparr>\<rparr>"

definition setReaction :: "string \<Rightarrow> ScmReactionFact \<Rightarrow> ControlProjection \<Rightarrow> ControlProjection" where
  "setReaction i p st = st\<lparr>cs_scm := (cs_scm st)\<lparr>scm_reactions := obj_set i p (scm_reactions (cs_scm st))\<rparr>\<rparr>"

definition onPublicationRecorded :: "ControlProjection \<Rightarrow> ControlEvent \<Rightarrow> ScmPublicationIntent \<Rightarrow> string + ControlProjection" where
  "onPublicationRecorded st e i =
     bind_res (assertTask st (evTask e) (evTaskGen e)) (\<lambda>task.
     bind_res (checks [(in_runId i \<noteq> cs_runId st \<or> in_runEpoch i \<noteq> cs_runEpoch st, ''SCM publication run identity''),
                       (obj_has (scm_publications (cs_scm st)) (in_publicationId i), ''SCM publication already exists''),
                       (taskTerminal task, ''terminal task cannot create an SCM publication'')]) (\<lambda>_.
     Inr (setPublication (in_publicationId i)
        \<lparr>pub_publicationId = in_publicationId i, pub_generation = in_publicationGeneration i, pub_version = 0,
         pub_state = Unpublished, pub_intent = i, pub_taskId = evTask e, pub_taskGeneration = evTaskGen e,
         pub_observedRemoteOid = None, pub_pullRequest = None, pub_reasonCode = None,
         pub_createdSeq = ev_seq e, pub_updatedSeq = ev_seq e\<rparr> st)))"

definition ownsTask :: "string \<Rightarrow> nat \<Rightarrow> ControlEvent \<Rightarrow> bool" where
  "ownsTask t g e \<longleftrightarrow> ev_taskId e = Some t \<and> ev_taskGeneration e = Some g"

definition onPublicationStateChanged :: "ControlProjection \<Rightarrow> ControlEvent \<Rightarrow> ScmPublicationStateChangedPayload \<Rightarrow> string + ControlProjection" where
  "onPublicationStateChanged st e p =
     bind_res (assertTask st (evTask e) (evTaskGen e)) (\<lambda>_.
     bind_res (assertScmPublication st (ps_publicationId p) (ps_publicationGeneration p)) (\<lambda>pub.
     bind_res (checks
       [(\<not> ownsTask (pub_taskId pub) (pub_taskGeneration pub) e, ''SCM publication task target mismatch''),
        (pub_state pub \<noteq> ps_fromState p, ''SCM publication state fence''),
        (ps_toState p \<notin> set (scmPublicationTransitions (pub_state pub)), ''illegal SCM publication transition''),
        (ps_toState p = BranchPublished \<and> ps_observedRemoteOid p \<noteq> Some (Some (in_integrationOid (pub_intent pub))),
         ''SCM branch publication requires the exact intended remote OID''),
        (ps_toState p = Published \<and> ps_pullRequest p = None, ''published SCM state requires a pull request fact''),
        (ps_toState p = Published \<and> (case ps_pullRequest p of None \<Rightarrow> False | Some pr \<Rightarrow> \<not> pullMatchesPublication pub pr),
         ''SCM pull request does not match publication''),
        (ps_toState p = Published \<and> (case ps_pullRequest p of None \<Rightarrow> False
            | Some pr \<Rightarrow> pr_lifecycle pr \<noteq> PrOpen \<or> pr_draft pr \<noteq> in_draft (pub_intent pub)),
         ''published SCM pull request lifecycle/draft''),
        (ps_toState p \<noteq> Published \<and> ps_pullRequest p \<noteq> None, ''pull request facts only on the published transition''),
        (ps_toState p = PubRefused \<and> ps_reasonCode p = None, ''refused SCM publication requires a reason code'')]) (\<lambda>_.
     Inr (setPublication (ps_publicationId p) (pub\<lparr>pub_state := ps_toState p, pub_version := pub_version pub + 1,
        pub_updatedSeq := ev_seq e,
        pub_observedRemoteOid := (case ps_observedRemoteOid p of None \<Rightarrow> pub_observedRemoteOid pub | Some v \<Rightarrow> Some v),
        pub_pullRequest := (case ps_pullRequest p of None \<Rightarrow> pub_pullRequest pub | Some v \<Rightarrow> Some v),
        pub_reasonCode := (case ps_reasonCode p of None \<Rightarrow> pub_reasonCode pub | Some v \<Rightarrow> Some v)\<rparr>) st))))"

section \<open>Polls and observations\<close>

text \<open>A guard of a poll must be the guard of the accepted bucket, observed on the polled head.\<close>

definition guardBacked :: "string \<Rightarrow> string option \<Rightarrow> ScmBucketMeta option \<Rightarrow> bool" where
  "guardBacked head guard meta = (case guard of None \<Rightarrow> True
     | Some g \<Rightarrow> (case meta of None \<Rightarrow> False | Some m \<Rightarrow> bm_observedHeadSha m = head \<and> bm_guard m = Some g))"

definition guardsBacked :: "string \<Rightarrow> ScmObservationGuards \<Rightarrow> ScmObservationFact option \<Rightarrow> bool" where
  "guardsBacked head g obs =
     (let b = map_option ob_buckets obs in
      guardBacked head (gd_pullRequest g) (Option.bind b (\<lambda>x. map_option fb_meta (bk_pullRequest x))) \<and>
      guardBacked head (gd_checks g) (Option.bind b (\<lambda>x. map_option fb_meta (bk_ci x))) \<and>
      guardBacked head (gd_reviews g) (Option.bind b (\<lambda>x. map_option fb_meta (bk_review x))) \<and>
      guardBacked head (gd_mergeability g) (Option.bind b (\<lambda>x. map_option fb_meta (bk_mergeability x))))"

definition pollRetryOk :: "ScmPollFact \<Rightarrow> ScmPublicationFact \<Rightarrow> RuntimeFact \<Rightarrow> ControlEvent \<Rightarrow> ScmPollStartedPayload \<Rightarrow> bool" where
  "pollRetryOk prior pub runtime e p \<longleftrightarrow>
     pf_pollAttempt p = pl_pollAttempt prior + 1 \<and> pl_publicationId prior = pub_publicationId pub \<and>
     pl_publicationGeneration prior = pub_generation pub \<and> ownsTask (pl_taskId prior) (pl_taskGeneration prior) e \<and>
     pl_sessionId prior = rt_sessionId runtime \<and> pl_sessionGeneration prior = rt_sessionGeneration runtime \<and>
     pl_expectedHeadSha prior = pf_expectedHeadSha p"

definition onPollStarted :: "ControlProjection \<Rightarrow> ControlEvent \<Rightarrow> ScmPollStartedPayload \<Rightarrow> string + ControlProjection" where
  "onPollStarted st e p =
     bind_res (assertTask st (evTask e) (evTaskGen e)) (\<lambda>task.
     bind_res (checks [(taskTerminal task, ''terminal task cannot start an SCM poll'')]) (\<lambda>_.
     bind_res (assertSession st (po_sessionId p) (po_sessionGeneration p)) (\<lambda>runtime.
     bind_res (checks [(\<not> assignedTo runtime e, ''session is not assigned to SCM task'')]) (\<lambda>_.
     bind_res (assertScmPublication st (pf_publicationId p) (pf_publicationGeneration p)) (\<lambda>pub.
     bind_res (checks
       [(\<not> ownsTask (pub_taskId pub) (pub_taskGeneration pub) e \<or> pub_state pub \<noteq> Published,
         ''SCM publication is not published for this task generation''),
        (pf_expectedHeadSha p \<noteq> in_integrationOid (pub_intent pub) \<or> pub_pullRequest pub = None,
         ''SCM poll head/publication identity mismatch''),
        (\<not> pullMatchesPublication pub (po_pullRequest p), ''SCM pull request does not match publication''),
        (Some (pullIdentityValue (po_pullRequest p)) \<noteq> map_option pullIdentityValue (pub_pullRequest pub),
         ''SCM poll pull request identity changed''),
        (\<not> guardsBacked (pf_expectedHeadSha p) (po_guards p) (obj_get (scm_observations (cs_scm st)) (pub_publicationId pub)),
         ''SCM poll guard is not backed by the exact accepted head''),
        (list_ex (\<lambda>q. pl_state q = PollStarted \<and> pl_publicationId q = pub_publicationId pub \<and> pl_pollId q \<noteq> pf_pollId p)
           (obj_values (scm_polls (cs_scm st))), ''SCM publication already has an active poll''),
        (case obj_get (scm_polls (cs_scm st)) (pf_pollId p) of
           Some prior \<Rightarrow> pl_state prior = PollStarted \<or> \<not> pollRetryOk prior pub runtime e p
         | None \<Rightarrow> pf_pollAttempt p \<noteq> 1, ''SCM poll is already active, or its attempt is wrong'')]) (\<lambda>_.
     Inr (setPoll (pf_pollId p)
        \<lparr>pl_pollId = pf_pollId p, pl_pollAttempt = pf_pollAttempt p, pl_publicationId = pub_publicationId pub,
         pl_publicationGeneration = pub_generation pub, pl_taskId = evTask e, pl_taskGeneration = evTaskGen e,
         pl_sessionId = rt_sessionId runtime, pl_sessionGeneration = rt_sessionGeneration runtime,
         pl_expectedHeadSha = pf_expectedHeadSha p, pl_pullRequest = po_pullRequest p, pl_guards = po_guards p,
         pl_forceFullRefresh = po_forceFullRefresh p, pl_limits = po_limits p, pl_state = PollStarted,
         pl_requestCount = None, pl_decodedBytes = None, pl_bucketOutcomes = None, pl_acceptedKinds = [],
         pl_failure = None, pl_nextEligibleAt = None, pl_startedAt = ev_occurredAt e, pl_startedSeq = ev_seq e,
         pl_terminalSeq = None\<rparr> st)))))))"

text \<open>The active poll a completion or failure names.\<close>

definition activePoll :: "ControlProjection \<Rightarrow> ControlEvent \<Rightarrow> 'a ScmPollRef_scheme \<Rightarrow> string + ScmPollFact" where
  "activePoll st e p =
     bind_res (require_some ''SCM poll is not active'' (obj_get (scm_polls (cs_scm st)) (pf_pollId p))) (\<lambda>poll.
     bind_res (checks
       [(pl_state poll \<noteq> PollStarted, ''SCM poll is not active''),
        (pl_pollAttempt poll \<noteq> pf_pollAttempt p \<or> pl_publicationId poll \<noteq> pf_publicationId p \<or>
         pl_publicationGeneration poll \<noteq> pf_publicationGeneration p \<or> pl_expectedHeadSha poll \<noteq> pf_expectedHeadSha p \<or>
         \<not> ownsTask (pl_taskId poll) (pl_taskGeneration poll) e, ''SCM poll identity mismatch'')]) (\<lambda>_. Inr poll))"

definition onPollCompleted :: "ControlPrims \<Rightarrow> ControlProjection \<Rightarrow> ControlEvent \<Rightarrow> ScmPollCompletedPayload \<Rightarrow> string + ControlProjection" where
  "onPollCompleted C st e p =
     bind_res (activePoll st e p) (\<lambda>poll.
     bind_res (checks
       [(pc_requestCount p > lm_maxItemsPerEndpoint (pl_limits poll) + lm_maxPagesPerEndpoint (pl_limits poll) * 16 + 16 \<or>
         pc_decodedBytes p > lm_maxDecodedBytesPerPoll (pl_limits poll), ''SCM poll exceeded its durable resource budget'')]) (\<lambda>_.
     let retryTimes = map (cx_dateParse C) (List.map_filter (\<lambda>out. Option.bind (bo_failure out) fl_nextEligibleAt) (pc_bucketOutcomes p)) in
     Inr (setPoll (pf_pollId p) (poll\<lparr>pl_state := PollCompleted, pl_requestCount := Some (pc_requestCount p),
        pl_decodedBytes := Some (pc_decodedBytes p), pl_bucketOutcomes := Some (pc_bucketOutcomes p),
        pl_nextEligibleAt := (case retryTimes of [] \<Rightarrow> None | t # ts \<Rightarrow> Some (cx_toISOString C (fold max ts t))),
        pl_terminalSeq := Some (ev_seq e)\<rparr>) st)))"

definition onPollFailed :: "ControlProjection \<Rightarrow> ControlEvent \<Rightarrow> ScmPollRef \<Rightarrow> ScmProviderFailure \<Rightarrow> string + ControlProjection" where
  "onPollFailed st e p failure =
     bind_res (activePoll st e p) (\<lambda>poll.
     bind_res (checks [(fl_retryable failure \<and> fl_nextEligibleAt failure = None,
                        ''retryable SCM poll failure requires durable next eligibility time'')]) (\<lambda>_.
     Inr (setPoll (pf_pollId p) (poll\<lparr>pl_state := PollFailed, pl_failure := Some failure,
        pl_nextEligibleAt := fl_nextEligibleAt failure, pl_terminalSeq := Some (ev_seq e)\<rparr>) st)))"

definition bucketKind :: "ScmAnyBucket \<Rightarrow> ScmBucketKind" where
  "bucketKind b = (case b of PullBucket _ \<Rightarrow> BkPullRequest | CiBucket _ \<Rightarrow> BkCi | ReviewBucket _ \<Rightarrow> BkReview
     | MergeBucket _ \<Rightarrow> BkMergeability)"

definition bucketMeta :: "ScmAnyBucket \<Rightarrow> ScmBucketMeta" where
  "bucketMeta b = (case b of PullBucket x \<Rightarrow> fb_meta x | CiBucket x \<Rightarrow> fb_meta x | ReviewBucket x \<Rightarrow> fb_meta x
     | MergeBucket x \<Rightarrow> fb_meta x)"

definition priorMeta :: "ScmBucketKind \<Rightarrow> ScmObservationBuckets \<Rightarrow> ScmBucketMeta option" where
  "priorMeta k b = (case k of BkPullRequest \<Rightarrow> map_option fb_meta (bk_pullRequest b)
     | BkCi \<Rightarrow> map_option fb_meta (bk_ci b) | BkReview \<Rightarrow> map_option fb_meta (bk_review b)
     | BkMergeability \<Rightarrow> map_option fb_meta (bk_mergeability b))"

definition storeBucket :: "ScmAnyBucket \<Rightarrow> ScmObservationBuckets \<Rightarrow> ScmObservationBuckets" where
  "storeBucket x b = (case x of PullBucket y \<Rightarrow> b\<lparr>bk_pullRequest := Some y\<rparr> | CiBucket y \<Rightarrow> b\<lparr>bk_ci := Some y\<rparr>
     | ReviewBucket y \<Rightarrow> b\<lparr>bk_review := Some y\<rparr> | MergeBucket y \<Rightarrow> b\<lparr>bk_mergeability := Some y\<rparr>)"

definition emptyBuckets :: ScmObservationBuckets where
  "emptyBuckets = \<lparr>bk_pullRequest = None, bk_ci = None, bk_review = None, bk_mergeability = None\<rparr>"

text \<open>The observation a bucket goes into: the one of this publication generation and head, or a fresh one.\<close>

definition currentObservation :: "ControlProjection \<Rightarrow> ControlEvent \<Rightarrow> ScmPublicationFact \<Rightarrow> ScmPollFact \<Rightarrow> ScmObservationFact" where
  "currentObservation st e pub poll =
     (let fresh = \<lparr>ob_publicationId = pub_publicationId pub, ob_publicationGeneration = pub_generation pub,
                   ob_taskId = evTask e, ob_taskGeneration = evTaskGen e, ob_headSha = pl_expectedHeadSha poll,
                   ob_buckets = emptyBuckets, ob_updatedSeq = ev_seq e\<rparr> in
      case obj_get (scm_observations (cs_scm st)) (pub_publicationId pub) of None \<Rightarrow> fresh
      | Some obs \<Rightarrow> if ob_publicationGeneration obs \<noteq> pub_generation pub \<or> ob_headSha obs \<noteq> pl_expectedHeadSha poll
          then fresh else obs)"

definition acceptError :: "ScmBucketAcceptedPayload \<Rightarrow> ScmBucketMeta option \<Rightarrow> bool" where
  "acceptError p previous =
     (let m = bucketMeta (ba_bucket p) in
      if ba_decision p = AcceptNew then previous \<noteq> None \<or> ba_previousSemanticHash p \<noteq> None
      else (case previous of None \<Rightarrow> True
        | Some pm \<Rightarrow> ba_previousSemanticHash p \<noteq> Some (bm_semanticHash pm) \<or>
            ba_decision p = AcceptChanged \<and> bm_semanticHash pm = bm_semanticHash m \<or>
            ba_decision p = AcceptRefresh \<and> bm_semanticHash pm \<noteq> bm_semanticHash m \<or>
            ba_decision p = AcceptMergedPartial \<and> (bm_completeness pm \<noteq> Complete \<or> bm_completeness m \<noteq> Partial)))"

definition onBucketAccepted :: "ControlProjection \<Rightarrow> ControlEvent \<Rightarrow> ScmBucketAcceptedPayload \<Rightarrow> string + ControlProjection" where
  "onBucketAccepted st e p =
     bind_res (assertTask st (evTask e) (evTaskGen e)) (\<lambda>_.
     bind_res (assertScmPublication st (ba_publicationId p) (ba_publicationGeneration p)) (\<lambda>pub.
     bind_res (require_some ''SCM accepted bucket has no matching completed poll'' (obj_get (scm_polls (cs_scm st)) (ba_pollId p))) (\<lambda>poll.
     let kind = bucketKind (ba_bucket p); m = bucketMeta (ba_bucket p); obs = currentObservation st e pub poll in
     bind_res (checks
       [(pl_state poll \<noteq> PollCompleted \<or> pl_publicationId poll \<noteq> pub_publicationId pub \<or>
         pl_publicationGeneration poll \<noteq> pub_generation pub \<or> \<not> ownsTask (pl_taskId poll) (pl_taskGeneration poll) e,
         ''SCM accepted bucket has no matching completed poll''),
        (kind \<in> set (pl_acceptedKinds poll), ''SCM poll already accepted this kind''),
        (case find (\<lambda>out. bo_kind out = kind) (case pl_bucketOutcomes poll of None \<Rightarrow> [] | Some xs \<Rightarrow> xs) of
           None \<Rightarrow> True
         | Some out \<Rightarrow> bo_decision out \<noteq> ba_decision p \<or> bo_semanticHash out \<noteq> Some (bm_semanticHash m),
         ''SCM bucket disagrees with poll outcome''),
        (bm_observedHeadSha m \<noteq> pl_expectedHeadSha poll, ''SCM bucket observed a different head''),
        (acceptError p (priorMeta kind (ob_buckets obs)), ''SCM bucket decision contradicts prior facts''),
        (case ba_bucket p of PullBucket b \<Rightarrow> \<not> pullMatchesPublication pub (fb_facts b) \<or>
            Some (pullIdentityValue (fb_facts b)) \<noteq> map_option pullIdentityValue (pub_pullRequest pub)
         | _ \<Rightarrow> False, ''SCM observed pull request identity changed'')]) (\<lambda>_.
     Inr (setPoll (ba_pollId p) (poll\<lparr>pl_acceptedKinds := pl_acceptedKinds poll @ [kind]\<rparr>)
       (setObservation (pub_publicationId pub)
         (obs\<lparr>ob_buckets := storeBucket (ba_bucket p) (ob_buckets obs), ob_updatedSeq := ev_seq e\<rparr>) st))))))"

section \<open>Reactions\<close>

definition reactionActive :: "ScmReactionFact \<Rightarrow> bool" where
  "reactionActive r \<longleftrightarrow> rx_state r \<notin> {RxObservationResolved, RxSuperseded, RxRefused}"

text \<open>The evidence of a reaction is the accepted CI failure, or unresolved selected review evidence.\<close>

definition reactionEvidenceOk :: "ScmObservationFact \<Rightarrow> ScmReactionCreatedPayload \<Rightarrow> bool" where
  "reactionEvidenceOk obs p =
     (case rc_factKind p of
        FactCi \<Rightarrow> (case bk_ci (ob_buckets obs) of None \<Rightarrow> False
          | Some b \<Rightarrow> ci_state (fb_facts b) = CiFailing \<and>
              (case ci_failureFingerprint (fb_facts b) of None \<Rightarrow> False | Some fp \<Rightarrow> rc_evidenceRefs p = [fp]))
      | FactReview \<Rightarrow> (case bk_review (ob_buckets obs) of None \<Rightarrow> False
          | Some b \<Rightarrow> set (rc_evidenceRefs p) \<subseteq> set (rv_unresolvedSelectedEvidenceIds (fb_facts b))))"

definition onReactionCreated :: "ControlPrims \<Rightarrow> ControlProjection \<Rightarrow> ControlEvent \<Rightarrow> ScmReactionCreatedPayload \<Rightarrow> string + ControlProjection" where
  "onReactionCreated C st e p =
     bind_res (assertTask st (evTask e) (evTaskGen e)) (\<lambda>task.
     bind_res (checks [(taskTerminal task, ''terminal task cannot create an SCM reaction'')]) (\<lambda>_.
     bind_res (assertSession st (rc_sessionId p) (rc_sessionGeneration p)) (\<lambda>runtime.
     bind_res (checks [(\<not> assignedTo runtime e, ''session is not assigned to SCM reaction task'')]) (\<lambda>_.
     bind_res (assertScmPublication st (rc_publicationId p) (rc_publicationGeneration p)) (\<lambda>pub.
     bind_res (checks
       [(pub_state pub \<noteq> Published \<or> \<not> ownsTask (pub_taskId pub) (pub_taskGeneration pub) e \<or>
         in_integrationOid (pub_intent pub) \<noteq> rc_headSha p, ''SCM reaction publication/head target mismatch''),
        (obj_has (scm_reactions (cs_scm st)) (rc_reactionKey p), ''SCM reaction already exists''),
        (list_ex (\<lambda>r. rx_commandId r = rc_commandId p) (obj_values (scm_reactions (cs_scm st))),
         ''SCM reaction command already exists'')]) (\<lambda>_.
     bind_res (require_some ''SCM reaction has no accepted observation'' (obj_get (scm_observations (cs_scm st)) (pub_publicationId pub))) (\<lambda>obs.
     bind_res (checks
       [(ob_publicationGeneration obs \<noteq> pub_generation pub \<or> ob_headSha obs \<noteq> rc_headSha p \<or>
         \<not> reactionEvidenceOk obs p, ''SCM reaction evidence'')]) (\<lambda>_.
     bind_res (expectedReactionKey C pub (rc_headSha p) (rc_factKind p) (rc_evidenceRefs p)) (\<lambda>key.
     bind_res (checks
       [(rc_reactionKey p \<noteq> key, ''SCM reaction key disagrees with its durable identity''),
        (list_ex (\<lambda>r. rx_publicationId r = pub_publicationId pub \<and> rx_factKind r = rc_factKind p \<and> reactionActive r)
           (obj_values (scm_reactions (cs_scm st))), ''an SCM reaction is still active'')]) (\<lambda>_.
     Inr (setReaction (rc_reactionKey p)
        \<lparr>rx_reactionKey = rc_reactionKey p, rx_publicationId = pub_publicationId pub,
         rx_publicationGeneration = pub_generation pub, rx_taskId = evTask e, rx_taskGeneration = evTaskGen e,
         rx_headSha = rc_headSha p, rx_factKind = rc_factKind p, rx_evidenceRefs = rc_evidenceRefs p,
         rx_commandId = rc_commandId p, rx_sessionId = rt_sessionId runtime,
         rx_sessionGeneration = rt_sessionGeneration runtime,
         rx_notBeforeAttemptGeneration = rc_notBeforeAttemptGeneration p,
         rx_supersedesCommandId = rc_supersedesCommandId p, rx_previewSha256 = rc_previewSha256 p,
         rx_preview = rc_preview p, rx_state = RxPending, rx_version = 0, rx_steeringSeq = None,
         rx_reasonCode = None, rx_observationSemanticHash = None, rx_createdSeq = ev_seq e,
         rx_updatedSeq = ev_seq e\<rparr> st)))))))))))"

text \<open>A reaction follows its steering command: each step needs the command in the matching state.\<close>

definition reactionFollows :: "SteeringFact option \<Rightarrow> ScmReactionTransitionedPayload \<Rightarrow> bool" where
  "reactionFollows command p =
     (case rr_toState p of
        RxCommandAdmitted \<Rightarrow> (case command of None \<Rightarrow> False
          | Some c \<Rightarrow> sf_status c = SPending \<and> sf_admittedSeq c = rr_steeringSeq p)
      | RxIncluded \<Rightarrow> (case command of None \<Rightarrow> False
          | Some c \<Rightarrow> sf_status c = SIncluded \<and> sf_terminalSeq c = rr_steeringSeq p)
      | RxRefused \<Rightarrow> (case command of None \<Rightarrow> True
          | Some c \<Rightarrow> sf_status c = SRefused \<and> sf_terminalSeq c = rr_steeringSeq p)
      | _ \<Rightarrow> True)"

definition onReactionTransitioned :: "ControlProjection \<Rightarrow> ControlEvent \<Rightarrow> ScmReactionTransitionedPayload \<Rightarrow> string + ControlProjection" where
  "onReactionTransitioned st e p =
     bind_res (require_some ''SCM reaction does not exist'' (obj_get (scm_reactions (cs_scm st)) (rr_reactionKey p))) (\<lambda>r.
     bind_res (checks
       [(\<not> ownsTask (rx_taskId r) (rx_taskGeneration r) e \<or> rx_commandId r \<noteq> rr_commandId p, ''SCM reaction target mismatch''),
        (rx_version r \<noteq> rr_reactionVersion p \<or> rx_state r \<noteq> rr_fromState p, ''SCM reaction state/version fence is stale''),
        (rr_toState p \<notin> set (scmReactionTransitions (rx_state r)), ''illegal SCM reaction transition''),
        (\<not> reactionFollows (obj_get (cs_steering st) (rx_commandId r)) p, ''SCM reaction disagrees with its steering command''),
        (rr_toState p \<in> {RxFailedRetryable, RxSuperseded, RxRefused} \<and> rr_reasonCode p = None, ''SCM reaction transition requires a reason''),
        ((rr_toState p = RxObservationResolved) \<noteq> (rr_observationSemanticHash p \<noteq> None),
         ''SCM observation resolution requires exactly one semantic hash'')]) (\<lambda>_.
     Inr (setReaction (rr_reactionKey p) (r\<lparr>rx_state := rr_toState p, rx_version := rx_version r + 1,
        rx_updatedSeq := ev_seq e, rx_steeringSeq := rr_steeringSeq p, rx_reasonCode := rr_reasonCode p,
        rx_observationSemanticHash := rr_observationSemanticHash p\<rparr>) st)))"

section \<open>The reducer\<close>

definition applyBody :: "ControlPrims \<Rightarrow> ControlProjection \<Rightarrow> ControlEvent \<Rightarrow> string + ControlProjection" where
  "applyBody C st e = (case ev_body e of
     EvRunStarted by goal cfg \<Rightarrow> onRunStarted st e by goal cfg
   | EvRunCompleted summary \<Rightarrow> onRunTerminal st e (\<lambda>r. r\<lparr>run_status := RunCompleted, run_summary := summary\<rparr>)
   | EvRunFailed code summary \<Rightarrow> onRunTerminal st e (\<lambda>r. r\<lparr>run_status := RunFailed, run_reasonCode := Some code, run_summary := summary\<rparr>)
   | EvRunCancelled by reason \<Rightarrow> onRunTerminal st e (\<lambda>r. r\<lparr>run_status := RunCancelled, run_cancelledBy := Some by, run_summary := reason\<rparr>)
   | EvRunCheckpointed p \<Rightarrow> onRunCheckpointed C st e p
   | EvTaskCreated p \<Rightarrow> onTaskCreated st e p
   | EvTaskReopened g reason \<Rightarrow> onTaskReopened st e g reason
   | EvTaskStatusChanged role s summary \<Rightarrow> onTaskStatusChanged st e role s summary
   | EvMessagePosted i frm to body \<Rightarrow> onMessagePosted st e i frm to body
   | EvRuntimeObserved p \<Rightarrow> onRuntimeObserved st e p
   | EvAttemptPrepared p \<Rightarrow> onAttemptPrepared st e p
   | EvAttemptLaunchPlanned p l \<Rightarrow> onAttemptLaunchPlanned st e p l
   | EvAttemptStarted p l pid tok \<Rightarrow> onAttemptStarted st e p l pid tok
   | EvAttemptExited p out code summary \<Rightarrow> onAttemptExited st e p out code summary
   | EvAttemptAbandoned p reason summary \<Rightarrow> onAttemptAbandoned st e p reason summary
   | EvSteeringAdmitted p \<Rightarrow> onSteeringAdmitted st e p
   | EvSteeringRefused p \<Rightarrow> onSteeringRefused st e p
   | EvSteeringTerminalRefused p \<Rightarrow> onSteeringTerminalRefused st e p
   | EvSteeringIncluded p a g sha \<Rightarrow> onSteeringIncluded st e p a sha
   | EvSteeringWithdrawn p _ \<Rightarrow> onSteeringClosed st e p SWithdrawn None
   | EvSteeringSuperseded p by \<Rightarrow> onSteeringClosed st e p SSuperseded (Some by)
   | EvSteeringExpired p \<Rightarrow> onSteeringClosed st e p SExpired None
   | EvPublicationRecorded i \<Rightarrow> onPublicationRecorded st e i
   | EvPublicationStateChanged p \<Rightarrow> onPublicationStateChanged st e p
   | EvPollStarted p \<Rightarrow> onPollStarted st e p
   | EvPollCompleted p \<Rightarrow> onPollCompleted C st e p
   | EvPollFailed p failure \<Rightarrow> onPollFailed st e p failure
   | EvBucketAccepted p \<Rightarrow> onBucketAccepted st e p
   | EvReactionCreated p \<Rightarrow> onReactionCreated C st e p
   | EvReactionTransitioned p \<Rightarrow> onReactionTransitioned st e p)"

definition actualVersion :: "ControlProjection \<Rightarrow> string \<Rightarrow> nat" where
  "actualVersion st key = (case obj_get (cs_aggregateVersions st) key of None \<Rightarrow> 0 | Some a \<Rightarrow> ag_version a)"

definition stampEvent :: "ControlAggregate \<Rightarrow> ControlEvent \<Rightarrow> ControlProjection \<Rightarrow> ControlProjection" where
  "stampEvent agg e st = st\<lparr>
     cs_aggregateVersions := obj_set (agg_key agg) \<lparr>ag_kind = agg_kind agg, ag_id = agg_id agg,
        ag_generation = agg_generation agg, ag_version = ev_expectedVersion e + 1, ag_updatedSeq = ev_seq e\<rparr>
        (cs_aggregateVersions st),
     cs_headSeq := ev_seq e\<rparr>"

definition applyControlEvent :: "ControlPrims \<Rightarrow> ControlProjection \<Rightarrow> ControlEvent \<Rightarrow> string + ControlProjection" where
  "applyControlEvent C current e =
     bind_res (assertControlEventScope e) (\<lambda>_.
     bind_res (checks [(ev_runId e \<noteq> cs_runId current \<or> ev_runEpoch e \<noteq> cs_runEpoch current,
                        ''event run identity does not match projection''),
                       (ev_seq e \<noteq> cs_headSeq current + 1, ''non-contiguous event sequence'')]) (\<lambda>_.
     bind_res (aggregateForEvent e) (\<lambda>agg.
     bind_res (checks [(ev_expectedVersion e \<noteq> actualVersion current (agg_key agg), ''aggregate version'')]) (\<lambda>_.
     bind_res (applyBody C current e) (\<lambda>st.
     Inr (stampEvent agg e st))))))"

definition reduceControlEvents :: "ControlPrims \<Rightarrow> string \<Rightarrow> string \<Rightarrow> ControlEvent list \<Rightarrow> ControlProjection option \<Rightarrow> string + ControlProjection" where
  "reduceControlEvents C runId runEpoch events initial =
     fold_res (applyControlEvent C) (case initial of None \<Rightarrow> emptyControlProjection runId runEpoch | Some st \<Rightarrow> st) events"

section \<open>Activity of a session\<close>

datatype ActivityState = ActIdle | ActWaitingInput | ActDispatching | ActActive | ActSettling | ActBlocked | ActExited

text \<open>The attempts of a session generation, latest attempt generation first.\<close>

definition latestAttempt :: "ControlProjection \<Rightarrow> string \<Rightarrow> nat \<Rightarrow> AttemptFact option" where
  "latestAttempt st sessionId generation =
     (case sort_key (\<lambda>a. - int (a_attemptGeneration a))
        (filter (\<lambda>a. a_sessionId a = sessionId \<and> a_sessionGeneration a = generation) (obj_values (cs_attempts st))) of
        [] \<Rightarrow> None | a # _ \<Rightarrow> Some a)"

definition deriveState :: "ControlProjection \<Rightarrow> string \<Rightarrow> ActivityState" where
  "deriveState st sessionId =
     (if (case cs_run st of None \<Rightarrow> False | Some r \<Rightarrow> run_status r \<noteq> RunStarted) then ActExited
      else case obj_get (cs_runtimes st) sessionId of None \<Rightarrow> ActIdle
        | Some rt \<Rightarrow>
            let task = (case rt_taskId rt of None \<Rightarrow> None | Some t \<Rightarrow> if t = [] then None else obj_get (cs_tasks st) t);
                status = map_option t_status task;
                latest = latestAttempt st sessionId (rt_sessionGeneration rt) in
            if (case task of None \<Rightarrow> False | Some t \<Rightarrow> Some (t_generation t) \<noteq> rt_taskGeneration rt) then ActIdle
            else if rt_observation rt = ObsExited then ActExited
            else if rt_observation rt = ObsBlocked then ActBlocked
            else if status = Some TEscalated \<or> status = Some TDone then ActExited
            else if status = Some TBlocked then ActBlocked
            else if map_option a_state latest = Some Prepared then ActDispatching
            else if map_option a_state latest = Some Active then ActActive
            else if (case latest of None \<Rightarrow> False
               | Some a \<Rightarrow> (a_state a = Exited \<or> a_state a = Abandoned) \<and> task \<noteq> None \<and>
                   \<not> (rt_observation rt = WaitingInput \<and>
                      (case (if a_state a = Exited then a_exitedSeq a else a_abandonedSeq a) of
                         None \<Rightarrow> False | Some s \<Rightarrow> rt_updatedSeq rt > s))) then ActSettling
            else if rt_observation rt = WaitingInput then ActWaitingInput
            else ActIdle)"

end
