(* ===== verification/Control_Frame.thy ===== *)
theory Control_Frame
  imports Control
begin

text \<open>
  Frame lemmas of the control reducer: what an accepted event leaves alone. An event writes one part of the
  projection besides the stamp of its sequence number and aggregate version; \<open>touches\<close> says which, and the
  elimination rules list the events of each part.
\<close>

section \<open>One event at a time\<close>

lemma applyControlEvent_body:
  "applyControlEvent C st e = Inr st' \<Longrightarrow>
     \<exists>agg st1. aggregateForEvent e = Inr agg \<and> applyBody C st e = Inr st1 \<and> st' = stampEvent agg e st1 \<and>
       ev_seq e = Suc (cs_headSeq st) \<and> ev_expectedVersion e = actualVersion st (agg_key agg) \<and>
       ev_runId e = cs_runId st \<and> ev_runEpoch e = cs_runEpoch st \<and> assertControlEventScope e = Inr ()"
  by (auto simp: applyControlEvent_def)

lemma stampEvent_fields [simp]:
  "cs_runId (stampEvent agg e st) = cs_runId st" "cs_runEpoch (stampEvent agg e st) = cs_runEpoch st"
  "cs_headSeq (stampEvent agg e st) = ev_seq e" "cs_run (stampEvent agg e st) = cs_run st"
  "cs_tasks (stampEvent agg e st) = cs_tasks st" "cs_messages (stampEvent agg e st) = cs_messages st"
  "cs_runtimes (stampEvent agg e st) = cs_runtimes st" "cs_attempts (stampEvent agg e st) = cs_attempts st"
  "cs_steering (stampEvent agg e st) = cs_steering st" "cs_scm (stampEvent agg e st) = cs_scm st"
  by (simp_all add: stampEvent_def)

text \<open>Which field of the projection an event may write.\<close>

datatype Touched = ToRun | ToTasks | ToMessages | ToRuntimes | ToAttempts | ToSteering | ToScm

definition touches :: "ControlEventBody \<Rightarrow> Touched" where
  "touches b = (case eventFamily b of FamRun \<Rightarrow> ToRun | FamTask \<Rightarrow> ToTasks | FamMessage \<Rightarrow> ToMessages
     | FamRuntime \<Rightarrow> ToRuntimes | FamAttempt \<Rightarrow> ToAttempts | FamSteering \<Rightarrow> ToSteering | FamScm \<Rightarrow> ToScm)"

lemmas handler_defs =
  onRunStarted_def onRunTerminal_def onRunCheckpointed_def onTaskCreated_def onTaskStatusChanged_def
  onTaskReopened_def onMessagePosted_def onRuntimeObserved_def onAttemptPrepared_def onAttemptLaunchPlanned_def
  onAttemptStarted_def onAttemptExited_def onAttemptAbandoned_def onSteeringAdmitted_def onSteeringRefused_def
  onSteeringTerminalRefused_def onSteeringIncluded_def onSteeringClosed_def onPublicationRecorded_def
  onPublicationStateChanged_def onPollStarted_def onPollCompleted_def onPollFailed_def onBucketAccepted_def
  onReactionCreated_def onReactionTransitioned_def setTask_def setAttempt_def setSteering_def setPublication_def
  setPoll_def setObservation_def setReaction_def

lemma body_shape:
  assumes "applyBody C st e = Inr st'"
  shows "case touches (ev_body e) of ToRun \<Rightarrow> \<exists>x. st' = st\<lparr>cs_run := x\<rparr>
    | ToTasks \<Rightarrow> \<exists>x y. st' = st\<lparr>cs_tasks := x, cs_aggregateVersions := y\<rparr>
    | ToMessages \<Rightarrow> \<exists>x. st' = st\<lparr>cs_messages := x\<rparr>
    | ToRuntimes \<Rightarrow> \<exists>x. st' = st\<lparr>cs_runtimes := x\<rparr>
    | ToAttempts \<Rightarrow> \<exists>x. st' = st\<lparr>cs_attempts := x\<rparr>
    | ToSteering \<Rightarrow> \<exists>x. st' = st\<lparr>cs_steering := x\<rparr>
    | ToScm \<Rightarrow> \<exists>x. st' = st\<lparr>cs_scm := x\<rparr>"
proof -
  have keep: "st\<lparr>cs_tasks := x\<rparr> = st\<lparr>cs_tasks := x, cs_aggregateVersions := cs_aggregateVersions st\<rparr>" for x by simp
  show ?thesis
    using assms
    by (cases "ev_body e")
       (clarsimp simp: applyBody_def touches_def eventFamily_def handler_defs Let_def simp del: ball_simps; blast intro: keep)+
qed

lemma body_frame:
  assumes "applyBody C st e = Inr st'"
  shows "cs_runId st' = cs_runId st \<and> cs_runEpoch st' = cs_runEpoch st \<and> cs_headSeq st' = cs_headSeq st \<and>
    (touches (ev_body e) \<noteq> ToRun \<longrightarrow> cs_run st' = cs_run st) \<and>
    (touches (ev_body e) \<noteq> ToTasks \<longrightarrow> cs_tasks st' = cs_tasks st \<and> cs_aggregateVersions st' = cs_aggregateVersions st) \<and>
    (touches (ev_body e) \<noteq> ToMessages \<longrightarrow> cs_messages st' = cs_messages st) \<and>
    (touches (ev_body e) \<noteq> ToRuntimes \<longrightarrow> cs_runtimes st' = cs_runtimes st) \<and>
    (touches (ev_body e) \<noteq> ToAttempts \<longrightarrow> cs_attempts st' = cs_attempts st) \<and>
    (touches (ev_body e) \<noteq> ToSteering \<longrightarrow> cs_steering st' = cs_steering st) \<and>
    (touches (ev_body e) \<noteq> ToScm \<longrightarrow> cs_scm st' = cs_scm st)"
  using body_shape [OF assms] by (cases "touches (ev_body e)") auto

lemma applyControlEvent_frame:
  assumes "applyControlEvent C st e = Inr st'"
  shows "cs_runId st' = cs_runId st \<and> cs_runEpoch st' = cs_runEpoch st \<and> cs_headSeq st' = ev_seq e \<and>
    ev_seq e = Suc (cs_headSeq st)"
  using applyControlEvent_body [OF assms] body_frame by fastforce

interpretation control: sequenced_fold "applyControlEvent C" cs_headSeq ev_seq for C
  by unfold_locales (simp add: applyControlEvent_frame)

lemma untouched:
  assumes "applyControlEvent C st e = Inr st'"
  shows "touches (ev_body e) \<noteq> ToRun \<Longrightarrow> cs_run st' = cs_run st"
    "touches (ev_body e) \<noteq> ToTasks \<Longrightarrow> cs_tasks st' = cs_tasks st"
    "touches (ev_body e) \<noteq> ToMessages \<Longrightarrow> cs_messages st' = cs_messages st"
    "touches (ev_body e) \<noteq> ToRuntimes \<Longrightarrow> cs_runtimes st' = cs_runtimes st"
    "touches (ev_body e) \<noteq> ToAttempts \<Longrightarrow> cs_attempts st' = cs_attempts st"
    "touches (ev_body e) \<noteq> ToSteering \<Longrightarrow> cs_steering st' = cs_steering st"
    "touches (ev_body e) \<noteq> ToScm \<Longrightarrow> cs_scm st' = cs_scm st"
proof -
  obtain agg st1 where b: "applyBody C st e = Inr st1" "st' = stampEvent agg e st1"
    using applyControlEvent_body [OF assms] by blast
  note fr = body_frame [OF b(1)]
  show "touches (ev_body e) \<noteq> ToRun \<Longrightarrow> cs_run st' = cs_run st"
    "touches (ev_body e) \<noteq> ToTasks \<Longrightarrow> cs_tasks st' = cs_tasks st"
    "touches (ev_body e) \<noteq> ToMessages \<Longrightarrow> cs_messages st' = cs_messages st"
    "touches (ev_body e) \<noteq> ToRuntimes \<Longrightarrow> cs_runtimes st' = cs_runtimes st"
    "touches (ev_body e) \<noteq> ToAttempts \<Longrightarrow> cs_attempts st' = cs_attempts st"
    "touches (ev_body e) \<noteq> ToSteering \<Longrightarrow> cs_steering st' = cs_steering st"
    "touches (ev_body e) \<noteq> ToScm \<Longrightarrow> cs_scm st' = cs_scm st"
    using fr b(2) by simp_all
qed

lemma touches_run:
  assumes "touches b = ToRun"
  obtains x y z where "b = EvRunStarted x y z" | x where "b = EvRunCompleted x" | x y where "b = EvRunFailed x y" | x y where "b = EvRunCancelled x y" | x where "b = EvRunCheckpointed x"
  using assms by (cases b) (auto simp: touches_def eventFamily_def)

lemma touches_tasks:
  assumes "touches b = ToTasks"
  obtains p where "b = EvTaskCreated p" | g r where "b = EvTaskReopened g r" | r s m where "b = EvTaskStatusChanged r s m"
  using assms by (cases b) (auto simp: touches_def eventFamily_def)

lemma touches_attempts:
  assumes "touches b = ToAttempts"
  obtains p where "b = EvAttemptPrepared p" | q l where "b = EvAttemptLaunchPlanned q l" | q l i k where "b = EvAttemptStarted q l i k" | q u c m where "b = EvAttemptExited q u c m" | q r m where "b = EvAttemptAbandoned q r m"
  using assms by (cases b) (auto simp: touches_def eventFamily_def)

lemma touches_steering:
  assumes "touches b = ToSteering"
  obtains p where "b = EvSteeringAdmitted p" | r where "b = EvSteeringRefused r" | q where "b = EvSteeringTerminalRefused q" | t a g h where "b = EvSteeringIncluded t a g h" | t m where "b = EvSteeringWithdrawn t m" | t m where "b = EvSteeringSuperseded t m" | t where "b = EvSteeringExpired t"
  using assms by (cases b) (auto simp: touches_def eventFamily_def)

lemma touches_scm:
  assumes "touches b = ToScm"
  obtains i where "b = EvPublicationRecorded i" | p where "b = EvPublicationStateChanged p" | q where "b = EvPollStarted q" | c where "b = EvPollCompleted c" | f g where "b = EvPollFailed f g" | b' where "b = EvBucketAccepted b'" | r where "b = EvReactionCreated r" | t where "b = EvReactionTransitioned t"
  using assms by (cases b) (auto simp: touches_def eventFamily_def)

end
