(* ===== verification/Control_Props.thy ===== *)
theory Control_Props
  imports Control_Frame
begin

text \<open>
  What every accepted history of control events satisfies: contiguity and snapshot replay, the version
  fence, finality of terminal facts, the life cycle of tasks, attempts, steering commands, publications,
  polls and reactions.

  Each group has one lemma that says how an event can change its part of the projection
  (\<open>tasks_step\<close>, \<open>attempts_step\<close>, \<open>steering_step\<close>, \<open>publications_step\<close>, \<open>polls_step\<close>, \<open>reactions_step\<close>); the
  invariants follow from these, and the histories from the locales \<open>event_fold\<close>, \<open>sequenced_fold\<close> and
  \<open>sticky_fold\<close>.
\<close>

section \<open>How an event changes each part\<close>

definition task_change :: "TaskFact \<Rightarrow> TaskFact \<Rightarrow> bool" where
  "task_change t t' \<longleftrightarrow>
     t_generation t' = t_generation t \<and> (t_status t' = t_status t \<or> t_status t' \<in> set (allowedTransitions (t_status t))) \<or>
     t_generation t' = Suc (t_generation t) \<and> taskTerminal t \<and> t_status t' = TOpen \<and> t_claimedBy t' = None"

lemma tasks_step:
  assumes "applyControlEvent C st e = Inr st'"
  shows "obj_change (\<lambda>k old t'. k = evTask e \<and> (case old of None \<Rightarrow> t_status t' = TOpen \<and> t_generation t' = evTaskGen e
        | Some t \<Rightarrow> task_change t t' \<and> t_generation t = evTaskGen e)) (cs_tasks st) (cs_tasks st')"
proof (cases "touches (ev_body e) = ToTasks")
  case True
  obtain agg st1 where b: "applyBody C st e = Inr st1" "st' = stampEvent agg e st1"
    using applyControlEvent_body [OF assms] by blast
  from True show ?thesis
  proof (cases rule: touches_tasks)
    case (1 p)
    then show ?thesis using b
      by (auto simp: applyBody_def onTaskCreated_def setTask_def obj_has_def intro!: obj_changeI)
  next
    case (2 g r)
    then obtain t t' where "obj_get (cs_tasks st) (evTask e) = Some t" "t_generation t = evTaskGen e" "taskTerminal t"
        "cs_tasks st' = obj_set (evTask e) t' (cs_tasks st)" "t_generation t' = Suc (t_generation t)"
        "t_status t' = TOpen" "t_claimedBy t' = None"
      using b by (auto simp: applyBody_def onTaskReopened_def assertTask_def split: if_splits)
    then show ?thesis by (auto simp: task_change_def intro!: obj_changeI)
  next
    case (3 role s m)
    then obtain t t' where "obj_get (cs_tasks st) (evTask e) = Some t" "t_generation t = evTaskGen e"
        "cs_tasks st' = obj_set (evTask e) t' (cs_tasks st)" "t_generation t' = t_generation t" "t_status t' = s"
        "s = t_status t \<or> s \<in> set (allowedTransitions (t_status t))"
      using b by (auto simp: applyBody_def onTaskStatusChanged_def assertTask_def split: if_splits)
    then show ?thesis by (auto simp: task_change_def intro!: obj_changeI)
  qed
qed (simp add: untouched [OF assms])

text \<open>The states of an attempt an event moves between, with what the event writes.\<close>

definition attempt_change :: "nat \<Rightarrow> AttemptFact \<Rightarrow> AttemptFact \<Rightarrow> bool" where
  "attempt_change n a a' \<longleftrightarrow>
     a_state a = Prepared \<and> a_launchId a = None \<and> a_launchId a' \<noteq> None \<and>
       a' = a\<lparr>a_launchId := a_launchId a', a_launchPlannedSeq := Some n\<rparr> \<or>
     a_state a = Prepared \<and> a_launchId a \<noteq> None \<and> a_launchPlannedSeq a \<noteq> None \<and>
       a' = a\<lparr>a_state := Active, a_pid := a_pid a', a_processStartToken := a_processStartToken a', a_startedSeq := Some n\<rparr> \<or>
     a_state a = Active \<and>
       a' = a\<lparr>a_state := Exited, a_outcome := a_outcome a', a_exitCode := a_exitCode a', a_summary := a_summary a',
              a_exitedSeq := Some n\<rparr> \<or>
     a_state a = Prepared \<and>
       a' = a\<lparr>a_state := Abandoned, a_abandonReason := a_abandonReason a', a_summary := a_summary a', a_abandonedSeq := Some n\<rparr>"

definition attempt_new :: "ControlProjection \<Rightarrow> ControlEvent \<Rightarrow> string \<Rightarrow> AttemptFact \<Rightarrow> bool" where
  "attempt_new st e k a \<longleftrightarrow> a_attemptId a = k \<and> a_attemptGeneration a = nextAttemptGeneration st e \<and>
     a_taskId a = evTask e \<and> a_taskGeneration a = evTaskGen e \<and> a_state a = Prepared \<and>
     a_preparedSeq a = ev_seq e \<and> a_launchId a = None \<and> a_launchPlannedSeq a = None \<and> a_startedSeq a = None \<and>
     a_exitedSeq a = None \<and> a_abandonedSeq a = None"

lemma attempts_step:
  assumes "applyControlEvent C st e = Inr st'"
  shows "obj_change (\<lambda>k old a'. case old of None \<Rightarrow> attempt_new st e k a' | Some a \<Rightarrow> attempt_change (ev_seq e) a a')
    (cs_attempts st) (cs_attempts st')"
proof (cases "touches (ev_body e) = ToAttempts")
  case True
  obtain agg st1 where b: "applyBody C st e = Inr st1" "st' = stampEvent agg e st1"
    using applyControlEvent_body [OF assms] by blast
  note defs = applyBody_def onAttemptPrepared_def onAttemptLaunchPlanned_def onAttemptStarted_def onAttemptExited_def
    onAttemptAbandoned_def attemptIn_def setAttempt_def attempt_change_def attempt_new_def obj_has_def
  from True show ?thesis
    by (cases rule: touches_attempts) (use b in \<open>auto simp: defs split: if_splits intro!: obj_changeI\<close>)
qed (simp add: untouched [OF assms])

definition run_change :: "RunFact option \<Rightarrow> RunFact option \<Rightarrow> bool" where
  "run_change r r' \<longleftrightarrow> r' = r \<or>
     (case (r, r') of (None, Some y) \<Rightarrow> run_status y = RunStarted
      | (Some x, Some y) \<Rightarrow> run_status x = RunStarted \<and> run_startedAt y = run_startedAt x \<and> run_startedBy y = run_startedBy x
      | _ \<Rightarrow> False)"

lemma run_step:
  assumes "applyControlEvent C st e = Inr st'"
  shows "run_change (cs_run st) (cs_run st')"
proof (cases "touches (ev_body e) = ToRun")
  case True
  obtain agg st1 where b: "applyBody C st e = Inr st1" "st' = stampEvent agg e st1"
    using applyControlEvent_body [OF assms] by blast
  from True show ?thesis
    by (cases rule: touches_run)
       (use b in \<open>auto simp: applyBody_def onRunStarted_def onRunTerminal_def onRunCheckpointed_def run_change_def\<close>)
qed (simp add: untouched [OF assms] run_change_def)

text \<open>A steering command is created pending or refused, and leaves the pending state once.\<close>

definition steering_change :: "ControlProjection \<Rightarrow> nat \<Rightarrow> string \<Rightarrow> SteeringFact option \<Rightarrow> SteeringFact \<Rightarrow> bool" where
  "steering_change st n k old c' \<longleftrightarrow>
     (case old of
        None \<Rightarrow> sf_commandId c' = k \<and> (sf_status c' = SPending \<and> sf_admittedSeq c' = Some n \<and> sf_terminalSeq c' = None \<or>
                 sf_status c' = SRefused \<and> sf_terminalSeq c' = Some n)
      | Some c \<Rightarrow> sf_status c = SPending \<and> sf_status c' \<noteq> SPending \<and> sf_terminalSeq c' = Some n \<and>
          sf_commandId c' = sf_commandId c \<and> sf_body c' = sf_body c \<and> sf_bodySha256 c' = sf_bodySha256 c \<and>
          sf_taskId c' = sf_taskId c \<and> sf_taskGeneration c' = sf_taskGeneration c \<and> sf_sessionId c' = sf_sessionId c \<and>
          sf_sessionGeneration c' = sf_sessionGeneration c \<and> sf_admittedSeq c' = sf_admittedSeq c \<and>
          (sf_status c' = SIncluded \<longrightarrow>
             (\<exists>i a. obj_get (cs_attempts st) i = Some a \<and> a_state a = Prepared \<and> sf_commandId c \<in> set (a_steeringCommandIds a) \<and>
                sf_attemptId c' = Some (a_attemptId a) \<and> sf_attemptGeneration c' = Some (a_attemptGeneration a) \<and>
                sf_promptSha256 c' = Some (a_promptSha256 a))))"

lemma steering_step:
  assumes "applyControlEvent C st e = Inr st'"
  shows "obj_change (steering_change st (ev_seq e)) (cs_steering st) (cs_steering st')"
proof (cases "touches (ev_body e) = ToSteering")
  case True
  obtain agg st1 where b: "applyBody C st e = Inr st1" "st' = stampEvent agg e st1"
    using applyControlEvent_body [OF assms] by blast
  note defs = applyBody_def onSteeringAdmitted_def onSteeringRefused_def onSteeringTerminalRefused_def onSteeringIncluded_def
    onSteeringClosed_def pendingCommand_def attemptIn_def setSteering_def obj_has_def steering_change_def
  from True show ?thesis
    by (cases rule: touches_steering)
       (use b in \<open>auto simp: defs split: if_splits intro!: obj_changeI\<close>, blast)
qed (simp add: untouched [OF assms])

section \<open>Source control\<close>

definition publication_change :: "string \<Rightarrow> ScmPublicationFact option \<Rightarrow> ScmPublicationFact \<Rightarrow> bool" where
  "publication_change k old p' \<longleftrightarrow>
     (case old of
        None \<Rightarrow> pub_publicationId p' = k \<and> pub_state p' = Unpublished \<and> pub_pullRequest p' = None
      | Some p \<Rightarrow> pub_state p' \<in> set (scmPublicationTransitions (pub_state p)) \<and> pub_intent p' = pub_intent p \<and>
          pub_publicationId p' = pub_publicationId p \<and> pub_generation p' = pub_generation p \<and>
          pub_taskId p' = pub_taskId p \<and> pub_taskGeneration p' = pub_taskGeneration p \<and>
          (pub_state p' = BranchPublished \<longrightarrow> pub_observedRemoteOid p' = Some (Some (in_integrationOid (pub_intent p)))) \<and>
          (if pub_state p' = Published
           then (\<exists>pr. pub_pullRequest p' = Some pr \<and> pullMatchesPublication p pr \<and> pr_lifecycle pr = PrOpen \<and>
                   pr_draft pr = in_draft (pub_intent p))
           else pub_pullRequest p' = pub_pullRequest p))"

lemma publications_step:
  assumes "applyControlEvent C st e = Inr st'"
  shows "obj_change publication_change (scm_publications (cs_scm st)) (scm_publications (cs_scm st'))"
proof (cases "touches (ev_body e) = ToScm")
  case True
  obtain agg st1 where b: "applyBody C st e = Inr st1" "st' = stampEvent agg e st1"
    using applyControlEvent_body [OF assms] by blast
  from True show ?thesis
  proof (cases rule: touches_scm)
    case (1 i)
    then show ?thesis using b
      by (auto simp: applyBody_def onPublicationRecorded_def setPublication_def obj_has_def publication_change_def intro!: obj_changeI)
  next
    case (2 p)
    then obtain pub where pub: "obj_get (scm_publications (cs_scm st)) (ps_publicationId p) = Some pub"
      and st1: "onPublicationStateChanged st e p = Inr st1"
      using b by (auto simp: applyBody_def onPublicationStateChanged_def assertScmPublication_def split: if_splits)
    then show ?thesis using b(2)
      by (auto simp: onPublicationStateChanged_def assertScmPublication_def setPublication_def publication_change_def
          split: if_splits option.splits intro!: obj_changeI)
  qed (use b in \<open>auto simp: applyBody_def onPollStarted_def onPollCompleted_def onPollFailed_def onBucketAccepted_def
      onReactionCreated_def onReactionTransitioned_def setPoll_def setObservation_def setReaction_def Let_def\<close>)
qed (simp add: untouched [OF assms])

text \<open>Polls: a started poll is the only started one of its publication.\<close>

definition poll_change :: "ControlProjection \<Rightarrow> string \<Rightarrow> ScmPollFact option \<Rightarrow> ScmPollFact \<Rightarrow> bool" where
  "poll_change st k old p' \<longleftrightarrow>
     (if pl_state p' = PollStarted
      then pl_pollId p' = k \<and> pl_pollAttempt p' = (case old of None \<Rightarrow> 1 | Some p \<Rightarrow> Suc (pl_pollAttempt p)) \<and>
        (case old of None \<Rightarrow> True | Some p \<Rightarrow> pl_state p \<noteq> PollStarted \<and> pl_publicationId p = pl_publicationId p') \<and>
        (\<forall>q \<in> set (obj_values (scm_polls (cs_scm st))).
           pl_state q = PollStarted \<and> pl_publicationId q = pl_publicationId p' \<longrightarrow> pl_pollId q = k) \<and>
        (\<exists>pub. obj_get (scm_publications (cs_scm st)) (pl_publicationId p') = Some pub \<and> pub_state pub = Published)
      else \<exists>p. old = Some p \<and> pl_pollId p' = pl_pollId p \<and> pl_publicationId p' = pl_publicationId p \<and>
        pl_expectedHeadSha p' = pl_expectedHeadSha p \<and> pl_pollAttempt p' = pl_pollAttempt p \<and>
        (pl_state p = PollStarted \<or> pl_state p = PollCompleted \<and> pl_state p' = PollCompleted \<and>
           (\<exists>kind. kind \<notin> set (pl_acceptedKinds p) \<and> pl_acceptedKinds p' = pl_acceptedKinds p @ [kind])))"

definition pub_keys_ok :: "ControlProjection \<Rightarrow> bool" where
  "pub_keys_ok st \<longleftrightarrow> (\<forall>k p. obj_get (scm_publications (cs_scm st)) k = Some p \<longrightarrow> pub_publicationId p = k)"

lemma polls_step:
  assumes "applyControlEvent C st e = Inr st'" "pub_keys_ok st"
  shows "obj_change (poll_change st) (scm_polls (cs_scm st)) (scm_polls (cs_scm st'))"
proof (cases "touches (ev_body e) = ToScm")
  case True
  obtain agg st1 where b: "applyBody C st e = Inr st1" "st' = stampEvent agg e st1"
    using applyControlEvent_body [OF assms(1)] by blast
  from True show ?thesis
  proof (cases rule: touches_scm)
    case (3 q)
    with b have st1: "onPollStarted st e q = Inr st1" by (simp add: applyBody_def)
    then obtain pub p' where pub: "obj_get (scm_publications (cs_scm st)) (pf_publicationId q) = Some pub"
        "pub_state pub = Published"
      and none: "\<And>r. r \<in> set (obj_values (scm_polls (cs_scm st))) \<Longrightarrow> pl_state r = PollStarted \<Longrightarrow>
          pl_publicationId r = pub_publicationId pub \<Longrightarrow> pl_pollId r = pf_pollId q"
      and p': "scm_polls (cs_scm st1) = obj_set (pf_pollId q) p' (scm_polls (cs_scm st))"
        "pl_state p' = PollStarted" "pl_pollId p' = pf_pollId q" "pl_publicationId p' = pub_publicationId pub"
        "pl_pollAttempt p' = pf_pollAttempt q"
      and prior: "case obj_get (scm_polls (cs_scm st)) (pf_pollId q) of None \<Rightarrow> pf_pollAttempt q = 1
          | Some p \<Rightarrow> pl_state p \<noteq> PollStarted \<and> pl_publicationId p = pub_publicationId pub \<and> pf_pollAttempt q = Suc (pl_pollAttempt p)"
      by (auto simp: onPollStarted_def assertScmPublication_def setPoll_def pollRetryOk_def list_ex_iff
          split: if_splits option.splits)
    have "pub_publicationId pub = pf_publicationId q" using assms(2) pub(1) by (simp add: pub_keys_ok_def)
    with pub none p' prior have "poll_change st (pf_pollId q) (obj_get (scm_polls (cs_scm st)) (pf_pollId q)) p'"
      by (auto simp: poll_change_def split: option.splits)
    then show ?thesis using p'(1) b(2) by (auto intro: obj_changeI)
  next
    case (4 c)
    then show ?thesis using b
      by (auto simp: applyBody_def onPollCompleted_def activePoll_def setPoll_def poll_change_def Let_def intro!: obj_changeI)
  next
    case (5 f g)
    then show ?thesis using b
      by (auto simp: applyBody_def onPollFailed_def activePoll_def setPoll_def poll_change_def intro!: obj_changeI)
  next
    case (6 b')
    then show ?thesis using b
      by (auto simp: applyBody_def onBucketAccepted_def setPoll_def setObservation_def poll_change_def Let_def intro!: obj_changeI)
  qed (use b in \<open>auto simp: applyBody_def onPublicationRecorded_def onPublicationStateChanged_def
      onReactionCreated_def onReactionTransitioned_def setPublication_def setReaction_def\<close>)
qed (simp add: untouched [OF assms(1)])

text \<open>Reactions: at most one active per publication and kind, one command each.\<close>

definition reaction_change :: "ControlProjection \<Rightarrow> string \<Rightarrow> ScmReactionFact option \<Rightarrow> ScmReactionFact \<Rightarrow> bool" where
  "reaction_change st k old r' \<longleftrightarrow>
     (case old of
        None \<Rightarrow> rx_reactionKey r' = k \<and> rx_state r' = RxPending \<and> rx_version r' = 0 \<and>
          (\<forall>r \<in> set (obj_values (scm_reactions (cs_scm st))). rx_commandId r \<noteq> rx_commandId r' \<and>
             \<not> (rx_publicationId r = rx_publicationId r' \<and> rx_factKind r = rx_factKind r' \<and> reactionActive r))
      | Some r \<Rightarrow> rx_state r' \<in> set (scmReactionTransitions (rx_state r)) \<and> rx_version r' = Suc (rx_version r) \<and>
          rx_commandId r' = rx_commandId r \<and> rx_publicationId r' = rx_publicationId r \<and> rx_factKind r' = rx_factKind r \<and>
          (rx_state r' = RxIncluded \<longrightarrow> (\<exists>c. obj_get (cs_steering st) (rx_commandId r) = Some c \<and> sf_status c = SIncluded)))"

lemma reactions_step:
  assumes "applyControlEvent C st e = Inr st'"
  shows "obj_change (reaction_change st) (scm_reactions (cs_scm st)) (scm_reactions (cs_scm st'))"
proof (cases "touches (ev_body e) = ToScm")
  case True
  obtain agg st1 where b: "applyBody C st e = Inr st1" "st' = stampEvent agg e st1"
    using applyControlEvent_body [OF assms] by blast
  from True show ?thesis
  proof (cases rule: touches_scm)
    case (7 r)
    then show ?thesis using b
      by (auto simp: applyBody_def onReactionCreated_def setReaction_def reaction_change_def obj_has_def list_ex_iff
          intro!: obj_changeI)
  next
    case (8 t)
    with b have st1: "onReactionTransitioned st e t = Inr st1" by (simp add: applyBody_def)
    then obtain r r' where r: "obj_get (scm_reactions (cs_scm st)) (rr_reactionKey t) = Some r"
        "scm_reactions (cs_scm st1) = obj_set (rr_reactionKey t) r' (scm_reactions (cs_scm st))"
        "rx_state r' = rr_toState t" "rr_toState t \<in> set (scmReactionTransitions (rx_state r))"
        "rx_version r' = Suc (rx_version r)" "rx_commandId r' = rx_commandId r" "rx_publicationId r' = rx_publicationId r"
        "rx_factKind r' = rx_factKind r" "reactionFollows (obj_get (cs_steering st) (rx_commandId r)) t"
      by (auto simp: onReactionTransitioned_def setReaction_def)
    from r have "reaction_change st (rr_reactionKey t) (Some r) r'"
      by (auto simp: reaction_change_def reactionFollows_def split: option.splits)
    with r(1,2) b(2) show ?thesis by (auto intro: obj_changeI)
  qed (use b in \<open>auto simp: applyBody_def onPublicationRecorded_def onPublicationStateChanged_def onPollStarted_def
      onPollCompleted_def onPollFailed_def onBucketAccepted_def setPublication_def setPoll_def setObservation_def Let_def\<close>)
qed (simp add: untouched [OF assms])

section \<open>The invariant\<close>

text \<open>An attempt passes prepared, planned, started, exited (or abandoned) at increasing sequence numbers.\<close>

definition attempt_wf :: "nat \<Rightarrow> AttemptFact \<Rightarrow> bool" where
  "attempt_wf h a \<longleftrightarrow> a_preparedSeq a \<le> h \<and>
     (a_launchId a = None \<longleftrightarrow> a_launchPlannedSeq a = None) \<and>
     (\<forall>l. a_launchPlannedSeq a = Some l \<longrightarrow> a_preparedSeq a < l \<and> l \<le> h) \<and>
     (\<forall>s. a_startedSeq a = Some s \<longrightarrow> s \<le> h \<and> (\<exists>l. a_launchPlannedSeq a = Some l \<and> l < s)) \<and>
     (case a_state a of
        Prepared \<Rightarrow> a_startedSeq a = None \<and> a_exitedSeq a = None \<and> a_abandonedSeq a = None
      | Active \<Rightarrow> a_startedSeq a \<noteq> None \<and> a_exitedSeq a = None \<and> a_abandonedSeq a = None
      | Exited \<Rightarrow> a_abandonedSeq a = None \<and> (\<exists>s x. a_startedSeq a = Some s \<and> a_exitedSeq a = Some x \<and> s < x \<and> x \<le> h)
      | Abandoned \<Rightarrow> a_startedSeq a = None \<and> a_exitedSeq a = None \<and>
          (\<exists>x. a_abandonedSeq a = Some x \<and> a_preparedSeq a < x \<and> x \<le> h))"

definition attempts_ok :: "ControlProjection \<Rightarrow> bool" where
  "attempts_ok st \<longleftrightarrow> obj_wf (cs_attempts st) \<and>
     (\<forall>k a. obj_get (cs_attempts st) k = Some a \<longrightarrow> a_attemptId a = k \<and> attempt_wf (cs_headSeq st) a) \<and>
     (\<forall>i j a b. i \<noteq> j \<longrightarrow> obj_get (cs_attempts st) i = Some a \<longrightarrow> obj_get (cs_attempts st) j = Some b \<longrightarrow>
        a_taskId a = a_taskId b \<longrightarrow> a_taskGeneration a = a_taskGeneration b \<longrightarrow> a_attemptGeneration a \<noteq> a_attemptGeneration b)"

definition publication_wf :: "ScmPublicationFact \<Rightarrow> bool" where
  "publication_wf p \<longleftrightarrow> (pub_state p = Published \<longrightarrow>
     (\<exists>pr. pub_pullRequest p = Some pr \<and> pullMatchesPublication p pr \<and> pr_lifecycle pr = PrOpen \<and>
        pr_draft pr = in_draft (pub_intent p)))"

definition publications_ok :: "ControlProjection \<Rightarrow> bool" where
  "publications_ok st \<longleftrightarrow> pub_keys_ok st \<and>
     (\<forall>k p. obj_get (scm_publications (cs_scm st)) k = Some p \<longrightarrow> publication_wf p)"

definition polls_ok :: "ControlProjection \<Rightarrow> bool" where
  "polls_ok st \<longleftrightarrow> obj_wf (scm_polls (cs_scm st)) \<and>
     (\<forall>k p. obj_get (scm_polls (cs_scm st)) k = Some p \<longrightarrow> pl_pollId p = k) \<and>
     (\<forall>i j p q. i \<noteq> j \<longrightarrow> obj_get (scm_polls (cs_scm st)) i = Some p \<longrightarrow> obj_get (scm_polls (cs_scm st)) j = Some q \<longrightarrow>
        pl_state p = PollStarted \<longrightarrow> pl_state q = PollStarted \<longrightarrow> pl_publicationId p \<noteq> pl_publicationId q)"

definition reactions_ok :: "ControlProjection \<Rightarrow> bool" where
  "reactions_ok st \<longleftrightarrow> obj_wf (scm_reactions (cs_scm st)) \<and>
     (\<forall>i j r q. i \<noteq> j \<longrightarrow> obj_get (scm_reactions (cs_scm st)) i = Some r \<longrightarrow> obj_get (scm_reactions (cs_scm st)) j = Some q \<longrightarrow>
        rx_commandId r \<noteq> rx_commandId q \<and>
        (reactionActive r \<longrightarrow> reactionActive q \<longrightarrow> rx_publicationId r = rx_publicationId q \<longrightarrow> rx_factKind r \<noteq> rx_factKind q))"

definition steering_ok :: "ControlProjection \<Rightarrow> bool" where
  "steering_ok st \<longleftrightarrow>
     (\<forall>k c. obj_get (cs_steering st) k = Some c \<longrightarrow> sf_commandId c = k \<and> (sf_status c = SPending \<longleftrightarrow> sf_terminalSeq c = None) \<and>
        (sf_status c = SIncluded \<longrightarrow>
          (\<exists>i a. sf_attemptId c = Some i \<and> obj_get (cs_attempts st) i = Some a \<and> k \<in> set (a_steeringCommandIds a) \<and>
             sf_promptSha256 c = Some (a_promptSha256 a))))"

definition control_ok :: "ControlProjection \<Rightarrow> bool" where
  "control_ok st \<longleftrightarrow> attempts_ok st \<and> publications_ok st \<and> polls_ok st \<and> reactions_ok st \<and> steering_ok st"

lemma attempt_wf_mono: "attempt_wf h a \<Longrightarrow> attempt_wf (Suc h) a"
  by (auto simp: attempt_wf_def split: AttemptState.splits)

lemma attempt_changeE:
  assumes "attempt_change n a a'"
  obtains (plan) l where "a_state a = Prepared" "a_launchId a = None" "a' = a\<lparr>a_launchId := Some l, a_launchPlannedSeq := Some n\<rparr>"
  | (start) p k where "a_state a = Prepared" "a_launchId a \<noteq> None" "a_launchPlannedSeq a \<noteq> None"
      "a' = a\<lparr>a_state := Active, a_pid := p, a_processStartToken := k, a_startedSeq := Some n\<rparr>"
  | (exit) u c m where "a_state a = Active"
      "a' = a\<lparr>a_state := Exited, a_outcome := u, a_exitCode := c, a_summary := m, a_exitedSeq := Some n\<rparr>"
  | (abandon) r m where "a_state a = Prepared"
      "a' = a\<lparr>a_state := Abandoned, a_abandonReason := r, a_summary := m, a_abandonedSeq := Some n\<rparr>"
  using assms unfolding attempt_change_def
  by (elim disjE conjE) (metis not_None_eq that(1), metis that(2), metis that(3), metis that(4))

lemma attempt_wf_change:
  assumes "attempt_wf h a" "attempt_change (Suc h) a a'" shows "attempt_wf (Suc h) a'"
  using assms(2) by (cases rule: attempt_changeE) (use assms(1) in \<open>auto simp: attempt_wf_def\<close>)

lemma attempt_change_keeps:
  assumes "attempt_change n a a'"
  shows "a_attemptId a' = a_attemptId a \<and> a_attemptGeneration a' = a_attemptGeneration a \<and> a_taskId a' = a_taskId a \<and>
     a_taskGeneration a' = a_taskGeneration a \<and> a_steeringCommandIds a' = a_steeringCommandIds a \<and>
     a_promptSha256 a' = a_promptSha256 a \<and> a_sessionId a' = a_sessionId a \<and> a_sessionGeneration a' = a_sessionGeneration a"
  using assms by (cases rule: attempt_changeE) simp_all

lemma fold_max_base: "b \<le> fold max xs (b::nat)"
  by (induction xs arbitrary: b) (auto intro: order_trans [OF max.cobounded2])

lemma fold_max_upper: "x \<in> set xs \<Longrightarrow> x \<le> fold max xs (b::nat)"
proof (induction xs arbitrary: b)
  case (Cons y ys)
  have "y \<le> fold max ys (max y b)" using fold_max_base [of "max y b" ys] by simp
  with Cons show ?case by auto
qed simp

lemma nextAttemptGeneration_fresh:
  assumes "obj_get (cs_attempts st) k = Some a" "a_taskId a = evTask e" "a_taskGeneration a = evTaskGen e"
  shows "a_attemptGeneration a < nextAttemptGeneration st e"
proof -
  have "a_attemptGeneration a \<in> set (map a_attemptGeneration
      (filter (\<lambda>a. a_taskId a = evTask e \<and> a_taskGeneration a = evTaskGen e) (obj_values (cs_attempts st))))"
    using assms obj_get_in_values [OF assms(1)] by auto
  then show ?thesis unfolding nextAttemptGeneration_def by (simp add: fold_max_upper le_imp_less_Suc)
qed

section \<open>Every event keeps the invariant\<close>

lemma attempts_ok_step:
  assumes "applyControlEvent C st e = Inr st'" "attempts_ok st"
  shows "attempts_ok st'"
proof -
  note ch = attempts_step [OF assms(1)]
  have seq: "ev_seq e = Suc (cs_headSeq st)" "cs_headSeq st' = Suc (cs_headSeq st)"
    using applyControlEvent_frame [OF assms(1)] by simp_all
  have old: "obj_get (cs_attempts st) k = Some a \<Longrightarrow> a_attemptId a = k \<and> attempt_wf (cs_headSeq st) a" for k a
    using assms(2) by (simp add: attempts_ok_def)
  have each: "a_attemptId a = k \<and> attempt_wf (cs_headSeq st') a" if "obj_get (cs_attempts st') k = Some a" for k a
    using obj_change_backward [OF ch that]
  proof
    assume "obj_get (cs_attempts st) k = Some a"
    with old seq(2) show ?thesis by (auto intro: attempt_wf_mono)
  next
    assume "case obj_get (cs_attempts st) k of None \<Rightarrow> attempt_new st e k a | Some a' \<Rightarrow> attempt_change (ev_seq e) a' a"
    then show ?thesis
    proof (cases "obj_get (cs_attempts st) k")
      case (Some a')
      with \<open>case obj_get (cs_attempts st) k of None \<Rightarrow> _ | Some _ \<Rightarrow> _\<close> have "attempt_change (Suc (cs_headSeq st)) a' a"
        by (simp add: seq(1))
      with old [OF Some] seq(2) attempt_change_keeps attempt_wf_change show ?thesis by auto
    qed (simp add: attempt_new_def attempt_wf_def seq)
  qed
  have pair: "\<not> (a_taskId a = a_taskId b \<and> a_taskGeneration a = a_taskGeneration b \<and> a_attemptGeneration a = a_attemptGeneration b)"
    if "i \<noteq> j" "obj_get (cs_attempts st') i = Some a" "obj_get (cs_attempts st') j = Some b" for i j a b
  proof (rule obj_change_pairwise [OF ch _ _ that])
    fix i j x y assume "i \<noteq> j" "obj_get (cs_attempts st) i = Some x" "obj_get (cs_attempts st) j = Some y"
    then show "\<not> (a_taskId x = a_taskId y \<and> a_taskGeneration x = a_taskGeneration y \<and> a_attemptGeneration x = a_attemptGeneration y)"
      using assms(2) unfolding attempts_ok_def by blast
  next
    fix k v i x
    assume v: "case obj_get (cs_attempts st) k of None \<Rightarrow> attempt_new st e k v | Some a \<Rightarrow> attempt_change (ev_seq e) a v"
      and x: "i \<noteq> k" "obj_get (cs_attempts st) i = Some x"
    show "\<not> (a_taskId v = a_taskId x \<and> a_taskGeneration v = a_taskGeneration x \<and> a_attemptGeneration v = a_attemptGeneration x) \<and>
      \<not> (a_taskId x = a_taskId v \<and> a_taskGeneration x = a_taskGeneration v \<and> a_attemptGeneration x = a_attemptGeneration v)"
    proof (cases "obj_get (cs_attempts st) k")
      case None
      with v have "attempt_new st e k v" by simp
      with nextAttemptGeneration_fresh [OF x(2), of e] show ?thesis by (auto simp: attempt_new_def)
    next
      case (Some a)
      with v have "attempt_change (ev_seq e) a v" by simp
      from attempt_change_keeps [OF this] assms(2) Some x show ?thesis
        unfolding attempts_ok_def by metis
    qed
  qed
  show ?thesis
    using each pair obj_change_wf [OF ch] assms(2) unfolding attempts_ok_def by blast
qed

lemma publications_ok_step:
  assumes "applyControlEvent C st e = Inr st'" "publications_ok st"
  shows "publications_ok st'"
proof -
  note ch = publications_step [OF assms(1)]
  have "pub_publicationId p = k \<and> publication_wf p" if p: "obj_get (scm_publications (cs_scm st')) k = Some p" for k p
    using obj_change_backward [OF ch p]
  proof
    assume "obj_get (scm_publications (cs_scm st)) k = Some p"
    with assms(2) show ?thesis by (simp add: publications_ok_def pub_keys_ok_def)
  next
    assume "publication_change k (obj_get (scm_publications (cs_scm st)) k) p"
    with assms(2) show ?thesis
      by (auto simp: publications_ok_def pub_keys_ok_def publication_change_def publication_wf_def pullMatchesPublication_def
          split: option.splits if_splits)
  qed
  then show ?thesis by (simp add: publications_ok_def pub_keys_ok_def)
qed

lemma polls_ok_step:
  assumes "applyControlEvent C st e = Inr st'" "polls_ok st" "publications_ok st"
  shows "polls_ok st'"
proof -
  have ch: "obj_change (poll_change st) (scm_polls (cs_scm st)) (scm_polls (cs_scm st'))"
    using polls_step [OF assms(1)] assms(3) by (simp add: publications_ok_def)
  have old: "obj_get (scm_polls (cs_scm st)) k = Some p \<Longrightarrow> pl_pollId p = k" for k p
    using assms(2) by (simp add: polls_ok_def)
  have each: "pl_pollId p = k" if "obj_get (scm_polls (cs_scm st')) k = Some p" for k p
    using obj_change_backward [OF ch that] old by (auto simp: poll_change_def split: if_splits)
  have pair: "\<not> (pl_state p = PollStarted \<and> pl_state q = PollStarted \<and> pl_publicationId p = pl_publicationId q)"
    if "i \<noteq> j" "obj_get (scm_polls (cs_scm st')) i = Some p" "obj_get (scm_polls (cs_scm st')) j = Some q" for i j p q
  proof (rule obj_change_pairwise [OF ch _ _ that])
    fix i j x y assume "i \<noteq> j" "obj_get (scm_polls (cs_scm st)) i = Some x" "obj_get (scm_polls (cs_scm st)) j = Some y"
    then show "\<not> (pl_state x = PollStarted \<and> pl_state y = PollStarted \<and> pl_publicationId x = pl_publicationId y)"
      using assms(2) unfolding polls_ok_def by blast
  next
    fix k v i x
    assume v: "poll_change st k (obj_get (scm_polls (cs_scm st)) k) v" and x: "i \<noteq> k" "obj_get (scm_polls (cs_scm st)) i = Some x"
    have "pl_pollId x = i" "x \<in> set (obj_values (scm_polls (cs_scm st)))"
      using old [OF x(2)] obj_get_in_values [OF x(2)] by simp_all
    with v x(1) show "\<not> (pl_state v = PollStarted \<and> pl_state x = PollStarted \<and> pl_publicationId v = pl_publicationId x) \<and>
        \<not> (pl_state x = PollStarted \<and> pl_state v = PollStarted \<and> pl_publicationId x = pl_publicationId v)"
      by (auto simp: poll_change_def split: if_splits)
  qed
  show ?thesis using each pair obj_change_wf [OF ch] assms(2) unfolding polls_ok_def by blast
qed

lemma reactionActive_step: "reactionActive r' \<Longrightarrow> rx_state r' \<in> set (scmReactionTransitions (rx_state r)) \<Longrightarrow> reactionActive r"
  by (auto simp: reactionActive_def scmReactionTransitions_def split: ScmReactionState.splits)

lemma reactions_ok_step:
  assumes "applyControlEvent C st e = Inr st'" "reactions_ok st"
  shows "reactions_ok st'"
proof -
  note ch = reactions_step [OF assms(1)]
  let ?R = "\<lambda>r q. rx_commandId r \<noteq> rx_commandId q \<and>
      \<not> (reactionActive r \<and> reactionActive q \<and> rx_publicationId r = rx_publicationId q \<and> rx_factKind r = rx_factKind q)"
  have old: "?R x y" if "i \<noteq> j" "obj_get (scm_reactions (cs_scm st)) i = Some x" "obj_get (scm_reactions (cs_scm st)) j = Some y"
    for i j x y using that assms(2) unfolding reactions_ok_def by blast
  have pair: "?R x y" if "i \<noteq> j" "obj_get (scm_reactions (cs_scm st')) i = Some x" "obj_get (scm_reactions (cs_scm st')) j = Some y"
    for i j x y
  proof (rule obj_change_pairwise [OF ch old _ that])
    fix k v i x
    assume v: "reaction_change st k (obj_get (scm_reactions (cs_scm st)) k) v"
      and x: "i \<noteq> k" "obj_get (scm_reactions (cs_scm st)) i = Some x"
    show "?R v x \<and> ?R x v"
    proof (cases "obj_get (scm_reactions (cs_scm st)) k")
      case None
      with v obj_get_in_values [OF x(2)] show ?thesis by (auto simp: reaction_change_def)
    next
      case (Some r)
      with v have r: "rx_state v \<in> set (scmReactionTransitions (rx_state r))" "rx_commandId v = rx_commandId r"
          "rx_publicationId v = rx_publicationId r" "rx_factKind v = rx_factKind r"
        by (simp_all add: reaction_change_def)
      have "reactionActive v \<Longrightarrow> reactionActive r" using r(1) by (rule reactionActive_step [rotated])
      with r old [OF x(1) x(2) Some] show ?thesis by auto
    qed
  qed
  show ?thesis using pair obj_change_wf [OF ch] assms(2) unfolding reactions_ok_def by blast
qed

lemma steering_ok_step:
  assumes "applyControlEvent C st e = Inr st'" "steering_ok st" "attempts_ok st"
  shows "steering_ok st'"
proof -
  note ch = steering_step [OF assms(1)]
  have kept: "\<exists>a'. obj_get (cs_attempts st') i = Some a' \<and> a_steeringCommandIds a' = a_steeringCommandIds a \<and>
      a_promptSha256 a' = a_promptSha256 a" if "obj_get (cs_attempts st) i = Some a" for i a
    using obj_change_forward [OF attempts_step [OF assms(1)] that] attempt_change_keeps by fastforce
  let ?inc = "\<lambda>st k c. sf_status c = SIncluded \<longrightarrow>
      (\<exists>i a. sf_attemptId c = Some i \<and> obj_get (cs_attempts st) i = Some a \<and> k \<in> set (a_steeringCommandIds a) \<and>
         sf_promptSha256 c = Some (a_promptSha256 a))"
  have mono: "?inc st k c \<Longrightarrow> ?inc st' k c" for k c
    using kept by (metis (no_types, lifting))
  have "sf_commandId c = k \<and> (sf_status c = SPending \<longleftrightarrow> sf_terminalSeq c = None) \<and> ?inc st' k c"
    if c: "obj_get (cs_steering st') k = Some c" for k c
    using obj_change_backward [OF ch c]
  proof
    assume "obj_get (cs_steering st) k = Some c"
    with assms(2) mono [of c k] show ?thesis unfolding steering_ok_def by blast
  next
    assume chg: "steering_change st (ev_seq e) k (obj_get (cs_steering st) k) c"
    have "?inc st k c"
    proof (cases "obj_get (cs_steering st) k")
      case None
      with chg show ?thesis by (auto simp: steering_change_def)
    next
      case (Some c0)
      then have "sf_commandId c0 = k" using assms(2) by (simp add: steering_ok_def)
      moreover have "obj_get (cs_attempts st) i = Some a \<Longrightarrow> a_attemptId a = i" for i a
        using assms(3) by (simp add: attempts_ok_def)
      ultimately show ?thesis using chg Some by (fastforce simp: steering_change_def)
    qed
    moreover have "sf_commandId c = k \<and> (sf_status c = SPending \<longleftrightarrow> sf_terminalSeq c = None)"
      using chg assms(2) by (auto simp: steering_change_def steering_ok_def split: option.splits)
    ultimately show ?thesis using mono by blast
  qed
  then show ?thesis unfolding steering_ok_def by blast
qed

lemma control_ok_step: "control_ok st \<Longrightarrow> applyControlEvent C st e = Inr st' \<Longrightarrow> control_ok st'"
  unfolding control_ok_def
  using attempts_ok_step publications_ok_step polls_ok_step reactions_ok_step steering_ok_step by blast

lemma control_ok_empty: "control_ok (emptyControlProjection r ep)"
  by (simp add: control_ok_def attempts_ok_def publications_ok_def pub_keys_ok_def polls_ok_def reactions_ok_def steering_ok_def
      emptyControlProjection_def emptyScmControlProjection_def)

interpretation control_inv: event_fold "applyControlEvent C" control_ok for C
  by unfold_locales (rule control_ok_step)

section \<open>Facts that never change again\<close>

definition attempt_final :: "AttemptFact \<Rightarrow> bool" where
  "attempt_final a \<longleftrightarrow> a_state a = Exited \<or> a_state a = Abandoned"

definition steering_final :: "SteeringFact \<Rightarrow> bool" where
  "steering_final c \<longleftrightarrow> sf_status c \<noteq> SPending"

definition publication_final :: "ScmPublicationFact \<Rightarrow> bool" where
  "publication_final p \<longleftrightarrow> pub_state p = PubSuperseded \<or> pub_state p = PubRefused"

definition reaction_final :: "ScmReactionFact \<Rightarrow> bool" where
  "reaction_final r \<longleftrightarrow> \<not> reactionActive r"

definition run_final :: "RunFact \<Rightarrow> bool" where
  "run_final r \<longleftrightarrow> run_status r \<noteq> RunStarted"

interpretation run_sticky: sticky_fold "applyControlEvent C" "\<lambda>st _. cs_run st" run_final for C
  by unfold_locales (auto simp: run_final_def run_change_def dest!: run_step split: option.splits)

interpretation attempt_sticky: sticky_fold "applyControlEvent C" "\<lambda>st. obj_get (cs_attempts st)" attempt_final for C
  by unfold_locales (auto simp: attempt_final_def attempt_change_def dest!: attempts_step obj_change_forward)

interpretation steering_sticky: sticky_fold "applyControlEvent C" "\<lambda>st. obj_get (cs_steering st)" steering_final for C
  by unfold_locales (auto simp: steering_final_def steering_change_def dest!: steering_step obj_change_forward)

interpretation publication_sticky: sticky_fold "applyControlEvent C" "\<lambda>st. obj_get (scm_publications (cs_scm st))" publication_final for C
  by unfold_locales
     (auto simp: publication_final_def publication_change_def scmPublicationTransitions_def dest!: publications_step obj_change_forward)

interpretation reaction_sticky: sticky_fold "applyControlEvent C" "\<lambda>st. obj_get (scm_reactions (cs_scm st))" reaction_final for C
  by unfold_locales
     (auto simp: reaction_final_def reactionActive_def reaction_change_def scmReactionTransitions_def
       dest!: reactions_step obj_change_forward)

section \<open>Versions\<close>

lemma applyControlEvent_version:
  assumes "applyControlEvent C st e = Inr st'" "aggregateForEvent e = Inr agg"
  shows "actualVersion st (agg_key agg) = ev_expectedVersion e \<and> actualVersion st' (agg_key agg) = Suc (ev_expectedVersion e)"
  using applyControlEvent_body [OF assms(1)] assms(2) by (auto simp: stampEvent_def actualVersion_def)

section \<open>A concrete history\<close>

definition example_event :: "nat \<Rightarrow> string option \<Rightarrow> nat option \<Rightarrow> nat \<Rightarrow> ControlEventBody \<Rightarrow> ControlEvent" where
  "example_event n t g v b = \<lparr>ev_eventId = ''e'', ev_runId = ''r'', ev_runEpoch = ''p'', ev_taskId = t, ev_taskGeneration = g,
     ev_expectedVersion = v, ev_occurredAt = ''d'', ev_actorKind = ActControlPlane, ev_actorId = ''a'', ev_seq = n,
     ev_recordedAt = ''d'', ev_body = b\<rparr>"

definition example_control :: ControlPrims where
  "example_control = \<lparr>cx_dateParse = (\<lambda>_. 0), cx_toISOString = (\<lambda>_. ''d''), cx_reactionDigest = (\<lambda>_ _ _ _ _. ''k'')\<rparr>"

definition example_base :: AttemptBase where
  "example_base = \<lparr>ab_attemptId = ''x'', ab_attemptGeneration = 1, ab_sessionId = ''s'', ab_sessionGeneration = 1\<rparr>"

definition example_task :: TaskCreatedPayload where
  "example_task = \<lparr>tc_title = ''t'', tc_assignee = ''a'', tc_createdBy = ''a'', tc_description = ''d'',
     tc_acceptanceCriteria = [], tc_dependsOn = [], tc_priority = 0, tc_createdAt = ''d'', tc_files = None\<rparr>"

definition example_runtime :: RuntimePayload where
  "example_runtime = \<lparr>ro_sessionId = ''s'', ro_sessionGeneration = 1, ro_observation = WaitingInput, ro_launchId = None, ro_reason = None\<rparr>"

definition example_prompt :: AttemptPreparedPayload where
  "example_prompt = AttemptBase.extend example_base \<lparr>ap_artifactLocator = ''l'', ap_promptSha256 = ''h'', ap_promptBytes = 1,
     ap_rendererVersion = 1, ap_captureCutoffSeq = 0, ap_steeringCommandIds = [''c'']\<rparr>"

definition example_target :: SteeringTarget where
  "example_target = \<lparr>tg_commandId = ''c'', tg_sessionId = ''s'', tg_sessionGeneration = 1\<rparr>"

definition example_command :: SteeringAdmittedPayload where
  "example_command = SteeringTarget.extend example_target \<lparr>sa_notBeforeAttemptGeneration = 1, sa_sourceKind = SrcOperator,
     sa_parentPrincipal = ''o'', sa_evidenceRefs = [], sa_body = ''b'', sa_bodySha256 = ''h'', sa_createdAt = ''d'',
     sa_expiresAt = None, sa_supersedesCommandId = None\<rparr>"

definition example_history :: "ControlEvent list" where
  "example_history =
     [example_event 1 None None 0 (EvRunStarted ''a'' None None),
      example_event 2 (Some ''t'') (Some 1) 0 (EvTaskCreated example_task),
      example_event 3 (Some ''t'') (Some 1) 0 (EvRuntimeObserved example_runtime),
      example_event 4 (Some ''t'') (Some 1) 1 (EvSteeringAdmitted example_command),
      example_event 5 (Some ''t'') (Some 1) 1 (EvAttemptPrepared example_prompt),
      example_event 6 (Some ''t'') (Some 1) 2 (EvSteeringIncluded example_target ''x'' 1 ''h''),
      example_event 7 (Some ''t'') (Some 1) 2 (EvAttemptAbandoned example_base OperatorAbandoned None)]"

definition example_repo :: ScmRepositoryId where
  "example_repo = \<lparr>repo_provider = ''github'', repo_host = ''h'', repo_owner = ''o'', repo_name = ''n''\<rparr>"

definition example_intent :: ScmPublicationIntent where
  "example_intent = \<lparr>in_publicationId = ''q'', in_publicationGeneration = 1, in_attempt = 1, in_runId = ''r'', in_runEpoch = ''p'',
     in_repository = example_repo, in_integrationRef = ''i'', in_integrationOid = ''f'', in_localExpectedOid = ''f'',
     in_remoteName = ''origin'', in_remoteRef = ''b'', in_expectedRemote = RemoteAbsent, in_baseRepository = example_repo,
     in_baseRef = ''main'', in_titleSha256 = ''h'', in_bodySha256 = ''h'', in_draft = False, in_createdAt = ''d''\<rparr>"

definition example_identity :: ScmPullRequestIdentity where
  "example_identity = \<lparr>pr_providerId = ''1'', pr_number = 1, pr_url = ''u'', pr_repository = example_repo,
     pr_headRepository = example_repo, pr_headRef = ''b'', pr_headSha = ''f'', pr_baseRepository = example_repo,
     pr_baseRef = ''main'', pr_baseSha = ''e''\<rparr>"

definition example_pr :: ScmPullRequestFact where
  "example_pr = ScmPullRequestIdentity.extend example_identity \<lparr>pr_lifecycle = PrOpen, pr_draft = False, pr_resourceVersion = None\<rparr>"

definition example_change :: "ScmPublicationState \<Rightarrow> ScmPublicationState \<Rightarrow> string option option \<Rightarrow> ScmPullRequestFact option \<Rightarrow> ControlEventBody" where
  "example_change s s' oid pr = EvPublicationStateChanged \<lparr>ps_publicationId = ''q'', ps_publicationGeneration = 1, ps_fromState = s,
     ps_toState = s', ps_observedRemoteOid = oid, ps_pullRequest = pr, ps_reasonCode = None\<rparr>"

definition example_poll :: ScmPollStartedPayload where
  "example_poll = ScmPollRef.extend \<lparr>pf_pollId = ''l'', pf_pollAttempt = 1, pf_publicationId = ''q'', pf_publicationGeneration = 1,
       pf_expectedHeadSha = ''f''\<rparr>
     \<lparr>po_sessionId = ''s'', po_sessionGeneration = 1, po_pullRequest = example_identity,
      po_guards = \<lparr>gd_pullRequest = None, gd_checks = None, gd_reviews = None, gd_mergeability = None\<rparr>,
      po_forceFullRefresh = False,
      po_limits = \<lparr>lm_requestTimeoutMs = 1, lm_maxPagesPerEndpoint = 1, lm_maxItemsPerPage = 1, lm_maxItemsPerEndpoint = 1,
        lm_maxDecodedBytesPerRequest = 1, lm_maxDecodedBytesPerPoll = 1, lm_maxEvidenceBodyBytes = 1,
        lm_maxEvidencePreviewBytes = 1, lm_maxFailureLogBytes = 1, lm_maxFailureLogsBytes = 1,
        lm_maxConcurrentPerRepository = 1, lm_maxConcurrentPerRun = 1\<rparr>\<rparr>"

definition example_scm_history :: "ControlEvent list" where
  "example_scm_history =
     [example_event 1 None None 0 (EvRunStarted ''a'' None None),
      example_event 2 (Some ''t'') (Some 1) 0 (EvTaskCreated example_task),
      example_event 3 (Some ''t'') (Some 1) 0 (EvRuntimeObserved example_runtime),
      example_event 4 (Some ''t'') (Some 1) 1 (EvPublicationRecorded example_intent),
      example_event 5 (Some ''t'') (Some 1) 2 (example_change Unpublished PushIntent None None),
      example_event 6 (Some ''t'') (Some 1) 3 (example_change PushIntent BranchPublished (Some (Some ''f'')) None),
      example_event 7 (Some ''t'') (Some 1) 4 (example_change BranchPublished PrIntent None None),
      example_event 8 (Some ''t'') (Some 1) 5 (example_change PrIntent Published None (Some example_pr)),
      example_event 9 (Some ''t'') (Some 1) 6 (EvPollStarted example_poll)]"

lemma example_history_ok:
  "(case reduceControlEvents example_control ''r'' ''p'' example_history None of Inl _ \<Rightarrow> False
    | Inr st \<Rightarrow> map_option a_state (obj_get (cs_attempts st) ''x'') = Some Abandoned \<and>
        map_option sf_status (obj_get (cs_steering st) ''c'') = Some SIncluded)"
  by code_simp

lemma example_scm_history_ok:
  "(case reduceControlEvents example_control ''r'' ''p'' example_scm_history None of Inl _ \<Rightarrow> False
    | Inr st \<Rightarrow> map_option pub_state (obj_get (scm_publications (cs_scm st)) ''q'') = Some Published \<and>
        map_option pl_state (obj_get (scm_polls (cs_scm st)) ''l'') = Some PollStarted)"
  by code_simp

lemma example_states:
  obtains st where "reduceControlEvents example_control ''r'' ''p'' example_history None = Inr st"
    "map_option a_state (obj_get (cs_attempts st) ''x'') = Some Abandoned"
    "map_option sf_status (obj_get (cs_steering st) ''c'') = Some SIncluded"
  using example_history_ok by (auto split: sum.splits)

lemma example_scm_states:
  obtains st where "reduceControlEvents example_control ''r'' ''p'' example_scm_history None = Inr st"
    "map_option pub_state (obj_get (scm_publications (cs_scm st)) ''q'') = Some Published"
    "map_option pl_state (obj_get (scm_polls (cs_scm st)) ''l'') = Some PollStarted"
  using example_scm_history_ok by (auto split: sum.splits)

lemma reduce_ok: "reduceControlEvents C r ep es None = Inr st \<Longrightarrow> control_ok st"
  unfolding reduceControlEvents_def using control_inv.replay_inv [OF control_ok_empty] by simp

section \<open>Properties\<close>

text \<open>
  Histories are contiguous: a reduction succeeds only on the events \<open>1, 2, 3, ...\<close> of its own run, each
  exactly once and in order, and its head is the number of events.
\<close>

theorem control_history_contiguous:
  assumes "reduceControlEvents C r ep es None = Inr st"
  shows "map ev_seq es = [1..<Suc (length es)] \<and> cs_headSeq st = length es"
  using control.replay_seqs [OF assms [unfolded reduceControlEvents_def]]
    control.replay_head [OF assms [unfolded reduceControlEvents_def]]
  by (simp add: emptyControlProjection_def)

theorem control_history_contiguous_witness:
  "\<exists>st. reduceControlEvents example_control ''r'' ''p'' example_history None = Inr st \<and> cs_headSeq st = length example_history"
proof -
  obtain st where "reduceControlEvents example_control ''r'' ''p'' example_history None = Inr st" by (rule example_states)
  with control_history_contiguous [OF this] show ?thesis by blast
qed

text \<open>
  A snapshot stands for its prefix: resuming the reduction from the projection of a prefix gives exactly
  what reducing the whole history gives, success or error.
\<close>

theorem snapshot_replay:
  assumes "reduceControlEvents C r ep es None = Inr snapshot"
  shows "reduceControlEvents C r ep (es @ fs) None = reduceControlEvents C r ep fs (Some snapshot)"
  using assms by (simp add: reduceControlEvents_def fold_res_append)

theorem snapshot_replay_witness:
  "\<exists>st. reduceControlEvents example_control ''r'' ''p'' (example_history @ example_history) None =
     reduceControlEvents example_control ''r'' ''p'' example_history (Some st)"
proof -
  obtain st where "reduceControlEvents example_control ''r'' ''p'' example_history None = Inr st" by (rule example_states)
  from snapshot_replay [OF this] show ?thesis by blast
qed

text \<open>
  C13. Terminal facts are final: whatever events follow, a completed, failed or cancelled run, an exited or
  abandoned attempt, a steering command that left the pending state, a refused or superseded publication and a
  closed reaction stay exactly as they are.
\<close>

theorem terminal_facts_final:
  assumes "reduceControlEvents C r ep es (Some st) = Inr st'"
  shows "(\<forall>f. cs_run st = Some f \<longrightarrow> run_status f \<noteq> RunStarted \<longrightarrow> cs_run st' = Some f) \<and>
    (\<forall>k a. obj_get (cs_attempts st) k = Some a \<longrightarrow> a_state a \<in> {Exited, Abandoned} \<longrightarrow> obj_get (cs_attempts st') k = Some a) \<and>
    (\<forall>k c. obj_get (cs_steering st) k = Some c \<longrightarrow> sf_status c \<noteq> SPending \<longrightarrow> obj_get (cs_steering st') k = Some c) \<and>
    (\<forall>k p. obj_get (scm_publications (cs_scm st)) k = Some p \<longrightarrow> pub_state p \<in> {PubSuperseded, PubRefused} \<longrightarrow>
       obj_get (scm_publications (cs_scm st')) k = Some p) \<and>
    (\<forall>k x. obj_get (scm_reactions (cs_scm st)) k = Some x \<longrightarrow> rx_state x \<in> {RxObservationResolved, RxSuperseded, RxRefused} \<longrightarrow>
       obj_get (scm_reactions (cs_scm st')) k = Some x)"
proof -
  have f: "fold_res (applyControlEvent C) st es = Inr st'" using assms by (simp add: reduceControlEvents_def)
  show ?thesis
    using run_sticky.replay_sticky [OF f] attempt_sticky.replay_sticky [OF f] steering_sticky.replay_sticky [OF f]
      publication_sticky.replay_sticky [OF f] reaction_sticky.replay_sticky [OF f]
    by (auto simp: run_final_def attempt_final_def steering_final_def publication_final_def reaction_final_def reactionActive_def)
qed

theorem terminal_facts_final_witness:
  "\<exists>(st::ControlProjection) st' (a::AttemptFact). reduceControlEvents example_control ''r'' ''p''
       [example_event (Suc (length example_history)) None None 1 (EvRunCompleted None)] (Some st) = Inr st' \<and>
     obj_get (cs_attempts st) ''x'' = Some a \<and> a_state a = Abandoned \<and> obj_get (cs_attempts st') ''x'' = Some a"
proof -
  let ?e = "example_event (Suc (length example_history)) None None 1 (EvRunCompleted None)"
  obtain st where st: "reduceControlEvents example_control ''r'' ''p'' example_history None = Inr st"
      "map_option a_state (obj_get (cs_attempts st) ''x'') = Some Abandoned" by (rule example_states)
  have "(case reduceControlEvents example_control ''r'' ''p'' (example_history @ [?e]) None of Inl _ \<Rightarrow> False | Inr _ \<Rightarrow> True)"
    by code_simp
  then obtain st' where "reduceControlEvents example_control ''r'' ''p'' (example_history @ [?e]) None = Inr st'"
    by (auto split: sum.splits)
  then have r: "reduceControlEvents example_control ''r'' ''p'' [?e] (Some st) = Inr st'"
    using st(1) by (simp add: reduceControlEvents_def fold_res_append)
  obtain a where a: "obj_get (cs_attempts st) ''x'' = Some a" "a_state a = Abandoned" using st(2) by auto
  then have "obj_get (cs_attempts st') ''x'' = Some a" using terminal_facts_final [OF r] by blast
  with r a show ?thesis by blast
qed

text \<open>
  C11. The life of an attempt: in every reachable projection an attempt was prepared, planned, started and
  exited (or prepared and abandoned) at strictly increasing sequence numbers, is started only with a durable
  launch plan, and no two attempts of one task generation have the same attempt generation.
\<close>

theorem attempt_lifecycle:
  assumes "reduceControlEvents C r ep es None = Inr st" "obj_get (cs_attempts st) k = Some a"
  shows "attempt_wf (cs_headSeq st) a \<and>
    (\<forall>j b. j \<noteq> k \<longrightarrow> obj_get (cs_attempts st) j = Some b \<longrightarrow> a_taskId b = a_taskId a \<longrightarrow>
       a_taskGeneration b = a_taskGeneration a \<longrightarrow> a_attemptGeneration b \<noteq> a_attemptGeneration a)"
  using reduce_ok [OF assms(1)] assms(2) unfolding control_ok_def attempts_ok_def by blast

theorem attempt_lifecycle_witness:
  "\<exists>(st::ControlProjection) (a::AttemptFact). obj_get (cs_attempts st) ''x'' = Some a \<and> attempt_wf (cs_headSeq st) a"
proof -
  obtain st where st: "reduceControlEvents example_control ''r'' ''p'' example_history None = Inr st"
      "map_option a_state (obj_get (cs_attempts st) ''x'') = Some Abandoned" by (rule example_states)
  then obtain a where "obj_get (cs_attempts st) ''x'' = Some a" by auto
  with attempt_lifecycle [OF st(1) this] show ?thesis by blast
qed

text \<open>
  The life of a task: an accepted event either leaves a task's generation and moves its status along the
  transition table (or not at all), or reopens a done or escalated task as the next generation, open and
  unclaimed; tasks never disappear.
\<close>

theorem task_lifecycle:
  assumes "applyControlEvent C st e = Inr st'" "obj_get (cs_tasks st) k = Some t"
  shows "\<exists>t'. obj_get (cs_tasks st') k = Some t' \<and>
    (t_generation t' = t_generation t \<and> (t_status t' = t_status t \<or> t_status t' \<in> set (allowedTransitions (t_status t))) \<or>
     t_generation t' = Suc (t_generation t) \<and> t_status t \<in> {TDone, TEscalated} \<and> t_status t' = TOpen \<and> t_claimedBy t' = None)"
  using obj_change_forward [OF tasks_step [OF assms(1)] assms(2)]
  by (auto simp: task_change_def taskTerminal_def)

definition example_task_state :: ControlProjection where
  "example_task_state = setTask \<lparr>t_id = ''t'', t_generation = 1, t_title = ''t'', t_assignee = ''a'', t_createdBy = ''a'',
     t_description = ''d'', t_acceptanceCriteria = [], t_dependsOn = [], t_priority = 0, t_createdAt = ''d'', t_files = None,
     t_status = TOpen, t_claimedBy = None, t_lastSummary = None, t_lastUpdate = ''d'', t_attempts = 0, t_version = 1,
     t_updatedSeq = 0\<rparr> (emptyControlProjection ''r'' ''p'')"

theorem task_lifecycle_witness:
  "\<exists>st' t'. applyControlEvent example_control example_task_state
       (example_event 1 (Some ''t'') (Some 1) 0 (EvTaskStatusChanged ''a'' TClaimed None)) = Inr st' \<and>
     obj_get (cs_tasks st') ''t'' = Some t' \<and> t_generation t' = 1"
proof -
  let ?e = "example_event 1 (Some ''t'') (Some 1) 0 (EvTaskStatusChanged ''a'' TClaimed None)"
  have "(case applyControlEvent example_control example_task_state ?e of Inl _ \<Rightarrow> False | Inr _ \<Rightarrow> True)" by code_simp
  then obtain st' where st': "applyControlEvent example_control example_task_state ?e = Inr st'" by (auto split: sum.splits)
  obtain t where t: "obj_get (cs_tasks example_task_state) ''t'' = Some t" "t_generation t = 1" "t_status t = TOpen"
    by (simp add: example_task_state_def setTask_def emptyControlProjection_def)
  from task_lifecycle [OF st' t(1)] t st' show ?thesis by auto
qed

text \<open>
  The version fence: an event is accepted only if it names the current version of its aggregate, and
  then that version is one higher; so of two writers that saw the same version at most one succeeds.
\<close>

theorem version_fence:
  assumes "applyControlEvent C st e = Inr st'" "aggregateForEvent e = Inr agg"
  shows "actualVersion st (agg_key agg) = ev_expectedVersion e \<and>
    actualVersion st' (agg_key agg) = Suc (ev_expectedVersion e) \<and>
    (\<forall>f. aggregateForEvent f = Inr agg \<longrightarrow> ev_expectedVersion f = ev_expectedVersion e \<longrightarrow>
       (\<exists>err. applyControlEvent C st' f = Inl err))"
proof -
  note v = applyControlEvent_version [OF assms]
  have "\<exists>err. applyControlEvent C st' f = Inl err" if "aggregateForEvent f = Inr agg" "ev_expectedVersion f = ev_expectedVersion e" for f
    using applyControlEvent_version [OF _ that(1), of C st'] v that(2) by (cases "applyControlEvent C st' f") auto
  with v show ?thesis by blast
qed

theorem version_fence_witness:
  "\<exists>st'. applyControlEvent example_control (emptyControlProjection ''r'' ''p'') (example_event 1 None None 0 (EvRunStarted ''a'' None None)) = Inr st' \<and>
     actualVersion st' (aggregateKey ''run'' ''r'' 1) = 1"
proof -
  let ?e = "example_event 1 None None 0 (EvRunStarted ''a'' None None)"
  have "(case applyControlEvent example_control (emptyControlProjection ''r'' ''p'') ?e of Inl _ \<Rightarrow> False | Inr _ \<Rightarrow> True)" by code_simp
  then obtain st' where st': "applyControlEvent example_control (emptyControlProjection ''r'' ''p'') ?e = Inr st'" by (auto split: sum.splits)
  have "aggregateForEvent ?e = Inr \<lparr>agg_kind = AggRun, agg_id = ''r'', agg_generation = 1, agg_key = aggregateKey ''run'' ''r'' 1\<rparr>"
    by (simp add: aggregateForEvent_def example_event_def eventSession_def)
  from version_fence [OF st' this] st' show ?thesis by (auto simp: example_event_def)
qed

text \<open>
  C14. A publication is published only with the pull request it intended: same repositories, head and base
  reference, the exact integration commit, open and with the intended draft flag.
\<close>

theorem published_exact:
  assumes "reduceControlEvents C r ep es None = Inr st" "obj_get (scm_publications (cs_scm st)) k = Some p"
    and "pub_state p = Published"
  shows "\<exists>pr. pub_pullRequest p = Some pr \<and> pr_headSha pr = in_integrationOid (pub_intent p) \<and>
    pr_headRef pr = in_remoteRef (pub_intent p) \<and> pr_baseRef pr = in_baseRef (pub_intent p) \<and>
    scmRepositoryKey (pr_headRepository pr) = scmRepositoryKey (in_repository (pub_intent p)) \<and>
    scmRepositoryKey (pr_baseRepository pr) = scmRepositoryKey (in_baseRepository (pub_intent p)) \<and>
    pr_lifecycle pr = PrOpen \<and> pr_draft pr = in_draft (pub_intent p)"
proof -
  have "publication_wf p"
    using reduce_ok [OF assms(1)] assms(2) unfolding control_ok_def publications_ok_def by blast
  with assms(3) show ?thesis by (auto simp: publication_wf_def pullMatchesPublication_def Let_def)
qed

theorem published_exact_witness:
  "\<exists>(st::ControlProjection) (p::ScmPublicationFact) (pr::ScmPullRequestFact). obj_get (scm_publications (cs_scm st)) ''q'' = Some p \<and> pub_pullRequest p = Some pr \<and>
     pr_headSha pr = in_integrationOid (pub_intent p)"
proof -
  obtain st where st: "reduceControlEvents example_control ''r'' ''p'' example_scm_history None = Inr st"
      "map_option pub_state (obj_get (scm_publications (cs_scm st)) ''q'') = Some Published" by (rule example_scm_states)
  then obtain p where p: "obj_get (scm_publications (cs_scm st)) ''q'' = Some p" "pub_state p = Published" by auto
  from published_exact [OF st(1) p] p show ?thesis by blast
qed

text \<open>
  C12. Source-control work is single-flight: in every reachable projection a publication has at most one
  started poll, and at most one active reaction per kind of fact; no two reactions share a steering command.
\<close>

theorem scm_single_flight:
  assumes "reduceControlEvents C r ep es None = Inr st"
  shows "(\<forall>i j p q. obj_get (scm_polls (cs_scm st)) i = Some p \<longrightarrow> obj_get (scm_polls (cs_scm st)) j = Some q \<longrightarrow>
      pl_state p = PollStarted \<longrightarrow> pl_state q = PollStarted \<longrightarrow> pl_publicationId p = pl_publicationId q \<longrightarrow> i = j) \<and>
    (\<forall>i j x y. obj_get (scm_reactions (cs_scm st)) i = Some x \<longrightarrow> obj_get (scm_reactions (cs_scm st)) j = Some y \<longrightarrow> i \<noteq> j \<longrightarrow>
      rx_commandId x \<noteq> rx_commandId y \<and>
      (reactionActive x \<longrightarrow> reactionActive y \<longrightarrow> rx_publicationId x = rx_publicationId y \<longrightarrow> rx_factKind x \<noteq> rx_factKind y))"
proof -
  have "polls_ok st" "reactions_ok st" using reduce_ok [OF assms] by (simp_all add: control_ok_def)
  then show ?thesis unfolding polls_ok_def reactions_ok_def by blast
qed

theorem scm_single_flight_witness:
  "\<exists>(st::ControlProjection) (p::ScmPollFact). obj_get (scm_polls (cs_scm st)) ''l'' = Some p \<and> pl_state p = PollStarted \<and>
     (\<forall>j q. obj_get (scm_polls (cs_scm st)) j = Some q \<longrightarrow> pl_state q = PollStarted \<longrightarrow> pl_publicationId q = pl_publicationId p \<longrightarrow> j = ''l'')"
proof -
  obtain st where st: "reduceControlEvents example_control ''r'' ''p'' example_scm_history None = Inr st"
      "map_option pl_state (obj_get (scm_polls (cs_scm st)) ''l'') = Some PollStarted" by (rule example_scm_states)
  then obtain p where "obj_get (scm_polls (cs_scm st)) ''l'' = Some p" "pl_state p = PollStarted" by auto
  with scm_single_flight [OF st(1)] show ?thesis by blast
qed

text \<open>
  C15. Included means in the prompt: a steering command is marked included only if a durable attempt lists it
  and was rendered with exactly the prompt digest recorded with the command.
\<close>

theorem included_command_in_prompt:
  assumes "reduceControlEvents C r ep es None = Inr st" "obj_get (cs_steering st) k = Some c" "sf_status c = SIncluded"
  shows "\<exists>i a. sf_attemptId c = Some i \<and> obj_get (cs_attempts st) i = Some a \<and> k \<in> set (a_steeringCommandIds a) \<and>
    sf_promptSha256 c = Some (a_promptSha256 a)"
  using reduce_ok [OF assms(1)] assms(2,3) unfolding control_ok_def steering_ok_def by blast

theorem included_command_in_prompt_witness:
  "\<exists>(st::ControlProjection) i (a::AttemptFact). obj_get (cs_attempts st) i = Some a \<and> ''c'' \<in> set (a_steeringCommandIds a)"
proof -
  obtain st where st: "reduceControlEvents example_control ''r'' ''p'' example_history None = Inr st"
      "map_option sf_status (obj_get (cs_steering st) ''c'') = Some SIncluded" by (rule example_states)
  then obtain c where "obj_get (cs_steering st) ''c'' = Some c" "sf_status c = SIncluded" by auto
  from included_command_in_prompt [OF st(1) this] show ?thesis by blast
qed

lemma latestAttempt_max:
  assumes "latestAttempt st sid g = Some a"
  shows "a \<in> set (obj_values (cs_attempts st)) \<and> a_sessionId a = sid \<and> a_sessionGeneration a = g \<and>
    (\<forall>b \<in> set (obj_values (cs_attempts st)). a_sessionId b = sid \<longrightarrow> a_sessionGeneration b = g \<longrightarrow>
       a_attemptGeneration b \<le> a_attemptGeneration a)"
proof -
  let ?f = "\<lambda>a. - int (a_attemptGeneration a)"
  let ?xs = "filter (\<lambda>a. a_sessionId a = sid \<and> a_sessionGeneration a = g) (obj_values (cs_attempts st))"
  from assms obtain rest where eq: "sort_key ?f ?xs = a # rest"
    by (auto simp: latestAttempt_def split: list.splits)
  have "sorted (map ?f (a # rest))" using sorted_sort_key [of ?f ?xs] by (simp add: eq)
  then have "\<forall>b \<in> set (a # rest). ?f a \<le> ?f b" by simp
  moreover have "set (a # rest) = set ?xs" by (metis eq set_sort)
  ultimately show ?thesis by auto
qed

lemma latestAttempt_None:
  assumes "latestAttempt st sid g = None" "b \<in> set (obj_values (cs_attempts st))"
  shows "\<not> (a_sessionId b = sid \<and> a_sessionGeneration b = g)"
proof -
  let ?xs = "filter (\<lambda>a. a_sessionId a = sid \<and> a_sessionGeneration a = g) (obj_values (cs_attempts st))"
  from assms(1) have "sort_key (\<lambda>a. - int (a_attemptGeneration a)) ?xs = []"
    by (auto simp: latestAttempt_def split: list.splits)
  then have "set ?xs = {}" by (metis empty_set set_sort)
  with assms(2) show ?thesis by (auto simp: filter_empty_conv)
qed

text \<open>
  A prompt boundary is offered only when it is safe: a session is \<open>waiting_input\<close> only if the run is not
  over, the session itself was last observed waiting for input, its task (if recorded) is of the session's
  task generation and neither blocked nor terminal, and its latest attempt, if any, has ended.
\<close>

theorem activity_boundary:
  assumes "deriveState st sid = ActWaitingInput"
  shows "\<exists>rt. obj_get (cs_runtimes st) sid = Some rt \<and> rt_observation rt = WaitingInput \<and>
    (\<forall>f. cs_run st = Some f \<longrightarrow> run_status f = RunStarted) \<and>
    (\<forall>t task. rt_taskId rt = Some t \<longrightarrow> t \<noteq> [] \<longrightarrow> obj_get (cs_tasks st) t = Some task \<longrightarrow>
       rt_taskGeneration rt = Some (t_generation task) \<and> t_status task \<notin> {TDone, TEscalated, TBlocked}) \<and>
    (\<forall>a \<in> set (obj_values (cs_attempts st)). a_sessionId a = sid \<longrightarrow> a_sessionGeneration a = rt_sessionGeneration rt \<longrightarrow>
       (\<exists>l \<in> set (obj_values (cs_attempts st)). a_attemptGeneration a \<le> a_attemptGeneration l \<and> a_state l \<in> {Exited, Abandoned}))"
proof -
  from assms obtain rt where rt: "obj_get (cs_runtimes st) sid = Some rt" "rt_observation rt = WaitingInput"
      "\<forall>f. cs_run st = Some f \<longrightarrow> run_status f = RunStarted"
      "\<forall>t task. rt_taskId rt = Some t \<longrightarrow> t \<noteq> [] \<longrightarrow> obj_get (cs_tasks st) t = Some task \<longrightarrow>
         rt_taskGeneration rt = Some (t_generation task) \<and> t_status task \<notin> {TDone, TEscalated, TBlocked}"
    and lt: "map_option a_state (latestAttempt st sid (rt_sessionGeneration rt)) \<notin> {Some Prepared, Some Active}"
    by (auto simp: deriveState_def Let_def split: option.splits if_splits)
  have "\<exists>l \<in> set (obj_values (cs_attempts st)). a_attemptGeneration a \<le> a_attemptGeneration l \<and> a_state l \<in> {Exited, Abandoned}"
    if a: "a \<in> set (obj_values (cs_attempts st))" "a_sessionId a = sid" "a_sessionGeneration a = rt_sessionGeneration rt" for a
  proof (cases "latestAttempt st sid (rt_sessionGeneration rt)")
    case None
    with a show ?thesis by (auto dest: latestAttempt_None)
  next
    case (Some l)
    with lt have "a_state l \<in> {Exited, Abandoned}" by (cases "a_state l") auto
    with latestAttempt_max [OF Some] a show ?thesis by blast
  qed
  with rt show ?thesis by blast
qed

theorem activity_boundary_witness:
  "\<exists>st rt. deriveState st ''s'' = ActWaitingInput \<and> obj_get (cs_runtimes st) ''s'' = Some (rt::RuntimeFact) \<and> rt_observation rt = WaitingInput"
proof -
  let ?st = "(emptyControlProjection ''r'' ''p'')\<lparr>cs_runtimes := [(''s'', \<lparr>rt_sessionId = ''s'', rt_sessionGeneration = 1,
      rt_taskId = None, rt_taskGeneration = None, rt_observation = WaitingInput, rt_launchId = None, rt_reason = None,
      rt_observedAt = ''d'', rt_updatedSeq = 1\<rparr>)]\<rparr>"
  have "deriveState ?st ''s'' = ActWaitingInput"
    by (simp add: deriveState_def emptyControlProjection_def latestAttempt_def)
  from activity_boundary [OF this] this show ?thesis by blast
qed

end
