(* ===== verification/Steering.thy ===== *)
theory Steering
  imports Control
begin

text \<open>
  Steering commands (\<open>src/steering\<close>): the record of a command and of a prepared prompt
  (\<open>types.ts\<close>), their validation (\<open>schema.ts\<close>) and the reducer that replays the control events into the
  projection of commands and prompt manifests (\<open>reducer.ts\<close>).

  The events are the ones of the control store. Field patterns of the steering schemas that the event
  schema enforces already (bounded identifiers, positive generations, list and byte bounds) are not
  repeated; those that are stricter (the UUIDv7 form of command identifiers, the body, the relations
  between fields) are. Errors carry the code of \<open>SteeringReductionError\<close>. A body is a string of code units
  below 256; \<open>analyzeUnicode\<close> is defined on all UTF-16 code units.
\<close>

section \<open>Errors and platform\<close>

datatype SteeringReductionErrorCode =
    MALFORMED_EVENT | UNAUTHORIZED_ACTOR | RUN_IDENTITY_MISMATCH | NON_CONTIGUOUS_SEQUENCE
  | DUPLICATE_COMMAND | DUPLICATE_MANIFEST | TARGET_MISMATCH | INVALID_TRANSITION | MISSING_COMMAND
  | MISSING_MANIFEST | PROMPT_BINDING_MISMATCH | CUTOFF_VIOLATION | SUPERSESSION_MISMATCH
  | EXPIRY_MISMATCH | INVALID_SNAPSHOT

section \<open>Commands, refusals and manifests: types.ts\<close>

text \<open>The six fields that fence a command to a run, a task generation and a session generation.\<close>

record SteeringFence =
  fx_runId :: string
  fx_runEpoch :: string
  fx_taskId :: string
  fx_taskGeneration :: nat
  fx_sessionId :: string
  fx_sessionGeneration :: nat

record SteeringCommand = SteeringFence +
  sc_notBeforeAttemptGeneration :: nat
  sc_commandId :: string
  sc_sourceKind :: SteeringSource
  sc_parentPrincipal :: string
  sc_evidenceRefs :: "string list"
  sc_body :: string
  sc_createdAt :: string
  sc_expiresAt :: "string option"
  sc_supersedesCommandId :: "string option"
  sc_bodySha256 :: string

record SteeringRefusal = SteeringFence +
  rf_commandId :: string
  rf_bodySha256 :: string
  rf_requestSemanticDigest :: string
  rf_observedSeq :: nat
  rf_observedActivity :: ObservedActivity
  rf_reasonCode :: string

record TerminalRefusal =
  tr_requestSemanticDigest :: string
  tr_observedSeq :: nat
  tr_observedActivity :: ObservedActivity
  tr_reasonCode :: string

text \<open>
  A record carries the command, the sequence of its admission and, when it is terminal, the sequence of the
  event that closed it. A command refused at admission (\<open>RecRefused\<close>) has no command.
\<close>

datatype SteeringCommandRecord =
    RecPending SteeringCommand nat
  | RecIncluded SteeringCommand nat nat string nat string
  | RecWithdrawn SteeringCommand nat nat "string option"
  | RecSuperseded SteeringCommand nat nat string
  | RecExpired SteeringCommand nat nat
  | RecRefused SteeringRefusal nat
  | RecTerminalRefused SteeringCommand nat nat TerminalRefusal

record SteeringManifest = SteeringFence +
  mf_attemptId :: string
  mf_attemptGeneration :: nat
  mf_artifactLocator :: string
  mf_promptSha256 :: string
  mf_promptBytes :: nat
  mf_rendererVersion :: nat
  mf_captureCutoffSeq :: nat
  mf_steeringCommandIds :: "string list"
  mf_preparedSeq :: nat

record SteeringProjection =
  sp_runId :: string
  sp_runEpoch :: string
  sp_observedSeq :: nat
  sp_commands :: "SteeringCommandRecord obj"
  sp_manifests :: "SteeringManifest obj"

text \<open>
  From the platform: \<open>Date.parse\<close>, SHA-256 of a text, the semantic digest of a command
  (\<open>sha256Text(canonicalJson(...))\<close> of all its fields) and the check of the two digests a persisted event
  carries.
\<close>

record SteeringPrims =
  sx_dateParse :: "string \<Rightarrow> int"
  sx_sha256Text :: "string \<Rightarrow> string"
  sx_semanticDigest :: "SteeringCommand \<Rightarrow> string"
  sx_eventDigestsOk :: "ControlEvent \<Rightarrow> bool"

section \<open>Validation: schema.ts\<close>

definition STEERING_BODY_MAX_SCALARS :: int where
  "STEERING_BODY_MAX_SCALARS = 8192"

definition STEERING_BODY_MAX_BYTES :: int where
  "STEERING_BODY_MAX_BYTES = 16384"

text \<open>\<open>uuidV7Pattern\<close>: lower-case hexadecimal groups of 8, 4, 4, 4 and 12, version 7, variant 8, 9, a or b.\<close>

definition uuidV7 :: "string \<Rightarrow> bool" where
  "uuidV7 s \<longleftrightarrow> length s = 36 \<and>
     list_all (\<lambda>i. if i \<in> {8, 13, 18, 23} then s ! i = CHR ''-''
                   else if i = 14 then s ! i = CHR ''7''
                   else if i = 19 then s ! i \<in> set ''89ab''
                   else is_lower_hex (s ! i)) [0..<36]"

text \<open>Scalars that a prompt may not contain: noncharacters and control characters but tab and line feed.\<close>

definition disallowedScalar :: "int \<Rightarrow> bool" where
  "disallowedScalar cp \<longleftrightarrow> 64976 \<le> cp \<and> cp \<le> 65007 \<or> cp mod 65536 = 65534 \<or> cp mod 65536 = 65535 \<or>
     cp < 32 \<and> cp \<noteq> 9 \<and> cp \<noteq> 10 \<or> 127 \<le> cp \<and> cp \<le> 159"

fun analyzeUnicode :: "int list \<Rightarrow> int \<Rightarrow> bool \<times> int" where
  "analyzeUnicode [] scalars = (True, scalars)"
| "analyzeUnicode (u # us) scalars =
     (if 55296 \<le> u \<and> u \<le> 56319 then
        (case us of [] \<Rightarrow> (False, scalars)
         | v # vs \<Rightarrow>
             if \<not> (56320 \<le> v \<and> v \<le> 57343) then (False, scalars)
             else if disallowedScalar (65536 + (u - 55296) * 1024 + (v - 56320)) then (False, scalars)
             else analyzeUnicode vs (scalars + 1))
      else if 56320 \<le> u \<and> u \<le> 57343 then (False, scalars)
      else if disallowedScalar u then (False, scalars)
      else analyzeUnicode us (scalars + 1))"

text \<open>\<open>value.replace(/\r\n?/g, "\n")\<close>, and the length in bytes of the UTF-8 form of code units below 256.\<close>

fun normalizeNewlines :: "string \<Rightarrow> string" where
  "normalizeNewlines [] = []"
| "normalizeNewlines [c] = [if c = CHR 0x0D then CHR 0x0A else c]"
| "normalizeNewlines (c # d # cs) =
     (if c = CHR 0x0D \<and> d = CHR 0x0A then CHR 0x0A # normalizeNewlines cs
      else (if c = CHR 0x0D then CHR 0x0A else c) # normalizeNewlines (d # cs))"

definition utf8Length :: "string \<Rightarrow> int" where
  "utf8Length s = sum_list (map (\<lambda>c. if (of_char c :: int) < 128 then 1 else 2) s)"

definition bodyOk :: "string \<Rightarrow> bool" where
  "bodyOk body = (case analyzeUnicode (map of_char body) 0 of (valid, scalars) \<Rightarrow>
     valid \<and> scalars \<noteq> 0 \<and> scalars \<le> STEERING_BODY_MAX_SCALARS \<and> utf8Length body \<le> STEERING_BODY_MAX_BYTES)"

definition normalizeSteeringBody :: "string \<Rightarrow> string option" where
  "normalizeSteeringBody value = (let normalized = normalizeNewlines value in if bodyOk normalized then Some normalized else None)"

definition validateCommandRelations :: "SteeringPrims \<Rightarrow> SteeringCommand \<Rightarrow> bool" where
  "validateCommandRelations P c \<longleftrightarrow> distinct (sc_evidenceRefs c) \<and>
     sc_supersedesCommandId c \<noteq> Some (sc_commandId c) \<and>
     (case sc_expiresAt c of None \<Rightarrow> True | Some t \<Rightarrow> \<not> sx_dateParse P t \<le> sx_dateParse P (sc_createdAt c))"

definition parseSteeringCommand :: "SteeringPrims \<Rightarrow> SteeringCommand \<Rightarrow> SteeringCommand option" where
  "parseSteeringCommand P c =
     (case normalizeSteeringBody (sc_body c) of None \<Rightarrow> None
      | Some body \<Rightarrow> let c' = c\<lparr>sc_body := body\<rparr> in
          if uuidV7 (sc_commandId c) \<and> (case sc_supersedesCommandId c of None \<Rightarrow> True | Some i \<Rightarrow> uuidV7 i) \<and>
             validateCommandRelations P c' \<and> sc_bodySha256 c' = sx_sha256Text P body
          then Some c' else None)"

definition sameSteeringTarget :: "'a SteeringFence_scheme \<Rightarrow> 'b SteeringFence_scheme \<Rightarrow> bool" where
  "sameSteeringTarget l r \<longleftrightarrow> fx_runId l = fx_runId r \<and> fx_runEpoch l = fx_runEpoch r \<and>
     fx_taskId l = fx_taskId r \<and> fx_taskGeneration l = fx_taskGeneration r \<and>
     fx_sessionId l = fx_sessionId r \<and> fx_sessionGeneration l = fx_sessionGeneration r"

text \<open>Validation of a persisted event: its scope and its two digests.\<close>

definition parseEvent :: "SteeringPrims \<Rightarrow> ControlEvent \<Rightarrow> SteeringReductionErrorCode + unit" where
  "parseEvent P e = checks [(assertControlEventScope e \<noteq> Inr () \<or> ev_seq e < 1 \<or> \<not> sx_eventDigestsOk P e, MALFORMED_EVENT)]"

section \<open>Records\<close>

definition commandOf :: "SteeringCommandRecord \<Rightarrow> SteeringCommand option" where
  "commandOf r = (case r of RecPending c _ \<Rightarrow> Some c | RecIncluded c _ _ _ _ _ \<Rightarrow> Some c | RecWithdrawn c _ _ _ \<Rightarrow> Some c
     | RecSuperseded c _ _ _ \<Rightarrow> Some c | RecExpired c _ _ \<Rightarrow> Some c | RecRefused _ _ \<Rightarrow> None
     | RecTerminalRefused c _ _ _ \<Rightarrow> Some c)"

definition commandIdOf :: "SteeringCommandRecord \<Rightarrow> string" where
  "commandIdOf r = (case r of RecRefused f _ \<Rightarrow> rf_commandId f | _ \<Rightarrow> (case commandOf r of None \<Rightarrow> [] | Some c \<Rightarrow> sc_commandId c))"

text \<open>The fields \<open>admittedSeq\<close> and \<open>terminalSeq\<close>; a record that lacks the field has none.\<close>

definition admittedSeqOf :: "SteeringCommandRecord \<Rightarrow> nat option" where
  "admittedSeqOf r = (case r of RecPending _ s \<Rightarrow> Some s | RecIncluded _ s _ _ _ _ \<Rightarrow> Some s | RecWithdrawn _ s _ _ \<Rightarrow> Some s
     | RecSuperseded _ s _ _ \<Rightarrow> Some s | RecExpired _ s _ \<Rightarrow> Some s | RecRefused _ _ \<Rightarrow> None
     | RecTerminalRefused _ s _ _ \<Rightarrow> Some s)"

definition terminalSeqOf :: "SteeringCommandRecord \<Rightarrow> nat option" where
  "terminalSeqOf r = (case r of RecPending _ _ \<Rightarrow> None | RecIncluded _ _ s _ _ _ \<Rightarrow> Some s | RecWithdrawn _ _ s _ \<Rightarrow> Some s
     | RecSuperseded _ _ s _ \<Rightarrow> Some s | RecExpired _ _ s \<Rightarrow> Some s | RecRefused _ s \<Rightarrow> Some s
     | RecTerminalRefused _ _ s _ \<Rightarrow> Some s)"

definition isPending :: "SteeringCommandRecord \<Rightarrow> bool" where
  "isPending r = (case r of RecPending _ _ \<Rightarrow> True | _ \<Rightarrow> False)"

definition pendingAt :: "SteeringProjection \<Rightarrow> string \<Rightarrow> bool" where
  "pendingAt sp i = (case obj_get (sp_commands sp) i of None \<Rightarrow> False | Some r \<Rightarrow> isPending r)"

definition manifestContaining :: "SteeringProjection \<Rightarrow> string \<Rightarrow> SteeringManifest option" where
  "manifestContaining sp i = find (\<lambda>m. i \<in> set (mf_steeringCommandIds m)) (obj_values (sp_manifests sp))"

text \<open>\<open>findIndex\<close>, with \<open>-1\<close> as \<open>None\<close>.\<close>

fun findIndex :: "('a \<Rightarrow> bool) \<Rightarrow> 'a list \<Rightarrow> nat option" where
  "findIndex p [] = None"
| "findIndex p (x # xs) = (if p x then Some 0 else map_option Suc (findIndex p xs))"

definition incompletePromptBinding ::
    "SteeringProjection \<Rightarrow> SteeringReductionErrorCode + (SteeringManifest \<times> string \<times> nat) option" where
  "incompletePromptBinding sp =
     (let incomplete = List.map_filter (\<lambda>m. map_option (\<lambda>i. (m, mf_steeringCommandIds m ! i, i))
                          (findIndex (pendingAt sp) (mf_steeringCommandIds m))) (obj_values (sp_manifests sp)) in
      case incomplete of [] \<Rightarrow> Inr None | [b] \<Rightarrow> Inr (Some b) | _ \<Rightarrow> Inl INVALID_SNAPSHOT)"

text \<open>\<open>sort\<close> by admission, then \<open>localeCompare\<close> of the command identifiers.\<close>

definition canonicalIds :: "SteeringCommandRecord list \<Rightarrow> string list" where
  "canonicalIds rs = map commandIdOf (sort_key (\<lambda>r. (case admittedSeqOf r of None \<Rightarrow> 0 | Some s \<Rightarrow> s, collate_key (commandIdOf r))) rs)"

section \<open>Snapshots: parseSteeringProjection and assertSteeringProjectionConsistent\<close>

definition recordSchemaOk :: "SteeringPrims \<Rightarrow> nat \<Rightarrow> string \<Rightarrow> SteeringCommandRecord \<Rightarrow> bool" where
  "recordSchemaOk P observedSeq k r \<longleftrightarrow> uuidV7 k \<and>
     (case commandOf r of None \<Rightarrow> uuidV7 (commandIdOf r) | Some c \<Rightarrow> parseSteeringCommand P c \<noteq> None) \<and>
     (case r of RecSuperseded _ _ _ by \<Rightarrow> uuidV7 by | _ \<Rightarrow> True) \<and>
     (case admittedSeqOf r of None \<Rightarrow> True | Some s \<Rightarrow> 1 \<le> s) \<and>
     (case terminalSeqOf r of None \<Rightarrow> True | Some s \<Rightarrow> 1 \<le> s) \<and>
     k = commandIdOf r \<and>
     (case terminalSeqOf r of None \<Rightarrow> (case admittedSeqOf r of None \<Rightarrow> True | Some s \<Rightarrow> s \<le> observedSeq)
      | Some t \<Rightarrow> t \<le> observedSeq \<and> (case admittedSeqOf r of None \<Rightarrow> True | Some s \<Rightarrow> s < t))"

definition manifestSchemaOk :: "nat \<Rightarrow> string \<Rightarrow> SteeringManifest \<Rightarrow> bool" where
  "manifestSchemaOk observedSeq k m \<longleftrightarrow> list_all uuidV7 (mf_steeringCommandIds m) \<and> 1 \<le> mf_preparedSeq m \<and>
     k = mf_attemptId m \<and> mf_preparedSeq m \<le> observedSeq \<and> mf_captureCutoffSeq m < mf_preparedSeq m \<and>
     distinct (mf_steeringCommandIds m)"

text \<open>Parsing a record returns it with the body of its command normalized.\<close>

definition normalizeRecord :: "SteeringCommandRecord \<Rightarrow> SteeringCommandRecord" where
  "normalizeRecord r = (let n = (\<lambda>c. c\<lparr>sc_body := normalizeNewlines (sc_body c)\<rparr>) in
     case r of RecPending c a \<Rightarrow> RecPending (n c) a | RecIncluded c a t i g h \<Rightarrow> RecIncluded (n c) a t i g h
     | RecWithdrawn c a t w \<Rightarrow> RecWithdrawn (n c) a t w | RecSuperseded c a t b \<Rightarrow> RecSuperseded (n c) a t b
     | RecExpired c a t \<Rightarrow> RecExpired (n c) a t | RecRefused f t \<Rightarrow> RecRefused f t
     | RecTerminalRefused c a t w \<Rightarrow> RecTerminalRefused (n c) a t w)"

definition parseSteeringProjection :: "SteeringPrims \<Rightarrow> SteeringProjection \<Rightarrow> SteeringReductionErrorCode + SteeringProjection" where
  "parseSteeringProjection P sp =
     (if list_all (\<lambda>(k, r). recordSchemaOk P (sp_observedSeq sp) k r) (sp_commands sp) \<and>
         list_all (\<lambda>(k, m). manifestSchemaOk (sp_observedSeq sp) k m) (sp_manifests sp)
      then Inr (sp\<lparr>sp_commands := map (\<lambda>(k, r). (k, normalizeRecord r)) (sp_commands sp)\<rparr>)
      else Inl INVALID_SNAPSHOT)"

text \<open>One command identifier of a manifest: an admitted command of the same target, pending or included by it.\<close>

definition bindingOk :: "bool \<Rightarrow> SteeringProjection \<Rightarrow> SteeringManifest \<Rightarrow> string \<Rightarrow> bool" where
  "bindingOk requireComplete sp m i =
     (case obj_get (sp_commands sp) i of
        Some (RecPending c a) \<Rightarrow> sameSteeringTarget c m \<and> a \<le> mf_captureCutoffSeq m \<and>
          sc_notBeforeAttemptGeneration c \<le> mf_attemptGeneration m \<and> \<not> requireComplete
      | Some (RecIncluded c a t x g h) \<Rightarrow> sameSteeringTarget c m \<and> a \<le> mf_captureCutoffSeq m \<and>
          sc_notBeforeAttemptGeneration c \<le> mf_attemptGeneration m \<and>
          x = mf_attemptId m \<and> g = mf_attemptGeneration m \<and> h = mf_promptSha256 m \<and>
          (case findIndex (\<lambda>j. j = i) (mf_steeringCommandIds m) of None \<Rightarrow> False | Some idx \<Rightarrow> t = mf_preparedSeq m + idx + 1)
      | _ \<Rightarrow> False)"

definition manifestRecords :: "SteeringProjection \<Rightarrow> SteeringManifest \<Rightarrow> SteeringCommandRecord list" where
  "manifestRecords sp m = filter (\<lambda>r. commandOf r \<noteq> None) (List.map_filter (obj_get (sp_commands sp)) (mf_steeringCommandIds m))"

definition manifestOk :: "bool \<Rightarrow> SteeringProjection \<Rightarrow> SteeringManifest \<Rightarrow> bool" where
  "manifestOk requireComplete sp m \<longleftrightarrow> fx_runId m = sp_runId sp \<and> fx_runEpoch m = sp_runEpoch sp \<and>
     list_all (bindingOk requireComplete sp m) (mf_steeringCommandIds m) \<and>
     canonicalIds (manifestRecords sp m) = mf_steeringCommandIds m"

definition boundIds :: "SteeringProjection \<Rightarrow> string list" where
  "boundIds sp = concat (map mf_steeringCommandIds (obj_values (sp_manifests sp)))"

definition recordOk :: "SteeringProjection \<Rightarrow> string \<Rightarrow> SteeringCommandRecord \<Rightarrow> bool" where
  "recordOk sp k r \<longleftrightarrow> k = commandIdOf r \<and>
     (case commandOf r of None \<Rightarrow> True | Some c \<Rightarrow> fx_runId c = sp_runId sp \<and> fx_runEpoch c = sp_runEpoch sp) \<and>
     (case r of RecRefused f _ \<Rightarrow> fx_runId f = sp_runId sp \<and> fx_runEpoch f = sp_runEpoch sp
      | RecIncluded _ _ _ _ _ _ \<Rightarrow> k \<in> set (boundIds sp)
      | RecSuperseded c _ _ by \<Rightarrow>
          (case obj_get (sp_commands sp) by of None \<Rightarrow> False
           | Some r' \<Rightarrow> (case commandOf r' of None \<Rightarrow> False
               | Some c' \<Rightarrow> sc_supersedesCommandId c' = Some k \<and> sameSteeringTarget c c'))
      | RecExpired c _ _ \<Rightarrow> sc_expiresAt c \<noteq> None
      | _ \<Rightarrow> True)"

definition assertSteeringProjectionConsistent :: "bool \<Rightarrow> SteeringProjection \<Rightarrow> SteeringReductionErrorCode + unit" where
  "assertSteeringProjectionConsistent requireComplete sp =
     (if list_all (manifestOk requireComplete sp) (obj_values (sp_manifests sp)) \<and> distinct (boundIds sp)
      then bind_res (incompletePromptBinding sp) (\<lambda>_.
           if list_all (\<lambda>(k, r). recordOk sp k r) (sp_commands sp) then Inr () else Inl INVALID_SNAPSHOT)
      else Inl INVALID_SNAPSHOT)"

definition restoreSteeringProjection :: "SteeringPrims \<Rightarrow> SteeringProjection \<Rightarrow> SteeringReductionErrorCode + SteeringProjection" where
  "restoreSteeringProjection P value =
     bind_res (parseSteeringProjection P value) (\<lambda>sp.
     bind_res (assertSteeringProjectionConsistent False sp) (\<lambda>_. Inr sp))"

definition emptySteeringProjection :: "string \<Rightarrow> string \<Rightarrow> SteeringProjection" where
  "emptySteeringProjection runId runEpoch =
     \<lparr>sp_runId = runId, sp_runEpoch = runEpoch, sp_observedSeq = 0, sp_commands = [], sp_manifests = []\<rparr>"

section \<open>Guards of the handlers\<close>

definition assertAuthorizedActor :: "ControlEvent \<Rightarrow> SteeringReductionErrorCode + unit" where
  "assertAuthorizedActor e =
     (let parent = ev_actorKind e = ActControlPlane; system = ev_actorKind e = ActSystem; operator = ev_actorKind e = ActOperator;
          allowed = (case ev_body e of
            EvAttemptPrepared _ \<Rightarrow> parent \<or> system
          | EvSteeringIncluded _ _ _ _ \<Rightarrow> parent \<or> system
          | EvSteeringExpired _ \<Rightarrow> parent \<or> system
          | EvSteeringAdmitted _ \<Rightarrow> parent \<or> operator
          | EvSteeringRefused _ \<Rightarrow> parent \<or> operator
          | EvSteeringTerminalRefused _ \<Rightarrow> parent \<or> operator
          | EvSteeringWithdrawn _ _ \<Rightarrow> parent \<or> operator
          | EvSteeringSuperseded _ _ \<Rightarrow> parent \<or> operator
          | _ \<Rightarrow> True) in
      checks [(\<not> allowed, UNAUTHORIZED_ACTOR)])"

definition requirePending :: "SteeringProjection \<Rightarrow> string \<Rightarrow> SteeringReductionErrorCode + SteeringCommand \<times> nat" where
  "requirePending sp i =
     (case obj_get (sp_commands sp) i of
        None \<Rightarrow> Inl MISSING_COMMAND
      | Some (RecPending c a) \<Rightarrow> Inr (c, a)
      | Some _ \<Rightarrow> Inl INVALID_TRANSITION)"

definition assertUnreserved :: "SteeringProjection \<Rightarrow> string \<Rightarrow> SteeringReductionErrorCode + unit" where
  "assertUnreserved sp i = checks [(manifestContaining sp i \<noteq> None, INVALID_TRANSITION)]"

text \<open>\<open>targetMatchesEvent\<close>, for an event whose payload names the session.\<close>

definition targetMatchesEvent :: "'a SteeringFence_scheme \<Rightarrow> ControlEvent \<Rightarrow> string \<Rightarrow> nat \<Rightarrow> bool" where
  "targetMatchesEvent c e sessionId sessionGeneration \<longleftrightarrow> fx_runId c = ev_runId e \<and> fx_runEpoch c = ev_runEpoch e \<and>
     Some (fx_taskId c) = ev_taskId e \<and> Some (fx_taskGeneration c) = ev_taskGeneration e \<and>
     fx_sessionId c = sessionId \<and> fx_sessionGeneration c = sessionGeneration"

definition assertEventTarget :: "SteeringCommand \<Rightarrow> ControlEvent \<Rightarrow> string \<Rightarrow> nat \<Rightarrow> SteeringReductionErrorCode + unit" where
  "assertEventTarget c e sessionId sessionGeneration =
     checks [(\<not> targetMatchesEvent c e sessionId sessionGeneration, TARGET_MISMATCH)]"

definition expiredAt :: "SteeringPrims \<Rightarrow> SteeringCommand \<Rightarrow> ControlEvent \<Rightarrow> bool" where
  "expiredAt P c e = (case sc_expiresAt c of None \<Rightarrow> False | Some t \<Rightarrow> sx_dateParse P t \<le> sx_dateParse P (ev_occurredAt e))"

definition setCommand :: "string \<Rightarrow> SteeringCommandRecord \<Rightarrow> SteeringProjection \<Rightarrow> SteeringProjection" where
  "setCommand i r sp = sp\<lparr>sp_commands := obj_set i r (sp_commands sp)\<rparr>"

section \<open>Handlers\<close>

text \<open>The selection of a prompt: each command is pending, free, of this target, eligible and not expired.\<close>

definition selectCommand :: "SteeringPrims \<Rightarrow> SteeringProjection \<Rightarrow> ControlEvent \<Rightarrow> AttemptPreparedPayload \<Rightarrow> string
    \<Rightarrow> SteeringReductionErrorCode + SteeringCommandRecord" where
  "selectCommand P sp e p i =
     bind_res (requirePending sp i) (\<lambda>(c, a).
     bind_res (assertUnreserved sp i) (\<lambda>_.
     bind_res (assertEventTarget c e (ab_sessionId p) (ab_sessionGeneration p)) (\<lambda>_.
     bind_res (checks [(sc_notBeforeAttemptGeneration c > ab_attemptGeneration p, CUTOFF_VIOLATION),
                       (a > ap_captureCutoffSeq p, CUTOFF_VIOLATION),
                       (expiredAt P c e, EXPIRY_MISMATCH)]) (\<lambda>_.
     Inr (RecPending c a)))))"

definition selectCommands :: "SteeringPrims \<Rightarrow> SteeringProjection \<Rightarrow> ControlEvent \<Rightarrow> AttemptPreparedPayload
    \<Rightarrow> SteeringReductionErrorCode + SteeringCommandRecord list" where
  "selectCommands P sp e p =
     fold_res (\<lambda>selected i. bind_res (selectCommand P sp e p i) (\<lambda>r. Inr (selected @ [r]))) [] (ap_steeringCommandIds p)"

definition applyPrepared :: "SteeringPrims \<Rightarrow> SteeringProjection \<Rightarrow> ControlEvent \<Rightarrow> AttemptPreparedPayload
    \<Rightarrow> SteeringReductionErrorCode + SteeringProjection" where
  "applyPrepared P sp e p =
     bind_res (checks
       [(obj_has (sp_manifests sp) (ab_attemptId p), DUPLICATE_MANIFEST),
        (ap_captureCutoffSeq p \<noteq> ev_seq e - 1, CUTOFF_VIOLATION),
        (\<not> distinct (ap_steeringCommandIds p), PROMPT_BINDING_MISMATCH),
        (list_ex (\<lambda>m. Some (fx_taskId m) = ev_taskId e \<and> Some (fx_taskGeneration m) = ev_taskGeneration e \<and>
             fx_sessionId m = ab_sessionId p \<and> fx_sessionGeneration m = ab_sessionGeneration p \<and>
             mf_attemptGeneration m = ab_attemptGeneration p) (obj_values (sp_manifests sp)), DUPLICATE_MANIFEST)]) (\<lambda>_.
     bind_res (selectCommands P sp e p) (\<lambda>selected.
     bind_res (checks [(canonicalIds selected \<noteq> ap_steeringCommandIds p, PROMPT_BINDING_MISMATCH)]) (\<lambda>_.
     Inr (sp\<lparr>sp_manifests := obj_set (ab_attemptId p)
        \<lparr>fx_runId = ev_runId e, fx_runEpoch = ev_runEpoch e, fx_taskId = evTask e, fx_taskGeneration = evTaskGen e,
         fx_sessionId = ab_sessionId p, fx_sessionGeneration = ab_sessionGeneration p,
         mf_attemptId = ab_attemptId p, mf_attemptGeneration = ab_attemptGeneration p,
         mf_artifactLocator = ap_artifactLocator p, mf_promptSha256 = ap_promptSha256 p,
         mf_promptBytes = ap_promptBytes p, mf_rendererVersion = ap_rendererVersion p,
         mf_captureCutoffSeq = ap_captureCutoffSeq p, mf_steeringCommandIds = ap_steeringCommandIds p,
         mf_preparedSeq = ev_seq e\<rparr> (sp_manifests sp)\<rparr>))))"

definition admittedCommand :: "ControlEvent \<Rightarrow> SteeringAdmittedPayload \<Rightarrow> SteeringCommand" where
  "admittedCommand e p =
     \<lparr>fx_runId = ev_runId e, fx_runEpoch = ev_runEpoch e, fx_taskId = evTask e, fx_taskGeneration = evTaskGen e,
      fx_sessionId = tg_sessionId p, fx_sessionGeneration = tg_sessionGeneration p,
      sc_notBeforeAttemptGeneration = sa_notBeforeAttemptGeneration p, sc_commandId = tg_commandId p,
      sc_sourceKind = sa_sourceKind p, sc_parentPrincipal = sa_parentPrincipal p, sc_evidenceRefs = sa_evidenceRefs p,
      sc_body = sa_body p, sc_createdAt = sa_createdAt p, sc_expiresAt = sa_expiresAt p,
      sc_supersedesCommandId = sa_supersedesCommandId p, sc_bodySha256 = sa_bodySha256 p\<rparr>"

text \<open>A replacement names a pending, free command of the same target.\<close>

definition assertSupersedes :: "SteeringProjection \<Rightarrow> SteeringCommand \<Rightarrow> SteeringReductionErrorCode + unit" where
  "assertSupersedes sp c =
     (case sc_supersedesCommandId c of None \<Rightarrow> Inr ()
      | Some i \<Rightarrow> bind_res (requirePending sp i) (\<lambda>(old, _).
          bind_res (assertUnreserved sp i) (\<lambda>_.
          checks [(\<not> sameSteeringTarget c old, SUPERSESSION_MISMATCH)])))"

definition applyAdmitted :: "SteeringPrims \<Rightarrow> SteeringProjection \<Rightarrow> ControlEvent \<Rightarrow> SteeringAdmittedPayload
    \<Rightarrow> SteeringReductionErrorCode + SteeringProjection" where
  "applyAdmitted P sp e p =
     bind_res (checks [(obj_has (sp_commands sp) (tg_commandId p), DUPLICATE_COMMAND)]) (\<lambda>_.
     bind_res (require_some MALFORMED_EVENT (parseSteeringCommand P (admittedCommand e p))) (\<lambda>c.
     bind_res (checks [(sc_body c \<noteq> sa_body p, MALFORMED_EVENT)]) (\<lambda>_.
     bind_res (assertEventTarget c e (tg_sessionId p) (tg_sessionGeneration p)) (\<lambda>_.
     bind_res (checks [(expiredAt P c e, EXPIRY_MISMATCH)]) (\<lambda>_.
     bind_res (assertSupersedes sp c) (\<lambda>_.
     Inr (setCommand (sc_commandId c) (RecPending c (ev_seq e)) sp)))))))"

definition applyRefused :: "SteeringProjection \<Rightarrow> ControlEvent \<Rightarrow> SteeringRefusedPayload
    \<Rightarrow> SteeringReductionErrorCode + SteeringProjection" where
  "applyRefused sp e p =
     bind_res (checks [(obj_has (sp_commands sp) (tg_commandId p), DUPLICATE_COMMAND),
                       (\<not> uuidV7 (tg_commandId p), MALFORMED_EVENT)]) (\<lambda>_.
     Inr (setCommand (tg_commandId p) (RecRefused
        \<lparr>fx_runId = ev_runId e, fx_runEpoch = ev_runEpoch e, fx_taskId = evTask e, fx_taskGeneration = evTaskGen e,
         fx_sessionId = tg_sessionId p, fx_sessionGeneration = tg_sessionGeneration p,
         rf_commandId = tg_commandId p, rf_bodySha256 = sr_bodySha256 p,
         rf_requestSemanticDigest = sr_requestSemanticDigest p, rf_observedSeq = sr_observedSeq p,
         rf_observedActivity = sr_observedActivity p, rf_reasonCode = sr_reasonCode p\<rparr> (ev_seq e)) sp))"

text \<open>The command an event closes: pending, bound to no prompt, of the event's target.\<close>

definition closable :: "SteeringProjection \<Rightarrow> ControlEvent \<Rightarrow> 'a SteeringTarget_scheme \<Rightarrow> SteeringReductionErrorCode + SteeringCommand \<times> nat" where
  "closable sp e p =
     bind_res (requirePending sp (tg_commandId p)) (\<lambda>(c, a).
     bind_res (assertUnreserved sp (tg_commandId p)) (\<lambda>_.
     bind_res (assertEventTarget c e (tg_sessionId p) (tg_sessionGeneration p)) (\<lambda>_.
     Inr (c, a))))"

definition applyTerminalRefused :: "SteeringPrims \<Rightarrow> SteeringProjection \<Rightarrow> ControlEvent \<Rightarrow> SteeringTerminalRefusedPayload
    \<Rightarrow> SteeringReductionErrorCode + SteeringProjection" where
  "applyTerminalRefused P sp e p =
     bind_res (closable sp e p) (\<lambda>(c, a).
     bind_res (require_some MALFORMED_EVENT (parseSteeringCommand P c)) (\<lambda>parsed.
     bind_res (checks [(st_requestSemanticDigest p \<noteq> sx_semanticDigest P parsed, PROMPT_BINDING_MISMATCH),
                       (st_observedSeq p > ev_seq e - 1, CUTOFF_VIOLATION)]) (\<lambda>_.
     Inr (setCommand (tg_commandId p) (RecTerminalRefused c a (ev_seq e)
        \<lparr>tr_requestSemanticDigest = st_requestSemanticDigest p, tr_observedSeq = st_observedSeq p,
         tr_observedActivity = st_observedActivity p, tr_reasonCode = st_reasonCode p\<rparr>) sp))))"

definition applyIncluded :: "SteeringProjection \<Rightarrow> ControlEvent \<Rightarrow> SteeringTarget \<Rightarrow> string \<Rightarrow> nat \<Rightarrow> string
    \<Rightarrow> SteeringReductionErrorCode + SteeringProjection" where
  "applyIncluded sp e p attemptId attemptGeneration promptSha256 =
     bind_res (requirePending sp (tg_commandId p)) (\<lambda>(c, a).
     bind_res (assertEventTarget c e (tg_sessionId p) (tg_sessionGeneration p)) (\<lambda>_.
     bind_res (require_some MISSING_MANIFEST (obj_get (sp_manifests sp) attemptId)) (\<lambda>m.
     bind_res (checks
       [(\<not> targetMatchesEvent m e (tg_sessionId p) (tg_sessionGeneration p) \<or>
         mf_attemptGeneration m \<noteq> attemptGeneration \<or> mf_promptSha256 m \<noteq> promptSha256 \<or>
         tg_commandId p \<notin> set (mf_steeringCommandIds m), PROMPT_BINDING_MISMATCH),
        (a > mf_captureCutoffSeq m, CUTOFF_VIOLATION),
        (map_option (\<lambda>i. mf_preparedSeq m + i + 1) (findIndex (\<lambda>j. j = tg_commandId p) (mf_steeringCommandIds m)) \<noteq> Some (ev_seq e),
         PROMPT_BINDING_MISMATCH)]) (\<lambda>_.
     Inr (setCommand (tg_commandId p)
       (RecIncluded c a (ev_seq e) (mf_attemptId m) (mf_attemptGeneration m) (mf_promptSha256 m)) sp)))))"

definition applyWithdrawn :: "SteeringProjection \<Rightarrow> ControlEvent \<Rightarrow> SteeringTarget \<Rightarrow> string option
    \<Rightarrow> SteeringReductionErrorCode + SteeringProjection" where
  "applyWithdrawn sp e p reason =
     bind_res (closable sp e p) (\<lambda>(c, a). Inr (setCommand (tg_commandId p) (RecWithdrawn c a (ev_seq e) reason) sp))"

definition applySuperseded :: "SteeringProjection \<Rightarrow> ControlEvent \<Rightarrow> SteeringTarget \<Rightarrow> string
    \<Rightarrow> SteeringReductionErrorCode + SteeringProjection" where
  "applySuperseded sp e p byCommandId =
     bind_res (closable sp e p) (\<lambda>(old, a).
     bind_res (requirePending sp byCommandId) (\<lambda>(replacement, _).
     bind_res (checks [(sc_supersedesCommandId replacement \<noteq> Some (sc_commandId old) \<or> \<not> sameSteeringTarget old replacement,
                        SUPERSESSION_MISMATCH)]) (\<lambda>_.
     Inr (setCommand (sc_commandId old) (RecSuperseded old a (ev_seq e) (sc_commandId replacement)) sp))))"

definition applyExpired :: "SteeringPrims \<Rightarrow> SteeringProjection \<Rightarrow> ControlEvent \<Rightarrow> SteeringTarget
    \<Rightarrow> SteeringReductionErrorCode + SteeringProjection" where
  "applyExpired P sp e p =
     bind_res (closable sp e p) (\<lambda>(c, a).
     bind_res (checks [(case sc_expiresAt c of None \<Rightarrow> True | Some t \<Rightarrow> sx_dateParse P (ev_occurredAt e) < sx_dateParse P t,
                        EXPIRY_MISMATCH)]) (\<lambda>_.
     Inr (setCommand (sc_commandId c) (RecExpired c a (ev_seq e)) sp)))"

section \<open>The reducer\<close>

text \<open>An incomplete prompt admits one event only: the inclusion of its next command.\<close>

definition continuesBinding :: "ControlEvent \<Rightarrow> (SteeringManifest \<times> string \<times> nat) option \<Rightarrow> bool" where
  "continuesBinding e incomplete =
     (case incomplete of None \<Rightarrow> True
      | Some (m, nextCommandId, _) \<Rightarrow> (case ev_body e of
          EvSteeringIncluded p attemptId _ _ \<Rightarrow> attemptId = mf_attemptId m \<and> tg_commandId p = nextCommandId
        | _ \<Rightarrow> False))"

definition applySteeringBody :: "SteeringPrims \<Rightarrow> SteeringProjection \<Rightarrow> ControlEvent \<Rightarrow> SteeringReductionErrorCode + SteeringProjection" where
  "applySteeringBody P sp e =
     (case ev_body e of
        EvAttemptPrepared p \<Rightarrow> applyPrepared P sp e p
      | EvSteeringAdmitted p \<Rightarrow> applyAdmitted P sp e p
      | EvSteeringRefused p \<Rightarrow> applyRefused sp e p
      | EvSteeringTerminalRefused p \<Rightarrow> applyTerminalRefused P sp e p
      | EvSteeringIncluded p attemptId g h \<Rightarrow> applyIncluded sp e p attemptId g h
      | EvSteeringWithdrawn p reason \<Rightarrow> applyWithdrawn sp e p reason
      | EvSteeringSuperseded p by \<Rightarrow> applySuperseded sp e p by
      | EvSteeringExpired p \<Rightarrow> applyExpired P sp e p
      | _ \<Rightarrow> Inr sp)"

definition applySteeringEvent :: "SteeringPrims \<Rightarrow> SteeringProjection \<Rightarrow> ControlEvent \<Rightarrow> SteeringReductionErrorCode + SteeringProjection" where
  "applySteeringEvent P current e =
     bind_res (restoreSteeringProjection P current) (\<lambda>sp.
     bind_res (parseEvent P e) (\<lambda>_.
     bind_res (checks [(ev_runId e \<noteq> sp_runId sp \<or> ev_runEpoch e \<noteq> sp_runEpoch sp, RUN_IDENTITY_MISMATCH),
                       (ev_seq e \<noteq> sp_observedSeq sp + 1, NON_CONTIGUOUS_SEQUENCE)]) (\<lambda>_.
     bind_res (assertAuthorizedActor e) (\<lambda>_.
     bind_res (incompletePromptBinding sp) (\<lambda>incomplete.
     bind_res (checks [(\<not> continuesBinding e incomplete, PROMPT_BINDING_MISMATCH)]) (\<lambda>_.
     bind_res (applySteeringBody P sp e) (\<lambda>sp'.
     Inr (sp'\<lparr>sp_observedSeq := ev_seq e\<rparr>))))))))"

definition reduceSteeringEvents :: "SteeringPrims \<Rightarrow> string \<Rightarrow> string \<Rightarrow> ControlEvent list \<Rightarrow> SteeringProjection option
    \<Rightarrow> SteeringReductionErrorCode + SteeringProjection" where
  "reduceSteeringEvents P runId runEpoch events initial =
     bind_res (restoreSteeringProjection P (case initial of None \<Rightarrow> emptySteeringProjection runId runEpoch | Some s \<Rightarrow> s)) (\<lambda>sp.
     bind_res (checks [(sp_runId sp \<noteq> runId \<or> sp_runEpoch sp \<noteq> runEpoch, RUN_IDENTITY_MISMATCH)]) (\<lambda>_.
     fold_res (applySteeringEvent P) sp events))"

definition pendingSteeringCommands :: "SteeringProjection \<Rightarrow> SteeringCommand list" where
  "pendingSteeringCommands sp =
     map snd (sort_key (\<lambda>(a, c). (a, collate_key (sc_commandId c)))
       (List.map_filter (\<lambda>r. case r of RecPending c a \<Rightarrow> if sc_commandId c \<in> set (boundIds sp) then None else Some (a, c) | _ \<Rightarrow> None)
          (obj_values (sp_commands sp))))"

end
