(* ===== verification/Steering_Props.thy ===== *)
theory Steering_Props
  imports Steering
begin

text \<open>
  What the steering reducer keeps: \<open>steering_good\<close> is the invariant of the projections it reaches. It implies
  that the snapshot check accepts them unchanged, and it is kept by every accepted event. Bodies,
  inclusion of commands in prompts, authority of actors and finality follow.
\<close>

section \<open>Bodies\<close>

lemma normalizeNewlines_no_CR: "CHR 0x0D \<notin> set (normalizeNewlines s)"
  by (induction s rule: normalizeNewlines.induct) auto

lemma normalizeNewlines_id: "CHR 0x0D \<notin> set s \<Longrightarrow> normalizeNewlines s = s"
  by (induction s rule: normalizeNewlines.induct) auto

lemma normalizeNewlines_idem [simp]: "normalizeNewlines (normalizeNewlines s) = normalizeNewlines s"
  by (rule normalizeNewlines_id [OF normalizeNewlines_no_CR])

lemma parseSteeringCommand_normal:
  assumes "parseSteeringCommand P c = Some c'"
  shows "c' = c\<lparr>sc_body := normalizeNewlines (sc_body c)\<rparr> \<and> parseSteeringCommand P c' = Some c' \<and> uuidV7 (sc_commandId c)"
  using assms by (auto simp: parseSteeringCommand_def normalizeSteeringBody_def Let_def validateCommandRelations_def
      split: option.splits if_splits)

section \<open>Searching lists\<close>

lemma findIndex_Some:
  "findIndex p xs = Some i \<longleftrightarrow> i < length xs \<and> p (xs ! i) \<and> (\<forall>j < i. \<not> p (xs ! j))"
proof (induction xs arbitrary: i)
  case (Cons x xs)
  show ?case
    by (cases i) (auto simp: Cons less_Suc_eq_0_disj)
qed simp

lemma findIndex_None: "findIndex p xs = None \<longleftrightarrow> (\<forall>x \<in> set xs. \<not> p x)"
  by (induction xs) auto

lemma findIndex_unique: "distinct xs \<Longrightarrow> i < length xs \<Longrightarrow> findIndex (\<lambda>j. j = xs ! i) xs = Some i"
  by (auto simp: findIndex_Some nth_eq_iff_index_eq)

lemma find_None_mem: "manifestContaining sp i = None \<longleftrightarrow> i \<notin> set (boundIds sp)"
  by (auto simp: manifestContaining_def boundIds_def find_None_iff)

section \<open>Incomplete prompts\<close>

definition complete_in :: "SteeringProjection \<Rightarrow> SteeringManifest \<Rightarrow> bool" where
  "complete_in sp m \<longleftrightarrow> (\<forall>i \<in> set (mf_steeringCommandIds m). \<not> pendingAt sp i)"

lemma complete_in_findIndex: "complete_in sp m \<longleftrightarrow> findIndex (pendingAt sp) (mf_steeringCommandIds m) = None"
  by (simp add: complete_in_def findIndex_None)

abbreviation incomplete_list :: "SteeringProjection \<Rightarrow> (SteeringManifest \<times> string \<times> nat) list" where
  "incomplete_list sp \<equiv> List.map_filter (\<lambda>m. map_option (\<lambda>i. (m, mf_steeringCommandIds m ! i, i))
     (findIndex (pendingAt sp) (mf_steeringCommandIds m))) (obj_values (sp_manifests sp))"

lemma incomplete_none:
  "incompletePromptBinding sp = Inr None \<longleftrightarrow> (\<forall>m \<in> set (obj_values (sp_manifests sp)). complete_in sp m)"
proof -
  have "List.map_filter (\<lambda>m. map_option (\<lambda>i. (m, mf_steeringCommandIds m ! i, i))
      (findIndex (pendingAt sp) (mf_steeringCommandIds m))) ms = [] \<longleftrightarrow> (\<forall>m \<in> set ms. complete_in sp m)" for ms
    by (induction ms) (auto simp: complete_in_findIndex split: option.splits)
  then have "incomplete_list sp = [] \<longleftrightarrow> (\<forall>m \<in> set (obj_values (sp_manifests sp)). complete_in sp m)" by simp
  moreover have "incompletePromptBinding sp = Inr None \<longleftrightarrow> incomplete_list sp = []"
    by (auto simp: incompletePromptBinding_def Let_def split: list.splits)
  ultimately show ?thesis by simp
qed

lemma map_filter_single:
  "List.map_filter f xs = [b] \<longleftrightarrow> (\<exists>pre x post. xs = pre @ x # post \<and> f x = Some b \<and>
     (\<forall>y \<in> set pre \<union> set post. f y = None))"
proof (induction xs)
  case (Cons x xs)
  have nil: "List.map_filter f ys = [] \<longleftrightarrow> (\<forall>y \<in> set ys. f y = None)" for ys
    by (induction ys) (auto split: option.splits)
  show ?case
  proof (cases "f x")
    case None
    then show ?thesis
    proof (intro iffI)
      assume "List.map_filter f (x # xs) = [b]"
      with None Cons obtain pre y post where "xs = pre @ y # post" "f y = Some b" "\<forall>z \<in> set pre \<union> set post. f z = None" by auto
      with None show "\<exists>pre y post. x # xs = pre @ y # post \<and> f y = Some b \<and> (\<forall>z \<in> set pre \<union> set post. f z = None)"
        by (intro exI [of _ "x # pre"]) auto
    next
      assume "\<exists>pre y post. x # xs = pre @ y # post \<and> f y = Some b \<and> (\<forall>z \<in> set pre \<union> set post. f z = None)"
      then obtain pre y post where y: "x # xs = pre @ y # post" "f y = Some b" "\<forall>z \<in> set pre \<union> set post. f z = None" by blast
      with None obtain pre' where "pre = x # pre'" by (cases pre) auto
      with y have "\<exists>pre y post. xs = pre @ y # post \<and> f y = Some b \<and> (\<forall>z \<in> set pre \<union> set post. f z = None)" by auto
      with None Cons show "List.map_filter f (x # xs) = [b]" by simp
    qed
  next
    case (Some c)
    show ?thesis
    proof (intro iffI)
      assume "List.map_filter f (x # xs) = [b]"
      with Some have "f x = Some b" "\<forall>y \<in> set xs. f y = None" by (simp_all add: nil)
      then show "\<exists>pre y post. x # xs = pre @ y # post \<and> f y = Some b \<and> (\<forall>z \<in> set pre \<union> set post. f z = None)"
        by (intro exI [of _ "[]"]) simp
    qed (use Some in \<open>auto simp: nil Cons_eq_append_conv\<close>)
  qed
qed simp

lemma incomplete_some:
  "incompletePromptBinding sp = Inr (Some (m, c, i)) \<longleftrightarrow>
   (\<exists>pre post. obj_values (sp_manifests sp) = pre @ m # post \<and> (\<forall>x \<in> set pre \<union> set post. complete_in sp x) \<and>
      findIndex (pendingAt sp) (mf_steeringCommandIds m) = Some i \<and> c = mf_steeringCommandIds m ! i)"
proof -
  have "incompletePromptBinding sp = Inr (Some (m, c, i)) \<longleftrightarrow> incomplete_list sp = [(m, c, i)]"
    by (auto simp: incompletePromptBinding_def Let_def split: list.splits)
  then show ?thesis
    unfolding map_filter_single by (fastforce simp: complete_in_findIndex)
qed

section \<open>The invariant\<close>

definition binding_state_ok :: "SteeringProjection \<Rightarrow> bool" where
  "binding_state_ok sp = (case incompletePromptBinding sp of Inl _ \<Rightarrow> False
     | Inr None \<Rightarrow> True | Inr (Some (m, _, i)) \<Rightarrow> sp_observedSeq sp = mf_preparedSeq m + i)"

definition steering_good :: "SteeringPrims \<Rightarrow> SteeringProjection \<Rightarrow> bool" where
  "steering_good P sp \<longleftrightarrow> obj_wf (sp_commands sp) \<and> obj_wf (sp_manifests sp) \<and>
     (\<forall>k r. obj_get (sp_commands sp) k = Some r \<longrightarrow>
        recordSchemaOk P (sp_observedSeq sp) k r \<and> normalizeRecord r = r \<and> recordOk sp k r) \<and>
     (\<forall>k m. obj_get (sp_manifests sp) k = Some m \<longrightarrow>
        manifestSchemaOk (sp_observedSeq sp) k m \<and> manifestOk False sp m) \<and>
     distinct (boundIds sp) \<and> binding_state_ok sp"

lemma steering_goodD:
  assumes "steering_good P sp"
  shows "obj_wf (sp_commands sp)" "obj_wf (sp_manifests sp)" "distinct (boundIds sp)" "binding_state_ok sp"
    "obj_get (sp_commands sp) k = Some r \<Longrightarrow> recordSchemaOk P (sp_observedSeq sp) k r"
    "obj_get (sp_commands sp) k = Some r \<Longrightarrow> normalizeRecord r = r"
    "obj_get (sp_commands sp) k = Some r \<Longrightarrow> recordOk sp k r"
    "obj_get (sp_manifests sp) k' = Some m \<Longrightarrow> manifestSchemaOk (sp_observedSeq sp) k' m"
    "obj_get (sp_manifests sp) k' = Some m \<Longrightarrow> manifestOk False sp m"
  using assms by (auto simp: steering_good_def)

text \<open>A projection that keeps the invariant is accepted by the snapshot check, unchanged.\<close>

lemma normalize_commands_id:
  assumes "steering_good P sp"
  shows "map (\<lambda>(k, r). (k, normalizeRecord r)) (sp_commands sp) = sp_commands sp"
proof (rule map_idI)
  fix kr assume "kr \<in> set (sp_commands sp)"
  moreover have "distinct (map fst (sp_commands sp))" using steering_goodD(1) [OF assms] by (simp add: obj_wf_def)
  ultimately have "obj_get (sp_commands sp) (fst kr) = Some (snd kr)" by simp
  then show "(case kr of (k, r) \<Rightarrow> (k, normalizeRecord r)) = kr" using steering_goodD(6) [OF assms] by (cases kr) auto
qed

lemma good_restores:
  assumes g: "steering_good P sp"
  shows "restoreSteeringProjection P sp = Inr sp"
proof -
  have "parseSteeringProjection P sp = Inr sp"
    using normalize_commands_id [OF g] steering_goodD [OF g]
    by (simp add: parseSteeringProjection_def obj_all_iff)
  moreover have "\<forall>m \<in> set (obj_values (sp_manifests sp)). manifestOk False sp m"
    using steering_goodD(2,9) [OF g] by (auto simp: in_obj_values)
  moreover obtain x where "incompletePromptBinding sp = Inr x"
    using steering_goodD(4) [OF g] by (auto simp: binding_state_ok_def split: sum.splits)
  ultimately show ?thesis
    using steering_goodD [OF g]
    by (simp add: restoreSteeringProjection_def assertSteeringProjectionConsistent_def obj_all_iff list_all_iff [where P = "manifestOk False sp"])
qed

lemma good_empty: "steering_good P (emptySteeringProjection r ep)"
proof -
  have "incompletePromptBinding (emptySteeringProjection r ep) = Inr None"
    by (simp add: incomplete_none emptySteeringProjection_def)
  then show ?thesis
    by (simp add: steering_good_def emptySteeringProjection_def boundIds_def binding_state_ok_def)
qed

section \<open>Frames\<close>

text \<open>The checks of manifests read the commands only at the identifiers the manifests bind.\<close>

lemma bound_in_values:
  "obj_get (sp_manifests sp) k = Some m \<Longrightarrow> i \<in> set (mf_steeringCommandIds m) \<Longrightarrow> i \<in> set (boundIds sp)"
  using obj_get_in_values [of "sp_manifests sp" k m] by (auto simp: boundIds_def)

lemma bound_exists:
  assumes "steering_good P sp" "i \<in> set (boundIds sp)"
  obtains k m where "obj_get (sp_manifests sp) k = Some m" "i \<in> set (mf_steeringCommandIds m)"
  using assms steering_goodD(2) [OF assms(1)] by (auto simp: boundIds_def in_obj_values)

lemma bound_has_record:
  assumes "steering_good P sp" "i \<in> set (boundIds sp)"
  shows "\<exists>r. obj_get (sp_commands sp) i = Some r \<and> commandOf r \<noteq> None"
proof -
  obtain k m where "obj_get (sp_manifests sp) k = Some m" "i \<in> set (mf_steeringCommandIds m)"
    by (rule bound_exists [OF assms])
  with steering_goodD(9) [OF assms(1)] have "bindingOk False sp m i" by (auto simp: manifestOk_def list_all_iff)
  then show ?thesis by (auto simp: bindingOk_def commandOf_def split: option.splits SteeringCommandRecord.splits)
qed

definition record_view :: "SteeringCommandRecord \<Rightarrow> nat option \<times> string \<times> bool" where
  "record_view r = (admittedSeqOf r, commandIdOf r, commandOf r \<noteq> None)"

lemma canonicalIds_view: "map record_view rs = map record_view rs' \<Longrightarrow> canonicalIds rs = canonicalIds rs'"
proof -
  let ?key = "\<lambda>v :: nat option \<times> string \<times> bool. (case fst v of None \<Rightarrow> 0 | Some s \<Rightarrow> s, collate_key (fst (snd v)))"
  have "canonicalIds rs = map (fst \<circ> snd) (sort_key ?key (map record_view rs))" for rs
    unfolding map_sort_key_comp [symmetric]
    by (simp add: canonicalIds_def record_view_def comp_def)
  then show "map record_view rs = map record_view rs' \<Longrightarrow> canonicalIds rs = canonicalIds rs'" by simp
qed

lemma manifestRecords_view:
  assumes "\<forall>i \<in> set (mf_steeringCommandIds m). map_option record_view (obj_get (sp_commands sp') i) = map_option record_view (obj_get (sp_commands sp) i)"
  shows "map record_view (manifestRecords sp' m) = map record_view (manifestRecords sp m)"
proof -
  have "map record_view (filter (\<lambda>r. commandOf r \<noteq> None) (List.map_filter (obj_get (sp_commands sp')) ids)) =
      map record_view (filter (\<lambda>r. commandOf r \<noteq> None) (List.map_filter (obj_get (sp_commands sp)) ids))"
    if "\<forall>i \<in> set ids. map_option record_view (obj_get (sp_commands sp') i) = map_option record_view (obj_get (sp_commands sp) i)" for ids
    using that
  proof (induction ids)
    case (Cons i ids)
    then have eq: "map_option record_view (obj_get (sp_commands sp') i) = map_option record_view (obj_get (sp_commands sp) i)"
      and rest: "map record_view (filter (\<lambda>r. commandOf r \<noteq> None) (List.map_filter (obj_get (sp_commands sp')) ids)) =
        map record_view (filter (\<lambda>r. commandOf r \<noteq> None) (List.map_filter (obj_get (sp_commands sp)) ids))" by simp_all
    show ?case
    proof (cases "obj_get (sp_commands sp) i")
      case None
      with eq rest show ?thesis by simp
    next
      case (Some r)
      with eq obtain r' where r': "obj_get (sp_commands sp') i = Some r'" "record_view r' = record_view r" by auto
      then have "(commandOf r' \<noteq> None) = (commandOf r \<noteq> None)" by (simp add: record_view_def)
      with Some r' rest show ?thesis by simp
    qed
  qed simp
  with assms show ?thesis by (simp add: manifestRecords_def)
qed

lemma manifestOk_frame:
  assumes "sp_runId sp' = sp_runId sp" "sp_runEpoch sp' = sp_runEpoch sp"
    and "\<forall>i \<in> set (mf_steeringCommandIds m). obj_get (sp_commands sp') i = obj_get (sp_commands sp) i"
  shows "manifestOk b sp' m = manifestOk b sp m"
proof -
  have "bindingOk b sp' m i = bindingOk b sp m i" if "i \<in> set (mf_steeringCommandIds m)" for i
    using that assms(3) by (simp add: bindingOk_def)
  moreover have "canonicalIds (manifestRecords sp' m) = canonicalIds (manifestRecords sp m)"
    using assms(3) by (intro canonicalIds_view manifestRecords_view) simp
  ultimately show ?thesis using assms(1,2) by (auto simp: manifestOk_def list_all_iff)
qed

lemma complete_in_frame:
  "\<forall>i \<in> set (mf_steeringCommandIds m). obj_get (sp_commands sp') i = obj_get (sp_commands sp) i \<Longrightarrow> complete_in sp' m = complete_in sp m"
  by (auto simp: complete_in_def pendingAt_def)

lemma recordSchemaOk_mono: "recordSchemaOk P n k r \<Longrightarrow> n \<le> n' \<Longrightarrow> recordSchemaOk P n' k r"
  by (auto simp: recordSchemaOk_def split: option.splits)

lemma manifestSchemaOk_mono: "manifestSchemaOk n k m \<Longrightarrow> n \<le> n' \<Longrightarrow> manifestSchemaOk n' k m"
  by (auto simp: manifestSchemaOk_def)

text \<open>The check of a record reads the other commands only for the replacement of a superseded one.\<close>

lemma recordOk_frame:
  assumes "recordOk sp k r" "sp_runId sp' = sp_runId sp" "sp_runEpoch sp' = sp_runEpoch sp"
    and "set (boundIds sp) \<subseteq> set (boundIds sp')"
    and "\<forall>j s c. obj_get (sp_commands sp) j = Some s \<longrightarrow> commandOf s = Some c \<longrightarrow>
       (\<exists>s'. obj_get (sp_commands sp') j = Some s' \<and> commandOf s' = Some c)"
  shows "recordOk sp' k r"
  using assms by (cases r) (fastforce simp: recordOk_def split: option.splits)+

section \<open>Preservation\<close>

lemma sp_setCommand [simp]:
  "sp_runId (setCommand k r sp) = sp_runId sp" "sp_runEpoch (setCommand k r sp) = sp_runEpoch sp"
  "sp_observedSeq (setCommand k r sp) = sp_observedSeq sp" "sp_manifests (setCommand k r sp) = sp_manifests sp"
  "sp_commands (setCommand k r sp) = obj_set k r (sp_commands sp)"
  by (simp_all add: setCommand_def)

lemma boundIds_manifests: "sp_manifests sp' = sp_manifests sp \<Longrightarrow> boundIds sp' = boundIds sp"
  by (simp add: boundIds_def)

lemma good_schema_mono:
  assumes "steering_good P sp" "sp_observedSeq sp \<le> n"
  shows "obj_get (sp_commands sp) k = Some r \<Longrightarrow> recordSchemaOk P n k r"
    and "obj_get (sp_manifests sp) x = Some m \<Longrightarrow> manifestSchemaOk n x m"
  using steering_goodD(5,8) [OF assms(1)] recordSchemaOk_mono [OF _ assms(2)] manifestSchemaOk_mono [OF _ assms(2)] by blast+

text \<open>An event that touches no prompt: the projection changes at one command that no prompt binds.\<close>

lemma good_set_unbound:
  assumes g: "steering_good P sp" and none: "incompletePromptBinding sp = Inr None"
    and k: "k \<notin> set (boundIds sp)"
    and sp': "sp' = (setCommand k r sp)\<lparr>sp_observedSeq := n\<rparr>" and n: "sp_observedSeq sp \<le> n"
    and r: "recordSchemaOk P n k r" "normalizeRecord r = r" "recordOk sp' k r"
    and keep: "\<And>s c. obj_get (sp_commands sp) k = Some s \<Longrightarrow> commandOf s = Some c \<Longrightarrow> commandOf r = Some c"
  shows "steering_good P sp'"
proof -
  have b: "boundIds sp' = boundIds sp" by (rule boundIds_manifests) (simp add: sp')
  have same: "\<forall>i \<in> set (mf_steeringCommandIds m). obj_get (sp_commands sp') i = obj_get (sp_commands sp) i"
    if "obj_get (sp_manifests sp) x = Some m" for x m
    using k bound_in_values [OF that] by (auto simp: sp')
  have "manifestOk False sp' m" if "obj_get (sp_manifests sp) x = Some m" for x m
    using steering_goodD(9) [OF g that] manifestOk_frame [OF _ _ same [OF that]] by (simp add: sp')
  moreover have "recordOk sp' j s" if "obj_get (sp_commands sp) j = Some s" for j s
    using steering_goodD(7) [OF g that] keep by (rule_tac recordOk_frame [of sp]) (auto simp: sp' b [unfolded sp'])
  moreover have "incompletePromptBinding sp' = Inr None"
    unfolding incomplete_none
  proof
    fix m assume m: "m \<in> set (obj_values (sp_manifests sp'))"
    then obtain x where "obj_get (sp_manifests sp) x = Some m"
      using steering_goodD(2) [OF g] by (auto simp: sp' in_obj_values)
    with m none show "complete_in sp' m" unfolding incomplete_none using complete_in_frame [OF same] by (auto simp: sp')
  qed
  ultimately show ?thesis
    using steering_goodD(1-3,6) [OF g] good_schema_mono [OF g n] r b
    by (auto simp: steering_good_def sp' binding_state_ok_def split: if_splits)
qed

text \<open>An event the steering projection ignores.\<close>

lemma good_tick:
  assumes g: "steering_good P sp" and none: "incompletePromptBinding sp = Inr None" and n: "sp_observedSeq sp \<le> n"
  shows "steering_good P (sp\<lparr>sp_observedSeq := n\<rparr>)"
proof -
  let ?sp = "sp\<lparr>sp_observedSeq := n\<rparr>"
  have b: "boundIds ?sp = boundIds sp" by (rule boundIds_manifests) simp
  have "manifestOk False ?sp m = manifestOk False sp m" for m by (rule manifestOk_frame) simp_all
  moreover have "recordOk ?sp j s" if "recordOk sp j s" for j s
    using that b by (rule_tac recordOk_frame [of sp]) simp_all
  moreover have "incompletePromptBinding ?sp = Inr None"
    using none by (simp add: incomplete_none complete_in_def pendingAt_def)
  ultimately show ?thesis
    using steering_goodD(1-3,6,7,9) [OF g] good_schema_mono [OF g n] b
    by (auto simp: steering_good_def binding_state_ok_def)
qed

text \<open>A new prompt: its commands are pending, free and in canonical order.\<close>

lemma good_prepared:
  assumes g: "steering_good P sp" and none: "incompletePromptBinding sp = Inr None"
    and new: "obj_get (sp_manifests sp) k = None"
    and sp': "sp' = sp\<lparr>sp_manifests := obj_set k m (sp_manifests sp), sp_observedSeq := n\<rparr>"
    and m: "manifestSchemaOk n k m" "manifestOk False sp m" "mf_preparedSeq m = n"
    and free: "\<forall>i \<in> set (mf_steeringCommandIds m). i \<notin> set (boundIds sp) \<and> pendingAt sp i"
    and n: "sp_observedSeq sp \<le> n"
  shows "steering_good P sp'"
proof -
  have vals: "obj_values (sp_manifests sp') = obj_values (sp_manifests sp) @ [m]"
    using new by (simp add: sp' obj_values_append_new)
  then have b: "boundIds sp' = boundIds sp @ mf_steeringCommandIds m" by (simp add: boundIds_def)
  have mo: "manifestOk False sp' x = manifestOk False sp x" for x by (rule manifestOk_frame) (simp_all add: sp')
  have ci: "complete_in sp' x = complete_in sp x" for x by (rule complete_in_frame) (simp add: sp')
  have "recordOk sp' j s" if "recordOk sp j s" for j s
    using that by (rule_tac recordOk_frame [of sp]) (simp_all add: sp' b [unfolded sp'])
  moreover have "distinct (boundIds sp')"
    using steering_goodD(3) [OF g] m(1) free by (auto simp: b manifestSchemaOk_def)
  moreover have "binding_state_ok sp'"
  proof (cases "mf_steeringCommandIds m")
    case Nil
    then have "incompletePromptBinding sp' = Inr None"
      using none unfolding incomplete_none vals by (auto simp: ci complete_in_def [of _ m])
    then show ?thesis by (simp add: binding_state_ok_def)
  next
    case (Cons c cs)
    then have "findIndex (pendingAt sp') (mf_steeringCommandIds m) = Some 0"
      using free by (simp add: pendingAt_def sp')
    then have "incompletePromptBinding sp' = Inr (Some (m, c, 0))"
      using none Cons unfolding incomplete_none incomplete_some
      by (intro exI [of _ "obj_values (sp_manifests sp)"] exI [of _ "[]"]) (simp add: vals ci)
    then show ?thesis using m(3) by (simp add: binding_state_ok_def sp')
  qed
  ultimately show ?thesis
    using steering_goodD(1,2,6,7,9) [OF g] good_schema_mono [OF g n] m mo
    by (auto simp: steering_good_def sp' split: if_splits)
qed

text \<open>What an incomplete prompt looks like: the commands before the next one are included, the rest are pending.\<close>

lemma incomplete_shape:
  assumes g: "steering_good P sp" and inc: "incompletePromptBinding sp = Inr (Some (m, c, i))"
  obtains pre post where "obj_values (sp_manifests sp) = pre @ m # post" "\<forall>x \<in> set pre \<union> set post. complete_in sp x"
    "i < length (mf_steeringCommandIds m)" "c = mf_steeringCommandIds m ! i"
    "\<forall>j < i. \<not> pendingAt sp (mf_steeringCommandIds m ! j)"
    "\<forall>j < length (mf_steeringCommandIds m). i \<le> j \<longrightarrow> pendingAt sp (mf_steeringCommandIds m ! j)"
    "obj_get (sp_manifests sp) (mf_attemptId m) = Some m" "sp_observedSeq sp = mf_preparedSeq m + i"
    "\<forall>x \<in> set pre \<union> set post. c \<notin> set (mf_steeringCommandIds x)" "distinct (mf_steeringCommandIds m)"
proof -
  let ?ids = "mf_steeringCommandIds m"
  obtain pre post where v: "obj_values (sp_manifests sp) = pre @ m # post" "\<forall>x \<in> set pre \<union> set post. complete_in sp x"
      and f: "findIndex (pendingAt sp) ?ids = Some i" "c = ?ids ! i"
    using inc unfolding incomplete_some by blast
  from f have i: "i < length ?ids" "\<forall>j < i. \<not> pendingAt sp (?ids ! j)" by (auto simp: findIndex_Some)
  obtain k where k: "obj_get (sp_manifests sp) k = Some m"
    using v(1) steering_goodD(2) [OF g] in_obj_values [of "sp_manifests sp" m] by auto
  have mm: "k = mf_attemptId m" "distinct ?ids" using steering_goodD(8) [OF g k] by (simp_all add: manifestSchemaOk_def)
  have obs: "sp_observedSeq sp = mf_preparedSeq m + i"
    using steering_goodD(4) [OF g] inc by (simp add: binding_state_ok_def)
  have "distinct (concat (map mf_steeringCommandIds (pre @ m # post)))"
    using steering_goodD(3) [OF g] by (simp add: boundIds_def v(1))
  then have "set (concat (map mf_steeringCommandIds pre)) \<inter> set ?ids = {}" "set ?ids \<inter> set (concat (map mf_steeringCommandIds post)) = {}"
    by (simp_all only: map_append list.map concat_append concat.simps distinct_append set_append) blast+
  moreover have "c \<in> set ?ids" using i(1) f(2) by simp
  ultimately have other: "\<forall>x \<in> set pre \<union> set post. c \<notin> set (mf_steeringCommandIds x)"
    by (simp only: set_concat set_map) blast
  have pend: "pendingAt sp (?ids ! j)" if j: "j < length ?ids" "i \<le> j" for j
  proof -
    have "bindingOk False sp m (?ids ! j)"
      using steering_goodD(9) [OF g k] j(1) by (simp add: manifestOk_def list_all_length)
    then consider (pending) cmd a where "obj_get (sp_commands sp) (?ids ! j) = Some (RecPending cmd a)"
      | (included) cmd a t x y z where "obj_get (sp_commands sp) (?ids ! j) = Some (RecIncluded cmd a t x y z)" "t = mf_preparedSeq m + j + 1"
      using findIndex_unique [OF mm(2) j(1)]
      by (auto simp: bindingOk_def split: option.splits SteeringCommandRecord.splits)
    then show ?thesis
    proof cases
      case included
      with steering_goodD(5) [OF g included(1)] obs j(2) show ?thesis by (simp add: recordSchemaOk_def terminalSeqOf_def)
    qed (simp add: pendingAt_def isPending_def)
  qed
  have "\<forall>j < length ?ids. i \<le> j \<longrightarrow> pendingAt sp (?ids ! j)" using pend by simp
  from that [OF v i(1) f(2) i(2) this k [unfolded mm(1)] obs other mm(2)] show ?thesis .
qed

lemma good_included:
  assumes g: "steering_good P sp" and inc: "incompletePromptBinding sp = Inr (Some (m, c, i))"
    and rec: "obj_get (sp_commands sp) c = Some (RecPending cmd a)"
    and n: "n = mf_preparedSeq m + i + 1"
    and sp': "sp' = (setCommand c (RecIncluded cmd a n (mf_attemptId m) (mf_attemptGeneration m) (mf_promptSha256 m)) sp)\<lparr>sp_observedSeq := n\<rparr>"
  shows "steering_good P sp'"
proof -
  let ?ids = "mf_steeringCommandIds m"
  let ?new = "RecIncluded cmd a n (mf_attemptId m) (mf_attemptGeneration m) (mf_promptSha256 m)"
  obtain pre post where v: "obj_values (sp_manifests sp) = pre @ m # post" "\<forall>x \<in> set pre \<union> set post. complete_in sp x"
      and i: "i < length ?ids" "c = ?ids ! i" "\<forall>j < i. \<not> pendingAt sp (?ids ! j)"
        "\<forall>j < length ?ids. i \<le> j \<longrightarrow> pendingAt sp (?ids ! j)"
      and k: "obj_get (sp_manifests sp) (mf_attemptId m) = Some m" and obs: "sp_observedSeq sp = mf_preparedSeq m + i"
      and other: "\<forall>x \<in> set pre \<union> set post. c \<notin> set (mf_steeringCommandIds x)" and d: "distinct ?ids"
    by (rule incomplete_shape [OF g inc])
  have b: "boundIds sp' = boundIds sp" by (rule boundIds_manifests) (simp add: sp')
  have run': "sp_runId sp' = sp_runId sp" "sp_runEpoch sp' = sp_runEpoch sp" by (simp_all add: sp')
  have le: "sp_observedSeq sp \<le> n" using obs n by simp
  have ok: "manifestOk False sp m" by (rule steering_goodD(9) [OF g k])
  have bc: "bindingOk False sp m c" using ok i(1,2) by (simp add: manifestOk_def list_all_length)
  have frame: "\<forall>j \<in> set (mf_steeringCommandIds x). obj_get (sp_commands sp') j = obj_get (sp_commands sp) j"
    if "x \<in> set pre \<union> set post" for x using other that by (auto simp: sp')
  have "bindingOk False sp' m j" if "j \<in> set ?ids" for j
  proof (cases "j = c")
    case True
    with bc rec findIndex_unique [OF d i(1)] i(2) n show ?thesis by (simp add: bindingOk_def sp')
  next
    case False
    with ok that show ?thesis by (simp add: manifestOk_def list_all_iff bindingOk_def sp')
  qed
  moreover have "canonicalIds (manifestRecords sp' m) = canonicalIds (manifestRecords sp m)"
    using rec by (intro canonicalIds_view manifestRecords_view) (simp add: sp' record_view_def admittedSeqOf_def commandIdOf_def commandOf_def)
  ultimately have "manifestOk False sp' m" using ok by (simp add: manifestOk_def list_all_iff sp')
  moreover have "manifestOk False sp' x" if "x \<in> set pre \<union> set post" for x
  proof -
    from that v(1) have "x \<in> set (obj_values (sp_manifests sp))" by auto
    then obtain j where "obj_get (sp_manifests sp) j = Some x" using steering_goodD(2) [OF g] by (auto simp: in_obj_values)
    from steering_goodD(9) [OF g this] show ?thesis using manifestOk_frame [OF _ _ frame [OF that]] by (simp add: sp')
  qed
  ultimately have man: "manifestOk False sp' x" if "obj_get (sp_manifests sp) j = Some x" for j x
    using obj_get_in_values [OF that] v(1) by auto
  have "c \<in> set (boundIds sp)" by (rule bound_in_values [OF k]) (use i(1,2) in simp)
  then have new: "recordOk sp' c ?new" "recordSchemaOk P n c ?new" "normalizeRecord ?new = ?new"
    using steering_goodD(5,6,7) [OF g rec] obs n run'
    by (auto simp: recordOk_def recordSchemaOk_def commandOf_def commandIdOf_def admittedSeqOf_def terminalSeqOf_def
        normalizeRecord_def Let_def b split: option.splits)
  have old: "recordOk sp' j s" if "obj_get (sp_commands sp) j = Some s" for j s
    using steering_goodD(7) [OF g that] rec by (rule_tac recordOk_frame [of sp]) (auto simp: sp' commandOf_def b [unfolded sp'])
  have np: "pendingAt sp' j = (j \<noteq> c \<and> pendingAt sp j)" for j by (simp add: pendingAt_def sp' isPending_def)
  have all: "\<forall>x \<in> set pre \<union> set post. complete_in sp' x" using v(2) complete_in_frame [OF frame] by blast
  have "binding_state_ok sp'"
  proof (cases "Suc i < length ?ids")
    case True
    then have "findIndex (pendingAt sp') ?ids = Some (Suc i)"
      using i d by (auto simp: findIndex_Some np nth_eq_iff_index_eq less_Suc_eq)
    with all v(1) have "incompletePromptBinding sp' = Inr (Some (m, ?ids ! Suc i, Suc i))"
      unfolding incomplete_some by (intro exI [of _ pre] exI [of _ post]) (simp add: sp')
    then show ?thesis using n by (simp add: binding_state_ok_def sp')
  next
    case False
    then have "j < i \<or> j = i" if "j < length ?ids" for j using that by auto
    then have "complete_in sp' m" using i(2,3) by (auto simp: complete_in_def np in_set_conv_nth) blast
    with all v(1) have "incompletePromptBinding sp' = Inr None" unfolding incomplete_none by (simp add: sp')
    then show ?thesis by (simp add: binding_state_ok_def)
  qed
  with man new old b show ?thesis
    using steering_goodD(1-3,6) [OF g] good_schema_mono [OF g le]
    by (auto simp: steering_good_def sp' split: if_splits)
qed

section \<open>Every accepted event keeps the invariant\<close>

lemma requirePending_Inr [simp]: "requirePending sp i = Inr (c, a) \<longleftrightarrow> obj_get (sp_commands sp) i = Some (RecPending c a)"
  by (auto simp: requirePending_def split: option.splits SteeringCommandRecord.splits)

lemma assertUnreserved_Inr [simp]: "assertUnreserved sp i = Inr u \<longleftrightarrow> i \<notin> set (boundIds sp)"
  by (simp add: assertUnreserved_def find_None_mem [symmetric])

lemma assertEventTarget_Inr [simp]: "assertEventTarget c e s g = Inr u \<longleftrightarrow> targetMatchesEvent c e s g"
  by (simp add: assertEventTarget_def)

lemma closable_Inr [simp]:
  "closable sp e p = Inr (c, a) \<longleftrightarrow> obj_get (sp_commands sp) (tg_commandId p) = Some (RecPending c a) \<and>
     tg_commandId p \<notin> set (boundIds sp) \<and> targetMatchesEvent c e (tg_sessionId p) (tg_sessionGeneration p)"
  by (auto simp: closable_def)

lemma pending_record:
  assumes "steering_good P sp" "obj_get (sp_commands sp) k = Some (RecPending c a)"
  shows "k = sc_commandId c" "uuidV7 k" "1 \<le> a" "a \<le> sp_observedSeq sp" "parseSteeringCommand P c = Some c"
    "c\<lparr>sc_body := normalizeNewlines (sc_body c)\<rparr> = c" "fx_runId c = sp_runId sp" "fx_runEpoch c = sp_runEpoch sp"
proof -
  note r = steering_goodD(5) [OF assms] steering_goodD(6) [OF assms] steering_goodD(7) [OF assms]
  show "k = sc_commandId c" "uuidV7 k" "1 \<le> a" "a \<le> sp_observedSeq sp" "fx_runId c = sp_runId sp" "fx_runEpoch c = sp_runEpoch sp"
    using r by (auto simp: recordSchemaOk_def recordOk_def commandOf_def commandIdOf_def admittedSeqOf_def terminalSeqOf_def)
  show n: "c\<lparr>sc_body := normalizeNewlines (sc_body c)\<rparr> = c" using r(2) by (simp add: normalizeRecord_def Let_def)
  from r(1) obtain c' where "parseSteeringCommand P c = Some c'" by (auto simp: recordSchemaOk_def commandOf_def)
  with parseSteeringCommand_normal [OF this] n show "parseSteeringCommand P c = Some c" by simp
qed

text \<open>Closing a pending command that no prompt binds: the record keeps the command and its admission.\<close>

lemma good_close:
  assumes g: "steering_good P sp" and none: "incompletePromptBinding sp = Inr None"
    and old: "obj_get (sp_commands sp) k = Some (RecPending c a)" and k: "k \<notin> set (boundIds sp)"
    and r: "commandOf r = Some c" "admittedSeqOf r = Some a" "terminalSeqOf r = Some n" "\<And>f t. r \<noteq> RecRefused f t"
      "\<And>c a t x y z. r \<noteq> RecIncluded c a t x y z" "\<And>c a t. r = RecExpired c a t \<Longrightarrow> sc_expiresAt c \<noteq> None"
      "\<And>c' a t by. r = RecSuperseded c' a t by \<Longrightarrow> uuidV7 by \<and> by \<noteq> k \<and> (\<exists>s x. obj_get (sp_commands sp) by = Some s \<and>
         commandOf s = Some x \<and> sc_supersedesCommandId x = Some k \<and> sameSteeringTarget c' x)"
    and n: "n = Suc (sp_observedSeq sp)"
  shows "steering_good P ((setCommand k r sp)\<lparr>sp_observedSeq := n\<rparr>)"
proof -
  let ?sp' = "(setCommand k r sp)\<lparr>sp_observedSeq := n\<rparr>"
  note p = pending_record [OF g old]
  have id: "commandIdOf r = k" using r(1,4) p(1) by (cases r) (auto simp: commandIdOf_def commandOf_def)
  have "recordSchemaOk P n k r"
    using p(1-5) r(1-3) r(7) id n by (cases r) (simp_all add: recordSchemaOk_def)
  moreover have "normalizeRecord r = r"
    using r(1) p(6) by (cases r) (auto simp: normalizeRecord_def commandOf_def Let_def)
  moreover have "recordOk ?sp' k r"
  proof (cases r)
    case (RecSuperseded c' a' t rep)
    from r(7) [OF this] obtain s x where s: "rep \<noteq> k" "obj_get (sp_commands sp) rep = Some s" "commandOf s = Some x"
        "sc_supersedesCommandId x = Some k" "sameSteeringTarget c' x" by blast
    with RecSuperseded id p(7,8) r(1) show ?thesis by (simp add: recordOk_def commandOf_def)
  next
    case (RecExpired c' a' t)
    with r(6) [OF this] id p(7,8) r(1) show ?thesis by (simp add: recordOk_def commandOf_def)
  qed (use r(1,4,5) id p(7,8) in \<open>simp_all add: recordOk_def commandOf_def\<close>)
  ultimately show ?thesis
    using r(1) old n by (intro good_set_unbound [OF g none k refl]) (auto simp: commandOf_def)
qed

text \<open>Adding a command under a new identifier.\<close>

lemma good_add:
  assumes g: "steering_good P sp" and none: "incompletePromptBinding sp = Inr None"
    and new: "obj_get (sp_commands sp) k = None"
    and r: "recordSchemaOk P n k r" "normalizeRecord r = r" "recordOk ((setCommand k r sp)\<lparr>sp_observedSeq := n\<rparr>) k r"
    and n: "n = Suc (sp_observedSeq sp)"
  shows "steering_good P ((setCommand k r sp)\<lparr>sp_observedSeq := n\<rparr>)"
proof (rule good_set_unbound [OF g none _ refl _ r])
  show "k \<notin> set (boundIds sp)" using bound_has_record [OF g] new by fastforce
qed (use new n in simp_all)

lemma bind_res_simps: "bind_res (Inr x) f = f x" "bind_res (Inl err) f = Inl err"
  by (simp_all add: bind_res_def)

lemma collect_results:
  fixes f :: "'a \<Rightarrow> 'b + 'c"
  shows "fold_res (\<lambda>acc i. bind_res (f i) (\<lambda>r. Inr (acc @ [r]))) acc ids = Inr rs \<longleftrightarrow>
   (\<exists>rs'. rs = acc @ rs' \<and> list_all2 (\<lambda>i r. f i = Inr r) ids rs')"
proof (induction ids arbitrary: acc)
  case (Cons i ids)
  show ?case
  proof (cases "f i")
    case (Inr b)
    with Cons [of "acc @ [b]"] show ?thesis by (auto simp: list_all2_Cons1 bind_res_simps)
  qed (simp add: bind_res_simps list_all2_Cons1)
qed auto

lemma selectCommand_Inr:
  "selectCommand P sp e p i = Inr r \<longleftrightarrow> (\<exists>c a. r = RecPending c a \<and> obj_get (sp_commands sp) i = Some r \<and> i \<notin> set (boundIds sp) \<and>
     targetMatchesEvent c e (ab_sessionId p) (ab_sessionGeneration p) \<and> sc_notBeforeAttemptGeneration c \<le> ab_attemptGeneration p \<and>
     a \<le> ap_captureCutoffSeq p \<and> \<not> expiredAt P c e)"
  by (auto simp: selectCommand_def)

lemma selected_records:
  assumes "list_all2 (\<lambda>i r. selectCommand P sp e p i = Inr r) ids rs"
  shows "filter (\<lambda>r. commandOf r \<noteq> None) (List.map_filter (obj_get (sp_commands sp)) ids) = rs"
  using assms by (induction rule: list_all2_induct) (auto simp: selectCommand_Inr commandOf_def)

lemma good_applyPrepared:
  assumes g: "steering_good P sp" and none: "incompletePromptBinding sp = Inr None"
    and ap: "applyPrepared P sp e p = Inr sp1" and seq: "ev_seq e = Suc (sp_observedSeq sp)"
    and run: "ev_runId e = sp_runId sp" "ev_runEpoch e = sp_runEpoch sp"
  shows "steering_good P (sp1\<lparr>sp_observedSeq := ev_seq e\<rparr>)"
proof -
  let ?ids = "ap_steeringCommandIds p"
  define m where "m = \<lparr>fx_runId = ev_runId e, fx_runEpoch = ev_runEpoch e, fx_taskId = evTask e, fx_taskGeneration = evTaskGen e,
         fx_sessionId = ab_sessionId p, fx_sessionGeneration = ab_sessionGeneration p,
         mf_attemptId = ab_attemptId p, mf_attemptGeneration = ab_attemptGeneration p,
         mf_artifactLocator = ap_artifactLocator p, mf_promptSha256 = ap_promptSha256 p,
         mf_promptBytes = ap_promptBytes p, mf_rendererVersion = ap_rendererVersion p,
         mf_captureCutoffSeq = ap_captureCutoffSeq p, mf_steeringCommandIds = ap_steeringCommandIds p,
         mf_preparedSeq = ev_seq e\<rparr>"
  from ap obtain rs where new: "obj_get (sp_manifests sp) (ab_attemptId p) = None" and cut: "ap_captureCutoffSeq p = ev_seq e - 1"
      and d: "distinct ?ids" and rs: "list_all2 (\<lambda>i r. selectCommand P sp e p i = Inr r) ?ids rs"
      and ord: "canonicalIds rs = ?ids" and sp1: "sp1 = sp\<lparr>sp_manifests := obj_set (ab_attemptId p) m (sp_manifests sp)\<rparr>"
    by (auto simp: applyPrepared_def selectCommands_def collect_results obj_has_def m_def)
  have sel: "\<exists>c a. obj_get (sp_commands sp) i = Some (RecPending c a) \<and> i \<notin> set (boundIds sp) \<and> bindingOk False sp m i" if "i \<in> set ?ids" for i
  proof -
    from rs that obtain r where "selectCommand P sp e p i = Inr r" by (auto simp: list_all2_conv_all_nth in_set_conv_nth)
    then obtain c a where ca: "obj_get (sp_commands sp) i = Some (RecPending c a)" "i \<notin> set (boundIds sp)"
        "targetMatchesEvent c e (ab_sessionId p) (ab_sessionGeneration p)"
        "sc_notBeforeAttemptGeneration c \<le> ab_attemptGeneration p" "a \<le> ap_captureCutoffSeq p"
      by (auto simp: selectCommand_Inr)
    from ca(3) have "sameSteeringTarget c m"
      by (auto simp: targetMatchesEvent_def sameSteeringTarget_def m_def evTask_def evTaskGen_def split: option.splits)
    with ca show ?thesis by (simp add: bindingOk_def m_def)
  qed
  have "manifestRecords sp m = rs" using selected_records [OF rs] by (simp add: manifestRecords_def m_def)
  then have "manifestOk False sp m" using sel ord run by (auto simp: manifestOk_def list_all_iff m_def)
  moreover have "manifestSchemaOk (ev_seq e) (ab_attemptId p) m"
    using sel pending_record(2) [OF g] d cut seq by (fastforce simp: manifestSchemaOk_def m_def list_all_iff)
  moreover have "\<forall>i \<in> set (mf_steeringCommandIds m). i \<notin> set (boundIds sp) \<and> pendingAt sp i"
    using sel by (fastforce simp: m_def pendingAt_def isPending_def)
  ultimately show ?thesis
    using seq by (intro good_prepared [OF g none new, where m = m and n = "ev_seq e"]) (simp_all add: sp1 m_def)
qed

lemma good_applyAdmitted:
  assumes g: "steering_good P sp" and none: "incompletePromptBinding sp = Inr None"
    and ap: "applyAdmitted P sp e p = Inr sp1" and seq: "ev_seq e = Suc (sp_observedSeq sp)"
    and run: "ev_runId e = sp_runId sp" "ev_runEpoch e = sp_runEpoch sp"
  shows "steering_good P (sp1\<lparr>sp_observedSeq := ev_seq e\<rparr>)"
proof -
  from ap obtain c where new: "obj_get (sp_commands sp) (tg_commandId p) = None"
      and c: "parseSteeringCommand P (admittedCommand e p) = Some c" and sp1: "sp1 = setCommand (sc_commandId c) (RecPending c (ev_seq e)) sp"
    by (auto simp: applyAdmitted_def obj_has_def)
  note n = parseSteeringCommand_normal [OF c]
  from n have c': "sc_commandId c = tg_commandId p" "fx_runId c = ev_runId e" "fx_runEpoch c = ev_runEpoch e" "uuidV7 (tg_commandId p)"
      "c\<lparr>sc_body := normalizeNewlines (sc_body c)\<rparr> = c" by (auto simp: admittedCommand_def)
  from n have pc: "parseSteeringCommand P c = Some c" by blast
  show ?thesis
    unfolding sp1 c'(1) by (rule good_add [OF g none new])
      (use c' pc run seq in \<open>simp_all add: recordSchemaOk_def recordOk_def normalizeRecord_def Let_def commandOf_def commandIdOf_def
        admittedSeqOf_def terminalSeqOf_def\<close>)
qed

lemma good_applyRefused:
  assumes g: "steering_good P sp" and none: "incompletePromptBinding sp = Inr None"
    and ap: "applyRefused sp e p = Inr sp1" and seq: "ev_seq e = Suc (sp_observedSeq sp)"
    and run: "ev_runId e = sp_runId sp" "ev_runEpoch e = sp_runEpoch sp"
  shows "steering_good P (sp1\<lparr>sp_observedSeq := ev_seq e\<rparr>)"
proof -
  have new: "obj_get (sp_commands sp) (tg_commandId p) = None" and u: "uuidV7 (tg_commandId p)"
    using ap by (auto simp: applyRefused_def obj_has_def)
  obtain f where "sp1 = setCommand (tg_commandId p) (RecRefused f (ev_seq e)) sp" "rf_commandId f = tg_commandId p"
      "fx_runId f = ev_runId e" "fx_runEpoch f = ev_runEpoch e" using ap by (auto simp: applyRefused_def)
  with u run seq show ?thesis
    by (auto intro!: good_add [OF g none new] simp: recordSchemaOk_def recordOk_def normalizeRecord_def commandOf_def commandIdOf_def
        admittedSeqOf_def terminalSeqOf_def)
qed

lemma good_applyClose:
  assumes g: "steering_good P sp" and none: "incompletePromptBinding sp = Inr None" and seq: "ev_seq e = Suc (sp_observedSeq sp)"
  shows "applyTerminalRefused P sp e p = Inr sp1 \<Longrightarrow> steering_good P (sp1\<lparr>sp_observedSeq := ev_seq e\<rparr>)"
    and "applyWithdrawn sp e q reason = Inr sp1 \<Longrightarrow> steering_good P (sp1\<lparr>sp_observedSeq := ev_seq e\<rparr>)"
    and "applyExpired P sp e q = Inr sp1 \<Longrightarrow> steering_good P (sp1\<lparr>sp_observedSeq := ev_seq e\<rparr>)"
    and "applySuperseded sp e q rep = Inr sp1 \<Longrightarrow> steering_good P (sp1\<lparr>sp_observedSeq := ev_seq e\<rparr>)"
proof -
  show "applyTerminalRefused P sp e p = Inr sp1 \<Longrightarrow> steering_good P (sp1\<lparr>sp_observedSeq := ev_seq e\<rparr>)"
    using seq by (auto simp: applyTerminalRefused_def commandOf_def admittedSeqOf_def terminalSeqOf_def intro!: good_close [OF g none])
  show "applyWithdrawn sp e q reason = Inr sp1 \<Longrightarrow> steering_good P (sp1\<lparr>sp_observedSeq := ev_seq e\<rparr>)"
    using seq by (auto simp: applyWithdrawn_def commandOf_def admittedSeqOf_def terminalSeqOf_def intro!: good_close [OF g none])
  show "applyExpired P sp e q = Inr sp1 \<Longrightarrow> steering_good P (sp1\<lparr>sp_observedSeq := ev_seq e\<rparr>)"
    using seq pending_record(1) [OF g]
    by (auto simp: applyExpired_def commandOf_def admittedSeqOf_def terminalSeqOf_def intro!: good_close [OF g none] split: option.splits)
  assume "applySuperseded sp e q rep = Inr sp1"
  then obtain old a new b where o: "obj_get (sp_commands sp) (tg_commandId q) = Some (RecPending old a)" "tg_commandId q \<notin> set (boundIds sp)"
      and r: "obj_get (sp_commands sp) rep = Some (RecPending new b)" "sc_supersedesCommandId new = Some (sc_commandId old)" "sameSteeringTarget old new"
      and sp1: "sp1 = setCommand (sc_commandId old) (RecSuperseded old a (ev_seq e) (sc_commandId new)) sp"
    by (auto simp: applySuperseded_def)
  note po = pending_record [OF g o(1)] and pn = pending_record [OF g r(1)]
  have "rep \<noteq> sc_commandId old"
    using pn(5) r(2) pn(1) by (auto simp: parseSteeringCommand_def validateCommandRelations_def Let_def split: option.splits if_splits)
  with o r po pn seq show "steering_good P (sp1\<lparr>sp_observedSeq := ev_seq e\<rparr>)" unfolding sp1
    by (intro good_close [OF g none]) (auto simp: commandOf_def admittedSeqOf_def terminalSeqOf_def)
qed

lemma applyIncluded_Inr:
  assumes "applyIncluded sp e p x gen sha = Inr sp1"
  obtains c a m where "obj_get (sp_commands sp) (tg_commandId p) = Some (RecPending c a)" "obj_get (sp_manifests sp) x = Some m"
    "tg_commandId p \<in> set (mf_steeringCommandIds m)"
    "map_option (\<lambda>i. mf_preparedSeq m + i + 1) (findIndex (\<lambda>j. j = tg_commandId p) (mf_steeringCommandIds m)) = Some (ev_seq e)"
    "sp1 = setCommand (tg_commandId p) (RecIncluded c a (ev_seq e) (mf_attemptId m) (mf_attemptGeneration m) (mf_promptSha256 m)) sp"
  using assms by (auto simp: applyIncluded_def)

text \<open>What an accepted event has passed.\<close>

lemma applySteeringEvent_Inr:
  assumes g: "steering_good P sp" and ap: "applySteeringEvent P sp e = Inr sp'"
  obtains inc sp1 where "ev_seq e = Suc (sp_observedSeq sp)" "ev_runId e = sp_runId sp" "ev_runEpoch e = sp_runEpoch sp"
    "assertAuthorizedActor e = Inr ()" "incompletePromptBinding sp = Inr inc" "continuesBinding e inc"
    "applySteeringBody P sp e = Inr sp1" "sp' = sp1\<lparr>sp_observedSeq := ev_seq e\<rparr>"
  using ap by (auto simp: applySteeringEvent_def good_restores [OF g] parseEvent_def)

lemma good_step:
  assumes g: "steering_good P sp" and ap: "applySteeringEvent P sp e = Inr sp'"
  shows "steering_good P sp'"
proof -
  obtain inc sp1 where s: "ev_seq e = Suc (sp_observedSeq sp)" "ev_runId e = sp_runId sp" "ev_runEpoch e = sp_runEpoch sp"
      "incompletePromptBinding sp = Inr inc" "continuesBinding e inc" "applySteeringBody P sp e = Inr sp1"
      and sp': "sp' = sp1\<lparr>sp_observedSeq := ev_seq e\<rparr>" by (rule applySteeringEvent_Inr [OF g ap])
  show ?thesis
  proof (cases inc)
    case None
    with s(4) have none: "incompletePromptBinding sp = Inr None" by simp
    have "\<not> (\<exists>p x gen sha. applyIncluded sp e p x gen sha = Inr sp1)"
    proof (clarify elim!: applyIncluded_Inr)
      fix p x c a m
      assume r: "obj_get (sp_commands sp) (tg_commandId p) = Some (RecPending c a)" "obj_get (sp_manifests sp) x = Some m"
        "tg_commandId p \<in> set (mf_steeringCommandIds m)"
      have "pendingAt sp (tg_commandId p)" using r(1) by (simp add: pendingAt_def isPending_def)
      with none obj_get_in_values [OF r(2)] r(3) show False unfolding incomplete_none by (auto simp: complete_in_def)
    qed
    with s(6) show ?thesis
      using good_applyPrepared [OF g none _ s(1-3)] good_applyAdmitted [OF g none _ s(1-3)] good_applyRefused [OF g none _ s(1-3)]
        good_applyClose [OF g none s(1)] good_tick [OF g none, of "ev_seq e"] s(1)
      by (auto simp: applySteeringBody_def sp' split: ControlEventBody.splits)
  next
    case (Some b)
    obtain m c i where b: "b = (m, c, i)" by (cases b)
    with s(4,5) Some obtain p gen sha where body: "ev_body e = EvSteeringIncluded p (mf_attemptId m) gen sha" "tg_commandId p = c"
        and inc: "incompletePromptBinding sp = Inr (Some (m, c, i))"
      by (auto simp: continuesBinding_def split: ControlEventBody.splits)
    obtain pre post where sh: "i < length (mf_steeringCommandIds m)" "c = mf_steeringCommandIds m ! i"
        "obj_get (sp_manifests sp) (mf_attemptId m) = Some m" "distinct (mf_steeringCommandIds m)"
      by (rule incomplete_shape [OF g inc])
    from s(6) body have "applyIncluded sp e p (mf_attemptId m) gen sha = Inr sp1" by (simp add: applySteeringBody_def)
    then obtain cmd a where r: "obj_get (sp_commands sp) c = Some (RecPending cmd a)" "ev_seq e = mf_preparedSeq m + i + 1"
        "sp1 = setCommand c (RecIncluded cmd a (ev_seq e) (mf_attemptId m) (mf_attemptGeneration m) (mf_promptSha256 m)) sp"
      by (rule applyIncluded_Inr) (use sh body(2) findIndex_unique [OF sh(4,1)] in auto)
    show ?thesis by (rule good_included [OF g inc r(1,2)]) (simp add: sp' r(3))
  qed
qed

section \<open>The reducer as an event fold\<close>

interpretation steering_fold: event_fold "applySteeringEvent P" "steering_good P" for P
  by unfold_locales (rule good_step)

lemma step_sequence:
  assumes "applySteeringEvent P sp e = Inr sp'"
  shows "ev_seq e = Suc (sp_observedSeq sp) \<and> sp_observedSeq sp' = ev_seq e"
  using assms by (auto simp: applySteeringEvent_def restoreSteeringProjection_def parseSteeringProjection_def split: if_splits)

interpretation steering_seq: sequenced_fold "applySteeringEvent P" sp_observedSeq ev_seq for P
  by unfold_locales (rule step_sequence)

text \<open>How an accepted event changes the commands and the prompts.\<close>

definition writable :: "SteeringProjection \<Rightarrow> string \<Rightarrow> bool" where
  "writable sp k \<longleftrightarrow> obj_get (sp_commands sp) k = None \<or> pendingAt sp k"

lemma writable_cases: "obj_get (sp_commands sp) k = None \<Longrightarrow> writable sp k"
  "obj_get (sp_commands sp) k = Some (RecPending c a) \<Longrightarrow> writable sp k"
  by (simp_all add: writable_def pendingAt_def isPending_def)

lemma body_commands:
  assumes g: "steering_good P sp" and ap: "applySteeringBody P sp e = Inr sp1"
  shows "sp_commands sp1 = sp_commands sp \<or> (\<exists>k r. sp1 = setCommand k r sp \<and> writable sp k)"
proof -
  have key: "obj_get (sp_commands sp) k = Some (RecPending c a) \<Longrightarrow> writable sp (sc_commandId c)" for k c a
    using pending_record(1) [OF g] writable_cases(2) by metis
  have "sc_commandId c = tg_commandId p" if "parseSteeringCommand P (admittedCommand e p) = Some c" for c p
    using parseSteeringCommand_normal [OF that] by (simp add: admittedCommand_def)
  with ap show ?thesis
    by (auto simp: applySteeringBody_def applyPrepared_def applyAdmitted_def applyRefused_def applyTerminalRefused_def applyIncluded_def
        applyWithdrawn_def applySuperseded_def applyExpired_def obj_has_def split: ControlEventBody.splits
        intro: writable_cases key) (blast intro: writable_cases)
qed

lemma terminal_sticky:
  assumes g: "steering_good P sp" and ap: "applySteeringEvent P sp e = Inr sp'"
    and r: "obj_get (sp_commands sp) k = Some r" "\<not> isPending r"
  shows "obj_get (sp_commands sp') k = Some r"
proof -
  obtain inc sp1 where b: "applySteeringBody P sp e = Inr sp1" "sp' = sp1\<lparr>sp_observedSeq := ev_seq e\<rparr>"
    by (rule applySteeringEvent_Inr [OF g ap])
  from body_commands [OF g b(1)] show ?thesis
    using r b(2) by (auto simp: writable_def pendingAt_def)
qed

interpretation steering_sticky: guarded_sticky_fold "applySteeringEvent P" "steering_good P" "\<lambda>sp. obj_get (sp_commands sp)" "\<lambda>r. \<not> isPending r" for P
  by unfold_locales (rule terminal_sticky)

section \<open>A concrete history\<close>

definition example_steering :: SteeringPrims where
  "example_steering = \<lparr>sx_dateParse = \<lambda>_. 0, sx_sha256Text = \<lambda>_. ''h'', sx_semanticDigest = \<lambda>_. ''g'', sx_eventDigestsOk = \<lambda>_. True\<rparr>"

definition example_id :: string where
  "example_id = ''018f0000-0000-7000-8000-00000000000a''"

definition example_steering_event :: "nat \<Rightarrow> ControlActorKind \<Rightarrow> ControlEventBody \<Rightarrow> ControlEvent" where
  "example_steering_event n actor b = \<lparr>ev_eventId = ''e'', ev_runId = ''r'', ev_runEpoch = ''p'', ev_taskId = Some ''t'', ev_taskGeneration = Some 1,
     ev_expectedVersion = 0, ev_occurredAt = ''d'', ev_actorKind = actor, ev_actorId = ''a'', ev_seq = n, ev_recordedAt = ''d'', ev_body = b\<rparr>"

definition example_admission :: SteeringAdmittedPayload where
  "example_admission = \<lparr>tg_commandId = example_id, tg_sessionId = ''s'', tg_sessionGeneration = 1, sa_notBeforeAttemptGeneration = 1,
     sa_sourceKind = SrcOperator, sa_parentPrincipal = ''o'', sa_evidenceRefs = [], sa_body = ''go'', sa_bodySha256 = ''h'',
     sa_createdAt = ''d'', sa_expiresAt = None, sa_supersedesCommandId = None\<rparr>"

definition example_prepared :: AttemptPreparedPayload where
  "example_prepared = \<lparr>ab_attemptId = ''x'', ab_attemptGeneration = 1, ab_sessionId = ''s'', ab_sessionGeneration = 1,
     ap_artifactLocator = ''l'', ap_promptSha256 = ''q'', ap_promptBytes = 1, ap_rendererVersion = 1, ap_captureCutoffSeq = 1,
     ap_steeringCommandIds = [example_id]\<rparr>"

definition example_inclusion :: ControlEvent where
  "example_inclusion = example_steering_event 3 ActSystem
     (EvSteeringIncluded \<lparr>tg_commandId = example_id, tg_sessionId = ''s'', tg_sessionGeneration = 1\<rparr> ''x'' 1 ''q'')"

definition example_bound :: "ControlEvent list" where
  "example_bound = [example_steering_event 1 ActOperator (EvSteeringAdmitted example_admission),
     example_steering_event 2 ActControlPlane (EvAttemptPrepared example_prepared)]"

lemma example_bound_ok:
  "(case reduceSteeringEvents example_steering ''r'' ''p'' example_bound None of Inl _ \<Rightarrow> False
    | Inr sp \<Rightarrow> map_option mf_attemptId (obj_get (sp_manifests sp) ''x'') = Some ''x'' \<and> pendingAt sp example_id \<and> sp_observedSeq sp = 2)"
  by code_simp

lemma example_included_ok:
  "(case reduceSteeringEvents example_steering ''r'' ''p'' (example_bound @ [example_inclusion]) None of Inl _ \<Rightarrow> False
    | Inr sp \<Rightarrow> (case obj_get (sp_commands sp) example_id of Some (RecIncluded c a t x g h) \<Rightarrow> x = ''x'' \<and> t = 3 | _ \<Rightarrow> False))"
  by code_simp

lemma reduce_from_empty:
  "reduceSteeringEvents P r ep es None = fold_res (applySteeringEvent P) (emptySteeringProjection r ep) es"
  using good_restores [OF good_empty [of P r ep]]
  by (simp add: reduceSteeringEvents_def bind_res_simps checks.simps emptySteeringProjection_def)

lemma reduce_good: "reduceSteeringEvents P r ep es None = Inr sp \<Longrightarrow> steering_good P sp"
  unfolding reduce_from_empty by (rule steering_fold.replay_inv [OF good_empty])

lemma step_run: "applySteeringEvent P sp e = Inr sp' \<Longrightarrow> steering_good P sp \<Longrightarrow> sp_runId sp' = sp_runId sp \<and> sp_runEpoch sp' = sp_runEpoch sp"
  by (auto elim!: applySteeringEvent_Inr simp: applySteeringBody_def applyPrepared_def applyAdmitted_def applyRefused_def applyTerminalRefused_def
      applyIncluded_def applyWithdrawn_def applySuperseded_def applyExpired_def split: ControlEventBody.splits)

interpretation steering_run: event_fold "applySteeringEvent P" "\<lambda>sp. steering_good P sp \<and> sp_runId sp = r \<and> sp_runEpoch sp = ep" for P r ep
  by unfold_locales (use good_step step_run in blast)

lemma reduce_run: "reduceSteeringEvents P r ep es None = Inr sp \<Longrightarrow> sp_runId sp = r \<and> sp_runEpoch sp = ep"
  unfolding reduce_from_empty
  using steering_run.replay_inv [of P "emptySteeringProjection r ep" r ep es sp] good_empty [of P r ep]
  by (simp add: emptySteeringProjection_def)

section \<open>Properties\<close>

text \<open>
  C16. The reducer never writes a projection it would refuse to read: whatever events were accepted, the
  snapshot check returns the projection unchanged, and resuming from it gives what replaying the whole history gives.
\<close>

theorem steering_restorable:
  assumes "reduceSteeringEvents P r ep es None = Inr sp"
  shows "restoreSteeringProjection P sp = Inr sp \<and>
    reduceSteeringEvents P r ep (es @ fs) None = reduceSteeringEvents P r ep fs (Some sp)"
proof -
  have "restoreSteeringProjection P sp = Inr sp" by (rule good_restores [OF reduce_good [OF assms]])
  moreover from this have "reduceSteeringEvents P r ep fs (Some sp) = fold_res (applySteeringEvent P) sp fs"
    using reduce_run [OF assms] by (simp add: reduceSteeringEvents_def bind_res_simps checks.simps)
  moreover have "fold_res (applySteeringEvent P) (emptySteeringProjection r ep) es = Inr sp"
    using assms by (simp add: reduce_from_empty)
  ultimately show ?thesis by (simp add: reduce_from_empty fold_res_append)
qed

theorem steering_restorable_witness:
  "\<exists>sp. restoreSteeringProjection example_steering sp = Inr sp \<and> pendingAt sp example_id \<and>
     reduceSteeringEvents example_steering ''r'' ''p'' (example_bound @ [example_inclusion]) None =
     reduceSteeringEvents example_steering ''r'' ''p'' [example_inclusion] (Some sp)"
proof -
  obtain sp where sp: "reduceSteeringEvents example_steering ''r'' ''p'' example_bound None = Inr sp" "pendingAt sp example_id"
    using example_bound_ok by (auto split: sum.splits)
  from steering_restorable [OF sp(1), of "[example_inclusion]"] sp(2) show ?thesis by blast
qed

text \<open>
  A prompt can always be completed: while a prepared prompt still waits for commands, the inclusion of the
  next of them by the control plane or the system, at the next sequence number, is accepted.
\<close>

theorem steering_inclusion_progress:
  assumes "reduceSteeringEvents P r ep es None = Inr sp"
    and "incompletePromptBinding sp = Inr (Some (m, c, i))"
    and "ev_body e = EvSteeringIncluded \<lparr>tg_commandId = c, tg_sessionId = fx_sessionId m, tg_sessionGeneration = fx_sessionGeneration m\<rparr>
           (mf_attemptId m) (mf_attemptGeneration m) (mf_promptSha256 m)"
    and "ev_runId e = r" "ev_runEpoch e = ep" "ev_taskId e = Some (fx_taskId m)" "ev_taskGeneration e = Some (fx_taskGeneration m)"
    and "ev_actorKind e = ActControlPlane \<or> ev_actorKind e = ActSystem" "ev_seq e = Suc (sp_observedSeq sp)" "sx_eventDigestsOk P e"
  shows "\<exists>sp'. applySteeringEvent P sp e = Inr sp' \<and> \<not> pendingAt sp' c"
proof -
  have g: "steering_good P sp" by (rule reduce_good [OF assms(1)])
  obtain pre post where sh: "i < length (mf_steeringCommandIds m)" "c = mf_steeringCommandIds m ! i"
      "\<forall>j < length (mf_steeringCommandIds m). i \<le> j \<longrightarrow> pendingAt sp (mf_steeringCommandIds m ! j)"
      "obj_get (sp_manifests sp) (mf_attemptId m) = Some m" "sp_observedSeq sp = mf_preparedSeq m + i" "distinct (mf_steeringCommandIds m)"
    by (rule incomplete_shape [OF g assms(2)])
  then have "pendingAt sp c" by simp
  then obtain cmd a where rec: "obj_get (sp_commands sp) c = Some (RecPending cmd a)"
    by (auto simp: pendingAt_def isPending_def split: option.splits SteeringCommandRecord.splits)
  have ok: "manifestOk False sp m" by (rule steering_goodD(9) [OF g sh(4)])
  then have "bindingOk False sp m c" using sh(1,2) by (simp add: manifestOk_def list_all_length)
  then have b: "sameSteeringTarget cmd m" "a \<le> mf_captureCutoffSeq m" using rec by (simp_all add: bindingOk_def)
  have run: "fx_runId m = r" "fx_runEpoch m = ep" "sp_runId sp = r" "sp_runEpoch sp = ep"
    using ok reduce_run [OF assms(1)] by (auto simp: manifestOk_def)
  have tm: "targetMatchesEvent m e (fx_sessionId m) (fx_sessionGeneration m)" "targetMatchesEvent cmd e (fx_sessionId m) (fx_sessionGeneration m)"
    using b(1) run assms(4-7) by (auto simp: targetMatchesEvent_def sameSteeringTarget_def)
  let ?new = "RecIncluded cmd a (ev_seq e) (mf_attemptId m) (mf_attemptGeneration m) (mf_promptSha256 m)"
  have "applySteeringBody P sp e = Inr (setCommand c ?new sp)"
    using assms(3,9) rec tm b(2) sh findIndex_unique [OF sh(6,1)] by (simp add: applySteeringBody_def applyIncluded_def)
  moreover have "assertAuthorizedActor e = Inr ()" using assms(3,8) by (auto simp: assertAuthorizedActor_def)
  moreover have "parseEvent P e = Inr ()"
    using assms(3,6,7,9,10) by (simp add: parseEvent_def assertControlEventScope_def eventFamily_def)
  ultimately have "applySteeringEvent P sp e = Inr ((setCommand c ?new sp)\<lparr>sp_observedSeq := ev_seq e\<rparr>)"
    using assms(2-5,9) run by (simp add: applySteeringEvent_def good_restores [OF g] continuesBinding_def)
  then show ?thesis by (auto simp: pendingAt_def isPending_def)
qed

theorem steering_inclusion_progress_witness:
  "\<exists>sp sp'. incompletePromptBinding sp \<noteq> Inr None \<and> applySteeringEvent example_steering sp example_inclusion = Inr sp' \<and> \<not> pendingAt sp' example_id"
proof -
  obtain sp where sp: "reduceSteeringEvents example_steering ''r'' ''p'' example_bound None = Inr sp"
    using example_bound_ok by (auto split: sum.splits)
  have "(case reduceSteeringEvents example_steering ''r'' ''p'' example_bound None of Inl _ \<Rightarrow> False
    | Inr sp \<Rightarrow> sp_observedSeq sp = 2 \<and> (case incompletePromptBinding sp of Inr (Some (m, c, i)) \<Rightarrow> c = example_id \<and> fx_sessionId m = ''s'' \<and> fx_sessionGeneration m = 1 \<and>
        mf_attemptId m = ''x'' \<and> mf_attemptGeneration m = 1 \<and> mf_promptSha256 m = ''q'' \<and> fx_taskId m = ''t'' \<and> fx_taskGeneration m = 1 | _ \<Rightarrow> False))"
    by code_simp
  then obtain m i where inc: "incompletePromptBinding sp = Inr (Some (m, example_id, i))" and m: "fx_sessionId m = ''s''" "fx_sessionGeneration m = 1"
      "mf_attemptId m = ''x''" "mf_attemptGeneration m = 1" "mf_promptSha256 m = ''q''" "fx_taskId m = ''t''" "fx_taskGeneration m = 1"
      and obs: "sp_observedSeq sp = 2"
    using sp by (auto split: sum.splits option.splits)
  have "\<exists>sp'. applySteeringEvent example_steering sp example_inclusion = Inr sp' \<and> \<not> pendingAt sp' example_id"
    by (rule steering_inclusion_progress [OF sp inc]) (simp_all add: m obs example_inclusion_def example_steering_event_def example_steering_def)
  then obtain sp' where "applySteeringEvent example_steering sp example_inclusion = Inr sp'" "\<not> pendingAt sp' example_id" by blast
  moreover have "incompletePromptBinding sp \<noteq> Inr None" using inc by simp
  ultimately show ?thesis by blast
qed

text \<open>
  C17. Included means rendered, once: a command is included only at the position it has in exactly one prepared
  prompt of its own target, after the prompt and with its digest, and it was admitted before the prompt's capture cutoff.
\<close>

theorem steering_inclusion_exact:
  assumes "reduceSteeringEvents P r ep es None = Inr sp" "obj_get (sp_commands sp) k = Some (RecIncluded c a t x gen sha)"
  shows "\<exists>m i. obj_get (sp_manifests sp) x = Some m \<and> i < length (mf_steeringCommandIds m) \<and> mf_steeringCommandIds m ! i = k \<and>
    t = mf_preparedSeq m + i + 1 \<and> sha = mf_promptSha256 m \<and> gen = mf_attemptGeneration m \<and> sameSteeringTarget c m \<and>
    a \<le> mf_captureCutoffSeq m \<and> mf_captureCutoffSeq m < mf_preparedSeq m \<and>
    (\<forall>y n. obj_get (sp_manifests sp) y = Some n \<longrightarrow> k \<in> set (mf_steeringCommandIds n) \<longrightarrow> y = x)"
proof -
  have g: "steering_good P sp" by (rule reduce_good [OF assms(1)])
  have "k \<in> set (boundIds sp)" using steering_goodD(7) [OF g assms(2)] by (auto simp: recordOk_def)
  then obtain y m where m: "obj_get (sp_manifests sp) y = Some m" "k \<in> set (mf_steeringCommandIds m)" by (rule bound_exists [OF g])
  have sch: "manifestSchemaOk (sp_observedSeq sp) y m" by (rule steering_goodD(8) [OF g m(1)])
  have bind: "bindingOk False sp n k" if "obj_get (sp_manifests sp) z = Some n" "k \<in> set (mf_steeringCommandIds n)" for z n
    using steering_goodD(9) [OF g that(1)] that(2) by (simp add: manifestOk_def list_all_iff)
  have uniq: "z = x" if z: "obj_get (sp_manifests sp) z = Some n" "k \<in> set (mf_steeringCommandIds n)" for z n
    using bind [OF z] steering_goodD(8) [OF g z(1)] assms(2) by (simp add: bindingOk_def manifestSchemaOk_def)
  from bind [OF m] assms(2) obtain i where "findIndex (\<lambda>j. j = k) (mf_steeringCommandIds m) = Some i" "t = mf_preparedSeq m + i + 1"
      "x = mf_attemptId m" "gen = mf_attemptGeneration m" "sha = mf_promptSha256 m" "sameSteeringTarget c m" "a \<le> mf_captureCutoffSeq m"
    by (auto simp: bindingOk_def split: option.splits)
  moreover from this(1) have "i < length (mf_steeringCommandIds m)" "mf_steeringCommandIds m ! i = k" by (simp_all add: findIndex_Some)
  moreover have "mf_captureCutoffSeq m < mf_preparedSeq m" "y = x" using sch uniq [OF m] by (simp_all add: manifestSchemaOk_def)
  ultimately show ?thesis using m(1) uniq by blast
qed

theorem steering_inclusion_exact_witness:
  "\<exists>(sp :: SteeringProjection) m. obj_get (sp_manifests sp) ''x'' = Some m \<and> mf_steeringCommandIds m ! 0 = example_id \<and> mf_preparedSeq m = 2 \<and>
     (\<exists>c a g h. obj_get (sp_commands sp) example_id = Some (RecIncluded c a 3 ''x'' g h))"
proof -
  obtain sp where sp: "reduceSteeringEvents example_steering ''r'' ''p'' (example_bound @ [example_inclusion]) None = Inr sp"
      "case obj_get (sp_commands sp) example_id of Some (RecIncluded c a t x g h) \<Rightarrow> x = ''x'' \<and> t = 3 | _ \<Rightarrow> False"
    using example_included_ok by (auto split: sum.splits)
  then obtain c a g h where rec: "obj_get (sp_commands sp) example_id = Some (RecIncluded c a 3 ''x'' g h)"
    by (auto split: option.splits SteeringCommandRecord.splits)
  have "(case reduceSteeringEvents example_steering ''r'' ''p'' (example_bound @ [example_inclusion]) None of Inl _ \<Rightarrow> False
    | Inr sp \<Rightarrow> map_option mf_preparedSeq (obj_get (sp_manifests sp) ''x'') = Some 2)" by code_simp
  with sp(1) have prep: "map_option mf_preparedSeq (obj_get (sp_manifests sp) ''x'') = Some 2" by simp
  from steering_inclusion_exact [OF sp(1) rec] obtain m i where "obj_get (sp_manifests sp) ''x'' = Some m" "mf_steeringCommandIds m ! i = example_id"
      "3 = mf_preparedSeq m + i + 1" by blast
  moreover from this prep have "mf_preparedSeq m = 2" "i = 0" by simp_all
  ultimately show ?thesis using rec by blast
qed

text \<open>
  C18. Agents cannot steer themselves: an accepted event of an agent, an integration or a migration changes no
  steering command and no prompt; and a command that is not pending is never changed by any event.
\<close>

theorem steering_authority:
  assumes "reduceSteeringEvents P r ep es None = Inr sp" "applySteeringEvent P sp e = Inr sp'"
  shows "(ev_actorKind e \<in> {ActAgent, ActIntegration, ActMigration} \<longrightarrow>
      sp_commands sp' = sp_commands sp \<and> sp_manifests sp' = sp_manifests sp) \<and>
    (\<forall>k rec. obj_get (sp_commands sp) k = Some rec \<longrightarrow> \<not> isPending rec \<longrightarrow> obj_get (sp_commands sp') k = Some rec)"
proof -
  have g: "steering_good P sp" by (rule reduce_good [OF assms(1)])
  obtain inc sp1 where "assertAuthorizedActor e = Inr ()" "applySteeringBody P sp e = Inr sp1" "sp' = sp1\<lparr>sp_observedSeq := ev_seq e\<rparr>"
    by (rule applySteeringEvent_Inr [OF g assms(2)])
  then have "ev_actorKind e \<in> {ActAgent, ActIntegration, ActMigration} \<longrightarrow> sp_commands sp' = sp_commands sp \<and> sp_manifests sp' = sp_manifests sp"
    by (auto simp: assertAuthorizedActor_def applySteeringBody_def split: ControlEventBody.splits)
  then show ?thesis using terminal_sticky [OF g assms(2)] by blast
qed

theorem steering_authority_witness:
  "\<exists>sp sp'. applySteeringEvent example_steering sp (example_steering_event 4 ActAgent (EvMessagePosted ''a'' ''b'' ''c'' ''d'')) = Inr sp' \<and>
     sp_commands sp' = sp_commands sp \<and> obj_has (sp_commands sp) example_id"
proof -
  let ?e = "example_steering_event 4 ActAgent (EvMessagePosted ''a'' ''b'' ''c'' ''d'')"
  have "(case reduceSteeringEvents example_steering ''r'' ''p'' (example_bound @ [example_inclusion]) None of Inl _ \<Rightarrow> False
    | Inr sp \<Rightarrow> obj_has (sp_commands sp) example_id \<and> (case applySteeringEvent example_steering sp ?e of Inl _ \<Rightarrow> False | Inr _ \<Rightarrow> True))" by code_simp
  then obtain sp sp' where sp: "reduceSteeringEvents example_steering ''r'' ''p'' (example_bound @ [example_inclusion]) None = Inr sp"
      "obj_has (sp_commands sp) example_id" "applySteeringEvent example_steering sp ?e = Inr sp'"
    by (auto split: sum.splits)
  from steering_authority [OF sp(1,3)] sp(2,3) show ?thesis by (auto simp: example_steering_event_def)
qed

end
