(* ===== verification/Steering_Activity.thy ===== *)
theory Steering_Activity
  imports Control "HOL-Library.Multiset"
begin

text \<open>
  The activity of a session as the steering service sees it: \<open>deriveSteeringActivity\<close> of
  \<open>src/steering/activity.ts\<close>, computed from the control projection. It repeats the derivation of
  \<open>deriveActivity\<close> with every inconsistency of the projection turned into an error; the two agree wherever
  it returns. \<open>nowMs\<close> is an integer (the finiteness check of the clock is the type); \<open>Date.parse\<close> is a
  parameter that may fail.
\<close>

section \<open>The result\<close>

datatype SteeringActivityCertainty = Proven | Indeterminate

datatype SteeringAdmissionDisposition = InitialBoundaryOnly | NextBoundary | FutureAttempt | AdmissionRefused | AdmissionIndeterminate

datatype ActivityRefusal = SESSION_BLOCKED | SESSION_EXITED

record ActivityBase =
  ac_runId :: string
  ac_runEpoch :: string
  ac_sessionId :: string
  ac_sessionGeneration :: "nat option"
  ac_taskId :: "string option"
  ac_taskGeneration :: "nat option"
  ac_viewSeq :: nat
  ac_headSeq :: nat
  ac_stale :: bool
  ac_observedAt :: "string option"
  ac_ageMs :: "int option"
  ac_nextAttemptGeneration :: nat

record SteeringActivity = ActivityBase +
  ac_state :: ActivityState
  ac_reason :: string
  ac_certainty :: SteeringActivityCertainty
  ac_admission :: SteeringAdmissionDisposition
  ac_captureEligible :: bool
  ac_refusalReason :: "ActivityRefusal option"

section \<open>Attempts of a session\<close>

definition attemptEnded :: "AttemptFact \<Rightarrow> bool" where
  "attemptEnded a \<longleftrightarrow> a_state a = Exited \<or> a_state a = Abandoned"

text \<open>One round of the loop over the attempts: the generations seen and the number of live attempts.\<close>

definition checkAttempt :: "string option \<Rightarrow> nat option \<Rightarrow> nat list \<times> nat \<Rightarrow> AttemptFact \<Rightarrow> string + nat list \<times> nat" where
  "checkAttempt taskId taskGeneration acc a =
     (case acc of (generations, liveCount) \<Rightarrow>
      bind_res (checks [(a_attemptGeneration a < 1, ''attempt has an invalid generation''),
                        (a_attemptGeneration a \<in> set generations, ''duplicate attempt generation''),
                        (Some (a_taskId a) \<noteq> taskId \<or> Some (a_taskGeneration a) \<noteq> taskGeneration,
                         ''attempt does not match its session task target'')]) (\<lambda>_.
      Inr (a_attemptGeneration a # generations, if attemptEnded a then liveCount else liveCount + 1)))"

text \<open>Newest generation first; equal generations, which the loop has excluded, by identifier.\<close>

definition sortAttempts :: "AttemptFact list \<Rightarrow> AttemptFact list" where
  "sortAttempts as = sort_key (\<lambda>a. (- int (a_attemptGeneration a), collate_key (a_attemptId a))) as"

definition latestAttemptForSession ::
    "ControlProjection \<Rightarrow> string \<Rightarrow> nat \<Rightarrow> string option \<Rightarrow> nat option \<Rightarrow> string + AttemptFact option \<times> nat" where
  "latestAttemptForSession st sessionId sessionGeneration taskId taskGeneration =
     (let attempts = filter (\<lambda>a. a_sessionId a = sessionId \<and> a_sessionGeneration a = sessionGeneration) (obj_values (cs_attempts st)) in
      bind_res (fold_res (checkAttempt taskId taskGeneration) ([], 0) attempts) (\<lambda>(_, liveCount).
      let sorted = sortAttempts attempts in
      bind_res (checks [(liveCount > 1, ''session has multiple live attempts''),
                        (list_ex (\<lambda>a. \<not> attemptEnded a) (tl sorted), ''older attempt remains live after a newer generation'')]) (\<lambda>_.
      Inr (case sorted of [] \<Rightarrow> (None, 1) | latest # _ \<Rightarrow> (Some latest, a_attemptGeneration latest + 1)))))"

section \<open>deriveSteeringActivity\<close>

definition finish :: "ActivityBase \<Rightarrow> ActivityState \<Rightarrow> string \<Rightarrow> SteeringActivityCertainty \<Rightarrow> SteeringActivity" where
  "finish base state reason certainty =
     (let act = (\<lambda>admission eligible refusal. ActivityBase.extend base
            (SteeringActivity.fields state reason certainty admission eligible refusal)) in
      case state of
        ActIdle \<Rightarrow> act (if certainty = Proven then InitialBoundaryOnly else AdmissionIndeterminate) False None
      | ActWaitingInput \<Rightarrow> act NextBoundary (certainty = Proven) None
      | ActDispatching \<Rightarrow> act FutureAttempt False None
      | ActActive \<Rightarrow> act FutureAttempt False None
      | ActSettling \<Rightarrow> act FutureAttempt False None
      | ActBlocked \<Rightarrow> act AdmissionRefused False (Some SESSION_BLOCKED)
      | ActExited \<Rightarrow> act AdmissionRefused False (Some SESSION_EXITED))"

definition orElse :: "string option \<Rightarrow> string \<Rightarrow> string" where
  "orElse v d = (case v of None \<Rightarrow> d | Some s \<Rightarrow> s)"

text \<open>The sequence at which the latest attempt ended, if it has.\<close>

definition terminalSeq :: "AttemptFact \<Rightarrow> nat option" where
  "terminalSeq a = (if a_state a = Exited then a_exitedSeq a else if a_state a = Abandoned then a_abandonedSeq a else None)"

definition attemptReason :: "AttemptFact option \<Rightarrow> string \<Rightarrow> string" where
  "attemptReason latest what = ''attempt '' @ (case latest of None \<Rightarrow> [] | Some a \<Rightarrow> nat_digits (a_attemptGeneration a)) @ what"

text \<open>The part after all consistency checks: runtime, task and latest attempt decide.\<close>

definition steeringState :: "RuntimeFact \<Rightarrow> TaskFact option \<Rightarrow> AttemptFact option \<Rightarrow> ActivityState \<times> string \<times> SteeringActivityCertainty" where
  "steeringState rt task latest =
     (if rt_observation rt = ObsExited then (ActExited, orElse (rt_reason rt) ''session generation exited'', Proven)
      else if rt_observation rt = ObsBlocked then (ActBlocked, orElse (rt_reason rt) ''session requires a control-plane decision'', Proven)
      else if map_option t_status task = Some TDone then (ActExited, ''task completed'', Proven)
      else if map_option t_status task = Some TEscalated then (ActExited, ''task escalated and this session generation is terminal'', Proven)
      else if map_option t_status task = Some TBlocked then (ActBlocked, orElse (Option.bind task t_lastSummary) ''task blocked'', Proven)
      else if map_option a_state latest = Some Prepared then (ActDispatching, attemptReason latest '' prompt prepared'', Proven)
      else if map_option a_state latest = Some Active then (ActActive, attemptReason latest '' provider active'', Proven)
      else if (case latest of None \<Rightarrow> False | Some a \<Rightarrow> attemptEnded a \<and>
                 \<not> (rt_observation rt = WaitingInput \<and> (case terminalSeq a of None \<Rightarrow> False | Some s \<Rightarrow> rt_updatedSeq rt > s)))
      then (ActSettling, attemptReason latest '' exited; parent reconciliation pending'', Proven)
      else if rt_observation rt = WaitingInput then (ActWaitingInput, orElse (rt_reason rt) ''safe prompt boundary available'', Proven)
      else if rt_observation rt = ProbeFailed then (ActIdle, orElse (rt_reason rt) ''runtime probe failed; no executable boundary proven'', Indeterminate)
      else (ActIdle, if rt_taskId rt \<noteq> None then ''task assigned but no safe prompt boundary is proven'' else ''session available'', Proven))"

definition activityOf :: "ActivityBase \<Rightarrow> RuntimeFact \<Rightarrow> TaskFact option \<Rightarrow> AttemptFact option \<Rightarrow> bool \<Rightarrow> string + SteeringActivity" where
  "activityOf base rt task latest generationStale =
     bind_res (checks [(rt_sessionGeneration rt < 1, ''session has an invalid generation'')]) (\<lambda>_.
     Inr (if generationStale then finish base ActIdle ''session observes a stale task generation'' Indeterminate
          else case steeringState rt task latest of (state, reason, certainty) \<Rightarrow> finish base state reason certainty))"

definition runReason :: "RunStatus \<Rightarrow> string" where
  "runReason s = ''run '' @ (case s of RunStarted \<Rightarrow> ''started'' | RunCompleted \<Rightarrow> ''completed'' | RunFailed \<Rightarrow> ''failed'' | RunCancelled \<Rightarrow> ''cancelled'')"

definition runtimeTask :: "ControlProjection \<Rightarrow> RuntimeFact option \<Rightarrow> TaskFact option" where
  "runtimeTask st runtime = Option.bind (Option.bind runtime rt_taskId) (obj_get (cs_tasks st))"

definition generationStale :: "TaskFact option \<Rightarrow> RuntimeFact option \<Rightarrow> bool" where
  "generationStale task runtime = (case task of None \<Rightarrow> False | Some t \<Rightarrow> Option.bind runtime rt_taskGeneration \<noteq> Some (t_generation t))"

definition activityBase :: "ControlProjection \<Rightarrow> string \<Rightarrow> int \<Rightarrow> nat \<Rightarrow> RuntimeFact option \<Rightarrow> int option \<Rightarrow> nat \<Rightarrow> ActivityBase" where
  "activityBase st sessionId nowMs headSeq runtime observed nextGeneration =
     \<lparr>ac_runId = cs_runId st, ac_runEpoch = cs_runEpoch st, ac_sessionId = sessionId,
      ac_sessionGeneration = map_option rt_sessionGeneration runtime, ac_taskId = Option.bind runtime rt_taskId,
      ac_taskGeneration = Option.bind runtime rt_taskGeneration, ac_viewSeq = cs_headSeq st, ac_headSeq = headSeq,
      ac_stale = (cs_headSeq st < headSeq \<or> generationStale (runtimeTask st runtime) runtime),
      ac_observedAt = map_option rt_observedAt runtime,
      ac_ageMs = map_option (\<lambda>t. max 0 (nowMs - t)) observed, ac_nextAttemptGeneration = nextGeneration\<rparr>"

definition runOver :: "ControlProjection \<Rightarrow> bool" where
  "runOver st = (case cs_run st of None \<Rightarrow> False | Some run \<Rightarrow> run_status run \<noteq> RunStarted)"

definition deriveSteeringActivity :: "(string \<Rightarrow> int option) \<Rightarrow> ControlProjection \<Rightarrow> string \<Rightarrow> int \<Rightarrow> nat option \<Rightarrow> string + SteeringActivity" where
  "deriveSteeringActivity dateParse st sessionId nowMs optHead =
     (let headSeq = (case optHead of None \<Rightarrow> cs_headSeq st | Some h \<Rightarrow> h);
          runtime = obj_get (cs_runtimes st) sessionId;
          task = runtimeTask st runtime;
          observed = Option.bind runtime (\<lambda>rt. dateParse (rt_observedAt rt)) in
      bind_res (checks
        [(headSeq < cs_headSeq st, ''authority head sequence cannot precede the projected view''),
         (runtime = None \<and> list_ex (\<lambda>a. a_sessionId a = sessionId) (obj_values (cs_attempts st)),
          ''session has attempts but no durable runtime fact''),
         (runtime \<noteq> None \<and> observed = None, ''session has an invalid observation timestamp''),
         (Option.bind runtime rt_taskId \<noteq> None \<and> task = None, ''session references a missing task''),
         ((Option.bind runtime rt_taskId = None) \<noteq> (Option.bind runtime rt_taskGeneration = None), ''session has a half-scoped task target'')]) (\<lambda>_.
      bind_res (case runtime of None \<Rightarrow> Inr (None, 1)
                | Some rt \<Rightarrow> latestAttemptForSession st sessionId (rt_sessionGeneration rt) (rt_taskId rt) (rt_taskGeneration rt)) (\<lambda>(latest, nextGeneration).
      let base = activityBase st sessionId nowMs headSeq runtime observed nextGeneration in
      if runOver st then Inr (finish base ActExited (case cs_run st of None \<Rightarrow> [] | Some run \<Rightarrow> runReason (run_status run)) Proven)
      else (case runtime of None \<Rightarrow> Inr (finish base ActIdle ''no durable session facts'' Proven)
            | Some rt \<Rightarrow> activityOf base rt task latest (generationStale task runtime)))))"

definition canCaptureSteering :: "SteeringActivity \<Rightarrow> bool" where
  "canCaptureSteering act \<longleftrightarrow> ac_state act = ActWaitingInput \<and> ac_certainty act = Proven \<and> ac_captureEligible act"

definition canAdmitSteeringForFutureAttempt :: "SteeringActivity \<Rightarrow> bool" where
  "canAdmitSteeringForFutureAttempt act \<longleftrightarrow> ac_admission act = NextBoundary \<or> ac_admission act = FutureAttempt"

section \<open>Facts\<close>

lemma finish_simps [simp]:
  "ac_state (finish base s r c) = s" "ac_reason (finish base s r c) = r" "ac_certainty (finish base s r c) = c"
  "ac_captureEligible (finish base s r c) \<longleftrightarrow> s = ActWaitingInput \<and> c = Proven"
  "ac_nextAttemptGeneration (finish base s r c) = ac_nextAttemptGeneration base"
  "ac_admission (finish base s r c) = (case s of ActIdle \<Rightarrow> if c = Proven then InitialBoundaryOnly else AdmissionIndeterminate
     | ActWaitingInput \<Rightarrow> NextBoundary | ActBlocked \<Rightarrow> AdmissionRefused | ActExited \<Rightarrow> AdmissionRefused | _ \<Rightarrow> FutureAttempt)"
  by (cases s; simp add: finish_def ActivityBase.defs SteeringActivity.defs)+

lemma attempts_loop:
  assumes "fold_res (checkAttempt tid tg) (gens, n) as = Inr (gens', n')"
  shows "distinct (map a_attemptGeneration as) \<and> (\<forall>a \<in> set as. a_attemptGeneration a \<notin> set gens \<and> Some (a_taskId a) = tid) \<and>
    n' = n + length (filter (\<lambda>a. \<not> attemptEnded a) as)"
  using assms
proof (induction as arbitrary: gens n)
  case (Cons a as)
  then obtain acc where acc: "checkAttempt tid tg (gens, n) a = Inr acc" and run: "fold_res (checkAttempt tid tg) acc as = Inr (gens', n')"
    by (auto split: sum.splits)
  from acc have a: "a_attemptGeneration a \<notin> set gens" "Some (a_taskId a) = tid"
    and "acc = (a_attemptGeneration a # gens, if attemptEnded a then n else n + 1)"
    by (auto simp: checkAttempt_def)
  with run have rest: "fold_res (checkAttempt tid tg) (a_attemptGeneration a # gens, if attemptEnded a then n else n + 1) as = Inr (gens', n')"
    by simp
  from Cons.IH [OF rest] a show ?case by auto
qed simp

lemma sortAttempts_by_generation:
  assumes "distinct (map a_attemptGeneration as)"
  shows "sort_key (\<lambda>a. - int (a_attemptGeneration a)) as = sortAttempts as"
proof (rule sort_key_inj_key_eq)
  show "mset as = mset (sortAttempts as)" by (simp add: sortAttempts_def)
  show "inj_on (\<lambda>a. - int (a_attemptGeneration a)) (set as)" using assms by (auto simp: inj_on_def distinct_map)
  have "sorted (map (\<lambda>a. (- int (a_attemptGeneration a), collate_key (a_attemptId a))) (sortAttempts as))"
    unfolding sortAttempts_def by (rule sorted_sort_key)
  then show "sorted (map (\<lambda>a. - int (a_attemptGeneration a)) (sortAttempts as))"
    unfolding sorted_map by (rule sorted_wrt_mono_rel [rotated]) (auto simp: less_eq_prod_def)
qed

lemma latest_agrees:
  assumes "latestAttemptForSession st sid g tid tg = Inr (latest, next)"
  shows "latest = latestAttempt st sid g"
    and "\<And>a. a \<in> set (obj_values (cs_attempts st)) \<Longrightarrow> a_sessionId a = sid \<Longrightarrow> a_sessionGeneration a = g \<Longrightarrow>
      Some (a_taskId a) = tid \<and> a_attemptGeneration a < next \<and> (latest = Some a \<or> attemptEnded a)"
proof -
  let ?as = "filter (\<lambda>a. a_sessionId a = sid \<and> a_sessionGeneration a = g) (obj_values (cs_attempts st))"
  from assms obtain gens n where loop: "fold_res (checkAttempt tid tg) ([], 0) ?as = Inr (gens, n)"
      and old: "\<forall>a \<in> set (tl (sortAttempts ?as)). attemptEnded a"
      and res: "(latest, next) = (case sortAttempts ?as of [] \<Rightarrow> (None, 1) | l # _ \<Rightarrow> (Some l, a_attemptGeneration l + 1))"
    by (auto simp: latestAttemptForSession_def Let_def list_ex_iff)
  note l = attempts_loop [OF loop]
  have so: "sort_key (\<lambda>a. - int (a_attemptGeneration a)) ?as = sortAttempts ?as"
    using l by (intro sortAttempts_by_generation) simp
  show "latest = latestAttempt st sid g" unfolding latestAttempt_def so using res by (auto split: list.splits)
  fix a assume "a \<in> set (obj_values (cs_attempts st))" "a_sessionId a = sid" "a_sessionGeneration a = g"
  then have a: "a \<in> set ?as" by simp
  have "set (sortAttempts ?as) = set ?as" by (simp add: sortAttempts_def)
  with a obtain x xs where xs: "sortAttempts ?as = x # xs" by (cases "sortAttempts ?as") auto
  have "sorted (map (\<lambda>a. - int (a_attemptGeneration a)) (x # xs))" using sorted_sort_key [of "\<lambda>a. - int (a_attemptGeneration a)" ?as] so xs by simp
  moreover have "a \<in> set (x # xs)" using a \<open>set (sortAttempts ?as) = set ?as\<close> xs by simp
  ultimately show "Some (a_taskId a) = tid \<and> a_attemptGeneration a < next \<and> (latest = Some a \<or> attemptEnded a)"
    using l a res old xs by auto
qed

lemma steeringState_waiting:
  "steeringState rt task latest = (ActWaitingInput, r, c) \<Longrightarrow> (case latest of None \<Rightarrow> True | Some a \<Rightarrow> attemptEnded a)"
  by (cases latest; cases "a_state (the latest)")
    (auto simp: steeringState_def attemptEnded_def split: if_splits)

text \<open>The state that \<open>deriveActivity\<close> reads off a runtime, its task and its latest attempt.\<close>

definition controlState :: "RuntimeFact \<Rightarrow> TaskFact option \<Rightarrow> AttemptFact option \<Rightarrow> ActivityState" where
  "controlState rt task latest =
     (let status = map_option t_status task in
      if rt_observation rt = ObsExited then ActExited
      else if rt_observation rt = ObsBlocked then ActBlocked
      else if status = Some TEscalated \<or> status = Some TDone then ActExited
      else if status = Some TBlocked then ActBlocked
      else if map_option a_state latest = Some Prepared then ActDispatching
      else if map_option a_state latest = Some Active then ActActive
      else if (case latest of None \<Rightarrow> False
         | Some a \<Rightarrow> (a_state a = Exited \<or> a_state a = Abandoned) \<and> task \<noteq> None \<and>
             \<not> (rt_observation rt = WaitingInput \<and>
                (case (if a_state a = Exited then a_exitedSeq a else a_abandonedSeq a) of
                   None \<Rightarrow> False | Some s \<Rightarrow> rt_updatedSeq rt > s))) then ActSettling
      else if rt_observation rt = WaitingInput then ActWaitingInput
      else ActIdle)"

lemma deriveState_runtime:
  assumes "\<not> runOver st" "obj_get (cs_runtimes st) sid = Some rt" "rt_taskId rt \<noteq> Some []"
  shows "deriveState st sid = (if generationStale (runtimeTask st (Some rt)) (Some rt) then ActIdle
     else controlState rt (runtimeTask st (Some rt)) (latestAttempt st sid (rt_sessionGeneration rt)))"
proof -
  have task: "(case rt_taskId rt of None \<Rightarrow> None | Some t \<Rightarrow> if t = [] then None else obj_get (cs_tasks st) t) = runtimeTask st (Some rt)"
    using assms(3) by (simp add: runtimeTask_def split: option.split)
  have stale: "(case t of None \<Rightarrow> False | Some t \<Rightarrow> Some (t_generation t) \<noteq> rt_taskGeneration rt) = generationStale t (Some rt)" for t
    by (auto simp: generationStale_def split: option.split)
  show ?thesis
    unfolding deriveState_def Let_def assms(2) option.case task stale using assms(1)
    by (simp only: controlState_def Let_def runOver_def if_False)
qed

lemma steeringState_control:
  assumes "latest \<noteq> None \<Longrightarrow> task \<noteq> None"
  shows "fst (steeringState rt task latest) = controlState rt task latest"
proof (cases latest)
  case (Some a)
  with assms obtain t where "task = Some t" by blast
  with Some show ?thesis
    by (cases "a_state a") (auto simp: steeringState_def controlState_def attemptEnded_def terminalSeq_def split: option.splits)
next
  case None
  then show ?thesis by (cases task) (auto simp: steeringState_def controlState_def)
qed

text \<open>
  C34. The steering view agrees with the control view: where it is defined, its state is the state the control
  projection derives; and a prompt may be captured only if no attempt of the session generation is live, for
  an attempt generation above all of them.
\<close>

theorem steering_activity_agrees:
  assumes "deriveSteeringActivity dateParse st sid now head = Inr act"
    and "\<forall>rt. obj_get (cs_runtimes st) sid = Some rt \<longrightarrow> rt_taskId rt \<noteq> Some []"
  shows "ac_state act = deriveState st sid \<and>
    (canCaptureSteering act \<longrightarrow> (\<exists>rt. obj_get (cs_runtimes st) sid = Some rt \<and>
       (\<forall>a \<in> set (obj_values (cs_attempts st)). a_sessionId a = sid \<longrightarrow> a_sessionGeneration a = rt_sessionGeneration rt \<longrightarrow>
          attemptEnded a \<and> a_attemptGeneration a < ac_nextAttemptGeneration act)))"
proof (cases "obj_get (cs_runtimes st) sid")
  case None
  with assms(1) show ?thesis
    by (auto simp: deriveSteeringActivity_def Let_def deriveState_def runOver_def canCaptureSteering_def split: if_splits option.splits)
next
  case (Some rt)
  let ?task = "runtimeTask st (Some rt)"
  let ?stale = "generationStale ?task (Some rt)"
  let ?base = "activityBase st sid now (case head of None \<Rightarrow> cs_headSeq st | Some h \<Rightarrow> h) (Some rt) (dateParse (rt_observedAt rt))"
  obtain latest nxt where L: "latestAttemptForSession st sid (rt_sessionGeneration rt) (rt_taskId rt) (rt_taskGeneration rt) =
        Inr (latest, nxt)" and missing: "?task = None \<Longrightarrow> rt_taskId rt = None"
      and out: "(if runOver st then Inr (finish (?base nxt) ActExited (case cs_run st of None \<Rightarrow> [] | Some run \<Rightarrow> runReason (run_status run)) Proven)
         else activityOf (?base nxt) rt ?task latest ?stale) = Inr act"
    using assms(1) [unfolded deriveSteeringActivity_def Let_def Some option.case bind_res_Inr checks_Inr Option.bind.simps]
    by (auto split: prod.splits)
  define base where "base = ?base nxt"
  have nxt: "ac_nextAttemptGeneration base = nxt" by (simp add: base_def activityBase_def)
  have act: "if runOver st then \<exists>r. act = finish base ActExited r Proven else activityOf base rt ?task latest ?stale = Inr act"
    using out by (auto simp: base_def)
  note la = latest_agrees [OF L]
  show ?thesis
  proof (cases "runOver st")
    case True
    with act Some show ?thesis by (auto simp: deriveState_def runOver_def canCaptureSteering_def split: option.splits)
  next
    case False
    with act have af: "activityOf base rt ?task latest ?stale = Inr act" by simp
    have settled: "?task \<noteq> None" if "latest = Some a" for a
    proof -
      from that la(1) have "a \<in> set (obj_values (cs_attempts st))" "a_sessionId a = sid" "a_sessionGeneration a = rt_sessionGeneration rt"
        by (auto simp: latestAttempt_def split: list.splits dest!: arg_cong [where f = set])
      from la(2) [OF this] missing show ?thesis by (metis option.distinct(1))
    qed
    have "fst (steeringState rt ?task latest) = controlState rt ?task latest"
      by (rule steeringState_control) (use settled in blast)
    then have "ac_state act = deriveState st sid"
      using af assms(2) Some unfolding deriveState_runtime [OF False Some assms(2) [rule_format, OF Some]] la(1) [symmetric]
      by (auto simp: activityOf_def split: prod.splits)
    moreover have "attemptEnded a \<and> a_attemptGeneration a < ac_nextAttemptGeneration act"
      if c: "canCaptureSteering act" and a: "a \<in> set (obj_values (cs_attempts st))" "a_sessionId a = sid" "a_sessionGeneration a = rt_sessionGeneration rt" for a
      using af c la(2) [OF a] nxt steeringState_waiting [of rt ?task latest]
      by (auto simp: activityOf_def canCaptureSteering_def split: if_splits prod.splits option.splits)
    ultimately show ?thesis using Some by blast
  qed
qed

definition example_waiting :: ControlProjection where
  "example_waiting = (emptyControlProjection ''r'' ''p'')\<lparr>cs_runtimes := [(''s'', \<lparr>rt_sessionId = ''s'', rt_sessionGeneration = 1,
     rt_taskId = None, rt_taskGeneration = None, rt_observation = WaitingInput, rt_launchId = None, rt_reason = None,
     rt_observedAt = ''d'', rt_updatedSeq = 1\<rparr>)]\<rparr>"

theorem steering_activity_agrees_witness:
  "\<exists>act. deriveSteeringActivity (\<lambda>_. Some 0) example_waiting ''s'' 5 None = Inr act \<and> canCaptureSteering act \<and>
     ac_state act = deriveState example_waiting ''s''"
proof -
  have "(case deriveSteeringActivity (\<lambda>_. Some 0) example_waiting ''s'' 5 None of Inl _ \<Rightarrow> False | Inr act \<Rightarrow> canCaptureSteering act)"
    by code_simp
  then obtain act where act: "deriveSteeringActivity (\<lambda>_. Some 0) example_waiting ''s'' 5 None = Inr act" "canCaptureSteering act"
    by (auto split: sum.splits)
  have "\<forall>rt. obj_get (cs_runtimes example_waiting) ''s'' = Some rt \<longrightarrow> rt_taskId rt \<noteq> Some []"
    by (simp add: example_waiting_def)
  from steering_activity_agrees [OF act(1) this] act show ?thesis by blast
qed

end
