(* ===== verification/Repo_Domain.thy ===== *)
theory Repo_Domain
  imports Control_Types
begin

text \<open>
  Repositories of a multi-repository run (\<open>src/multirepo/domain.ts\<close>): the schemas of a repository and of its
  physical identity, the registry that refuses aliased and nested repositories, the digest of a repository set
  and the scope check. \<open>path.resolve\<close> and \<open>path.relative\<close> are those of POSIX on absolute paths.

  Parameters are the probe of a repository's physical identity (which may fail) and SHA-256 of the JSON of a
  repository set.
\<close>

section \<open>Limits, schemas and errors\<close>

definition maximumRepositories :: nat where "maximumRepositories = 64"

definition maximumRepositoriesPerTask :: nat where "maximumRepositoriesPerTask = 32"

definition maximumTasks :: nat where "maximumTasks = 4096"

definition maximumDependencies :: nat where "maximumDependencies = 16384"

definition maximumDependenciesPerTask :: nat where "maximumDependenciesPerTask = 256"

definition maximumGraphDepth :: nat where "maximumGraphDepth = 256"

definition maximumRefBytes :: nat where "maximumRefBytes = 512"

definition maximumPathBytes :: nat where "maximumPathBytes = 4096"

definition startsWith :: "string \<Rightarrow> string \<Rightarrow> bool" where
  "startsWith s p \<longleftrightarrow> take (length p) s = p"

fun hasSubstring :: "string \<Rightarrow> string \<Rightarrow> bool" where
  "hasSubstring [] p = (p = [])"
| "hasSubstring (c # s) p = (startsWith (c # s) p \<or> hasSubstring s p)"

definition gitRefOk :: "string \<Rightarrow> bool" where
  "gitRefOk v \<longleftrightarrow> 1 \<le> length v \<and> length v \<le> maximumRefBytes \<and>
     \<not> startsWith v ''-'' \<and> \<not> startsWith v ''/'' \<and> last v \<noteq> CHR ''/'' \<and> last v \<noteq> CHR ''.'' \<and>
     \<not> hasSubstring v ''..'' \<and> \<not> hasSubstring v [CHR ''@'', CHR 0x7B] \<and> list_all (\<lambda>c. 32 < char_code c \<and> char_code c \<noteq> 127) v \<and>
     list_all (\<lambda>c. c \<notin> set ''~^:?*[]'' \<and> char_code c \<noteq> 92) v"

record RepositoryDefinition =
  rd_repositoryId :: string
  rd_configuredPath :: string
  rd_defaultBranch :: string
  rd_protectedBranches :: "string list"

definition definitionOk :: "RepositoryDefinition \<Rightarrow> bool" where
  "definitionOk d \<longleftrightarrow> isValidId (rd_repositoryId d) \<and> 1 \<le> length (rd_configuredPath d) \<and> length (rd_configuredPath d) \<le> maximumPathBytes \<and>
     gitRefOk (rd_defaultBranch d) \<and> length (rd_protectedBranches d) \<le> 64 \<and> list_all gitRefOk (rd_protectedBranches d) \<and>
     distinct (rd_protectedBranches d)"

record RepositoryIdentityProbe =
  rp_canonicalRoot :: string
  rp_rootDevice :: int
  rp_rootInode :: int
  rp_gitCommonDirDevice :: int
  rp_gitCommonDirInode :: int

record RepositoryIdentity =
  ri_repositoryId :: string
  ri_canonicalRoot :: string
  ri_rootDevice :: int
  ri_rootInode :: int
  ri_gitCommonDirDevice :: int
  ri_gitCommonDirInode :: int
  ri_defaultBranch :: string
  ri_protectedBranches :: "string list"

definition identityOk :: "RepositoryIdentity \<Rightarrow> bool" where
  "identityOk i \<longleftrightarrow> isValidId (ri_repositoryId i) \<and> 1 \<le> length (ri_canonicalRoot i) \<and> length (ri_canonicalRoot i) \<le> maximumPathBytes \<and>
     0 \<le> ri_rootDevice i \<and> ri_rootDevice i \<le> MAX_SAFE_INTEGER \<and> 0 < ri_rootInode i \<and> ri_rootInode i \<le> MAX_SAFE_INTEGER \<and>
     0 \<le> ri_gitCommonDirDevice i \<and> ri_gitCommonDirDevice i \<le> MAX_SAFE_INTEGER \<and> 0 < ri_gitCommonDirInode i \<and> ri_gitCommonDirInode i \<le> MAX_SAFE_INTEGER \<and>
     gitRefOk (ri_defaultBranch i) \<and> length (ri_protectedBranches i) \<le> 64 \<and> list_all gitRefOk (ri_protectedBranches i)"

type_synonym RepositoryRegistry = "RepositoryIdentity list"

record RepositorySet =
  rs_repositoryIds :: "string list"
  rs_repositorySetId :: string

datatype MultiRepositoryDomainErrorCode =
    INVALID_REPOSITORY | DUPLICATE_REPOSITORY | PHYSICAL_ALIAS | NESTED_REPOSITORY | UNKNOWN_REPOSITORY | INVALID_REPOSITORY_SET | SCOPE_EXCEEDED

record DomainPrims =
  dp_resolveIdentity :: "RepositoryDefinition \<Rightarrow> RepositoryIdentityProbe option"
  dp_setDigest :: "(string \<times> string \<times> string list) list \<Rightarrow> string"

section \<open>POSIX paths\<close>

text \<open>The segments of an absolute path after \<open>.\<close> and \<open>..\<close> are resolved; \<open>..\<close> at the root stays at the root.\<close>

definition isAbsolute :: "string \<Rightarrow> bool" where
  "isAbsolute s \<longleftrightarrow> startsWith s ''/''"

fun pathPush :: "string list \<Rightarrow> string \<Rightarrow> string list" where
  "pathPush acc seg = (if seg = [] \<or> seg = ''.'' then acc else if seg = ''..'' then butlast acc else acc @ [seg])"

definition segments :: "string \<Rightarrow> string list" where
  "segments s = foldl pathPush [] (split_on (CHR ''/'') s)"

definition resolve :: "string \<Rightarrow> string" where
  "resolve s = CHR ''/'' # join_with (CHR ''/'') (segments s)"

fun stripCommon :: "string list \<Rightarrow> string list \<Rightarrow> string list \<times> string list" where
  "stripCommon (a # as) (b # bs) = (if a = b then stripCommon as bs else (a # as, b # bs))"
| "stripCommon as bs = (as, bs)"

definition relative :: "string \<Rightarrow> string \<Rightarrow> string" where
  "relative from to = (let (as, bs) = stripCommon (segments from) (segments to) in
     join_with (CHR ''/'') (map (\<lambda>_. ''..'') as @ bs))"

definition isNested :: "string \<Rightarrow> string \<Rightarrow> bool" where
  "isNested left right = (let relation = relative left right in
     relation \<noteq> [] \<and> relation \<noteq> ''.'' \<and> \<not> startsWith relation ''..'' \<and> \<not> isAbsolute relation)"

section \<open>The registry\<close>

text \<open>\<open>physicalKey\<close> is the string \<open>device:inode\<close> of two nonnegative integers.\<close>

definition physicalKey :: "int \<Rightarrow> int \<Rightarrow> string" where
  "physicalKey device inode = int_str device @ '':'' @ int_str inode"

definition candidateIdentity :: "RepositoryDefinition \<Rightarrow> RepositoryIdentityProbe \<Rightarrow> RepositoryIdentity" where
  "candidateIdentity d p = \<lparr>ri_repositoryId = rd_repositoryId d, ri_canonicalRoot = resolve (rp_canonicalRoot p), ri_rootDevice = rp_rootDevice p,
     ri_rootInode = rp_rootInode p, ri_gitCommonDirDevice = rp_gitCommonDirDevice p, ri_gitCommonDirInode = rp_gitCommonDirInode p,
     ri_defaultBranch = rd_defaultBranch d, ri_protectedBranches = rd_protectedBranches d\<rparr>"

definition rootKey :: "RepositoryIdentity \<Rightarrow> string" where
  "rootKey i = physicalKey (ri_rootDevice i) (ri_rootInode i)"

definition commonKey :: "RepositoryIdentity \<Rightarrow> string" where
  "commonKey i = physicalKey (ri_gitCommonDirDevice i) (ri_gitCommonDirInode i)"

definition addRepository :: "DomainPrims \<Rightarrow> RepositoryIdentity list \<Rightarrow> RepositoryDefinition \<Rightarrow> MultiRepositoryDomainErrorCode + RepositoryIdentity list" where
  "addRepository P identities d =
     bind_res (checks [(\<not> definitionOk d, INVALID_REPOSITORY), (rd_repositoryId d \<in> ri_repositoryId ` set identities, DUPLICATE_REPOSITORY)]) (\<lambda>_.
     bind_res (require_some INVALID_REPOSITORY (dp_resolveIdentity P d)) (\<lambda>p.
     let candidate = candidateIdentity d p in
     bind_res (checks
       [(\<not> identityOk candidate \<or> \<not> isAbsolute (rp_canonicalRoot p), INVALID_REPOSITORY),
        (rootKey candidate \<in> rootKey ` set identities \<or> commonKey candidate \<in> commonKey ` set identities \<or>
           ri_canonicalRoot candidate \<in> ri_canonicalRoot ` set identities, PHYSICAL_ALIAS),
        (list_ex (\<lambda>i. isNested (ri_canonicalRoot i) (ri_canonicalRoot candidate) \<or> isNested (ri_canonicalRoot candidate) (ri_canonicalRoot i)) identities,
           NESTED_REPOSITORY)]) (\<lambda>_.
     Inr (identities @ [candidate]))))"

definition materializeRepositoryRegistry :: "DomainPrims \<Rightarrow> RepositoryDefinition list \<Rightarrow> MultiRepositoryDomainErrorCode + RepositoryRegistry" where
  "materializeRepositoryRegistry P definitions =
     (if definitions = [] \<or> length definitions > maximumRepositories then Inl INVALID_REPOSITORY
      else bind_res (fold_res (addRepository P) [] definitions) (\<lambda>identities. Inr (sort_key (\<lambda>i. collate_key (ri_repositoryId i)) identities)))"

section \<open>Repository sets and scope\<close>

text \<open>\<open>Array.prototype.sort\<close> without a comparison orders strings by code units.\<close>

definition sortStrings :: "string list \<Rightarrow> string list" where
  "sortStrings = sort_key (map (\<lambda>c. char_code c))"

definition repositorySetPayload :: "RepositoryIdentity list \<Rightarrow> (string \<times> string \<times> string list) list" where
  "repositorySetPayload identities = map (\<lambda>i. (ri_repositoryId i, ri_defaultBranch i, sortStrings (ri_protectedBranches i))) identities"

definition selectRepository :: "RepositoryRegistry \<Rightarrow> RepositoryIdentity list \<Rightarrow> string \<Rightarrow> MultiRepositoryDomainErrorCode + RepositoryIdentity list" where
  "selectRepository registry selected k =
     bind_res (checks [(\<not> isValidId k, INVALID_REPOSITORY_SET)]) (\<lambda>_.
     bind_res (require_some UNKNOWN_REPOSITORY (map_of (rev (map (\<lambda>i. (ri_repositoryId i, i)) registry)) k)) (\<lambda>identity. Inr (selected @ [identity])))"

definition materializeRepositorySet :: "DomainPrims \<Rightarrow> RepositoryRegistry \<Rightarrow> string list \<Rightarrow> MultiRepositoryDomainErrorCode + RepositorySet" where
  "materializeRepositorySet P registry repositoryIds =
     bind_res (checks [(repositoryIds = [] \<or> length repositoryIds > maximumRepositoriesPerTask \<or> \<not> distinct repositoryIds, INVALID_REPOSITORY_SET)]) (\<lambda>_.
     bind_res (fold_res (selectRepository registry) [] repositoryIds) (\<lambda>selected.
     Inr \<lparr>rs_repositoryIds = repositoryIds, rs_repositorySetId = dp_setDigest P (repositorySetPayload selected)\<rparr>))"

definition assertRepositoryScope :: "RepositorySet \<Rightarrow> string list \<Rightarrow> string list \<Rightarrow> MultiRepositoryDomainErrorCode + unit" where
  "assertRepositoryScope requested role provider =
     (case first_err (\<lambda>k. if k \<notin> set role \<or> k \<notin> set provider then Some SCOPE_EXCEEDED else None) (rs_repositoryIds requested) of
        None \<Rightarrow> Inr () | Some e \<Rightarrow> Inl e)"


section \<open>Paths\<close>

definition path_segment :: "string \<Rightarrow> bool" where
  "path_segment s \<longleftrightarrow> s \<noteq> [] \<and> s \<noteq> ''.'' \<and> s \<noteq> ''..'' \<and> CHR ''/'' \<notin> set s"

lemma split_on_no_separator: "s \<in> set (split_on c t) \<Longrightarrow> c \<notin> set s"
  by (induction c t arbitrary: s rule: split_on.induct) (auto split: list.splits if_splits)

lemma foldl_pathPush_segments:
  assumes "\<And>s. s \<in> set ss \<Longrightarrow> CHR ''/'' \<notin> set s" "\<And>s. s \<in> set acc \<Longrightarrow> path_segment s" "s \<in> set (foldl pathPush acc ss)"
  shows "path_segment s"
  using assms
proof (induction ss arbitrary: acc)
  case (Cons a ss)
  have "path_segment s" if "s \<in> set (pathPush acc a)" for s
    using that Cons.prems(1,2) by (auto simp: path_segment_def dest: in_set_butlastD split: if_splits)
  with Cons show ?case by (metis foldl_Cons list.set_intros(2))
qed simp

lemma segments_path: "s \<in> set (segments t) \<Longrightarrow> path_segment s"
  unfolding segments_def by (rule foldl_pathPush_segments [of "split_on (CHR ''/'') t" "[]"]) (auto dest: split_on_no_separator)

lemma foldl_pathPush_id: "(\<And>s. s \<in> set ss \<Longrightarrow> path_segment s) \<Longrightarrow> foldl pathPush acc ss = acc @ ss"
  by (induction ss arbitrary: acc) (auto simp: path_segment_def)

lemma segments_resolve: "segments (resolve s) = segments s"
proof (cases "segments s = []")
  case True
  then show ?thesis by (simp add: resolve_def segments_def)
next
  case False
  have "\<And>t. t \<in> set (segments s) \<Longrightarrow> CHR ''/'' \<notin> set t" using segments_path path_segment_def by blast
  then have "split_on (CHR ''/'') (resolve s) = [] # segments s"
    using False by (simp add: resolve_def split_on_join)
  then have "segments (resolve s) = foldl pathPush [] (segments s)" by (simp add: segments_def)
  then show ?thesis using foldl_pathPush_id segments_path by (metis append_Nil)
qed

lemma resolve_idem: "resolve (resolve s) = resolve s"
  by (simp add: resolve_def [of "resolve s"] segments_resolve) (simp add: resolve_def)

lemma stripCommon_split:
  "stripCommon as bs = (as', bs') \<Longrightarrow> \<exists>c. as = c @ as' \<and> bs = c @ bs' \<and> (as' = [] \<or> bs' = [] \<or> hd as' \<noteq> hd bs')"
proof (induction as bs rule: stripCommon.induct)
  case (1 a as b bs)
  show ?case
  proof (cases "a = b")
    case True
    with 1 obtain c where "as = c @ as' \<and> bs = c @ bs' \<and> (as' = [] \<or> bs' = [] \<or> hd as' \<noteq> hd bs')" by auto
    with True show ?thesis by (intro exI [of _ "a # c"]) simp
  qed (use 1 in auto)
qed auto

lemma stripCommon_append: "stripCommon as (as @ bs) = ([], bs)"
  by (induction as) (cases bs, auto)

lemma join_prefix: "\<exists>t. join_with c (s # rest) = s @ t \<and> (t = [] \<and> rest = [] \<or> (\<exists>u. t = c # u))"
  by (cases rest) auto

lemma startsWith_join_dots:
  assumes "path_segment s"
  shows "startsWith (join_with (CHR ''/'') (s # rest)) ''..'' \<longleftrightarrow> startsWith s ''..''"
proof -
  obtain t where t: "join_with (CHR ''/'') (s # rest) = s @ t" "t = [] \<and> rest = [] \<or> (\<exists>u. t = CHR ''/'' # u)" using join_prefix by blast
  show ?thesis using t assms by (cases s; cases "tl s") (auto simp: startsWith_def path_segment_def)
qed

text \<open>
  \<open>isNested\<close> recognises a proper subdirectory, unless the first segment below the parent begins with two dots.
\<close>

lemma isNested_iff:
  "isNested l r \<longleftrightarrow> (\<exists>s rest. segments r = segments l @ s # rest \<and> \<not> startsWith s ''..'')"
proof -
  obtain as bs where sc: "stripCommon (segments l) (segments r) = (as, bs)" by fastforce
  obtain c where c: "segments l = c @ as" "segments r = c @ bs" using stripCommon_split [OF sc] by blast
  have rel: "relative l r = join_with (CHR ''/'') (map (\<lambda>_. ''..'') as @ bs)" by (simp add: relative_def sc)
  show ?thesis
  proof (cases as)
    case (Cons a as')
    have "startsWith (relative l r) ''..''"
      using join_prefix [of "CHR ''/''" "''..''" "map (\<lambda>_. ''..'') as' @ bs"] by (auto simp: rel Cons startsWith_def)
    moreover have "segments r \<noteq> segments l @ s # rest" for s rest
      using sc Cons stripCommon_append [of "segments l" "s # rest"] by auto
    ultimately show ?thesis by (simp add: isNested_def Let_def)
  next
    case Nil
    show ?thesis
    proof (cases bs)
      case Nil
      with \<open>as = []\<close> c rel show ?thesis by (simp add: isNested_def Let_def)
    next
      case (Cons s rest)
      have seg: "path_segment s" using segments_path [of s r] c(2) Cons by simp
      obtain t where t: "relative l r = s @ t" "t = [] \<and> rest = [] \<or> (\<exists>u. t = CHR ''/'' # u)"
        using join_prefix [of "CHR ''/''" s rest] by (auto simp: rel \<open>as = []\<close> Cons)
      have "relative l r \<noteq> [] \<and> relative l r \<noteq> ''.'' \<and> \<not> isAbsolute (relative l r)"
        using seg t by (cases s) (auto simp: path_segment_def isAbsolute_def startsWith_def)
      moreover have "startsWith (relative l r) ''..'' \<longleftrightarrow> startsWith s ''..''"
        using startsWith_join_dots [OF seg] by (simp add: rel \<open>as = []\<close> Cons)
      ultimately show ?thesis using c Cons \<open>as = []\<close> by (auto simp: isNested_def Let_def)
    qed
  qed
qed


section \<open>The registry\<close>

lemma physicalKey_inj: "physicalKey a b = physicalKey c d \<longleftrightarrow> a = c \<and> b = d"
proof -
  have no_colon: "CHR '':'' \<notin> set (int_str n)" for n
    using nat_digits_digit [of "CHR '':''"] by (auto simp: int_str_def is_digit_def)
  have "split_on (CHR '':'') (physicalKey x y) = [int_str x, int_str y]" for x y
    using no_colon by (simp add: physicalKey_def split_on_append_sep split_on_no_sep)
  then show ?thesis by (metis int_str_inj list.inject)
qed

text \<open>
  Two repositories are apart when their identifiers, root inodes and common-directory inodes differ, and neither root is the other's or lies
  below it, save below a directory whose name begins with two dots.
\<close>

definition hidden_below :: "RepositoryIdentity \<Rightarrow> RepositoryIdentity \<Rightarrow> bool" where
  "hidden_below i j \<longleftrightarrow> (\<forall>below. segments (ri_canonicalRoot j) = segments (ri_canonicalRoot i) @ below \<longrightarrow> below \<noteq> [] \<and> startsWith (hd below) ''..'')"

definition apart :: "RepositoryIdentity \<Rightarrow> RepositoryIdentity \<Rightarrow> bool" where
  "apart i j \<longleftrightarrow> ri_repositoryId i \<noteq> ri_repositoryId j \<and> (ri_rootDevice i, ri_rootInode i) \<noteq> (ri_rootDevice j, ri_rootInode j) \<and>
     (ri_gitCommonDirDevice i, ri_gitCommonDirInode i) \<noteq> (ri_gitCommonDirDevice j, ri_gitCommonDirInode j) \<and> hidden_below i j \<and> hidden_below j i"

text \<open>The identity that one configured repository resolves to.\<close>

definition identity_of :: "DomainPrims \<Rightarrow> RepositoryDefinition \<Rightarrow> RepositoryIdentity \<Rightarrow> bool" where
  "identity_of P d i \<longleftrightarrow> definitionOk d \<and> identityOk i \<and>
     (\<exists>p. dp_resolveIdentity P d = Some p \<and> isAbsolute (rp_canonicalRoot p) \<and> i = candidateIdentity d p)"

lemma hidden_below_iff:
  assumes "resolve (ri_canonicalRoot i) = ri_canonicalRoot i" "resolve (ri_canonicalRoot j) = ri_canonicalRoot j"
  shows "hidden_below i j \<longleftrightarrow> ri_canonicalRoot i \<noteq> ri_canonicalRoot j \<and> \<not> isNested (ri_canonicalRoot i) (ri_canonicalRoot j)"
proof -
  have "segments (ri_canonicalRoot i) = segments (ri_canonicalRoot j) \<longleftrightarrow> ri_canonicalRoot i = ri_canonicalRoot j" using assms by (metis resolve_def)
  moreover have "hidden_below i j \<longleftrightarrow> segments (ri_canonicalRoot i) \<noteq> segments (ri_canonicalRoot j) \<and>
      (\<forall>s rest. segments (ri_canonicalRoot j) = segments (ri_canonicalRoot i) @ s # rest \<longrightarrow> startsWith s ''..'')"
    unfolding hidden_below_def by (metis append_Nil2 list.sel(1) neq_Nil_conv list.distinct(1))
  ultimately show ?thesis by (auto simp: isNested_iff)
qed

lemma resolved_candidate: "identity_of P d i \<Longrightarrow> resolve (ri_canonicalRoot i) = ri_canonicalRoot i"
  by (auto simp: identity_of_def candidateIdentity_def resolve_idem)

lemma apart_iff:
  assumes "resolve (ri_canonicalRoot i) = ri_canonicalRoot i" "resolve (ri_canonicalRoot j) = ri_canonicalRoot j"
  shows "apart i j \<longleftrightarrow> ri_repositoryId i \<noteq> ri_repositoryId j \<and> rootKey i \<noteq> rootKey j \<and> commonKey i \<noteq> commonKey j \<and> ri_canonicalRoot i \<noteq> ri_canonicalRoot j \<and>
     \<not> isNested (ri_canonicalRoot i) (ri_canonicalRoot j) \<and> \<not> isNested (ri_canonicalRoot j) (ri_canonicalRoot i)"
  using hidden_below_iff [OF assms] hidden_below_iff [OF assms(2,1)] by (auto simp: apart_def rootKey_def commonKey_def physicalKey_inj)

lemma addRepository_iff:
  assumes "\<forall>i \<in> set is. resolve (ri_canonicalRoot i) = ri_canonicalRoot i"
  shows "addRepository P is d = Inr is' \<longleftrightarrow> (\<exists>c. identity_of P d c \<and> (\<forall>i \<in> set is. apart i c) \<and> is' = is @ [c])"
proof (cases "dp_resolveIdentity P d")
  case None
  then show ?thesis by (auto simp: addRepository_def identity_of_def)
next
  case (Some p)
  let ?c = "candidateIdentity d p"
  have id: "ri_repositoryId ?c = rd_repositoryId d" "resolve (ri_canonicalRoot ?c) = ri_canonicalRoot ?c"
    by (simp_all add: candidateIdentity_def resolve_idem)
  have far: "(\<forall>i \<in> set is. apart i ?c) \<longleftrightarrow> rd_repositoryId d \<notin> ri_repositoryId ` set is \<and> rootKey ?c \<notin> rootKey ` set is \<and> commonKey ?c \<notin> commonKey ` set is \<and>
      ri_canonicalRoot ?c \<notin> ri_canonicalRoot ` set is \<and>
      \<not> list_ex (\<lambda>i. isNested (ri_canonicalRoot i) (ri_canonicalRoot ?c) \<or> isNested (ri_canonicalRoot ?c) (ri_canonicalRoot i)) is"
    using apart_iff [OF _ id(2)] assms id(1) unfolding list_ex_iff image_iff by auto
  have "identity_of P d c \<longleftrightarrow> definitionOk d \<and> identityOk ?c \<and> isAbsolute (rp_canonicalRoot p) \<and> c = ?c" for c
    using Some by (auto simp: identity_of_def)
  then show ?thesis unfolding addRepository_def Let_def by (auto simp: Some far)
qed

lemma addRepositories_iff:
  "\<forall>i \<in> set is. resolve (ri_canonicalRoot i) = ri_canonicalRoot i \<Longrightarrow> fold_res (addRepository P) is ds = Inr is' \<longleftrightarrow>
     (\<exists>ns. is' = is @ ns \<and> list_all2 (identity_of P) ds ns \<and> (\<forall>i \<in> set is. \<forall>n \<in> set ns. apart i n) \<and> sorted_wrt apart ns)"
proof (induction ds arbitrary: "is")
  case (Cons d ds)
  have "fold_res (addRepository P) is (d # ds) = Inr is' \<longleftrightarrow> (\<exists>c. identity_of P d c \<and> (\<forall>i \<in> set is. apart i c) \<and> fold_res (addRepository P) (is @ [c]) ds = Inr is')"
  proof (cases "addRepository P is d")
    case (Inl x)
    with addRepository_iff [OF Cons.prems, of P d] show ?thesis by auto
  next
    case (Inr is1)
    then obtain c where c: "identity_of P d c" "\<forall>i \<in> set is. apart i c" "is1 = is @ [c]" using addRepository_iff [OF Cons.prems] by blast
    have "c' = c" if "identity_of P d c'" for c' using that c(1) by (auto simp: identity_of_def)
    then have "(\<exists>c. identity_of P d c \<and> (\<forall>i \<in> set is. apart i c) \<and> fold_res (addRepository P) (is @ [c]) ds = Inr is') \<longleftrightarrow>
      fold_res (addRepository P) is1 ds = Inr is'" using c by blast
    then show ?thesis by (simp add: Inr)
  qed
  also have "\<dots> \<longleftrightarrow> (\<exists>c ns. identity_of P d c \<and> (\<forall>i \<in> set is. apart i c) \<and> is' = (is @ [c]) @ ns \<and> list_all2 (identity_of P) ds ns \<and>
      (\<forall>i \<in> set (is @ [c]). \<forall>n \<in> set ns. apart i n) \<and> sorted_wrt apart ns)"
  proof (intro ex_cong1)
    fix c
    show "identity_of P d c \<and> (\<forall>i \<in> set is. apart i c) \<and> fold_res (addRepository P) (is @ [c]) ds = Inr is' \<longleftrightarrow>
      (\<exists>ns. identity_of P d c \<and> (\<forall>i \<in> set is. apart i c) \<and> is' = (is @ [c]) @ ns \<and> list_all2 (identity_of P) ds ns \<and>
        (\<forall>i \<in> set (is @ [c]). \<forall>n \<in> set ns. apart i n) \<and> sorted_wrt apart ns)"
      using Cons.IH [of "is @ [c]"] Cons.prems resolved_candidate [of P d c] by (cases "identity_of P d c") auto
  qed
  also have "\<dots> \<longleftrightarrow> (\<exists>ns. is' = is @ ns \<and> list_all2 (identity_of P) (d # ds) ns \<and> (\<forall>i \<in> set is. \<forall>n \<in> set ns. apart i n) \<and> sorted_wrt apart ns)"
    by (auto simp: list_all2_Cons1 ball_Un)
  finally show ?case .
qed auto

text \<open>
  C33. A registry is accepted exactly when it lists between one and 64 valid repositories that resolve to valid identities, any two of
  which are apart: different identifiers, different root and common-directory inodes, and neither root at or below the other's. One
  nesting escapes the test: a root below the other under a directory whose name begins with two dots. The registry is then the
  identities in the order of their identifiers.
\<close>

theorem registry_separate:
  "materializeRepositoryRegistry P ds = Inr reg \<longleftrightarrow> 1 \<le> length ds \<and> length ds \<le> 64 \<and>
     (\<exists>is. list_all2 (identity_of P) ds is \<and> sorted_wrt apart is \<and> reg = sort_key (\<lambda>i. collate_key (ri_repositoryId i)) is)"
proof -
  have "materializeRepositoryRegistry P ds = Inr reg \<longleftrightarrow> 1 \<le> length ds \<and> length ds \<le> 64 \<and>
      (\<exists>is. fold_res (addRepository P) [] ds = Inr is \<and> reg = sort_key (\<lambda>i. collate_key (ri_repositoryId i)) is)"
    by (cases ds) (auto simp: materializeRepositoryRegistry_def maximumRepositories_def)
  then show ?thesis using addRepositories_iff [of "[]" P ds] by simp
qed

definition sample_definition :: "string \<Rightarrow> RepositoryDefinition" where
  "sample_definition k = \<lparr>rd_repositoryId = k, rd_configuredPath = ''.'', rd_defaultBranch = ''main'', rd_protectedBranches = [''main'']\<rparr>"

definition sample_domain :: DomainPrims where
  "sample_domain = \<lparr>dp_resolveIdentity = (\<lambda>d. Some \<lparr>rp_canonicalRoot = ''/w/'' @ rd_repositoryId d, rp_rootDevice = 1,
       rp_rootInode = (if rd_repositoryId d = ''api'' then 10 else 11), rp_gitCommonDirDevice = 1,
       rp_gitCommonDirInode = (if rd_repositoryId d = ''api'' then 20 else 21)\<rparr>),
     dp_setDigest = (\<lambda>p. concat (map fst p))\<rparr>"

definition sample_registry :: RepositoryRegistry where
  "sample_registry = (case materializeRepositoryRegistry sample_domain [sample_definition ''web'', sample_definition ''api''] of Inr r \<Rightarrow> r | Inl _ \<Rightarrow> [])"

theorem registry_separate_witness:
  "materializeRepositoryRegistry sample_domain [sample_definition ''web'', sample_definition ''api''] = Inr sample_registry \<and>
   map ri_canonicalRoot sample_registry = [''/w/api'', ''/w/web''] \<and>
   (\<exists>i j. list_all2 (identity_of sample_domain) [sample_definition ''web'', sample_definition ''api''] [i, j] \<and> apart i j)"
proof -
  have m: "materializeRepositoryRegistry sample_domain [sample_definition ''web'', sample_definition ''api''] = Inr sample_registry" by code_simp
  have "map ri_canonicalRoot sample_registry = [''/w/api'', ''/w/web'']" by code_simp
  moreover
  obtain "is" where "list_all2 (identity_of sample_domain) [sample_definition ''web'', sample_definition ''api''] is" "sorted_wrt apart is"
    using registry_separate [THEN iffD1, OF m] by blast
  then obtain i j where "list_all2 (identity_of sample_domain) [sample_definition ''web'', sample_definition ''api''] [i, j]" "apart i j"
    by (auto simp: list_all2_Cons1 simp del: list_all2_Cons)
  ultimately show ?thesis using m by blast
qed

text \<open>The exception is reachable: a repository in \<open>/w/..data\<close> is not seen to lie in \<open>/w\<close>, and both are accepted together.\<close>

lemma dotdot_directory_not_nested:
  "segments ''/w/..data'' = segments ''/w'' @ [''..data''] \<and> \<not> isNested ''/w'' ''/w/..data'' \<and> isNested ''/w'' ''/w/data''"
  by code_simp

lemma dotdot_directory_accepted:
  "map_sum id (map ri_canonicalRoot) (materializeRepositoryRegistry
     (sample_domain\<lparr>dp_resolveIdentity := \<lambda>d. map_option (\<lambda>p. p\<lparr>rp_canonicalRoot := if rd_repositoryId d = ''api'' then ''/w'' else ''/w/..data''\<rparr>)
        (dp_resolveIdentity sample_domain d)\<rparr>)
     [sample_definition ''web'', sample_definition ''api'']) = Inr [''/w'', ''/w/..data'']"
  by code_simp

end
