(* ===== verification/Dag.thy ===== *)
theory Dag
  imports Repo_Domain
begin

text \<open>
  The task graph of a multi-repository run (\<open>src/multirepo/dag.ts\<close>): reading and checking the tasks, then
  Kahn's algorithm in layers with an indegree table, a depth bound and the detection of cycles.

  The \<open>while\<close> loop is a \<open>function\<close> whose termination is proved for every state of the loop: a task enters the
  ready list only when its indegree falls from one to zero. \<open>TypeErr\<close> is what a failed non-null assertion of the
  source throws; the graphs that pass the checks never reach it.
\<close>

section \<open>Tasks and errors\<close>

record MultiRepositoryTask =
  mt_taskId :: string
  mt_taskGeneration :: int
  mt_roleId :: string
  mt_providerId :: string
  mt_repositoryIds :: "string list"
  mt_dependencies :: "string list"

record MaterializedTask = MultiRepositoryTask +
  mz_repositorySet :: RepositorySet

definition taskSchemaOk :: "MultiRepositoryTask \<Rightarrow> bool" where
  "taskSchemaOk t \<longleftrightarrow> isValidId (mt_taskId t) \<and> 1 \<le> mt_taskGeneration t \<and> mt_taskGeneration t \<le> MAX_SAFE_INTEGER \<and>
     isValidId (mt_roleId t) \<and> isValidId (mt_providerId t) \<and>
     mt_repositoryIds t \<noteq> [] \<and> length (mt_repositoryIds t) \<le> maximumRepositoriesPerTask \<and> list_all isValidId (mt_repositoryIds t) \<and>
     length (mt_dependencies t) \<le> maximumDependenciesPerTask \<and> list_all isValidId (mt_dependencies t)"

record MultiRepositoryDag =
  dg_tasks :: "MaterializedTask list"
  dg_order :: "string list"
  dg_layers :: "string list list"
  dg_dependents :: "string list obj"
  dg_depthByTask :: "nat obj"
  dg_edgeCount :: nat

datatype MultiRepositoryDagErrorCode = INVALID_TASK | DUPLICATE_TASK | UNKNOWN_DEPENDENCY | DUPLICATE_DEPENDENCY | CYCLE | GRAPH_LIMIT

datatype DagFailure = DagError MultiRepositoryDagErrorCode | DomainFailure MultiRepositoryDomainErrorCode | TypeErr

section \<open>Reading the tasks\<close>

definition domainResult :: "MultiRepositoryDomainErrorCode + 'a \<Rightarrow> DagFailure + 'a" where
  "domainResult r = (case r of Inl e \<Rightarrow> Inl (DomainFailure e) | Inr x \<Rightarrow> Inr x)"

definition addTask :: "DomainPrims \<Rightarrow> RepositoryRegistry \<Rightarrow> MaterializedTask list \<times> nat \<Rightarrow> MultiRepositoryTask \<Rightarrow> DagFailure + MaterializedTask list \<times> nat" where
  "addTask P registry acc t = (let (tasks, edgeCount) = acc in
     bind_res (checks
       [(\<not> taskSchemaOk t, DagError INVALID_TASK),
        (mt_taskId t \<in> mt_taskId ` set tasks, DagError DUPLICATE_TASK),
        (\<not> distinct (mt_dependencies t), DagError DUPLICATE_DEPENDENCY),
        (\<not> distinct (mt_repositoryIds t), DagError INVALID_TASK)]) (\<lambda>_.
     bind_res (domainResult (materializeRepositorySet P registry (mt_repositoryIds t))) (\<lambda>s.
     let task = \<lparr>mt_taskId = mt_taskId t, mt_taskGeneration = mt_taskGeneration t, mt_roleId = mt_roleId t, mt_providerId = mt_providerId t,
                 mt_repositoryIds = mt_repositoryIds t, mt_dependencies = mt_dependencies t, mz_repositorySet = s\<rparr>;
         edges = edgeCount + length (mt_dependencies t) in
     if edges > maximumDependencies then Inl (DagError GRAPH_LIMIT) else Inr (tasks @ [task], edges))))"

definition dependencyError :: "MaterializedTask list \<Rightarrow> MaterializedTask \<Rightarrow> string \<Rightarrow> MultiRepositoryDagErrorCode option" where
  "dependencyError tasks task dependency =
     (if dependency = mt_taskId task then Some CYCLE
      else if dependency \<notin> mt_taskId ` set tasks then Some UNKNOWN_DEPENDENCY else None)"

definition dependenciesError :: "MaterializedTask list \<Rightarrow> MultiRepositoryDagErrorCode option" where
  "dependenciesError tasks = first_err (\<lambda>task. first_err (dependencyError tasks task) (mt_dependencies task)) tasks"

section \<open>Kahn's algorithm\<close>

record KahnState =
  ks_indegree :: "int obj"
  ks_ready :: "string list"
  ks_order :: "string list"
  ks_layers :: "string list list"
  ks_depth :: "nat obj"

definition initialIndegree :: "MaterializedTask list \<Rightarrow> int obj" where
  "initialIndegree tasks = map (\<lambda>t. (mt_taskId t, int (length (mt_dependencies t)))) tasks"

definition pushDependent :: "string list obj \<Rightarrow> string \<times> string \<Rightarrow> string list obj" where
  "pushDependent m p = (case obj_get m (fst p) of None \<Rightarrow> m | Some l \<Rightarrow> obj_set (fst p) (l @ [snd p]) m)"

definition dependentsTable :: "MaterializedTask list \<Rightarrow> string list obj" where
  "dependentsTable tasks =
     map (\<lambda>(k, l). (k, sort_ids l))
       (foldl pushDependent (map (\<lambda>t. (mt_taskId t, [])) tasks)
         (concat (map (\<lambda>t. map (\<lambda>d. (d, mt_taskId t)) (mt_dependencies t)) tasks)))"

definition initialReady :: "MaterializedTask list \<Rightarrow> string list" where
  "initialReady tasks = sort_ids (map mt_taskId (filter (\<lambda>t. mt_dependencies t = []) tasks))"

text \<open>One dependent loses one from its indegree, and is ready when it reaches zero.\<close>

definition releaseDependent :: "int obj \<times> string list \<Rightarrow> string \<Rightarrow> int obj \<times> string list" where
  "releaseDependent acc dependent = (let (indegree, ready) = acc in
     case obj_get indegree dependent of None \<Rightarrow> (indegree, ready)
     | Some n \<Rightarrow> (obj_set dependent (n - 1) indegree, if n - 1 = 0 then ready @ [dependent] else ready))"

definition taskDepth :: "nat obj \<Rightarrow> string list \<Rightarrow> nat" where
  "taskDepth depth deps = (if deps = [] then 0 else foldr max (map (\<lambda>k. case obj_get depth k of None \<Rightarrow> 0 | Some n \<Rightarrow> n) deps) 0 + 1)"

definition visitTask :: "MaterializedTask list \<Rightarrow> string list obj \<Rightarrow> KahnState \<Rightarrow> string \<Rightarrow> DagFailure + KahnState" where
  "visitTask tasks dependents st k =
     (case find (\<lambda>t. mt_taskId t = k) tasks of None \<Rightarrow> Inl TypeErr
      | Some t \<Rightarrow>
          let depth = taskDepth (ks_depth st) (mt_dependencies t) in
          if depth > maximumGraphDepth then Inl (DagError GRAPH_LIMIT)
          else case obj_get dependents k of None \<Rightarrow> Inl TypeErr
          | Some ds \<Rightarrow>
              let (indegree, ready) = foldl releaseDependent (ks_indegree st, ks_ready st) ds in
              Inr (st\<lparr>ks_order := ks_order st @ [k], ks_depth := obj_set k depth (ks_depth st), ks_indegree := indegree, ks_ready := ready\<rparr>))"

definition openLayer :: "KahnState \<Rightarrow> KahnState" where
  "openLayer st = st\<lparr>ks_layers := ks_layers st @ [ks_ready st], ks_ready := []\<rparr>"

definition sortReady :: "KahnState \<Rightarrow> KahnState" where
  "sortReady st = st\<lparr>ks_ready := sort_ids (ks_ready st)\<rparr>"

function kahnLoop :: "MaterializedTask list \<Rightarrow> string list obj \<Rightarrow> KahnState \<Rightarrow> DagFailure + KahnState" where
  "kahnLoop tasks dependents st =
     (if ks_ready st = [] then Inr st
      else case fold_res (visitTask tasks dependents) (openLayer st) (ks_ready st) of
        Inl e \<Rightarrow> Inl e
      | Inr st' \<Rightarrow> kahnLoop tasks dependents (sortReady st'))"
  by pat_completeness auto

text \<open>Tasks still to become ready: the loop's measure.\<close>

definition blocked :: "int obj \<Rightarrow> nat" where
  "blocked indegree = length (filter (\<lambda>p. 0 < snd p) indegree)"

lemma blocked_set:
  assumes "obj_get ind k = Some n"
  shows "blocked (obj_set k m ind) + (if 0 < n then 1 else 0) = blocked ind + (if 0 < m then 1 else 0)"
proof -
  obtain pre post where "ind = pre @ (k, n) # post" "obj_get pre k = None" by (rule obj_split [OF assms])
  then show ?thesis by (simp add: blocked_def obj_set_split)
qed

lemma releaseDependent_measure:
  "releaseDependent (ind, ready) d = (ind', ready') \<Longrightarrow> length ready' + blocked ind' \<le> length ready + blocked ind"
proof (cases "obj_get ind d")
  case (Some n)
  then show "releaseDependent (ind, ready) d = (ind', ready') \<Longrightarrow> ?thesis"
    using blocked_set [OF Some, of "n - 1"] by (auto simp: releaseDependent_def split: if_splits)
qed (simp add: releaseDependent_def)

lemma releaseDependents_measure:
  "foldl releaseDependent (ind, ready) ds = (ind', ready') \<Longrightarrow> length ready' + blocked ind' \<le> length ready + blocked ind"
proof (induction ds arbitrary: ind ready)
  case (Cons d ds)
  obtain i1 r1 where "releaseDependent (ind, ready) d = (i1, r1)" by fastforce
  with Cons releaseDependent_measure show ?case by fastforce
qed simp

lemma visitTask_measure:
  assumes "visitTask tasks dependents st k = Inr st'"
  shows "length (ks_ready st') + blocked (ks_indegree st') \<le> length (ks_ready st) + blocked (ks_indegree st)"
  using assms releaseDependents_measure by (fastforce simp: visitTask_def Let_def split: option.splits if_splits prod.splits)

lemma visitTasks_measure:
  "fold_res (visitTask tasks dependents) st ks = Inr st' \<Longrightarrow>
   length (ks_ready st') + blocked (ks_indegree st') \<le> length (ks_ready st) + blocked (ks_indegree st)"
proof (induction ks arbitrary: st)
  case (Cons k ks)
  then obtain s1 where "visitTask tasks dependents st k = Inr s1" "fold_res (visitTask tasks dependents) s1 ks = Inr st'" by (auto split: sum.splits)
  with Cons.IH visitTask_measure show ?case by (meson order_trans)
qed simp

termination kahnLoop
proof (relation "measure (\<lambda>(_, _, st). length (ks_ready st) + blocked (ks_indegree st))")
  fix tasks dependents st st'
  assume "ks_ready st \<noteq> []" "fold_res (visitTask tasks dependents) (openLayer st) (ks_ready st) = Inr st'"
  with visitTasks_measure [of tasks dependents "openLayer st" "ks_ready st" st']
  show "((tasks, dependents, sortReady st'), tasks, dependents, st) \<in> measure (\<lambda>(_, _, st). length (ks_ready st) + blocked (ks_indegree st))"
    by (simp add: openLayer_def sortReady_def) (metis add_strict_right_mono le_trans length_greater_0_conv less_add_same_cancel2 not_less)
qed simp

definition kahnStart :: "MaterializedTask list \<Rightarrow> KahnState" where
  "kahnStart tasks = \<lparr>ks_indegree = initialIndegree tasks, ks_ready = initialReady tasks, ks_order = [], ks_layers = [], ks_depth = []\<rparr>"

definition dagOfTasks :: "MaterializedTask list \<Rightarrow> nat \<Rightarrow> DagFailure + MultiRepositoryDag" where
  "dagOfTasks tasks edgeCount =
     (case dependenciesError tasks of Some e \<Rightarrow> Inl (DagError e)
      | None \<Rightarrow>
          let dependents = dependentsTable tasks in
          bind_res (kahnLoop tasks dependents (kahnStart tasks)) (\<lambda>st.
          if length (ks_order st) \<noteq> length tasks then Inl (DagError CYCLE)
          else Inr \<lparr>dg_tasks = sort_key (\<lambda>t. collate_key (mt_taskId t)) tasks, dg_order = ks_order st, dg_layers = ks_layers st,
                    dg_dependents = dependents, dg_depthByTask = ks_depth st, dg_edgeCount = edgeCount\<rparr>))"

definition materializeMultiRepositoryDag :: "DomainPrims \<Rightarrow> RepositoryRegistry \<Rightarrow> MultiRepositoryTask list \<Rightarrow> DagFailure + MultiRepositoryDag" where
  "materializeMultiRepositoryDag P registry rawTasks =
     (if rawTasks = [] \<or> length rawTasks > maximumTasks then Inl (DagError GRAPH_LIMIT)
      else bind_res (fold_res (addTask P registry) ([], 0) rawTasks) (\<lambda>(tasks, edgeCount). dagOfTasks tasks edgeCount))"

end
