(* ===== verification/Dag_Props.thy ===== *)
theory Dag_Props
  imports Dag
begin

text \<open>
  What the task graph guarantees: the order lists every task once and after its dependencies, no layer contains a
  task and one of its dependencies, depths are the lengths of the longest dependency chains, and the graph is
  accepted exactly when it has no cycle and no chain beyond the depth bound.
\<close>

section \<open>The dependency relation\<close>

definition ids_of :: "'a MultiRepositoryTask_scheme list \<Rightarrow> string set" where
  "ids_of tasks = mt_taskId ` set tasks"

definition depends_on :: "'a MultiRepositoryTask_scheme list \<Rightarrow> (string \<times> string) set" where
  "depends_on tasks = {(mt_taskId t, d) | t d. t \<in> set tasks \<and> d \<in> set (mt_dependencies t)}"

definition graph_ok :: "MaterializedTask list \<Rightarrow> bool" where
  "graph_ok tasks \<longleftrightarrow> distinct (map mt_taskId tasks) \<and>
     (\<forall>t \<in> set tasks. distinct (mt_dependencies t) \<and> set (mt_dependencies t) \<subseteq> ids_of tasks \<and> mt_taskId t \<notin> set (mt_dependencies t))"

abbreviation deps :: "MaterializedTask list \<Rightarrow> string \<Rightarrow> string set" where
  "deps tasks k \<equiv> depends_on tasks `` {k}"

lemma find_task:
  assumes "graph_ok tasks" "k \<in> ids_of tasks"
  obtains t where "find (\<lambda>t. mt_taskId t = k) tasks = Some t" "t \<in> set tasks" "mt_taskId t = k" "deps tasks k = set (mt_dependencies t)"
proof -
  obtain t where t: "find (\<lambda>t. mt_taskId t = k) tasks = Some t"
    using assms(2) by (cases "find (\<lambda>t. mt_taskId t = k) tasks") (auto simp: ids_of_def find_None_iff)
  then have m: "t \<in> set tasks" "mt_taskId t = k" by (auto simp: find_Some_iff)
  have "deps tasks k = set (mt_dependencies t)"
    using assms(1) m by (auto simp: depends_on_def graph_ok_def dest: inj_onD [OF distinct_map [THEN iffD1, THEN conjunct2]])
  with t m that show thesis by blast
qed

lemma deps_ids: "graph_ok tasks \<Longrightarrow> deps tasks k \<subseteq> ids_of tasks"
  by (auto simp: depends_on_def graph_ok_def)

lemma finite_deps [simp]: "finite (deps tasks k)"
proof -
  have "deps tasks k \<subseteq> (\<Union>t \<in> set tasks. set (mt_dependencies t))" by (auto simp: depends_on_def)
  then show ?thesis by (rule finite_subset) simp
qed

lemma depends_on_Union: "depends_on tasks = (\<Union>t \<in> set tasks. Pair (mt_taskId t) ` set (mt_dependencies t))"
  by (auto simp: depends_on_def)

lemma finite_depends_on: "finite (depends_on tasks)"
  by (simp add: depends_on_Union)

section \<open>The checks and the tables\<close>

lemma addTasks_graph:
  "fold_res (addTask P registry) (ts, n) raw = Inr (tasks, m) \<Longrightarrow> distinct (map mt_taskId ts) \<Longrightarrow> (\<forall>t \<in> set ts. distinct (mt_dependencies t)) \<Longrightarrow>
   distinct (map mt_taskId tasks) \<and> (\<forall>t \<in> set tasks. distinct (mt_dependencies t)) \<and> map mt_taskId tasks = map mt_taskId ts @ map mt_taskId raw"
proof (induction raw arbitrary: ts n)
  case (Cons r raw)
  then obtain ts1 n1 where a: "addTask P registry (ts, n) r = Inr (ts1, n1)" "fold_res (addTask P registry) (ts1, n1) raw = Inr (tasks, m)"
    by (auto split: sum.splits)
  from a(1) obtain t where t: "ts1 = ts @ [t]" "mt_taskId t = mt_taskId r" "mt_taskId r \<notin> mt_taskId ` set ts" "distinct (mt_dependencies t)"
    by (auto simp: addTask_def Let_def split: if_splits)
  have "distinct (map mt_taskId ts1)" "\<forall>t \<in> set ts1. distinct (mt_dependencies t)" using t Cons.prems(2,3) by auto
  note ih = Cons.IH [OF a(2) this]
  have "map mt_taskId ts1 @ map mt_taskId raw = map mt_taskId ts @ map mt_taskId (r # raw)" using t(1,2) by simp
  from ih [unfolded this] show ?case by blast
qed simp

lemma dependencies_checked:
  assumes "dependenciesError tasks = None" "distinct (map mt_taskId tasks)" "\<forall>t \<in> set tasks. distinct (mt_dependencies t)"
  shows "graph_ok tasks"
proof -
  have "\<forall>t \<in> set tasks. \<forall>d \<in> set (mt_dependencies t). d \<noteq> mt_taskId t \<and> d \<in> ids_of tasks"
    using assms(1) by (auto simp: dependenciesError_def dependencyError_def first_err_None_iff ids_of_def split: if_splits)
  with assms(2,3) show ?thesis by (auto simp: graph_ok_def)
qed

lemma pushDependents_get:
  "obj_get (foldl pushDependent m ps) k = map_option (\<lambda>l. l @ map snd (filter (\<lambda>p. fst p = k) ps)) (obj_get m k)"
proof (induction ps arbitrary: m)
  case (Cons p ps)
  then show ?case by (cases "obj_get m (fst p)"; cases "obj_get m k") (auto simp: pushDependent_def)
qed (simp add: option.map_ident)

lemma map_snd_edges:
  assumes "distinct (map mt_taskId tasks)" "\<forall>t \<in> set tasks. distinct (mt_dependencies t)"
  shows "map snd (filter (\<lambda>p. fst p = k) (concat (map (\<lambda>t. map (\<lambda>d. (d, mt_taskId t)) (mt_dependencies t)) tasks))) =
    map mt_taskId (filter (\<lambda>t. k \<in> set (mt_dependencies t)) tasks)"
proof -
  have one: "map snd (filter (\<lambda>p. fst p = k) (map (\<lambda>d. (d, i)) ds)) = (if k \<in> set ds then [i] else [])" if "distinct ds" for i and ds :: "string list"
    using that by (induction ds) auto
  from assms show ?thesis by (induction tasks) (simp_all add: one)
qed

lemma obj_get_map_values: "obj_get (map (\<lambda>(k, v). (k, f v)) ob) k = map_option f (obj_get ob k)"
  by (induction ob) auto

lemma dependentsTable_get:
  assumes "graph_ok tasks" "k \<in> ids_of tasks"
  obtains l where "obj_get (dependentsTable tasks) k = Some l" "distinct l" "set l = {j \<in> ids_of tasks. k \<in> deps tasks j}"
proof
  let ?l = "map mt_taskId (filter (\<lambda>t. k \<in> set (mt_dependencies t)) tasks)"
  have g: "distinct (map mt_taskId tasks)" "\<forall>t \<in> set tasks. distinct (mt_dependencies t)" using assms(1) by (auto simp: graph_ok_def)
  have "obj_get (map (\<lambda>t. (mt_taskId t, [])) tasks) k = Some ([] :: string list)"
    using assms(2) unfolding ids_of_def by (induction tasks) auto
  then show "obj_get (dependentsTable tasks) k = Some (sort_ids ?l)"
    by (simp add: dependentsTable_def obj_get_map_values pushDependents_get map_snd_edges [OF g])
  show "distinct (sort_ids ?l)" using g(1) by (simp add: distinct_map_filter)
  show "set (sort_ids ?l) = {j \<in> ids_of tasks. k \<in> deps tasks j}"
  proof (intro set_eqI iffI)
    fix j assume "j \<in> {j \<in> ids_of tasks. k \<in> deps tasks j}"
    then show "j \<in> set (sort_ids ?l)" by (auto simp: depends_on_def)
  next
    fix j assume "j \<in> set (sort_ids ?l)"
    then show "j \<in> {j \<in> ids_of tasks. k \<in> deps tasks j}" by (auto simp: depends_on_def ids_of_def)
  qed
qed

lemma releaseDependents:
  assumes "distinct ds" "\<forall>d \<in> set ds. obj_get ind d \<noteq> None" "foldl releaseDependent (ind, ready) ds = (ind', ready')"
  shows "(\<forall>k. obj_get ind' k = (if k \<in> set ds then map_option (\<lambda>n. n - 1) (obj_get ind k) else obj_get ind k)) \<and>
    ready' = ready @ filter (\<lambda>d. obj_get ind d = Some 1) ds"
  using assms
proof (induction ds arbitrary: ind ready)
  case (Cons d ds)
  obtain n where n: "obj_get ind d = Some n" using Cons.prems(2) by auto
  let ?r = "if n - 1 = 0 then ready @ [d] else ready"
  have s: "foldl releaseDependent (obj_set d (n - 1) ind, ?r) ds = (ind', ready')"
    using Cons.prems(3) by (simp add: releaseDependent_def [of "(ind, ready)"] n)
  have f: "filter (\<lambda>e. obj_get (obj_set d (n - 1) ind) e = Some 1) ds = filter (\<lambda>e. obj_get ind e = Some 1) ds"
    by (rule filter_cong) (use Cons.prems(1) in auto)
  from Cons.IH [OF _ _ s] Cons.prems(1,2) f n show ?case by auto
qed simp


section \<open>Longest chains\<close>

definition longest :: "('a \<times> 'a) set \<Rightarrow> 'a \<Rightarrow> nat \<Rightarrow> bool" where
  "longest R k n \<longleftrightarrow> (\<exists>d. (k, d) \<in> R ^^ n) \<and> (\<forall>m d. (k, d) \<in> R ^^ m \<longrightarrow> m \<le> n)"

lemma longest_leaf: "R `` {k} = {} \<Longrightarrow> longest R k 0"
proof -
  assume none: "R `` {k} = {}"
  have "m = 0" if "(k, d) \<in> R ^^ m" for m d
    using that none by (cases m) (auto simp del: relpow.simps dest!: relpow_Suc_D2)
  then show ?thesis by (auto simp: longest_def)
qed

lemma longest_step:
  assumes "finite D" "D = R `` {k}" "D \<noteq> {}" "\<And>d. d \<in> D \<Longrightarrow> longest R d (f d)"
  shows "longest R k (Suc (Max (f ` D)))"
proof -
  have fin: "finite (f ` D)" "f ` D \<noteq> {}" using assms(1,3) by auto
  obtain d where d: "d \<in> D" "f d = Max (f ` D)" using Max_in [OF fin] by auto
  then obtain x where "(d, x) \<in> R ^^ f d" using assms(4) unfolding longest_def by blast
  then have "(k, x) \<in> R ^^ Suc (Max (f ` D))" using d assms(2) by (metis Image_singleton_iff relpow_Suc_I2)
  moreover have "m \<le> Suc (Max (f ` D))" if path: "(k, y) \<in> R ^^ m" for m y
  proof (cases m)
    case (Suc m')
    then obtain z where z: "(k, z) \<in> R" "(z, y) \<in> R ^^ m'" using path relpow_Suc_D2 by metis
    then have "z \<in> D" using assms(2) by blast
    then have "m' \<le> f z" "f z \<le> Max (f ` D)" using assms(4) z(2) fin(1) unfolding longest_def by auto
    with Suc show ?thesis by simp
  qed simp
  ultimately show ?thesis unfolding longest_def by blast
qed

lemma foldr_max: "xs \<noteq> [] \<Longrightarrow> foldr max (map f xs) 0 = (Max (f ` set xs) :: nat)"
proof (induction xs)
  case (Cons x xs)
  then show ?case by (cases xs) auto
qed simp

definition depths_ok :: "MaterializedTask list \<Rightarrow> nat obj \<Rightarrow> string set \<Rightarrow> bool" where
  "depths_ok tasks depth done \<longleftrightarrow> (\<forall>k \<in> done. \<exists>n. obj_get depth k = Some n \<and> longest (depends_on tasks) k n \<and> n \<le> maximumGraphDepth)"

lemma taskDepth_longest:
  assumes "depths_ok tasks depth done" "set ds = deps tasks k" "set ds \<subseteq> done"
  shows "longest (depends_on tasks) k (taskDepth depth ds)"
proof (cases "ds = []")
  case True
  with assms(2) show ?thesis by (simp add: taskDepth_def longest_leaf)
next
  case False
  let ?f = "\<lambda>k. case obj_get depth k of None \<Rightarrow> 0 | Some n \<Rightarrow> n"
  have "longest (depends_on tasks) d (?f d)" if "d \<in> set ds" for d
    using assms(1,3) that unfolding depths_ok_def by fastforce
  then have "longest (depends_on tasks) k (Suc (Max (?f ` set ds)))" using False assms(2) by (intro longest_step) auto
  with False show ?thesis by (simp add: taskDepth_def foldr_max)
qed

section \<open>The loop\<close>

text \<open>
  With \<open>pending\<close> the part of the open layer still to visit: a task is ordered, pending or ready exactly when all
  its dependencies are ordered, and its indegree counts those that are not.
\<close>

definition kahn_inv :: "MaterializedTask list \<Rightarrow> string list \<Rightarrow> KahnState \<Rightarrow> bool" where
  "kahn_inv tasks pending st \<longleftrightarrow>
     distinct (ks_order st @ pending @ ks_ready st) \<and> set (ks_order st @ pending @ ks_ready st) \<subseteq> ids_of tasks \<and>
     (\<forall>k \<in> ids_of tasks. obj_get (ks_indegree st) k = Some (int (card (deps tasks k - set (ks_order st))))) \<and>
     (\<forall>k \<in> ids_of tasks. k \<in> set (ks_order st @ pending @ ks_ready st) \<longleftrightarrow> deps tasks k \<subseteq> set (ks_order st)) \<and>
     depths_ok tasks (ks_depth st) (set (ks_order st))"

text \<open>Releasing the dependents of \<open>k\<close> counts \<open>k\<close> as ordered, and makes ready the tasks that lacked only \<open>k\<close>.\<close>

lemma release_dependents:
  fixes D :: "string \<Rightarrow> string set"
  assumes fin: "\<And>j. finite (D j)" and ds: "distinct ds" "set ds = {j \<in> I. k \<in> D j}" and k: "k \<notin> done"
    and ind: "\<And>j. j \<in> I \<Longrightarrow> obj_get ind j = Some (int (card (D j - done)))"
    and r: "foldl releaseDependent (ind, ready) ds = (ind', ready')"
  shows "j \<in> I \<Longrightarrow> obj_get ind' j = Some (int (card (D j - insert k done)))"
    and "\<exists>new. ready' = ready @ new \<and> distinct new \<and> set new = {j \<in> I. k \<in> D j \<and> D j \<subseteq> insert k done}"
proof -
  have some: "\<forall>d \<in> set ds. obj_get ind d \<noteq> None" using ds(2) ind by auto
  have rel: "\<forall>j. obj_get ind' j = (if j \<in> set ds then map_option (\<lambda>n. n - 1) (obj_get ind j) else obj_get ind j)"
    and ready': "ready' = ready @ filter (\<lambda>d. obj_get ind d = Some 1) ds"
    using releaseDependents [OF ds(1) some r] by blast+
  have card: "card (D j - done) = Suc (card (D j - insert k done))" if "k \<in> D j" for j
    using card_Suc_Diff1 [of "D j - done" k, folded Diff_insert] fin that k by auto
  have same: "D j - insert k done = D j - done" if "k \<notin> D j" for j using that by auto
  show "obj_get ind' j = Some (int (card (D j - insert k done)))" if j: "j \<in> I"
  proof (cases "k \<in> D j")
    case True
    then show ?thesis using rel ind [OF j] ds(2) j card [OF True] by simp
  next
    case False
    then show ?thesis using rel ind [OF j] ds(2) same [OF False] by simp
  qed
  have "obj_get ind j = Some 1 \<longleftrightarrow> D j \<subseteq> insert k done" if "j \<in> I" "k \<in> D j" for j
    using ind [OF that(1)] card [OF that(2)] fin [of j] by (auto simp: card_eq_0_iff)
  then have "set (filter (\<lambda>d. obj_get ind d = Some 1) ds) = {j \<in> I. k \<in> D j \<and> D j \<subseteq> insert k done}" using ds(2) by auto
  with ready' ds(1) show "\<exists>new. ready' = ready @ new \<and> distinct new \<and> set new = {j \<in> I. k \<in> D j \<and> D j \<subseteq> insert k done}" by auto
qed

lemma visitTask_inv:
  assumes g: "graph_ok tasks" and inv: "kahn_inv tasks (k # pending) st"
  shows "(\<exists>st'. visitTask tasks (dependentsTable tasks) st k = Inr st' \<and> kahn_inv tasks pending st' \<and>
            ks_order st' = ks_order st @ [k] \<and> ks_layers st' = ks_layers st) \<or>
         (visitTask tasks (dependentsTable tasks) st k = Inl (DagError GRAPH_LIMIT) \<and> (\<exists>n. longest (depends_on tasks) k n \<and> maximumGraphDepth < n))"
proof -
  let ?o = "set (ks_order st)" and ?D = "deps tasks"
  have mem: "j \<in> set (ks_order st @ (k # pending) @ ks_ready st) \<longleftrightarrow> ?D j \<subseteq> ?o" if "j \<in> ids_of tasks" for j
    using inv that unfolding kahn_inv_def by blast
  have k: "k \<in> ids_of tasks" "k \<notin> ?o" using inv by (auto simp: kahn_inv_def)
  obtain t where t: "find (\<lambda>t. mt_taskId t = k) tasks = Some t" "?D k = set (mt_dependencies t)" using find_task [OF g k(1)] .
  obtain ds where ds: "obj_get (dependentsTable tasks) k = Some ds" "distinct ds" "set ds = {j \<in> ids_of tasks. k \<in> ?D j}"
    using dependentsTable_get [OF g k(1)] .
  define n where "n = taskDepth (ks_depth st) (mt_dependencies t)"
  have long: "longest (depends_on tasks) k n"
    unfolding n_def by (rule taskDepth_longest [of tasks "ks_depth st" ?o]) (use inv t(2) mem [OF k(1)] in \<open>auto simp: kahn_inv_def\<close>)
  show ?thesis
  proof (cases "maximumGraphDepth < n")
    case True
    then have "visitTask tasks (dependentsTable tasks) st k = Inl (DagError GRAPH_LIMIT)" using t(1) by (simp add: visitTask_def n_def Let_def)
    with True long show ?thesis by blast
  next
    case False
    obtain ind' ready' where r: "foldl releaseDependent (ks_indegree st, ks_ready st) ds = (ind', ready')" by fastforce
    define st' where "st' = st\<lparr>ks_order := ks_order st @ [k], ks_depth := obj_set k n (ks_depth st), ks_indegree := ind', ks_ready := ready'\<rparr>"
    have ind: "obj_get (ks_indegree st) j = Some (int (card (?D j - ?o)))" if "j \<in> ids_of tasks" for j
      using inv that by (simp add: kahn_inv_def)
    note rel = release_dependents [of ?D, OF finite_deps ds(2,3) k(2) ind r]
    obtain new where new: "ready' = ks_ready st @ new" "distinct new" "set new = {j \<in> ids_of tasks. k \<in> ?D j \<and> ?D j \<subseteq> insert k ?o}"
      using rel(2) by blast
    have fresh: "set new \<inter> set (ks_order st @ (k # pending) @ ks_ready st) = {}" using mem k(2) new(3) by blast
    have "distinct (ks_order st' @ pending @ ks_ready st')" using inv fresh new(2) by (auto simp: kahn_inv_def st'_def new(1))
    moreover have "set (ks_order st' @ pending @ ks_ready st') \<subseteq> ids_of tasks" using inv new by (auto simp: kahn_inv_def st'_def)
    moreover have "j \<in> set (ks_order st' @ pending @ ks_ready st') \<longleftrightarrow> ?D j \<subseteq> set (ks_order st')" if "j \<in> ids_of tasks" for j
      using mem [OF that] that new by (auto simp: st'_def)
    moreover have "depths_ok tasks (ks_depth st') (set (ks_order st'))"
      using inv long False by (auto simp: kahn_inv_def depths_ok_def st'_def)
    ultimately have "kahn_inv tasks pending st'" using rel(1) unfolding kahn_inv_def by (simp add: st'_def)
    then show ?thesis using t(1) ds(1) False r by (simp add: visitTask_def n_def Let_def st'_def)
  qed
qed


lemma visitTasks_inv:
  assumes g: "graph_ok tasks" and "kahn_inv tasks ks st"
  shows "(\<exists>st'. fold_res (visitTask tasks (dependentsTable tasks)) st ks = Inr st' \<and> kahn_inv tasks [] st' \<and>
            ks_order st' = ks_order st @ ks \<and> ks_layers st' = ks_layers st) \<or>
         (fold_res (visitTask tasks (dependentsTable tasks)) st ks = Inl (DagError GRAPH_LIMIT) \<and>
            (\<exists>k n. longest (depends_on tasks) k n \<and> maximumGraphDepth < n))"
  using assms(2)
proof (induction ks arbitrary: st)
  case (Cons k ks)
  from visitTask_inv [OF g Cons.prems] show ?case
  proof (elim disjE exE conjE)
    fix st1 assume s: "visitTask tasks (dependentsTable tasks) st k = Inr st1" "kahn_inv tasks ks st1"
      "ks_order st1 = ks_order st @ [k]" "ks_layers st1 = ks_layers st"
    from Cons.IH [OF s(2)] show ?thesis using s by auto
  next
    fix n assume "visitTask tasks (dependentsTable tasks) st k = Inl (DagError GRAPH_LIMIT)" "longest (depends_on tasks) k n" "maximumGraphDepth < n"
    then show ?thesis by auto
  qed
qed simp

definition layered :: "MaterializedTask list \<Rightarrow> string list list \<Rightarrow> bool" where
  "layered tasks ls \<longleftrightarrow> (\<forall>i < length ls. \<forall>k \<in> set (ls ! i). deps tasks k \<subseteq> set (concat (take i ls)))"

lemma layered_snoc:
  "layered tasks (ls @ [l]) \<longleftrightarrow> layered tasks ls \<and> (\<forall>k \<in> set l. deps tasks k \<subseteq> set (concat ls))"
  by (simp add: layered_def All_less_Suc nth_append conj_commute)

definition loop_inv :: "MaterializedTask list \<Rightarrow> KahnState \<Rightarrow> bool" where
  "loop_inv tasks st \<longleftrightarrow> kahn_inv tasks [] st \<and> concat (ks_layers st) = ks_order st \<and> layered tasks (ks_layers st)"

lemma open_layer_inv:
  assumes "loop_inv tasks st"
  shows "kahn_inv tasks (ks_ready st) (openLayer st)" "layered tasks (ks_layers (openLayer st))"
proof -
  show "kahn_inv tasks (ks_ready st) (openLayer st)" using assms by (simp add: loop_inv_def kahn_inv_def openLayer_def)
  have "deps tasks k \<subseteq> set (ks_order st)" if "k \<in> set (ks_ready st)" for k
    using assms that unfolding loop_inv_def kahn_inv_def by auto
  then show "layered tasks (ks_layers (openLayer st))" using assms by (auto simp: openLayer_def layered_snoc loop_inv_def)
qed

lemma sortReady_inv: "loop_inv tasks st \<Longrightarrow> loop_inv tasks (sortReady st)"
  by (simp add: loop_inv_def kahn_inv_def sortReady_def)

lemma kahnLoop_inv:
  assumes "graph_ok tasks" "loop_inv tasks st"
  shows "(\<exists>st'. kahnLoop tasks (dependentsTable tasks) st = Inr st' \<and> loop_inv tasks st' \<and> ks_ready st' = []) \<or>
         (kahnLoop tasks (dependentsTable tasks) st = Inl (DagError GRAPH_LIMIT) \<and> (\<exists>k n. longest (depends_on tasks) k n \<and> maximumGraphDepth < n))"
  using assms
proof (induction tasks "dependentsTable tasks" st rule: kahnLoop.induct)
  case (1 tasks st)
  let ?visit = "fold_res (visitTask tasks (dependentsTable tasks)) (openLayer st) (ks_ready st)"
  show ?case
  proof (cases "ks_ready st = []")
    case False
    note o = open_layer_inv [OF "1.prems"(2)]
    from visitTasks_inv [OF "1.prems"(1) o(1)] show ?thesis
    proof (elim disjE exE conjE)
      fix st1 assume s: "?visit = Inr st1" "kahn_inv tasks [] st1" "ks_order st1 = ks_order (openLayer st) @ ks_ready st" "ks_layers st1 = ks_layers (openLayer st)"
      have "loop_inv tasks st1" using s(2-4) o(2) "1.prems"(2) by (simp add: loop_inv_def openLayer_def)
      then have "loop_inv tasks (sortReady st1)" by (rule sortReady_inv)
      from "1.hyps" [OF False s(1) "1.prems"(1) this] False s(1) show ?thesis by simp
    next
      fix k n assume "?visit = Inl (DagError GRAPH_LIMIT)" "longest (depends_on tasks) k n" "maximumGraphDepth < n"
      with False show ?thesis by auto
    qed
  qed (use "1.prems" in simp)
qed

lemma start_inv:
  assumes g: "graph_ok tasks"
  shows "loop_inv tasks (kahnStart tasks)"
proof -
  have dis: "distinct (map mt_taskId tasks)" using g by (simp add: graph_ok_def)
  have "obj_get (initialIndegree tasks) k = Some (int (card (deps tasks k)))" and "k \<in> set (initialReady tasks) \<longleftrightarrow> deps tasks k = {}"
    if k: "k \<in> ids_of tasks" for k
  proof -
    obtain t where t: "t \<in> set tasks" "mt_taskId t = k" "deps tasks k = set (mt_dependencies t)" using find_task [OF g k] .
    have "distinct (mt_dependencies t)" using g t(1) by (simp add: graph_ok_def)
    moreover have "distinct (map fst (initialIndegree tasks))" using dis by (simp add: initialIndegree_def comp_def)
    moreover have "(k, int (length (mt_dependencies t))) \<in> set (initialIndegree tasks)" using t by (auto simp: initialIndegree_def)
    ultimately show "obj_get (initialIndegree tasks) k = Some (int (card (deps tasks k)))" using t(3) by (simp add: distinct_card)
    have "u = t" if "u \<in> set tasks" "mt_taskId u = k" for u using dis that t(1,2) by (metis distinct_map inj_onD)
    then have "k \<in> mt_taskId ` {u \<in> set tasks. mt_dependencies u = []} \<longleftrightarrow> mt_dependencies t = []" using t(1,2) by blast
    then have "k \<in> set (initialReady tasks) \<longleftrightarrow> mt_dependencies t = []" by (simp add: initialReady_def)
    then show "k \<in> set (initialReady tasks) \<longleftrightarrow> deps tasks k = {}" unfolding t(3) by simp
  qed
  moreover have "distinct (initialReady tasks)" "set (initialReady tasks) \<subseteq> ids_of tasks"
    using dis by (auto simp: initialReady_def ids_of_def distinct_map_filter)
  ultimately show ?thesis by (simp add: loop_inv_def kahn_inv_def kahnStart_def layered_def depths_ok_def)
qed

text \<open>When nothing is ready, everything is ordered exactly if the graph has no cycle.\<close>

lemma all_ordered_iff:
  assumes g: "graph_ok tasks" and inv: "loop_inv tasks st" and fin: "ks_ready st = []"
  shows "length (ks_order st) = length tasks \<longleftrightarrow> acyclic (depends_on tasks)"
proof -
  let ?o = "set (ks_order st)"
  have closed: "k \<in> ?o \<longleftrightarrow> deps tasks k \<subseteq> ?o" if "k \<in> ids_of tasks" for k
    using inv fin that by (simp add: loop_inv_def kahn_inv_def)
  have o: "distinct (ks_order st)" "?o \<subseteq> ids_of tasks" using inv fin by (auto simp: loop_inv_def kahn_inv_def)
  have card: "card (ids_of tasks) = length tasks" using g distinct_card [of "map mt_taskId tasks"] by (simp add: graph_ok_def ids_of_def)
  have "length (ks_order st) = length tasks \<longleftrightarrow> ?o = ids_of tasks"
    using card o by (metis card_subset_eq distinct_card finite_imageI finite_set ids_of_def)
  also have "\<dots> \<longleftrightarrow> acyclic (depends_on tasks)"
  proof
    assume all: "?o = ids_of tasks"
    have "\<forall>k \<in> ?o. \<exists>n. longest (depends_on tasks) k n" using inv by (auto simp: loop_inv_def kahn_inv_def depths_ok_def)
    show "acyclic (depends_on tasks)"
    proof (rule acyclicI, rule allI, rule notI)
      fix k assume cyc: "(k, k) \<in> (depends_on tasks)\<^sup>+"
      then have "k \<in> ids_of tasks" by (auto simp: depends_on_def ids_of_def dest: tranclD)
      then obtain n where n: "longest (depends_on tasks) k n" using \<open>\<forall>k \<in> ?o. _\<close> all by blast
      obtain m where m: "0 < m" "(k, k) \<in> depends_on tasks ^^ m" using cyc by (auto simp: trancl_power)
      have "(k, k) \<in> depends_on tasks ^^ (m * j)" for j using m(2) by (induction j) (auto simp: relpow_add)
      then have "m * Suc n \<le> n" using n unfolding longest_def by blast
      with m(1) show False by (cases m) auto
    qed
  next
    assume "acyclic (depends_on tasks)"
    then have wf: "wf ((depends_on tasks)\<inverse>)" by (simp add: finite_acyclic_wf_converse finite_depends_on)
    have "k \<in> ids_of tasks \<longrightarrow> k \<in> ?o" for k
      using wf
    proof (induction k rule: wf_induct_rule)
      case (less k)
      then show ?case using closed [of k] deps_ids [OF g, of k] by blast
    qed
    with o(2) show "?o = ids_of tasks" by blast
  qed
  finally show ?thesis .
qed


lemma depends_on_simps [simp]:
  "depends_on [] = {}" "depends_on (t # ts) = Pair (mt_taskId t) ` set (mt_dependencies t) \<union> depends_on ts"
  "depends_on (ts @ us) = depends_on ts \<union> depends_on us"
  by (auto simp: depends_on_Union)

lemma addTasks_depends:
  "fold_res (addTask P registry) (ts, n) raw = Inr (tasks, m) \<Longrightarrow> depends_on tasks = depends_on ts \<union> depends_on raw"
proof (induction raw arbitrary: ts n)
  case (Cons r raw)
  then obtain ts1 n1 where a: "addTask P registry (ts, n) r = Inr (ts1, n1)" "fold_res (addTask P registry) (ts1, n1) raw = Inr (tasks, m)"
    by (auto split: sum.splits)
  from a(1) obtain t where "ts1 = ts @ [t]" "mt_taskId t = mt_taskId r" "mt_dependencies t = mt_dependencies r"
    by (auto simp: addTask_def Let_def split: if_splits)
  then have "depends_on ts1 = depends_on ts \<union> Pair (mt_taskId r) ` set (mt_dependencies r)" by simp
  with Cons.IH [OF a(2)] show ?case by (simp add: Un_assoc)
qed simp

lemma read_tasks:
  assumes "fold_res (addTask P registry) ([], 0) raw = Inr (tasks, m)"
  shows "distinct (map mt_taskId tasks)" "\<forall>t \<in> set tasks. distinct (mt_dependencies t)" "ids_of tasks = ids_of raw" "length tasks = length raw"
    "depends_on tasks = depends_on raw"
proof -
  have e: "distinct (map mt_taskId ([] :: MaterializedTask list))" "\<forall>t \<in> set ([] :: MaterializedTask list). distinct (mt_dependencies t)" by simp_all
  note g = addTasks_graph [OF assms e]
  then show "distinct (map mt_taskId tasks)" "\<forall>t \<in> set tasks. distinct (mt_dependencies t)" by blast+
  have ids: "map mt_taskId tasks = map mt_taskId raw" using g by simp
  show "ids_of tasks = ids_of raw" by (metis ids ids_of_def list.set_map)
  show "length tasks = length raw" by (metis ids length_map)
  show "depends_on tasks = depends_on raw" using addTasks_depends [OF assms] by simp
qed

lemma kahn_result:
  assumes "graph_ok tasks"
  obtains (ordered) st where "kahnLoop tasks (dependentsTable tasks) (kahnStart tasks) = Inr st" "loop_inv tasks st" "ks_ready st = []"
  | (deep) k n where "kahnLoop tasks (dependentsTable tasks) (kahnStart tasks) = Inl (DagError GRAPH_LIMIT)"
      "longest (depends_on tasks) k n" "maximumGraphDepth < n"
  using kahnLoop_inv [OF assms start_inv [OF assms]] by blast

lemma dagOfTasks_Inr:
  assumes "dagOfTasks tasks m = Inr dag" "distinct (map mt_taskId tasks)" "\<forall>t \<in> set tasks. distinct (mt_dependencies t)"
  obtains st where "graph_ok tasks" "loop_inv tasks st" "ks_ready st = []" "length (ks_order st) = length tasks"
    "dg_order dag = ks_order st" "dg_layers dag = ks_layers st" "dg_depthByTask dag = ks_depth st"
proof -
  have d: "dependenciesError tasks = None" using assms(1) by (auto simp: dagOfTasks_def split: option.splits)
  have g: "graph_ok tasks" by (rule dependencies_checked [OF d assms(2,3)])
  show thesis using g
  proof (cases rule: kahn_result)
    case (ordered st)
    with assms(1) d g that show ?thesis by (auto simp: dagOfTasks_def Let_def split: if_splits)
  next
    case (deep k n)
    with assms(1) d show ?thesis by (simp add: dagOfTasks_def Let_def)
  qed
qed

lemma order_complete:
  assumes "graph_ok tasks" "loop_inv tasks st" "length (ks_order st) = length tasks"
  shows "distinct (ks_order st)" "set (ks_order st) = ids_of tasks"
proof -
  show d: "distinct (ks_order st)" using assms(2) by (simp add: loop_inv_def kahn_inv_def)
  have "set (ks_order st) \<subseteq> ids_of tasks" using assms(2) by (simp add: loop_inv_def kahn_inv_def)
  moreover have "card (ids_of tasks) = length tasks" using assms(1) distinct_card [of "map mt_taskId tasks"] by (simp add: graph_ok_def ids_of_def)
  ultimately show "set (ks_order st) = ids_of tasks" using d assms(3) by (metis card_subset_eq distinct_card finite_imageI finite_set ids_of_def)
qed

lemma chain_bound:
  assumes "graph_ok tasks" "loop_inv tasks st" "length (ks_order st) = length tasks" "(k, d) \<in> depends_on tasks ^^ n"
  shows "n \<le> maximumGraphDepth"
proof (cases "k \<in> ids_of tasks")
  case True
  then have "\<exists>l. longest (depends_on tasks) k l \<and> l \<le> maximumGraphDepth"
    using assms(2) order_complete(2) [OF assms(1-3)] unfolding loop_inv_def kahn_inv_def depths_ok_def by blast
  then show ?thesis using assms(4) unfolding longest_def by (meson order_trans)
next
  case False
  then have "depends_on tasks `` {k} = {}" by (auto simp: depends_on_def ids_of_def)
  from longest_leaf [OF this] show ?thesis using assms(4) unfolding longest_def by fastforce
qed

lemma dag_well_founded:
  assumes "materializeMultiRepositoryDag P registry raw = Inr dag"
  shows "wf ((depends_on raw)\<inverse>)" "depends_on raw `` UNIV \<subseteq> ids_of raw"
proof -
  from assms obtain tasks m where r: "fold_res (addTask P registry) ([], 0) raw = Inr (tasks, m)" and d: "dagOfTasks tasks m = Inr dag"
    by (auto simp: materializeMultiRepositoryDag_def split: if_splits)
  note rt = read_tasks [OF r]
  obtain st where st: "graph_ok tasks" "loop_inv tasks st" "ks_ready st = []" "length (ks_order st) = length tasks"
    using dagOfTasks_Inr [OF d rt(1,2)] .
  have "acyclic (depends_on raw)" using all_ordered_iff [OF st(1-3)] st(4) unfolding rt(5) by blast
  then show "wf ((depends_on raw)\<inverse>)" by (simp add: finite_acyclic_wf_converse finite_depends_on)
  show "depends_on raw `` UNIV \<subseteq> ids_of raw" using deps_ids [OF st(1)] unfolding rt(3,5) by blast
qed

section \<open>Properties\<close>

text \<open>
  C29. An accepted graph is a correct schedule: its order lists every task exactly once, its layers in sequence are
  that order, every dependency of a task lies in a strictly earlier layer (so the tasks of a layer are
  independent), and the depth of a task is the length of its longest chain of dependencies, at most 256.
\<close>

theorem dag_order:
  assumes "materializeMultiRepositoryDag P registry raw = Inr dag"
  shows "distinct (dg_order dag) \<and> set (dg_order dag) = mt_taskId ` set raw \<and> concat (dg_layers dag) = dg_order dag \<and>
    (\<forall>i < length (dg_layers dag). \<forall>t \<in> set raw. mt_taskId t \<in> set (dg_layers dag ! i) \<longrightarrow>
       set (mt_dependencies t) \<subseteq> set (concat (take i (dg_layers dag)))) \<and>
    (\<forall>t \<in> set raw. \<exists>n. obj_get (dg_depthByTask dag) (mt_taskId t) = Some n \<and> longest (depends_on raw) (mt_taskId t) n \<and> n \<le> 256)"
proof -
  from assms obtain tasks m where r: "fold_res (addTask P registry) ([], 0) raw = Inr (tasks, m)" and d: "dagOfTasks tasks m = Inr dag"
    by (auto simp: materializeMultiRepositoryDag_def split: if_splits)
  note rt = read_tasks [OF r]
  obtain st where st: "graph_ok tasks" "loop_inv tasks st" "ks_ready st = []" "length (ks_order st) = length tasks"
    "dg_order dag = ks_order st" "dg_layers dag = ks_layers st" "dg_depthByTask dag = ks_depth st"
    using dagOfTasks_Inr [OF d rt(1,2)] .
  note oc = order_complete [OF st(1,2,4)]
  have deps: "set (mt_dependencies t) \<subseteq> deps tasks (mt_taskId t)" if "t \<in> set raw" for t
    using that unfolding rt(5) by (auto simp: depends_on_def)
  have lay: "layered tasks (ks_layers st)" "concat (ks_layers st) = ks_order st" using st(2) by (auto simp: loop_inv_def)
  have "set (mt_dependencies t) \<subseteq> set (concat (take i (ks_layers st)))"
    if "i < length (ks_layers st)" "t \<in> set raw" "mt_taskId t \<in> set (ks_layers st ! i)" for i t
    using lay(1) that deps [OF that(2)] unfolding layered_def by blast
  moreover have "\<exists>n. obj_get (ks_depth st) (mt_taskId t) = Some n \<and> longest (depends_on raw) (mt_taskId t) n \<and> n \<le> 256" if "t \<in> set raw" for t
    using st(2) oc(2) that unfolding rt(3,5) loop_inv_def kahn_inv_def depths_ok_def maximumGraphDepth_def by (simp add: ids_of_def)
  moreover have "set (ks_order st) = mt_taskId ` set raw" using oc(2) unfolding rt(3) by (simp add: ids_of_def)
  ultimately show ?thesis unfolding st(5-7) using oc(1) lay(2) by blast
qed

text \<open>
  C30. The graph check decides exactly what it should. For tasks that pass the checks of each task and refer
  only to known tasks, the loop always ends and the graph is accepted if and only if the dependencies have no
  cycle and no chain longer than 256; a refusal for a cycle means that there is one, and otherwise the depth bound is named.
\<close>

theorem dag_decides:
  assumes "raw \<noteq> []" "length raw \<le> maximumTasks" "fold_res (addTask P registry) ([], 0) raw = Inr (tasks, m)"
    "\<forall>t \<in> set raw. set (mt_dependencies t) \<subseteq> mt_taskId ` set raw"
  shows "((\<exists>dag. materializeMultiRepositoryDag P registry raw = Inr dag) \<longleftrightarrow>
      acyclic (depends_on raw) \<and> (\<forall>k n d. (k, d) \<in> depends_on raw ^^ n \<longrightarrow> n \<le> 256)) \<and>
    (materializeMultiRepositoryDag P registry raw = Inl (DagError CYCLE) \<longrightarrow> \<not> acyclic (depends_on raw)) \<and>
    (\<forall>e. materializeMultiRepositoryDag P registry raw = Inl e \<longrightarrow> e = DagError CYCLE \<or> e = DagError GRAPH_LIMIT)"
proof (cases "dependenciesError tasks")
  case None
  note rt = read_tasks [OF assms(3)]
  have m: "materializeMultiRepositoryDag P registry raw = dagOfTasks tasks m" using assms(1-3) by (simp add: materializeMultiRepositoryDag_def bind_res_def)
  have g: "graph_ok tasks" by (rule dependencies_checked [OF None rt(1,2)])
  show ?thesis using g
  proof (cases rule: kahn_result)
    case (ordered st)
    note iff = all_ordered_iff [OF g ordered(2,3), unfolded rt(5)]
    have bound: "n \<le> 256" if "length (ks_order st) = length tasks" "(k, d) \<in> depends_on raw ^^ n" for k d n
      using chain_bound [OF g ordered(2) that(1)] that(2) unfolding rt(5) by (simp add: maximumGraphDepth_def)
    have "dagOfTasks tasks m = Inl (DagError CYCLE) \<longleftrightarrow> length (ks_order st) \<noteq> length tasks"
      "(\<exists>dag. dagOfTasks tasks m = Inr dag) \<longleftrightarrow> length (ks_order st) = length tasks"
      "dagOfTasks tasks m = Inl e \<Longrightarrow> e = DagError CYCLE" for e
      using None ordered(1) by (auto simp: dagOfTasks_def Let_def bind_res_def split: if_splits)
    then show ?thesis unfolding m using iff bound by blast
  next
    case (deep k n)
    then have "dagOfTasks tasks m = Inl (DagError GRAPH_LIMIT)" using None by (simp add: dagOfTasks_def Let_def bind_res_def)
    moreover have "\<exists>d. (k, d) \<in> depends_on raw ^^ n" "\<not> n \<le> 256" using deep(2,3) unfolding rt(5) by (auto simp: longest_def maximumGraphDepth_def)
    ultimately show ?thesis unfolding m by auto
  qed
next
  case (Some e)
  note rt = read_tasks [OF assms(3)]
  have m: "materializeMultiRepositoryDag P registry raw = Inl (DagError e)"
    using assms(1-3) Some by (simp add: materializeMultiRepositoryDag_def dagOfTasks_def bind_res_def)
  from Some obtain t d where t: "t \<in> set tasks" "d \<in> set (mt_dependencies t)" "dependencyError tasks t d = Some e"
    by (auto simp: dependenciesError_def dest!: first_err_Some)
  have edge: "(mt_taskId t, d) \<in> depends_on raw" unfolding rt(5) [symmetric] using t(1,2) by (auto simp: depends_on_def)
  then have "d \<in> mt_taskId ` set tasks" using assms(4) rt(3) unfolding ids_of_def depends_on_def by blast
  with t(3) have self: "e = CYCLE" "d = mt_taskId t" by (auto simp: dependencyError_def split: if_splits)
  with edge have "\<not> acyclic (depends_on raw)" by (auto simp: acyclic_def)
  with m self(1) show ?thesis by simp
qed


section \<open>Witnesses\<close>

definition sample_task :: "string \<Rightarrow> string list \<Rightarrow> MultiRepositoryTask" where
  "sample_task k ds = \<lparr>mt_taskId = k, mt_taskGeneration = 1, mt_roleId = ''dev'', mt_providerId = ''claude'', mt_repositoryIds = [''api''],
     mt_dependencies = ds\<rparr>"

definition sample_tasks :: "MultiRepositoryTask list" where
  "sample_tasks = [sample_task ''ship'' [''test'', ''docs''], sample_task ''test'' [''build''], sample_task ''docs'' [''build''], sample_task ''build'' []]"

definition sample_cycle :: "MultiRepositoryTask list" where
  "sample_cycle = [sample_task ''a'' [''b''], sample_task ''b'' [''a'']]"

theorem dag_order_witness:
  "\<exists>(dag :: MultiRepositoryDag). materializeMultiRepositoryDag sample_domain sample_registry sample_tasks = Inr dag \<and>
     dg_layers dag = [[''build''], [''docs'', ''test''], [''ship'']] \<and> distinct (dg_order dag) \<and> set (dg_order dag) = mt_taskId ` set sample_tasks"
proof -
  have "(case materializeMultiRepositoryDag sample_domain sample_registry sample_tasks of Inl _ \<Rightarrow> None | Inr dag \<Rightarrow> Some (dg_layers dag)) =
      Some [[''build''], [''docs'', ''test''], [''ship'']]" by code_simp
  then obtain dag where "materializeMultiRepositoryDag sample_domain sample_registry sample_tasks = Inr dag"
      "dg_layers dag = [[''build''], [''docs'', ''test''], [''ship'']]" by (auto split: sum.splits)
  with dag_order [OF this(1)] show ?thesis by blast
qed

theorem dag_decides_witness:
  "materializeMultiRepositoryDag sample_domain sample_registry sample_cycle = Inl (DagError CYCLE) \<and> \<not> acyclic (depends_on sample_cycle)"
proof -
  have c: "materializeMultiRepositoryDag sample_domain sample_registry sample_cycle = Inl (DagError CYCLE)" by code_simp
  have "\<not> isl (fold_res (addTask sample_domain sample_registry) ([], 0) sample_cycle)" by code_simp
  then obtain tasks m where r: "fold_res (addTask sample_domain sample_registry) ([], 0) sample_cycle = Inr (tasks, m)"
    by (cases "fold_res (addTask sample_domain sample_registry) ([], 0) sample_cycle") auto
  have "sample_cycle \<noteq> []" "length sample_cycle \<le> maximumTasks" "\<forall>t \<in> set sample_cycle. set (mt_dependencies t) \<subseteq> mt_taskId ` set sample_cycle"
    by (simp_all add: sample_cycle_def sample_task_def maximumTasks_def)
  with dag_decides [OF _ _ r] c show ?thesis by blast
qed

end
