(* ===== verification/Scheduler.thy ===== *)
theory Scheduler
  imports Control_Types
begin

text \<open>
  The multi-repository scheduler (\<open>src/multirepo/scheduler.ts\<close>, \<open>src/multirepo/events.ts\<close>): an
  event-sourced table of tasks with at most one lease each, the decision to admit a task under concurrency
  limits, the choice of the next task to reconcile, and the decision on an expired lease.

  Parameters are \<open>Date.parse\<close>, the canonical-timestamp check built from it, and SHA-256 of an event's JSON and of
  the evidence text of an expired lease. Identifiers are taken to differ from the property names every
  JavaScript object inherits.
\<close>

section \<open>Events: events.ts\<close>

datatype DirtyReason = REGISTERED | DEPENDENCY_CHANGED | CAPACITY_CHANGED | LEASE_CHANGED | EXTERNAL_FACT | RETRY

datatype UncertainReason = EXPIRED_OWNER_ALIVE | OWNER_UNKNOWN | PROCESS_IDENTITY_UNKNOWN | SETTLEMENT_UNKNOWN

datatype ReleaseOutcome = OutCompleted | OutRetry | OutCancelled | OutFailed

record LeaseGrant =
  lg_leaseToken :: string
  lg_leaseVersion :: int
  lg_attemptId :: string
  lg_repositorySetId :: string
  lg_providerId :: string
  lg_repositoryIds :: "string list"
  lg_ownerId :: string
  lg_ownerIncarnation :: string
  lg_issuedAt :: string
  lg_expiresAt :: string

datatype SchedulerBody =
    TaskRegistered string "string list" string "string list" int
  | TaskDirtied DirtyReason
  | ReconcileStarted string string int
  | ReconcileFinished string string int
  | LeaseGranted int LeaseGrant
  | DispatchAcknowledged int string string
  | LeaseHeartbeat int string string string
  | LeaseUncertain int string UncertainReason
  | LeaseReleased int string ReleaseOutcome string
  | TaskCancelled int string

record SchedulerEvent =
  se_seq :: int
  se_eventId :: string
  se_occurredAt :: string
  se_taskId :: string
  se_taskGeneration :: int
  se_body :: SchedulerBody

record SchedulerPrims =
  sd_dateParse :: "string \<Rightarrow> int"
  sd_timestampOk :: "string \<Rightarrow> bool"
  sd_eventDigest :: "SchedulerEvent \<Rightarrow> string"
  sd_deadEvidence :: "string \<Rightarrow> string"

definition versionOk :: "int \<Rightarrow> bool" where
  "versionOk v \<longleftrightarrow> 1 \<le> v \<and> v \<le> MAX_SAFE_INTEGER"

definition incarnationOk :: "string \<Rightarrow> bool" where
  "incarnationOk s \<longleftrightarrow> 1 \<le> length s \<and> length s \<le> 256 \<and> list_all (\<lambda>c. is_alnum c \<or> c \<in> set '':._-'') s"

definition repositoryIdsOk :: "string list \<Rightarrow> bool" where
  "repositoryIdsOk ids \<longleftrightarrow> ids \<noteq> [] \<and> length ids \<le> 32 \<and> list_all isValidId ids"

definition leaseOk :: "SchedulerPrims \<Rightarrow> LeaseGrant \<Rightarrow> bool" where
  "leaseOk P l \<longleftrightarrow> isSha256Hex (lg_leaseToken l) \<and> versionOk (lg_leaseVersion l) \<and> isValidId (lg_attemptId l) \<and>
     isSha256Hex (lg_repositorySetId l) \<and> isValidId (lg_providerId l) \<and> repositoryIdsOk (lg_repositoryIds l) \<and>
     isValidId (lg_ownerId l) \<and> incarnationOk (lg_ownerIncarnation l) \<and> sd_timestampOk P (lg_issuedAt l) \<and> sd_timestampOk P (lg_expiresAt l)"

definition bodySchemaOk :: "SchedulerPrims \<Rightarrow> SchedulerBody \<Rightarrow> bool" where
  "bodySchemaOk P b = (case b of
     TaskRegistered setId ids provider deps priority \<Rightarrow> isSha256Hex setId \<and> repositoryIdsOk ids \<and> isValidId provider \<and>
       length deps \<le> 256 \<and> list_all isValidId deps \<and> - 1000 \<le> priority \<and> priority \<le> 1000
   | TaskDirtied _ \<Rightarrow> True
   | ReconcileStarted r own v \<Rightarrow> isValidId r \<and> isValidId own \<and> versionOk v
   | ReconcileFinished r own v \<Rightarrow> isValidId r \<and> isValidId own \<and> versionOk v
   | LeaseGranted v l \<Rightarrow> versionOk v \<and> leaseOk P l
   | DispatchAcknowledged v token process \<Rightarrow> versionOk v \<and> isSha256Hex token \<and> 1 \<le> length process \<and> length process \<le> 512
   | LeaseHeartbeat v token incarnation expires \<Rightarrow> versionOk v \<and> isSha256Hex token \<and> incarnationOk incarnation \<and> sd_timestampOk P expires
   | LeaseUncertain v token _ \<Rightarrow> versionOk v \<and> isSha256Hex token
   | LeaseReleased v token _ evidence \<Rightarrow> versionOk v \<and> isSha256Hex token \<and> isSha256Hex evidence
   | TaskCancelled v reason \<Rightarrow> versionOk v \<and> isValidId reason)"

definition parseMultiRepoSchedulerEvent :: "SchedulerPrims \<Rightarrow> SchedulerEvent \<Rightarrow> bool" where
  "parseMultiRepoSchedulerEvent P e \<longleftrightarrow> 0 \<le> se_seq e \<and> se_seq e \<le> MAX_SAFE_INTEGER \<and> isValidId (se_eventId e) \<and>
     sd_timestampOk P (se_occurredAt e) \<and> isValidId (se_taskId e) \<and> versionOk (se_taskGeneration e) \<and> bodySchemaOk P (se_body e)"

section \<open>The projection: scheduler.ts\<close>

datatype LeaseState = Admitted | Dispatched | LeaseIsUncertain

record SchedulerLease =
  sl_grant :: LeaseGrant
  sl_state :: LeaseState
  sl_processIdentity :: "string option"
  sl_uncertainReason :: "UncertainReason option"

datatype SchedulerTaskState = Waiting | TaskActive | TaskCompleted | TaskIsCancelled | TaskFailed | TaskUncertain

record Processing =
  pr_reconcileId :: string
  pr_ownerId :: string
  pr_startedSeq :: int

record SchedulerTask =
  sk_taskId :: string
  sk_taskGeneration :: int
  sk_version :: int
  sk_repositorySetId :: string
  sk_repositoryIds :: "string list"
  sk_providerId :: string
  sk_dependencies :: "string list"
  sk_priority :: int
  sk_state :: SchedulerTaskState
  sk_dirty :: bool
  sk_dirtySinceSeq :: "int option"
  sk_processing :: "Processing option"
  sk_lease :: "SchedulerLease option"
  sk_lastEventSeq :: int

record SchedulerProjection =
  sq_headSeq :: int
  sq_tasks :: "SchedulerTask obj"
  sq_seenEventIds :: "string obj"

datatype SchedulerErrorCode =
    INVALID_EVENT | SEQUENCE_CONFLICT | EVENT_ID_CONFLICT | STALE_GENERATION | STALE_VERSION | INVALID_TASK_TRANSITION | LEASE_CONFLICT | RANGE_ERROR

definition emptyProjection :: SchedulerProjection where
  "emptyProjection = \<lparr>sq_headSeq = 0, sq_tasks = [], sq_seenEventIds = []\<rparr>"

definition registeredTask :: "SchedulerEvent \<Rightarrow> string \<Rightarrow> string list \<Rightarrow> string \<Rightarrow> string list \<Rightarrow> int \<Rightarrow> SchedulerErrorCode + SchedulerTask" where
  "registeredTask e repositorySetId repositoryIds providerId dependencies priority =
     bind_res (checks [(\<not> distinct repositoryIds \<or> \<not> distinct dependencies \<or> se_taskId e \<in> set dependencies, INVALID_EVENT)]) (\<lambda>_.
     Inr \<lparr>sk_taskId = se_taskId e, sk_taskGeneration = se_taskGeneration e, sk_version = 1, sk_repositorySetId = repositorySetId,
          sk_repositoryIds = repositoryIds, sk_providerId = providerId, sk_dependencies = dependencies, sk_priority = priority,
          sk_state = Waiting, sk_dirty = True, sk_dirtySinceSeq = Some (se_seq e), sk_processing = None, sk_lease = None,
          sk_lastEventSeq = se_seq e\<rparr>)"

definition requireTask :: "SchedulerProjection \<Rightarrow> SchedulerEvent \<Rightarrow> SchedulerErrorCode + SchedulerTask" where
  "requireTask sq e =
     bind_res (require_some INVALID_TASK_TRANSITION (obj_get (sq_tasks sq) (se_taskId e))) (\<lambda>task.
     if sk_taskGeneration task \<noteq> se_taskGeneration e then Inl STALE_GENERATION else Inr task)"

definition withTask :: "SchedulerPrims \<Rightarrow> SchedulerProjection \<Rightarrow> SchedulerEvent \<Rightarrow> SchedulerTask \<Rightarrow> SchedulerProjection" where
  "withTask P sq e task = \<lparr>sq_headSeq = se_seq e, sq_tasks = obj_set (sk_taskId task) task (sq_tasks sq),
     sq_seenEventIds = obj_set (se_eventId e) (sd_eventDigest P e) (sq_seenEventIds sq)\<rparr>"

definition terminalTask :: "SchedulerTask \<Rightarrow> bool" where
  "terminalTask t \<longleftrightarrow> sk_state t = TaskCompleted \<or> sk_state t = TaskIsCancelled"

text \<open>\<open>requireVersion\<close>, then the guard of the transition with its own error.\<close>

definition guarded :: "SchedulerTask \<Rightarrow> int \<Rightarrow> bool \<Rightarrow> SchedulerErrorCode \<Rightarrow> SchedulerTask \<Rightarrow> SchedulerErrorCode + SchedulerTask" where
  "guarded task expectedVersion bad err next =
     bind_res (checks [(sk_version task \<noteq> expectedVersion, STALE_VERSION), (bad, err)]) (\<lambda>_. Inr next)"

definition leaseToken :: "SchedulerTask \<Rightarrow> string option" where
  "leaseToken t = map_option (\<lambda>l. lg_leaseToken (sl_grant l)) (sk_lease t)"

definition leaseState :: "SchedulerTask \<Rightarrow> LeaseState option" where
  "leaseState t = map_option sl_state (sk_lease t)"

text \<open>\<open>{ ...task, version: task.version + 1, lastEventSeq: event.seq }\<close>.\<close>

definition touched :: "SchedulerEvent \<Rightarrow> SchedulerTask \<Rightarrow> SchedulerTask" where
  "touched e t = t\<lparr>sk_version := sk_version t + 1, sk_lastEventSeq := se_seq e\<rparr>"

definition onTaskDirtied :: "SchedulerEvent \<Rightarrow> SchedulerTask \<Rightarrow> SchedulerErrorCode + SchedulerTask" where
  "onTaskDirtied e t =
     (if terminalTask t then Inl INVALID_TASK_TRANSITION
      else Inr ((touched e t)\<lparr>sk_dirty := True, sk_dirtySinceSeq := (case sk_dirtySinceSeq t of None \<Rightarrow> Some (se_seq e) | Some s \<Rightarrow> Some s)\<rparr>))"

definition onReconcileStarted :: "SchedulerEvent \<Rightarrow> SchedulerTask \<Rightarrow> string \<Rightarrow> string \<Rightarrow> int \<Rightarrow> SchedulerErrorCode + SchedulerTask" where
  "onReconcileStarted e t reconcileId ownerId v =
     guarded t v (\<not> sk_dirty t \<or> sk_processing t \<noteq> None \<or> terminalTask t) INVALID_TASK_TRANSITION
       ((touched e t)\<lparr>sk_dirty := False, sk_dirtySinceSeq := None,
          sk_processing := Some \<lparr>pr_reconcileId = reconcileId, pr_ownerId = ownerId, pr_startedSeq = se_seq e\<rparr>\<rparr>)"

definition onReconcileFinished :: "SchedulerEvent \<Rightarrow> SchedulerTask \<Rightarrow> string \<Rightarrow> string \<Rightarrow> int \<Rightarrow> SchedulerErrorCode + SchedulerTask" where
  "onReconcileFinished e t reconcileId ownerId v =
     guarded t v (map_option (\<lambda>p. (pr_reconcileId p, pr_ownerId p)) (sk_processing t) \<noteq> Some (reconcileId, ownerId)) INVALID_TASK_TRANSITION
       ((touched e t)\<lparr>sk_processing := None\<rparr>)"

definition onLeaseGranted :: "SchedulerPrims \<Rightarrow> SchedulerEvent \<Rightarrow> SchedulerTask \<Rightarrow> int \<Rightarrow> LeaseGrant \<Rightarrow> SchedulerErrorCode + SchedulerTask" where
  "onLeaseGranted P e t v l =
     guarded t v (sk_lease t \<noteq> None \<or> sk_state t \<noteq> Waiting \<or> lg_repositorySetId l \<noteq> sk_repositorySetId t \<or>
         lg_providerId l \<noteq> sk_providerId t \<or> lg_repositoryIds l \<noteq> sk_repositoryIds t \<or>
         sd_dateParse P (lg_expiresAt l) \<le> sd_dateParse P (lg_issuedAt l)) LEASE_CONFLICT
       ((touched e t)\<lparr>sk_state := TaskActive,
          sk_lease := Some \<lparr>sl_grant = l, sl_state = Admitted, sl_processIdentity = None, sl_uncertainReason = None\<rparr>\<rparr>)"

definition onDispatchAcknowledged :: "SchedulerEvent \<Rightarrow> SchedulerTask \<Rightarrow> int \<Rightarrow> string \<Rightarrow> string \<Rightarrow> SchedulerErrorCode + SchedulerTask" where
  "onDispatchAcknowledged e t v token processIdentity =
     guarded t v (leaseToken t \<noteq> Some token \<or> leaseState t \<noteq> Some Admitted) LEASE_CONFLICT
       ((touched e t)\<lparr>sk_lease := map_option (\<lambda>l. l\<lparr>sl_state := Dispatched, sl_processIdentity := Some processIdentity\<rparr>) (sk_lease t)\<rparr>)"

definition onLeaseHeartbeat :: "SchedulerPrims \<Rightarrow> SchedulerEvent \<Rightarrow> SchedulerTask \<Rightarrow> int \<Rightarrow> string \<Rightarrow> string \<Rightarrow> string \<Rightarrow> SchedulerErrorCode + SchedulerTask" where
  "onLeaseHeartbeat P e t v token incarnation expiresAt =
     guarded t v (leaseToken t \<noteq> Some token \<or> map_option (\<lambda>l. lg_ownerIncarnation (sl_grant l)) (sk_lease t) \<noteq> Some incarnation \<or>
         leaseState t = Some LeaseIsUncertain \<or>
         (case sk_lease t of None \<Rightarrow> False | Some l \<Rightarrow> sd_dateParse P expiresAt \<le> sd_dateParse P (lg_expiresAt (sl_grant l)))) LEASE_CONFLICT
       ((touched e t)\<lparr>sk_lease := map_option (\<lambda>l. l\<lparr>sl_grant := (sl_grant l)\<lparr>lg_expiresAt := expiresAt\<rparr>\<rparr>) (sk_lease t)\<rparr>)"

definition onLeaseUncertain :: "SchedulerEvent \<Rightarrow> SchedulerTask \<Rightarrow> int \<Rightarrow> string \<Rightarrow> UncertainReason \<Rightarrow> SchedulerErrorCode + SchedulerTask" where
  "onLeaseUncertain e t v token reason =
     guarded t v (leaseToken t \<noteq> Some token) LEASE_CONFLICT
       ((touched e t)\<lparr>sk_state := TaskUncertain,
          sk_lease := map_option (\<lambda>l. l\<lparr>sl_state := LeaseIsUncertain, sl_uncertainReason := Some reason\<rparr>) (sk_lease t)\<rparr>)"

definition onLeaseReleased :: "SchedulerEvent \<Rightarrow> SchedulerTask \<Rightarrow> int \<Rightarrow> string \<Rightarrow> ReleaseOutcome \<Rightarrow> SchedulerErrorCode + SchedulerTask" where
  "onLeaseReleased e t v token outcome =
     guarded t v (leaseToken t \<noteq> Some token \<or> leaseState t = Some LeaseIsUncertain) LEASE_CONFLICT
       ((touched e t)\<lparr>sk_state := (case outcome of OutCompleted \<Rightarrow> TaskCompleted | OutCancelled \<Rightarrow> TaskIsCancelled
             | OutFailed \<Rightarrow> TaskFailed | OutRetry \<Rightarrow> Waiting),
          sk_lease := None, sk_dirty := (if outcome = OutRetry then True else sk_dirty t),
          sk_dirtySinceSeq := (if outcome = OutRetry then Some (se_seq e) else sk_dirtySinceSeq t)\<rparr>)"

definition onTaskCancelled :: "SchedulerEvent \<Rightarrow> SchedulerTask \<Rightarrow> int \<Rightarrow> SchedulerErrorCode + SchedulerTask" where
  "onTaskCancelled e t v =
     guarded t v (sk_lease t \<noteq> None \<or> terminalTask t) INVALID_TASK_TRANSITION
       ((touched e t)\<lparr>sk_state := TaskIsCancelled, sk_dirty := False, sk_dirtySinceSeq := None\<rparr>)"

definition nextTask :: "SchedulerPrims \<Rightarrow> SchedulerEvent \<Rightarrow> SchedulerTask \<Rightarrow> SchedulerErrorCode + SchedulerTask" where
  "nextTask P e t = (case se_body e of
     TaskRegistered _ _ _ _ _ \<Rightarrow> Inl INVALID_TASK_TRANSITION
   | TaskDirtied _ \<Rightarrow> onTaskDirtied e t
   | ReconcileStarted r own v \<Rightarrow> onReconcileStarted e t r own v
   | ReconcileFinished r own v \<Rightarrow> onReconcileFinished e t r own v
   | LeaseGranted v l \<Rightarrow> onLeaseGranted P e t v l
   | DispatchAcknowledged v token process \<Rightarrow> onDispatchAcknowledged e t v token process
   | LeaseHeartbeat v token incarnation expires \<Rightarrow> onLeaseHeartbeat P e t v token incarnation expires
   | LeaseUncertain v token reason \<Rightarrow> onLeaseUncertain e t v token reason
   | LeaseReleased v token outcome _ \<Rightarrow> onLeaseReleased e t v token outcome
   | TaskCancelled v _ \<Rightarrow> onTaskCancelled e t v)"

text \<open>An event that was seen is ignored when its content is the same, and refused when it is not.\<close>

definition applyMultiRepoSchedulerEvent :: "SchedulerPrims \<Rightarrow> SchedulerProjection \<Rightarrow> SchedulerEvent \<Rightarrow> SchedulerErrorCode + SchedulerProjection" where
  "applyMultiRepoSchedulerEvent P sq e =
     (if \<not> parseMultiRepoSchedulerEvent P e then Inl INVALID_EVENT
      else case obj_get (sq_seenEventIds sq) (se_eventId e) of
        Some prior \<Rightarrow> if prior \<noteq> sd_eventDigest P e then Inl EVENT_ID_CONFLICT else Inr sq
      | None \<Rightarrow>
          if se_seq e \<noteq> sq_headSeq sq + 1 then Inl SEQUENCE_CONFLICT
          else (case se_body e of
            TaskRegistered setId ids provider deps priority \<Rightarrow>
              (case obj_get (sq_tasks sq) (se_taskId e) of
                 Some existing \<Rightarrow> Inl (if sk_taskGeneration existing = se_taskGeneration e then INVALID_TASK_TRANSITION else STALE_GENERATION)
               | None \<Rightarrow> bind_res (registeredTask e setId ids provider deps priority) (\<lambda>t. Inr (withTask P sq e t)))
          | _ \<Rightarrow> bind_res (requireTask sq e) (\<lambda>t. bind_res (nextTask P e t) (\<lambda>t'. Inr (withTask P sq e t')))))"

definition reduceMultiRepoSchedulerEvents :: "SchedulerPrims \<Rightarrow> SchedulerEvent list \<Rightarrow> SchedulerErrorCode + SchedulerProjection" where
  "reduceMultiRepoSchedulerEvents P events = fold_res (applyMultiRepoSchedulerEvent P) emptyProjection events"

section \<open>Choosing and admitting\<close>

definition agingIntervalSeq :: int where
  "agingIntervalSeq = 32"

definition maximumAgingBoost :: int where
  "maximumAgingBoost = 2048"

definition agingBoost :: "SchedulerProjection \<Rightarrow> SchedulerTask \<Rightarrow> int" where
  "agingBoost sq t = min maximumAgingBoost
     ((sq_headSeq sq - (case sk_dirtySinceSeq t of None \<Rightarrow> sq_headSeq sq | Some s \<Rightarrow> s)) div agingIntervalSeq)"

definition reconcilable :: "SchedulerTask \<Rightarrow> bool" where
  "reconcilable t \<longleftrightarrow> sk_dirty t \<and> sk_processing t = None \<and> \<not> terminalTask t"

definition chooseNextReconciliation :: "SchedulerProjection \<Rightarrow> SchedulerTask option" where
  "chooseNextReconciliation sq =
     (case sort_key (\<lambda>t. (- (sk_priority t + agingBoost sq t), case sk_dirtySinceSeq t of None \<Rightarrow> 0 | Some s \<Rightarrow> s, collate_key (sk_taskId t)))
        (filter reconcilable (obj_values (sq_tasks sq))) of [] \<Rightarrow> None | t # _ \<Rightarrow> Some t)"

record SchedulerConcurrencyLimits =
  cl_global :: int
  cl_perProvider :: int
  cl_perRepository :: int
  cl_perTask :: int

datatype SchedulerAdmissionBlockReason =
    TASK_TERMINAL | TASK_UNCERTAIN | TASK_ALREADY_LEASED | DEPENDENCY_PENDING | REPOSITORY_SET_MISMATCH | ROLE_SCOPE
  | PROVIDER_SCOPE | BUDGET_UNAVAILABLE | GLOBAL_CAPACITY | PROVIDER_CAPACITY | REPOSITORY_CAPACITY | TASK_CAPACITY

datatype SchedulerAdmissionDecision = AdmissionGranted SchedulerEvent | AdmissionBlocked SchedulerAdmissionBlockReason

record LeaseRequest =
  lr_eventId :: string
  lr_occurredAt :: string
  lr_leaseToken :: string
  lr_leaseVersion :: int
  lr_attemptId :: string
  lr_ownerId :: string
  lr_ownerIncarnation :: string
  lr_issuedAt :: string
  lr_expiresAt :: string

record AdmissionInput =
  ai_projection :: SchedulerProjection
  ai_taskId :: string
  ai_expectedVersion :: int
  ai_repositorySetId :: string
  ai_roleRepositoryIds :: "string list"
  ai_providerRepositoryIds :: "string list"
  ai_budgetAvailable :: bool
  ai_limits :: SchedulerConcurrencyLimits
  ai_lease :: LeaseRequest

definition limitOk :: "int \<Rightarrow> bool" where
  "limitOk v \<longleftrightarrow> 1 \<le> v \<and> v \<le> 10000"

definition limitsOk :: "SchedulerConcurrencyLimits \<Rightarrow> bool" where
  "limitsOk l \<longleftrightarrow> limitOk (cl_global l) \<and> limitOk (cl_perProvider l) \<and> limitOk (cl_perRepository l) \<and> limitOk (cl_perTask l)"

definition liveLeases :: "SchedulerProjection \<Rightarrow> LeaseGrant list" where
  "liveLeases sq = List.map_filter (\<lambda>t. map_option sl_grant (sk_lease t)) (obj_values (sq_tasks sq))"

definition countLeases :: "(LeaseGrant \<Rightarrow> bool) \<Rightarrow> SchedulerProjection \<Rightarrow> int" where
  "countLeases q sq = int (length (filter q (liveLeases sq)))"

text \<open>The reasons that block an admissible task: scope, budget and the four concurrency limits, in order.\<close>

definition scopeBlock :: "AdmissionInput \<Rightarrow> SchedulerTask \<Rightarrow> SchedulerAdmissionBlockReason option" where
  "scopeBlock i t =
     (if list_ex (\<lambda>d. map_option sk_state (obj_get (sq_tasks (ai_projection i)) d) \<noteq> Some TaskCompleted) (sk_dependencies t) then Some DEPENDENCY_PENDING
      else if ai_repositorySetId i \<noteq> sk_repositorySetId t then Some REPOSITORY_SET_MISMATCH
      else if list_ex (\<lambda>r. r \<notin> set (ai_roleRepositoryIds i)) (sk_repositoryIds t) then Some ROLE_SCOPE
      else if list_ex (\<lambda>r. r \<notin> set (ai_providerRepositoryIds i)) (sk_repositoryIds t) then Some PROVIDER_SCOPE
      else if \<not> ai_budgetAvailable i then Some BUDGET_UNAVAILABLE else None)"

definition capacityBlock :: "AdmissionInput \<Rightarrow> SchedulerTask \<Rightarrow> SchedulerAdmissionBlockReason option" where
  "capacityBlock i t =
     (let sq = ai_projection i; l = ai_limits i in
      if countLeases (\<lambda>_. True) sq \<ge> cl_global l then Some GLOBAL_CAPACITY
      else if countLeases (\<lambda>g. lg_providerId g = sk_providerId t) sq \<ge> cl_perProvider l then Some PROVIDER_CAPACITY
      else if list_ex (\<lambda>r. countLeases (\<lambda>g. r \<in> set (lg_repositoryIds g)) sq \<ge> cl_perRepository l) (sk_repositoryIds t) then Some REPOSITORY_CAPACITY
      else if countLeases (\<lambda>g. lg_attemptId g = lr_attemptId (ai_lease i)) sq \<ge> cl_perTask l then Some TASK_CAPACITY else None)"

definition grantEvent :: "AdmissionInput \<Rightarrow> SchedulerTask \<Rightarrow> SchedulerEvent" where
  "grantEvent i t = (let r = ai_lease i in
     \<lparr>se_seq = sq_headSeq (ai_projection i) + 1, se_eventId = lr_eventId r, se_occurredAt = lr_occurredAt r, se_taskId = sk_taskId t,
      se_taskGeneration = sk_taskGeneration t, se_body = LeaseGranted (sk_version t)
        \<lparr>lg_leaseToken = lr_leaseToken r, lg_leaseVersion = lr_leaseVersion r, lg_attemptId = lr_attemptId r,
         lg_repositorySetId = sk_repositorySetId t, lg_providerId = sk_providerId t, lg_repositoryIds = sk_repositoryIds t,
         lg_ownerId = lr_ownerId r, lg_ownerIncarnation = lr_ownerIncarnation r, lg_issuedAt = lr_issuedAt r, lg_expiresAt = lr_expiresAt r\<rparr>\<rparr>)"

definition decideSchedulerAdmission :: "SchedulerPrims \<Rightarrow> AdmissionInput \<Rightarrow> SchedulerErrorCode + SchedulerAdmissionDecision" where
  "decideSchedulerAdmission P i =
     (case obj_get (sq_tasks (ai_projection i)) (ai_taskId i) of
        None \<Rightarrow> Inr (AdmissionBlocked TASK_TERMINAL)
      | Some t \<Rightarrow>
          if sk_state t \<in> {TaskCompleted, TaskIsCancelled, TaskFailed} then Inr (AdmissionBlocked TASK_TERMINAL)
          else if sk_state t = TaskUncertain \<or> leaseState t = Some LeaseIsUncertain then Inr (AdmissionBlocked TASK_UNCERTAIN)
          else if sk_lease t \<noteq> None then Inr (AdmissionBlocked TASK_ALREADY_LEASED)
          else if sk_version t \<noteq> ai_expectedVersion i then Inl STALE_VERSION
          else case scopeBlock i t of Some r \<Rightarrow> Inr (AdmissionBlocked r)
          | None \<Rightarrow>
              if \<not> limitsOk (ai_limits i) then Inl RANGE_ERROR
              else case capacityBlock i t of Some r \<Rightarrow> Inr (AdmissionBlocked r)
              | None \<Rightarrow> if parseMultiRepoSchedulerEvent P (grantEvent i t) then Inr (AdmissionGranted (grantEvent i t)) else Inl INVALID_EVENT)"

datatype OwnerStatus = OwnerDead | OwnerAlive | OwnerStatusUnknown

text \<open>An expired lease is released for retry only if it was never dispatched and its owner is dead.\<close>

definition decideExpiredLease ::
    "SchedulerPrims \<Rightarrow> SchedulerProjection \<Rightarrow> string \<Rightarrow> string \<Rightarrow> OwnerStatus \<Rightarrow> string \<Rightarrow> string \<Rightarrow> SchedulerErrorCode + SchedulerEvent option" where
  "decideExpiredLease P sq taskId now ownerStatus eventId occurredAt =
     (case obj_get (sq_tasks sq) taskId of None \<Rightarrow> Inr None
      | Some t \<Rightarrow> (case sk_lease t of None \<Rightarrow> Inr None
          | Some l \<Rightarrow>
              if sd_dateParse P (lg_expiresAt (sl_grant l)) > sd_dateParse P now \<or> sl_state l = LeaseIsUncertain then Inr None
              else let token = lg_leaseToken (sl_grant l);
                       e = \<lparr>se_seq = sq_headSeq sq + 1, se_eventId = eventId, se_occurredAt = occurredAt, se_taskId = sk_taskId t,
                            se_taskGeneration = sk_taskGeneration t,
                            se_body = (if ownerStatus = OwnerDead \<and> sl_state l = Admitted
                                       then LeaseReleased (sk_version t) token OutRetry (sd_deadEvidence P token)
                                       else LeaseUncertain (sk_version t) token (if ownerStatus = OwnerAlive then EXPIRED_OWNER_ALIVE else OWNER_UNKNOWN))\<rparr> in
                   if parseMultiRepoSchedulerEvent P e then Inr (Some e) else Inl INVALID_EVENT))"

end
