(* ===== verification/Scheduler_Props.thy ===== *)
theory Scheduler_Props
  imports Scheduler
begin

text \<open>
  What the scheduler keeps: leases and task states agree, completed tasks stay completed, concurrency limits
  hold in every history whose grants come from the admission decision, writers are fenced by task versions,
  replays are idempotent, and the choice of the next task cannot starve one.
\<close>

section \<open>One task\<close>

definition hasLease :: "SchedulerTask \<Rightarrow> bool" where
  "hasLease t \<longleftrightarrow> sk_lease t \<noteq> None"

definition task_ok :: "string \<Rightarrow> SchedulerTask \<Rightarrow> bool" where
  "task_ok k t \<longleftrightarrow> sk_taskId t = k \<and>
     (sk_lease t \<noteq> None \<longleftrightarrow> sk_state t = TaskActive \<or> sk_state t = TaskUncertain) \<and>
     (leaseState t = Some LeaseIsUncertain \<longleftrightarrow> sk_state t = TaskUncertain) \<and>
     (\<forall>l. sk_lease t = Some l \<longrightarrow> lg_providerId (sl_grant l) = sk_providerId t \<and> lg_repositoryIds (sl_grant l) = sk_repositoryIds t)"

lemmas handler_defs = onTaskDirtied_def onReconcileStarted_def onReconcileFinished_def onLeaseGranted_def onDispatchAcknowledged_def
  onLeaseHeartbeat_def onLeaseUncertain_def onLeaseReleased_def onTaskCancelled_def guarded_def touched_def

text \<open>An event changes neither the identity nor the plan of a task, and adds one to its version.\<close>

lemma nextTask_plan:
  assumes "nextTask P e t = Inr t'"
  shows "sk_taskId t' = sk_taskId t \<and> sk_dependencies t' = sk_dependencies t \<and> sk_providerId t' = sk_providerId t \<and>
    sk_repositoryIds t' = sk_repositoryIds t \<and> sk_taskGeneration t' = sk_taskGeneration t \<and> sk_version t' = sk_version t + 1"
  using assms by (auto simp: nextTask_def handler_defs split: SchedulerBody.splits if_splits)

lemma nextTask_ok:
  assumes "nextTask P e t = Inr t'" "task_ok k t"
  shows "task_ok k t'"
  using assms by (auto simp: nextTask_def handler_defs task_ok_def leaseState_def leaseToken_def terminalTask_def
      split: SchedulerBody.splits if_splits option.splits ReleaseOutcome.splits)

lemma completed_final:
  assumes "nextTask P e t = Inr t'" "task_ok k t" "sk_state t = TaskCompleted"
  shows "sk_state t' = TaskCompleted"
proof -
  have "sk_lease t = None" using assms(2,3) by (auto simp: task_ok_def)
  with assms show ?thesis
    by (auto simp: nextTask_def handler_defs leaseToken_def terminalTask_def split: SchedulerBody.splits if_splits)
qed

section \<open>One event\<close>

text \<open>An accepted event was seen, registers a task, or changes one task.\<close>

lemma apply_cases:
  assumes "applyMultiRepoSchedulerEvent P sq e = Inr sq'"
  obtains (seen) "obj_get (sq_seenEventIds sq) (se_eventId e) = Some (sd_eventDigest P e)" "sq' = sq"
  | (registered) setId ids provider deps priority t where "obj_get (sq_seenEventIds sq) (se_eventId e) = None" "se_seq e = sq_headSeq sq + 1"
      "se_body e = TaskRegistered setId ids provider deps priority" "obj_get (sq_tasks sq) (se_taskId e) = None"
      "registeredTask e setId ids provider deps priority = Inr t" "sq' = withTask P sq e t"
  | (changed) t t' where "obj_get (sq_seenEventIds sq) (se_eventId e) = None" "se_seq e = sq_headSeq sq + 1"
      "obj_get (sq_tasks sq) (se_taskId e) = Some t" "sk_taskGeneration t = se_taskGeneration e" "nextTask P e t = Inr t'" "sq' = withTask P sq e t'"
  using assms
  by (cases "se_body e") (auto simp: applyMultiRepoSchedulerEvent_def requireTask_def split: if_splits option.splits)

lemma registered_task_ok: "registeredTask e s ids p ds pr = Inr t \<Longrightarrow> task_ok (se_taskId e) t \<and> sk_lease t = None \<and> sk_version t = 1 \<and> sk_state t = Waiting"
  by (auto simp: registeredTask_def task_ok_def leaseState_def)

definition sched_ok :: "SchedulerProjection \<Rightarrow> bool" where
  "sched_ok sq \<longleftrightarrow> obj_wf (sq_tasks sq) \<and> (\<forall>k t. obj_get (sq_tasks sq) k = Some t \<longrightarrow> task_ok k t)"

lemma sched_ok_step:
  assumes "sched_ok sq" "applyMultiRepoSchedulerEvent P sq e = Inr sq'"
  shows "sched_ok sq'"
  using assms(2)
proof (cases rule: apply_cases)
  case (registered setId ids provider deps priority t)
  with assms(1) registered_task_ok [OF registered(5)] show ?thesis by (auto simp: sched_ok_def withTask_def task_ok_def)
next
  case (changed t t')
  with assms(1) have ok: "task_ok (se_taskId e) t" by (simp add: sched_ok_def)
  with nextTask_ok [OF changed(5) ok] nextTask_plan [OF changed(5)] assms(1) changed(6) show ?thesis
    by (auto simp: sched_ok_def withTask_def task_ok_def)
qed (use assms in simp)

interpretation sched: event_fold "applyMultiRepoSchedulerEvent P" sched_ok for P
  by unfold_locales (rule sched_ok_step)

section \<open>Counting leases\<close>

text \<open>
  A class of leases that a heartbeat cannot change: only a grant raises the number of its live leases.
\<close>

definition contribution :: "(LeaseGrant \<Rightarrow> bool) \<Rightarrow> SchedulerTask \<Rightarrow> int" where
  "contribution q t = (case sk_lease t of None \<Rightarrow> 0 | Some l \<Rightarrow> if q (sl_grant l) then 1 else 0)"

lemma countLeases_sum: "countLeases q sq = sum_list (map (contribution q) (obj_values (sq_tasks sq)))"
proof -
  have "int (length (filter q (List.map_filter (\<lambda>t. map_option sl_grant (sk_lease t)) ts))) = sum_list (map (contribution q) ts)" for ts
    by (induction ts) (auto simp: contribution_def split: option.split)
  then show ?thesis by (simp add: countLeases_def liveLeases_def)
qed

lemma countLeases_set:
  assumes "obj_get (sq_tasks sq) k = Some t" "sq_tasks sq' = obj_set k t' (sq_tasks sq)"
  shows "countLeases q sq' = countLeases q sq - contribution q t + contribution q t'"
proof -
  obtain pre post where s: "sq_tasks sq = pre @ (k, t) # post" "obj_get pre k = None" by (rule obj_split [OF assms(1)])
  then have "sq_tasks sq' = pre @ (k, t') # post" using assms(2) by (simp add: obj_set_split)
  with s show ?thesis by (simp add: countLeases_sum obj_values_def)
qed

lemma countLeases_new:
  assumes "obj_get (sq_tasks sq) k = None" "sq_tasks sq' = obj_set k t (sq_tasks sq)"
  shows "countLeases q sq' = countLeases q sq + contribution q t"
  using assms by (simp add: countLeases_sum obj_values_append_new)

locale lease_class =
  fixes q :: "LeaseGrant \<Rightarrow> bool"
  assumes heartbeat_stable: "q (g\<lparr>lg_expiresAt := x\<rparr>) = q g"
begin

lemma contribution_falls:
  assumes "nextTask P e t = Inr t'" "\<And>v l. se_body e \<noteq> LeaseGranted v l"
  shows "contribution q t' \<le> contribution q t"
  using assms
  by (auto simp: nextTask_def handler_defs contribution_def heartbeat_stable leaseToken_def
      split: SchedulerBody.splits if_splits option.splits)

lemma count_falls:
  assumes "sched_ok sq" "applyMultiRepoSchedulerEvent P sq e = Inr sq'" "\<And>v l. se_body e \<noteq> LeaseGranted v l"
  shows "countLeases q sq' \<le> countLeases q sq"
  using assms(2)
proof (cases rule: apply_cases)
  case (registered setId ids provider deps priority t)
  note r = registered_task_ok [OF registered(5)]
  from countLeases_new [OF registered(4), of sq' t q] r registered(6) show ?thesis
    by (simp add: withTask_def task_ok_def contribution_def)
next
  case (changed t t')
  have "sk_taskId t' = se_taskId e" using changed(3,5) nextTask_plan assms(1) by (auto simp: sched_ok_def task_ok_def)
  with countLeases_set [OF changed(3), of sq' t' q] contribution_falls [OF changed(5) assms(3)] changed(6) show ?thesis
    by (simp add: withTask_def)
qed simp

lemma count_after_grant:
  assumes "sched_ok sq" "applyMultiRepoSchedulerEvent P sq e = Inr sq'" "se_body e = LeaseGranted v l"
  shows "countLeases q sq' \<le> countLeases q sq + (if q l then 1 else 0)"
  using assms(2)
proof (cases rule: apply_cases)
  case (changed t t')
  from changed(5) assms(3) have t': "t' = (touched e t)\<lparr>sk_state := TaskActive,
      sk_lease := Some \<lparr>sl_grant = l, sl_state = Admitted, sl_processIdentity = None, sl_uncertainReason = None\<rparr>\<rparr>" "sk_lease t = None"
    by (auto simp: nextTask_def onLeaseGranted_def guarded_def)
  have "sk_taskId t' = se_taskId e" using changed(3,5) nextTask_plan assms(1) by (auto simp: sched_ok_def task_ok_def)
  with countLeases_set [OF changed(3), of sq' t' q] changed(6) t' show ?thesis
    by (simp add: withTask_def contribution_def touched_def)
qed (use assms in simp_all)

end

interpretation all_leases: lease_class "\<lambda>_. True"
  by unfold_locales simp

interpretation provider_leases: lease_class "\<lambda>g. lg_providerId g = p" for p
  by unfold_locales simp

interpretation repository_leases: lease_class "\<lambda>g. r \<in> set (lg_repositoryIds g)" for r
  by unfold_locales simp

interpretation attempt_leases: lease_class "\<lambda>g. lg_attemptId g = a" for a
  by unfold_locales simp


section \<open>Histories whose grants come from the admission decision\<close>

inductive scheduled :: "SchedulerPrims \<Rightarrow> SchedulerConcurrencyLimits \<Rightarrow> SchedulerProjection \<Rightarrow> bool" for P L where
  start: "scheduled P L emptyProjection"
| other: "scheduled P L sq \<Longrightarrow> (\<And>v l. se_body e \<noteq> LeaseGranted v l) \<Longrightarrow> applyMultiRepoSchedulerEvent P sq e = Inr sq' \<Longrightarrow> scheduled P L sq'"
| admit: "scheduled P L sq \<Longrightarrow> ai_projection i = sq \<Longrightarrow> ai_limits i = L \<Longrightarrow> decideSchedulerAdmission P i = Inr (AdmissionGranted e) \<Longrightarrow>
    applyMultiRepoSchedulerEvent P sq e = Inr sq' \<Longrightarrow> scheduled P L sq'"

text \<open>What a granted decision has checked.\<close>

lemma granted_cases:
  assumes "decideSchedulerAdmission P i = Inr (AdmissionGranted e)"
  obtains t where "obj_get (sq_tasks (ai_projection i)) (ai_taskId i) = Some t" "e = grantEvent i t" "sk_lease t = None"
    "sk_state t \<notin> {TaskCompleted, TaskIsCancelled, TaskFailed, TaskUncertain}" "sk_version t = ai_expectedVersion i"
    "scopeBlock i t = None" "limitsOk (ai_limits i)" "capacityBlock i t = None" "parseMultiRepoSchedulerEvent P e"
  using assms by (auto simp: decideSchedulerAdmission_def split: option.splits if_splits)

definition dependencies_done :: "SchedulerProjection \<Rightarrow> SchedulerTask \<Rightarrow> bool" where
  "dependencies_done sq t \<longleftrightarrow> (\<forall>d \<in> set (sk_dependencies t). map_option sk_state (obj_get (sq_tasks sq) d) = Some TaskCompleted)"

lemma scopeBlock_dependencies: "scopeBlock i t = None \<Longrightarrow> dependencies_done (ai_projection i) t"
  by (auto simp: scopeBlock_def dependencies_done_def list_ex_iff split: if_splits)

lemma completed_step:
  assumes "sched_ok sq" "applyMultiRepoSchedulerEvent P sq e = Inr sq'"
    "map_option sk_state (obj_get (sq_tasks sq) d) = Some TaskCompleted"
  shows "map_option sk_state (obj_get (sq_tasks sq') d) = Some TaskCompleted"
  using assms(2)
proof (cases rule: apply_cases)
  case (registered setId ids provider deps priority t)
  with assms(3) registered_task_ok [OF registered(5)] show ?thesis by (auto simp: withTask_def task_ok_def)
next
  case (changed t t')
  then have ok: "task_ok (se_taskId e) t" using assms(1) by (simp add: sched_ok_def)
  have id: "sk_taskId t' = se_taskId e" using nextTask_plan [OF changed(5)] ok by (simp add: task_ok_def)
  show ?thesis using assms(3) changed(3,6) id completed_final [OF changed(5) ok] by (auto simp: withTask_def)
qed (use assms in simp)

definition leased_after_dependencies :: "SchedulerProjection \<Rightarrow> bool" where
  "leased_after_dependencies sq \<longleftrightarrow> (\<forall>k t. obj_get (sq_tasks sq) k = Some t \<longrightarrow> sk_lease t \<noteq> None \<longrightarrow> dependencies_done sq t)"

text \<open>A task is leased after an event only if it was leased before it, or the event is the grant.\<close>

lemma lease_origin:
  assumes "nextTask P e t = Inr t'" "sk_lease t' \<noteq> None" "\<And>v l. se_body e \<noteq> LeaseGranted v l"
  shows "sk_lease t \<noteq> None"
  using assms by (auto simp: nextTask_def handler_defs leaseToken_def split: SchedulerBody.splits if_splits)

lemma leased_after_dependencies_step:
  assumes ok: "sched_ok sq" and ap: "applyMultiRepoSchedulerEvent P sq e = Inr sq'" and dep: "leased_after_dependencies sq"
    and grant: "\<And>v l t. se_body e = LeaseGranted v l \<Longrightarrow> obj_get (sq_tasks sq) (se_taskId e) = Some t \<Longrightarrow> dependencies_done sq t"
  shows "leased_after_dependencies sq'"
proof -
  have keep: "dependencies_done sq t \<Longrightarrow> dependencies_done sq' t" for t
    using completed_step [OF ok ap] unfolding dependencies_done_def by blast
  show ?thesis using ap
  proof (cases rule: apply_cases)
    case (registered setId ids provider deps priority t)
    then show ?thesis using dep keep registered_task_ok [OF registered(5)]
      by (auto simp: leased_after_dependencies_def withTask_def)
  next
    case (changed t t')
    have plan: "sk_taskId t' = se_taskId e" "sk_dependencies t' = sk_dependencies t"
      using nextTask_plan [OF changed(5)] changed(3) ok by (auto simp: sched_ok_def task_ok_def)
    have "dependencies_done sq t" if "sk_lease t' \<noteq> None"
      using that lease_origin [OF changed(5)] grant [OF _ changed(3)] dep changed(3) unfolding leased_after_dependencies_def by blast
    then have "dependencies_done sq' t'" if "sk_lease t' \<noteq> None" using that keep plan(2) by (simp add: dependencies_done_def)
    then show ?thesis using dep keep plan(1) changed(6)
      by (auto simp: leased_after_dependencies_def withTask_def)
  qed (use dep in simp)
qed

definition within_limits :: "SchedulerConcurrencyLimits \<Rightarrow> SchedulerProjection \<Rightarrow> bool" where
  "within_limits L sq \<longleftrightarrow> countLeases (\<lambda>_. True) sq \<le> cl_global L \<and>
     (\<forall>p. countLeases (\<lambda>g. lg_providerId g = p) sq \<le> cl_perProvider L) \<and>
     (\<forall>r. countLeases (\<lambda>g. r \<in> set (lg_repositoryIds g)) sq \<le> cl_perRepository L) \<and>
     (\<forall>a. countLeases (\<lambda>g. lg_attemptId g = a) sq \<le> cl_perTask L)"

lemma within_limits_falls:
  assumes "sched_ok sq" "applyMultiRepoSchedulerEvent P sq e = Inr sq'" "\<And>v l. se_body e \<noteq> LeaseGranted v l" "within_limits L sq"
  shows "within_limits L sq'"
  using assms(4) all_leases.count_falls [OF assms(1-3)] provider_leases.count_falls [OF assms(1-3)]
    repository_leases.count_falls [OF assms(1-3)] attempt_leases.count_falls [OF assms(1-3)]
  unfolding within_limits_def by (meson order_trans)

lemma within_limits_grant:
  assumes "sched_ok sq" "applyMultiRepoSchedulerEvent P sq (grantEvent i t) = Inr sq'" "ai_projection i = sq"
    "capacityBlock i t = None" "within_limits (ai_limits i) sq"
  shows "within_limits (ai_limits i) sq'"
proof -
  obtain v l where b: "se_body (grantEvent i t) = LeaseGranted v l" and l: "lg_providerId l = sk_providerId t"
      "lg_repositoryIds l = sk_repositoryIds t" "lg_attemptId l = lr_attemptId (ai_lease i)"
    by (simp add: grantEvent_def Let_def)
  from assms(3,4) have room: "countLeases (\<lambda>_. True) sq < cl_global (ai_limits i)"
      "countLeases (\<lambda>g. lg_providerId g = lg_providerId l) sq < cl_perProvider (ai_limits i)"
      "\<And>r. r \<in> set (lg_repositoryIds l) \<Longrightarrow> countLeases (\<lambda>g. r \<in> set (lg_repositoryIds g)) sq < cl_perRepository (ai_limits i)"
      "countLeases (\<lambda>g. lg_attemptId g = lg_attemptId l) sq < cl_perTask (ai_limits i)"
    by (auto simp: capacityBlock_def Let_def list_ex_iff l split: if_splits)
  note grow = all_leases.count_after_grant [OF assms(1,2) b] provider_leases.count_after_grant [OF assms(1,2) b]
    repository_leases.count_after_grant [OF assms(1,2) b] attempt_leases.count_after_grant [OF assms(1,2) b]
  have "countLeases (\<lambda>g. lg_providerId g = p) sq' \<le> cl_perProvider (ai_limits i)" for p
    using grow(2) [of p] room(2) assms(5) by (cases "lg_providerId l = p") (auto simp: within_limits_def intro: order_trans)
  moreover have "countLeases (\<lambda>g. r \<in> set (lg_repositoryIds g)) sq' \<le> cl_perRepository (ai_limits i)" for r
    using grow(3) [of r] room(3) [of r] assms(5) by (cases "r \<in> set (lg_repositoryIds l)") (auto simp: within_limits_def intro: order_trans)
  moreover have "countLeases (\<lambda>g. lg_attemptId g = a) sq' \<le> cl_perTask (ai_limits i)" for a
    using grow(4) [of a] room(4) assms(5) by (cases "lg_attemptId l = a") (auto simp: within_limits_def intro: order_trans)
  ultimately show ?thesis using grow(1) room(1) by (simp add: within_limits_def)
qed

lemma scheduled_invariant:
  assumes "scheduled P L sq" "limitsOk L"
  shows "sched_ok sq \<and> within_limits L sq \<and> leased_after_dependencies sq"
  using assms(1)
proof induction
  case start
  show ?case using assms(2)
    by (simp add: sched_ok_def emptyProjection_def within_limits_def leased_after_dependencies_def countLeases_def liveLeases_def limitsOk_def limitOk_def)
next
  case (other sq e sq')
  then show ?case using sched_ok_step within_limits_falls [of sq P e sq' L] leased_after_dependencies_step [of sq P e sq'] by blast
next
  case (admit sq i e sq')
  from admit.hyps(4) obtain t where t: "obj_get (sq_tasks (ai_projection i)) (ai_taskId i) = Some t" "e = grantEvent i t"
    "scopeBlock i t = None" "capacityBlock i t = None" by (rule granted_cases)
  have id: "sk_taskId t = ai_taskId i" using t(1) admit by (simp add: sched_ok_def task_ok_def)
  have "se_taskId e = ai_taskId i" using t(2) id by (simp add: grantEvent_def Let_def)
  then have dep: "dependencies_done sq u" if "obj_get (sq_tasks sq) (se_taskId e) = Some u" for u
    using that t(1,3) scopeBlock_dependencies [of i t] admit.hyps(2) by simp
  have "within_limits L sq'" using within_limits_grant [of sq P i t sq'] admit t(2,4) by blast
  moreover have "leased_after_dependencies sq'"
    by (rule leased_after_dependencies_step [OF _ admit.hyps(5)]) (use admit dep in blast)+
  ultimately show ?case using admit sched_ok_step by blast
qed


section \<open>Every accepted history\<close>

text \<open>Priorities stay in the range of the schema, and a dirty task knows the event that dirtied it.\<close>

definition aging_task :: "int \<Rightarrow> SchedulerTask \<Rightarrow> bool" where
  "aging_task head t \<longleftrightarrow> - 1000 \<le> sk_priority t \<and> sk_priority t \<le> 1000 \<and>
     (sk_dirty t \<longrightarrow> sk_dirtySinceSeq t \<noteq> None) \<and> (\<forall>s. sk_dirtySinceSeq t = Some s \<longrightarrow> s \<le> head)"

definition aging_ok :: "SchedulerProjection \<Rightarrow> bool" where
  "aging_ok sq \<longleftrightarrow> sched_ok sq \<and> (\<forall>k t. obj_get (sq_tasks sq) k = Some t \<longrightarrow> aging_task (sq_headSeq sq) t)"

lemma aging_task_later: "aging_task h t \<Longrightarrow> h \<le> h' \<Longrightarrow> aging_task h' t"
  by (auto simp: aging_task_def)

lemma nextTask_aging:
  assumes "nextTask P e t = Inr t'" "aging_task (se_seq e) t"
  shows "aging_task (se_seq e) t'"
  using assms by (auto simp: aging_task_def nextTask_def handler_defs split: SchedulerBody.splits if_splits option.splits)

lemma registered_aging:
  assumes "parseMultiRepoSchedulerEvent P e" "se_body e = TaskRegistered setId ids provider deps priority"
    "registeredTask e setId ids provider deps priority = Inr t"
  shows "aging_task (se_seq e) t"
  using assms by (auto simp: aging_task_def registeredTask_def parseMultiRepoSchedulerEvent_def bodySchemaOk_def)

lemma apply_parsed: "applyMultiRepoSchedulerEvent P sq e = Inr sq' \<Longrightarrow> parseMultiRepoSchedulerEvent P e"
  by (auto simp: applyMultiRepoSchedulerEvent_def split: if_splits)

lemma aging_ok_withTask:
  assumes "aging_ok sq" "sched_ok (withTask P sq e t)" "aging_task (se_seq e) t" "sq_headSeq sq \<le> se_seq e"
  shows "aging_ok (withTask P sq e t)"
  using assms by (auto simp: aging_ok_def withTask_def intro: aging_task_later [OF _ assms(4)])

lemma aging_ok_step:
  assumes "aging_ok sq" "applyMultiRepoSchedulerEvent P sq e = Inr sq'"
  shows "aging_ok sq'"
proof -
  have ok: "sched_ok sq'" using assms sched_ok_step by (auto simp: aging_ok_def)
  show ?thesis using assms(2)
  proof (cases rule: apply_cases)
    case (registered setId ids provider deps priority t)
    with ok aging_ok_withTask [OF assms(1)] registered_aging [OF apply_parsed [OF assms(2)] registered(3,5)] show ?thesis by simp
  next
    case (changed t t')
    from assms(1) changed(3) have "aging_task (sq_headSeq sq) t" by (auto simp: aging_ok_def)
    then have "aging_task (se_seq e) t" using aging_task_later changed(2) by simp
    with ok changed aging_ok_withTask [OF assms(1)] nextTask_aging [OF changed(5)] show ?thesis by simp
  qed (use assms in simp)
qed

interpretation aging: event_fold "applyMultiRepoSchedulerEvent P" aging_ok for P
  by unfold_locales (rule aging_ok_step)

lemma history_aging_ok: "reduceMultiRepoSchedulerEvents P es = Inr sq \<Longrightarrow> aging_ok sq"
  unfolding reduceMultiRepoSchedulerEvents_def
  by (rule aging.replay_inv) (simp_all add: aging_ok_def sched_ok_def emptyProjection_def)

text \<open>The chosen task is a reconcilable task of the greatest aged priority.\<close>

lemma sort_key_head: "sort_key f xs = y # ys \<Longrightarrow> y \<in> set xs \<and> (\<forall>x \<in> set xs. f y \<le> f x)"
  by (metis list.set_intros(1) list.simps(9) set_ConsD set_sort sorted_simps(2) sorted_sort_key image_eqI image_set order_refl)

definition reconcile_key :: "SchedulerProjection \<Rightarrow> SchedulerTask \<Rightarrow> int \<times> int \<times> nat list \<times> nat list" where
  "reconcile_key sq t = (- (sk_priority t + agingBoost sq t), case sk_dirtySinceSeq t of None \<Rightarrow> 0 | Some s \<Rightarrow> s, collate_key (sk_taskId t))"

lemma choose_by_key: "chooseNextReconciliation sq =
    (case sort_key (reconcile_key sq) (filter reconcilable (obj_values (sq_tasks sq))) of [] \<Rightarrow> None | t # _ \<Rightarrow> Some t)"
  by (simp add: chooseNextReconciliation_def reconcile_key_def [abs_def])

lemma reconcile_key_le: "reconcile_key sq t \<le> reconcile_key sq u \<Longrightarrow> sk_priority u + agingBoost sq u \<le> sk_priority t + agingBoost sq t"
  by (auto simp: reconcile_key_def less_eq_prod_def)

lemma chosen_greatest:
  assumes "chooseNextReconciliation sq = Some t"
  shows "t \<in> set (obj_values (sq_tasks sq))" "reconcilable t"
    and "u \<in> set (obj_values (sq_tasks sq)) \<Longrightarrow> reconcilable u \<Longrightarrow> sk_priority u + agingBoost sq u \<le> sk_priority t + agingBoost sq t"
proof -
  from assms obtain ts where "sort_key (reconcile_key sq) (filter reconcilable (obj_values (sq_tasks sq))) = t # ts"
    by (auto simp: choose_by_key split: list.splits)
  from sort_key_head [OF this] show "t \<in> set (obj_values (sq_tasks sq))" "reconcilable t"
    "u \<in> set (obj_values (sq_tasks sq)) \<Longrightarrow> reconcilable u \<Longrightarrow> sk_priority u + agingBoost sq u \<le> sk_priority t + agingBoost sq t"
    by (auto intro: reconcile_key_le)
qed

lemma chosen_some:
  assumes "u \<in> set (obj_values (sq_tasks sq))" "reconcilable u"
  obtains t where "chooseNextReconciliation sq = Some t"
proof -
  have "u \<in> set (sort_key (reconcile_key sq) (filter reconcilable (obj_values (sq_tasks sq))))" using assms by simp
  then show thesis using that by (cases "sort_key (reconcile_key sq) (filter reconcilable (obj_values (sq_tasks sq)))") (auto simp: choose_by_key)
qed


lemma overtaking:
  fixes a b g h d d' :: int
  assumes "min 2048 a - g \<le> b" "h - d < 32 * a + 32" "32 * b \<le> h - d'"
  shows "d' < d + 32 * (g + 1) \<or> d' + 32 * (2048 - g) \<le> h"
  using assms by (cases "2048 \<le> a") simp_all

section \<open>The grant of a decision\<close>

lemma granted_apply:
  assumes ok: "sched_ok sq" and i: "ai_projection i = sq" and d: "decideSchedulerAdmission P i = Inr (AdmissionGranted e)"
    and fresh: "obj_get (sq_seenEventIds sq) (lr_eventId (ai_lease i)) = None"
    and time: "sd_dateParse P (lr_issuedAt (ai_lease i)) < sd_dateParse P (lr_expiresAt (ai_lease i))"
  obtains t t' where "obj_get (sq_tasks sq) (ai_taskId i) = Some t" "sk_lease t = None" "nextTask P e t = Inr t'"
    "applyMultiRepoSchedulerEvent P sq e = Inr (withTask P sq e t')" "sk_taskId t' = ai_taskId i"
proof -
  from d obtain t where t: "obj_get (sq_tasks (ai_projection i)) (ai_taskId i) = Some t" "e = grantEvent i t" "sk_lease t = None"
    "sk_state t \<notin> {TaskCompleted, TaskIsCancelled, TaskFailed, TaskUncertain}" "parseMultiRepoSchedulerEvent P e"
    by (rule granted_cases)
  have tok: "task_ok (ai_taskId i) t" using ok t(1) i by (auto simp: sched_ok_def)
  have w: "sk_state t = Waiting" using tok t(3,4) by (cases "sk_state t") (auto simp: task_ok_def)
  obtain t' where t': "nextTask P e t = Inr t'"
    using t(2,3) w time by (auto simp: nextTask_def onLeaseGranted_def guarded_def grantEvent_def Let_def)
  have "applyMultiRepoSchedulerEvent P sq e = Inr (withTask P sq e t')"
    using t t' i tok fresh by (simp add: applyMultiRepoSchedulerEvent_def requireTask_def grantEvent_def Let_def task_ok_def)
  with that [OF _ t(3) t'] t(1) i tok nextTask_plan [OF t'] show thesis by (simp add: task_ok_def)
qed


section \<open>The lease protocol the scheduler implements\<close>

text \<open>
  Abstractly a task is unregistered, free, held under a lease token, stuck under one, or out of the protocol; a
  task that is stuck stays stuck.
\<close>

datatype lease_view = Free | Held string | Stuck string | Finished | Dropped | Broken

definition leaseView :: "SchedulerTask \<Rightarrow> lease_view" where
  "leaseView t = (case sk_state t of
     Waiting \<Rightarrow> Free
   | TaskActive \<Rightarrow> Held (case leaseToken t of Some tok \<Rightarrow> tok | None \<Rightarrow> [])
   | TaskUncertain \<Rightarrow> Stuck (case leaseToken t of Some tok \<Rightarrow> tok | None \<Rightarrow> [])
   | TaskCompleted \<Rightarrow> Finished | TaskIsCancelled \<Rightarrow> Dropped | TaskFailed \<Rightarrow> Broken)"

definition leaseViews :: "SchedulerProjection \<Rightarrow> string \<Rightarrow> lease_view option" where
  "leaseViews sq k = map_option leaseView (obj_get (sq_tasks sq) k)"

inductive lease_step :: "(string \<Rightarrow> lease_view option) \<Rightarrow> (string \<Rightarrow> lease_view option) \<Rightarrow> bool" where
  stutter: "lease_step v v"
| register: "v k = None \<Longrightarrow> lease_step v (v(k \<mapsto> Free))"
| grant: "v k = Some Free \<Longrightarrow> lease_step v (v(k \<mapsto> Held tok))"
| release: "v k = Some (Held tok) \<Longrightarrow> w \<in> {Free, Finished, Dropped, Broken} \<Longrightarrow> lease_step v (v(k \<mapsto> w))"
| lose: "v k = Some (Held tok) \<Longrightarrow> lease_step v (v(k \<mapsto> Stuck tok))"
| cancel: "v k = Some w \<Longrightarrow> w \<in> {Free, Broken} \<Longrightarrow> lease_step v (v(k \<mapsto> Dropped))"

inductive_cases lease_stepE: "lease_step v v'"

lemma stuck_forever: "lease_step v v' \<Longrightarrow> v k = Some (Stuck tok) \<Longrightarrow> v' k = Some (Stuck tok)"
  by (auto elim!: lease_stepE)

text \<open>One task: the step of the protocol that an accepted event is.\<close>

lemma nextTask_view:
  assumes "nextTask P e t = Inr t'" "task_ok k t" "v k = Some (leaseView t)"
  shows "lease_step v (v(k \<mapsto> leaseView t'))"
proof -
  have same: "lease_step v (v(k \<mapsto> leaseView t'))" if "leaseView t' = leaseView t"
    using that assms(3) lease_step.stutter [of v] by (simp add: map_upd_triv)
  have tok: "\<exists>tok. leaseToken t = Some tok" if "sk_lease t \<noteq> None" using that by (auto simp: leaseToken_def)
  consider "leaseView t' = leaseView t" | tok where "leaseView t = Free" "leaseView t' = Held tok"
    | tok where "leaseView t = Held tok" "leaseView t' \<in> {Free, Finished, Dropped, Broken}"
    | tok where "leaseView t = Held tok" "leaseView t' = Stuck tok"
    | "leaseView t \<in> {Free, Broken}" "leaseView t' = Dropped"
    using assms(1,2) tok
    by (cases "sk_state t")
      (auto simp: nextTask_def handler_defs leaseView_def leaseToken_def leaseState_def terminalTask_def task_ok_def
        split: SchedulerBody.splits if_splits option.splits ReleaseOutcome.splits)
  then show ?thesis
    by cases (use same assms(3) in \<open>auto intro: lease_step.intros\<close>)
qed

lemma apply_view:
  assumes "sched_ok sq" "applyMultiRepoSchedulerEvent P sq e = Inr sq'"
  shows "lease_step (leaseViews sq) (leaseViews sq')"
  using assms(2)
proof (cases rule: apply_cases)
  case seen
  then show ?thesis by (simp add: lease_step.stutter)
next
  case (registered setId ids provider deps priority t)
  note r = registered_task_ok [OF registered(5)]
  have "leaseViews sq' = (leaseViews sq)(se_taskId e \<mapsto> Free)"
    using r registered(6) by (auto simp: leaseViews_def withTask_def task_ok_def leaseView_def fun_eq_iff)
  then show ?thesis using registered(4) by (simp add: lease_step.register leaseViews_def)
next
  case (changed t t')
  have ok: "task_ok (se_taskId e) t" using assms(1) changed(3) by (simp add: sched_ok_def)
  have "leaseViews sq' = (leaseViews sq)(se_taskId e \<mapsto> leaseView t')"
    using changed(6) nextTask_plan [OF changed(5)] ok by (auto simp: leaseViews_def withTask_def task_ok_def fun_eq_iff)
  then show ?thesis using nextTask_view [OF changed(5) ok, of "leaseViews sq"] changed(3) by (simp add: leaseViews_def)
qed

section \<open>Properties\<close>

text \<open>
  C19. In every history whose lease grants come from the admission decision under the limits \<open>L\<close>, the live leases
  (uncertain ones included) never exceed the global limit, nor the limit of any provider, repository or attempt,
  and every leased task has all of its dependencies completed.
\<close>

theorem scheduler_capacity:
  assumes "limitsOk L" "scheduled P L sq"
  shows "countLeases (\<lambda>_. True) sq \<le> cl_global L \<and>
    (\<forall>p. countLeases (\<lambda>g. lg_providerId g = p) sq \<le> cl_perProvider L) \<and>
    (\<forall>r. countLeases (\<lambda>g. r \<in> set (lg_repositoryIds g)) sq \<le> cl_perRepository L) \<and>
    (\<forall>a. countLeases (\<lambda>g. lg_attemptId g = a) sq \<le> cl_perTask L) \<and>
    (\<forall>k t d. obj_get (sq_tasks sq) k = Some t \<longrightarrow> sk_lease t \<noteq> None \<longrightarrow> d \<in> set (sk_dependencies t) \<longrightarrow>
       map_option sk_state (obj_get (sq_tasks sq) d) = Some TaskCompleted)"
  using scheduled_invariant [OF assms(2,1)]
  unfolding within_limits_def leased_after_dependencies_def dependencies_done_def by blast

text \<open>
  A granted admission decision is a lease event that the reducer accepts on the same projection, provided its
  event identifier is new and the lease expires after it was issued: the task becomes active with exactly the
  requested lease, the number of live leases grows by one, and no other task changes.
\<close>

theorem scheduler_admission_accepted:
  assumes "reduceMultiRepoSchedulerEvents P es = Inr sq" "ai_projection i = sq" "decideSchedulerAdmission P i = Inr (AdmissionGranted e)"
    "obj_get (sq_seenEventIds sq) (lr_eventId (ai_lease i)) = None"
    "sd_dateParse P (lr_issuedAt (ai_lease i)) < sd_dateParse P (lr_expiresAt (ai_lease i))"
  shows "\<exists>sq' t' g. applyMultiRepoSchedulerEvent P sq e = Inr sq' \<and> obj_get (sq_tasks sq') (ai_taskId i) = Some t' \<and>
    sk_state t' = TaskActive \<and> map_option sl_grant (sk_lease t') = Some g \<and> leaseState t' = Some Admitted \<and>
    lg_leaseToken g = lr_leaseToken (ai_lease i) \<and> lg_attemptId g = lr_attemptId (ai_lease i) \<and>
    sk_version t' = ai_expectedVersion i + 1 \<and>
    countLeases (\<lambda>_. True) sq' = countLeases (\<lambda>_. True) sq + 1 \<and>
    (\<forall>k. k \<noteq> ai_taskId i \<longrightarrow> obj_get (sq_tasks sq') k = obj_get (sq_tasks sq) k)"
proof -
  have ok: "sched_ok sq" using history_aging_ok [OF assms(1)] by (simp add: aging_ok_def)
  from granted_apply [OF ok assms(2-5)] obtain t t' where a: "obj_get (sq_tasks sq) (ai_taskId i) = Some t" "sk_lease t = None"
    "nextTask P e t = Inr t'" "applyMultiRepoSchedulerEvent P sq e = Inr (withTask P sq e t')" "sk_taskId t' = ai_taskId i" .
  from assms(3) obtain e_def: "e = grantEvent i t" and ver: "sk_version t = ai_expectedVersion i"
    by (rule granted_cases) (use a(1) assms(2) in auto)
  have n: "countLeases (\<lambda>_. True) (withTask P sq e t') = countLeases (\<lambda>_. True) sq - contribution (\<lambda>_. True) t + contribution (\<lambda>_. True) t'"
    by (rule countLeases_set [OF a(1)]) (simp add: withTask_def a(5))
  have "obj_get (sq_tasks (withTask P sq e t')) k = (if k = ai_taskId i then Some t' else obj_get (sq_tasks sq) k)" for k
    by (simp add: withTask_def a(5))
  with a(2-4) n ver nextTask_plan [OF a(3)] show ?thesis
    by (auto simp: e_def nextTask_def onLeaseGranted_def guarded_def grantEvent_def Let_def touched_def leaseState_def contribution_def)
qed

text \<open>
  C32. Aging bounds overtaking. In every accepted history, if a task \<open>u\<close> is dirty and not in process then some task
  \<open>t\<close> is chosen; and with \<open>g\<close> the lead of its priority over that of \<open>u\<close> (never above \<open>2000\<close>), \<open>t\<close> was dirtied less
  than \<open>32 (g + 1)\<close> events after \<open>u\<close>, or has itself waited \<open>32 (2048 - g)\<close> events (the boost of \<open>u\<close> having
  reached its maximum): newly dirtied work cannot starve a waiting task.
\<close>

theorem scheduler_aging:
  assumes "reduceMultiRepoSchedulerEvents P es = Inr sq" "obj_get (sq_tasks sq) k = Some u" "reconcilable u"
    "sk_dirtySinceSeq u = Some d"
  shows "\<exists>t d' g. chooseNextReconciliation sq = Some t \<and> sk_dirtySinceSeq t = Some d' \<and> g = sk_priority t - sk_priority u \<and> g \<le> 2000 \<and>
    (d' < d + 32 * (g + 1) \<or> d' + 32 * (2048 - g) \<le> sq_headSeq sq)"
proof -
  have ok: "sched_ok sq" "\<And>k t. obj_get (sq_tasks sq) k = Some t \<Longrightarrow> aging_task (sq_headSeq sq) t"
    using history_aging_ok [OF assms(1)] by (auto simp: aging_ok_def)
  have u: "u \<in> set (obj_values (sq_tasks sq))" using assms(2) by (rule obj_get_in_values)
  obtain t where t: "chooseNextReconciliation sq = Some t" using chosen_some [OF u assms(3)] .
  obtain k' where "obj_get (sq_tasks sq) k' = Some t" using chosen_greatest(1) [OF t] ok(1) by (auto simp: sched_ok_def in_obj_values)
  then have at: "aging_task (sq_headSeq sq) t" using ok(2) by blast
  obtain d' where d': "sk_dirtySinceSeq t = Some d'" using at chosen_greatest(2) [OF t] by (auto simp: aging_task_def reconcilable_def)
  define g where "g = sk_priority t - sk_priority u"
  have "g \<le> 2000" using ok(2) [OF assms(2)] at by (simp add: aging_task_def g_def)
  moreover have boost: "min 2048 ((sq_headSeq sq - d) div 32) - g \<le> (sq_headSeq sq - d') div 32"
    using chosen_greatest(3) [OF t u assms(3)] by (simp add: agingBoost_def maximumAgingBoost_def agingIntervalSeq_def d' assms(4) g_def)
  have "d' < d + 32 * (g + 1) \<or> d' + 32 * (2048 - g) \<le> sq_headSeq sq"
    by (rule overtaking [OF boost]) linarith+
  ultimately show ?thesis using t d' g_def by blast
qed

text \<open>
  C20. The reducer refines the lease protocol: in every accepted history, an accepted event is one step of
  \<open>lease_step\<close> on the protocol view of the tasks (so a lease is granted only on a free task, and only a held
  one is released), and a task whose lease became uncertain stays under that lease whatever follows.
\<close>

theorem scheduler_refines_lease:
  assumes "reduceMultiRepoSchedulerEvents P es = Inr sq" "reduceMultiRepoSchedulerEvents P (es @ e # fs) = Inr sq''"
  shows "\<exists>sq'. applyMultiRepoSchedulerEvent P sq e = Inr sq' \<and> lease_step (leaseViews sq) (leaseViews sq') \<and>
    (\<forall>k tok. leaseViews sq k = Some (Stuck tok) \<longrightarrow> leaseViews sq'' k = Some (Stuck tok))"
proof -
  have ok: "sched_ok sq" using history_aging_ok [OF assms(1)] by (simp add: aging_ok_def)
  from assms obtain sq' where a: "applyMultiRepoSchedulerEvent P sq e = Inr sq'" "fold_res (applyMultiRepoSchedulerEvent P) sq' fs = Inr sq''"
    by (auto simp: reduceMultiRepoSchedulerEvents_def fold_res_append split: sum.splits)
  have later: "v k = Some (Stuck tok)" if "fold_res (applyMultiRepoSchedulerEvent P) s fs = Inr s''" "sched_ok s" "leaseViews s k = Some (Stuck tok)" "v = leaseViews s''"
    for s s'' k tok fs v
    using that
  proof (induction fs arbitrary: s)
    case (Cons f fs)
    then obtain s1 where s1: "applyMultiRepoSchedulerEvent P s f = Inr s1" "fold_res (applyMultiRepoSchedulerEvent P) s1 fs = Inr s''" by (auto split: sum.splits)
    from stuck_forever [OF apply_view [OF Cons.prems(2) s1(1)] Cons.prems(3)] Cons.IH [OF s1(2) sched_ok_step [OF Cons.prems(2) s1(1)]] Cons.prems(4)
    show ?case by blast
  qed simp
  note step = apply_view [OF ok a(1)]
  with a(1) later [OF a(2) sched_ok_step [OF ok a(1)] stuck_forever [OF step]] show ?thesis by blast
qed

section \<open>Witnesses\<close>

definition sample_prims :: SchedulerPrims where
  "sample_prims = \<lparr>sd_dateParse = (\<lambda>s. if s = ''2026-01-01T00:00:00.000Z'' then 0 else 1), sd_timestampOk = (\<lambda>s. length s = 24),
     sd_eventDigest = se_eventId, sd_deadEvidence = (\<lambda>_. replicate 64 (CHR ''e''))\<rparr>"

definition sample_event :: "int \<Rightarrow> string \<Rightarrow> string \<Rightarrow> SchedulerBody \<Rightarrow> SchedulerEvent" where
  "sample_event n i k b = \<lparr>se_seq = n, se_eventId = i, se_occurredAt = ''2026-01-01T00:00:00.000Z'', se_taskId = k, se_taskGeneration = 1, se_body = b\<rparr>"

definition sample_registrations :: "SchedulerEvent list" where
  "sample_registrations =
     [sample_event 1 ''e1'' ''build'' (TaskRegistered (replicate 64 (CHR ''a'')) [''api''] ''claude'' [] 0),
      sample_event 2 ''e2'' ''ship'' (TaskRegistered (replicate 64 (CHR ''b'')) [''web''] ''claude'' [''build''] 5)]"

definition sample_projection :: SchedulerProjection where
  "sample_projection = (case reduceMultiRepoSchedulerEvents sample_prims sample_registrations of Inl _ \<Rightarrow> emptyProjection | Inr sq \<Rightarrow> sq)"

definition sample_limits :: SchedulerConcurrencyLimits where
  "sample_limits = \<lparr>cl_global = 4, cl_perProvider = 1, cl_perRepository = 1, cl_perTask = 1\<rparr>"

definition sample_request :: "string \<Rightarrow> AdmissionInput" where
  "sample_request k = \<lparr>ai_projection = sample_projection, ai_taskId = k, ai_expectedVersion = 1, ai_repositorySetId = replicate 64 (CHR ''a''),
     ai_roleRepositoryIds = [''api''], ai_providerRepositoryIds = [''api''], ai_budgetAvailable = True, ai_limits = sample_limits,
     ai_lease = \<lparr>lr_eventId = ''e3'', lr_occurredAt = ''2026-01-01T00:00:00.000Z'', lr_leaseToken = replicate 64 (CHR ''c''),
       lr_leaseVersion = 1, lr_attemptId = ''attempt-1'', lr_ownerId = ''worker'', lr_ownerIncarnation = ''worker:1'',
       lr_issuedAt = ''2026-01-01T00:00:00.000Z'', lr_expiresAt = ''2026-01-01T00:05:00.000Z''\<rparr>\<rparr>"

definition sample_grant :: SchedulerEvent where
  "sample_grant = (case decideSchedulerAdmission sample_prims (sample_request ''build'') of Inr (AdmissionGranted e) \<Rightarrow> e | _ \<Rightarrow> hd sample_registrations)"

definition sample_leased :: SchedulerProjection where
  "sample_leased = (case applyMultiRepoSchedulerEvent sample_prims sample_projection sample_grant of Inl _ \<Rightarrow> emptyProjection | Inr sq \<Rightarrow> sq)"

lemma sample_reduce: "reduceMultiRepoSchedulerEvents sample_prims sample_registrations = Inr sample_projection"
  by code_simp

lemma sample_decided: "decideSchedulerAdmission sample_prims (sample_request ''build'') = Inr (AdmissionGranted sample_grant)"
  by code_simp

lemma sample_applied: "applyMultiRepoSchedulerEvent sample_prims sample_projection sample_grant = Inr sample_leased"
  by code_simp

lemma sample_request_sel [simp]: "ai_projection (sample_request k) = sample_projection" "ai_limits (sample_request k) = sample_limits"
  by (simp_all add: sample_request_def)

lemma scheduled_history:
  assumes "fold_res (applyMultiRepoSchedulerEvent P) sq es = Inr sq'" "scheduled P L sq" "list_all (\<lambda>e. \<forall>v l. se_body e \<noteq> LeaseGranted v l) es"
  shows "scheduled P L sq'"
  using assms
proof (induction es arbitrary: sq)
  case (Cons e es)
  from Cons.prems(1) obtain sq1 where a: "applyMultiRepoSchedulerEvent P sq e = Inr sq1" "fold_res (applyMultiRepoSchedulerEvent P) sq1 es = Inr sq'"
    by (auto split: sum.splits)
  have "scheduled P L sq1" by (rule scheduled.other [OF Cons.prems(2) _ a(1)]) (use Cons.prems(3) in simp)
  then show ?case using Cons.IH [OF a(2)] Cons.prems(3) by simp
qed simp

lemma sample_scheduled: "scheduled sample_prims sample_limits sample_leased"
proof (rule scheduled.admit [OF _ _ _ sample_decided sample_applied])
  show "scheduled sample_prims sample_limits sample_projection"
    by (rule scheduled_history [OF sample_reduce [unfolded reduceMultiRepoSchedulerEvents_def] scheduled.start])
      (simp add: sample_registrations_def sample_event_def)
qed simp_all

theorem scheduler_capacity_witness:
  "limitsOk sample_limits \<and> scheduled sample_prims sample_limits sample_leased \<and>
   countLeases (\<lambda>g. lg_providerId g = ''claude'') sample_leased \<le> cl_perProvider sample_limits \<and>
   countLeases (\<lambda>g. lg_providerId g = ''claude'') sample_leased = 1"
proof -
  have l: "limitsOk sample_limits" by code_simp
  have "countLeases (\<lambda>g. lg_providerId g = ''claude'') sample_leased = 1" by code_simp
  with scheduler_capacity [OF l sample_scheduled] l sample_scheduled show ?thesis by blast
qed

theorem scheduler_admission_accepted_witness:
  "\<exists>(sq' :: SchedulerProjection). applyMultiRepoSchedulerEvent sample_prims sample_projection sample_grant = Inr sq' \<and>
     countLeases (\<lambda>_. True) sq' = countLeases (\<lambda>_. True) sample_projection + 1"
proof -
  have "obj_get (sq_seenEventIds sample_projection) (lr_eventId (ai_lease (sample_request ''build''))) = None" by code_simp
  moreover have "sd_dateParse sample_prims (lr_issuedAt (ai_lease (sample_request ''build''))) <
      sd_dateParse sample_prims (lr_expiresAt (ai_lease (sample_request ''build'')))" by code_simp
  ultimately show ?thesis
    using scheduler_admission_accepted [OF sample_reduce _ sample_decided] by auto
qed

theorem scheduler_aging_witness:
  "\<exists>(u :: SchedulerTask) (t :: SchedulerTask) d'. obj_get (sq_tasks sample_projection) ''build'' = Some u \<and> reconcilable u \<and>
     chooseNextReconciliation sample_projection = Some t \<and> sk_taskId t = ''ship'' \<and> sk_dirtySinceSeq t = Some d' \<and> d' < 1 + 32 * 6"
proof -
  have u: "map_option (\<lambda>u. (reconcilable u, sk_dirtySinceSeq u, sk_priority u)) (obj_get (sq_tasks sample_projection) ''build'') = Some (True, Some 1, 0)"
    by code_simp
  have t: "map_option (\<lambda>t. (sk_taskId t, sk_priority t, sk_dirtySinceSeq t)) (chooseNextReconciliation sample_projection) = Some (''ship'', 5, Some 2)"
    by code_simp
  have h: "sq_headSeq sample_projection = 2" by code_simp
  from u obtain u where u': "obj_get (sq_tasks sample_projection) ''build'' = Some u" "reconcilable u" "sk_dirtySinceSeq u = Some 1" "sk_priority u = 0"
    by auto
  obtain t d' g where "chooseNextReconciliation sample_projection = Some t" "sk_dirtySinceSeq t = Some d'" "g = sk_priority t"
      "d' < 1 + 32 * (g + 1) \<or> d' + 32 * (2048 - g) \<le> 2"
    using scheduler_aging [OF sample_reduce u'(1-3)] u'(4) h by auto
  with t u' show ?thesis by auto
qed


theorem scheduler_refines_lease_witness:
  "\<exists>(sq' :: SchedulerProjection). applyMultiRepoSchedulerEvent sample_prims sample_projection sample_grant = Inr sq' \<and>
     lease_step (leaseViews sample_projection) (leaseViews sq')"
proof -
  have "reduceMultiRepoSchedulerEvents sample_prims (sample_registrations @ sample_grant # []) = Inr sample_leased"
    using sample_reduce sample_applied by (simp add: reduceMultiRepoSchedulerEvents_def fold_res_append)
  from scheduler_refines_lease [OF sample_reduce this] show ?thesis by blast
qed

end
