(* ===== verification/Multirepo_Run.thy ===== *)
theory Multirepo_Run
  imports Dag_Props Scheduler_Props
begin

text \<open>
  The task graph and the scheduler together (\<open>src/multirepo/orchestration.ts\<close> registers the tasks of an accepted
  graph with the scheduler and asks for their admission): the scheduler waits for dependencies, the graph has no
  cycle, so a run is never stuck on its dependencies.
\<close>

section \<open>The tasks of a graph in the scheduler\<close>

definition registered_as :: "MultiRepositoryTask list \<Rightarrow> SchedulerProjection \<Rightarrow> bool" where
  "registered_as raw sq \<longleftrightarrow>
     (\<forall>t \<in> set raw. map_option sk_dependencies (obj_get (sq_tasks sq) (mt_taskId t)) = Some (mt_dependencies t)) \<and>
     (\<forall>p \<in> set (sq_tasks sq). fst p \<in> mt_taskId ` set raw)"

lemma first_pending:
  assumes wf: "wf ((depends_on raw)\<inverse>)" and closed: "depends_on raw `` UNIV \<subseteq> ids_of raw" and k: "k \<in> ids_of raw" "\<not> C k"
  obtains t where "t \<in> set raw" "\<not> C (mt_taskId t)" "\<forall>d \<in> set (mt_dependencies t). C d"
proof -
  have "k \<in> {k \<in> ids_of raw. \<not> C k}" using k by simp
  then obtain z where z: "z \<in> ids_of raw" "\<not> C z" and min: "\<And>y. (z, y) \<in> depends_on raw \<Longrightarrow> y \<notin> {k \<in> ids_of raw. \<not> C k}"
    by (rule wfE_min [OF wf]) auto
  obtain t where t: "t \<in> set raw" "mt_taskId t = z" using z(1) by (auto simp: ids_of_def)
  have "C d" if "d \<in> set (mt_dependencies t)" for d
  proof -
    have "(z, d) \<in> depends_on raw" using t that by (auto simp: depends_on_def)
    with min [of d] closed show ?thesis by blast
  qed
  with t z(2) that show thesis by blast
qed

text \<open>With no lease anywhere, every limit has room.\<close>

lemma no_leases_room:
  assumes "\<And>t. t \<in> set (obj_values (sq_tasks (ai_projection i))) \<Longrightarrow> sk_lease t = None" "limitsOk (ai_limits i)"
  shows "capacityBlock i u = None"
proof -
  have "contribution q t = 0" if "t \<in> set (obj_values (sq_tasks (ai_projection i)))" for q t using assms(1) [OF that] by (simp add: contribution_def)
  then have "countLeases q (ai_projection i) = 0" for q by (simp add: countLeases_sum sum_list_map_zero)
  with assms(2) show ?thesis by (auto simp: capacityBlock_def Let_def limitsOk_def limitOk_def list_ex_iff)
qed

lemma idle_unleased:
  assumes "sched_ok sq" "\<forall>p \<in> set (sq_tasks sq). sk_state (snd p) \<in> {Waiting, TaskCompleted}" "t \<in> set (obj_values (sq_tasks sq))"
  shows "sk_lease t = None"
proof -
  obtain k where k: "obj_get (sq_tasks sq) k = Some t" using assms(1,3) by (auto simp: sched_ok_def in_obj_values)
  have "task_ok k t" using k assms(1) by (simp add: sched_ok_def)
  moreover have "sk_state t \<in> {Waiting, TaskCompleted}" using assms(2) map_of_SomeD [OF k] by fastforce
  ultimately show ?thesis by (auto simp: task_ok_def)
qed

section \<open>Property\<close>

text \<open>
  C31. A run is never deadlocked by its dependencies. When the scheduler holds the tasks of an accepted graph, each
  waiting or completed and not all completed, some waiting task is admitted by every request for it that is in
  scope, has budget and valid limits, and whose lease event is well formed.
\<close>

theorem dag_no_deadlock:
  assumes "materializeMultiRepositoryDag D registry raw = Inr dag" "reduceMultiRepoSchedulerEvents P es = Inr sq" "registered_as raw sq"
    "\<forall>p \<in> set (sq_tasks sq). sk_state (snd p) \<in> {Waiting, TaskCompleted}" "\<exists>p \<in> set (sq_tasks sq). sk_state (snd p) \<noteq> TaskCompleted"
  shows "\<exists>t u. t \<in> set raw \<and> obj_get (sq_tasks sq) (mt_taskId t) = Some u \<and> sk_state u = Waiting \<and>
    (\<forall>i. ai_projection i = sq \<and> ai_taskId i = mt_taskId t \<and> ai_expectedVersion i = sk_version u \<and> ai_repositorySetId i = sk_repositorySetId u \<and>
       set (sk_repositoryIds u) \<subseteq> set (ai_roleRepositoryIds i) \<inter> set (ai_providerRepositoryIds i) \<and> ai_budgetAvailable i \<and> limitsOk (ai_limits i) \<and>
       parseMultiRepoSchedulerEvent P (grantEvent i u) \<longrightarrow>
       decideSchedulerAdmission P i = Inr (AdmissionGranted (grantEvent i u)))"
proof -
  let ?C = "\<lambda>k. map_option sk_state (obj_get (sq_tasks sq) k) = Some TaskCompleted"
  have ok: "sched_ok sq" using history_aging_ok [OF assms(2)] by (simp add: aging_ok_def)
  obtain k v where kv: "(k, v) \<in> set (sq_tasks sq)" "sk_state v \<noteq> TaskCompleted" using assms(5) by auto
  have gk: "obj_get (sq_tasks sq) k = Some v" using kv(1) ok by (simp add: sched_ok_def obj_wf_def)
  have "k \<in> ids_of raw" using assms(3) kv(1) by (auto simp: registered_as_def ids_of_def)
  moreover have "\<not> ?C k" using gk kv(2) by simp
  ultimately obtain t where t: "t \<in> set raw" "\<not> ?C (mt_taskId t)" "\<forall>d \<in> set (mt_dependencies t). ?C d"
    using first_pending [OF dag_well_founded [OF assms(1)], of k ?C] by blast
  obtain u where u: "obj_get (sq_tasks sq) (mt_taskId t) = Some u" "sk_dependencies u = mt_dependencies t"
    using assms(3) t(1) by (auto simp: registered_as_def)
  have st: "sk_state u = Waiting" using assms(4) map_of_SomeD [OF u(1)] u(1) t(2) by fastforce
  have lease: "sk_lease u = None" using idle_unleased [OF ok assms(4)] obj_get_in_values [OF u(1)] by blast
  have "decideSchedulerAdmission P i = Inr (AdmissionGranted (grantEvent i u))"
    if i: "ai_projection i = sq" "ai_taskId i = mt_taskId t" "ai_expectedVersion i = sk_version u" "ai_repositorySetId i = sk_repositorySetId u"
      "set (sk_repositoryIds u) \<subseteq> set (ai_roleRepositoryIds i) \<inter> set (ai_providerRepositoryIds i)" "ai_budgetAvailable i" "limitsOk (ai_limits i)"
      "parseMultiRepoSchedulerEvent P (grantEvent i u)" for i
  proof -
    have "capacityBlock i u = None" using no_leases_room idle_unleased [OF ok assms(4)] i(1,7) by blast
    moreover have "scopeBlock i u = None" using i t(3) u(2) by (auto simp: scopeBlock_def list_ex_iff)
    ultimately show ?thesis using i u(1) st lease by (simp add: decideSchedulerAdmission_def leaseState_def)
  qed
  with t(1) u(1) st show ?thesis by blast
qed

definition sample_plan :: "MultiRepositoryTask list" where
  "sample_plan = [sample_task ''build'' [], sample_task ''ship'' [''build'']]"

theorem dag_no_deadlock_witness:
  "\<exists>(t :: MultiRepositoryTask) (u :: SchedulerTask). t \<in> set sample_plan \<and> obj_get (sq_tasks sample_projection) (mt_taskId t) = Some u \<and> sk_state u = Waiting"
proof -
  have "\<not> isl (materializeMultiRepositoryDag sample_domain sample_registry sample_plan)" by code_simp
  then obtain dag where d: "materializeMultiRepositoryDag sample_domain sample_registry sample_plan = Inr dag"
    by (cases "materializeMultiRepositoryDag sample_domain sample_registry sample_plan") auto
  have "registered_as sample_plan sample_projection" by code_simp
  moreover have "\<forall>p \<in> set (sq_tasks sample_projection). sk_state (snd p) \<in> {Waiting, TaskCompleted}" by code_simp
  moreover have "\<exists>p \<in> set (sq_tasks sample_projection). sk_state (snd p) \<noteq> TaskCompleted" by code_simp
  ultimately show ?thesis using dag_no_deadlock [OF d sample_reduce] by blast
qed

end
