(* ===== verification/Git_Transaction.thy ===== *)
theory Git_Transaction
  imports Repo_Domain
begin

text \<open>
  Compare-and-swap of one branch (\<open>src/multirepo/git-transaction.ts\<close>): observing a reference, preparing a merge
  commit without moving it, applying the prepared commit and undoing it.

  The file system and the \<open>git\<close> process are parameters (\<open>GitEnv\<close>): they read and change a world, and every function
  passes the world on, whether it returns or throws. Strings are over code points below 256.
\<close>

section \<open>Results and errors\<close>

datatype MultiRepoGitErrorCode =
    INVALID_REQUEST | REPOSITORY_IDENTITY_MISMATCH | REF_OBSERVATION_FAILED | EXPECTED_REF_MISMATCH | OBJECT_MISSING
  | NO_CHANGES | MERGE_CONFLICT | CANDIDATE_INVALID

record 'w GitEnv =
  ge_realpath :: "'w \<Rightarrow> string \<Rightarrow> string option"
  ge_lstat :: "'w \<Rightarrow> string \<Rightarrow> (bool \<times> int \<times> int) option"
  ge_run :: "'w \<Rightarrow> string \<Rightarrow> string list \<Rightarrow> (bool \<times> string) \<times> 'w"

record RepositoryCandidate =
  rc_repositoryId :: string
  rc_targetRef :: string
  rc_expectedOid :: string
  rc_childOid :: string
  rc_candidateOid :: string
  rc_treeOid :: string
  rc_parents :: "string \<times> string"

datatype RefObservation = Observed "string option" | UnknownIdentity | UnknownRead

datatype RecoveryReason = IDENTITY_MISMATCH | OUTCOME_UNKNOWN

text \<open>\<open>observedOid\<close> is absent, null, or an object identifier.\<close>

datatype RepositoryCasResult = CasApplied string | CasAlreadyApplied string | CasRefused "string option" | CasRecovery RecoveryReason "string option option"

datatype RepositoryCompensationResult =
    Compensated string | AlreadyCompensated string | CompensationRefused "string option" | CompensationRecovery RecoveryReason "string option option"

section \<open>Computations on the world that may throw\<close>

type_synonym ('w, 'a) git = "'w \<Rightarrow> (MultiRepoGitErrorCode + 'a) \<times> 'w"

definition git_return :: "'a \<Rightarrow> ('w, 'a) git" where
  "git_return x w = (Inr x, w)"

definition git_bind :: "('w, 'a) git \<Rightarrow> ('a \<Rightarrow> ('w, 'b) git) \<Rightarrow> ('w, 'b) git" where
  "git_bind m f w = (case m w of (Inl e, w') \<Rightarrow> (Inl e, w') | (Inr x, w') \<Rightarrow> f x w')"

definition git_require :: "bool \<Rightarrow> MultiRepoGitErrorCode \<Rightarrow> ('w, unit) git" where
  "git_require c e w = (if c then Inr () else Inl e, w)"

definition git_run :: "'w GitEnv \<Rightarrow> string \<Rightarrow> string list \<Rightarrow> ('w, bool \<times> string) git" where
  "git_run G cwd args w = (case ge_run G w cwd args of (r, w') \<Rightarrow> (Inr r, w'))"

definition git_catch :: "('w, 'a) git \<Rightarrow> (MultiRepoGitErrorCode \<Rightarrow> ('w, 'b) git) \<Rightarrow> ('a \<Rightarrow> ('w, 'b) git) \<Rightarrow> ('w, 'b) git" where
  "git_catch m h f w = (case m w of (Inl e, w') \<Rightarrow> h e w' | (Inr x, w') \<Rightarrow> f x w')"

section \<open>Object identifiers and references\<close>

definition oidOk :: "string \<Rightarrow> bool" where
  "oidOk s \<longleftrightarrow> (length s = 40 \<or> length s = 64) \<and> list_all is_lower_hex s"

definition refPattern :: "string \<Rightarrow> bool" where
  "refPattern s \<longleftrightarrow> startsWith s ''refs/heads/'' \<and>
     (let r = drop 11 s in r \<noteq> [] \<and> is_alnum (hd r) \<and> is_alnum (last r) \<and> list_all (\<lambda>c. is_alnum c \<or> c \<in> set ''._/-'') r)"

definition refOk :: "string \<Rightarrow> bool" where
  "refOk s \<longleftrightarrow> refPattern s \<and> \<not> hasSubstring s ''..'' \<and> \<not> hasSubstring s ''//'' \<and> \<not> hasSubstring s [CHR ''@'', CHR 0x7B] \<and>
     \<not> startsWith (rev s) (rev ''.lock'')"

definition requireOid :: "string \<Rightarrow> ('w, string) git" where
  "requireOid value = git_bind (git_require (oidOk value) INVALID_REQUEST) (\<lambda>_. git_return value)"

definition requireRef :: "string \<Rightarrow> ('w, string) git" where
  "requireRef value = git_bind (git_require (refOk value) INVALID_REQUEST) (\<lambda>_. git_return value)"

section \<open>Repositories\<close>

definition directoryIs :: "'w GitEnv \<Rightarrow> 'w \<Rightarrow> string \<Rightarrow> int \<Rightarrow> int \<Rightarrow> bool" where
  "directoryIs G w path device inode = (case ge_lstat G w path of None \<Rightarrow> False
     | Some (isDirectory, dev, ino) \<Rightarrow> isDirectory \<and> dev = device \<and> ino = inode)"

definition rootCanonical :: "'w GitEnv \<Rightarrow> RepositoryIdentity \<Rightarrow> ('w, string) git" where
  "rootCanonical G r w = (case ge_realpath G w (ri_canonicalRoot r) of None \<Rightarrow> (Inl REPOSITORY_IDENTITY_MISMATCH, w)
     | Some canonical \<Rightarrow>
         (if directoryIs G w canonical (ri_rootDevice r) (ri_rootInode r) then Inr canonical else Inl REPOSITORY_IDENTITY_MISMATCH, w))"

definition commonDirOk :: "'w GitEnv \<Rightarrow> RepositoryIdentity \<Rightarrow> string \<Rightarrow> ('w, unit) git" where
  "commonDirOk G r out w = (case ge_realpath G w (resolve out) of None \<Rightarrow> (Inl REPOSITORY_IDENTITY_MISMATCH, w)
     | Some commonPath \<Rightarrow>
         (if directoryIs G w commonPath (ri_gitCommonDirDevice r) (ri_gitCommonDirInode r) then Inr () else Inl REPOSITORY_IDENTITY_MISMATCH, w))"

definition verifyRepository :: "'w GitEnv \<Rightarrow> RepositoryIdentity \<Rightarrow> ('w, string) git" where
  "verifyRepository G r =
     git_bind (git_require (isAbsolute (ri_canonicalRoot r)) INVALID_REQUEST) (\<lambda>_.
     git_bind (rootCanonical G r) (\<lambda>canonical.
     git_bind (git_require (canonical = ri_canonicalRoot r) REPOSITORY_IDENTITY_MISMATCH) (\<lambda>_.
     git_bind (git_run G canonical [''rev-parse'', ''--path-format=absolute'', ''--git-common-dir'']) (\<lambda>common.
     git_bind (git_require (fst common \<and> isAbsolute (snd common)) REPOSITORY_IDENTITY_MISMATCH) (\<lambda>_.
     git_bind (commonDirOk G r (snd common)) (\<lambda>_. git_return canonical))))))"

definition commitSpec :: "string \<Rightarrow> string \<Rightarrow> string" where
  "commitSpec oid kind = oid @ [CHR ''^'', CHR 0x7B] @ kind @ [CHR 0x7D]"

definition resolveCommit :: "'w GitEnv \<Rightarrow> string \<Rightarrow> string \<Rightarrow> ('w, string) git" where
  "resolveCommit G cwd oid =
     git_bind (git_run G cwd [''rev-parse'', ''--verify'', ''--end-of-options'', commitSpec oid ''commit'']) (\<lambda>result.
     git_bind (git_require (fst result \<and> snd result = oid) OBJECT_MISSING) (\<lambda>_. git_return oid))"

text \<open>A failing \<open>show-ref\<close> is read as an absent reference.\<close>

definition readRef :: "'w GitEnv \<Rightarrow> string \<Rightarrow> string \<Rightarrow> ('w, string option) git" where
  "readRef G cwd targetRef =
     git_bind (git_run G cwd [''show-ref'', ''--verify'', ''--hash'', targetRef]) (\<lambda>result.
     if \<not> fst result then git_return None
     else git_bind (git_require (oidOk (snd result)) REF_OBSERVATION_FAILED) (\<lambda>_. git_return (Some (snd result))))"

definition observeRepositoryRef :: "'w GitEnv \<Rightarrow> RepositoryIdentity \<Rightarrow> string \<Rightarrow> ('w, RefObservation) git" where
  "observeRepositoryRef G r targetRef =
     git_catch (verifyRepository G r)
       (\<lambda>e w. if e = REPOSITORY_IDENTITY_MISMATCH then (Inr UnknownIdentity, w) else (Inl e, w))
       (\<lambda>cwd. git_catch (git_bind (requireRef targetRef) (\<lambda>ref. readRef G cwd ref))
         (\<lambda>_. git_return UnknownRead) (\<lambda>oid. git_return (Observed oid)))"

section \<open>Preparing a candidate\<close>

definition maximumMessageBytes :: nat where
  "maximumMessageBytes = 8 * 1024"

definition utf8Bytes :: "string \<Rightarrow> nat" where
  "utf8Bytes s = sum_list (map (\<lambda>c. if char_code c < 128 then 1 else 2) s)"

definition js_space :: "char \<Rightarrow> bool" where
  "js_space c \<longleftrightarrow> 9 \<le> char_code c \<and> char_code c \<le> 13 \<or> char_code c = 32 \<or> char_code c = 160"

definition trim :: "string \<Rightarrow> string" where
  "trim s = rev (dropWhile js_space (rev (dropWhile js_space s)))"

definition messageOk :: "string \<Rightarrow> bool" where
  "messageOk m \<longleftrightarrow> 1 \<le> utf8Bytes m \<and> utf8Bytes m \<le> maximumMessageBytes \<and> CHR 0x00 \<notin> set m"

text \<open>The commit with the merged tree and the two parents, checked after it is written.\<close>

definition buildCandidate :: "'w GitEnv \<Rightarrow> string \<Rightarrow> string \<Rightarrow> string \<Rightarrow> string \<Rightarrow> ('w, string \<times> string) git" where
  "buildCandidate G cwd expectedOid childOid message =
     git_bind (git_run G cwd [''merge-tree'', ''--write-tree'', expectedOid, childOid]) (\<lambda>mergeTree.
     git_bind (git_require (fst mergeTree) MERGE_CONFLICT) (\<lambda>_.
     let treeOid = trim (takeWhile (\<lambda>c. c \<noteq> CHR 0x0A) (snd mergeTree)) in
     git_bind (git_require (oidOk treeOid) CANDIDATE_INVALID) (\<lambda>_.
     git_bind (git_run G cwd [''commit-tree'', treeOid, ''-p'', expectedOid, ''-p'', childOid, ''-m'', message]) (\<lambda>commit.
     git_bind (git_require (fst commit \<and> oidOk (snd commit)) CANDIDATE_INVALID) (\<lambda>_.
     let candidateOid = snd commit in
     git_bind (git_run G cwd [''rev-list'', ''--parents'', ''-n'', ''1'', candidateOid]) (\<lambda>parents.
     git_bind (git_require (fst parents \<and> snd parents = candidateOid @ '' '' @ expectedOid @ '' '' @ childOid) CANDIDATE_INVALID) (\<lambda>_.
     git_bind (git_run G cwd [''rev-parse'', ''--verify'', ''--end-of-options'', commitSpec candidateOid ''tree'']) (\<lambda>tree.
     git_bind (git_require (fst tree \<and> snd tree = treeOid) CANDIDATE_INVALID) (\<lambda>_. git_return (candidateOid, treeOid))))))))))"

definition prepareRepositoryCandidate :: "'w GitEnv \<Rightarrow> RepositoryIdentity \<Rightarrow> string \<Rightarrow> string \<Rightarrow> string \<Rightarrow> string \<Rightarrow> ('w, RepositoryCandidate) git" where
  "prepareRepositoryCandidate G r requestRef requestExpected requestChild message =
     git_bind (verifyRepository G r) (\<lambda>cwd.
     git_bind (requireRef requestRef) (\<lambda>targetRef.
     git_bind (git_bind (requireOid requestExpected) (resolveCommit G cwd)) (\<lambda>expectedOid.
     git_bind (git_bind (requireOid requestChild) (resolveCommit G cwd)) (\<lambda>childOid.
     git_bind (git_require (expectedOid \<noteq> childOid) NO_CHANGES) (\<lambda>_.
     git_bind (git_require (messageOk message) INVALID_REQUEST) (\<lambda>_.
     git_bind (readRef G cwd targetRef) (\<lambda>observedBefore.
     git_bind (git_require (observedBefore = Some expectedOid) EXPECTED_REF_MISMATCH) (\<lambda>_.
     git_bind (buildCandidate G cwd expectedOid childOid message) (\<lambda>built.
     git_bind (readRef G cwd targetRef) (\<lambda>observedAfter.
     git_bind (git_require (observedAfter = Some expectedOid) EXPECTED_REF_MISMATCH) (\<lambda>_.
     git_return \<lparr>rc_repositoryId = ri_repositoryId r, rc_targetRef = targetRef, rc_expectedOid = expectedOid, rc_childOid = childOid,
       rc_candidateOid = fst built, rc_treeOid = snd built, rc_parents = (expectedOid, childOid)\<rparr>)))))))))))"

section \<open>Applying and compensating\<close>

definition casOutcome :: "RepositoryCandidate \<Rightarrow> bool \<Rightarrow> RefObservation \<Rightarrow> RepositoryCasResult" where
  "casOutcome c updated reconciled = (case reconciled of
     Observed oid \<Rightarrow>
       if oid = Some (rc_candidateOid c) then CasApplied (rc_candidateOid c)
       else if oid \<noteq> Some (rc_expectedOid c) \<or> \<not> updated then CasRefused oid
       else CasRecovery OUTCOME_UNKNOWN (Some oid)
   | _ \<Rightarrow> CasRecovery OUTCOME_UNKNOWN None)"

definition applyRepositoryCandidate :: "'w GitEnv \<Rightarrow> RepositoryIdentity \<Rightarrow> RepositoryCandidate \<Rightarrow> ('w, RepositoryCasResult) git" where
  "applyRepositoryCandidate G r c =
     git_catch (verifyRepository G r) (\<lambda>_. git_return (CasRecovery IDENTITY_MISMATCH None)) (\<lambda>cwd.
     git_bind (git_require (rc_repositoryId c = ri_repositoryId r) INVALID_REQUEST) (\<lambda>_.
     git_bind (requireRef (rc_targetRef c)) (\<lambda>_.
     git_bind (requireOid (rc_expectedOid c)) (\<lambda>_.
     git_bind (resolveCommit G cwd (rc_candidateOid c)) (\<lambda>_.
     git_bind (readRef G cwd (rc_targetRef c)) (\<lambda>observed.
     if observed = Some (rc_candidateOid c) then git_return (CasAlreadyApplied (rc_candidateOid c))
     else if observed \<noteq> Some (rc_expectedOid c) then git_return (CasRefused observed)
     else git_bind (git_run G cwd [''update-ref'', rc_targetRef c, rc_candidateOid c, rc_expectedOid c]) (\<lambda>update.
     git_bind (observeRepositoryRef G r (rc_targetRef c)) (\<lambda>reconciled. git_return (casOutcome c (fst update) reconciled)))))))))"

definition compensationOutcome :: "RepositoryCandidate \<Rightarrow> bool \<Rightarrow> RefObservation \<Rightarrow> RepositoryCompensationResult" where
  "compensationOutcome c updated reconciled = (case reconciled of
     Observed oid \<Rightarrow>
       if oid = Some (rc_expectedOid c) then Compensated (rc_expectedOid c)
       else if oid \<noteq> Some (rc_candidateOid c) \<or> \<not> updated then CompensationRefused oid
       else CompensationRecovery OUTCOME_UNKNOWN (Some oid)
   | _ \<Rightarrow> CompensationRecovery OUTCOME_UNKNOWN None)"

definition compensateRepositoryCandidate :: "'w GitEnv \<Rightarrow> RepositoryIdentity \<Rightarrow> RepositoryCandidate \<Rightarrow> ('w, RepositoryCompensationResult) git" where
  "compensateRepositoryCandidate G r c =
     git_catch (verifyRepository G r) (\<lambda>_. git_return (CompensationRecovery IDENTITY_MISMATCH None)) (\<lambda>cwd.
     git_bind (readRef G cwd (rc_targetRef c)) (\<lambda>observed.
     if observed = Some (rc_expectedOid c) then git_return (AlreadyCompensated (rc_expectedOid c))
     else if observed \<noteq> Some (rc_candidateOid c) then git_return (CompensationRefused observed)
     else git_bind (git_run G cwd [''update-ref'', rc_targetRef c, rc_expectedOid c, rc_candidateOid c]) (\<lambda>update.
     git_bind (observeRepositoryRef G r (rc_targetRef c)) (\<lambda>reconciled. git_return (compensationOutcome c (fst update) reconciled)))))"

end
