(* ===== verification/Verification.thy ===== *)
theory Verification
  imports Git_Transaction
begin

text \<open>
  Combined verification of a vector of candidates (\<open>src/multirepo/verification.ts\<close>) and its receipt
  (\<open>src/multirepo/receipt.ts\<close>): the plan, the run of the commands between two exact observations of every
  candidate, and the receipt of a verified outcome.

  Parameters are the digests (SHA-256 of a canonical JSON text), the observer of a workspace (total), the contained
  executor of a command (which may throw) and \<open>Date\<close>.
\<close>

section \<open>Plans\<close>

record CandidateVerificationEntry =
  cv_repositoryId :: string
  cv_canonicalWorkspacePath :: string
  cv_targetRef :: string
  cv_expectedOid :: string
  cv_childOid :: string
  cv_candidateOid :: string
  cv_treeOid :: string

record CombinedVerificationPlan =
  vp_transactionId :: string
  vp_repositorySetId :: string
  vp_entries :: "CandidateVerificationEntry list"
  vp_commands :: "string list"
  vp_environmentDigest :: string
  vp_manifestDigest :: string

record CandidateVerificationObservation =
  ob_candidateOid :: string
  ob_treeOid :: string
  ob_clean :: bool
  ob_identityExact :: bool

record CombinedVerificationCommandResult =
  cr_ok :: bool
  cr_code :: int
  cr_outputDigest :: string
  cr_outputBytes :: int
  cr_fingerprint :: string
  cr_transportTrusted :: bool
  cr_scopeTrusted :: bool

datatype VerificationState = Verified | VerificationFailed | VerificationRecovery

datatype VerificationReason = CANDIDATE_CHANGED | COMMAND_FAILED | TRANSPORT_UNTRUSTED | RESULT_INVALID

record CombinedVerificationOutcome =
  co_state :: VerificationState
  co_plan :: CombinedVerificationPlan
  co_results :: "CombinedVerificationCommandResult list"
  co_reasonCode :: "VerificationReason option"

datatype MultiRepoVerificationErrorCode = INVALID_VERIFICATION_PLAN | INVALID_ENVIRONMENT | EXECUTOR_THREW

record CombinedVerificationReceipt =
  cvr_transactionId :: string
  cvr_repositorySetId :: string
  cvr_manifestDigest :: string
  cvr_verifiedAt :: string
  cvr_resultDigests :: "string list"
  cvr_receiptDigest :: string

record 'w VerificationEnv =
  ve_environmentDigest :: "(string \<times> string) list \<Rightarrow> string"
  ve_manifestDigest :: "string \<Rightarrow> string \<Rightarrow> CandidateVerificationEntry list \<Rightarrow> string list \<Rightarrow> string \<Rightarrow> string"
  ve_resultDigest :: "nat \<Rightarrow> CombinedVerificationCommandResult \<Rightarrow> string"
  ve_receiptDigest :: "string \<Rightarrow> string \<Rightarrow> string \<Rightarrow> string \<Rightarrow> string list \<Rightarrow> string"
  ve_observe :: "'w \<Rightarrow> CandidateVerificationEntry \<Rightarrow> CandidateVerificationObservation"
  ve_execute :: "'w \<Rightarrow> CombinedVerificationPlan \<Rightarrow> string obj \<Rightarrow> nat \<Rightarrow> string \<Rightarrow> CombinedVerificationCommandResult option \<times> 'w"
  ve_timestampOk :: "string \<Rightarrow> bool"

definition maximumVerificationRepositories :: nat where "maximumVerificationRepositories = 32"

definition maximumCommands :: nat where "maximumCommands = 64"

definition maximumCommandBytes :: nat where "maximumCommandBytes = 4096"

definition maximumOutputBytesPerCommand :: int where "maximumOutputBytesPerCommand = 4 * 1024 * 1024"

definition maximumValueBytes :: nat where "maximumValueBytes = 16 * 1024"

definition environmentKeyOk :: "string \<Rightarrow> bool" where
  "environmentKeyOk k \<longleftrightarrow> k \<noteq> [] \<and> length k \<le> 128 \<and> (is_upper (hd k) \<or> is_lower (hd k) \<or> hd k = CHR ''_'') \<and>
     list_all (\<lambda>c. is_alnum c \<or> c = CHR ''_'') (tl k)"

definition environmentDigest :: "'w VerificationEnv \<Rightarrow> string obj \<Rightarrow> MultiRepoVerificationErrorCode + string" where
  "environmentDigest V environment =
     (let entries = sort_key (\<lambda>p. collate_key (fst p)) environment in
      if length entries > 128 \<or> list_ex (\<lambda>(k, v). \<not> environmentKeyOk k \<or> utf8Bytes v > maximumValueBytes \<or> CHR 0x00 \<in> set v) entries
      then Inl INVALID_ENVIRONMENT else Inr (ve_environmentDigest V entries))"

definition verificationEntryOk :: "CandidateVerificationEntry \<Rightarrow> bool" where
  "verificationEntryOk e \<longleftrightarrow> ID_PATTERN (cv_repositoryId e) \<and> startsWith (cv_canonicalWorkspacePath e) ''/'' \<and> oidOk (cv_expectedOid e) \<and>
     oidOk (cv_childOid e) \<and> oidOk (cv_candidateOid e) \<and> oidOk (cv_treeOid e) \<and> startsWith (cv_targetRef e) ''refs/heads/''"

definition verificationCommandOk :: "string \<Rightarrow> bool" where
  "verificationCommandOk c \<longleftrightarrow> 1 \<le> utf8Bytes c \<and> utf8Bytes c \<le> maximumCommandBytes \<and> CHR 0x00 \<notin> set c"

definition materializeCombinedVerificationPlan ::
    "'w VerificationEnv \<Rightarrow> string \<Rightarrow> string \<Rightarrow> CandidateVerificationEntry list \<Rightarrow> string list \<Rightarrow> string obj \<Rightarrow> MultiRepoVerificationErrorCode + CombinedVerificationPlan" where
  "materializeCombinedVerificationPlan V transactionId repositorySetId entries commands environment =
     bind_res (checks
       [(\<not> ID_PATTERN transactionId \<or> \<not> isSha256Hex repositorySetId, INVALID_VERIFICATION_PLAN),
        (entries = [] \<or> length entries > maximumVerificationRepositories, INVALID_VERIFICATION_PLAN),
        (commands = [] \<or> length commands > maximumCommands, INVALID_VERIFICATION_PLAN),
        (\<not> list_all verificationEntryOk entries \<or> \<not> distinct (map cv_repositoryId entries) \<or> \<not> distinct (map cv_canonicalWorkspacePath entries),
           INVALID_VERIFICATION_PLAN),
        (list_ex (\<lambda>l. list_ex (\<lambda>r. l \<noteq> r \<and> startsWith (cv_canonicalWorkspacePath r) (cv_canonicalWorkspacePath l @ ''/'')) entries) entries,
           INVALID_VERIFICATION_PLAN),
        (\<not> list_all verificationCommandOk commands, INVALID_VERIFICATION_PLAN)]) (\<lambda>_.
     bind_res (environmentDigest V environment) (\<lambda>envDigest.
     Inr \<lparr>vp_transactionId = transactionId, vp_repositorySetId = repositorySetId, vp_entries = entries, vp_commands = commands,
          vp_environmentDigest = envDigest, vp_manifestDigest = ve_manifestDigest V transactionId repositorySetId entries commands envDigest\<rparr>))"

section \<open>Running the plan\<close>

definition exactObservation :: "CandidateVerificationEntry \<Rightarrow> CandidateVerificationObservation \<Rightarrow> bool" where
  "exactObservation e v \<longleftrightarrow> ob_identityExact v \<and> ob_clean v \<and> ob_candidateOid v = cv_candidateOid e \<and> ob_treeOid v = cv_treeOid e"

definition validResult :: "CombinedVerificationCommandResult \<Rightarrow> bool" where
  "validResult v \<longleftrightarrow> - 1 \<le> cr_code v \<and> cr_code v \<le> 255 \<and> isSha256Hex (cr_outputDigest v) \<and> isSha256Hex (cr_fingerprint v) \<and>
     0 \<le> cr_outputBytes v \<and> cr_outputBytes v \<le> maximumOutputBytesPerCommand"

definition allExact :: "'w VerificationEnv \<Rightarrow> CombinedVerificationPlan \<Rightarrow> 'w \<Rightarrow> bool" where
  "allExact V plan w = list_all (\<lambda>e. exactObservation e (ve_observe V w e)) (vp_entries plan)"

definition verificationOutcome :: "CombinedVerificationPlan \<Rightarrow> VerificationState \<Rightarrow> CombinedVerificationCommandResult list \<Rightarrow> VerificationReason option \<Rightarrow> CombinedVerificationOutcome" where
  "verificationOutcome plan st results reason = \<lparr>co_state = st, co_plan = plan, co_results = results, co_reasonCode = reason\<rparr>"

fun runCommands :: "'w VerificationEnv \<Rightarrow> CombinedVerificationPlan \<Rightarrow> string obj \<Rightarrow> nat \<Rightarrow> string list \<Rightarrow> CombinedVerificationCommandResult list \<Rightarrow> 'w \<Rightarrow>
    (MultiRepoVerificationErrorCode + CombinedVerificationOutcome) \<times> 'w" where
  "runCommands V plan environment i [] results w =
     (Inr (if allExact V plan w then verificationOutcome plan Verified results None
           else verificationOutcome plan VerificationRecovery results (Some CANDIDATE_CHANGED)), w)"
| "runCommands V plan environment i (command # commands) results w =
     (case ve_execute V w plan environment i command of
        (None, w') \<Rightarrow> (Inl EXECUTOR_THREW, w')
      | (Some v, w') \<Rightarrow>
          if \<not> validResult v then (Inr (verificationOutcome plan VerificationRecovery results (Some RESULT_INVALID)), w')
          else if \<not> cr_transportTrusted v \<or> \<not> cr_scopeTrusted v
            then (Inr (verificationOutcome plan VerificationRecovery (results @ [v]) (Some TRANSPORT_UNTRUSTED)), w')
          else if \<not> cr_ok v \<or> cr_code v \<noteq> 0
            then (Inr (verificationOutcome plan VerificationFailed (results @ [v]) (Some COMMAND_FAILED)), w')
          else runCommands V plan environment (Suc i) commands (results @ [v]) w')"

definition executeCombinedVerification ::
    "'w VerificationEnv \<Rightarrow> CombinedVerificationPlan \<Rightarrow> string obj \<Rightarrow> 'w \<Rightarrow> (MultiRepoVerificationErrorCode + CombinedVerificationOutcome) \<times> 'w" where
  "executeCombinedVerification V plan environment w =
     (case environmentDigest V environment of
        Inl e \<Rightarrow> (Inl e, w)
      | Inr d \<Rightarrow>
          if d \<noteq> vp_environmentDigest plan then (Inl INVALID_ENVIRONMENT, w)
          else if \<not> allExact V plan w then (Inr (verificationOutcome plan VerificationRecovery [] (Some CANDIDATE_CHANGED)), w)
          else runCommands V plan environment 0 (vp_commands plan) [] w)"

section \<open>Receipts\<close>

definition createCombinedVerificationReceipt :: "'w VerificationEnv \<Rightarrow> CombinedVerificationOutcome \<Rightarrow> string \<Rightarrow> CombinedVerificationReceipt option" where
  "createCombinedVerificationReceipt V outcome verifiedAt =
     (if co_state outcome \<noteq> Verified \<or> \<not> ve_timestampOk V verifiedAt \<or> length (co_results outcome) \<noteq> length (vp_commands (co_plan outcome)) then None
      else let p = co_plan outcome; ds = map (\<lambda>(i, r). ve_resultDigest V i r) (enumerate 0 (co_results outcome)) in
        Some \<lparr>cvr_transactionId = vp_transactionId p, cvr_repositorySetId = vp_repositorySetId p, cvr_manifestDigest = vp_manifestDigest p,
              cvr_verifiedAt = verifiedAt, cvr_resultDigests = ds,
              cvr_receiptDigest = ve_receiptDigest V (vp_transactionId p) (vp_repositorySetId p) (vp_manifestDigest p) verifiedAt ds\<rparr>)"

definition verifyCombinedVerificationReceipt :: "'w VerificationEnv \<Rightarrow> CombinedVerificationPlan \<Rightarrow> CombinedVerificationReceipt \<Rightarrow> bool" where
  "verifyCombinedVerificationReceipt V plan r \<longleftrightarrow>
     cvr_transactionId r = vp_transactionId plan \<and> cvr_repositorySetId r = vp_repositorySetId plan \<and> cvr_manifestDigest r = vp_manifestDigest plan \<and>
     ve_timestampOk V (cvr_verifiedAt r) \<and> length (cvr_resultDigests r) = length (vp_commands plan) \<and> list_all isSha256Hex (cvr_resultDigests r) \<and>
     ve_receiptDigest V (cvr_transactionId r) (cvr_repositorySetId r) (cvr_manifestDigest r) (cvr_verifiedAt r) (cvr_resultDigests r) = cvr_receiptDigest r"

end
