(* ===== verification/Integration.thy ===== *)
theory Integration
  imports Verification
begin

text \<open>
  The multi-repository integration transaction (\<open>src/multirepo/integration.ts\<close>): an event-sourced saga that
  prepares a merge commit in every repository, verifies the vector, moves every branch by compare-and-swap and, when
  one of them refuses, undoes the branches already moved. \<open>reconcileMultiRepoIntegrationOnce\<close> performs at most one
  external action and returns the event that records it.

  Parameters are the digests of events, candidates and event identifiers, the integration authority, and the git and
  verification environments. The text of a reason is represented by its cause.
\<close>

section \<open>Plans and projections\<close>

datatype MultiRepoIntegrationState = Preparing | Prepared | Verifying | VectorVerified | Applying | VectorApplied | Compensating | VectorCompensated | RecoveryRequired

record IntegrationEntryPlan =
  ip_repository :: RepositoryIdentity
  ip_targetRef :: string
  ip_expectedOid :: string
  ip_childOid :: string
  ip_canonicalWorkspacePath :: string
  ip_message :: string

record IntegrationPlan =
  np_transactionId :: string
  np_repositorySetId :: string
  np_entries :: "IntegrationEntryPlan list"
  np_verifyCommands :: "string list"
  np_verifyEnvironment :: "string obj"

text \<open>The results an event may carry: \<open>applied\<close> or \<open>already_applied\<close>, \<open>compensated\<close> or \<open>already_compensated\<close>.\<close>

datatype AppliedResult = Applied (appliedOid: string) | AlreadyApplied (appliedOid: string)

datatype CompensatedResult = CompensatedNow (compensatedOid: string) | CompensatedBefore (compensatedOid: string)

record IntegrationEntry =
  ie_plan :: IntegrationEntryPlan
  ie_candidate :: "RepositoryCandidate option"
  ie_applyResult :: "AppliedResult option"
  ie_compensationResult :: "CompensatedResult option"

datatype IntegrationReason =
    PreparationThrew MultiRepoGitErrorCode | VerificationThrew MultiRepoVerificationErrorCode | VerificationRefused VerificationReason
  | VERIFICATION_FAILED | REF_MOVED | EXTERNAL_MOVE | CasReason RecoveryReason | ReportedReason string

record IntegrationProjection =
  in_transactionId :: string
  in_repositorySetId :: string
  in_version :: int
  in_state :: MultiRepoIntegrationState
  in_plan :: IntegrationPlan
  in_entries :: "IntegrationEntry list"
  in_verification :: "CombinedVerificationReceipt option"
  in_recoveryReason :: "IntegrationReason option"
  in_eventIds :: "string obj"

datatype IntegrationBody =
    IntegrationCreated IntegrationPlan
  | CandidatePrepared string RepositoryCandidate
  | IntegrationPrepared
  | VerificationStarted
  | IntegrationVerified CombinedVerificationReceipt
  | ApplyingStarted
  | EntryApplied string AppliedResult
  | CompensationStarted IntegrationReason
  | EntryCompensated string CompensatedResult
  | IntegrationApplied
  | IntegrationCompensated
  | IntegrationRecoveryRequired IntegrationReason "string option" "string option option"

record IntegrationEvent =
  iv_eventId :: string
  iv_transactionId :: string
  iv_expectedVersion :: int
  iv_body :: IntegrationBody

datatype MultiRepoIntegrationErrorCode = INVALID_INTEGRATION_PLAN | STALE_INTEGRATION_VERSION | INTEGRATION_EVENT_ID_CONFLICT | INVALID_INTEGRATION_TRANSITION | AUTHORITY_MISSING

datatype IntegrationAction =
    ActCreate | ActCandidate string | ActPrepared | ActVerificationStart | ActVerified | ActApplyingStart | ActApplied string | ActCompensate string
  | ActAllApplied | ActCompensated string | ActAllCompensated | ActRecovery IntegrationReason "string option"

record IntegrationPrims =
  ix_eventDigest :: "IntegrationEvent \<Rightarrow> string"
  ix_candidateDigest :: "RepositoryCandidate \<Rightarrow> string"
  ix_eventId :: "string \<Rightarrow> int \<Rightarrow> IntegrationAction \<Rightarrow> string"
  ix_assertHeld :: "string list \<Rightarrow> bool"
  ix_verifiedAt :: string

section \<open>Creating a transaction\<close>

definition verificationEntryOf :: "IntegrationEntryPlan \<Rightarrow> CandidateVerificationEntry" where
  "verificationEntryOf e = \<lparr>cv_repositoryId = ri_repositoryId (ip_repository e), cv_canonicalWorkspacePath = ip_canonicalWorkspacePath e,
     cv_targetRef = ip_targetRef e, cv_expectedOid = ip_expectedOid e, cv_childOid = ip_childOid e, cv_candidateOid = ip_expectedOid e, cv_treeOid = ip_expectedOid e\<rparr>"

datatype IntegrationFailure =
    IntegrationError MultiRepoIntegrationErrorCode | GitFailure MultiRepoGitErrorCode | VerificationFailure MultiRepoVerificationErrorCode
  | ReceiptFailure | NonNullFailure

definition validatePlan :: "'w VerificationEnv \<Rightarrow> IntegrationPlan \<Rightarrow> IntegrationFailure + IntegrationPlan" where
  "validatePlan V input =
     (let sorted = sort_key (\<lambda>e. collate_key (ri_repositoryId (ip_repository e))) (np_entries input) in
      if \<not> ID_PATTERN (np_transactionId input) \<or> \<not> isSha256Hex (np_repositorySetId input) \<or> np_entries input = [] \<or> length (np_entries input) > 32
        then Inl (IntegrationError INVALID_INTEGRATION_PLAN)
      else if sorted \<noteq> np_entries input \<or> \<not> distinct (map (\<lambda>e. ri_repositoryId (ip_repository e)) sorted) then Inl (IntegrationError INVALID_INTEGRATION_PLAN)
      else case materializeCombinedVerificationPlan V (np_transactionId input) (np_repositorySetId input) (map verificationEntryOf (np_entries input))
             (np_verifyCommands input) (np_verifyEnvironment input) of
          Inl e \<Rightarrow> Inl (VerificationFailure e) | Inr _ \<Rightarrow> Inr input)"

definition createMultiRepoIntegrationEvent :: "IntegrationPrims \<Rightarrow> 'w VerificationEnv \<Rightarrow> IntegrationPlan \<Rightarrow> IntegrationFailure + IntegrationEvent" where
  "createMultiRepoIntegrationEvent X V plan = bind_res (validatePlan V plan) (\<lambda>validated.
     Inr \<lparr>iv_eventId = ix_eventId X (np_transactionId plan) 0 ActCreate, iv_transactionId = np_transactionId plan, iv_expectedVersion = 0,
          iv_body = IntegrationCreated validated\<rparr>)"

section \<open>The reducer\<close>

definition entryId :: "IntegrationEntry \<Rightarrow> string" where
  "entryId e = ri_repositoryId (ip_repository (ie_plan e))"

definition replaceEntry :: "(IntegrationEntry \<Rightarrow> MultiRepoIntegrationErrorCode + IntegrationEntry) \<Rightarrow> string \<Rightarrow> IntegrationEntry list \<Rightarrow>
    MultiRepoIntegrationErrorCode + IntegrationEntry list" where
  "replaceEntry f k es = replace_by entryId INVALID_INTEGRATION_TRANSITION f k es"

definition recordCandidate :: "IntegrationPrims \<Rightarrow> RepositoryCandidate \<Rightarrow> IntegrationEntry \<Rightarrow> MultiRepoIntegrationErrorCode + IntegrationEntry" where
  "recordCandidate X c e =
     bind_res (checks
       [((case ie_candidate e of None \<Rightarrow> False | Some old \<Rightarrow> ix_candidateDigest X old \<noteq> ix_candidateDigest X c), INVALID_INTEGRATION_TRANSITION),
        (rc_repositoryId c \<noteq> entryId e \<or> rc_targetRef c \<noteq> ip_targetRef (ie_plan e) \<or> rc_expectedOid c \<noteq> ip_expectedOid (ie_plan e) \<or>
           rc_childOid c \<noteq> ip_childOid (ie_plan e), INVALID_INTEGRATION_TRANSITION)]) (\<lambda>_.
     Inr (e\<lparr>ie_candidate := Some c\<rparr>))"

definition recordApplied :: "AppliedResult \<Rightarrow> IntegrationEntry \<Rightarrow> MultiRepoIntegrationErrorCode + IntegrationEntry" where
  "recordApplied r e =
     (if map_option rc_candidateOid (ie_candidate e) \<noteq> Some (appliedOid r) then Inl INVALID_INTEGRATION_TRANSITION
      else Inr (e\<lparr>ie_applyResult := Some r\<rparr>))"

definition integrationGuard :: "bool \<Rightarrow> IntegrationProjection \<Rightarrow> MultiRepoIntegrationErrorCode + IntegrationProjection" where
  "integrationGuard ok next = (if ok then Inr next else Inl INVALID_INTEGRATION_TRANSITION)"

definition nextIntegration :: "IntegrationPrims \<Rightarrow> IntegrationProjection \<Rightarrow> IntegrationBody \<Rightarrow> MultiRepoIntegrationErrorCode + IntegrationProjection" where
  "nextIntegration X p body = (let st = in_state p; es = in_entries p in
     case body of
       IntegrationCreated _ \<Rightarrow> Inl INVALID_INTEGRATION_TRANSITION
     | CandidatePrepared k c \<Rightarrow>
         if st \<noteq> Preparing then Inl INVALID_INTEGRATION_TRANSITION
         else bind_res (replaceEntry (recordCandidate X c) k es) (\<lambda>es'. Inr (p\<lparr>in_entries := es'\<rparr>))
     | IntegrationPrepared \<Rightarrow> integrationGuard (st = Preparing \<and> list_all (\<lambda>e. ie_candidate e \<noteq> None) es) (p\<lparr>in_state := Prepared\<rparr>)
     | VerificationStarted \<Rightarrow> integrationGuard (st = Prepared) (p\<lparr>in_state := Verifying\<rparr>)
     | IntegrationVerified r \<Rightarrow>
         integrationGuard (st = Verifying \<and> cvr_transactionId r = in_transactionId p \<and> cvr_repositorySetId r = in_repositorySetId p)
           (p\<lparr>in_state := VectorVerified, in_verification := Some r\<rparr>)
     | ApplyingStarted \<Rightarrow> integrationGuard (st = VectorVerified \<and> in_verification p \<noteq> None) (p\<lparr>in_state := Applying\<rparr>)
     | EntryApplied k r \<Rightarrow>
         if st \<noteq> Applying then Inl INVALID_INTEGRATION_TRANSITION
         else bind_res (replaceEntry (recordApplied r) k es) (\<lambda>es'. Inr (p\<lparr>in_entries := es'\<rparr>))
     | CompensationStarted reason \<Rightarrow>
         integrationGuard (st = Applying \<and> list_ex (\<lambda>e. ie_applyResult e \<noteq> None) es) (p\<lparr>in_state := Compensating, in_recoveryReason := Some reason\<rparr>)
     | EntryCompensated k r \<Rightarrow>
         if st \<noteq> Compensating then Inl INVALID_INTEGRATION_TRANSITION
         else bind_res (replaceEntry (\<lambda>e. Inr (e\<lparr>ie_compensationResult := Some r\<rparr>)) k es) (\<lambda>es'. Inr (p\<lparr>in_entries := es'\<rparr>))
     | IntegrationApplied \<Rightarrow> integrationGuard (st = Applying \<and> list_all (\<lambda>e. ie_applyResult e \<noteq> None) es) (p\<lparr>in_state := VectorApplied\<rparr>)
     | IntegrationCompensated \<Rightarrow>
         integrationGuard (st = Compensating \<and> list_all (\<lambda>e. ie_applyResult e \<noteq> None \<longrightarrow> ie_compensationResult e \<noteq> None) es) (p\<lparr>in_state := VectorCompensated\<rparr>)
     | IntegrationRecoveryRequired reason _ _ \<Rightarrow>
         integrationGuard (st \<noteq> VectorApplied \<and> st \<noteq> VectorCompensated) (p\<lparr>in_state := RecoveryRequired, in_recoveryReason := Some reason\<rparr>))"

definition createdIntegration :: "IntegrationPrims \<Rightarrow> IntegrationEvent \<Rightarrow> IntegrationPlan \<Rightarrow> IntegrationProjection" where
  "createdIntegration X e plan = \<lparr>in_transactionId = iv_transactionId e, in_repositorySetId = np_repositorySetId plan, in_version = 1,
     in_state = Preparing, in_plan = plan,
     in_entries = map (\<lambda>p. \<lparr>ie_plan = p, ie_candidate = None, ie_applyResult = None, ie_compensationResult = None\<rparr>) (np_entries plan),
     in_verification = None, in_recoveryReason = None, in_eventIds = [(iv_eventId e, ix_eventDigest X e)]\<rparr>"

definition applyMultiRepoIntegrationEvent :: "IntegrationPrims \<Rightarrow> IntegrationProjection option \<Rightarrow> IntegrationEvent \<Rightarrow> MultiRepoIntegrationErrorCode + IntegrationProjection" where
  "applyMultiRepoIntegrationEvent X current e = (case current of
     None \<Rightarrow> (case iv_body e of
         IntegrationCreated plan \<Rightarrow> if iv_expectedVersion e \<noteq> 0 then Inl INVALID_INTEGRATION_TRANSITION else Inr (createdIntegration X e plan)
       | _ \<Rightarrow> Inl INVALID_INTEGRATION_TRANSITION)
   | Some p \<Rightarrow> (case obj_get (in_eventIds p) (iv_eventId e) of
         Some prior \<Rightarrow> if prior \<noteq> ix_eventDigest X e then Inl INTEGRATION_EVENT_ID_CONFLICT else Inr p
       | None \<Rightarrow>
           if iv_transactionId e \<noteq> in_transactionId p \<or> iv_expectedVersion e \<noteq> in_version p then Inl STALE_INTEGRATION_VERSION
           else bind_res (nextIntegration X p (iv_body e)) (\<lambda>p'.
             Inr (p'\<lparr>in_version := in_version p + 1, in_eventIds := obj_set (iv_eventId e) (ix_eventDigest X e) (in_eventIds p)\<rparr>))))"

definition reduceMultiRepoIntegrationEvents :: "IntegrationPrims \<Rightarrow> IntegrationEvent list \<Rightarrow> MultiRepoIntegrationErrorCode + IntegrationProjection" where
  "reduceMultiRepoIntegrationEvents X events =
     bind_res (fold_res (\<lambda>p e. map_sum id Some (applyMultiRepoIntegrationEvent X p e)) None events)
       (\<lambda>p. case p of None \<Rightarrow> Inl INVALID_INTEGRATION_TRANSITION | Some q \<Rightarrow> Inr q)"

section \<open>One reconciliation step\<close>

definition integrationEvent :: "IntegrationPrims \<Rightarrow> IntegrationProjection \<Rightarrow> IntegrationAction \<Rightarrow> IntegrationBody \<Rightarrow> IntegrationEvent" where
  "integrationEvent X p action body = \<lparr>iv_eventId = ix_eventId X (in_transactionId p) (in_version p) action, iv_transactionId = in_transactionId p,
     iv_expectedVersion = in_version p, iv_body = body\<rparr>"

definition recoveryEvent :: "IntegrationPrims \<Rightarrow> IntegrationProjection \<Rightarrow> IntegrationReason \<Rightarrow> string option \<Rightarrow> string option option \<Rightarrow> IntegrationEvent" where
  "recoveryEvent X p reason repositoryId observedOid = integrationEvent X p (ActRecovery reason repositoryId) (IntegrationRecoveryRequired reason repositoryId observedOid)"

type_synonym 'w reconciled = "(IntegrationFailure + IntegrationEvent option) \<times> 'w"

definition emit :: "IntegrationEvent \<Rightarrow> 'w \<Rightarrow> 'w reconciled" where
  "emit e w = (Inr (Some e), w)"

definition reconcilePreparing :: "IntegrationPrims \<Rightarrow> 'w GitEnv \<Rightarrow> IntegrationProjection \<Rightarrow> 'w \<Rightarrow> 'w reconciled" where
  "reconcilePreparing X G p w = (case find (\<lambda>e. ie_candidate e = None) (in_entries p) of
     None \<Rightarrow> emit (integrationEvent X p ActPrepared IntegrationPrepared) w
   | Some e \<Rightarrow> let q = ie_plan e in
       (case prepareRepositoryCandidate G (ip_repository q) (ip_targetRef q) (ip_expectedOid q) (ip_childOid q) (ip_message q) w of
          (Inr c, w') \<Rightarrow> emit (integrationEvent X p (ActCandidate (entryId e)) (CandidatePrepared (entryId e) c)) w'
        | (Inl err, w') \<Rightarrow> emit (recoveryEvent X p (PreparationThrew err) (Some (entryId e)) None) w'))"

definition candidateEntry :: "IntegrationEntry \<Rightarrow> RepositoryCandidate \<Rightarrow> CandidateVerificationEntry" where
  "candidateEntry e c = \<lparr>cv_repositoryId = entryId e, cv_canonicalWorkspacePath = ip_canonicalWorkspacePath (ie_plan e), cv_targetRef = rc_targetRef c,
     cv_expectedOid = rc_expectedOid c, cv_childOid = rc_childOid c, cv_candidateOid = rc_candidateOid c, cv_treeOid = rc_treeOid c\<rparr>"

definition candidateEntries :: "IntegrationEntry list \<Rightarrow> CandidateVerificationEntry list option" where
  "candidateEntries es = (if list_all (\<lambda>e. ie_candidate e \<noteq> None) es then Some (map (\<lambda>e. candidateEntry e (the (ie_candidate e))) es) else None)"

definition reconcileVerifying :: "IntegrationPrims \<Rightarrow> 'w VerificationEnv \<Rightarrow> IntegrationProjection \<Rightarrow> 'w \<Rightarrow> 'w reconciled" where
  "reconcileVerifying X V p w = (case candidateEntries (in_entries p) of
     None \<Rightarrow> (Inl (IntegrationError INVALID_INTEGRATION_TRANSITION), w)
   | Some candidates \<Rightarrow>
       (case materializeCombinedVerificationPlan V (in_transactionId p) (in_repositorySetId p) candidates (np_verifyCommands (in_plan p)) (np_verifyEnvironment (in_plan p)) of
          Inl e \<Rightarrow> (Inl (VerificationFailure e), w)
        | Inr plan \<Rightarrow>
            (case executeCombinedVerification V plan (np_verifyEnvironment (in_plan p)) w of
               (Inl e, w') \<Rightarrow> emit (recoveryEvent X p (VerificationThrew e) None None) w'
             | (Inr outcome, w') \<Rightarrow>
                 if co_state outcome \<noteq> Verified
                   then emit (recoveryEvent X p (case co_reasonCode outcome of Some r \<Rightarrow> VerificationRefused r | None \<Rightarrow> VERIFICATION_FAILED) None None) w'
                 else (case createCombinedVerificationReceipt V outcome (ix_verifiedAt X) of
                   None \<Rightarrow> (Inl ReceiptFailure, w')
                 | Some receipt \<Rightarrow> emit (integrationEvent X p ActVerified (IntegrationVerified receipt)) w'))))"

definition appliedEvent :: "IntegrationPrims \<Rightarrow> IntegrationProjection \<Rightarrow> IntegrationEntry \<Rightarrow> RepositoryCasResult \<Rightarrow> IntegrationEvent" where
  "appliedEvent X p e result = (case result of
     CasApplied oid \<Rightarrow> integrationEvent X p (ActApplied (entryId e)) (EntryApplied (entryId e) (Applied oid))
   | CasAlreadyApplied oid \<Rightarrow> integrationEvent X p (ActApplied (entryId e)) (EntryApplied (entryId e) (AlreadyApplied oid))
   | CasRefused oid \<Rightarrow>
       if list_ex (\<lambda>i. ie_applyResult i \<noteq> None) (in_entries p) then integrationEvent X p (ActCompensate (entryId e)) (CompensationStarted REF_MOVED)
       else recoveryEvent X p REF_MOVED (Some (entryId e)) (Some oid)
   | CasRecovery r oid \<Rightarrow> recoveryEvent X p (CasReason r) (Some (entryId e)) oid)"

definition reconcileApplying :: "IntegrationPrims \<Rightarrow> 'w GitEnv \<Rightarrow> IntegrationProjection \<Rightarrow> 'w \<Rightarrow> 'w reconciled" where
  "reconcileApplying X G p w = (case find (\<lambda>e. ie_applyResult e = None) (in_entries p) of
     None \<Rightarrow> emit (integrationEvent X p ActAllApplied IntegrationApplied) w
   | Some e \<Rightarrow> (case ie_candidate e of None \<Rightarrow> (Inl NonNullFailure, w)
       | Some c \<Rightarrow> (case applyRepositoryCandidate G (ip_repository (ie_plan e)) c w of
            (Inl err, w') \<Rightarrow> (Inl (GitFailure err), w')
          | (Inr result, w') \<Rightarrow> emit (appliedEvent X p e result) w')))"

definition compensatedEvent :: "IntegrationPrims \<Rightarrow> IntegrationProjection \<Rightarrow> IntegrationEntry \<Rightarrow> RepositoryCompensationResult \<Rightarrow> IntegrationEvent" where
  "compensatedEvent X p e result = (case result of
     Compensated oid \<Rightarrow> integrationEvent X p (ActCompensated (entryId e)) (EntryCompensated (entryId e) (CompensatedNow oid))
   | AlreadyCompensated oid \<Rightarrow> integrationEvent X p (ActCompensated (entryId e)) (EntryCompensated (entryId e) (CompensatedBefore oid))
   | CompensationRefused oid \<Rightarrow> recoveryEvent X p EXTERNAL_MOVE (Some (entryId e)) (Some oid)
   | CompensationRecovery r oid \<Rightarrow> recoveryEvent X p (CasReason r) (Some (entryId e)) oid)"

definition reconcileCompensating :: "IntegrationPrims \<Rightarrow> 'w GitEnv \<Rightarrow> IntegrationProjection \<Rightarrow> 'w \<Rightarrow> 'w reconciled" where
  "reconcileCompensating X G p w = (case find (\<lambda>e. ie_applyResult e \<noteq> None \<and> ie_compensationResult e = None) (rev (in_entries p)) of
     None \<Rightarrow> emit (integrationEvent X p ActAllCompensated IntegrationCompensated) w
   | Some e \<Rightarrow> (case ie_candidate e of None \<Rightarrow> (Inl NonNullFailure, w)
       | Some c \<Rightarrow> (case compensateRepositoryCandidate G (ip_repository (ie_plan e)) c w of
            (Inl err, w') \<Rightarrow> (Inl (GitFailure err), w')
          | (Inr result, w') \<Rightarrow> emit (compensatedEvent X p e result) w')))"

definition reconcileMultiRepoIntegrationOnce :: "IntegrationPrims \<Rightarrow> 'w GitEnv \<Rightarrow> 'w VerificationEnv \<Rightarrow> IntegrationProjection \<Rightarrow> 'w \<Rightarrow> 'w reconciled" where
  "reconcileMultiRepoIntegrationOnce X G V p w =
     (if in_state p \<in> {VectorApplied, VectorCompensated, RecoveryRequired} then (Inr None, w)
      else if \<not> ix_assertHeld X (map entryId (in_entries p)) then (Inl (IntegrationError AUTHORITY_MISSING), w)
      else case in_state p of
        Preparing \<Rightarrow> reconcilePreparing X G p w
      | Prepared \<Rightarrow> emit (integrationEvent X p ActVerificationStart VerificationStarted) w
      | Verifying \<Rightarrow> reconcileVerifying X V p w
      | VectorVerified \<Rightarrow> emit (integrationEvent X p ActApplyingStart ApplyingStarted) w
      | Applying \<Rightarrow> reconcileApplying X G p w
      | Compensating \<Rightarrow> reconcileCompensating X G p w
      | _ \<Rightarrow> (Inr None, w))"

end
