(* ===== verification/Integration_Props.thy ===== *)
theory Integration_Props
  imports Integration
begin

text \<open>
  The integration transaction: what its events establish, that the reconciler only emits events the reducer accepts
  and comes to an end, and that under compare-and-swap of branches it is atomic across repositories.
\<close>

section \<open>Updating entries\<close>

lemma replaceEntry_Inr:
  "replaceEntry f k es = Inr es' \<longleftrightarrow> k \<in> set (map entryId es) \<and> list_all2 (\<lambda>e e'. if entryId e = k then f e = Inr e' else e' = e) es es'"
  by (simp add: replaceEntry_def replace_by_Inr)

section \<open>The phases of a transaction\<close>

definition entry_ok :: "IntegrationEntry \<Rightarrow> bool" where
  "entry_ok e \<longleftrightarrow>
     (\<forall>c. ie_candidate e = Some c \<longrightarrow> rc_repositoryId c = entryId e \<and> rc_targetRef c = ip_targetRef (ie_plan e) \<and>
        rc_expectedOid c = ip_expectedOid (ie_plan e) \<and> rc_childOid c = ip_childOid (ie_plan e)) \<and>
     (\<forall>r. ie_applyResult e = Some r \<longrightarrow> map_option rc_candidateOid (ie_candidate e) = Some (appliedOid r))"

definition receipt_ok :: "IntegrationProjection \<Rightarrow> bool" where
  "receipt_ok p \<longleftrightarrow> (\<exists>r. in_verification p = Some r \<and> cvr_transactionId r = in_transactionId p \<and> cvr_repositorySetId r = in_repositorySetId p)"

definition integ_ok :: "IntegrationProjection \<Rightarrow> bool" where
  "integ_ok p \<longleftrightarrow> map ie_plan (in_entries p) = np_entries (in_plan p) \<and> list_all entry_ok (in_entries p) \<and>
     (in_state p \<notin> {Preparing, RecoveryRequired} \<longrightarrow> list_all (\<lambda>e. ie_candidate e \<noteq> None) (in_entries p)) \<and>
     (in_state p \<in> {VectorVerified, Applying, VectorApplied, Compensating, VectorCompensated} \<longrightarrow> receipt_ok p) \<and>
     (in_state p \<in> {Preparing, Prepared, Verifying, VectorVerified} \<longrightarrow> list_all (\<lambda>e. ie_applyResult e = None) (in_entries p)) \<and>
     (in_state p \<in> {Preparing, Prepared, Verifying, VectorVerified, Applying, VectorApplied} \<longrightarrow> list_all (\<lambda>e. ie_compensationResult e = None) (in_entries p)) \<and>
     (in_state p = VectorApplied \<longrightarrow> list_all (\<lambda>e. ie_applyResult e \<noteq> None) (in_entries p)) \<and>
     (in_state p = VectorCompensated \<longrightarrow> list_all (\<lambda>e. ie_applyResult e \<noteq> None \<longrightarrow> ie_compensationResult e \<noteq> None) (in_entries p)) \<and>
     (list_ex (\<lambda>e. ie_applyResult e \<noteq> None) (in_entries p) \<longrightarrow> receipt_ok p)"


lemma entryId_plan: "ie_plan e' = ie_plan e \<Longrightarrow> entryId e' = entryId e"
  by (simp add: entryId_def)

text \<open>The effect of an event on the entries: one entry changes, the others do not, and plans never do.\<close>

definition entry_change :: "IntegrationBody \<Rightarrow> IntegrationEntry \<Rightarrow> IntegrationEntry \<Rightarrow> bool" where
  "entry_change body e e' \<longleftrightarrow> e' = e \<or> ie_plan e' = ie_plan e \<and> (case body of
     CandidatePrepared k c \<Rightarrow> entryId e = k \<and> e' = e\<lparr>ie_candidate := Some c\<rparr> \<and> rc_repositoryId c = entryId e \<and> rc_targetRef c = ip_targetRef (ie_plan e) \<and>
       rc_expectedOid c = ip_expectedOid (ie_plan e) \<and> rc_childOid c = ip_childOid (ie_plan e)
   | EntryApplied k r \<Rightarrow> entryId e = k \<and> e' = e\<lparr>ie_applyResult := Some r\<rparr> \<and> map_option rc_candidateOid (ie_candidate e) = Some (appliedOid r)
   | EntryCompensated k r \<Rightarrow> entryId e = k \<and> e' = e\<lparr>ie_compensationResult := Some r\<rparr>
   | _ \<Rightarrow> False)"

lemma next_entries:
  assumes "nextIntegration X p body = Inr p'"
  shows "list_all2 (entry_change body) (in_entries p) (in_entries p')"
proof -
  have same: "list_all2 (entry_change body) es es" for es by (rule list_all2_refl) (simp add: entry_change_def)
  show ?thesis using assms same
    by (cases body)
      (auto simp: nextIntegration_def Let_def integrationGuard_def replaceEntry_Inr entry_change_def recordCandidate_def recordApplied_def
        split: if_splits elim!: list_all2_mono)
qed


text \<open>An event also moves the state of the transaction, and records the receipt.\<close>

lemma next_state:
  assumes "nextIntegration X p body = Inr p'"
  shows "in_transactionId p' = in_transactionId p \<and> in_repositorySetId p' = in_repositorySetId p \<and> in_plan p' = in_plan p \<and>
    (case body of
       CandidatePrepared _ _ \<Rightarrow> in_state p = Preparing \<and> in_state p' = Preparing \<and> in_verification p' = in_verification p
     | IntegrationPrepared \<Rightarrow> in_state p = Preparing \<and> in_state p' = Prepared \<and> list_all (\<lambda>e. ie_candidate e \<noteq> None) (in_entries p) \<and> in_verification p' = in_verification p
     | VerificationStarted \<Rightarrow> in_state p = Prepared \<and> in_state p' = Verifying \<and> in_verification p' = in_verification p
     | IntegrationVerified r \<Rightarrow> in_state p = Verifying \<and> in_state p' = VectorVerified \<and> receipt_ok p'
     | ApplyingStarted \<Rightarrow> in_state p = VectorVerified \<and> in_state p' = Applying \<and> in_verification p' = in_verification p
     | EntryApplied _ _ \<Rightarrow> in_state p = Applying \<and> in_state p' = Applying \<and> in_verification p' = in_verification p
     | CompensationStarted _ \<Rightarrow> in_state p = Applying \<and> in_state p' = Compensating \<and> in_verification p' = in_verification p \<and>
         list_ex (\<lambda>e. ie_applyResult e \<noteq> None) (in_entries p)
     | EntryCompensated _ _ \<Rightarrow> in_state p = Compensating \<and> in_state p' = Compensating \<and> in_verification p' = in_verification p
     | IntegrationApplied \<Rightarrow> in_state p = Applying \<and> in_state p' = VectorApplied \<and> in_verification p' = in_verification p \<and>
         list_all (\<lambda>e. ie_applyResult e \<noteq> None) (in_entries p)
     | IntegrationCompensated \<Rightarrow> in_state p = Compensating \<and> in_state p' = VectorCompensated \<and> in_verification p' = in_verification p \<and>
         list_all (\<lambda>e. ie_applyResult e \<noteq> None \<longrightarrow> ie_compensationResult e \<noteq> None) (in_entries p)
     | IntegrationRecoveryRequired _ _ _ \<Rightarrow> in_state p \<notin> {VectorApplied, VectorCompensated} \<and> in_state p' = RecoveryRequired \<and> in_verification p' = in_verification p
     | IntegrationCreated _ \<Rightarrow> False)"
  using assms by (cases body) (auto simp: nextIntegration_def Let_def integrationGuard_def receipt_ok_def split: if_splits)

lemma entry_change_keeps:
  assumes "list_all2 (entry_change body) es es'"
  shows "map ie_plan es' = map ie_plan es"
    and "(\<And>k c. body \<noteq> CandidatePrepared k c) \<Longrightarrow> map ie_candidate es' = map ie_candidate es"
    and "(\<And>k r. body \<noteq> EntryApplied k r) \<Longrightarrow> map ie_applyResult es' = map ie_applyResult es"
    and "(\<And>k r. body \<noteq> EntryCompensated k r) \<Longrightarrow> map ie_compensationResult es' = map ie_compensationResult es"
  by (rule list_all2_map_eq [OF assms]; auto simp: entry_change_def split: IntegrationBody.splits)+


lemma entry_change_same:
  assumes "list_all2 (entry_change body) es es'" "\<And>k c. body \<noteq> CandidatePrepared k c" "\<And>k r. body \<noteq> EntryApplied k r" "\<And>k r. body \<noteq> EntryCompensated k r"
  shows "es' = es"
  using assms(1) by (induction rule: list_all2_induct) (use assms(2-4) in \<open>auto simp: entry_change_def split: IntegrationBody.splits\<close>)

lemma entry_ok_change: "entry_change body e e' \<Longrightarrow> entry_ok e \<Longrightarrow> (\<And>k c. body = CandidatePrepared k c \<Longrightarrow> ie_applyResult e = None) \<Longrightarrow> entry_ok e'"
  by (auto simp: entry_change_def entry_ok_def entryId_def split: IntegrationBody.splits)

lemma list_all_of_map: "map f es' = map f es \<Longrightarrow> list_all (\<lambda>e. A (f e)) es \<Longrightarrow> list_all (\<lambda>e. A (f e)) es'"
  by (metis (mono_tags, lifting) list.pred_map list.pred_cong comp_def)

lemma integ_ok_step:
  assumes ok: "integ_ok p" and nx: "nextIntegration X p body = Inr p'"
  shows "integ_ok p'"
proof -
  note ch = next_entries [OF nx] and st = next_state [OF nx]
  have plans: "map ie_plan (in_entries p') = np_entries (in_plan p')" using ok st entry_change_keeps(1) [OF ch] by (simp add: integ_ok_def)
  have r: "receipt_ok p' = receipt_ok p" if "in_verification p' = in_verification p" using that st by (simp add: receipt_ok_def)
  have entries: "list_all entry_ok (in_entries p')" if "\<And>k c. body = CandidatePrepared k c \<Longrightarrow> list_all (\<lambda>e. ie_applyResult e = None) (in_entries p)"
  proof (rule list_all2_all [OF ch])
    show "list_all (\<lambda>e. entry_ok e \<and> ((\<exists>k c. body = CandidatePrepared k c) \<longrightarrow> ie_applyResult e = None)) (in_entries p)"
      using ok that unfolding integ_ok_def list_all_iff by blast
  qed (use entry_ok_change in blast)
  note keep = entry_change_keeps [OF ch]
  consider (cand) k c where "body = CandidatePrepared k c" | (appl) k r where "body = EntryApplied k r" | (comp) k r where "body = EntryCompensated k r"
    | (other) "in_entries p' = in_entries p"
    using entry_change_same [OF ch] by blast
  then show ?thesis
  proof cases
    case cand
    then have s: "in_state p = Preparing" "in_state p' = Preparing" using st by auto
    have none: "list_all (\<lambda>e. ie_applyResult e = None) (in_entries p)" "list_all (\<lambda>e. ie_compensationResult e = None) (in_entries p)"
      using ok s by (simp_all add: integ_ok_def)
    have "list_all (\<lambda>e. ie_applyResult e = None) (in_entries p')" "list_all (\<lambda>e. ie_compensationResult e = None) (in_entries p')"
      using list_all_of_map [OF keep(3), of "\<lambda>x. x = None"] list_all_of_map [OF keep(4), of "\<lambda>x. x = None"] none cand by simp_all
    with entries none(1) plans s show ?thesis by (auto simp: integ_ok_def list_all_iff list_ex_iff)
  next
    case appl
    then have s: "in_state p = Applying" "in_state p' = Applying" "receipt_ok p'" using st ok r by (auto simp: integ_ok_def)
    have "list_all (\<lambda>e. ie_candidate e \<noteq> None) (in_entries p')" "list_all (\<lambda>e. ie_compensationResult e = None) (in_entries p')"
      using list_all_of_map [OF keep(2), of "\<lambda>x. x \<noteq> None"] list_all_of_map [OF keep(4), of "\<lambda>x. x = None"] ok s(1) appl by (simp_all add: integ_ok_def)
    with entries plans s appl show ?thesis by (simp add: integ_ok_def)
  next
    case comp
    then have s: "in_state p = Compensating" "in_state p' = Compensating" "receipt_ok p'" using st ok r by (auto simp: integ_ok_def)
    have "list_all (\<lambda>e. ie_candidate e \<noteq> None) (in_entries p')"
      using list_all_of_map [OF keep(2), of "\<lambda>x. x \<noteq> None"] ok s(1) comp by (simp add: integ_ok_def)
    with entries plans s comp show ?thesis by (simp add: integ_ok_def)
  next
    case other
    show ?thesis using ok st r other plans by (cases body) (auto simp: integ_ok_def list_all_iff list_ex_iff)
  qed
qed


lemma created_ok: "integ_ok (createdIntegration X e plan)"
  by (simp add: integ_ok_def createdIntegration_def list_all_iff list_ex_iff entry_ok_def comp_def)

lemma integ_ok_stamp: "integ_ok (p\<lparr>in_version := v, in_eventIds := ids\<rparr>) \<longleftrightarrow> integ_ok p"
  by (simp add: integ_ok_def receipt_ok_def)

lemma apply_integ_ok:
  assumes "applyMultiRepoIntegrationEvent X cur e = Inr p'" "\<And>p. cur = Some p \<Longrightarrow> integ_ok p"
  shows "integ_ok p'"
  using assms integ_ok_step
  by (auto simp: applyMultiRepoIntegrationEvent_def created_ok integ_ok_stamp split: option.splits IntegrationBody.splits if_splits)

interpretation integration: event_fold "\<lambda>p e. map_sum id Some (applyMultiRepoIntegrationEvent X p e)" "\<lambda>cur. \<forall>p. cur = Some p \<longrightarrow> integ_ok p" for X
proof
  fix cur e cur' assume ok: "\<forall>p. cur = Some p \<longrightarrow> integ_ok p" and s: "map_sum id Some (applyMultiRepoIntegrationEvent X cur e) = Inr cur'"
  then obtain p' where "applyMultiRepoIntegrationEvent X cur e = Inr p'" "cur' = Some p'"
    by (cases "applyMultiRepoIntegrationEvent X cur e") auto
  then show "\<forall>p. cur' = Some p \<longrightarrow> integ_ok p" using apply_integ_ok ok by blast
qed

lemma reduce_integ_ok:
  assumes "reduceMultiRepoIntegrationEvents X es = Inr p"
  shows "integ_ok p"
proof -
  from assms have "fold_res (\<lambda>p e. map_sum id Some (applyMultiRepoIntegrationEvent X p e)) None es = Inr (Some p)"
    by (auto simp: reduceMultiRepoIntegrationEvents_def split: option.splits)
  then show ?thesis using integration.replay_inv [of None X es "Some p"] by simp
qed

section \<open>What the external steps return\<close>

lemma git_bind_Inr: "git_bind m f w = (Inr y, w') \<longleftrightarrow> (\<exists>x w1. m w = (Inr x, w1) \<and> f x w1 = (Inr y, w'))"
  by (auto simp: git_bind_def split: prod.splits sum.splits)

lemma git_bind_run: "git_bind (git_run G cwd args) f w = f (fst (ge_run G w cwd args)) (snd (ge_run G w cwd args))"
  by (simp add: git_bind_def git_run_def split: prod.splits)

lemma git_basic [simp]:
  "git_return x w = (Inr x, w)" "git_require c e w = (Inr u, w') \<longleftrightarrow> c \<and> w' = w" "requireRef v w = (Inr v', w') \<longleftrightarrow> refOk v \<and> v' = v \<and> w' = w"
  "requireOid v w = (Inr v', w') \<longleftrightarrow> oidOk v \<and> v' = v \<and> w' = w"
  by (auto simp: git_return_def git_require_def requireRef_def requireOid_def git_bind_def split: prod.splits sum.splits if_splits)

lemma resolveCommit_oid: "resolveCommit G cwd oid w = (Inr x, w') \<Longrightarrow> x = oid"
  by (auto simp: resolveCommit_def git_bind_Inr)

lemma prepared_matches:
  assumes "prepareRepositoryCandidate G r ref expected child message w = (Inr c, w')"
  shows "rc_repositoryId c = ri_repositoryId r \<and> rc_targetRef c = ref \<and> rc_expectedOid c = expected \<and> rc_childOid c = child"
  using assms by (auto simp: prepareRepositoryCandidate_def git_bind_Inr dest!: resolveCommit_oid)

lemma casOutcome_applied: "casOutcome c u ob = CasApplied oid \<Longrightarrow> oid = rc_candidateOid c" "casOutcome c u ob \<noteq> CasAlreadyApplied oid"
  by (auto simp: casOutcome_def split: RefObservation.splits if_splits)

lemma applied_oid:
  assumes "applyRepositoryCandidate G r c w = (Inr result, w')" "result = CasApplied oid \<or> result = CasAlreadyApplied oid"
  shows "oid = rc_candidateOid c"
  using assms by (auto simp: applyRepositoryCandidate_def git_catch_def git_bind_Inr casOutcome_applied split: prod.splits sum.splits if_splits)

lemma runCommands_plan: "runCommands V plan env i cs rs w = (Inr outcome, w') \<Longrightarrow> co_plan outcome = plan"
  by (induction V plan env i cs rs w rule: runCommands.induct)
    (auto simp: verificationOutcome_def split: prod.splits option.splits if_splits)

lemma verified_plan: "executeCombinedVerification V plan env w = (Inr outcome, w') \<Longrightarrow> co_plan outcome = plan"
  by (auto simp: executeCombinedVerification_def verificationOutcome_def dest: runCommands_plan split: sum.splits if_splits)

lemma receipt_of_plan:
  "createCombinedVerificationReceipt V outcome at = Some r \<Longrightarrow>
   cvr_transactionId r = vp_transactionId (co_plan outcome) \<and> cvr_repositorySetId r = vp_repositorySetId (co_plan outcome)"
  by (auto simp: createCombinedVerificationReceipt_def Let_def split: if_splits)

lemma materialized_plan:
  "materializeCombinedVerificationPlan V tx rs es cs env = Inr plan \<Longrightarrow> vp_transactionId plan = tx \<and> vp_repositorySetId plan = rs"
  by (auto simp: materializeCombinedVerificationPlan_def)


section \<open>Progress\<close>

text \<open>The number of events a transaction may still take.\<close>

definition remaining :: "IntegrationProjection \<Rightarrow> nat" where
  "remaining p = (let es = in_entries p; n = length es in case in_state p of
     Preparing \<Rightarrow> 2 * n + 6 + length (filter (\<lambda>e. ie_candidate e = None) es)
   | Prepared \<Rightarrow> 2 * n + 5
   | Verifying \<Rightarrow> 2 * n + 4
   | VectorVerified \<Rightarrow> 2 * n + 3
   | Applying \<Rightarrow> n + 2 + length (filter (\<lambda>e. ie_applyResult e = None) es)
   | Compensating \<Rightarrow> 1 + length (filter (\<lambda>e. ie_applyResult e \<noteq> None \<and> ie_compensationResult e = None) es)
   | _ \<Rightarrow> 0)"

lemma filter_bound [simp]: "length (filter Q es) < Suc (length es)" "length (filter Q es) < Suc (length es + m)"
  by (simp_all add: le_imp_less_Suc trans_le_add1)

lemma replaceEntry_one:
  assumes "distinct (map entryId es)" "e \<in> set es" "f e = Inr e'" "Q e" "\<not> Q e'"
  obtains es' where "replaceEntry f (entryId e) es = Inr es'" "length es' = length es" "length (filter Q es') < length (filter Q es)"
proof (rule replace_by_one [where key = entryId and f = f and err = INVALID_INTEGRATION_TRANSITION, OF assms(1-3)])
  fix pre post assume "es = pre @ e # post" "replace_by entryId INVALID_INTEGRATION_TRANSITION f (entryId e) es = Inr (pre @ e' # post)"
  with that [of "pre @ e' # post"] assms(4,5) show thesis by (simp add: replaceEntry_def)
qed

definition accepted :: "IntegrationPrims \<Rightarrow> IntegrationProjection \<Rightarrow> IntegrationEvent \<Rightarrow> bool" where
  "accepted X p e \<longleftrightarrow> iv_transactionId e = in_transactionId p \<and> iv_expectedVersion e = in_version p \<and>
     (\<exists>p'. nextIntegration X p (iv_body e) = Inr p' \<and> remaining p' < remaining p)"

lemma accepted_event:
  "accepted X p (integrationEvent X p a body) \<longleftrightarrow> (\<exists>p'. nextIntegration X p body = Inr p' \<and> remaining p' < remaining p)"
  by (simp add: accepted_def integrationEvent_def)

lemma accepted_recovery:
  assumes "in_state p \<notin> {VectorApplied, VectorCompensated, RecoveryRequired}"
  shows "accepted X p (recoveryEvent X p reason k oid)"
proof -
  have "0 < remaining p" using assms by (cases "in_state p") (auto simp: remaining_def Let_def)
  then show ?thesis using assms
    by (auto simp: recoveryEvent_def accepted_event nextIntegration_def Let_def integrationGuard_def remaining_def [of "p\<lparr>in_state := RecoveryRequired, in_recoveryReason := Some reason\<rparr>"])
qed

lemma preparing_accepted:
  assumes ok: "integ_ok p" and dis: "distinct (map entryId (in_entries p))" and st: "in_state p = Preparing"
    and r: "reconcilePreparing X G p w = (Inr (Some e), w')"
  shows "accepted X p e"
proof (cases "find (\<lambda>e. ie_candidate e = None) (in_entries p)")
  case None
  then have "list_all (\<lambda>e. ie_candidate e \<noteq> None) (in_entries p)" by (auto simp: find_None_iff list_all_iff)
  with None r st show ?thesis
    by (auto simp: reconcilePreparing_def emit_def accepted_event nextIntegration_def Let_def integrationGuard_def remaining_def)
next
  case (Some i)
  note mem = find_member [OF Some]
  show ?thesis
  proof (cases "fst (prepareRepositoryCandidate G (ip_repository (ie_plan i)) (ip_targetRef (ie_plan i)) (ip_expectedOid (ie_plan i)) (ip_childOid (ie_plan i)) (ip_message (ie_plan i)) w)")
    case (Inl err)
    with r Some st accepted_recovery [of p] show ?thesis by (auto simp: reconcilePreparing_def emit_def Let_def split: prod.splits)
  next
    case (Inr c)
    then obtain w1 where c: "prepareRepositoryCandidate G (ip_repository (ie_plan i)) (ip_targetRef (ie_plan i)) (ip_expectedOid (ie_plan i)) (ip_childOid (ie_plan i)) (ip_message (ie_plan i)) w = (Inr c, w1)"
      by (metis prod.collapse)
    have "recordCandidate X c i = Inr (i\<lparr>ie_candidate := Some c\<rparr>)"
      using prepared_matches [OF c] mem by (simp add: recordCandidate_def checks.simps bind_res_def entryId_def)
    from replaceEntry_one [where f = "recordCandidate X c" and e = i and Q = "\<lambda>e. ie_candidate e = None", OF dis _ this] mem obtain es' where
      "replaceEntry (recordCandidate X c) (entryId i) (in_entries p) = Inr es'" "length es' = length (in_entries p)"
      "length (filter (\<lambda>e. ie_candidate e = None) es') < length (filter (\<lambda>e. ie_candidate e = None) (in_entries p))" by auto
    with r Some st c show ?thesis
      by (auto simp: reconcilePreparing_def emit_def Let_def accepted_event nextIntegration_def remaining_def)
  qed
qed


lemma verifying_accepted:
  assumes "in_state p = Verifying" "reconcileVerifying X V p w = (Inr (Some e), w')"
  shows "accepted X p e"
proof -
  from assms(2) obtain candidates plan where c: "candidateEntries (in_entries p) = Some candidates"
    and m: "materializeCombinedVerificationPlan V (in_transactionId p) (in_repositorySetId p) candidates (np_verifyCommands (in_plan p)) (np_verifyEnvironment (in_plan p)) = Inr plan"
    by (auto simp: reconcileVerifying_def split: option.splits sum.splits)
  obtain res w1 where x: "executeCombinedVerification V plan (np_verifyEnvironment (in_plan p)) w = (res, w1)" by fastforce
  show ?thesis
  proof (cases "\<exists>outcome receipt. res = Inr outcome \<and> co_state outcome = Verified \<and> createCombinedVerificationReceipt V outcome (ix_verifiedAt X) = Some receipt")
    case True
    then obtain outcome receipt where o: "res = Inr outcome" "co_state outcome = Verified" "createCombinedVerificationReceipt V outcome (ix_verifiedAt X) = Some receipt" by blast
    have "e = integrationEvent X p ActVerified (IntegrationVerified receipt)"
      using assms(2) c m x o by (simp add: reconcileVerifying_def emit_def)
    moreover have "cvr_transactionId receipt = in_transactionId p \<and> cvr_repositorySetId receipt = in_repositorySetId p"
      using receipt_of_plan [OF o(3)] verified_plan [of V plan _ w outcome w1] x o(1) materialized_plan [OF m] by simp
    ultimately show ?thesis using assms(1) by (simp add: accepted_event nextIntegration_def Let_def integrationGuard_def remaining_def)
  next
    case False
    then obtain reason k oid where "e = recoveryEvent X p reason k oid"
      using assms(2) c m x by (auto simp: reconcileVerifying_def emit_def split: sum.splits if_splits option.splits)
    with assms(1) accepted_recovery [of p X] show ?thesis by simp
  qed
qed

lemma applying_accepted:
  assumes ok: "integ_ok p" and dis: "distinct (map entryId (in_entries p))" and st: "in_state p = Applying"
    and r: "reconcileApplying X G p w = (Inr (Some e), w')"
  shows "accepted X p e"
proof (cases "find (\<lambda>e. ie_applyResult e = None) (in_entries p)")
  case None
  then have "list_all (\<lambda>e. ie_applyResult e \<noteq> None) (in_entries p)" by (auto simp: find_None_iff list_all_iff)
  with None r st show ?thesis
    by (auto simp: reconcileApplying_def emit_def accepted_event nextIntegration_def Let_def integrationGuard_def remaining_def)
next
  case (Some i)
  note mem = find_member [OF Some]
  from r Some obtain c result where c: "ie_candidate i = Some c" and a: "applyRepositoryCandidate G (ip_repository (ie_plan i)) c w = (Inr result, w')"
    and e: "e = appliedEvent X p i result"
    by (auto simp: reconcileApplying_def emit_def split: option.splits prod.splits sum.splits)
  have entry: "accepted X p (integrationEvent X p act (EntryApplied (entryId i) ar))" if oid: "appliedOid ar = rc_candidateOid c" for ar act
  proof -
    have "recordApplied ar i = Inr (i\<lparr>ie_applyResult := Some ar\<rparr>)" using c oid by (simp add: recordApplied_def)
    from replaceEntry_one [where f = "recordApplied ar" and e = i and Q = "\<lambda>e. ie_applyResult e = None", OF dis _ this] mem obtain es' where
      "replaceEntry (recordApplied ar) (entryId i) (in_entries p) = Inr es'" "length es' = length (in_entries p)"
      "length (filter (\<lambda>e. ie_applyResult e = None) es') < length (filter (\<lambda>e. ie_applyResult e = None) (in_entries p))" by auto
    with st show ?thesis by (auto simp: accepted_event nextIntegration_def Let_def remaining_def)
  qed
  have comp: "accepted X p (integrationEvent X p act (CompensationStarted reason))" if "list_ex (\<lambda>i. ie_applyResult i \<noteq> None) (in_entries p)" for act reason
    using that st by (auto simp: accepted_event nextIntegration_def Let_def integrationGuard_def remaining_def)
  show ?thesis
    using entry applied_oid [OF a] comp accepted_recovery [of p X] st unfolding e by (auto simp: appliedEvent_def split: RepositoryCasResult.splits)
qed

lemma compensating_accepted:
  assumes dis: "distinct (map entryId (in_entries p))" and st: "in_state p = Compensating"
    and r: "reconcileCompensating X G p w = (Inr (Some e), w')"
  shows "accepted X p e"
proof (cases "find (\<lambda>e. ie_applyResult e \<noteq> None \<and> ie_compensationResult e = None) (rev (in_entries p))")
  case None
  then have "list_all (\<lambda>e. ie_applyResult e \<noteq> None \<longrightarrow> ie_compensationResult e \<noteq> None) (in_entries p)" by (auto simp: find_None_iff list_all_iff)
  with None r st show ?thesis
    by (auto simp: reconcileCompensating_def emit_def accepted_event nextIntegration_def Let_def integrationGuard_def remaining_def)
next
  case (Some i)
  have mem: "i \<in> set (in_entries p)" "ie_applyResult i \<noteq> None" "ie_compensationResult i = None" using find_member [OF Some] by auto
  from r Some obtain c result where e: "e = compensatedEvent X p i result"
    by (auto simp: reconcileCompensating_def emit_def split: option.splits prod.splits sum.splits)
  have entry: "accepted X p (integrationEvent X p act (EntryCompensated (entryId i) cr))" for cr act
  proof -
    obtain es' where "replaceEntry (\<lambda>e. Inr (e\<lparr>ie_compensationResult := Some cr\<rparr>)) (entryId i) (in_entries p) = Inr es'" "length es' = length (in_entries p)"
      "length (filter (\<lambda>e. ie_applyResult e \<noteq> None \<and> ie_compensationResult e = None) es') <
       length (filter (\<lambda>e. ie_applyResult e \<noteq> None \<and> ie_compensationResult e = None) (in_entries p))"
      using replaceEntry_one [where f = "\<lambda>e. Inr (e\<lparr>ie_compensationResult := Some cr\<rparr>)" and e = i and
          Q = "\<lambda>e. ie_applyResult e \<noteq> None \<and> ie_compensationResult e = None", OF dis mem(1) refl] mem by auto
    with st show ?thesis by (auto simp: accepted_event nextIntegration_def Let_def remaining_def)
  qed
  show ?thesis using entry accepted_recovery [of p X] st unfolding e by (auto simp: compensatedEvent_def split: RepositoryCompensationResult.splits)
qed

lemma reconcile_accepted:
  assumes "integ_ok p" "distinct (map entryId (in_entries p))" "reconcileMultiRepoIntegrationOnce X G V p w = (Inr (Some e), w')"
  shows "accepted X p e"
  using assms preparing_accepted [OF assms(1,2)] verifying_accepted applying_accepted [OF assms(1,2)] compensating_accepted [OF assms(2)]
  by (auto simp: reconcileMultiRepoIntegrationOnce_def emit_def accepted_event nextIntegration_def Let_def integrationGuard_def remaining_def
        integ_ok_def receipt_ok_def split: if_splits MultiRepoIntegrationState.splits)

end
