(* ===== verification/Integration_Atomic.thy ===== *)
theory Integration_Atomic
  imports Integration_Props
begin

text \<open>
  Atomicity of the integration transaction across repositories, for the branches that nobody else touches.

  What is known of the references of a world is a \<open>view\<close>: the value of a reference (\<open>Some None\<close> if it does not exist), or
  \<open>None\<close> once it is disturbed, that is, once another process has moved it or a \<open>show-ref\<close> of it has failed although it exists.
  Nothing is assumed of a disturbed reference, and it stays disturbed. The hypotheses \<open>git_laws\<close> are the documented behaviour of
  \<open>git\<close>: \<open>show-ref --verify\<close> succeeds with the value of an undisturbed reference exactly when it exists,
  \<open>update-ref ref new old\<close> either changes the reference from \<open>old\<close> to \<open>new\<close> or nothing, and the other commands the code
  runs move no reference. A run may stop after any external action, before the event that records it is stored.
\<close>

section \<open>References\<close>

type_synonym 'w refs = "'w \<Rightarrow> string \<Rightarrow> string \<Rightarrow> string option"

type_synonym 'w view = "'w \<Rightarrow> string \<Rightarrow> string \<Rightarrow> string option option"

definition undisturbed :: "'w refs \<Rightarrow> ('w \<Rightarrow> (string \<times> string) set) \<Rightarrow> 'w view" where
  "undisturbed refs disturbed w root ref = (if (root, ref) \<in> disturbed w then None else Some (refs w root ref))"

text \<open>Nothing moved but what is disturbed now.\<close>

definition same :: "'w view \<Rightarrow> 'w \<Rightarrow> 'w \<Rightarrow> bool" where
  "same view w w' \<longleftrightarrow> (\<forall>root ref. view w' root ref \<in> {view w root ref, None})"

text \<open>At most the reference \<open>ref\<close> moved, from \<open>old\<close> to \<open>new\<close>.\<close>

definition swapped :: "'w view \<Rightarrow> string \<Rightarrow> string \<Rightarrow> string \<Rightarrow> string \<Rightarrow> 'w \<Rightarrow> 'w \<Rightarrow> bool" where
  "swapped view root ref old new w w' \<longleftrightarrow> (\<forall>r b. view w' r b \<in> {view w r b, None} \<or>
     r = root \<and> b = ref \<and> view w r b = Some (Some old) \<and> view w' r b = Some (Some new))"

definition git_writes :: "'w GitEnv \<Rightarrow> 'w view \<Rightarrow> bool" where
  "git_writes G view \<longleftrightarrow>
     (\<forall>w cwd args. args \<noteq> [] \<and> hd args \<noteq> ''update-ref'' \<longrightarrow> same view w (snd (ge_run G w cwd args))) \<and>
     (\<forall>w cwd ref new old. swapped view cwd ref old new w (snd (ge_run G w cwd [''update-ref'', ref, new, old])))"

definition git_reads :: "'w GitEnv \<Rightarrow> 'w view \<Rightarrow> bool" where
  "git_reads G view \<longleftrightarrow> (\<forall>w cwd ref. case ge_run G w cwd [''show-ref'', ''--verify'', ''--hash'', ref] of ((ok, out), w') \<Rightarrow>
     (case view w' cwd ref of None \<Rightarrow> True | Some None \<Rightarrow> \<not> ok | Some (Some oid) \<Rightarrow> ok \<and> out = oid))"

definition git_laws :: "'w GitEnv \<Rightarrow> 'w view \<Rightarrow> bool" where
  "git_laws G view \<longleftrightarrow> git_writes G view \<and> git_reads G view"

lemma same_refl [simp, intro]: "same view w w"
  by (simp add: same_def)

lemma same_trans [trans]: "same view w w1 \<Longrightarrow> same view w1 w2 \<Longrightarrow> same view w w2"
  by (simp add: same_def) metis

lemma same_swapped: "same view w w' \<Longrightarrow> swapped view root ref old new w w'"
  by (simp add: same_def swapped_def)

lemma swapped_trans:
  assumes "same view w w1" "swapped view root ref old new w1 w2" "same view w2 w3"
  shows "swapped view root ref old new w w3"
  unfolding swapped_def
proof (intro allI)
  fix r b
  have "view w1 r b \<in> {view w r b, None}" "view w3 r b \<in> {view w2 r b, None}" using assms(1,3) by (simp_all add: same_def)
  moreover have "view w2 r b \<in> {view w1 r b, None} \<or> r = root \<and> b = ref \<and> view w1 r b = Some (Some old) \<and> view w2 r b = Some (Some new)"
    using assms(2) unfolding swapped_def by blast
  ultimately show "view w3 r b \<in> {view w r b, None} \<or> r = root \<and> b = ref \<and> view w r b = Some (Some old) \<and> view w3 r b = Some (Some new)" by auto
qed

definition keeps :: "'w view \<Rightarrow> ('w \<Rightarrow> 'r \<times> 'w) \<Rightarrow> bool" where
  "keeps view m \<longleftrightarrow> (\<forall>w. same view w (snd (m w)))"

named_theorems keeps_intros \<open>computations that move no reference\<close>

lemma keepsD: "keeps view m \<Longrightarrow> m w = (r, w') \<Longrightarrow> same view w w'"
  by (metis keeps_def snd_conv)

lemma keeps_basic [keeps_intros]: "keeps view (git_return x)" "keeps view (git_require c e)"
  by (simp_all add: keeps_def git_return_def git_require_def)

lemma keeps_bind [keeps_intros]:
  assumes "keeps view m" "\<And>x. keeps view (f x)"
  shows "keeps view (git_bind m f)"
  unfolding keeps_def
proof
  fix w
  obtain r w1 where m: "m w = (r, w1)" by fastforce
  have "same view w1 (snd (f x w1))" for x using assms(2) unfolding keeps_def by blast
  with m same_trans [OF keepsD [OF assms(1) m]] keepsD [OF assms(1) m] show "same view w (snd (git_bind m f w))"
    by (cases r) (simp_all add: git_bind_def)
qed

lemma keeps_run [keeps_intros]: "git_writes G view \<Longrightarrow> args \<noteq> [] \<and> hd args \<noteq> ''update-ref'' \<Longrightarrow> keeps view (git_run G cwd args)"
  unfolding keeps_def git_run_def git_writes_def by (auto split: prod.splits) (metis snd_conv)

lemma keeps_if [keeps_intros]: "(c \<Longrightarrow> keeps view m) \<Longrightarrow> (\<not> c \<Longrightarrow> keeps view n) \<Longrightarrow> keeps view (if c then m else n)"
  by simp

lemma keeps_let [keeps_intros]: "(\<And>x. keeps view (f x)) \<Longrightarrow> keeps view (let x = a in f x)"
  by simp

lemma keeps_require_value [keeps_intros]: "keeps view (requireOid v)" "keeps view (requireRef v)"
  unfolding requireOid_def requireRef_def by (intro keeps_intros)+

lemma keeps_files [keeps_intros]: "keeps view (rootCanonical G r)" "keeps view (commonDirOk G r out)"
  by (auto simp: keeps_def rootCanonical_def commonDirOk_def split: option.splits)

lemma keeps_git [keeps_intros]:
  assumes "git_writes G view"
  shows "keeps view (verifyRepository G r)" "keeps view (resolveCommit G cwd oid)" "keeps view (readRef G cwd ref)"
    "keeps view (buildCandidate G cwd x y m)"
  unfolding verifyRepository_def resolveCommit_def readRef_def buildCandidate_def by (intro keeps_intros assms; simp)+

lemma keeps_prepare [keeps_intros]: "git_writes G view \<Longrightarrow> keeps view (prepareRepositoryCandidate G r ref x y m)"
  unfolding prepareRepositoryCandidate_def by (intro keeps_intros; simp)

lemma git_catch_bind: "git_catch m h f w = (case m w of (Inl e, w1) \<Rightarrow> h e w1 | (Inr x, w1) \<Rightarrow> f x w1)"
  by (simp add: git_catch_def)

lemma keeps_catch [keeps_intros]:
  assumes "keeps view m" "\<And>e. keeps view (h e)" "\<And>x. keeps view (f x)"
  shows "keeps view (git_catch m h f)"
  unfolding keeps_def
proof
  fix w
  obtain r w1 where m: "m w = (r, w1)" by fastforce
  have "same view w1 (snd (h e w1))" "same view w1 (snd (f x w1))" for e x using assms(2,3) unfolding keeps_def by blast+
  with m same_trans [OF keepsD [OF assms(1) m]] show "same view w (snd (git_catch m h f w))"
    by (cases r) (simp_all add: git_catch_bind)
qed

lemma keeps_observe [keeps_intros]: "git_writes G view \<Longrightarrow> keeps view (observeRepositoryRef G r ref)"
  unfolding observeRepositoryRef_def by (intro keeps_intros; simp add: keeps_def)

section \<open>Reading, applying and undoing\<close>

text \<open>What a reference shows, unless it is disturbed.\<close>

definition shows_ref :: "'w view \<Rightarrow> 'w \<Rightarrow> string \<Rightarrow> string \<Rightarrow> string option \<Rightarrow> bool" where
  "shows_ref view w root ref v \<longleftrightarrow> view w root ref \<in> {None, Some v}"

lemma readRef_value:
  assumes "git_reads G view" "readRef G cwd ref w = (Inr ob, w')"
  shows "shows_ref view w' cwd ref ob"
proof -
  obtain ok out w1 where r: "ge_run G w cwd [''show-ref'', ''--verify'', ''--hash'', ref] = ((ok, out), w1)" by (metis prod.exhaust)
  have "case view w1 cwd ref of None \<Rightarrow> True | Some None \<Rightarrow> \<not> ok | Some (Some oid) \<Rightarrow> ok \<and> out = oid"
    using assms(1) [unfolded git_reads_def, THEN spec [of _ w], THEN spec [of _ cwd], THEN spec [of _ ref]] r by simp
  then show ?thesis using assms(2) r by (auto simp: readRef_def git_bind_run git_bind_Inr shows_ref_def split: option.splits if_splits)
qed

lemma verified_root: "verifyRepository G r w = (Inr cwd, w') \<Longrightarrow> cwd = ri_canonicalRoot r"
  by (auto simp: verifyRepository_def git_bind_Inr)

lemma observe_value:
  assumes "git_reads G view" "observeRepositoryRef G r ref w = (Inr (Observed ob), w')"
  shows "shows_ref view w' (ri_canonicalRoot r) ref ob"
proof -
  from assms(2) obtain cwd w1 where v: "verifyRepository G r w = (Inr cwd, w1)"
    and c: "git_catch (git_bind (requireRef ref) (\<lambda>ref. readRef G cwd ref)) (\<lambda>_. git_return UnknownRead) (\<lambda>oid. git_return (Observed oid)) w1 = (Inr (Observed ob), w')"
    by (auto simp: observeRepositoryRef_def git_catch_def [of "verifyRepository G r"] split: prod.splits sum.splits if_splits)
  from c have "readRef G cwd ref w1 = (Inr ob, w')"
    by (auto simp: git_catch_def git_bind_Inr split: prod.splits sum.splits)
  then show ?thesis using readRef_value [OF assms(1)] verified_root [OF v] by simp
qed

lemma git_bind_assoc: "git_bind (git_bind m f) g = git_bind m (\<lambda>x. git_bind (f x) g)"
  by (rule ext) (simp add: git_bind_def split: prod.split sum.split)

lemma bind_keeps_cases:
  assumes "git_bind m f w = (res, w')" "keeps view m"
  obtains (threw) e where "res = Inl e" "same view w w'" | (ran) x w1 where "m w = (Inr x, w1)" "same view w w1" "f x w1 = (res, w')"
proof (cases "m w")
  case (Pair r w1)
  with keepsD [OF assms(2) Pair] assms(1) that show thesis by (cases r) (auto simp: git_bind_def)
qed

text \<open>The core of both directions: move a reference from \<open>old\<close> to \<open>new\<close>, then observe it.\<close>

definition swap_body :: "'w GitEnv \<Rightarrow> RepositoryIdentity \<Rightarrow> string \<Rightarrow> string \<Rightarrow> string \<Rightarrow> 'a \<Rightarrow> (string option \<Rightarrow> 'a) \<Rightarrow> (bool \<Rightarrow> RefObservation \<Rightarrow> 'a) \<Rightarrow>
    string option \<Rightarrow> ('w, 'a) git" where
  "swap_body G r ref old new already refused outcome observed =
     (if observed = Some new then git_return already
      else if observed \<noteq> Some old then git_return (refused observed)
      else git_bind (git_run G (ri_canonicalRoot r) [''update-ref'', ref, new, old]) (\<lambda>update.
        git_bind (observeRepositoryRef G r ref) (\<lambda>ob. git_return (outcome (fst update) ob))))"

lemma swap_then_observe:
  assumes W: "git_writes G view"
    and x: "git_bind (git_run G (ri_canonicalRoot r) [''update-ref'', ref, new, old]) (\<lambda>update.
      git_bind (observeRepositoryRef G r ref) (\<lambda>ob. git_return (outcome (fst update) ob))) w = (res, w')"
  shows "swapped view (ri_canonicalRoot r) ref old new w w'"
    and "git_reads G view \<Longrightarrow> res = Inr y \<Longrightarrow> \<exists>u ob. y = outcome u ob \<and> (\<forall>oid. ob = Observed oid \<longrightarrow> shows_ref view w' (ri_canonicalRoot r) ref oid)"
proof -
  let ?run = "ge_run G w (ri_canonicalRoot r) [''update-ref'', ref, new, old]"
  have b: "git_bind (observeRepositoryRef G r ref) (\<lambda>ob. git_return (outcome (fst (fst ?run)) ob)) (snd ?run) = (res, w')"
    using x by (simp add: git_bind_run)
  have k: "keeps view (git_bind (observeRepositoryRef G r ref) (\<lambda>ob. git_return (outcome (fst (fst ?run)) ob)))" by (intro keeps_intros W)
  have "swapped view (ri_canonicalRoot r) ref old new w (snd ?run)" using W unfolding git_writes_def by blast
  from swapped_trans [OF same_refl this keepsD [OF k b]] show "swapped view (ri_canonicalRoot r) ref old new w w'" .
  show "\<exists>u ob. y = outcome u ob \<and> (\<forall>oid. ob = Observed oid \<longrightarrow> shows_ref view w' (ri_canonicalRoot r) ref oid)" if R: "git_reads G view" and y: "res = Inr y"
  proof -
    obtain ob where "observeRepositoryRef G r ref (snd ?run) = (Inr ob, w')" "y = outcome (fst (fst ?run)) ob"
      using b y by (auto simp: git_bind_Inr)
    with observe_value [OF R] show ?thesis by blast
  qed
qed

text \<open>The answers of a compare-and-swap, and what the reference then shows.\<close>

definition swap_answer :: "'w view \<Rightarrow> string \<Rightarrow> string \<Rightarrow> string \<Rightarrow> 'a \<Rightarrow> (string option \<Rightarrow> 'a) \<Rightarrow> (bool \<Rightarrow> RefObservation \<Rightarrow> 'a) \<Rightarrow> 'w \<Rightarrow> 'a \<Rightarrow> bool" where
  "swap_answer view root ref new already refused outcome w' y \<longleftrightarrow> y = already \<and> shows_ref view w' root ref (Some new) \<or>
     (\<exists>ob. y = refused ob \<and> view w' root ref \<noteq> Some (Some new)) \<or>
     (\<exists>u ob. y = outcome u ob \<and> (\<forall>oid. ob = Observed oid \<longrightarrow> shows_ref view w' root ref oid))"

lemma read_then_swap:
  assumes W: "git_writes G view"
    and x: "git_bind (readRef G (ri_canonicalRoot r) ref) (swap_body G r ref old new already refused outcome) w = (res, w')"
  shows "swapped view (ri_canonicalRoot r) ref old new w w'"
    and "git_reads G view \<Longrightarrow> res = Inr y \<Longrightarrow> swap_answer view (ri_canonicalRoot r) ref new already refused outcome w' y"
proof -
  have k: "keeps view (readRef G (ri_canonicalRoot r) ref)" by (intro keeps_intros W)
  from x k have "swapped view (ri_canonicalRoot r) ref old new w w' \<and>
      (git_reads G view \<longrightarrow> (\<forall>y. res = Inr y \<longrightarrow> swap_answer view (ri_canonicalRoot r) ref new already refused outcome w' y))"
  proof (cases rule: bind_keeps_cases)
    case (threw e)
    then show ?thesis by (simp add: same_swapped)
  next
    case (ran observed w1)
    have ob: "git_reads G view \<Longrightarrow> shows_ref view w1 (ri_canonicalRoot r) ref observed" by (rule readRef_value [OF _ ran(1)])
    consider "observed = Some new" | "observed \<noteq> Some new" "observed \<noteq> Some old" | (swap) "observed \<noteq> Some new" "observed = Some old" by blast
    then show ?thesis
    proof cases
      case swap
      with ran(3) have sw: "git_bind (git_run G (ri_canonicalRoot r) [''update-ref'', ref, new, old]) (\<lambda>update.
          git_bind (observeRepositoryRef G r ref) (\<lambda>ob. git_return (outcome (fst update) ob))) w1 = (res, w')" by (simp add: swap_body_def)
      from swap_then_observe [OF W sw] swapped_trans [OF ran(2) _ same_refl] show ?thesis unfolding swap_answer_def by blast
    qed (use ran ob same_swapped in \<open>auto simp: swap_body_def swap_answer_def shows_ref_def\<close>)
  qed
  then show "swapped view (ri_canonicalRoot r) ref old new w w'"
    "git_reads G view \<Longrightarrow> res = Inr y \<Longrightarrow> swap_answer view (ri_canonicalRoot r) ref new already refused outcome w' y" by blast+
qed

lemma casOutcome_cases:
  "casOutcome c u ob = CasApplied oid \<Longrightarrow> ob = Observed (Some (rc_candidateOid c))"
  "casOutcome c u ob = CasRefused x \<Longrightarrow> ob = Observed x \<and> x \<noteq> Some (rc_candidateOid c)"
  by (auto simp: casOutcome_def split: RefObservation.splits if_splits)

lemma compensationOutcome_cases:
  "compensationOutcome c u ob = Compensated oid \<Longrightarrow> ob = Observed (Some (rc_expectedOid c))"
  "compensationOutcome c u ob \<noteq> AlreadyCompensated oid"
  by (auto simp: compensationOutcome_def split: RefObservation.splits if_splits)

lemma apply_candidate_body:
  "applyRepositoryCandidate G r c = git_catch (verifyRepository G r) (\<lambda>_. git_return (CasRecovery IDENTITY_MISMATCH None)) (\<lambda>cwd.
     git_bind (git_bind (git_require (rc_repositoryId c = ri_repositoryId r) INVALID_REQUEST) (\<lambda>_. git_bind (requireRef (rc_targetRef c)) (\<lambda>_.
       git_bind (requireOid (rc_expectedOid c)) (\<lambda>_. resolveCommit G cwd (rc_candidateOid c))))) (\<lambda>_.
     git_bind (readRef G cwd (rc_targetRef c)) (\<lambda>observed.
     if observed = Some (rc_candidateOid c) then git_return (CasAlreadyApplied (rc_candidateOid c))
     else if observed \<noteq> Some (rc_expectedOid c) then git_return (CasRefused observed)
     else git_bind (git_run G cwd [''update-ref'', rc_targetRef c, rc_candidateOid c, rc_expectedOid c]) (\<lambda>update.
     git_bind (observeRepositoryRef G r (rc_targetRef c)) (\<lambda>reconciled. git_return (casOutcome c (fst update) reconciled))))))"
  by (simp add: applyRepositoryCandidate_def git_bind_assoc)

lemma apply_candidate_refs:
  assumes W: "git_writes G view" and a: "applyRepositoryCandidate G r c w = (res, w')"
  shows "swapped view (ri_canonicalRoot r) (rc_targetRef c) (rc_expectedOid c) (rc_candidateOid c) w w'"
    and "git_reads G view \<Longrightarrow> res = Inr (CasApplied oid) \<or> res = Inr (CasAlreadyApplied oid) \<Longrightarrow>
      shows_ref view w' (ri_canonicalRoot r) (rc_targetRef c) (Some (rc_candidateOid c))"
    and "git_reads G view \<Longrightarrow> res = Inr (CasRefused ob) \<Longrightarrow> view w' (ri_canonicalRoot r) (rc_targetRef c) \<noteq> Some (Some (rc_candidateOid c))"
proof -
  let ?root = "ri_canonicalRoot r" and ?ref = "rc_targetRef c"
  have "swapped view ?root ?ref (rc_expectedOid c) (rc_candidateOid c) w w' \<and> (git_reads G view \<longrightarrow>
      (\<forall>oid. res = Inr (CasApplied oid) \<or> res = Inr (CasAlreadyApplied oid) \<longrightarrow> shows_ref view w' ?root ?ref (Some (rc_candidateOid c))) \<and>
      (\<forall>ob. res = Inr (CasRefused ob) \<longrightarrow> view w' ?root ?ref \<noteq> Some (Some (rc_candidateOid c))))"
  proof (cases "fst (verifyRepository G r w)")
    case (Inl e)
    then have "same view w w'" "res = Inr (CasRecovery IDENTITY_MISMATCH None)"
      using a keepsD [OF keeps_git(1) [OF W]] by (auto simp: applyRepositoryCandidate_def git_catch_def split: prod.splits)
    then show ?thesis by (simp add: same_swapped)
  next
    case (Inr cwd)
    then obtain w0 where v: "verifyRepository G r w = (Inr cwd, w0)" by (metis prod.collapse)
    have r0: "same view w w0" by (rule keepsD [OF keeps_git(1) [OF W] v])
    have cwd: "cwd = ?root" by (rule verified_root [OF v])
    let ?pre = "git_bind (git_require (rc_repositoryId c = ri_repositoryId r) INVALID_REQUEST) (\<lambda>_. git_bind (requireRef ?ref) (\<lambda>_.
        git_bind (requireOid (rc_expectedOid c)) (\<lambda>_. resolveCommit G ?root (rc_candidateOid c))))"
    have kp: "keeps view ?pre" by (intro keeps_intros W)
    have "git_bind ?pre (\<lambda>_. git_bind (readRef G ?root ?ref) (swap_body G r ?ref (rc_expectedOid c) (rc_candidateOid c)
        (CasAlreadyApplied (rc_candidateOid c)) CasRefused (casOutcome c))) w0 = (res, w')"
      using a v unfolding cwd apply_candidate_body by (simp add: git_catch_def swap_body_def [abs_def])
    then show ?thesis using kp
    proof (cases rule: bind_keeps_cases)
      case (threw e)
      with same_trans [OF r0] show ?thesis by (auto intro: same_swapped)
    next
      case (ran u w1)
      note swap = read_then_swap [OF W ran(3)]
      have moved: "shows_ref view w' ?root ?ref (Some (rc_candidateOid c))"
        if R: "git_reads G view" and "res = Inr (CasApplied oid) \<or> res = Inr (CasAlreadyApplied oid)" for oid
        using that(2)
      proof
        assume r: "res = Inr (CasApplied oid)"
        show ?thesis using swap(2) [OF R r] by (auto simp: swap_answer_def dest: casOutcome_cases(1) [OF sym])
      next
        assume r: "res = Inr (CasAlreadyApplied oid)"
        show ?thesis using swap(2) [OF R r] casOutcome_applied(2) [THEN not_sym] by (auto simp: swap_answer_def)
      qed
      have refused: "view w' ?root ?ref \<noteq> Some (Some (rc_candidateOid c))" if "git_reads G view" "res = Inr (CasRefused ob)" for ob
        using swap(2) [OF that] by (auto simp: swap_answer_def shows_ref_def dest: casOutcome_cases(2) [OF sym])
      show ?thesis using moved refused swapped_trans [OF same_trans [OF r0 ran(2)] swap(1) same_refl] by blast
    qed
  qed
  then show "swapped view ?root ?ref (rc_expectedOid c) (rc_candidateOid c) w w'"
    "git_reads G view \<Longrightarrow> res = Inr (CasApplied oid) \<or> res = Inr (CasAlreadyApplied oid) \<Longrightarrow> shows_ref view w' ?root ?ref (Some (rc_candidateOid c))"
    "git_reads G view \<Longrightarrow> res = Inr (CasRefused ob) \<Longrightarrow> view w' ?root ?ref \<noteq> Some (Some (rc_candidateOid c))" by blast+
qed

lemma compensate_candidate_refs:
  assumes W: "git_writes G view" and a: "compensateRepositoryCandidate G r c w = (res, w')"
  shows "swapped view (ri_canonicalRoot r) (rc_targetRef c) (rc_candidateOid c) (rc_expectedOid c) w w'"
    and "git_reads G view \<Longrightarrow> res = Inr (Compensated oid) \<or> res = Inr (AlreadyCompensated oid) \<Longrightarrow>
      shows_ref view w' (ri_canonicalRoot r) (rc_targetRef c) (Some (rc_expectedOid c))"
proof -
  let ?root = "ri_canonicalRoot r" and ?ref = "rc_targetRef c"
  have "swapped view ?root ?ref (rc_candidateOid c) (rc_expectedOid c) w w' \<and> (git_reads G view \<longrightarrow>
      (\<forall>oid. res = Inr (Compensated oid) \<or> res = Inr (AlreadyCompensated oid) \<longrightarrow> shows_ref view w' ?root ?ref (Some (rc_expectedOid c))))"
  proof (cases "fst (verifyRepository G r w)")
    case (Inl e)
    then have "same view w w'" "res = Inr (CompensationRecovery IDENTITY_MISMATCH None)"
      using a keepsD [OF keeps_git(1) [OF W]] by (auto simp: compensateRepositoryCandidate_def git_catch_def split: prod.splits)
    then show ?thesis by (simp add: same_swapped)
  next
    case (Inr cwd)
    then obtain w0 where v: "verifyRepository G r w = (Inr cwd, w0)" by (metis prod.collapse)
    have r0: "same view w w0" by (rule keepsD [OF keeps_git(1) [OF W] v])
    have cwd: "cwd = ?root" by (rule verified_root [OF v])
    have "git_bind (readRef G ?root ?ref) (swap_body G r ?ref (rc_candidateOid c) (rc_expectedOid c)
        (AlreadyCompensated (rc_expectedOid c)) CompensationRefused (compensationOutcome c)) w0 = (res, w')"
      using a v unfolding cwd by (simp add: compensateRepositoryCandidate_def git_catch_def swap_body_def [abs_def])
    note swap = read_then_swap [OF W this]
    have "shows_ref view w' ?root ?ref (Some (rc_expectedOid c))"
      if R: "git_reads G view" and "res = Inr (Compensated oid) \<or> res = Inr (AlreadyCompensated oid)" for oid
      using that(2)
    proof
      assume r: "res = Inr (Compensated oid)"
      show ?thesis using swap(2) [OF R r] by (auto simp: swap_answer_def dest: compensationOutcome_cases(1) [OF sym])
    next
      assume r: "res = Inr (AlreadyCompensated oid)"
      show ?thesis using swap(2) [OF R r] compensationOutcome_cases(2) [THEN not_sym] by (auto simp: swap_answer_def)
    qed
    with swapped_trans [OF r0 swap(1) same_refl] show ?thesis by blast
  qed
  then show "swapped view ?root ?ref (rc_candidateOid c) (rc_expectedOid c) w w'"
    "git_reads G view \<Longrightarrow> res = Inr (Compensated oid) \<or> res = Inr (AlreadyCompensated oid) \<Longrightarrow> shows_ref view w' ?root ?ref (Some (rc_expectedOid c))" by blast+
qed

section \<open>The branches of a transaction\<close>

definition branch :: "IntegrationEntryPlan \<Rightarrow> string \<times> string" where
  "branch q = (ri_canonicalRoot (ip_repository q), ip_targetRef q)"

definition at_branch :: "('w \<Rightarrow> string \<Rightarrow> string \<Rightarrow> 'v) \<Rightarrow> 'w \<Rightarrow> IntegrationEntryPlan \<Rightarrow> 'v" where
  "at_branch refs w q = refs w (ri_canonicalRoot (ip_repository q)) (ip_targetRef q)"

text \<open>
  A transaction as it is run, with the world it acts on. Every step may have its own clock, authority and digests.
  A reconciliation acts on the world and its event is applied; or the process stops and the event is lost; or others
  change the world, branches of the plan included, which are then disturbed.
\<close>

inductive saga :: "'w GitEnv \<Rightarrow> 'w VerificationEnv \<Rightarrow> 'w view \<Rightarrow> IntegrationPlan \<Rightarrow> IntegrationProjection \<Rightarrow> 'w \<Rightarrow> bool" for G V view plan where
  saga_created: "createMultiRepoIntegrationEvent X V plan = Inr e \<Longrightarrow> applyMultiRepoIntegrationEvent X None e = Inr p \<Longrightarrow> saga G V view plan p w"
| saga_stored: "saga G V view plan p w \<Longrightarrow> reconcileMultiRepoIntegrationOnce X G V p w = (Inr (Some e), w') \<Longrightarrow>
    applyMultiRepoIntegrationEvent X (Some p) e = Inr p' \<Longrightarrow> saga G V view plan p' w'"
| saga_lost: "saga G V view plan p w \<Longrightarrow> reconcileMultiRepoIntegrationOnce X G V p w = (result, w') \<Longrightarrow> saga G V view plan p w'"
| saga_outside: "saga G V view plan p w \<Longrightarrow> \<forall>q\<in>set (np_entries plan). at_branch view w' q \<in> {at_branch view w q, None} \<Longrightarrow> saga G V view plan p w'"

text \<open>Where the branch of an entry may point: \<open>first\<close> holds for the entry the next compare-and-swap is about.\<close>

definition ref_ok :: "MultiRepoIntegrationState \<Rightarrow> bool \<Rightarrow> string option \<Rightarrow> IntegrationEntry \<Rightarrow> bool" where
  "ref_ok st first here e \<longleftrightarrow> (\<forall>c. ie_candidate e = Some c \<longrightarrow>
     here \<in> {Some (rc_expectedOid c), Some (rc_candidateOid c)} \<and>
     (st \<in> {Applying, VectorApplied} \<and> ie_applyResult e \<noteq> None \<longrightarrow> here = Some (rc_candidateOid c)) \<and>
     (st \<noteq> RecoveryRequired \<and> ie_applyResult e = None \<and> \<not> (st = Applying \<and> first) \<longrightarrow> here = Some (rc_expectedOid c)) \<and>
     (ie_compensationResult e \<noteq> None \<longrightarrow> here = Some (rc_expectedOid c)))"

definition view_ok :: "IntegrationProjection \<Rightarrow> string option option \<Rightarrow> IntegrationEntry \<Rightarrow> bool" where
  "view_ok p seen e \<longleftrightarrow> (\<forall>here. seen = Some here \<longrightarrow> ref_ok (in_state p) (find (\<lambda>e. ie_applyResult e = None) (in_entries p) = Some e) here e)"

definition refs_ok :: "'w view \<Rightarrow> IntegrationProjection \<Rightarrow> 'w \<Rightarrow> bool" where
  "refs_ok view p w \<longleftrightarrow> list_all (\<lambda>e. view_ok p (at_branch view w (ie_plan e)) e) (in_entries p)"

lemma verify_keeps:
  assumes "\<And>w plan env i c. same view w (snd (ve_execute V w plan env i c))"
  shows "keeps view (executeCombinedVerification V plan env)"
proof -
  have run: "same view w (snd (runCommands V plan env i cs rs w))" for i cs rs w
  proof (induction cs arbitrary: i rs w)
    case (Cons c cs)
    obtain v w' where x: "ve_execute V w plan env i c = (v, w')" by fastforce
    then have "same view w w'" using assms [of w plan env i c] by simp
    with Cons.IH x show ?case by (cases v) (auto intro: same_trans)
  qed simp
  show ?thesis by (auto simp: keeps_def executeCombinedVerification_def run split: sum.splits)
qed

text \<open>No step but those of the applying and the compensating states moves a reference.\<close>

lemma prepared_ref:
  assumes R: "git_reads G view" and p: "prepareRepositoryCandidate G r ref expected child m w = (Inr c, w')"
  shows "shows_ref view w' (ri_canonicalRoot r) ref (Some expected)"
proof -
  obtain cwd w1 w2 where "cwd = ri_canonicalRoot r" "readRef G cwd ref w1 = (Inr (Some expected), w2)" "w2 = w'"
    using p by (auto simp: prepareRepositoryCandidate_def git_bind_Inr dest!: resolveCommit_oid verified_root)
  then show ?thesis using readRef_value [OF R] by metis
qed

lemma quiet_reconcile:
  assumes W: "git_writes G view" and V: "\<And>w plan env i c. same view w (snd (ve_execute V w plan env i c))"
    and r: "reconcileMultiRepoIntegrationOnce X G V p w = (result, w')" and st: "in_state p \<notin> {Applying, Compensating}"
  shows "same view w w'"
proof -
  have "keeps view (reconcilePreparing X G p)"
  proof -
    have "same view w (snd (reconcilePreparing X G p w))" for w
      using keeps_prepare [OF W] unfolding keeps_def
      by (auto simp: reconcilePreparing_def emit_def Let_def split: option.splits prod.splits sum.splits) (metis snd_conv)+
    then show ?thesis by (simp add: keeps_def)
  qed
  moreover have "keeps view (reconcileVerifying X V p)"
  proof -
    have "same view w (snd (reconcileVerifying X V p w))" for w
      using verify_keeps [OF V] unfolding keeps_def
      by (auto simp: reconcileVerifying_def emit_def split: option.splits prod.splits sum.splits) (metis snd_conv)+
    then show ?thesis by (simp add: keeps_def)
  qed
  ultimately show ?thesis using r st keepsD
    by (auto simp: reconcileMultiRepoIntegrationOnce_def emit_def split: if_splits MultiRepoIntegrationState.splits)
qed

section \<open>The world changes before the event is stored\<close>

lemma view_ok_same: "view_ok p seen e \<Longrightarrow> seen' \<in> {seen, None} \<Longrightarrow> view_ok p seen' e"
  by (auto simp: view_ok_def)

lemma refs_ok_same:
  "refs_ok view p w \<Longrightarrow> (\<And>e. e \<in> set (in_entries p) \<Longrightarrow> at_branch view w' (ie_plan e) \<in> {at_branch view w (ie_plan e), None}) \<Longrightarrow> refs_ok view p w'"
  unfolding refs_ok_def list_all_iff by (meson view_ok_same)

lemma refs_ok_move:
  assumes ok: "refs_ok view p w" and dis: "distinct (map branch (map ie_plan (in_entries p)))" and i: "i \<in> set (in_entries p)"
    and moved: "swapped view (ri_canonicalRoot (ip_repository (ie_plan i))) (ip_targetRef (ie_plan i)) old new w w'"
    and ref: "ref_ok (in_state p) (find (\<lambda>e. ie_applyResult e = None) (in_entries p) = Some i) (Some new) i"
  shows "refs_ok view p w'"
  unfolding refs_ok_def list_all_iff
proof
  fix e assume e: "e \<in> set (in_entries p)"
  have ve: "view_ok p (at_branch view w (ie_plan e)) e" using ok e by (simp add: refs_ok_def list_all_iff)
  from moved consider "at_branch view w' (ie_plan e) \<in> {at_branch view w (ie_plan e), None}"
    | "branch (ie_plan e) = branch (ie_plan i)" "at_branch view w' (ie_plan e) = Some (Some new)"
    unfolding swapped_def at_branch_def branch_def prod.inject by blast
  then show "view_ok p (at_branch view w' (ie_plan e)) e"
  proof cases
    case 1
    then show ?thesis by (rule view_ok_same [OF ve])
  next
    case 2
    then have "e = i" using dis e i by (auto simp: distinct_map inj_on_def)
    with 2 ref show ?thesis by (simp add: view_ok_def)
  qed
qed

lemma candidate_of_plan:
  assumes "integ_ok p" "i \<in> set (in_entries p)" "ie_candidate i = Some c"
  shows "rc_targetRef c = ip_targetRef (ie_plan i)" "rc_expectedOid c = ip_expectedOid (ie_plan i)"
  using assms by (auto simp: integ_ok_def list_all_iff entry_ok_def)

lemma applying_world:
  assumes W: "git_writes G view" and ok: "integ_ok p" "refs_ok view p w" and dis: "distinct (map branch (map ie_plan (in_entries p)))"
    and st: "in_state p = Applying" and f: "find (\<lambda>e. ie_applyResult e = None) (in_entries p) = Some i" and c: "ie_candidate i = Some c"
    and a: "applyRepositoryCandidate G (ip_repository (ie_plan i)) c w = (res, w')"
  shows "refs_ok view p w'"
proof -
  note i = find_member [OF f]
  note tgt = candidate_of_plan(1) [OF ok(1) conjunct1 [OF i] c]
  have comp: "ie_compensationResult i = None" using ok(1) st i by (auto simp: integ_ok_def list_all_iff)
  have "ref_ok (in_state p) (find (\<lambda>e. ie_applyResult e = None) (in_entries p) = Some i) (Some (rc_candidateOid c)) i"
    using i st f c comp by (simp add: ref_ok_def)
  with apply_candidate_refs(1) [OF W a, unfolded tgt] show ?thesis by (rule refs_ok_move [OF ok(2) dis conjunct1 [OF i]])
qed

lemma compensating_world:
  assumes W: "git_writes G view" and ok: "integ_ok p" "refs_ok view p w" and dis: "distinct (map branch (map ie_plan (in_entries p)))"
    and st: "in_state p = Compensating" and i: "i \<in> set (in_entries p)" "ie_applyResult i \<noteq> None" and c: "ie_candidate i = Some c"
    and a: "compensateRepositoryCandidate G (ip_repository (ie_plan i)) c w = (res, w')"
  shows "refs_ok view p w'"
proof -
  note tgt = candidate_of_plan(1) [OF ok(1) i(1) c]
  have "ref_ok (in_state p) (find (\<lambda>e. ie_applyResult e = None) (in_entries p) = Some i) (Some (rc_expectedOid c)) i"
    using i st c by (simp add: ref_ok_def)
  with compensate_candidate_refs(1) [OF W a, unfolded tgt] show ?thesis by (rule refs_ok_move [OF ok(2) dis i(1)])
qed

text \<open>The one command of a reconciliation that may move a reference.\<close>

lemma reconcile_moves:
  assumes W: "git_writes G view" and V: "\<And>w plan env i c. same view w (snd (ve_execute V w plan env i c))"
    and r: "reconcileMultiRepoIntegrationOnce X G V p w = (result, w')"
  obtains (quiet) "same view w w'"
    | (appl) i c res where "in_state p = Applying" "find (\<lambda>e. ie_applyResult e = None) (in_entries p) = Some i" "ie_candidate i = Some c"
        "applyRepositoryCandidate G (ip_repository (ie_plan i)) c w = (res, w')"
    | (comp) i c res where "in_state p = Compensating" "i \<in> set (in_entries p)" "ie_applyResult i \<noteq> None"
        "ie_candidate i = Some c" "compensateRepositoryCandidate G (ip_repository (ie_plan i)) c w = (res, w')"
proof -
  consider "same view w w'"
    | i c res where "in_state p = Applying" "find (\<lambda>e. ie_applyResult e = None) (in_entries p) = Some i" "ie_candidate i = Some c"
        "applyRepositoryCandidate G (ip_repository (ie_plan i)) c w = (res, w')"
    | i c res where "in_state p = Compensating" "find (\<lambda>e. ie_applyResult e \<noteq> None \<and> ie_compensationResult e = None) (rev (in_entries p)) = Some i"
        "ie_candidate i = Some c" "compensateRepositoryCandidate G (ip_repository (ie_plan i)) c w = (res, w')"
    using quiet_reconcile [OF W V r] r
    by (cases "in_state p")
      (auto simp: reconcileMultiRepoIntegrationOnce_def reconcileApplying_def reconcileCompensating_def emit_def
         split: if_splits option.splits prod.splits sum.splits)
  then show thesis
  proof cases
    case (3 i c res)
    have "i \<in> set (in_entries p)" "ie_applyResult i \<noteq> None" using find_member [OF 3(2)] by auto
    with 3 show thesis by (intro comp)
  qed (use quiet appl in blast)+
qed

lemma reconcile_world:
  assumes W: "git_writes G view" and V: "\<And>w plan env i c. same view w (snd (ve_execute V w plan env i c))"
    and ok: "integ_ok p" "refs_ok view p w" and dis: "distinct (map branch (map ie_plan (in_entries p)))"
    and r: "reconcileMultiRepoIntegrationOnce X G V p w = (result, w')"
  shows "refs_ok view p w'"
  using W V r
proof (cases rule: reconcile_moves)
  case quiet
  then show ?thesis using refs_ok_same [OF ok(2)] by (simp add: at_branch_def same_def)
next
  case appl
  then show ?thesis by (rule applying_world [OF W ok dis])
next
  case comp
  then show ?thesis by (rule compensating_world [OF W ok dis])
qed

section \<open>Storing the event\<close>

text \<open>What the world shows when the event of a reconciliation is stored.\<close>

definition branch_shows :: "'w view \<Rightarrow> 'w \<Rightarrow> IntegrationEntry \<Rightarrow> string option \<Rightarrow> bool" where
  "branch_shows view w e v \<longleftrightarrow> at_branch view w (ie_plan e) \<in> {None, Some v}"

definition event_seen :: "'w view \<Rightarrow> IntegrationProjection \<Rightarrow> 'w \<Rightarrow> IntegrationBody \<Rightarrow> bool" where
  "event_seen view p w body = (case body of
     CandidatePrepared k c \<Rightarrow> \<forall>e\<in>set (in_entries p). entryId e = k \<longrightarrow> branch_shows view w e (Some (rc_expectedOid c))
   | EntryApplied k _ \<Rightarrow> \<forall>e\<in>set (in_entries p). entryId e = k \<longrightarrow> find (\<lambda>e. ie_applyResult e = None) (in_entries p) = Some e \<and>
       (\<forall>c. ie_candidate e = Some c \<longrightarrow> branch_shows view w e (Some (rc_candidateOid c)))
   | CompensationStarted _ \<Rightarrow> \<forall>e c. find (\<lambda>e. ie_applyResult e = None) (in_entries p) = Some e \<and> ie_candidate e = Some c \<longrightarrow>
       at_branch view w (ie_plan e) \<noteq> Some (Some (rc_candidateOid c))
   | EntryCompensated k _ \<Rightarrow> \<forall>e\<in>set (in_entries p). entryId e = k \<longrightarrow> ie_applyResult e \<noteq> None \<and>
       (\<forall>c. ie_candidate e = Some c \<longrightarrow> branch_shows view w e (Some (rc_expectedOid c)))
   | _ \<Rightarrow> True)"

lemma next_applied:
  assumes "nextIntegration X p (EntryApplied k r) = Inr p'"
  shows "k \<in> entryId ` set (in_entries p)"
    and "list_all2 (\<lambda>e e'. entry_change (EntryApplied k r) e e' \<and> (entryId e = k \<longrightarrow> ie_applyResult e' = Some r)) (in_entries p) (in_entries p')"
proof -
  have rep: "replaceEntry (recordApplied r) k (in_entries p) = Inr (in_entries p')"
    using assms by (auto simp: nextIntegration_def Let_def split: if_splits)
  then show "k \<in> entryId ` set (in_entries p)" by (auto simp: replaceEntry_Inr)
  show "list_all2 (\<lambda>e e'. entry_change (EntryApplied k r) e e' \<and> (entryId e = k \<longrightarrow> ie_applyResult e' = Some r)) (in_entries p) (in_entries p')"
  proof (rule list_all2_mono [OF conjunct2 [OF rep [unfolded replaceEntry_Inr]]])
    fix e e' assume "if entryId e = k then recordApplied r e = Inr e' else e' = e"
    then show "entry_change (EntryApplied k r) e e' \<and> (entryId e = k \<longrightarrow> ie_applyResult e' = Some r)"
      by (auto simp: recordApplied_def entry_change_def split: if_splits)
  qed
qed

lemma early_entries:
  assumes "integ_ok p" "e \<in> set (in_entries p)"
  shows "in_state p \<in> {Preparing, Prepared, Verifying, VectorVerified} \<Longrightarrow> ie_applyResult e = None"
    and "in_state p \<in> {Preparing, Prepared, Verifying, VectorVerified, Applying, VectorApplied} \<Longrightarrow> ie_compensationResult e = None"
  using assms unfolding integ_ok_def list_all_iff by blast+

lemma refs_ok_event:
  assumes ok: "integ_ok p" "refs_ok view p w" and nx: "nextIntegration X p body = Inr p'" and seen: "event_seen view p w body"
  shows "refs_ok view p' w"
proof -
  note st = next_state [OF nx]
  have ch: "list_all2 (\<lambda>e e'. entry_change body e e' \<and> (\<forall>k r. body = EntryApplied k r \<longrightarrow> entryId e = k \<longrightarrow> ie_applyResult e' = Some r)) (in_entries p) (in_entries p')"
  proof (cases "\<exists>k r. body = EntryApplied k r")
    case True
    then obtain k r where b: "body = EntryApplied k r" by blast
    show ?thesis by (rule list_all2_mono [OF next_applied(2) [OF nx [unfolded b]]]) (simp add: b)
  next
    case False
    then show ?thesis using list_all2_mono [OF next_entries [OF nx]] by simp
  qed
  let ?first = "\<lambda>p e. find (\<lambda>e. ie_applyResult e = None) (in_entries p) = Some e"
  let ?seen = "\<lambda>e. at_branch view w (ie_plan e)"
  have "list_all (\<lambda>e'. view_ok p' (?seen e') e') (in_entries p')"
  proof (rule list_all2_all [OF ch])
    show "list_all (\<lambda>e. e \<in> set (in_entries p) \<and> view_ok p (?seen e) e) (in_entries p)"
      using ok(2) by (simp add: refs_ok_def list_all_iff)
  next
    fix e e' assume e: "e \<in> set (in_entries p) \<and> view_ok p (?seen e) e" 
      and ch: "entry_change body e e' \<and> (\<forall>k r. body = EntryApplied k r \<longrightarrow> entryId e = k \<longrightarrow> ie_applyResult e' = Some r)"
    note c = ch [THEN conjunct1]
    have plan: "ie_plan e' = ie_plan e" using c by (auto simp: entry_change_def split: IntegrationBody.splits)
    have none: "ie_applyResult e = None \<and> ie_compensationResult e = None" if "in_state p \<in> {Preparing, Prepared, Verifying, VectorVerified}"
      using early_entries(1,2) [OF ok(1) conjunct1 [OF e]] that by blast
    have uncomp: "ie_compensationResult e = None" if "in_state p = Applying" using early_entries(2) [OF ok(1) conjunct1 [OF e]] that by simp
    show "view_ok p' (?seen e') e'"
      unfolding view_ok_def plan
    proof (intro allI impI)
      fix here assume here: "?seen e = Some here"
      with e have r: "ref_ok (in_state p) (?first p e) here e" by (simp add: view_ok_def)
      show "ref_ok (in_state p') (?first p' e') here e'"
      proof (cases body)
        case (CandidatePrepared k cand)
        then have states: "in_state p = Preparing" "in_state p' = Preparing" using st by auto
        have "\<forall>e\<in>set (in_entries p). entryId e = k \<longrightarrow> branch_shows view w e (Some (rc_expectedOid cand))" using seen CandidatePrepared by (simp add: event_seen_def)
        then have at: "entryId e = k \<Longrightarrow> here = Some (rc_expectedOid cand)" using e here by (auto simp: branch_shows_def)
        from c CandidatePrepared consider "e' = e" | "entryId e = k" "e' = e\<lparr>ie_candidate := Some cand\<rparr>" by (auto simp: entry_change_def)
        then show ?thesis
        proof cases
          case 1
          with r states none show ?thesis by (simp add: ref_ok_def)
        next
          case 2
          with at states none show ?thesis by (simp add: ref_ok_def)
        qed
      next
        case (EntryApplied k ar)
        then have at: "\<forall>e\<in>set (in_entries p). entryId e = k \<longrightarrow> ?first p e \<and> (\<forall>c. ie_candidate e = Some c \<longrightarrow> branch_shows view w e (Some (rc_candidateOid c)))"
          using seen by (simp add: event_seen_def)
        have k: "k \<in> entryId ` set (in_entries p)" using next_applied(1) nx unfolding EntryApplied by blast
        have states: "in_state p = Applying" "in_state p' = Applying" using st EntryApplied by auto
        show ?thesis
        proof (cases "entryId e = k")
          case True
          then have e': "ie_candidate e' = ie_candidate e" "ie_applyResult e' = Some ar" "ie_compensationResult e' = ie_compensationResult e"
            using ch EntryApplied by (auto simp: entry_change_def)
          have "\<forall>c. ie_candidate e = Some c \<longrightarrow> here = Some (rc_candidateOid c)" using at e here True unfolding branch_shows_def by fastforce
          with e' uncomp [OF states(1)] states show ?thesis by (simp add: ref_ok_def)
        next
          case False
          then have e': "e' = e" using ch EntryApplied by (auto simp: entry_change_def)
          have "\<not> ?first p e" using at k False by fastforce
          with r e' states uncomp show ?thesis by (simp add: ref_ok_def)
        qed
      next
        case (CompensationStarted reason)
        then have "?first p e \<Longrightarrow> ie_candidate e = Some cand \<Longrightarrow> here \<noteq> Some (rc_candidateOid cand)" for cand
          using seen here by (auto simp: event_seen_def)
        with CompensationStarted r c st show ?thesis by (auto simp: entry_change_def ref_ok_def)
      next
        case (EntryCompensated k cr)
        then have "entryId e = k \<Longrightarrow> ie_applyResult e \<noteq> None \<and> (\<forall>cand. ie_candidate e = Some cand \<longrightarrow> here = Some (rc_expectedOid cand))"
          using seen here e by (auto simp: event_seen_def branch_shows_def)
        with EntryCompensated r c st show ?thesis by (auto simp: entry_change_def ref_ok_def)
      next
        case IntegrationApplied
        with ok(1) e r c st show ?thesis by (auto simp: entry_change_def ref_ok_def list_all_iff)
      qed (use r c st none in \<open>auto simp: entry_change_def ref_ok_def\<close>)
    qed
  qed
  then show ?thesis by (simp add: refs_ok_def)
qed

text \<open>The event a reconciliation returns is seen in the world it leaves.\<close>

lemma same_entry: "distinct (map entryId es) \<Longrightarrow> e \<in> set es \<Longrightarrow> i \<in> set es \<Longrightarrow> entryId e = entryId i \<Longrightarrow> e = i"
  by (auto simp: distinct_map dest: inj_onD)

lemma seen_recovery [simp]: "event_seen view p w (iv_body (recoveryEvent X p r k oid))"
  by (simp add: event_seen_def recoveryEvent_def integrationEvent_def)

lemma branch_shows_iff: "branch_shows view w e v \<longleftrightarrow> shows_ref view w (ri_canonicalRoot (ip_repository (ie_plan e))) (ip_targetRef (ie_plan e)) v"
  by (simp add: branch_shows_def shows_ref_def at_branch_def)

lemma preparing_seen:
  assumes R: "git_reads G view" and dis: "distinct (map entryId (in_entries p))" and r: "reconcilePreparing X G p w = (Inr (Some e), w')"
  shows "event_seen view p w' (iv_body e)"
proof (cases "find (\<lambda>e. ie_candidate e = None) (in_entries p)")
  case None
  with r show ?thesis by (auto simp: reconcilePreparing_def emit_def event_seen_def integrationEvent_def)
next
  case (Some i)
  note mem = find_member [OF Some]
  obtain res where res: "prepareRepositoryCandidate G (ip_repository (ie_plan i)) (ip_targetRef (ie_plan i)) (ip_expectedOid (ie_plan i)) (ip_childOid (ie_plan i)) (ip_message (ie_plan i)) w = (res, w')"
    using r Some by (auto simp: reconcilePreparing_def emit_def Let_def split: prod.splits sum.splits)
  show ?thesis
  proof (cases res)
    case (Inl err)
    with r Some res have "e = recoveryEvent X p (PreparationThrew err) (Some (entryId i)) None"
      by (simp add: reconcilePreparing_def emit_def Let_def)
    then show ?thesis by simp
  next
    case (Inr c)
    with r Some res have e: "e = integrationEvent X p (ActCandidate (entryId i)) (CandidatePrepared (entryId i) c)"
      by (simp add: reconcilePreparing_def emit_def Let_def)
    have "branch_shows view w' i (Some (rc_expectedOid c))"
      using prepared_ref [OF R res [unfolded Inr]] prepared_matches [OF res [unfolded Inr]] by (simp add: branch_shows_iff)
    then show ?thesis using same_entry [OF dis _ conjunct1 [OF mem]] unfolding e by (auto simp: event_seen_def integrationEvent_def)
  qed
qed

lemma applying_seen:
  assumes G: "git_laws G view" and dis: "distinct (map entryId (in_entries p))" and ok: "integ_ok p"
    and r: "reconcileApplying X G p w = (Inr (Some e), w')"
  shows "event_seen view p w' (iv_body e)"
proof (cases "find (\<lambda>e. ie_applyResult e = None) (in_entries p)")
  case None
  with r show ?thesis by (auto simp: reconcileApplying_def emit_def event_seen_def integrationEvent_def)
next
  case (Some i)
  note mem = find_member [OF Some]
  note law = G [unfolded git_laws_def]
  from r Some obtain c result where c: "ie_candidate i = Some c" and a: "applyRepositoryCandidate G (ip_repository (ie_plan i)) c w = (Inr result, w')"
    and e: "e = appliedEvent X p i result"
    by (auto simp: reconcileApplying_def emit_def split: option.splits prod.splits sum.splits)
  have tgt: "rc_targetRef c = ip_targetRef (ie_plan i)" by (rule candidate_of_plan(1) [OF ok conjunct1 [OF mem] c])
  note cas = apply_candidate_refs(2,3) [OF conjunct1 [OF law] a conjunct2 [OF law], unfolded tgt]
  have entry: "event_seen view p w' (EntryApplied (entryId i) ar)" if "branch_shows view w' i (Some (rc_candidateOid c))" for ar
    using that Some c by (auto simp: event_seen_def dest!: same_entry [OF dis _ conjunct1 [OF mem]])
  show ?thesis
  proof (cases result)
    case (CasApplied oid)
    then show ?thesis using cas(1) entry unfolding e by (simp add: appliedEvent_def integrationEvent_def branch_shows_iff)
  next
    case (CasAlreadyApplied oid)
    then show ?thesis using cas(1) entry unfolding e by (simp add: appliedEvent_def integrationEvent_def branch_shows_iff)
  next
    case (CasRefused oid)
    have "event_seen view p w' (CompensationStarted REF_MOVED)" using cas(2) CasRefused Some c by (simp add: event_seen_def at_branch_def)
    then show ?thesis using CasRefused unfolding e by (simp add: appliedEvent_def integrationEvent_def)
  next
    case (CasRecovery rr oid)
    then show ?thesis unfolding e by (simp add: appliedEvent_def)
  qed
qed

lemma compensating_seen:
  assumes G: "git_laws G view" and dis: "distinct (map entryId (in_entries p))" and ok: "integ_ok p"
    and r: "reconcileCompensating X G p w = (Inr (Some e), w')"
  shows "event_seen view p w' (iv_body e)"
proof (cases "find (\<lambda>e. ie_applyResult e \<noteq> None \<and> ie_compensationResult e = None) (rev (in_entries p))")
  case None
  with r show ?thesis by (auto simp: reconcileCompensating_def emit_def event_seen_def integrationEvent_def)
next
  case (Some i)
  have mem: "i \<in> set (in_entries p)" "ie_applyResult i \<noteq> None" using find_member [OF Some] by auto
  note law = G [unfolded git_laws_def]
  from r Some obtain c result where c: "ie_candidate i = Some c" and a: "compensateRepositoryCandidate G (ip_repository (ie_plan i)) c w = (Inr result, w')"
    and e: "e = compensatedEvent X p i result"
    by (auto simp: reconcileCompensating_def emit_def split: option.splits prod.splits sum.splits)
  have tgt: "rc_targetRef c = ip_targetRef (ie_plan i)" by (rule candidate_of_plan(1) [OF ok mem(1) c])
  note undo = compensate_candidate_refs(2) [OF conjunct1 [OF law] a conjunct2 [OF law], unfolded tgt]
  have entry: "event_seen view p w' (EntryCompensated (entryId i) cr)" if "branch_shows view w' i (Some (rc_expectedOid c))" for cr
    using that mem c by (auto simp: event_seen_def dest!: same_entry [OF dis _ mem(1)])
  show ?thesis
    using undo entry unfolding e by (cases result) (simp_all add: compensatedEvent_def integrationEvent_def [of X p "ActCompensated _"] branch_shows_iff)
qed

lemma reconcile_seen:
  assumes "git_laws G view" "distinct (map entryId (in_entries p))" "integ_ok p" "reconcileMultiRepoIntegrationOnce X G V p w = (Inr (Some e), w')"
  shows "event_seen view p w' (iv_body e)"
proof -
  have R: "git_reads G view" using assms(1) by (simp add: git_laws_def)
  have verifying: "event_seen view p w' (iv_body e)" if "reconcileVerifying X V p w = (Inr (Some e), w')"
    using that by (auto simp: reconcileVerifying_def emit_def event_seen_def [of _ _ _ "IntegrationVerified _"] integrationEvent_def
        split: option.splits sum.splits prod.splits if_splits)
  show ?thesis
    using assms(4) preparing_seen [OF R assms(2)] applying_seen [OF assms(1-3)] compensating_seen [OF assms(1-3)] verifying
    by (cases "in_state p") (auto simp: reconcileMultiRepoIntegrationOnce_def emit_def event_seen_def [of _ _ _ VerificationStarted]
        event_seen_def [of _ _ _ ApplyingStarted] integrationEvent_def split: if_splits)
qed

section \<open>Every run of a transaction\<close>

definition quiet_verifier :: "'w VerificationEnv \<Rightarrow> 'w view \<Rightarrow> bool" where
  "quiet_verifier V view \<longleftrightarrow> (\<forall>w plan env i c. same view w (snd (ve_execute V w plan env i c)))"

lemma created_plan:
  assumes "createMultiRepoIntegrationEvent X V plan = Inr e" "applyMultiRepoIntegrationEvent X None e = Inr p"
  shows "in_plan p = plan \<and> in_state p = Preparing \<and> distinct (map entryId (in_entries p)) \<and> list_all (\<lambda>e. ie_candidate e = None) (in_entries p)"
proof -
  have v: "validatePlan V plan = Inr plan" and e: "e = \<lparr>iv_eventId = ix_eventId X (np_transactionId plan) 0 ActCreate, iv_transactionId = np_transactionId plan,
      iv_expectedVersion = 0, iv_body = IntegrationCreated plan\<rparr>"
    using assms(1) by (auto simp: createMultiRepoIntegrationEvent_def validatePlan_def Let_def split: if_splits sum.splits)
  have "distinct (map (\<lambda>e. ri_repositoryId (ip_repository e)) (np_entries plan))"
    using v by (auto simp: validatePlan_def Let_def split: if_splits)
  moreover have "p = createdIntegration X e plan" using assms(2) e by (auto simp: applyMultiRepoIntegrationEvent_def)
  ultimately show ?thesis by (simp add: createdIntegration_def comp_def entryId_def list_all_iff)
qed

lemma entryIds_of_plans: "map ie_plan es' = map ie_plan es \<Longrightarrow> map entryId es' = map entryId es"
proof -
  have "map entryId = (\<lambda>xs. map (\<lambda>q. ri_repositoryId (ip_repository q)) (map ie_plan xs))" by (simp add: fun_eq_iff entryId_def)
  then show "map ie_plan es' = map ie_plan es \<Longrightarrow> ?thesis" by metis
qed

lemma saga_invariant:
  assumes G: "git_laws G view" and V: "quiet_verifier V view" and dis: "distinct (map branch (np_entries plan))" and "saga G V view plan p w"
  shows "integ_ok p \<and> in_plan p = plan \<and> distinct (map entryId (in_entries p)) \<and> refs_ok view p w"
  using assms(4)
proof induction
  case (saga_created X e p w)
  note c = created_plan [OF saga_created]
  have "integ_ok p" by (rule apply_integ_ok [OF saga_created(2)]) simp
  moreover have "refs_ok view p w" using c by (auto simp: refs_ok_def view_ok_def ref_ok_def list_all_iff)
  ultimately show ?case using c by blast
next
  case (saga_stored p w X e w' p')
  then have ok: "integ_ok p" "in_plan p = plan" "distinct (map entryId (in_entries p))" "refs_ok view p w" by blast+
  have br: "distinct (map branch (map ie_plan (in_entries p)))" using dis ok by (simp add: integ_ok_def)
  have W: "git_writes G view" using G by (simp add: git_laws_def)
  have Vq: "\<And>w plan env i c. same view w (snd (ve_execute V w plan env i c))" using V unfolding quiet_verifier_def by blast
  have w': "refs_ok view p w'" by (rule reconcile_world [OF W Vq ok(1,4) br saga_stored(2)])
  have p': "integ_ok p'" by (rule apply_integ_ok [OF saga_stored(3)]) (use ok in blast)
  from saga_stored(3) consider "p' = p"
    | q v ids where "nextIntegration X p (iv_body e) = Inr q" "p' = q\<lparr>in_version := v, in_eventIds := ids\<rparr>"
    by (auto simp: applyMultiRepoIntegrationEvent_def split: option.splits if_splits)
  then show ?case
  proof cases
    case 1
    with ok w' show ?thesis by blast
  next
    case 2
    have "refs_ok view q w'" by (rule refs_ok_event [OF ok(1) w' 2(1) reconcile_seen [OF G ok(3,1) saga_stored(2)]])
    then have "refs_ok view p' w'" using 2 by (simp add: refs_ok_def view_ok_def)
    moreover have "map entryId (in_entries p') = map entryId (in_entries p)"
      using entryIds_of_plans [OF entry_change_keeps(1) [OF next_entries [OF 2(1)]]] 2(2) by simp
    ultimately show ?thesis using p' ok 2 next_state [OF 2(1)] by simp
  qed
next
  case (saga_lost p w X result w')
  then have ok: "integ_ok p" "in_plan p = plan" "distinct (map entryId (in_entries p))" "refs_ok view p w" by blast+
  have br: "distinct (map branch (map ie_plan (in_entries p)))" using dis ok by (simp add: integ_ok_def)
  have W: "git_writes G view" using G by (simp add: git_laws_def)
  have Vq: "\<And>w plan env i c. same view w (snd (ve_execute V w plan env i c))" using V unfolding quiet_verifier_def by blast
  show ?case using reconcile_world [OF W Vq ok(1,4) br saga_lost(2)] ok by blast
next
  case (saga_outside p w w')
  then have ok: "integ_ok p" "in_plan p = plan" "distinct (map entryId (in_entries p))" "refs_ok view p w" by blast+
  have "ie_plan ` set (in_entries p) = set (np_entries plan)" using ok unfolding integ_ok_def by (metis list.set_map)
  then have "at_branch view w' (ie_plan e) \<in> {at_branch view w (ie_plan e), None}" if "e \<in> set (in_entries p)" for e using saga_outside(2) that by blast
  with refs_ok_same [OF ok(4)] ok show ?case by blast
qed

text \<open>What the invariant says of one entry, by the state of the transaction.\<close>

lemma entry_at:
  assumes ok: "integ_ok p" and e: "e \<in> set (in_entries p)" and at: "ref_ok (in_state p) first here e"
  shows "in_state p = VectorApplied \<Longrightarrow> \<exists>c. ie_candidate e = Some c \<and> rc_childOid c = ip_childOid (ie_plan e) \<and> here = Some (rc_candidateOid c)"
    "in_state p = VectorCompensated \<Longrightarrow> here = Some (ip_expectedOid (ie_plan e))"
    "ie_candidate e = Some c \<Longrightarrow> here \<in> {Some (ip_expectedOid (ie_plan e)), Some (rc_candidateOid c)}"
proof -
  have match: "rc_expectedOid c = ip_expectedOid (ie_plan e) \<and> rc_childOid c = ip_childOid (ie_plan e)" if "ie_candidate e = Some c" for c
    using ok e that unfolding integ_ok_def list_all_iff entry_ok_def by blast
  have has: "\<exists>c. ie_candidate e = Some c" if "in_state p \<notin> {Preparing, RecoveryRequired}" using ok e that unfolding integ_ok_def list_all_iff by blast
  show "\<exists>c. ie_candidate e = Some c \<and> rc_childOid c = ip_childOid (ie_plan e) \<and> here = Some (rc_candidateOid c)" if s: "in_state p = VectorApplied"
  proof -
    have "ie_applyResult e \<noteq> None" using ok e s unfolding integ_ok_def list_all_iff by blast
    with has s at match show ?thesis by (auto simp: ref_ok_def)
  qed
  show "here = Some (ip_expectedOid (ie_plan e))" if s: "in_state p = VectorCompensated"
  proof -
    have "ie_applyResult e \<noteq> None \<longrightarrow> ie_compensationResult e \<noteq> None" using ok e s unfolding integ_ok_def list_all_iff by blast
    with has s at match show ?thesis by (auto simp: ref_ok_def)
  qed
  show "here \<in> {Some (ip_expectedOid (ie_plan e)), Some (rc_candidateOid c)}" if "ie_candidate e = Some c"
    using at match [OF that] that by (auto simp: ref_ok_def)
qed

text \<open>
  C21. A multi-repository integration is atomic on the branches nobody else disturbed. In every run of a transaction -- events stored or
  lost after the git commands ran, other processes changing anything at any time, branches of the plan included, and commands that
  fail -- a transaction that ends as applied has a verification receipt. For every branch of the plan that no other process has moved
  and whose \<open>show-ref\<close> has not failed: it is at its prepared merge commit if the transaction ends as applied, at the commit it
  started from if it ends as compensated, and in between, once its candidate is prepared, at one of the two. A disturbed branch
  loses this guarantee for itself only.
\<close>

theorem integration_atomic:
  assumes "git_laws G (undisturbed refs disturbed)" "quiet_verifier V (undisturbed refs disturbed)"
    and "distinct (map branch (np_entries plan))" "saga G V (undisturbed refs disturbed) plan p w"
  shows "map ie_plan (in_entries p) = np_entries plan \<and> (in_state p = VectorApplied \<longrightarrow> receipt_ok p) \<and>
    (\<forall>e\<in>set (in_entries p). branch (ie_plan e) \<notin> disturbed w \<longrightarrow>
       (in_state p = VectorApplied \<longrightarrow>
          (\<exists>c. ie_candidate e = Some c \<and> rc_childOid c = ip_childOid (ie_plan e) \<and> at_branch refs w (ie_plan e) = Some (rc_candidateOid c))) \<and>
       (in_state p = VectorCompensated \<longrightarrow> at_branch refs w (ie_plan e) = Some (ip_expectedOid (ie_plan e))) \<and>
       (\<forall>c. ie_candidate e = Some c \<longrightarrow> at_branch refs w (ie_plan e) \<in> {Some (ip_expectedOid (ie_plan e)), Some (rc_candidateOid c)}))"
proof -
  have ok: "integ_ok p" "in_plan p = plan" "refs_ok (undisturbed refs disturbed) p w" using saga_invariant [OF assms] by blast+
  have "ref_ok (in_state p) (find (\<lambda>e. ie_applyResult e = None) (in_entries p) = Some e) (at_branch refs w (ie_plan e)) e"
    if "e \<in> set (in_entries p)" "branch (ie_plan e) \<notin> disturbed w" for e
    using ok(3) that by (simp add: refs_ok_def list_all_iff view_ok_def at_branch_def undisturbed_def branch_def)
  note at = entry_at [OF ok(1) _ this]
  show ?thesis using ok(1,2) at unfolding integ_ok_def by blast
qed

section \<open>Two repositories\<close>

text \<open>
  A small git: the world lists the references, the newest value first; every merge gives the same commit. The command
  \<open>update-ref\<close> refuses the branch of the repository in \<open>locked\<close>.
\<close>

type_synonym sample_world = "((string \<times> string) \<times> string) list"

definition oid :: "char \<Rightarrow> string" where
  "oid c = replicate 40 c"

definition sample_run :: "string \<Rightarrow> sample_world \<Rightarrow> string \<Rightarrow> string list \<Rightarrow> (bool \<times> string) \<times> sample_world" where
  "sample_run locked w cwd args = (case args of
     [] \<Rightarrow> ((False, []), w)
   | cmd # rest \<Rightarrow>
       if cmd = ''show-ref'' then (case map_of w (cwd, last rest) of None \<Rightarrow> ((False, []), w) | Some v \<Rightarrow> ((True, v), w))
       else if cmd = ''update-ref'' then
         (if length rest = 3 \<and> cwd \<noteq> locked \<and> map_of w (cwd, rest ! 0) = Some (rest ! 2) then ((True, []), ((cwd, rest ! 0), rest ! 1) # w) else ((False, []), w))
       else if cmd = ''merge-tree'' then ((True, oid CHR ''d''), w)
       else if cmd = ''commit-tree'' then ((True, oid CHR ''c''), w)
       else if cmd = ''rev-list'' then ((True, oid CHR ''c'' @ '' '' @ oid CHR ''a'' @ '' '' @ oid CHR ''b''), w)
       else if length rest = 2 then ((True, ''/git''), w)
       else let spec = last rest in ((True, if last (butlast spec) = CHR ''e'' then oid CHR ''d'' else take 40 spec), w))"

definition sample_git :: "string \<Rightarrow> sample_world GitEnv" where
  "sample_git locked = \<lparr>ge_realpath = (\<lambda>_ path. Some path), ge_lstat = (\<lambda>_ _. Some (True, 1, 2)), ge_run = sample_run locked\<rparr>"

definition sample_refs :: "sample_world refs" where
  "sample_refs w root ref = map_of w (root, ref)"

definition sample_verifier :: "sample_world VerificationEnv" where
  "sample_verifier = \<lparr>ve_environmentDigest = (\<lambda>_. []), ve_manifestDigest = (\<lambda>_ _ _ _ _. []), ve_resultDigest = (\<lambda>_ _. []), ve_receiptDigest = (\<lambda>_ _ _ _ _. []),
     ve_observe = (\<lambda>_ e. \<lparr>ob_candidateOid = cv_candidateOid e, ob_treeOid = cv_treeOid e, ob_clean = True, ob_identityExact = True\<rparr>),
     ve_execute = (\<lambda>w _ _ _ _. (Some \<lparr>cr_ok = True, cr_code = 0, cr_outputDigest = replicate 64 CHR ''e'', cr_outputBytes = 0, cr_fingerprint = replicate 64 CHR ''f'',
        cr_transportTrusted = True, cr_scopeTrusted = True\<rparr>, w)), ve_timestampOk = (\<lambda>_. True)\<rparr>"

definition integ_prims :: IntegrationPrims where
  "integ_prims = \<lparr>ix_eventDigest = iv_eventId, ix_candidateDigest = rc_candidateOid, ix_eventId = (\<lambda>_ v _. replicate (nat v) CHR ''i''), ix_assertHeld = (\<lambda>_. True),
     ix_verifiedAt = ''now''\<rparr>"

text \<open>Foreign values of the small world are commits other than those of the plan and its merges; a branch that ever had one is disturbed.\<close>

definition sample_disturbed :: "sample_world \<Rightarrow> (string \<times> string) set" where
  "sample_disturbed w = fst ` set (filter (\<lambda>x. snd x \<notin> {oid CHR ''a'', oid CHR ''c''}) w)"

definition sample_view :: "sample_world view" where
  "sample_view = undisturbed sample_refs sample_disturbed"

lemma sample_update:
  assumes "map_of w (cwd, ref) = Some old" "disturbed w \<subseteq> disturbed (((cwd, ref), new) # w)"
  shows "swapped (undisturbed sample_refs disturbed) cwd ref old new w (((cwd, ref), new) # w)"
  using assms by (auto simp: swapped_def undisturbed_def sample_refs_def)

lemma sample_writes:
  assumes "\<And>x w. disturbed w \<subseteq> disturbed (x # w)"
  shows "git_writes (sample_git locked) (undisturbed sample_refs disturbed)"
proof -
  have upd: "swapped (undisturbed sample_refs disturbed) cwd ref old new w (((cwd, ref), new) # w)" if "map_of w (cwd, ref) = Some old" for cwd ref old new w
    using sample_update [OF that] assms by blast
  have keep: "snd (sample_run locked w cwd (cmd # rest)) = w" if "cmd \<noteq> ''update-ref''" for w cwd cmd rest
    using that by (simp add: sample_run_def Let_def split: option.splits)
  show ?thesis unfolding git_writes_def
  proof (intro conjI allI impI)
    fix w cwd and args :: "string list" assume "args \<noteq> [] \<and> hd args \<noteq> ''update-ref''"
    then show "same (undisturbed sample_refs disturbed) w (snd (ge_run (sample_git locked) w cwd args))"
      using keep by (cases args) (auto simp: sample_git_def)
  next
    fix w cwd ref new old
    show "swapped (undisturbed sample_refs disturbed) cwd ref old new w (snd (ge_run (sample_git locked) w cwd [''update-ref'', ref, new, old]))"
      using upd [where w = w and cwd = cwd and ref = ref and old = old and new = new] same_swapped [OF same_refl, where view = "undisturbed sample_refs disturbed"]
      by (simp add: sample_git_def sample_run_def split: if_splits)
  qed
qed

lemma sample_git_laws: "git_laws (sample_git locked) sample_view"
proof -
  have "git_writes (sample_git locked) sample_view"
    unfolding sample_view_def by (rule sample_writes) (auto simp: sample_disturbed_def)
  moreover have "git_reads (sample_git locked) sample_view"
    by (auto simp: git_reads_def sample_git_def sample_run_def sample_view_def undisturbed_def sample_refs_def split: option.splits)
  ultimately show ?thesis by (simp add: git_laws_def)
qed

lemma sample_verifier_quiet: "quiet_verifier sample_verifier (undisturbed sample_refs disturbed)"
  by (simp add: quiet_verifier_def sample_verifier_def)

fun drive :: "IntegrationPrims \<Rightarrow> 'w GitEnv \<Rightarrow> 'w VerificationEnv \<Rightarrow> nat \<Rightarrow> IntegrationProjection \<times> 'w \<Rightarrow> (IntegrationProjection \<times> 'w) option" where
  "drive X G V 0 s = Some s"
| "drive X G V (Suc n) s = (case reconcileMultiRepoIntegrationOnce X G V (fst s) (snd s) of
     (Inr (Some e), w') \<Rightarrow> (case applyMultiRepoIntegrationEvent X (Some (fst s)) e of Inr p' \<Rightarrow> drive X G V n (p', w') | _ \<Rightarrow> None)
   | _ \<Rightarrow> None)"

lemma drive_saga: "drive X G V n s = Some s' \<Longrightarrow> saga G V view plan (fst s) (snd s) \<Longrightarrow> saga G V view plan (fst s') (snd s')"
proof (induction n arbitrary: s)
  case (Suc n)
  from Suc.prems(1) obtain e w' p' where "reconcileMultiRepoIntegrationOnce X G V (fst s) (snd s) = (Inr (Some e), w')"
    "applyMultiRepoIntegrationEvent X (Some (fst s)) e = Inr p'" "drive X G V n (p', w') = Some s'"
    by (auto split: prod.splits sum.splits option.splits)
  with Suc saga_stored show ?case by (metis fst_conv snd_conv)
qed simp

definition sample_entry :: "string \<Rightarrow> IntegrationEntryPlan" where
  "sample_entry k = \<lparr>ip_repository = \<lparr>ri_repositoryId = k, ri_canonicalRoot = ''/'' @ k, ri_rootDevice = 1, ri_rootInode = 2, ri_gitCommonDirDevice = 1, ri_gitCommonDirInode = 2,
       ri_defaultBranch = ''main'', ri_protectedBranches = []\<rparr>,
     ip_targetRef = ''refs/heads/next'', ip_expectedOid = oid CHR ''a'', ip_childOid = oid CHR ''b'', ip_canonicalWorkspacePath = ''/work/'' @ k, ip_message = ''merge''\<rparr>"

definition sample_plan :: IntegrationPlan where
  "sample_plan = \<lparr>np_transactionId = ''tx1'', np_repositorySetId = replicate 64 CHR ''0'', np_entries = [sample_entry ''api'', sample_entry ''web''],
     np_verifyCommands = [''make check''], np_verifyEnvironment = []\<rparr>"

definition sample_world0 :: sample_world where
  "sample_world0 = map (\<lambda>q. (branch q, ip_expectedOid q)) (np_entries sample_plan)"

definition sample_final :: "string \<Rightarrow> nat \<Rightarrow> (IntegrationProjection \<times> sample_world) option" where
  "sample_final locked n = (case createMultiRepoIntegrationEvent integ_prims sample_verifier sample_plan of Inl _ \<Rightarrow> None
     | Inr e \<Rightarrow> (case applyMultiRepoIntegrationEvent integ_prims None e of Inl _ \<Rightarrow> None
         | Inr p \<Rightarrow> drive integ_prims (sample_git locked) sample_verifier n (p, sample_world0)))"

lemma sample_saga: "sample_final locked n = Some (p, w) \<Longrightarrow> saga (sample_git locked) sample_verifier view sample_plan p w"
  using drive_saga [of integ_prims "sample_git locked" sample_verifier n _ "(p, w)" view sample_plan]
  by (auto simp: sample_final_def split: sum.splits dest!: saga_created)

text \<open>After the branch of \<open>api\<close> has moved, another process moves the branch of \<open>web\<close>.\<close>

definition sample_moved :: "(IntegrationProjection \<times> sample_world) option" where
  "sample_moved = (case sample_final [] 7 of None \<Rightarrow> None
     | Some (p, w) \<Rightarrow> drive integ_prims (sample_git []) sample_verifier 3 (p, ((''/web'', ''refs/heads/next''), oid CHR ''f'') # w))"

lemma sample_moved_saga:
  assumes "sample_moved = Some (p, w)"
  shows "saga (sample_git []) sample_verifier sample_view sample_plan p w"
proof -
  from assms obtain p0 w0 where s: "sample_final [] 7 = Some (p0, w0)"
    and d: "drive integ_prims (sample_git []) sample_verifier 3 (p0, ((''/web'', ''refs/heads/next''), oid CHR ''f'') # w0) = Some (p, w)"
    by (auto simp: sample_moved_def split: option.splits)
  let ?w = "((''/web'', ''refs/heads/next''), oid CHR ''f'') # w0"
  have "at_branch sample_view ?w q \<in> {at_branch sample_view w0 q, None}" for q
    by (auto simp: at_branch_def sample_view_def undisturbed_def sample_disturbed_def sample_refs_def oid_def)
  then have "saga (sample_git []) sample_verifier sample_view sample_plan p0 ?w" by (intro saga_outside [OF sample_saga [OF s]]) blast
  with drive_saga [OF d] show ?thesis by simp
qed

lemma sample_ends:
  "map_option (\<lambda>s. (in_state (fst s), list_all (\<lambda>x. snd x = oid CHR ''a'' \<or> snd x = oid CHR ''c'') (snd s))) (sample_final [] 9) = Some (VectorApplied, True)"
  "map_option (\<lambda>s. (in_state (fst s), list_all (\<lambda>x. snd x = oid CHR ''a'' \<or> snd x = oid CHR ''c'') (snd s))) (sample_final ''/web'' 10) = Some (VectorCompensated, True)"
  "map_option (\<lambda>s. (in_state (fst s), snd s)) sample_moved = Some (VectorCompensated,
     [((''/api'', ''refs/heads/next''), oid CHR ''a''), ((''/web'', ''refs/heads/next''), oid CHR ''f''), ((''/api'', ''refs/heads/next''), oid CHR ''c''),
      ((''/api'', ''refs/heads/next''), oid CHR ''a''), ((''/web'', ''refs/heads/next''), oid CHR ''a'')])"
  by code_simp+

lemma sample_branches: "distinct (map branch (np_entries sample_plan))"
  by code_simp

lemma sample_undisturbed: "list_all (\<lambda>x. snd x = oid CHR ''a'' \<or> snd x = oid CHR ''c'') w \<Longrightarrow> sample_disturbed w = {}"
  by (auto simp: sample_disturbed_def list_all_iff)

text \<open>An applied run, a compensated run, and a run in which one of the two branches is moved by another process.\<close>

theorem integration_atomic_witness:
  "(\<exists>p w. sample_final [] 9 = Some (p, w) \<and> in_state p = VectorApplied \<and> receipt_ok p \<and>
      (\<forall>e\<in>set (in_entries p). \<exists>c. ie_candidate e = Some c \<and> at_branch sample_refs w (ie_plan e) = Some (rc_candidateOid c))) \<and>
   (\<exists>p w. sample_final ''/web'' 10 = Some (p, w) \<and> in_state p = VectorCompensated \<and>
      (\<forall>e\<in>set (in_entries p). at_branch sample_refs w (ie_plan e) = Some (ip_expectedOid (ie_plan e)))) \<and>
   (\<exists>p w. sample_moved = Some (p, w) \<and> in_state p = VectorCompensated \<and> at_branch sample_refs w (sample_entry ''web'') = Some (oid CHR ''f'') \<and>
      (\<forall>e\<in>set (in_entries p). branch (ie_plan e) = (''/api'', ''refs/heads/next'') \<longrightarrow> at_branch sample_refs w (ie_plan e) = Some (ip_expectedOid (ie_plan e))))"
proof -
  note atomic = integration_atomic [OF sample_git_laws [unfolded sample_view_def] sample_verifier_quiet sample_branches]
  obtain p w where r: "sample_final [] 9 = Some (p, w)" "in_state p = VectorApplied" "sample_disturbed w = {}"
    using sample_ends(1) sample_undisturbed by (cases "sample_final [] 9") auto
  obtain p' w' where r': "sample_final ''/web'' 10 = Some (p', w')" "in_state p' = VectorCompensated" "sample_disturbed w' = {}"
    using sample_ends(2) sample_undisturbed by (cases "sample_final ''/web'' 10") auto
  obtain q v where m: "sample_moved = Some (q, v)" "in_state q = VectorCompensated" and v: "v = [((''/api'', ''refs/heads/next''), oid CHR ''a''),
      ((''/web'', ''refs/heads/next''), oid CHR ''f''), ((''/api'', ''refs/heads/next''), oid CHR ''c''), ((''/api'', ''refs/heads/next''), oid CHR ''a''),
      ((''/web'', ''refs/heads/next''), oid CHR ''a'')]"
    using sample_ends(3) by (cases sample_moved) auto
  have web: "at_branch sample_refs v (sample_entry ''web'') = Some (oid CHR ''f'')" by (simp add: v at_branch_def sample_refs_def sample_entry_def)
  have api: "(''/api'', ''refs/heads/next'') \<notin> sample_disturbed v" by (auto simp: v sample_disturbed_def)
  note moved = atomic [OF sample_moved_saga [OF m(1), unfolded sample_view_def]]
  from atomic [OF sample_saga [OF r(1)]] atomic [OF sample_saga [OF r'(1)]] r r' have one: "receipt_ok p"
    "\<forall>e\<in>set (in_entries p). \<exists>c. ie_candidate e = Some c \<and> at_branch sample_refs w (ie_plan e) = Some (rc_candidateOid c)"
    "\<forall>e\<in>set (in_entries p'). at_branch sample_refs w' (ie_plan e) = Some (ip_expectedOid (ie_plan e))" by blast+
  have "\<forall>e\<in>set (in_entries q). branch (ie_plan e) = (''/api'', ''refs/heads/next'') \<longrightarrow> at_branch sample_refs v (ie_plan e) = Some (ip_expectedOid (ie_plan e))"
    using moved m api by metis
  with one r r' m web show ?thesis by blast
qed

section \<open>Progress\<close>

lemma saga_ok: "saga G V view plan p w \<Longrightarrow> integ_ok p \<and> distinct (map entryId (in_entries p))"
proof (induction rule: saga.induct)
  case (saga_created X e p w)
  have "integ_ok p" by (rule apply_integ_ok [OF saga_created(2)]) simp
  then show ?case using created_plan [OF saga_created] by blast
next
  case (saga_stored p w X e w' p')
  have "integ_ok p'" by (rule apply_integ_ok [OF saga_stored(3)]) (use saga_stored in blast)
  moreover have "map entryId (in_entries p') = map entryId (in_entries p)"
    using saga_stored(3) entryIds_of_plans [OF entry_change_keeps(1) [OF next_entries]]
    by (auto simp: applyMultiRepoIntegrationEvent_def split: option.splits if_splits)
  ultimately show ?case using saga_stored by simp
qed

lemma remaining_bound: "remaining p \<le> 3 * length (in_entries p) + 6"
proof -
  have "length (filter Q (in_entries p)) \<le> 2 * length (in_entries p) + 4" "length (filter Q (in_entries p)) \<le> 5 + 3 * length (in_entries p)" for Q
    using length_filter_le [of Q "in_entries p"] by linarith+
  then show ?thesis by (cases "in_state p") (simp_all add: remaining_def Let_def)
qed

lemma accepted_stored:
  assumes "accepted X p e" "obj_get (in_eventIds p) (iv_eventId e) = None"
  shows "\<exists>p'. applyMultiRepoIntegrationEvent X (Some p) e = Inr p' \<and> remaining p' < remaining p"
proof -
  from assms(1) obtain q where q: "nextIntegration X p (iv_body e) = Inr q" "remaining q < remaining p" "iv_transactionId e = in_transactionId p" "iv_expectedVersion e = in_version p"
    by (auto simp: accepted_def)
  moreover have "remaining (q\<lparr>in_version := v, in_eventIds := ids\<rparr>) = remaining q" for v ids by (simp add: remaining_def)
  ultimately show ?thesis using assms(2) by (simp add: applyMultiRepoIntegrationEvent_def)
qed

text \<open>Once the authority is held, the reconciler fails only where git or the verifier fails.\<close>

definition internal_failure :: "IntegrationFailure \<Rightarrow> bool" where
  "internal_failure f \<longleftrightarrow> f = NonNullFailure \<or> (\<exists>code. f = IntegrationError code)"

lemma reconcile_no_internal_failure:
  assumes ok: "integ_ok p" and held: "ix_assertHeld X (map entryId (in_entries p))" and r: "reconcileMultiRepoIntegrationOnce X G V p w = (Inl f, w')"
  shows "\<not> internal_failure f"
proof -
  have cand: "list_all (\<lambda>e. ie_candidate e \<noteq> None) (in_entries p)" if "in_state p \<notin> {Preparing, RecoveryRequired}" using ok that unfolding integ_ok_def by blast
  have member: "ie_candidate i \<noteq> None" if "in_state p \<in> {Applying, Compensating}" "i \<in> set (in_entries p)" for i
    using cand that by (auto simp: list_all_iff)
  have first: "ie_candidate i \<noteq> None" if "in_state p = Applying" "find Q (in_entries p) = Some i" for Q i
    using member find_member [OF that(2)] that(1) by blast
  have last: "ie_candidate i \<noteq> None" if "in_state p = Compensating" "find Q (rev (in_entries p)) = Some i" for Q i
    using member find_member [OF that(2)] that(1) by simp
  show ?thesis
  proof (cases "in_state p")
    case Verifying
    then have "candidateEntries (in_entries p) \<noteq> None" using cand by (simp add: candidateEntries_def)
    with Verifying r held show ?thesis
      by (auto simp: reconcileMultiRepoIntegrationOnce_def reconcileVerifying_def emit_def internal_failure_def split: option.splits sum.splits prod.splits if_splits)
  next
    case Applying
    with r held show ?thesis
      by (auto dest: first simp: reconcileMultiRepoIntegrationOnce_def reconcileApplying_def emit_def internal_failure_def split: option.splits sum.splits prod.splits)
  next
    case Compensating
    with r held show ?thesis
      by (auto dest: last simp: reconcileMultiRepoIntegrationOnce_def reconcileCompensating_def emit_def internal_failure_def split: option.splits sum.splits prod.splits)
  qed (use r held in \<open>auto simp: reconcileMultiRepoIntegrationOnce_def reconcilePreparing_def emit_def Let_def split: option.splits sum.splits prod.splits\<close>)
qed

lemma reconcile_none:
  "reconcileMultiRepoIntegrationOnce X G V p w = (Inr None, w') \<Longrightarrow> in_state p \<in> {VectorApplied, VectorCompensated, RecoveryRequired} \<and> w' = w"
  by (cases "in_state p")
    (auto simp: reconcileMultiRepoIntegrationOnce_def reconcilePreparing_def reconcileVerifying_def reconcileApplying_def reconcileCompensating_def emit_def Let_def
      split: option.splits sum.splits prod.splits if_splits)

lemma reconcile_event:
  assumes "reconcileMultiRepoIntegrationOnce X G V p w = (Inr (Some e), w')"
  shows "\<exists>a body. e = integrationEvent X p a body"
proof -
  have "\<exists>a body. appliedEvent X p i r = integrationEvent X p a body" "\<exists>a body. compensatedEvent X p i r' = integrationEvent X p a body" for i r r'
    by (auto simp: appliedEvent_def compensatedEvent_def recoveryEvent_def split: RepositoryCasResult.splits RepositoryCompensationResult.splits)
  then show ?thesis using assms
    by (cases "in_state p")
      (auto simp: reconcileMultiRepoIntegrationOnce_def reconcilePreparing_def reconcileVerifying_def reconcileApplying_def reconcileCompensating_def emit_def Let_def
        recoveryEvent_def split: option.splits sum.splits prod.splits if_splits)
qed

text \<open>
  C22. An integration transaction comes to an end. Whatever happened so far, with the authority held and the next event
  identifier not used before, one reconciliation either reports that the transaction is over, or returns an event that the
  reducer accepts and that leaves fewer events to go (at most three per repository and six), or passes on a failure of git
  or of the verifier; it never builds an event its own reducer refuses.
\<close>

theorem integration_progress:
  assumes "saga G V view plan p w" "ix_assertHeld X (map entryId (in_entries p))"
    "\<forall>a. obj_get (in_eventIds p) (ix_eventId X (in_transactionId p) (in_version p) a) = None"
  shows "remaining p \<le> 3 * length (in_entries p) + 6 \<and> (case reconcileMultiRepoIntegrationOnce X G V p w of
      (Inr None, w') \<Rightarrow> in_state p \<in> {VectorApplied, VectorCompensated, RecoveryRequired} \<and> w' = w
    | (Inr (Some e), w') \<Rightarrow> \<exists>p'. applyMultiRepoIntegrationEvent X (Some p) e = Inr p' \<and> remaining p' < remaining p
    | (Inl f, w') \<Rightarrow> \<not> internal_failure f)"
proof -
  note ok = saga_ok [OF assms(1)]
  obtain res w' where r: "reconcileMultiRepoIntegrationOnce X G V p w = (res, w')" by fastforce
  have ev: "\<exists>p'. applyMultiRepoIntegrationEvent X (Some p) e = Inr p' \<and> remaining p' < remaining p" if "res = Inr (Some e)" for e
  proof (rule accepted_stored)
    show "accepted X p e" by (rule reconcile_accepted) (use ok r that in auto)
    have "\<exists>a body. e = integrationEvent X p a body" by (rule reconcile_event) (use r that in simp)
    then show "obj_get (in_eventIds p) (iv_eventId e) = None" using assms(3) by (auto simp: integrationEvent_def)
  qed
  have none: "in_state p \<in> {VectorApplied, VectorCompensated, RecoveryRequired} \<and> w' = w" if "res = Inr None"
    by (rule reconcile_none) (use r that in simp)
  have err: "\<not> internal_failure f" if "res = Inl f" for f by (rule reconcile_no_internal_failure) (use ok assms(2) r that in auto)
  show ?thesis
  proof (cases res)
    case (Inl f)
    with err r remaining_bound show ?thesis by simp
  next
    case (Inr outcome)
    with ev none r remaining_bound show ?thesis by (cases outcome) simp_all
  qed
qed

theorem integration_progress_witness:
  "\<exists>p w p' e w'. sample_final [] 6 = Some (p, w) \<and> reconcileMultiRepoIntegrationOnce integ_prims (sample_git []) sample_verifier p w = (Inr (Some e), w') \<and>
     applyMultiRepoIntegrationEvent integ_prims (Some p) e = Inr p' \<and> remaining p' < remaining p"
proof -
  have "case sample_final [] 6 of None \<Rightarrow> False | Some s \<Rightarrow> in_state (fst s) = Applying \<and> in_version (fst s) = 7 \<and> map fst (in_eventIds (fst s)) = map (\<lambda>n. replicate n CHR ''i'') [0..<7] \<and>
      (case reconcileMultiRepoIntegrationOnce integ_prims (sample_git []) sample_verifier (fst s) (snd s) of (Inr (Some _), _) \<Rightarrow> True | _ \<Rightarrow> False)"
    by code_simp
  then obtain p w e w' where s: "sample_final [] 6 = Some (p, w)" "in_version p = 7" "map fst (in_eventIds p) = map (\<lambda>n. replicate n CHR ''i'') [0..<7]"
    "reconcileMultiRepoIntegrationOnce integ_prims (sample_git []) sample_verifier p w = (Inr (Some e), w')"
    by (auto split: option.splits prod.splits sum.splits)
  have "replicate 7 CHR ''i'' \<notin> set (map fst (in_eventIds p))" unfolding s(3) by (auto dest: arg_cong [where f = length])
  then have "obj_get (in_eventIds p) (ix_eventId integ_prims (in_transactionId p) (in_version p) a) = None" for a
    using s(2) by (simp add: integ_prims_def map_of_eq_None_iff)
  moreover have "ix_assertHeld integ_prims ids" for ids by (simp add: integ_prims_def)
  ultimately show ?thesis using integration_progress [OF sample_saga [OF s(1), of sample_view], of integ_prims] s by auto
qed

section \<open>A reference that cannot be read\<close>

text \<open>
  The laws of git do not allow \<open>show-ref\<close> to fail for an undisturbed reference, and the code depends on it: \<open>readRef\<close>
  takes any failure of \<open>show-ref\<close>, a timeout included, for a missing reference. Below, a compare-and-swap reads the
  expected commit, runs \<open>update-ref\<close>, and the \<open>show-ref\<close> that should confirm it fails.
\<close>

definition swap_misread :: "'w GitEnv \<Rightarrow> RepositoryIdentity \<Rightarrow> RepositoryCandidate \<Rightarrow> 'w \<Rightarrow> 'w option" where
  "swap_misread G r c w = (case verifyRepository G r w of (Inl _, _) \<Rightarrow> None | (Inr root, w1) \<Rightarrow>
     (case resolveCommit G root (rc_candidateOid c) w1 of (Inl _, _) \<Rightarrow> None | (Inr _, w2) \<Rightarrow>
     (case readRef G root (rc_targetRef c) w2 of (Inl _, _) \<Rightarrow> None | (Inr observed, w3) \<Rightarrow>
     (case ge_run G w3 root [''update-ref'', rc_targetRef c, rc_candidateOid c, rc_expectedOid c] of (_, w4) \<Rightarrow>
     (case verifyRepository G r w4 of (Inl _, _) \<Rightarrow> None | (Inr root', w5) \<Rightarrow>
     (case ge_run G w5 root' [''show-ref'', ''--verify'', ''--hash'', rc_targetRef c] of ((ok, _), w6) \<Rightarrow>
       if observed = Some (rc_expectedOid c) \<and> rc_candidateOid c \<noteq> rc_expectedOid c \<and> \<not> ok then Some w6 else None))))))"

lemma misread_refused:
  assumes "swap_misread G r c w = Some w'" "rc_repositoryId c = ri_repositoryId r" "refOk (rc_targetRef c)" "oidOk (rc_expectedOid c)"
  shows "applyRepositoryCandidate G r c w = (Inr (CasRefused None), w')"
proof -
  from assms(1) obtain root w1 cand w2 w3 u w4 root' w5 out where "verifyRepository G r w = (Inr root, w1)" "resolveCommit G root (rc_candidateOid c) w1 = (Inr cand, w2)"
      "readRef G root (rc_targetRef c) w2 = (Inr (Some (rc_expectedOid c)), w3)" "rc_candidateOid c \<noteq> rc_expectedOid c"
      "ge_run G w3 root [''update-ref'', rc_targetRef c, rc_candidateOid c, rc_expectedOid c] = (u, w4)" "verifyRepository G r w4 = (Inr root', w5)"
      "ge_run G w5 root' [''show-ref'', ''--verify'', ''--hash'', rc_targetRef c] = ((False, out), w')"
    unfolding swap_misread_def by (auto split: prod.splits sum.splits if_splits)
  with assms(2-4) show ?thesis
    by (simp add: applyRepositoryCandidate_def observeRepositoryRef_def git_catch_def git_bind_def git_run_def git_return_def git_require_def
        requireRef_def requireOid_def casOutcome_def readRef_def [of G root'])
qed

text \<open>With every reference watched, no step of a compensation touches the branch of an entry that was not applied.\<close>

abbreviation exactly :: "'w refs \<Rightarrow> 'w view" where
  "exactly refs \<equiv> undisturbed refs (\<lambda>_. {})"

lemma skipped_world:
  assumes W: "git_writes G (exactly refs)" and V: "quiet_verifier V (exactly refs)" and ok: "integ_ok p"
    and dis: "distinct (map branch (map ie_plan (in_entries p)))" and st: "in_state p \<noteq> Applying"
    and i: "i \<in> set (in_entries p)" "ie_applyResult i = None" and r: "reconcileMultiRepoIntegrationOnce X G V p w = (result, w')"
  shows "at_branch refs w' (ie_plan i) = at_branch refs w (ie_plan i)"
proof -
  have Vq: "\<And>w plan env i c. same (exactly refs) w (snd (ve_execute V w plan env i c))" using V unfolding quiet_verifier_def by blast
  from W Vq r show ?thesis
  proof (cases rule: reconcile_moves)
    case quiet
    then show ?thesis by (simp add: same_def undisturbed_def at_branch_def)
  next
    case appl
    with st show ?thesis by simp
  next
    case (comp j c res)
    then have "j \<noteq> i" using i by auto
    then have "branch (ie_plan i) \<noteq> branch (ie_plan j)" using dis i(1) comp(2) by (auto simp: distinct_map inj_on_def)
    moreover note compensate_candidate_refs(1) [OF W comp(5), unfolded candidate_of_plan(1) [OF ok comp(2,4)]]
    ultimately show ?thesis by (auto simp: swapped_def undisturbed_def at_branch_def branch_def)
  qed
qed

lemma skipped_drive:
  assumes W: "git_writes G (exactly refs)" and V: "quiet_verifier V (exactly refs)"
  shows "drive X G V n s = Some s' \<Longrightarrow> integ_ok (fst s) \<Longrightarrow> distinct (map branch (map ie_plan (in_entries (fst s)))) \<Longrightarrow>
    in_state (fst s) \<in> {Compensating, VectorCompensated, RecoveryRequired} \<Longrightarrow> i \<in> set (in_entries (fst s)) \<Longrightarrow> ie_applyResult i = None \<Longrightarrow>
    in_state (fst s') \<in> {Compensating, VectorCompensated, RecoveryRequired} \<and> at_branch refs (snd s') (ie_plan i) = at_branch refs (snd s) (ie_plan i)"
proof (induction n arbitrary: s i)
  case (Suc n)
  obtain p w where s: "s = (p, w)" by fastforce
  from Suc.prems(1) obtain e w' p' where r: "reconcileMultiRepoIntegrationOnce X G V p w = (Inr (Some e), w')"
    and a: "applyMultiRepoIntegrationEvent X (Some p) e = Inr p'" and d: "drive X G V n (p', w') = Some s'"
    unfolding s by (auto split: prod.splits sum.splits option.splits)
  have st: "in_state p \<in> {Compensating, VectorCompensated, RecoveryRequired}" and i: "i \<in> set (in_entries p)" using Suc.prems(4,5) by (simp_all add: s)
  have at: "at_branch refs w' (ie_plan i) = at_branch refs w (ie_plan i)"
    by (rule skipped_world [OF W V _ _ _ i Suc.prems(6) r]) (use Suc.prems(2,3) st in \<open>auto simp: s\<close>)
  have ok': "integ_ok p'" by (rule apply_integ_ok [OF a]) (use Suc.prems(2) in \<open>simp add: s\<close>)
  have "map ie_plan (in_entries p') = map ie_plan (in_entries p) \<and> in_state p' \<in> {Compensating, VectorCompensated, RecoveryRequired} \<and>
      (\<exists>i'\<in>set (in_entries p'). ie_plan i' = ie_plan i \<and> ie_applyResult i' = None)"
  proof -
    from a consider "p' = p" | q v ids where "nextIntegration X p (iv_body e) = Inr q" "p' = q\<lparr>in_version := v, in_eventIds := ids\<rparr>"
      by (auto simp: applyMultiRepoIntegrationEvent_def split: option.splits if_splits)
    then show ?thesis
    proof cases
      case 1
      with st i Suc.prems(6) show ?thesis by auto
    next
      case 2
      note ch = next_entries [OF 2(1)] and ns = next_state [OF 2(1)]
      have states: "in_state q \<in> {Compensating, VectorCompensated, RecoveryRequired}" and body: "\<And>k r. iv_body e \<noteq> EntryApplied k r"
        using ns st by (auto split: IntegrationBody.splits)
      obtain j where j: "j < length (in_entries p)" "in_entries p ! j = i" using i by (auto simp: in_set_conv_nth)
      have len: "length (in_entries q) = length (in_entries p)" using list_all2_lengthD [OF ch] by simp
      have "map ie_plan (in_entries q) ! j = map ie_plan (in_entries p) ! j" "map ie_applyResult (in_entries q) ! j = map ie_applyResult (in_entries p) ! j"
        using entry_change_keeps(1,3) [OF ch] body by simp_all
      then have "ie_plan (in_entries q ! j) = ie_plan i" "ie_applyResult (in_entries q ! j) = None" using j len Suc.prems(6) by simp_all
      with j(1) len states entry_change_keeps(1) [OF ch] 2(2) show ?thesis by (auto intro!: bexI [of _ "in_entries q ! j"])
    qed
  qed
  then obtain i' where "map ie_plan (in_entries p') = map ie_plan (in_entries p)" "in_state p' \<in> {Compensating, VectorCompensated, RecoveryRequired}"
    "i' \<in> set (in_entries p')" "ie_plan i' = ie_plan i" "ie_applyResult i' = None" by blast
  with Suc.IH [OF d, of i'] ok' Suc.prems(3) at show ?case by (simp add: s)
qed simp

lemma saga_plan: "saga G V view plan p w \<Longrightarrow> in_plan p = plan"
proof (induction rule: saga.induct)
  case (saga_created X e p w)
  then show ?case using created_plan by blast
next
  case (saga_stored p w X e w' p')
  then show ?case using next_state by (fastforce simp: applyMultiRepoIntegrationEvent_def split: option.splits if_splits)
qed

text \<open>
  C37. A single failing \<open>show-ref\<close> breaks the atomicity of a transaction for good. Take any run in which some entry has been applied, and
  the next one's branch is moved to its merge commit by \<open>update-ref\<close>, but the \<open>show-ref\<close> after it fails. Then the reconciler takes the
  branch for refused and starts the compensation, its reducer accepts that, and whatever number of further steps are run, with every
  reference watched, the transaction is compensating, compensated or waiting for recovery while that branch stays at the merge commit:
  reading a failed command as an absent reference makes a compensated transaction leave a branch moved.
\<close>

theorem show_ref_failure_breaks_atomicity:
  assumes "saga G V view plan p w" "distinct (map branch (np_entries plan))"
    and "git_writes G (exactly refs)" "quiet_verifier V (exactly refs)" "in_state p = Applying"
    and "find (\<lambda>e. ie_applyResult e = None) (in_entries p) = Some i" "ie_candidate i = Some c" "\<exists>e\<in>set (in_entries p). ie_applyResult e \<noteq> None"
    and "refOk (ip_targetRef (ie_plan i))" "oidOk (ip_expectedOid (ie_plan i))"
    and "swap_misread G (ip_repository (ie_plan i)) c w = Some w'" "at_branch refs w' (ie_plan i) = Some (rc_candidateOid c)"
    and "ix_assertHeld X (map entryId (in_entries p))" "\<forall>a. obj_get (in_eventIds p) (ix_eventId X (in_transactionId p) (in_version p) a) = None"
  shows "\<exists>e p'. reconcileMultiRepoIntegrationOnce X G V p w = (Inr (Some e), w') \<and> applyMultiRepoIntegrationEvent X (Some p) e = Inr p' \<and>
    (\<forall>n p'' w''. drive X G V n (p', w') = Some (p'', w'') \<longrightarrow>
       in_state p'' \<in> {Compensating, VectorCompensated, RecoveryRequired} \<and> at_branch refs w'' (ie_plan i) = Some (rc_candidateOid c))"
proof -
  note ok = saga_ok [OF assms(1)] and mem = find_member [OF assms(6)]
  note cand = candidate_of_plan [OF conjunct1 [OF ok] conjunct1 [OF mem] assms(7)]
  have id: "rc_repositoryId c = ri_repositoryId (ip_repository (ie_plan i))"
    using ok mem assms(7) by (auto simp: integ_ok_def list_all_iff entry_ok_def entryId_def)
  have a: "applyRepositoryCandidate G (ip_repository (ie_plan i)) c w = (Inr (CasRefused None), w')"
    using assms(9-11) by (intro misread_refused) (simp_all add: cand id)
  define e where "e = integrationEvent X p (ActCompensate (entryId i)) (CompensationStarted REF_MOVED)"
  have r: "reconcileMultiRepoIntegrationOnce X G V p w = (Inr (Some e), w')"
    using assms(5-8,13) a by (auto simp: reconcileMultiRepoIntegrationOnce_def reconcileApplying_def emit_def appliedEvent_def list_ex_iff e_def)
  have "\<exists>p'. applyMultiRepoIntegrationEvent X (Some p) e = Inr p' \<and> remaining p' < remaining p"
  proof (rule accepted_stored)
    show "accepted X p e" by (rule reconcile_accepted) (use ok r in auto)
    show "obj_get (in_eventIds p) (iv_eventId e) = None" using assms(14) by (simp add: e_def integrationEvent_def)
  qed
  then obtain p' where p': "applyMultiRepoIntegrationEvent X (Some p) e = Inr p'" "p' \<noteq> p" by fastforce
  then obtain q v ids where q: "nextIntegration X p (CompensationStarted REF_MOVED) = Inr q" "p' = q\<lparr>in_version := v, in_eventIds := ids\<rparr>"
    by (auto simp: applyMultiRepoIntegrationEvent_def e_def integrationEvent_def split: option.splits if_splits)
  have st: "in_state p' = Compensating" using next_state [OF q(1)] q(2) by simp
  have "in_entries p' = in_entries p"
    using q by (auto simp: nextIntegration_def Let_def integrationGuard_def split: if_splits)
  moreover have "integ_ok p'" by (rule apply_integ_ok [OF p'(1)]) (use ok in simp)
  moreover have "distinct (map branch (map ie_plan (in_entries p)))" using assms(2) saga_plan [OF assms(1)] ok by (simp add: integ_ok_def)
  ultimately have "in_state (fst s) \<in> {Compensating, VectorCompensated, RecoveryRequired} \<and> at_branch refs (snd s) (ie_plan i) = at_branch refs w' (ie_plan i)"
    if "drive X G V n (p', w') = Some s" for n s
    using skipped_drive [OF assms(3,4) that, of i] st mem by simp
  with r p'(1) assms(12) show ?thesis by fastforce
qed

text \<open>In the world below \<open>show-ref\<close> fails once in the repository \<open>web\<close>, after its branch has moved.\<close>

definition failing_git :: "sample_world GitEnv" where
  "failing_git = (sample_git [])\<lparr>ge_run := (\<lambda>w cwd args.
     if hd args = ''show-ref'' \<and> cwd = ''/web'' \<and> length w = 4 then ((False, []), w) else sample_run [] w cwd args)\<rparr>"

definition failing_final :: "nat \<Rightarrow> (IntegrationProjection \<times> sample_world) option" where
  "failing_final n = (case createMultiRepoIntegrationEvent integ_prims sample_verifier sample_plan of Inl _ \<Rightarrow> None
     | Inr e \<Rightarrow> (case applyMultiRepoIntegrationEvent integ_prims None e of Inl _ \<Rightarrow> None
         | Inr p \<Rightarrow> drive integ_prims failing_git sample_verifier n (p, sample_world0)))"

lemma failing_saga: "failing_final n = Some (p, w) \<Longrightarrow> saga failing_git sample_verifier view sample_plan p w"
  using drive_saga [of integ_prims failing_git sample_verifier n _ "(p, w)" view sample_plan]
  by (auto simp: failing_final_def split: sum.splits dest!: saga_created)

lemma failing_writes: "git_writes failing_git (exactly sample_refs)"
proof -
  have "git_writes (sample_git []) (exactly sample_refs)" by (rule sample_writes) simp
  then show ?thesis by (auto simp: git_writes_def failing_git_def sample_git_def)
qed

lemma failing_before:
  "case failing_final 7 of None \<Rightarrow> False | Some s \<Rightarrow> in_state (fst s) = Applying \<and> in_version (fst s) = 8 \<and>
     map fst (in_eventIds (fst s)) = map (\<lambda>n. replicate n CHR ''i'') [0..<8] \<and> map (\<lambda>e. ie_applyResult e = None) (in_entries (fst s)) = [False, True] \<and>
     map ie_plan (in_entries (fst s)) = np_entries sample_plan"
  "case failing_final 7 of None \<Rightarrow> False | Some s \<Rightarrow> (case ie_candidate (in_entries (fst s) ! 1) of None \<Rightarrow> False
     | Some c \<Rightarrow> rc_candidateOid c = oid CHR ''c'' \<and> (case swap_misread failing_git (ip_repository (sample_entry ''web'')) c (snd s) of None \<Rightarrow> False
         | Some w' \<Rightarrow> at_branch sample_refs w' (sample_entry ''web'') = Some (oid CHR ''c'')))"
  "case failing_final 7 of None \<Rightarrow> False | Some s \<Rightarrow> map_option (\<lambda>s. in_state (fst s)) (drive integ_prims failing_git sample_verifier 3 s) = Some VectorCompensated"
  by code_simp+

theorem show_ref_failure_breaks_atomicity_witness:
  "\<exists>p w p' w'. failing_final 7 = Some (p, w) \<and> drive integ_prims failing_git sample_verifier 3 (p, w) = Some (p', w') \<and>
     in_state p' = VectorCompensated \<and> at_branch sample_refs w' (sample_entry ''web'') = Some (oid CHR ''c'')"
proof -
  from failing_before(1) obtain p w where s: "failing_final 7 = Some (p, w)" and st: "in_state p = Applying" "in_version p = 8"
    and ids: "map fst (in_eventIds p) = map (\<lambda>n. replicate n CHR ''i'') [0..<8]"
    and es: "map (\<lambda>e. ie_applyResult e = None) (in_entries p) = [False, True]" "map ie_plan (in_entries p) = np_entries sample_plan"
    by (cases "failing_final 7") auto
  from es obtain a b where ab: "in_entries p = [a, b]" "ie_applyResult a \<noteq> None" "ie_applyResult b = None" "ie_plan b = sample_entry ''web''"
    by (auto simp: map_eq_Cons_conv sample_plan_def)
  from failing_before(2) s ab obtain c w1 where c: "ie_candidate b = Some c" "rc_candidateOid c = oid CHR ''c''"
    and w1: "swap_misread failing_git (ip_repository (ie_plan b)) c w = Some w1" "at_branch sample_refs w1 (ie_plan b) = Some (rc_candidateOid c)"
    by (auto split: option.splits)
  from failing_before(3) s obtain q v where d: "drive integ_prims failing_git sample_verifier 3 (p, w) = Some (q, v)" "in_state q = VectorCompensated" by auto
  have "replicate 8 CHR ''i'' \<notin> set (map fst (in_eventIds p))" unfolding ids by (auto dest: arg_cong [where f = length])
  then have unused: "\<forall>a. obj_get (in_eventIds p) (ix_eventId integ_prims (in_transactionId p) (in_version p) a) = None"
    using st(2) by (simp add: integ_prims_def map_of_eq_None_iff)
  have refs: "refOk (ip_targetRef (ie_plan b))" "oidOk (ip_expectedOid (ie_plan b))" unfolding ab(4) by code_simp+
  have find: "find (\<lambda>e. ie_applyResult e = None) (in_entries p) = Some b" "\<exists>e\<in>set (in_entries p). ie_applyResult e \<noteq> None" using ab by auto
  have held: "ix_assertHeld integ_prims ids" for ids by (simp add: integ_prims_def)
  obtain e p1 where r: "reconcileMultiRepoIntegrationOnce integ_prims failing_git sample_verifier p w = (Inr (Some e), w1)"
      "applyMultiRepoIntegrationEvent integ_prims (Some p) e = Inr p1"
    and stays: "\<And>n p'' w''. drive integ_prims failing_git sample_verifier n (p1, w1) = Some (p'', w'') \<Longrightarrow> at_branch sample_refs w'' (ie_plan b) = Some (rc_candidateOid c)"
    using show_ref_failure_breaks_atomicity [OF failing_saga [OF s, of sample_view] sample_branches failing_writes sample_verifier_quiet st(1) find(1) c(1) find(2) refs w1
        held unused] by blast
  have "drive integ_prims failing_git sample_verifier 2 (p1, w1) = Some (q, v)" using d(1) r by (simp add: numeral_3_eq_3 numeral_2_eq_2)
  with stays c ab(4) s d show ?thesis by auto
qed

end
