(* ===== verification/Publication.thy ===== *)
theory Publication
  imports Git_Transaction
begin

text \<open>
  Publication of an integrated vector (\<open>src/multirepo/publication.ts\<close>): an event-sourced process that pushes the branch
  of every repository, opens a pull request for each and links the pull requests to each other.
  \<open>reconcileMultiRepoPublicationOnce\<close> performs one remote step and returns the event that records it.

  The adapter to the hosting service, the digest of an event, the hash in an event identifier and the two URL tests
  (\<open>URL.canParse\<close> and zod's) are parameters. An adapter call that rejects is \<open>None\<close>.
\<close>

section \<open>Plans, projections and events\<close>

record PublicationEntryPlan =
  ep_repositoryId :: string
  ep_publicationId :: string
  ep_candidateOid :: string
  ep_localIntegrationRef :: string
  ep_remoteName :: string
  ep_expectedPushUrl :: string
  ep_remoteRef :: string
  ep_expectedRemoteOid :: "string option"
  ep_baseRef :: string
  ep_title :: string
  ep_body :: string

record PublicationPlan =
  lp_transactionId :: string
  lp_repositorySetId :: string
  lp_localIntegrationReceiptDigest :: string
  lp_policyApproved :: bool
  lp_entries :: "PublicationEntryPlan list"

datatype CompletedBy = ByExisting | ByCreate | ByPush | ByUpdate | ByReconciled

record PublishedBranch =
  pb_remoteOid :: string
  pb_completedBy :: CompletedBy

record PublishedPull =
  pp_artifactId :: string
  pp_url :: string
  pp_completedBy :: CompletedBy

record PublishedLink =
  pc_digest :: string
  pc_completedBy :: CompletedBy

record PublicationFailureNote =
  pf_code :: string
  pf_retryable :: bool

record PublicationEntry =
  pe_plan :: PublicationEntryPlan
  pe_branch :: "PublishedBranch option"
  pe_pullRequest :: "PublishedPull option"
  pe_crossLink :: "PublishedLink option"
  pe_lastFailure :: "PublicationFailureNote option"

datatype VectorPublicationState = VectorPublishing | VectorPartial | VectorPublished | VectorStuck

record PublicationProjection =
  pj_plan :: PublicationPlan
  pj_version :: int
  pj_state :: VectorPublicationState
  pj_entries :: "PublicationEntry list"
  pj_eventIds :: "string obj"
  pj_recoveryReason :: "string option"

datatype PublicationOperation = OpBranch | OpPr | OpCrossLink

datatype PublicationBody =
    PublicationCreated PublicationPlan
  | BranchRecorded string string CompletedBy
  | PrRecorded string string string CompletedBy
  | CrossLinkRecorded string string CompletedBy
  | RetryableFailure string PublicationOperation string
  | RecoveryNeeded string PublicationOperation string
  | PublicationCompleted

record PublicationEvent =
  pv_eventId :: string
  pv_transactionId :: string
  pv_expectedVersion :: int
  pv_body :: PublicationBody

datatype MultiRepoPublicationErrorCode = INVALID_PUBLICATION_PLAN | STALE_PUBLICATION_VERSION | PUBLICATION_EVENT_ID_CONFLICT | INVALID_PUBLICATION_TRANSITION

record PublicationPrims =
  px_eventDigest :: "PublicationEvent \<Rightarrow> string"
  px_eventId :: "string \<Rightarrow> int \<Rightarrow> string \<Rightarrow> string"
  px_canParseUrl :: "string \<Rightarrow> bool"
  px_zodUrl :: "string \<Rightarrow> bool"

section \<open>The wire schema\<close>

definition textOk :: "int \<Rightarrow> int \<Rightarrow> string \<Rightarrow> bool" where
  "textOk lo hi s \<longleftrightarrow> lo \<le> int (length s) \<and> int (length s) \<le> hi"

definition remoteNameOk :: "string \<Rightarrow> bool" where
  "remoteNameOk s \<longleftrightarrow> s \<noteq> [] \<and> list_all (\<lambda>c. is_alnum c \<or> c \<in> set ''._-'') s"

definition publicationEntryPlanSchemaOk :: "PublicationPrims \<Rightarrow> PublicationEntryPlan \<Rightarrow> bool" where
  "publicationEntryPlanSchemaOk X e \<longleftrightarrow> ID_PATTERN (ep_repositoryId e) \<and> ID_PATTERN (ep_publicationId e) \<and> oidOk (ep_candidateOid e) \<and>
     textOk 1 512 (ep_localIntegrationRef e) \<and> textOk 1 256 (ep_remoteName e) \<and> remoteNameOk (ep_remoteName e) \<and>
     px_zodUrl X (ep_expectedPushUrl e) \<and> textOk 0 4096 (ep_expectedPushUrl e) \<and> textOk 1 512 (ep_remoteRef e) \<and>
     (case ep_expectedRemoteOid e of None \<Rightarrow> True | Some v \<Rightarrow> oidOk v) \<and> textOk 1 512 (ep_baseRef e) \<and> textOk 0 512 (ep_title e) \<and>
     textOk 0 (16 * 1024) (ep_body e)"

definition publicationPlanSchemaOk :: "PublicationPrims \<Rightarrow> PublicationPlan \<Rightarrow> bool" where
  "publicationPlanSchemaOk X p \<longleftrightarrow> ID_PATTERN (lp_transactionId p) \<and> isSha256Hex (lp_repositorySetId p) \<and> isSha256Hex (lp_localIntegrationReceiptDigest p) \<and>
     lp_policyApproved p \<and> lp_entries p \<noteq> [] \<and> length (lp_entries p) \<le> 32 \<and> list_all (publicationEntryPlanSchemaOk X) (lp_entries p)"

definition publicationBodySchemaOk :: "PublicationPrims \<Rightarrow> PublicationBody \<Rightarrow> bool" where
  "publicationBodySchemaOk X b = (case b of
     PublicationCreated plan \<Rightarrow> publicationPlanSchemaOk X plan
   | BranchRecorded k remoteOid by' \<Rightarrow> ID_PATTERN k \<and> oidOk remoteOid \<and> by' \<in> {ByExisting, ByPush, ByReconciled}
   | PrRecorded k artifactId url by' \<Rightarrow> ID_PATTERN k \<and> textOk 1 512 artifactId \<and> px_zodUrl X url \<and> textOk 0 4096 url \<and> by' \<in> {ByExisting, ByCreate, ByReconciled}
   | CrossLinkRecorded k digest by' \<Rightarrow> ID_PATTERN k \<and> isSha256Hex digest \<and> by' \<in> {ByExisting, ByUpdate, ByReconciled}
   | RetryableFailure k _ code \<Rightarrow> ID_PATTERN k \<and> textOk 1 512 code
   | RecoveryNeeded k _ code \<Rightarrow> ID_PATTERN k \<and> textOk 1 512 code
   | PublicationCompleted \<Rightarrow> True)"

definition parseMultiRepoPublicationEvent :: "PublicationPrims \<Rightarrow> PublicationEvent \<Rightarrow> bool" where
  "parseMultiRepoPublicationEvent X e \<longleftrightarrow> ID_PATTERN (pv_eventId e) \<and> ID_PATTERN (pv_transactionId e) \<and> 0 \<le> pv_expectedVersion e \<and>
     pv_expectedVersion e \<le> MAX_SAFE_INTEGER \<and> publicationBodySchemaOk X (pv_body e)"

section \<open>Creating a publication\<close>

definition headsRefOk :: "string \<Rightarrow> bool" where
  "headsRefOk s \<longleftrightarrow> startsWith s ''refs/heads/'' \<and>
     (let r = drop 11 s in r \<noteq> [] \<and> is_alnum (hd r) \<and> list_all (\<lambda>c. is_alnum c \<or> c \<in> set ''._/-'') (tl r))"

definition publicationEntryOk :: "PublicationPrims \<Rightarrow> PublicationEntryPlan \<Rightarrow> bool" where
  "publicationEntryOk X e \<longleftrightarrow> ID_PATTERN (ep_repositoryId e) \<and> ID_PATTERN (ep_publicationId e) \<and> oidOk (ep_candidateOid e) \<and> headsRefOk (ep_localIntegrationRef e) \<and>
     remoteNameOk (ep_remoteName e) \<and> px_canParseUrl X (ep_expectedPushUrl e) \<and> headsRefOk (ep_remoteRef e) \<and>
     (case ep_expectedRemoteOid e of None \<Rightarrow> True | Some v \<Rightarrow> oidOk v) \<and> utf8Bytes (ep_title e) \<le> 512 \<and> utf8Bytes (ep_body e) \<le> 16 * 1024"

definition validatePublicationPlan :: "PublicationPrims \<Rightarrow> PublicationPlan \<Rightarrow> MultiRepoPublicationErrorCode + PublicationPlan" where
  "validatePublicationPlan X plan =
     (let sorted = sort_key (\<lambda>e. collate_key (ep_repositoryId e)) (lp_entries plan) in
      bind_res (checks
        [(\<not> ID_PATTERN (lp_transactionId plan) \<or> \<not> isSha256Hex (lp_repositorySetId plan) \<or> \<not> isSha256Hex (lp_localIntegrationReceiptDigest plan) \<or>
            \<not> lp_policyApproved plan \<or> lp_entries plan = [] \<or> length (lp_entries plan) > 32, INVALID_PUBLICATION_PLAN),
         (sorted \<noteq> lp_entries plan \<or> \<not> distinct (map ep_repositoryId sorted) \<or> \<not> distinct (map ep_publicationId sorted), INVALID_PUBLICATION_PLAN),
         (\<not> list_all (publicationEntryOk X) sorted, INVALID_PUBLICATION_PLAN)]) (\<lambda>_. Inr plan))"

definition createMultiRepoPublicationEvent :: "PublicationPrims \<Rightarrow> PublicationPlan \<Rightarrow> MultiRepoPublicationErrorCode + PublicationEvent" where
  "createMultiRepoPublicationEvent X plan = bind_res (validatePublicationPlan X plan) (\<lambda>p.
     Inr \<lparr>pv_eventId = px_eventId X (lp_transactionId p) 0 ''create'', pv_transactionId = lp_transactionId p, pv_expectedVersion = 0, pv_body = PublicationCreated p\<rparr>)"

section \<open>The reducer\<close>

definition publicationEntryId :: "PublicationEntry \<Rightarrow> string" where
  "publicationEntryId e = ep_repositoryId (pe_plan e)"

definition replacePublication :: "(PublicationEntry \<Rightarrow> MultiRepoPublicationErrorCode + PublicationEntry) \<Rightarrow> string \<Rightarrow> PublicationEntry list \<Rightarrow>
    MultiRepoPublicationErrorCode + PublicationEntry list" where
  "replacePublication f k es = replace_by publicationEntryId INVALID_PUBLICATION_TRANSITION f k es"

definition requireStep :: "bool \<Rightarrow> PublicationEntry \<Rightarrow> MultiRepoPublicationErrorCode + PublicationEntry" where
  "requireStep ok e = (if ok then Inr e else Inl INVALID_PUBLICATION_TRANSITION)"

definition operationName :: "PublicationOperation \<Rightarrow> string" where
  "operationName op = (case op of OpBranch \<Rightarrow> ''branch'' | OpPr \<Rightarrow> ''pr'' | OpCrossLink \<Rightarrow> ''crosslink'')"

definition recordFailure :: "string \<Rightarrow> bool \<Rightarrow> PublicationEntry \<Rightarrow> MultiRepoPublicationErrorCode + PublicationEntry" where
  "recordFailure code retryable e = Inr (e\<lparr>pe_lastFailure := Some \<lparr>pf_code = code, pf_retryable = retryable\<rparr>\<rparr>)"

definition nextPublication :: "PublicationProjection \<Rightarrow> PublicationBody \<Rightarrow> MultiRepoPublicationErrorCode + PublicationProjection" where
  "nextPublication p body = (let es = pj_entries p in
     case body of
       PublicationCreated _ \<Rightarrow> Inl INVALID_PUBLICATION_TRANSITION
     | BranchRecorded k remoteOid by' \<Rightarrow>
         bind_res (replacePublication (\<lambda>e. requireStep (remoteOid = ep_candidateOid (pe_plan e))
           (e\<lparr>pe_branch := Some \<lparr>pb_remoteOid = remoteOid, pb_completedBy = by'\<rparr>, pe_lastFailure := None\<rparr>)) k es) (\<lambda>es'. Inr (p\<lparr>pj_entries := es'\<rparr>))
     | PrRecorded k artifactId url by' \<Rightarrow>
         bind_res (replacePublication (\<lambda>e. requireStep (pe_branch e \<noteq> None)
           (e\<lparr>pe_pullRequest := Some \<lparr>pp_artifactId = artifactId, pp_url = url, pp_completedBy = by'\<rparr>, pe_lastFailure := None\<rparr>)) k es) (\<lambda>es'. Inr (p\<lparr>pj_entries := es'\<rparr>))
     | CrossLinkRecorded k digest by' \<Rightarrow>
         bind_res (replacePublication (\<lambda>e. requireStep (pe_pullRequest e \<noteq> None)
           (e\<lparr>pe_crossLink := Some \<lparr>pc_digest = digest, pc_completedBy = by'\<rparr>, pe_lastFailure := None\<rparr>)) k es) (\<lambda>es'. Inr (p\<lparr>pj_entries := es'\<rparr>))
     | RetryableFailure k _ code \<Rightarrow>
         bind_res (replacePublication (recordFailure code True) k es) (\<lambda>es'. Inr (p\<lparr>pj_entries := es', pj_state := VectorPartial\<rparr>))
     | RecoveryNeeded k op code \<Rightarrow>
         bind_res (replacePublication (recordFailure code False) k es) (\<lambda>es'.
           Inr (p\<lparr>pj_entries := es', pj_state := VectorStuck, pj_recoveryReason := Some (k @ '':'' @ operationName op @ '':'' @ code)\<rparr>))
     | PublicationCompleted \<Rightarrow>
         if list_ex (\<lambda>e. pe_branch e = None \<or> pe_pullRequest e = None \<or> pe_crossLink e = None) es then Inl INVALID_PUBLICATION_TRANSITION
         else Inr (p\<lparr>pj_state := VectorPublished\<rparr>))"

definition publicationOver :: "PublicationProjection \<Rightarrow> bool" where
  "publicationOver p \<longleftrightarrow> pj_state p = VectorPublished \<or> pj_state p = VectorStuck"

definition createdPublication :: "PublicationPrims \<Rightarrow> PublicationEvent \<Rightarrow> PublicationPlan \<Rightarrow> PublicationProjection" where
  "createdPublication X e plan = \<lparr>pj_plan = plan, pj_version = 1, pj_state = VectorPublishing,
     pj_entries = map (\<lambda>q. \<lparr>pe_plan = q, pe_branch = None, pe_pullRequest = None, pe_crossLink = None, pe_lastFailure = None\<rparr>) (lp_entries plan),
     pj_eventIds = [(pv_eventId e, px_eventDigest X e)], pj_recoveryReason = None\<rparr>"

definition applyMultiRepoPublicationEvent :: "PublicationPrims \<Rightarrow> PublicationProjection option \<Rightarrow> PublicationEvent \<Rightarrow> MultiRepoPublicationErrorCode + PublicationProjection" where
  "applyMultiRepoPublicationEvent X current e = (case current of
     None \<Rightarrow> (case pv_body e of
         PublicationCreated plan \<Rightarrow> if pv_expectedVersion e \<noteq> 0 then Inl INVALID_PUBLICATION_TRANSITION else Inr (createdPublication X e plan)
       | _ \<Rightarrow> Inl INVALID_PUBLICATION_TRANSITION)
   | Some p \<Rightarrow> (case obj_get (pj_eventIds p) (pv_eventId e) of
         Some previous \<Rightarrow> if previous \<noteq> px_eventDigest X e then Inl PUBLICATION_EVENT_ID_CONFLICT else Inr p
       | None \<Rightarrow>
           if pv_transactionId e \<noteq> lp_transactionId (pj_plan p) \<or> pv_expectedVersion e \<noteq> pj_version p then Inl STALE_PUBLICATION_VERSION
           else if publicationOver p then Inl INVALID_PUBLICATION_TRANSITION
           else bind_res (nextPublication p (pv_body e)) (\<lambda>p'.
             Inr (p'\<lparr>pj_version := pj_version p + 1, pj_eventIds := obj_set (pv_eventId e) (px_eventDigest X e) (pj_eventIds p)\<rparr>))))"

section \<open>One reconciliation step\<close>

datatype 'a PublicationEffectResult = EffectCompleted 'a CompletedBy | EffectRetry string | EffectRecovery string

record 'w PublicationAdapter =
  pa_publishBranch :: "'w \<Rightarrow> PublicationEntryPlan \<Rightarrow> string PublicationEffectResult option \<times> 'w"
  pa_ensurePullRequest :: "'w \<Rightarrow> PublicationEntryPlan \<Rightarrow> (string \<times> string) PublicationEffectResult option \<times> 'w"
  pa_ensureCrossLinks :: "'w \<Rightarrow> PublicationEntryPlan \<Rightarrow> (string \<times> string \<times> string) list \<Rightarrow> string PublicationEffectResult option \<times> 'w"

datatype PublicationFailure = PublicationError MultiRepoPublicationErrorCode | AdapterRejected | MissingPullRequest

definition publicationEvent :: "PublicationPrims \<Rightarrow> PublicationProjection \<Rightarrow> string \<Rightarrow> PublicationBody \<Rightarrow> PublicationEvent" where
  "publicationEvent X p action body = \<lparr>pv_eventId = px_eventId X (lp_transactionId (pj_plan p)) (pj_version p) action,
     pv_transactionId = lp_transactionId (pj_plan p), pv_expectedVersion = pj_version p, pv_body = body\<rparr>"

text \<open>The event of an effect that did not complete, or what \<open>done\<close> makes of its value.\<close>

definition effectEvent :: "PublicationPrims \<Rightarrow> PublicationProjection \<Rightarrow> string \<Rightarrow> PublicationOperation \<Rightarrow>
    ('a \<Rightarrow> CompletedBy \<Rightarrow> PublicationFailure + PublicationEvent option) \<Rightarrow> 'a PublicationEffectResult option \<Rightarrow> PublicationFailure + PublicationEvent option" where
  "effectEvent X p k op completed result = (case result of
     None \<Rightarrow> Inl AdapterRejected
   | Some (EffectRetry code) \<Rightarrow> Inr (Some (publicationEvent X p (operationName op @ '':retry:'' @ k) (RetryableFailure k op code)))
   | Some (EffectRecovery code) \<Rightarrow> Inr (Some (publicationEvent X p (operationName op @ '':recovery:'' @ k) (RecoveryNeeded k op code)))
   | Some (EffectCompleted v by') \<Rightarrow> completed v by')"

definition completedAs :: "CompletedBy \<Rightarrow> CompletedBy \<Rightarrow> CompletedBy" where
  "completedAs fresh by' = (if by' = ByExisting then ByExisting else if by' = ByReconciled then ByReconciled else fresh)"

definition publicationArtifacts :: "PublicationEntry list \<Rightarrow> (string \<times> string \<times> string) list option" where
  "publicationArtifacts es = (if list_ex (\<lambda>e. pe_pullRequest e = None) es then None
     else Some (map (\<lambda>e. let pr = the (pe_pullRequest e) in (publicationEntryId e, pp_artifactId pr, pp_url pr)) es))"

definition reconcileMultiRepoPublicationOnce :: "PublicationPrims \<Rightarrow> 'w PublicationAdapter \<Rightarrow> PublicationProjection \<Rightarrow> 'w \<Rightarrow>
    (PublicationFailure + PublicationEvent option) \<times> 'w" where
  "reconcileMultiRepoPublicationOnce X A p w =
     (if publicationOver p then (Inr None, w)
      else case find (\<lambda>e. pe_branch e = None) (pj_entries p) of
        Some e \<Rightarrow> let k = publicationEntryId e; (result, w') = pa_publishBranch A w (pe_plan e) in
          (effectEvent X p k OpBranch (\<lambda>remoteOid by'. Inr (Some (publicationEvent X p (''branch:'' @ k) (BranchRecorded k remoteOid (completedAs ByPush by'))))) result, w')
      | None \<Rightarrow> (case find (\<lambda>e. pe_pullRequest e = None) (pj_entries p) of
        Some e \<Rightarrow> let k = publicationEntryId e; (result, w') = pa_ensurePullRequest A w (pe_plan e) in
          (effectEvent X p k OpPr (\<lambda>(artifactId, url) by'. Inr (Some (publicationEvent X p (''pr:'' @ k) (PrRecorded k artifactId url (completedAs ByCreate by'))))) result, w')
      | None \<Rightarrow> (case publicationArtifacts (pj_entries p) of None \<Rightarrow> (Inl MissingPullRequest, w)
        | Some artifacts \<Rightarrow> (case find (\<lambda>e. pe_crossLink e = None) (pj_entries p) of
            Some e \<Rightarrow> let k = publicationEntryId e; (result, w') = pa_ensureCrossLinks A w (pe_plan e) artifacts in
              (effectEvent X p k OpCrossLink (\<lambda>digest by'. if \<not> isSha256Hex digest then Inl (PublicationError INVALID_PUBLICATION_TRANSITION)
                 else Inr (Some (publicationEvent X p (''crosslink:'' @ k) (CrossLinkRecorded k digest (completedAs ByUpdate by'))))) result, w')
          | None \<Rightarrow> (Inr (Some (publicationEvent X p ''complete'' PublicationCompleted)), w)))))"

end
