(* ===== verification/Publication_Props.thy ===== *)
theory Publication_Props
  imports Publication
begin

text \<open>
  What the events of a publication establish, and that the reconciler brings a publication to its end. The locale
  \<open>publication_adapter\<close> is what the reconciler relies on: a completed push is a push of the planned commit, and a
  completed cross-link has a digest.
\<close>

section \<open>What a publication has done\<close>

definition pub_entry_ok :: "PublicationEntry \<Rightarrow> bool" where
  "pub_entry_ok e \<longleftrightarrow> (\<forall>b. pe_branch e = Some b \<longrightarrow> pb_remoteOid b = ep_candidateOid (pe_plan e)) \<and>
     (pe_pullRequest e \<noteq> None \<longrightarrow> pe_branch e \<noteq> None) \<and> (pe_crossLink e \<noteq> None \<longrightarrow> pe_pullRequest e \<noteq> None)"

definition pub_entry_complete :: "PublicationEntry \<Rightarrow> bool" where
  "pub_entry_complete e \<longleftrightarrow> pe_branch e \<noteq> None \<and> pe_pullRequest e \<noteq> None \<and> pe_crossLink e \<noteq> None"

definition pub_ok :: "PublicationProjection \<Rightarrow> bool" where
  "pub_ok p \<longleftrightarrow> map pe_plan (pj_entries p) = lp_entries (pj_plan p) \<and> list_all pub_entry_ok (pj_entries p) \<and>
     (pj_state p = VectorPublished \<longrightarrow> list_all pub_entry_complete (pj_entries p)) \<and>
     (pj_state p = VectorStuck \<longleftrightarrow> pj_recoveryReason p \<noteq> None)"

lemma replacePublication_Inr:
  "replacePublication f k es = Inr es' \<longleftrightarrow>
   k \<in> set (map publicationEntryId es) \<and> list_all2 (\<lambda>e e'. if publicationEntryId e = k then f e = Inr e' else e' = e) es es'"
  by (simp add: replacePublication_def replace_by_Inr)

text \<open>What an event does to an entry: it records a step whose predecessor is there, or a failure.\<close>

definition pub_change :: "PublicationEntry \<Rightarrow> PublicationEntry \<Rightarrow> bool" where
  "pub_change e e' \<longleftrightarrow> pe_plan e' = pe_plan e \<and> (pub_entry_ok e \<longrightarrow> pub_entry_ok e')"

lemma next_pub_entries:
  assumes "nextPublication p body = Inr p'"
  shows "list_all2 pub_change (pj_entries p) (pj_entries p')"
proof -
  have same: "list_all2 pub_change es es" for es by (rule list_all2_refl) (simp add: pub_change_def)
  show ?thesis using assms same
    by (cases body)
      (auto simp: nextPublication_def Let_def replacePublication_Inr pub_change_def pub_entry_ok_def requireStep_def recordFailure_def
        split: if_splits elim!: list_all2_mono)
qed

lemma next_pub_state:
  assumes "nextPublication p body = Inr p'"
  shows "pj_plan p' = pj_plan p \<and> pj_version p' = pj_version p \<and>
    (pj_state p' = VectorPublished \<longrightarrow> body = PublicationCompleted \<and> pj_entries p' = pj_entries p \<and> list_all pub_entry_complete (pj_entries p) \<or> pj_state p = VectorPublished) \<and>
    ((\<exists>k op code. body = RecoveryNeeded k op code) \<longrightarrow> pj_state p' = VectorStuck \<and> pj_recoveryReason p' \<noteq> None) \<and>
    ((\<nexists>k op code. body = RecoveryNeeded k op code) \<longrightarrow> pj_recoveryReason p' = pj_recoveryReason p \<and> (pj_state p' = pj_state p \<or> pj_state p' \<noteq> VectorStuck))"
  using assms by (cases body) (auto simp: nextPublication_def Let_def pub_entry_complete_def list_ex_iff list_all_iff split: if_splits)

lemma pub_ok_step:
  assumes ok: "pub_ok p" and live: "\<not> publicationOver p" and nx: "nextPublication p body = Inr p'"
  shows "pub_ok p'"
proof -
  note st = next_pub_state [OF nx] and ch = next_pub_entries [OF nx]
  have "map pe_plan (pj_entries p') = map pe_plan (pj_entries p)" by (rule list_all2_map_eq [OF ch]) (simp add: pub_change_def)
  moreover have "list_all pub_entry_ok (pj_entries p')" 
    by (rule list_all2_all [OF ch, of pub_entry_ok]) (use ok in \<open>auto simp: pub_ok_def pub_change_def\<close>)
  moreover have "pj_state p \<noteq> VectorPublished" "pj_state p \<noteq> VectorStuck" "pj_recoveryReason p = None" using ok live by (auto simp: publicationOver_def pub_ok_def)
  ultimately show ?thesis using st ok unfolding pub_ok_def by metis
qed

lemma created_pub_ok: "pub_ok (createdPublication X e plan)"
  by (simp add: pub_ok_def createdPublication_def pub_entry_ok_def list_all_iff comp_def)

lemma pub_ok_stamp: "pub_ok (p\<lparr>pj_version := v, pj_eventIds := ids\<rparr>) \<longleftrightarrow> pub_ok p"
  by (simp add: pub_ok_def)

lemma apply_pub_ok:
  assumes "applyMultiRepoPublicationEvent X cur e = Inr p'" "\<And>p. cur = Some p \<Longrightarrow> pub_ok p"
  shows "pub_ok p'"
  using assms pub_ok_step
  by (auto simp: applyMultiRepoPublicationEvent_def created_pub_ok pub_ok_stamp split: option.splits PublicationBody.splits if_splits)

text \<open>A publication that is over does not change, and no event changes the plan.\<close>

lemma apply_pub_over:
  "applyMultiRepoPublicationEvent X (Some p) e = Inr p' \<Longrightarrow> publicationOver p \<Longrightarrow> p' = p"
  by (auto simp: applyMultiRepoPublicationEvent_def split: option.splits if_splits)

lemma apply_pub_plan:
  "applyMultiRepoPublicationEvent X (Some p) e = Inr p' \<Longrightarrow> pj_plan p' = pj_plan p"
  using next_pub_state by (auto simp: applyMultiRepoPublicationEvent_def split: option.splits if_splits)

interpretation publication: event_fold "\<lambda>p e. map_sum id Some (applyMultiRepoPublicationEvent X p e)" "\<lambda>cur. \<forall>p. cur = Some p \<longrightarrow> pub_ok p" for X
proof
  fix cur e cur' assume ok: "\<forall>p. cur = Some p \<longrightarrow> pub_ok p" and s: "map_sum id Some (applyMultiRepoPublicationEvent X cur e) = Inr cur'"
  then obtain p' where "applyMultiRepoPublicationEvent X cur e = Inr p'" "cur' = Some p'"
    by (cases "applyMultiRepoPublicationEvent X cur e") auto
  then show "\<forall>p. cur' = Some p \<longrightarrow> pub_ok p" using apply_pub_ok ok by blast
qed

section \<open>Progress\<close>

definition missing :: "PublicationEntry \<Rightarrow> nat" where
  "missing e = of_bool (pe_branch e = None) + of_bool (pe_pullRequest e = None) + of_bool (pe_crossLink e = None)"

definition steps_left :: "PublicationProjection \<Rightarrow> nat" where
  "steps_left p = (if publicationOver p then 0 else Suc (sum_list (map missing (pj_entries p))))"

lemma steps_left_bound: "steps_left p \<le> 3 * length (pj_entries p) + 1"
proof -
  have "missing e \<le> 3" for e by (simp add: missing_def)
  then have "sum_list (map missing es) \<le> 3 * length es" for es by (induction es) (auto simp: add_mono)
  then show ?thesis by (simp add: steps_left_def)
qed

text \<open>The reducer takes an event about an existing entry and counts its step.\<close>

definition takes :: "PublicationProjection \<Rightarrow> PublicationBody \<Rightarrow> bool" where
  "takes p body \<longleftrightarrow> (\<exists>p'. nextPublication p body = Inr p' \<and> steps_left p' \<le> steps_left p \<and>
     (steps_left p' = steps_left p \<longrightarrow> (\<exists>k op code. body = RetryableFailure k op code)))"

lemma replacePublication_one:
  assumes "distinct (map publicationEntryId es)" "e \<in> set es" "f e = Inr e'"
  obtains pre post where "es = pre @ e # post" "replacePublication f (publicationEntryId e) es = Inr (pre @ e' # post)"
  using replace_by_one [where key = publicationEntryId and f = f, OF assms] by (auto simp: replacePublication_def)

lemma takes_step:
  assumes "distinct (map publicationEntryId (pj_entries p))" "e \<in> set (pj_entries p)" "f e = Inr e'" "missing e' < missing e"
    "\<And>es. replacePublication f (publicationEntryId e) (pj_entries p) = Inr es \<Longrightarrow> nextPublication p body = Inr (p\<lparr>pj_entries := es\<rparr>)" "\<not> publicationOver p"
  shows "takes p body"
proof -
  obtain pre post where s: "pj_entries p = pre @ e # post" "replacePublication f (publicationEntryId e) (pj_entries p) = Inr (pre @ e' # post)"
    by (rule replacePublication_one [where f = f, OF assms(1-3)])
  have "steps_left (p\<lparr>pj_entries := pre @ e' # post\<rparr>) < steps_left p" using assms(4,6) s(1) by (simp add: steps_left_def publicationOver_def)
  with assms(5) [OF s(2)] show ?thesis unfolding takes_def by (metis less_irrefl less_imp_le)
qed

lemma takes_failures:
  assumes "distinct (map publicationEntryId (pj_entries p))" "e \<in> set (pj_entries p)" "\<not> publicationOver p"
  shows "takes p (RetryableFailure (publicationEntryId e) op code)" "takes p (RecoveryNeeded (publicationEntryId e) op code)"
proof -
  let ?e = "\<lambda>r. e\<lparr>pe_lastFailure := Some \<lparr>pf_code = code, pf_retryable = r\<rparr>\<rparr>"
  have rep: "\<exists>pre post. pj_entries p = pre @ e # post \<and> replacePublication (recordFailure code r) (publicationEntryId e) (pj_entries p) = Inr (pre @ ?e r # post)" for r
    by (rule replacePublication_one [OF assms(1,2), of "recordFailure code r" "?e r"]) (auto simp: recordFailure_def)
  have m: "missing (?e r) = missing e" for r by (simp add: missing_def)
  from rep [of True] obtain pre post where "pj_entries p = pre @ e # post"
    "replacePublication (recordFailure code True) (publicationEntryId e) (pj_entries p) = Inr (pre @ ?e True # post)" by blast
  then show "takes p (RetryableFailure (publicationEntryId e) op code)"
    using m assms(3) by (simp add: takes_def nextPublication_def bind_res_def steps_left_def publicationOver_def)
  from rep [of False] obtain pre post where "pj_entries p = pre @ e # post"
    "replacePublication (recordFailure code False) (publicationEntryId e) (pj_entries p) = Inr (pre @ ?e False # post)" by blast
  then show "takes p (RecoveryNeeded (publicationEntryId e) op code)"
    using assms(3) by (simp add: takes_def nextPublication_def bind_res_def steps_left_def publicationOver_def)
qed

lemma takes_stored:
  assumes "takes p (pv_body e)" "\<not> publicationOver p" "pv_transactionId e = lp_transactionId (pj_plan p)" "pv_expectedVersion e = pj_version p"
    "obj_get (pj_eventIds p) (pv_eventId e) = None"
  shows "\<exists>p'. applyMultiRepoPublicationEvent X (Some p) e = Inr p' \<and> steps_left p' \<le> steps_left p \<and>
    (steps_left p' = steps_left p \<longrightarrow> (\<exists>k op code. pv_body e = RetryableFailure k op code))"
proof -
  have "steps_left (q\<lparr>pj_version := v, pj_eventIds := ids\<rparr>) = steps_left q" for q v ids by (simp add: steps_left_def publicationOver_def)
  with assms show ?thesis by (auto simp: takes_def applyMultiRepoPublicationEvent_def bind_res_def)
qed

section \<open>The contract of the adapter\<close>

locale publication_adapter =
  fixes A :: "'w PublicationAdapter"
  assumes branch_exact: "pa_publishBranch A w q = (Some (EffectCompleted oid how), w') \<Longrightarrow> oid = ep_candidateOid q"
    and link_digest: "pa_ensureCrossLinks A w q artifacts = (Some (EffectCompleted digest how), w') \<Longrightarrow> isSha256Hex digest"
begin

lemma effect_taken:
  assumes dis: "distinct (map publicationEntryId (pj_entries p))" and e: "e \<in> set (pj_entries p)" and live: "\<not> publicationOver p"
    and r: "effectEvent X p (publicationEntryId e) op completed result = r'"
    and c: "\<And>v how. result = Some (EffectCompleted v how) \<Longrightarrow> \<exists>a body. completed v how = Inr (Some (publicationEvent X p a body)) \<and> takes p body"
  shows "r' = Inl AdapterRejected \<or> (\<exists>a body. r' = Inr (Some (publicationEvent X p a body)) \<and> takes p body)"
proof (cases result)
  case (Some x)
  show ?thesis
  proof (cases x)
    case (EffectCompleted v how)
    with Some r c show ?thesis by (simp add: effectEvent_def)
  next
    case (EffectRetry code)
    with Some r have "r' = Inr (Some (publicationEvent X p (operationName op @ '':retry:'' @ publicationEntryId e) (RetryableFailure (publicationEntryId e) op code)))"
      by (simp add: effectEvent_def)
    with takes_failures(1) [OF dis e live] show ?thesis by blast
  next
    case (EffectRecovery code)
    with Some r have "r' = Inr (Some (publicationEvent X p (operationName op @ '':recovery:'' @ publicationEntryId e) (RecoveryNeeded (publicationEntryId e) op code)))"
      by (simp add: effectEvent_def)
    with takes_failures(2) [OF dis e live] show ?thesis by blast
  qed
qed (use r in \<open>auto simp: effectEvent_def\<close>)

lemma reconcile_taken:
  assumes ok: "pub_ok p" and dis: "distinct (map publicationEntryId (pj_entries p))" and live: "\<not> publicationOver p"
    and r: "reconcileMultiRepoPublicationOnce X A p w = (res, w')"
  shows "res = Inl AdapterRejected \<or> (\<exists>a body. res = Inr (Some (publicationEvent X p a body)) \<and> takes p body)"
proof (cases "find (\<lambda>e. pe_branch e = None) (pj_entries p)")
  case (Some e)
  note mem = find_member [OF Some]
  obtain result where x: "pa_publishBranch A w (pe_plan e) = (result, w')"
    and res: "res = effectEvent X p (publicationEntryId e) OpBranch (\<lambda>remoteOid how. Inr (Some (publicationEvent X p (''branch:'' @ publicationEntryId e) (BranchRecorded (publicationEntryId e) remoteOid (completedAs ByPush how))))) result"
    using r Some live by (auto simp: reconcileMultiRepoPublicationOnce_def Let_def split: prod.splits)
  show ?thesis
  proof (rule effect_taken [OF dis conjunct1 [OF mem] live res [symmetric]])
    fix oid how assume "result = Some (EffectCompleted oid how)"
    then have oid: "oid = ep_candidateOid (pe_plan e)" using branch_exact x by blast
    have "takes p (BranchRecorded (publicationEntryId e) oid by')" for by'
      by (rule takes_step [where e = e and f = "\<lambda>e. requireStep (oid = ep_candidateOid (pe_plan e)) (e\<lparr>pe_branch := Some \<lparr>pb_remoteOid = oid, pb_completedBy = by'\<rparr>, pe_lastFailure := None\<rparr>)", OF dis])
        (use mem oid live in \<open>auto simp: requireStep_def missing_def nextPublication_def bind_res_def\<close>)
    then show "\<exists>a body. Inr (Some (publicationEvent X p (''branch:'' @ publicationEntryId e) (BranchRecorded (publicationEntryId e) oid (completedAs ByPush how)))) =
        Inr (Some (publicationEvent X p a body)) \<and> takes p body" by blast
  qed
next
  case branches: None
  then have br: "pe_branch e \<noteq> None" if "e \<in> set (pj_entries p)" for e using that by (auto simp: find_None_iff)
  show ?thesis
  proof (cases "find (\<lambda>e. pe_pullRequest e = None) (pj_entries p)")
    case (Some e)
    note mem = find_member [OF Some]
    obtain result where x: "pa_ensurePullRequest A w (pe_plan e) = (result, w')"
      and res: "res = effectEvent X p (publicationEntryId e) OpPr (\<lambda>(artifactId, url) how. Inr (Some (publicationEvent X p (''pr:'' @ publicationEntryId e) (PrRecorded (publicationEntryId e) artifactId url (completedAs ByCreate how))))) result"
      using r Some branches live by (auto simp: reconcileMultiRepoPublicationOnce_def Let_def split: prod.splits)
    show ?thesis
    proof (rule effect_taken [OF dis conjunct1 [OF mem] live res [symmetric]])
      fix v how
      have "takes p (PrRecorded (publicationEntryId e) a u by')" for a u by'
        by (rule takes_step [where e = e and f = "\<lambda>e. requireStep (pe_branch e \<noteq> None) (e\<lparr>pe_pullRequest := Some \<lparr>pp_artifactId = a, pp_url = u, pp_completedBy = by'\<rparr>, pe_lastFailure := None\<rparr>)", OF dis])
          (use mem br [OF conjunct1 [OF mem]] live in \<open>auto simp: requireStep_def missing_def nextPublication_def bind_res_def\<close>)
      then show "\<exists>a body. (\<lambda>(artifactId, url) how. Inr (Some (publicationEvent X p (''pr:'' @ publicationEntryId e) (PrRecorded (publicationEntryId e) artifactId url (completedAs ByCreate how))))) v how =
          Inr (Some (publicationEvent X p a body)) \<and> takes p body" by (cases v) (simp only: prod.case, blast)
    qed
  next
    case pulls: None
    then have pr: "pe_pullRequest e \<noteq> None" if "e \<in> set (pj_entries p)" for e using that by (auto simp: find_None_iff)
    then obtain artifacts where art: "publicationArtifacts (pj_entries p) = Some artifacts" by (auto simp: publicationArtifacts_def list_ex_iff)
    show ?thesis
    proof (cases "find (\<lambda>e. pe_crossLink e = None) (pj_entries p)")
      case (Some e)
      note mem = find_member [OF Some]
      obtain result where x: "pa_ensureCrossLinks A w (pe_plan e) artifacts = (result, w')"
        and res: "res = effectEvent X p (publicationEntryId e) OpCrossLink (\<lambda>digest how. if \<not> isSha256Hex digest then Inl (PublicationError INVALID_PUBLICATION_TRANSITION)
          else Inr (Some (publicationEvent X p (''crosslink:'' @ publicationEntryId e) (CrossLinkRecorded (publicationEntryId e) digest (completedAs ByUpdate how))))) result"
        using r Some branches pulls art live by (auto simp: reconcileMultiRepoPublicationOnce_def Let_def split: prod.splits)
      show ?thesis
      proof (rule effect_taken [OF dis conjunct1 [OF mem] live res [symmetric]])
        fix d how assume "result = Some (EffectCompleted d how)"
        then have d: "isSha256Hex d" using link_digest x by blast
        have "takes p (CrossLinkRecorded (publicationEntryId e) d by')" for by'
          by (rule takes_step [where e = e and f = "\<lambda>e. requireStep (pe_pullRequest e \<noteq> None) (e\<lparr>pe_crossLink := Some \<lparr>pc_digest = d, pc_completedBy = by'\<rparr>, pe_lastFailure := None\<rparr>)", OF dis])
            (use mem pr [OF conjunct1 [OF mem]] live in \<open>auto simp: requireStep_def missing_def nextPublication_def bind_res_def\<close>)
        with d show "\<exists>a body. (if \<not> isSha256Hex d then Inl (PublicationError INVALID_PUBLICATION_TRANSITION)
          else Inr (Some (publicationEvent X p (''crosslink:'' @ publicationEntryId e) (CrossLinkRecorded (publicationEntryId e) d (completedAs ByUpdate how))))) =
          Inr (Some (publicationEvent X p a body)) \<and> takes p body" by auto
      qed
    next
      case links: None
      then have cl: "pe_crossLink e \<noteq> None" if "e \<in> set (pj_entries p)" for e using that by (auto simp: find_None_iff)
      have "takes p PublicationCompleted"
        using br pr cl live by (auto simp: takes_def nextPublication_def list_ex_iff steps_left_def publicationOver_def)
      moreover have "res = Inr (Some (publicationEvent X p ''complete'' PublicationCompleted))"
        using r branches pulls art links live by (simp add: reconcileMultiRepoPublicationOnce_def)
      ultimately show ?thesis by blast
    qed
  qed
qed

theorem reconcile_progress:
  assumes ok: "pub_ok p" and dis: "distinct (map publicationEntryId (pj_entries p))"
    and fresh: "\<And>a. obj_get (pj_eventIds p) (px_eventId X (lp_transactionId (pj_plan p)) (pj_version p) a) = None"
  shows "case reconcileMultiRepoPublicationOnce X A p w of
      (Inr None, w') \<Rightarrow> publicationOver p \<and> w' = w
    | (Inr (Some e), w') \<Rightarrow> \<exists>p'. applyMultiRepoPublicationEvent X (Some p) e = Inr p' \<and> steps_left p' \<le> steps_left p \<and>
        (steps_left p' = steps_left p \<longrightarrow> (\<exists>k op code. pv_body e = RetryableFailure k op code))
    | (Inl f, w') \<Rightarrow> f = AdapterRejected"
proof (cases "publicationOver p")
  case True
  then show ?thesis by (simp add: reconcileMultiRepoPublicationOnce_def)
next
  case live: False
  obtain res w' where r: "reconcileMultiRepoPublicationOnce X A p w = (res, w')" by fastforce
  from reconcile_taken [OF ok dis live r] consider "res = Inl AdapterRejected" | a body where "res = Inr (Some (publicationEvent X p a body))" "takes p body" by blast
  then show ?thesis
  proof cases
    case 2
    with takes_stored [of p "publicationEvent X p a body" X] live fresh r show ?thesis by (simp add: publicationEvent_def)
  qed (use r in simp)
qed

end

end
