(* ===== verification/Scm_Bridge.thy ===== *)
theory Scm_Bridge
  imports Publication_Props
begin

text \<open>
  The publication adapter of the product (\<open>src/scm/multirepo-bridge.ts\<close>): it turns the steps of a publication into requests
  to the parent source-control lifecycle of each repository. It keeps the contract \<open>publication_adapter\<close> whatever the
  lifecycle and the cross-link writer answer, so a publication through it comes to an end.

  The lifecycle of a repository (\<open>src/scm/lifecycle.ts\<close>) and a cross-link writer are parameters that act on a world; a
  rejected promise is \<open>None\<close>. Exceptions of the bridge itself (\<open>PLAN_MISMATCH\<close>) reject the step too.
\<close>

section \<open>Branch references: schema.ts\<close>

definition endsWith :: "string \<Rightarrow> string \<Rightarrow> bool" where
  "endsWith s t \<longleftrightarrow> startsWith (rev s) (rev t)"

definition forbiddenRefChar :: "char \<Rightarrow> bool" where
  "forbiddenRefChar c \<longleftrightarrow> char_code c \<le> 32 \<or> char_code c = 127 \<or> c \<in> set [CHR ''~'', CHR ''^'', CHR '':'', CHR ''?'', CHR ''*'', CHR 0x5C, CHR ''['']"

definition isValidScmBranchRef :: "string \<Rightarrow> bool" where
  "isValidScmBranchRef value \<longleftrightarrow>
     (if \<not> startsWith value ''refs/heads/'' \<or> length value > 512 then False
      else let branch = drop 11 value in
        if branch = [] \<or> startsWith branch ''/'' \<or> endsWith branch ''/'' \<or> startsWith branch ''.'' \<or> endsWith branch ''.'' then False
        else if hasSubstring branch ''//'' \<or> hasSubstring branch ''..'' \<or> hasSubstring branch [CHR ''@'', CHR 0x7B] \<or> endsWith branch ''.lock'' then False
        else if list_ex forbiddenRefChar branch then False
        else list_all (\<lambda>component. component \<noteq> [] \<and> \<not> startsWith component ''.'' \<and> \<not> endsWith component ''.'') (split_on (CHR ''/'') branch))"

section \<open>Contexts and requests\<close>

record ScmRepositoryBinding =
  sb_repositoryKey :: string
  sb_remoteName :: string
  sb_expectedPushUrl :: string
  sb_baseRef :: string

record ParentScmPublicationRequest =
  sq_taskId :: string
  sq_taskGeneration :: int
  sq_repositoryKey :: string
  sq_publicationId :: string
  sq_publicationGeneration :: int
  sq_attempt :: int
  sq_integrationRef :: string
  sq_integrationOid :: string
  sq_localExpectedOid :: string
  sq_remoteName :: string
  sq_remoteRef :: string
  sq_expectedRemote :: "string option"
  sq_baseRef :: string
  sq_title :: string
  sq_body :: string
  sq_draft :: bool

datatype ParentScmPublicationResult =
    ResBranchPublished ScmPublicationFact string
  | ResPublished ScmPublicationFact ScmPullRequestFact
  | ResAmbiguous string
  | ResRefused string
  | ResSuperseded
  | ResCancelled
  | ResTransitionBound

record 'w ParentScmLifecycle =
  sy_publishBranch :: "'w \<Rightarrow> ParentScmPublicationRequest \<Rightarrow> ParentScmPublicationResult option \<times> 'w"
  sy_publish :: "'w \<Rightarrow> ParentScmPublicationRequest \<Rightarrow> ParentScmPublicationResult option \<times> 'w"
  sy_getPublication :: "'w \<Rightarrow> string \<Rightarrow> ScmPublicationFact option"

record 'w ScmMultiRepoPublicationContext =
  sc_lifecycle :: "'w ParentScmLifecycle"
  sc_binding :: ScmRepositoryBinding
  sc_taskId :: string
  sc_taskGeneration :: int
  sc_aborted :: "'w \<Rightarrow> bool"
  sc_draft :: "bool option"

record CrossLinkRequest =
  xr_entry :: PublicationEntryPlan
  xr_publication :: ScmPublicationFact
  xr_binding :: ScmRepositoryBinding
  xr_artifacts :: "(string \<times> string \<times> string) list"
  xr_aborted :: bool

type_synonym 'w crossLinkWriter = "'w \<Rightarrow> CrossLinkRequest \<Rightarrow> string PublicationEffectResult option \<times> 'w"

section \<open>Failures\<close>

definition upperChar :: "char \<Rightarrow> string" where
  "upperChar c = (if char_code c = 223 then ''SS'' else if is_lower c then [char_of (char_code c - 32)] else [c])"

definition failureCode :: "string \<Rightarrow> string" where
  "failureCode value =
     (let s = take 128 (map (\<lambda>c. if is_upper c \<or> is_digit c \<or> c = CHR ''_'' then c else CHR ''_'') (concat (map upperChar value))) in
      if s = [] then ''SCM_PUBLICATION_FAILED'' else s)"

definition effectFailure :: "ParentScmPublicationResult \<Rightarrow> 'a PublicationEffectResult" where
  "effectFailure result = (case result of
     ResAmbiguous reason \<Rightarrow> EffectRetry (failureCode reason)
   | ResCancelled \<Rightarrow> EffectRetry (failureCode ''cancelled'')
   | ResRefused reason \<Rightarrow> EffectRecovery (failureCode reason)
   | ResSuperseded \<Rightarrow> EffectRecovery (failureCode ''superseded'')
   | ResTransitionBound \<Rightarrow> EffectRecovery (failureCode ''transition_bound'')
   | ResBranchPublished _ _ \<Rightarrow> EffectRecovery (failureCode ''branch_published'')
   | ResPublished _ _ \<Rightarrow> EffectRecovery (failureCode ''published''))"

section \<open>The bridge\<close>

definition canonicalRef :: "string \<Rightarrow> string option" where
  "canonicalRef value = (let candidate = (if startsWith value ''refs/heads/'' then value else ''refs/heads/'' @ value) in
     if isValidScmBranchRef candidate then Some candidate else None)"

definition bridgeOptionsOk :: "'w ScmMultiRepoPublicationContext obj \<Rightarrow> bool" where
  "bridgeOptionsOk contexts \<longleftrightarrow> contexts \<noteq> [] \<and> length contexts \<le> 32 \<and>
     list_all (\<lambda>(k, c). ID_PATTERN k \<and> sc_taskGeneration c \<ge> 1 \<and> sc_taskGeneration c \<le> MAX_SAFE_INTEGER) contexts"

definition bridgeContext :: "'w ScmMultiRepoPublicationContext obj \<Rightarrow> PublicationEntryPlan \<Rightarrow> 'w ScmMultiRepoPublicationContext option" where
  "bridgeContext contexts plan = (case obj_get contexts (ep_repositoryId plan) of None \<Rightarrow> None
     | Some c \<Rightarrow>
         if ep_remoteName plan \<noteq> sb_remoteName (sc_binding c) \<or> ep_expectedPushUrl plan \<noteq> sb_expectedPushUrl (sc_binding c) then None
         else (case canonicalRef (ep_baseRef plan) of None \<Rightarrow> None | Some base \<Rightarrow> if base \<noteq> sb_baseRef (sc_binding c) then None else Some c))"

definition bridgeRequest :: "PublicationEntryPlan \<Rightarrow> 'w ScmMultiRepoPublicationContext \<Rightarrow> ParentScmPublicationRequest option" where
  "bridgeRequest plan c = (case (canonicalRef (ep_localIntegrationRef plan), canonicalRef (ep_remoteRef plan), canonicalRef (ep_baseRef plan)) of
     (Some integrationRef, Some remoteRef, Some baseRef) \<Rightarrow>
       Some \<lparr>sq_taskId = sc_taskId c, sq_taskGeneration = sc_taskGeneration c, sq_repositoryKey = sb_repositoryKey (sc_binding c),
         sq_publicationId = ep_publicationId plan, sq_publicationGeneration = 1, sq_attempt = 1, sq_integrationRef = integrationRef,
         sq_integrationOid = ep_candidateOid plan, sq_localExpectedOid = ep_candidateOid plan, sq_remoteName = ep_remoteName plan, sq_remoteRef = remoteRef,
         sq_expectedRemote = ep_expectedRemoteOid plan, sq_baseRef = baseRef, sq_title = ep_title plan, sq_body = ep_body plan,
         sq_draft = (case sc_draft c of None \<Rightarrow> False | Some d \<Rightarrow> d)\<rparr>
   | _ \<Rightarrow> None)"

definition bridgeCall :: "'w ScmMultiRepoPublicationContext obj \<Rightarrow> PublicationEntryPlan \<Rightarrow>
    ('w ParentScmLifecycle \<Rightarrow> 'w \<Rightarrow> ParentScmPublicationRequest \<Rightarrow> ParentScmPublicationResult option \<times> 'w) \<Rightarrow> 'w \<Rightarrow> ParentScmPublicationResult option \<times> 'w" where
  "bridgeCall contexts plan operation w = (case bridgeContext contexts plan of None \<Rightarrow> (None, w)
     | Some c \<Rightarrow> (case bridgeRequest plan c of None \<Rightarrow> (None, w) | Some request \<Rightarrow> operation (sc_lifecycle c) w request))"

definition bridgePublishBranch :: "'w ScmMultiRepoPublicationContext obj \<Rightarrow> 'w \<Rightarrow> PublicationEntryPlan \<Rightarrow> string PublicationEffectResult option \<times> 'w" where
  "bridgePublishBranch contexts w plan = (case bridgeCall contexts plan sy_publishBranch w of
     (None, w') \<Rightarrow> (None, w')
   | (Some (ResBranchPublished _ _), w') \<Rightarrow> (Some (EffectCompleted (ep_candidateOid plan) ByReconciled), w')
   | (Some (ResPublished _ _), w') \<Rightarrow> (Some (EffectCompleted (ep_candidateOid plan) ByReconciled), w')
   | (Some r, w') \<Rightarrow> (Some (effectFailure r), w'))"

definition bridgeEnsurePullRequest :: "'w ScmMultiRepoPublicationContext obj \<Rightarrow> 'w \<Rightarrow> PublicationEntryPlan \<Rightarrow> (string \<times> string) PublicationEffectResult option \<times> 'w" where
  "bridgeEnsurePullRequest contexts w plan = (case bridgeCall contexts plan sy_publish w of
     (None, w') \<Rightarrow> (None, w')
   | (Some (ResPublished _ pull), w') \<Rightarrow> (Some (EffectCompleted (pr_providerId pull, pr_url pull) ByReconciled), w')
   | (Some (ResBranchPublished _ _), w') \<Rightarrow> (Some (EffectRetry ''SCM_PR_NOT_RECONCILED''), w')
   | (Some r, w') \<Rightarrow> (Some (effectFailure r), w'))"

definition bridgeEnsureCrossLinks :: "'w ScmMultiRepoPublicationContext obj \<Rightarrow> 'w crossLinkWriter option \<Rightarrow> 'w \<Rightarrow> PublicationEntryPlan \<Rightarrow>
    (string \<times> string \<times> string) list \<Rightarrow> string PublicationEffectResult option \<times> 'w" where
  "bridgeEnsureCrossLinks contexts writer w plan input = (case bridgeContext contexts plan of None \<Rightarrow> (None, w)
     | Some c \<Rightarrow> (case writer of None \<Rightarrow> (Some (EffectRecovery ''SCM_CROSSLINK_CAPABILITY_MISSING''), w)
     | Some write \<Rightarrow> (case sy_getPublication (sc_lifecycle c) w (ep_publicationId plan) of
         None \<Rightarrow> (Some (EffectRetry ''SCM_PR_NOT_CANONICAL''), w)
       | Some publication \<Rightarrow>
           if pub_state publication \<noteq> Published \<or> pub_pullRequest publication = None then (Some (EffectRetry ''SCM_PR_NOT_CANONICAL''), w)
           else let artifacts = sort_key (\<lambda>a. collate_key (fst a)) input in
             if \<not> distinct (map fst artifacts) \<or> artifacts = [] \<or> length artifacts > 32 then (None, w)
             else (case write w \<lparr>xr_entry = plan, xr_publication = publication, xr_binding = sc_binding c, xr_artifacts = artifacts, xr_aborted = sc_aborted c w\<rparr> of
                (Some (EffectCompleted digest by'), w') \<Rightarrow> (if isSha256Hex digest then Some (EffectCompleted digest by') else None, w')
              | (r, w') \<Rightarrow> (r, w')))))"

definition scmBridge :: "'w ScmMultiRepoPublicationContext obj \<Rightarrow> 'w crossLinkWriter option \<Rightarrow> 'w PublicationAdapter" where
  "scmBridge contexts writer = \<lparr>pa_publishBranch = bridgePublishBranch contexts, pa_ensurePullRequest = bridgeEnsurePullRequest contexts,
     pa_ensureCrossLinks = bridgeEnsureCrossLinks contexts writer\<rparr>"

definition existingBodyWriter :: "(string \<Rightarrow> ScmPullRequestFact option \<Rightarrow> (string \<times> string \<times> string) list \<Rightarrow> string) \<Rightarrow> 'w crossLinkWriter" where
  "existingBodyWriter digest w request =
     (if xr_aborted request then (Some (EffectRetry ''SCM_CROSSLINK_CANCELLED''), w)
      else if list_ex (\<lambda>(_, _, url). \<not> hasSubstring (ep_body (xr_entry request)) url) (xr_artifacts request) then (Some (EffectRecovery ''SCM_CROSSLINK_NOT_PRESENT''), w)
      else (Some (EffectCompleted (digest (ep_publicationId (xr_entry request)) (pub_pullRequest (xr_publication request)) (xr_artifacts request)) ByExisting), w))"

section \<open>The bridge keeps the contract\<close>

lemma effectFailure_not_completed [simp]: "effectFailure r \<noteq> EffectCompleted v how"
  by (simp add: effectFailure_def split: ParentScmPublicationResult.split)

interpretation bridge: publication_adapter "scmBridge contexts writer" for contexts :: "'w ScmMultiRepoPublicationContext obj" and writer
proof
  show "oid = ep_candidateOid q" if "pa_publishBranch (scmBridge contexts writer) w q = (Some (EffectCompleted oid how), w')" for w q oid how w'
    using that by (auto simp: scmBridge_def bridgePublishBranch_def split: prod.splits option.splits ParentScmPublicationResult.splits)
  show "isSha256Hex digest" if "pa_ensureCrossLinks (scmBridge contexts writer) w q artifacts = (Some (EffectCompleted digest how), w')" for w q artifacts digest how w'
    using that by (auto simp: scmBridge_def bridgeEnsureCrossLinks_def Let_def split: prod.splits option.splits if_splits PublicationEffectResult.splits)
qed

section \<open>Histories of a publication\<close>

definition publicationHistory :: "PublicationPrims \<Rightarrow> PublicationEvent list \<Rightarrow> MultiRepoPublicationErrorCode + PublicationProjection option" where
  "publicationHistory X es = fold_res (\<lambda>p e. map_sum id Some (applyMultiRepoPublicationEvent X p e)) None es"

lemma history_plan:
  assumes "fold_res (\<lambda>p e. map_sum id Some (applyMultiRepoPublicationEvent X p e)) (Some q) es = Inr (Some p)"
  shows "pj_plan p = pj_plan q"
  using assms
proof (induction es arbitrary: q)
  case (Cons e es)
  from Cons.prems obtain q' where "applyMultiRepoPublicationEvent X (Some q) e = Inr q'"
    "fold_res (\<lambda>p e. map_sum id Some (applyMultiRepoPublicationEvent X p e)) (Some q') es = Inr (Some p)"
    by (cases "applyMultiRepoPublicationEvent X (Some q) e") (simp_all add: id_def)
  with Cons.IH apply_pub_plan show ?case by metis
qed simp

lemma publication_reached:
  assumes "createMultiRepoPublicationEvent X plan = Inr e0" "publicationHistory X (e0 # es) = Inr (Some p)"
  shows "pub_ok p" "pj_plan p = plan" "distinct (map publicationEntryId (pj_entries p))"
proof -
  from assms(1) have v: "distinct (map ep_repositoryId (lp_entries plan))" and e0: "pv_body e0 = PublicationCreated plan"
    by (auto simp: createMultiRepoPublicationEvent_def validatePublicationPlan_def Let_def)
  show ok: "pub_ok p" using publication.replay_inv [of None X "e0 # es" "Some p"] assms(2) by (simp add: publicationHistory_def)
  from assms(2) e0 have "fold_res (\<lambda>p e. map_sum id Some (applyMultiRepoPublicationEvent X p e)) (Some (createdPublication X e0 plan)) es = Inr (Some p)"
    by (auto simp: publicationHistory_def applyMultiRepoPublicationEvent_def split: if_splits)
  from history_plan [OF this] show plan: "pj_plan p = plan" by (simp add: createdPublication_def)
  have ids: "map publicationEntryId (pj_entries p) = map ep_repositoryId (map pe_plan (pj_entries p))" by (simp add: publicationEntryId_def)
  have "map pe_plan (pj_entries p) = lp_entries plan" using ok plan by (simp add: pub_ok_def)
  with v show "distinct (map publicationEntryId (pj_entries p))" by (simp only: ids)
qed

text \<open>
  C27. What a publication has recorded is in order: in every history of events that starts with the creation of a valid plan, a pushed
  branch is at the planned commit, a pull request exists only for a pushed branch and a cross-link only for a pull
  request, and the vector counts as published only when every repository has all three.
\<close>

theorem publication_complete:
  assumes "createMultiRepoPublicationEvent X plan = Inr e0" "publicationHistory X (e0 # es) = Inr (Some p)"
  shows "map pe_plan (pj_entries p) = lp_entries plan \<and> (\<forall>e\<in>set (pj_entries p).
    (\<forall>b. pe_branch e = Some b \<longrightarrow> pb_remoteOid b = ep_candidateOid (pe_plan e)) \<and> (pe_pullRequest e \<noteq> None \<longrightarrow> pe_branch e \<noteq> None) \<and>
    (pe_crossLink e \<noteq> None \<longrightarrow> pe_pullRequest e \<noteq> None) \<and>
    (pj_state p = VectorPublished \<longrightarrow> pe_branch e \<noteq> None \<and> pe_pullRequest e \<noteq> None \<and> pe_crossLink e \<noteq> None))"
  using publication_reached(1,2) [OF assms] by (auto simp: pub_ok_def pub_entry_ok_def pub_entry_complete_def list_all_iff)

text \<open>
  C28. A publication through the bridge comes to an end, whatever the lifecycles and the cross-link writer answer: with an unused
  event identifier one reconciliation reports the end, or passes on a rejected call, or returns an event the reducer
  accepts; the number of steps to go, at most three per repository and one, falls with every event but a
  retryable failure.
\<close>

theorem publication_progress:
  assumes "createMultiRepoPublicationEvent X plan = Inr e0" "publicationHistory X (e0 # es) = Inr (Some p)"
    "\<forall>a. obj_get (pj_eventIds p) (px_eventId X (lp_transactionId (pj_plan p)) (pj_version p) a) = None"
  shows "steps_left p \<le> 3 * length (lp_entries plan) + 1 \<and> (case reconcileMultiRepoPublicationOnce X (scmBridge contexts writer) p w of
      (Inr None, w') \<Rightarrow> publicationOver p \<and> w' = w
    | (Inr (Some e), w') \<Rightarrow> \<exists>p'. applyMultiRepoPublicationEvent X (Some p) e = Inr p' \<and> steps_left p' \<le> steps_left p \<and>
        (steps_left p' = steps_left p \<longrightarrow> (\<exists>k op code. pv_body e = RetryableFailure k op code))
    | (Inl f, w') \<Rightarrow> f = AdapterRejected)"
proof -
  note r = publication_reached [OF assms(1,2)]
  have "length (pj_entries p) = length (lp_entries plan)" using r by (metis length_map pub_ok_def)
  then have "steps_left p \<le> 3 * length (lp_entries plan) + 1" using steps_left_bound [of p] by simp
  moreover have "obj_get (pj_eventIds p) (px_eventId X (lp_transactionId (pj_plan p)) (pj_version p) a) = None" for a using assms(3) by blast
  note bridge.reconcile_progress [where X = X and w = w and contexts = contexts and writer = writer, OF r(1,3) this]
  ultimately show ?thesis by (rule conjI)
qed

section \<open>A vector of two repositories\<close>

definition pub_prims :: PublicationPrims where
  "pub_prims = \<lparr>px_eventDigest = pv_eventId, px_eventId = (\<lambda>_ v _. replicate (nat v) CHR ''p''), px_canParseUrl = (\<lambda>_. True), px_zodUrl = (\<lambda>_. True)\<rparr>"

definition pub_entry :: "string \<Rightarrow> PublicationEntryPlan" where
  "pub_entry k = \<lparr>ep_repositoryId = k, ep_publicationId = ''pub-'' @ k, ep_candidateOid = replicate 40 CHR ''c'', ep_localIntegrationRef = ''refs/heads/next'',
     ep_remoteName = ''origin'', ep_expectedPushUrl = ''u'', ep_remoteRef = ''refs/heads/next'', ep_expectedRemoteOid = None, ep_baseRef = ''main'', ep_title = ''t'', ep_body = ''see x''\<rparr>"

definition pub_plan :: PublicationPlan where
  "pub_plan = \<lparr>lp_transactionId = ''tx1'', lp_repositorySetId = replicate 64 CHR ''0'', lp_localIntegrationReceiptDigest = replicate 64 CHR ''1'', lp_policyApproved = True,
     lp_entries = [pub_entry ''api'', pub_entry ''web'']\<rparr>"

definition pub_created :: PublicationEvent where
  "pub_created = \<lparr>pv_eventId = [], pv_transactionId = ''tx1'', pv_expectedVersion = 0, pv_body = PublicationCreated pub_plan\<rparr>"

definition pub_event :: "nat \<Rightarrow> PublicationBody \<Rightarrow> PublicationEvent" where
  "pub_event n body = \<lparr>pv_eventId = replicate n CHR ''p'', pv_transactionId = ''tx1'', pv_expectedVersion = int n, pv_body = body\<rparr>"

definition pub_events :: "PublicationEvent list" where
  "pub_events = map (\<lambda>(n, b). pub_event (Suc n) b) (enumerate 0
     [BranchRecorded ''api'' (replicate 40 CHR ''c'') ByPush, RetryableFailure ''web'' OpBranch ''X'', BranchRecorded ''web'' (replicate 40 CHR ''c'') ByPush,
      PrRecorded ''api'' ''1'' ''x'' ByCreate, PrRecorded ''web'' ''2'' ''x'' ByCreate, CrossLinkRecorded ''api'' (replicate 64 CHR ''d'') ByExisting,
      CrossLinkRecorded ''web'' (replicate 64 CHR ''d'') ByExisting, PublicationCompleted])"

lemma pub_create: "createMultiRepoPublicationEvent pub_prims pub_plan = Inr pub_created"
  by code_simp

theorem publication_complete_witness:
  "\<exists>p. publicationHistory pub_prims (pub_created # pub_events) = Inr (Some p) \<and> pj_state p = VectorPublished \<and> length (pj_entries p) = 2 \<and>
     (\<forall>e\<in>set (pj_entries p). pe_branch e \<noteq> None \<and> pe_pullRequest e \<noteq> None \<and> pe_crossLink e \<noteq> None)"
proof -
  have "map_sum id (map_option (\<lambda>p. (pj_state p, length (pj_entries p)))) (publicationHistory pub_prims (pub_created # pub_events)) = Inr (Some (VectorPublished, 2))"
    by code_simp
  then obtain p where p: "publicationHistory pub_prims (pub_created # pub_events) = Inr (Some p)" "pj_state p = VectorPublished" "length (pj_entries p) = 2"
    by (cases "publicationHistory pub_prims (pub_created # pub_events)") auto
  with publication_complete [OF pub_create p(1)] show ?thesis by blast
qed

definition pub_context :: "unit ScmMultiRepoPublicationContext" where
  "pub_context = \<lparr>sc_lifecycle = \<lparr>sy_publishBranch = (\<lambda>w _. (Some (ResAmbiguous ''busy''), w)), sy_publish = (\<lambda>w _. (Some ResCancelled, w)), sy_getPublication = (\<lambda>_ _. None)\<rparr>,
     sc_binding = \<lparr>sb_repositoryKey = ''r'', sb_remoteName = ''origin'', sb_expectedPushUrl = ''u'', sb_baseRef = ''refs/heads/main''\<rparr>,
     sc_taskId = ''t'', sc_taskGeneration = 1, sc_aborted = (\<lambda>_. False), sc_draft = None\<rparr>"

theorem publication_progress_witness:
  "\<exists>p p' e w'. publicationHistory pub_prims [pub_created] = Inr (Some p) \<and>
     reconcileMultiRepoPublicationOnce pub_prims (scmBridge [(''api'', pub_context)] None) p () = (Inr (Some e), w') \<and>
     applyMultiRepoPublicationEvent pub_prims (Some p) e = Inr p' \<and> steps_left p' \<le> steps_left p"
proof -
  have h: "publicationHistory pub_prims [pub_created] = Inr (Some (createdPublication pub_prims pub_created pub_plan))"
    by (simp add: publicationHistory_def pub_created_def applyMultiRepoPublicationEvent_def)
  let ?p = "createdPublication pub_prims pub_created pub_plan"
  have "case reconcileMultiRepoPublicationOnce pub_prims (scmBridge [(''api'', pub_context)] None) ?p () of (Inr (Some _), _) \<Rightarrow> True | _ \<Rightarrow> False"
    by code_simp
  then obtain e w' where r: "reconcileMultiRepoPublicationOnce pub_prims (scmBridge [(''api'', pub_context)] None) ?p () = (Inr (Some e), w')"
    by (auto split: prod.splits sum.splits option.splits)
  have "\<forall>a. obj_get (pj_eventIds ?p) (px_eventId pub_prims (lp_transactionId (pj_plan ?p)) (pj_version ?p) a) = None"
    by (simp add: createdPublication_def pub_created_def pub_prims_def)
  from publication_progress [where contexts = "[(''api'', pub_context)]" and writer = None and w = "()", OF pub_create h this] r h show ?thesis by auto
qed

end
