(* ===== verification/Run_Plan.thy ===== *)
theory Run_Plan
  imports Dag_Props Verification
begin

text \<open>
  The plan of a multi-repository run (\<open>materializeMultiRepositoryRunPlan\<close> of \<open>src/multirepo/orchestration.ts\<close>): the
  registry, the task graph, the execution of every task and the capabilities of roles and providers are checked together
  before anything is changed. Provisioning specifications are checked by \<open>validateProvisionSpecs\<close> of \<open>src/provision.ts\<close>.

  Parameters are the registry's probe and digest (\<open>DomainPrims\<close>), \<open>URL.canParse\<close> and the digest of the plan. Strings are
  over code points below 256.
\<close>

section \<open>Provisioning\<close>

record ProvisionSpec =
  prov_path :: string
  prov_requiredExecutables :: "string list option"

datatype ProvisionIssue = InvalidPath nat | OverlappingPath nat nat | InvalidExecutable nat nat | DuplicateExecutable nat nat

definition lowerChar :: "char \<Rightarrow> char" where
  "lowerChar c = (if is_upper c \<or> 192 \<le> char_code c \<and> char_code c \<le> 222 \<and> char_code c \<noteq> 215 then char_of (char_code c + 32) else c)"

definition toLower :: "string \<Rightarrow> string" where
  "toLower s = map lowerChar s"

definition trimAlias :: "string \<Rightarrow> string" where
  "trimAlias part = toLower (rev (dropWhile (\<lambda>c. c = CHR ''.'' \<or> c = CHR '' '') (rev part)))"

definition portablePath :: "string \<Rightarrow> bool" where
  "portablePath value \<longleftrightarrow> value \<noteq> [] \<and> \<not> list_ex (\<lambda>c. char_code c \<le> 31 \<or> char_code c = 127) value \<and> CHR 0x5C \<notin> set value \<and>
     \<not> startsWith value ''/'' \<and> \<not> (length value \<ge> 2 \<and> (is_upper (hd value) \<or> is_lower (hd value)) \<and> value ! 1 = CHR '':'') \<and>
     (let parts = split_on (CHR ''/'') value in
        list_all (\<lambda>part. part \<noteq> [] \<and> part \<noteq> ''.'' \<and> part \<noteq> ''..'') parts \<and> list_all (\<lambda>part. trimAlias part \<notin> {''.git'', ''.loop''}) parts)"

fun executableIssues :: "nat \<Rightarrow> nat \<Rightarrow> string list \<Rightarrow> string list \<Rightarrow> ProvisionIssue list" where
  "executableIssues i j seen [] = []"
| "executableIssues i j seen (x # xs) =
     (if \<not> portablePath x then InvalidExecutable i j # executableIssues i (Suc j) seen xs
      else (if toLower x \<in> set seen then [DuplicateExecutable i j] else []) @ executableIssues i (Suc j) (toLower x # seen) xs)"

definition pathsConflict :: "string \<Rightarrow> string \<Rightarrow> bool" where
  "pathsConflict candidate folded \<longleftrightarrow> candidate = folded \<or> startsWith candidate (folded @ ''/'') \<or> startsWith folded (candidate @ ''/'')"

fun provisionIssues :: "nat \<Rightarrow> (string \<times> nat) list \<Rightarrow> ProvisionSpec list \<Rightarrow> ProvisionIssue list" where
  "provisionIssues i prior [] = []"
| "provisionIssues i prior (spec # specs) =
     (let executables = executableIssues i 0 [] (case prov_requiredExecutables spec of None \<Rightarrow> [] | Some xs \<Rightarrow> xs) in
      if \<not> portablePath (prov_path spec) then InvalidPath i # executables @ provisionIssues (Suc i) prior specs
      else let folded = toLower (prov_path spec) in
        (case find (\<lambda>p. pathsConflict (fst p) folded) prior of None \<Rightarrow> [] | Some p \<Rightarrow> [OverlappingPath i (snd p)]) @
        executables @ provisionIssues (Suc i) (prior @ [(folded, i)]) specs)"

definition validateProvisionSpecs :: "ProvisionSpec list \<Rightarrow> ProvisionIssue list" where
  "validateProvisionSpecs specs = provisionIssues 0 [] specs"

section \<open>Requests and plans\<close>

record TaskEntryPlan =
  te_repositoryId :: string
  te_branch :: string
  te_targetRef :: string
  te_provision :: "ProvisionSpec list option"

record PublicationEntryConfig =
  pg_repositoryId :: string
  pg_publicationId :: string
  pg_remoteName :: string
  pg_expectedPushUrl :: string
  pg_remoteRef :: string
  pg_expectedRemoteOid :: "string option"
  pg_baseRef :: string
  pg_title :: string
  pg_body :: string

record PublicationConfig =
  pn_policyApproved :: bool
  pn_entries :: "PublicationEntryConfig list"

record TaskExecution =
  tx_taskId :: string
  tx_priority :: int
  tx_entries :: "TaskEntryPlan list"
  tx_verifyCommands :: "string list"
  tx_verifyEnvironment :: "string obj"
  tx_commitMessage :: string
  tx_publication :: "PublicationConfig option"

record CapabilityPlan =
  cp_roles :: "string list obj"
  cp_providers :: "string list obj"

record RunRequest =
  rq_runId :: string
  rq_runEpoch :: string
  rq_workspaceRoot :: string
  rq_repositoryDefinitions :: "RepositoryDefinition list"
  rq_tasks :: "MultiRepositoryTask list"
  rq_executions :: "TaskExecution list"
  rq_capabilities :: CapabilityPlan

record RunPlan =
  rn_runId :: string
  rn_runEpoch :: string
  rn_workspaceRoot :: string
  rn_registry :: RepositoryRegistry
  rn_dag :: MultiRepositoryDag
  rn_executions :: "TaskExecution list"
  rn_capabilities :: CapabilityPlan
  rn_planDigest :: string

datatype OrchestrationErrorCode =
    INVALID_PLAN | CANONICAL_IDENTITY_MISMATCH | CANONICAL_HISTORY_CORRUPT | CANONICAL_APPEND_FAILED | CAPABILITY_REFUSED | ADMISSION_REFUSED
  | WORKTREE_RECOVERY_REQUIRED | WORKER_RECOVERY_REQUIRED | INTEGRATION_RECOVERY_REQUIRED | PUBLICATION_RECOVERY_REQUIRED

text \<open>\<open>RunTypeErr\<close> is a failed non-null assertion.\<close>

datatype RunPlanFailure = RunError OrchestrationErrorCode | RunDomain MultiRepositoryDomainErrorCode | RunDag DagFailure | RunTypeErr

record RunPrims =
  rx_domain :: DomainPrims
  rx_canParseUrl :: "string \<Rightarrow> bool"
  rx_planDigest :: "RunPlan \<Rightarrow> string"

definition maximumRunEpochBytes :: nat where "maximumRunEpochBytes = 256"

section \<open>Checks\<close>

definition validBranch :: "string \<Rightarrow> bool" where
  "validBranch value \<longleftrightarrow> value \<noteq> [] \<and> utf8Bytes value \<le> 512 \<and> \<not> startsWith value ''-'' \<and> \<not> startsWith value ''/'' \<and>
     last value \<noteq> CHR ''/'' \<and> last value \<noteq> CHR ''.'' \<and> \<not> hasSubstring value ''..'' \<and> \<not> hasSubstring value [CHR ''@'', CHR 0x7B] \<and>
     \<not> hasSubstring value ''//'' \<and>
     \<not> list_ex (\<lambda>c. c \<in> set [CHR ''~'', CHR ''^'', CHR '':'', CHR ''?'', CHR ''*'', CHR ''['', CHR 0x5C, CHR '']''] \<or> char_code c \<le> 32 \<or> char_code c = 127) value"

definition pathsOverlap :: "string \<Rightarrow> string \<Rightarrow> bool" where
  "pathsOverlap left right = (let relation = relative left right in
     relation = [] \<or> relation \<noteq> ''..'' \<and> \<not> startsWith relation ''../'' \<and> \<not> isAbsolute relation)"

definition targetBranchOf :: "string \<Rightarrow> string" where
  "targetBranchOf ref = (if startsWith ref ''refs/heads/'' then drop 11 ref else [])"

definition entryPlanOk :: "RepositoryIdentity \<Rightarrow> TaskEntryPlan \<Rightarrow> bool" where
  "entryPlanOk repository entry \<longleftrightarrow> (let targetBranch = targetBranchOf (te_targetRef entry) in
     validBranch (te_branch entry) \<and> validBranch targetBranch \<and> targetBranch \<noteq> ri_defaultBranch repository \<and>
     targetBranch \<notin> set (ri_protectedBranches repository) \<and> te_branch entry \<noteq> targetBranch \<and>
     validateProvisionSpecs (case te_provision entry of None \<Rightarrow> [] | Some specs \<Rightarrow> specs) = [])"

definition publicationConfigOk :: "RunPrims \<Rightarrow> PublicationEntryConfig \<Rightarrow> bool" where
  "publicationConfigOk X e \<longleftrightarrow> isValidId (pg_publicationId e) \<and> pg_remoteName e \<noteq> [] \<and> list_all (\<lambda>c. is_alnum c \<or> c \<in> set ''._-'') (pg_remoteName e) \<and>
     rx_canParseUrl X (pg_expectedPushUrl e) \<and> startsWith (pg_remoteRef e) ''refs/heads/'' \<and> validBranch (drop 11 (pg_remoteRef e)) \<and>
     (case pg_expectedRemoteOid e of None \<Rightarrow> True | Some v \<Rightarrow> oidOk v) \<and> utf8Bytes (pg_title e) \<le> 512 \<and> utf8Bytes (pg_body e) \<le> 16 * 1024"

definition executionShapeOk :: "MaterializedTask \<Rightarrow> TaskExecution \<Rightarrow> bool" where
  "executionShapeOk task raw \<longleftrightarrow> tx_taskId raw = mt_taskId task \<and> - 1000 \<le> tx_priority raw \<and> tx_priority raw \<le> 1000 \<and>
     length (tx_entries raw) = length (mt_repositoryIds task) \<and> 1 \<le> length (tx_verifyCommands raw) \<and> length (tx_verifyCommands raw) \<le> 64 \<and>
     1 \<le> utf8Bytes (tx_commitMessage raw) \<and> utf8Bytes (tx_commitMessage raw) \<le> 8 * 1024 \<and> CHR 0x00 \<notin> set (tx_commitMessage raw)"

fun entriesCheck :: "RepositoryRegistry \<Rightarrow> TaskEntryPlan list \<Rightarrow> string list \<Rightarrow> RunPlanFailure + unit" where
  "entriesCheck registry entries [] = Inr ()"
| "entriesCheck registry entries (k # ks) =
     (case (find (\<lambda>e. te_repositoryId e = k) entries, map_of (rev (map (\<lambda>r. (ri_repositoryId r, r)) registry)) k) of
        (Some entry, Some repository) \<Rightarrow> if entryPlanOk repository entry then entriesCheck registry entries ks else Inl (RunError INVALID_PLAN)
      | _ \<Rightarrow> Inl RunTypeErr)"

definition publicationCheck :: "RunPrims \<Rightarrow> MaterializedTask \<Rightarrow> PublicationConfig \<Rightarrow> RunPlanFailure + unit" where
  "publicationCheck X task c = (let publicationIds = map pg_repositoryId (pn_entries c) in checks
     [(\<not> pn_policyApproved c \<or> length publicationIds \<noteq> length (mt_repositoryIds task) \<or> \<not> distinct publicationIds \<or>
         \<not> set (mt_repositoryIds task) \<subseteq> set publicationIds, RunError INVALID_PLAN),
      (\<not> list_all (publicationConfigOk X) (pn_entries c), RunError INVALID_PLAN)])"

definition validateExecution :: "RunPrims \<Rightarrow> RepositoryRegistry \<Rightarrow> MaterializedTask \<Rightarrow> TaskExecution \<Rightarrow> RunPlanFailure + TaskExecution" where
  "validateExecution X registry task raw =
     bind_res (checks
       [(\<not> executionShapeOk task raw, RunError INVALID_PLAN),
        (\<not> distinct (map te_repositoryId (tx_entries raw)) \<or> \<not> set (mt_repositoryIds task) \<subseteq> te_repositoryId ` set (tx_entries raw), RunError INVALID_PLAN)]) (\<lambda>_.
     bind_res (entriesCheck registry (tx_entries raw) (mt_repositoryIds task)) (\<lambda>_.
     bind_res (checks
       [(\<not> list_all verificationCommandOk (tx_verifyCommands raw), RunError INVALID_PLAN),
        (length (tx_verifyEnvironment raw) > 128 \<or>
           list_ex (\<lambda>(k, v). \<not> environmentKeyOk k \<or> utf8Bytes v > 16 * 1024 \<or> CHR 0x00 \<in> set v) (tx_verifyEnvironment raw), RunError INVALID_PLAN)]) (\<lambda>_.
     bind_res (case tx_publication raw of None \<Rightarrow> Inr () | Some c \<Rightarrow> publicationCheck X task c) (\<lambda>_. Inr raw))))"

section \<open>The run plan\<close>

definition planTask :: "RunPrims \<Rightarrow> RunRequest \<Rightarrow> RepositoryRegistry \<Rightarrow> MaterializedTask \<Rightarrow> RunPlanFailure + TaskExecution" where
  "planTask X request registry task =
     bind_res (require_some (RunError INVALID_PLAN) (find (\<lambda>x. tx_taskId x = mt_taskId task) (rq_executions request))) (\<lambda>raw.
     bind_res (require_some (RunError CAPABILITY_REFUSED) (obj_get (cp_roles (rq_capabilities request)) (mt_roleId task))) (\<lambda>role.
     bind_res (require_some (RunError CAPABILITY_REFUSED) (obj_get (cp_providers (rq_capabilities request)) (mt_providerId task))) (\<lambda>provider.
     bind_res (mapErr (\<lambda>_. RunError CAPABILITY_REFUSED) (assertRepositoryScope (mz_repositorySet task) role provider)) (\<lambda>_.
     validateExecution X registry task raw))))"

definition capabilityOk :: "RepositoryRegistry \<Rightarrow> string \<times> string list \<Rightarrow> bool" where
  "capabilityOk registry c = (case c of (key, value) \<Rightarrow> isValidId key \<and> 1 \<le> length value \<and> length value \<le> 64 \<and> distinct value \<and> set value \<subseteq> ri_repositoryId ` set registry)"

definition materializeMultiRepositoryRunPlan :: "RunPrims \<Rightarrow> RunRequest \<Rightarrow> RunPlanFailure + RunPlan" where
  "materializeMultiRepositoryRunPlan X request =
     bind_res (checks [(\<not> isValidId (rq_runId request) \<or> utf8Bytes (rq_runEpoch request) < 1 \<or> utf8Bytes (rq_runEpoch request) > maximumRunEpochBytes \<or>
       \<not> isAbsolute (rq_workspaceRoot request), RunError INVALID_PLAN)]) (\<lambda>_.
     let workspaceRoot = resolve (rq_workspaceRoot request) in
     bind_res (mapErr RunDomain (materializeRepositoryRegistry (rx_domain X) (rq_repositoryDefinitions request))) (\<lambda>registry.
     bind_res (checks [(list_ex (\<lambda>r. pathsOverlap (ri_canonicalRoot r) workspaceRoot \<or> pathsOverlap workspaceRoot (ri_canonicalRoot r)) registry, RunError INVALID_PLAN)]) (\<lambda>_.
     bind_res (mapErr RunDag (materializeMultiRepositoryDag (rx_domain X) registry (rq_tasks request))) (\<lambda>dag.
     bind_res (checks [(length (rq_executions request) \<noteq> length (dg_tasks dag) \<or> \<not> distinct (map tx_taskId (rq_executions request)), RunError INVALID_PLAN)]) (\<lambda>_.
     bind_res (mapRes (planTask X request registry) (dg_tasks dag)) (\<lambda>executions.
     bind_res (checks
       [(\<not> list_all (capabilityOk registry) (cp_roles (rq_capabilities request)), RunError CAPABILITY_REFUSED),
        (\<not> list_all (capabilityOk registry) (cp_providers (rq_capabilities request)), RunError CAPABILITY_REFUSED)]) (\<lambda>_.
     let core = \<lparr>rn_runId = rq_runId request, rn_runEpoch = rq_runEpoch request, rn_workspaceRoot = workspaceRoot, rn_registry = registry, rn_dag = dag,
                 rn_executions = executions, rn_capabilities = rq_capabilities request, rn_planDigest = []\<rparr> in
     Inr (core\<lparr>rn_planDigest := rx_planDigest X core\<rparr>))))))))"


section \<open>What an accepted plan authorises\<close>

text \<open>\<open>pathsOverlap\<close> recognises a directory and everything below it, without the exception of \<open>isNested\<close>.\<close>

lemma pathsOverlap_iff: "pathsOverlap l r \<longleftrightarrow> (\<exists>rest. segments r = segments l @ rest)"
proof -
  obtain as bs where sc: "stripCommon (segments l) (segments r) = (as, bs)" by fastforce
  obtain c where c: "segments l = c @ as" "segments r = c @ bs" using stripCommon_split [OF sc] by blast
  have rel: "relative l r = join_with (CHR ''/'') (map (\<lambda>_. ''..'') as @ bs)" by (simp add: relative_def sc)
  show ?thesis
  proof (cases as)
    case (Cons a as')
    have "\<not> pathsOverlap l r"
      using join_prefix [of "CHR ''/''" "''..''" "map (\<lambda>_. ''..'') as' @ bs"] by (auto simp: rel Cons startsWith_def pathsOverlap_def Let_def)
    moreover have "segments r \<noteq> segments l @ rest" for rest
      using sc Cons stripCommon_append [of "segments l" rest] by auto
    ultimately show ?thesis by blast
  next
    case Nil
    have "pathsOverlap l r"
    proof (cases bs)
      case (Cons s rest)
      have seg: "path_segment s" using segments_path [of s r] c(2) Cons by simp
      obtain t where t: "relative l r = s @ t" "t = [] \<and> rest = [] \<or> (\<exists>u. t = CHR ''/'' # u)"
        using join_prefix [of "CHR ''/''" s rest] by (auto simp: rel Nil Cons)
      show ?thesis using seg t
        by (cases s; cases "tl s"; cases "tl (tl s)") (auto simp: path_segment_def isAbsolute_def startsWith_def pathsOverlap_def Let_def)
    qed (simp add: pathsOverlap_def rel Nil)
    then show ?thesis using c Nil by auto
  qed
qed

lemma validBranch_nonempty: "validBranch b \<Longrightarrow> b \<noteq> []"
  by (simp add: validBranch_def)

lemma targetBranch_ref: "validBranch (targetBranchOf ref) \<Longrightarrow> ref = ''refs/heads/'' @ targetBranchOf ref"
proof -
  assume v: "validBranch (targetBranchOf ref)"
  then have s: "startsWith ref ''refs/heads/''" using validBranch_nonempty [OF v] by (auto simp: targetBranchOf_def split: if_splits)
  have "length ''refs/heads/'' = 11" by simp
  with s have "take 11 ref = ''refs/heads/''" unfolding startsWith_def by metis
  moreover have "targetBranchOf ref = drop 11 ref" using s by (simp add: targetBranchOf_def)
  ultimately show ?thesis by (metis append_take_drop_id)
qed

lemma entriesCheck_Inr:
  "entriesCheck reg es ks = Inr u \<Longrightarrow> k \<in> set ks \<Longrightarrow>
     \<exists>e \<in> set es. \<exists>r. map_of (rev (map (\<lambda>r. (ri_repositoryId r, r)) reg)) k = Some r \<and> te_repositoryId e = k \<and> entryPlanOk r e"
  by (induction ks) (auto split: option.splits if_splits dest!: find_member)

lemma registry_lookup:
  "map_of (rev (map (\<lambda>r. (ri_repositoryId r, r)) reg)) k = Some r \<Longrightarrow> r \<in> set reg \<and> ri_repositoryId r = k"
  by (drule map_of_SomeD) auto

lemma assertRepositoryScope_Inr:
  "assertRepositoryScope s role provider = Inr u \<longleftrightarrow> set (rs_repositoryIds s) \<subseteq> set role \<inter> set provider"
  by (auto simp: assertRepositoryScope_def first_err_None_iff split: option.splits if_splits dest!: first_err_Some)

lemma addTask_set:
  assumes "addTask P reg (ts, n) t = Inr (ts', m)"
  shows "\<exists>z. ts' = ts @ [z] \<and> rs_repositoryIds (mz_repositorySet z) = mt_repositoryIds z \<and> distinct (mt_repositoryIds z)"
  using assms by (auto simp: addTask_def Let_def domainResult_def materializeRepositorySet_def split: if_splits sum.splits)

definition sets_bound :: "MaterializedTask list \<times> nat \<Rightarrow> bool" where
  "sets_bound acc \<longleftrightarrow> (\<forall>z \<in> set (fst acc). rs_repositoryIds (mz_repositorySet z) = mt_repositoryIds z \<and> distinct (mt_repositoryIds z))"

interpretation taskReader: event_fold "addTask P registry" sets_bound for P registry
  by unfold_locales (use addTask_set in \<open>fastforce simp: sets_bound_def\<close>)

lemma dag_sets:
  assumes "materializeMultiRepositoryDag P reg raw = Inr dag" "t \<in> set (dg_tasks dag)"
  shows "rs_repositoryIds (mz_repositorySet t) = mt_repositoryIds t \<and> distinct (mt_repositoryIds t)"
proof -
  from assms(1) obtain tasks m where f: "fold_res (addTask P reg) ([], 0) raw = Inr (tasks, m)" and d: "dagOfTasks tasks m = Inr dag"
    by (auto simp: materializeMultiRepositoryDag_def split: if_splits)
  have "sets_bound (tasks, m)" by (rule taskReader.replay_inv [OF _ f]) (simp add: sets_bound_def)
  moreover have "set (dg_tasks dag) = set tasks" using d by (auto simp: dagOfTasks_def Let_def split: option.splits if_splits)
  ultimately show ?thesis using assms(2) by (simp add: sets_bound_def)
qed

text \<open>What one accepted task may touch, and where its result goes.\<close>

definition task_authorized :: "RunPlan \<Rightarrow> MaterializedTask \<Rightarrow> TaskExecution \<Rightarrow> bool" where
  "task_authorized plan task execution \<longleftrightarrow> tx_taskId execution = mt_taskId task \<and>
     (\<exists>role provider. obj_get (cp_roles (rn_capabilities plan)) (mt_roleId task) = Some role \<and>
        obj_get (cp_providers (rn_capabilities plan)) (mt_providerId task) = Some provider \<and>
        set (mt_repositoryIds task) \<subseteq> set role \<inter> set provider) \<and>
     te_repositoryId ` set (tx_entries execution) = set (mt_repositoryIds task) \<and> distinct (map te_repositoryId (tx_entries execution)) \<and>
     (\<forall>entry \<in> set (tx_entries execution). \<exists>repository \<in> set (rn_registry plan). ri_repositoryId repository = te_repositoryId entry \<and>
        (\<exists>branch. te_targetRef entry = ''refs/heads/'' @ branch \<and> branch \<noteq> ri_defaultBranch repository \<and>
           branch \<notin> set (ri_protectedBranches repository) \<and> branch \<noteq> te_branch entry))"

lemma validateExecution_same: "validateExecution X reg task raw = Inr ex \<Longrightarrow> ex = raw"
  by (auto simp: validateExecution_def)

lemma entryPlanOk_target:
  assumes "entryPlanOk r e"
  shows "\<exists>branch. te_targetRef e = ''refs/heads/'' @ branch \<and> branch \<noteq> ri_defaultBranch r \<and> branch \<notin> set (ri_protectedBranches r) \<and> branch \<noteq> te_branch e"
  using assms targetBranch_ref [of "te_targetRef e"] by (intro exI [of _ "targetBranchOf (te_targetRef e)"]) (auto simp: entryPlanOk_def Let_def)

lemma validateExecution_entries:
  assumes "validateExecution X reg task raw = Inr ex" "distinct (mt_repositoryIds task)"
  shows "tx_taskId ex = mt_taskId task" "te_repositoryId ` set (tx_entries ex) = set (mt_repositoryIds task)"
    "distinct (map te_repositoryId (tx_entries ex))"
    "\<forall>e \<in> set (tx_entries ex). \<exists>r \<in> set reg. ri_repositoryId r = te_repositoryId e \<and> entryPlanOk r e"
proof -
  note same = validateExecution_same [OF assms(1)]
  from assms(1) have shape: "executionShapeOk task raw" and d: "distinct (map te_repositoryId (tx_entries raw))"
    and sub: "set (mt_repositoryIds task) \<subseteq> te_repositoryId ` set (tx_entries raw)"
    and entries: "entriesCheck reg (tx_entries raw) (mt_repositoryIds task) = Inr ()"
    by (auto simp: validateExecution_def)
  show "tx_taskId ex = mt_taskId task" "distinct (map te_repositoryId (tx_entries ex))" using shape d same by (simp_all add: executionShapeOk_def)
  have l: "card (set (mt_repositoryIds task)) = card (te_repositoryId ` set (tx_entries raw))"
    using distinct_card [OF assms(2)] distinct_card [OF d] shape by (simp add: executionShapeOk_def)
  have ids: "set (mt_repositoryIds task) = te_repositoryId ` set (tx_entries raw)" by (rule card_subset_eq [OF _ sub l]) simp
  then show "te_repositoryId ` set (tx_entries ex) = set (mt_repositoryIds task)" using same by simp
  show "\<forall>e \<in> set (tx_entries ex). \<exists>r \<in> set reg. ri_repositoryId r = te_repositoryId e \<and> entryPlanOk r e"
  proof
    fix e assume e: "e \<in> set (tx_entries ex)"
    then have "te_repositoryId e \<in> set (mt_repositoryIds task)" using ids same by simp
    then obtain e' r where r: "e' \<in> set (tx_entries raw)" "map_of (rev (map (\<lambda>r. (ri_repositoryId r, r)) reg)) (te_repositoryId e) = Some r"
        "te_repositoryId e' = te_repositoryId e" "entryPlanOk r e'" using entriesCheck_Inr [OF entries] by blast
    have "e' = e" using d e r(1,3) same by (auto simp: distinct_map dest: inj_onD)
    then show "\<exists>r \<in> set reg. ri_repositoryId r = te_repositoryId e \<and> entryPlanOk r e" using registry_lookup [OF r(2)] r(4) by blast
  qed
qed

lemma planTask_authorized:
  assumes "planTask X request reg task = Inr ex" "distinct (mt_repositoryIds task)" "rs_repositoryIds (mz_repositorySet task) = mt_repositoryIds task"
    "rn_registry plan = reg" "rn_capabilities plan = rq_capabilities request"
  shows "task_authorized plan task ex"
proof -
  from assms(1) obtain raw role provider u where
      cap: "obj_get (cp_roles (rq_capabilities request)) (mt_roleId task) = Some role" "obj_get (cp_providers (rq_capabilities request)) (mt_providerId task) = Some provider"
    and scope: "assertRepositoryScope (mz_repositorySet task) role provider = Inr u" and v: "validateExecution X reg task raw = Inr ex"
    by (auto simp: planTask_def)
  note ve = validateExecution_entries [OF v assms(2)]
  have "set (mt_repositoryIds task) \<subseteq> set role \<inter> set provider" using scope assms(3) by (simp add: assertRepositoryScope_Inr)
  moreover have "\<exists>repository \<in> set reg. ri_repositoryId repository = te_repositoryId e \<and>
        (\<exists>branch. te_targetRef e = ''refs/heads/'' @ branch \<and> branch \<noteq> ri_defaultBranch repository \<and>
           branch \<notin> set (ri_protectedBranches repository) \<and> branch \<noteq> te_branch e)" if "e \<in> set (tx_entries ex)" for e
    using ve(4) that entryPlanOk_target by blast
  ultimately show ?thesis using cap ve(1-3) unfolding task_authorized_def assms(4,5) by blast
qed

text \<open>
  C26. A run plan is accepted only when every task stays within what it was granted: the executions are those of the
  graph's tasks in order, each task's repositories are in the capabilities of its role and of its provider, and each
  of its results goes to one entry per repository whose target is a branch of that repository, neither its default
  branch nor a protected one nor the branch the agent works on. The private workspace and the repositories' directories
  lie outside each other, and no capability names a repository outside the registry.
\<close>

theorem run_plan_authorized:
  assumes "materializeMultiRepositoryRunPlan X request = Inr plan"
  shows "list_all2 (task_authorized plan) (dg_tasks (rn_dag plan)) (rn_executions plan) \<and>
    (\<forall>repository \<in> set (rn_registry plan). \<forall>below. segments (rn_workspaceRoot plan) \<noteq> segments (ri_canonicalRoot repository) @ below \<and>
       segments (ri_canonicalRoot repository) \<noteq> segments (rn_workspaceRoot plan) @ below) \<and>
    (\<forall>c \<in> set (cp_roles (rn_capabilities plan)) \<union> set (cp_providers (rn_capabilities plan)).
       set (snd c) \<subseteq> ri_repositoryId ` set (rn_registry plan))"
proof -
  from assms obtain reg dag exs where p: "rn_registry plan = reg" "rn_dag plan = dag" "rn_executions plan = exs"
      "rn_capabilities plan = rq_capabilities request" "rn_workspaceRoot plan = resolve (rq_workspaceRoot request)"
    and paths: "\<not> list_ex (\<lambda>r. pathsOverlap (ri_canonicalRoot r) (resolve (rq_workspaceRoot request)) \<or> pathsOverlap (resolve (rq_workspaceRoot request)) (ri_canonicalRoot r)) reg"
    and dag: "materializeMultiRepositoryDag (rx_domain X) reg (rq_tasks request) = Inr dag"
    and exs: "mapRes (planTask X request reg) (dg_tasks dag) = Inr exs"
    and caps: "list_all (capabilityOk reg) (cp_roles (rq_capabilities request))" "list_all (capabilityOk reg) (cp_providers (rq_capabilities request))"
    by (auto simp: materializeMultiRepositoryRunPlan_def Let_def)
  have "list_all2 (task_authorized plan) (dg_tasks dag) exs"
  proof (rule list.rel_mono_strong [OF exs [unfolded mapRes_Inr]])
    fix t ex assume "t \<in> set (dg_tasks dag)" "planTask X request reg t = Inr ex"
    with dag_sets [OF dag] planTask_authorized [OF _ _ _ p(1,4)] show "task_authorized plan t ex" by blast
  qed
  moreover have "\<forall>r \<in> set reg. \<forall>below. segments (rn_workspaceRoot plan) \<noteq> segments (ri_canonicalRoot r) @ below \<and>
       segments (ri_canonicalRoot r) \<noteq> segments (rn_workspaceRoot plan) @ below"
    using paths unfolding p(5) list_ex_iff pathsOverlap_iff by blast
  moreover have "\<forall>c \<in> set (cp_roles (rn_capabilities plan)) \<union> set (cp_providers (rn_capabilities plan)). set (snd c) \<subseteq> ri_repositoryId ` set reg"
    using caps unfolding p(4) list_all_iff capabilityOk_def by fastforce
  ultimately show ?thesis unfolding p(1-3) by blast
qed

definition plan_entry :: TaskEntryPlan where
  "plan_entry = \<lparr>te_repositoryId = ''api'', te_branch = ''agent/ship'', te_targetRef = ''refs/heads/integration'', te_provision = None\<rparr>"

definition plan_execution :: "string \<Rightarrow> TaskExecution" where
  "plan_execution k = \<lparr>tx_taskId = k, tx_priority = 0, tx_entries = [plan_entry], tx_verifyCommands = [''make''], tx_verifyEnvironment = [],
     tx_commitMessage = ''ship'', tx_publication = None\<rparr>"

definition plan_request :: RunRequest where
  "plan_request = \<lparr>rq_runId = ''r1'', rq_runEpoch = ''e1'', rq_workspaceRoot = ''/tmp/ws'',
     rq_repositoryDefinitions = [sample_definition ''web'', sample_definition ''api''], rq_tasks = [sample_task ''ship'' []],
     rq_executions = [plan_execution ''ship''], rq_capabilities = \<lparr>cp_roles = [(''dev'', [''api''])], cp_providers = [(''claude'', [''api'', ''web''])]\<rparr>\<rparr>"

definition plan_prims :: RunPrims where
  "plan_prims = \<lparr>rx_domain = sample_domain, rx_canParseUrl = (\<lambda>_. False), rx_planDigest = rn_runId\<rparr>"

theorem run_plan_authorized_witness:
  "\<exists>plan. materializeMultiRepositoryRunPlan plan_prims plan_request = Inr plan \<and> rn_executions plan = [plan_execution ''ship''] \<and>
     list_all2 (task_authorized plan) (dg_tasks (rn_dag plan)) (rn_executions plan)"
proof -
  have "(case materializeMultiRepositoryRunPlan plan_prims plan_request of Inl _ \<Rightarrow> None | Inr plan \<Rightarrow> Some (rn_executions plan)) =
      Some [plan_execution ''ship'']" by code_simp
  then obtain plan where "materializeMultiRepositoryRunPlan plan_prims plan_request = Inr plan" "rn_executions plan = [plan_execution ''ship'']"
    by (auto split: sum.splits)
  with run_plan_authorized [OF this(1)] show ?thesis by blast
qed

end
