(* ===== verification/Canonical.thy ===== *)
theory Canonical
  imports Scheduler_Props Integration_Props Publication_Props Run_Plan
begin

text \<open>
  The canonical history of a multi-repository run (\<open>src/multirepo/orchestration.ts\<close>): the facts the run's control
  store keeps, their closed wire schema, the strict replay \<open>projectMultiRepositoryCanonicalFacts\<close>, which runs the
  scheduler, the integration transactions and the publications and fences every other fact by the exact lease, and
  the compare-and-swap append with its receipt check (\<open>readCanonical\<close>, \<open>appendCanonical\<close>).

  Digests, zod's URL and date-time tests, the text of a reason and the journal are parameters.
\<close>

section \<open>Facts\<close>

datatype WorktreeGroupState = GroupCreating | GroupReady | GroupRollingBack | GroupReclaiming | GroupRecoveryRequired | GroupReclaimed

record WorkerMember =
  wm_repositoryId :: string
  wm_path :: string
  wm_branch :: string
  wm_anchorOid :: string

record WorkerSettlement =
  ws_processIdentity :: string
  ws_settlementCallId :: string
  ws_outputDigest :: string
  ws_summary :: string
  ws_transportTrusted :: bool
  ws_scopeTrusted :: bool
  ws_scopeReaped :: bool
  ws_settlementTrusted :: bool

record WorktreeFact =
  wf_factId :: string
  wf_taskId :: string
  wf_taskGeneration :: int
  wf_leaseToken :: string
  wf_groupRoot :: string
  wf_groupId :: string
  wf_repositorySetId :: string
  wf_state :: WorktreeGroupState
  wf_receiptDigest :: string
  wf_members :: "WorkerMember list"
  wf_issueCodes :: "string list"

record WorkerFact =
  kf_factId :: string
  kf_taskId :: string
  kf_taskGeneration :: int
  kf_attemptId :: string
  kf_leaseToken :: string
  kf_settlement :: WorkerSettlement

record CommitIntentFact =
  ci_factId :: string
  ci_taskId :: string
  ci_taskGeneration :: int
  ci_attemptId :: string
  ci_leaseToken :: string
  ci_repositoryId :: string
  ci_branchRef :: string
  ci_expectedOid :: string
  ci_treeOid :: string
  ci_message :: string

record HeadFact =
  hf_factId :: string
  hf_taskId :: string
  hf_taskGeneration :: int
  hf_attemptId :: string
  hf_leaseToken :: string
  hf_repositoryId :: string
  hf_branchRef :: string
  hf_expectedOid :: string
  hf_childOid :: string
  hf_treeOid :: string

record LocalReceiptFact =
  lf_factId :: string
  lf_taskId :: string
  lf_taskGeneration :: int
  lf_leaseToken :: string
  lf_transactionId :: string
  lf_repositorySetId :: string
  lf_verificationReceiptDigest :: string
  lf_appliedEntriesDigest :: string
  lf_receiptDigest :: string

datatype CanonicalFact =
    PlanFact string RunPlan
  | SchedulerFact string SchedulerEvent
  | WorktreeGroupFact WorktreeFact
  | WorkerSettledFact WorkerFact
  | IntentFact CommitIntentFact
  | HeadRecordedFact HeadFact
  | IntegrationFact string string int string IntegrationEvent
  | ReceiptFact LocalReceiptFact
  | PublicationFact string string int PublicationEvent

definition cf_factId :: "CanonicalFact \<Rightarrow> string" where
  "cf_factId f = (case f of PlanFact k _ \<Rightarrow> k | SchedulerFact k _ \<Rightarrow> k | WorktreeGroupFact r \<Rightarrow> wf_factId r | WorkerSettledFact r \<Rightarrow> kf_factId r
     | IntentFact r \<Rightarrow> ci_factId r | HeadRecordedFact r \<Rightarrow> hf_factId r | IntegrationFact k _ _ _ _ \<Rightarrow> k | ReceiptFact r \<Rightarrow> lf_factId r
     | PublicationFact k _ _ _ \<Rightarrow> k)"

record CanonicalPrims =
  cx_run :: RunPrims
  cx_scheduler :: SchedulerPrims
  cx_integration :: IntegrationPrims
  cx_publication :: PublicationPrims
  cx_datetime :: "string \<Rightarrow> bool"
  cx_reasonText :: "IntegrationReason \<Rightarrow> string"
  cx_factDigest :: "CanonicalFact \<Rightarrow> string"
  cx_receiptDigest :: "string \<times> string \<times> string \<times> string \<Rightarrow> string"
  cx_appliedDigest :: "(string \<times> string option \<times> AppliedResult option) list \<Rightarrow> string"

section \<open>The wire schema of integration events\<close>

text \<open>\<open>maxItems\<close> is zod's \<open>max\<close> of an array.\<close>

definition maxItems :: "int \<Rightarrow> 'a list \<Rightarrow> bool" where
  "maxItems n xs \<longleftrightarrow> int (length xs) \<le> n"

definition integrationEntryPlanSchemaOk :: "IntegrationEntryPlan \<Rightarrow> bool" where
  "integrationEntryPlanSchemaOk e \<longleftrightarrow> identityOk (ip_repository e) \<and> textOk 1 512 (ip_targetRef e) \<and> oidOk (ip_expectedOid e) \<and> oidOk (ip_childOid e) \<and>
     textOk 1 4096 (ip_canonicalWorkspacePath e) \<and> textOk 1 (8 * 1024) (ip_message e)"

definition environmentSchemaOk :: "string obj \<Rightarrow> bool" where
  "environmentSchemaOk env \<longleftrightarrow> list_all (\<lambda>(k, v). environmentKeyOk k \<and> textOk 0 (16 * 1024) v) env"

definition integrationPlanSchemaOk :: "IntegrationPlan \<Rightarrow> bool" where
  "integrationPlanSchemaOk p \<longleftrightarrow> ID_PATTERN (np_transactionId p) \<and> isSha256Hex (np_repositorySetId p) \<and>
     np_entries p \<noteq> [] \<and> maxItems 32 (np_entries p) \<and> list_all integrationEntryPlanSchemaOk (np_entries p) \<and>
     np_verifyCommands p \<noteq> [] \<and> maxItems 64 (np_verifyCommands p) \<and> list_all (textOk 1 4096) (np_verifyCommands p) \<and> environmentSchemaOk (np_verifyEnvironment p)"

definition candidateSchemaOk :: "RepositoryCandidate \<Rightarrow> bool" where
  "candidateSchemaOk c \<longleftrightarrow> ID_PATTERN (rc_repositoryId c) \<and> textOk 1 512 (rc_targetRef c) \<and> oidOk (rc_expectedOid c) \<and> oidOk (rc_childOid c) \<and>
     oidOk (rc_candidateOid c) \<and> oidOk (rc_treeOid c) \<and> oidOk (fst (rc_parents c)) \<and> oidOk (snd (rc_parents c))"

definition verificationReceiptSchemaOk :: "CanonicalPrims \<Rightarrow> CombinedVerificationReceipt \<Rightarrow> bool" where
  "verificationReceiptSchemaOk X r \<longleftrightarrow> ID_PATTERN (cvr_transactionId r) \<and> isSha256Hex (cvr_repositorySetId r) \<and> isSha256Hex (cvr_manifestDigest r) \<and>
     cx_datetime X (cvr_verifiedAt r) \<and> maxItems 64 (cvr_resultDigests r) \<and> list_all isSha256Hex (cvr_resultDigests r) \<and> isSha256Hex (cvr_receiptDigest r)"

definition integrationBodySchemaOk :: "CanonicalPrims \<Rightarrow> IntegrationBody \<Rightarrow> bool" where
  "integrationBodySchemaOk X b = (case b of
     IntegrationCreated plan \<Rightarrow> integrationPlanSchemaOk plan
   | CandidatePrepared k c \<Rightarrow> ID_PATTERN k \<and> candidateSchemaOk c
   | IntegrationVerified r \<Rightarrow> verificationReceiptSchemaOk X r
   | EntryApplied k r \<Rightarrow> ID_PATTERN k \<and> oidOk (appliedOid r)
   | CompensationStarted reason \<Rightarrow> textOk 0 (16 * 1024) (cx_reasonText X reason)
   | EntryCompensated k r \<Rightarrow> ID_PATTERN k \<and> oidOk (compensatedOid r)
   | IntegrationRecoveryRequired reason k observed \<Rightarrow> textOk 0 (16 * 1024) (cx_reasonText X reason) \<and>
       (case k of None \<Rightarrow> True | Some v \<Rightarrow> ID_PATTERN v) \<and> (case observed of Some (Some v) \<Rightarrow> oidOk v | _ \<Rightarrow> True)
   | _ \<Rightarrow> True)"

definition parseMultiRepoIntegrationEvent :: "CanonicalPrims \<Rightarrow> IntegrationEvent \<Rightarrow> bool" where
  "parseMultiRepoIntegrationEvent X e \<longleftrightarrow> ID_PATTERN (iv_eventId e) \<and> ID_PATTERN (iv_transactionId e) \<and> 0 \<le> iv_expectedVersion e \<and>
     iv_expectedVersion e \<le> MAX_SAFE_INTEGER \<and> integrationBodySchemaOk X (iv_body e)"

section \<open>The wire schema of facts\<close>

definition canonicalLeaseOk :: "string \<Rightarrow> bool" where
  "canonicalLeaseOk s \<longleftrightarrow> textOk 16 128 s \<and> is_alnum (hd s) \<and> list_all (\<lambda>c. is_alnum c \<or> c \<in> set ''._:-'') (tl s)"

definition canonicalPathOk :: "string \<Rightarrow> bool" where
  "canonicalPathOk s = textOk 1 4096 s"

definition canonicalRefOk :: "string \<Rightarrow> bool" where
  "canonicalRefOk s = textOk 1 512 s"

definition provisionSpecSchemaOk :: "ProvisionSpec \<Rightarrow> bool" where
  "provisionSpecSchemaOk s \<longleftrightarrow> canonicalPathOk (prov_path s) \<and>
     (case prov_requiredExecutables s of None \<Rightarrow> True | Some xs \<Rightarrow> maxItems 64 xs \<and> list_all canonicalPathOk xs)"

definition repositorySetSchemaOk :: "RepositorySet \<Rightarrow> bool" where
  "repositorySetSchemaOk s \<longleftrightarrow> rs_repositoryIds s \<noteq> [] \<and> maxItems 32 (rs_repositoryIds s) \<and> list_all isValidId (rs_repositoryIds s) \<and> isSha256Hex (rs_repositorySetId s)"

definition materializedTaskSchemaOk :: "MaterializedTask \<Rightarrow> bool" where
  "materializedTaskSchemaOk t \<longleftrightarrow> taskSchemaOk (MultiRepositoryTask.truncate t) \<and> repositorySetSchemaOk (mz_repositorySet t)"

definition dagSchemaOk :: "MultiRepositoryDag \<Rightarrow> bool" where
  "dagSchemaOk d \<longleftrightarrow> dg_tasks d \<noteq> [] \<and> maxItems 4096 (dg_tasks d) \<and> list_all materializedTaskSchemaOk (dg_tasks d) \<and>
     dg_order d \<noteq> [] \<and> maxItems 4096 (dg_order d) \<and> list_all isValidId (dg_order d) \<and>
     dg_layers d \<noteq> [] \<and> maxItems 256 (dg_layers d) \<and> list_all (\<lambda>l. l \<noteq> [] \<and> maxItems 4096 l \<and> list_all isValidId l) (dg_layers d) \<and>
     list_all (\<lambda>(k, v). isValidId k \<and> maxItems 4096 v \<and> list_all isValidId v) (dg_dependents d) \<and>
     list_all (\<lambda>(k, v). isValidId k \<and> int v \<le> 256) (dg_depthByTask d) \<and> int (dg_edgeCount d) \<le> 16384"

definition taskEntryPlanSchemaOk :: "TaskEntryPlan \<Rightarrow> bool" where
  "taskEntryPlanSchemaOk e \<longleftrightarrow> isValidId (te_repositoryId e) \<and> canonicalRefOk (te_branch e) \<and> canonicalRefOk (te_targetRef e) \<and>
     (case te_provision e of None \<Rightarrow> True | Some specs \<Rightarrow> maxItems 128 specs \<and> list_all provisionSpecSchemaOk specs)"

definition publicationEntryConfigSchemaOk :: "CanonicalPrims \<Rightarrow> PublicationEntryConfig \<Rightarrow> bool" where
  "publicationEntryConfigSchemaOk X e \<longleftrightarrow> isValidId (pg_repositoryId e) \<and> isValidId (pg_publicationId e) \<and> textOk 1 256 (pg_remoteName e) \<and>
     px_zodUrl (cx_publication X) (pg_expectedPushUrl e) \<and> textOk 0 4096 (pg_expectedPushUrl e) \<and> canonicalRefOk (pg_remoteRef e) \<and>
     (case pg_expectedRemoteOid e of None \<Rightarrow> True | Some v \<Rightarrow> oidOk v) \<and> canonicalRefOk (pg_baseRef e) \<and> textOk 0 512 (pg_title e) \<and> textOk 0 (16 * 1024) (pg_body e)"

definition executionSchemaOk :: "CanonicalPrims \<Rightarrow> TaskExecution \<Rightarrow> bool" where
  "executionSchemaOk X x \<longleftrightarrow> isValidId (tx_taskId x) \<and> - 1000 \<le> tx_priority x \<and> tx_priority x \<le> 1000 \<and>
     tx_entries x \<noteq> [] \<and> maxItems 32 (tx_entries x) \<and> list_all taskEntryPlanSchemaOk (tx_entries x) \<and>
     tx_verifyCommands x \<noteq> [] \<and> maxItems 64 (tx_verifyCommands x) \<and> list_all (textOk 1 4096) (tx_verifyCommands x) \<and>
     environmentSchemaOk (tx_verifyEnvironment x) \<and> textOk 1 (8 * 1024) (tx_commitMessage x) \<and>
     (case tx_publication x of None \<Rightarrow> True | Some c \<Rightarrow> pn_policyApproved c \<and> pn_entries c \<noteq> [] \<and> maxItems 32 (pn_entries c) \<and>
        list_all (publicationEntryConfigSchemaOk X) (pn_entries c))"

definition capabilitiesSchemaOk :: "string list obj \<Rightarrow> bool" where
  "capabilitiesSchemaOk c \<longleftrightarrow> list_all (\<lambda>(k, v). isValidId k \<and> v \<noteq> [] \<and> maxItems 64 v \<and> list_all isValidId v) c"

definition materializedPlanSchemaOk :: "CanonicalPrims \<Rightarrow> RunPlan \<Rightarrow> bool" where
  "materializedPlanSchemaOk X p \<longleftrightarrow> isValidId (rn_runId p) \<and> textOk 1 (int maximumRunEpochBytes) (rn_runEpoch p) \<and> canonicalPathOk (rn_workspaceRoot p) \<and>
     rn_registry p \<noteq> [] \<and> maxItems 64 (rn_registry p) \<and> list_all identityOk (rn_registry p) \<and> dagSchemaOk (rn_dag p) \<and>
     rn_executions p \<noteq> [] \<and> maxItems 4096 (rn_executions p) \<and> list_all (executionSchemaOk X) (rn_executions p) \<and>
     capabilitiesSchemaOk (cp_roles (rn_capabilities p)) \<and> capabilitiesSchemaOk (cp_providers (rn_capabilities p)) \<and> isSha256Hex (rn_planDigest p)"

definition workerMemberSchemaOk :: "WorkerMember \<Rightarrow> bool" where
  "workerMemberSchemaOk m \<longleftrightarrow> isValidId (wm_repositoryId m) \<and> canonicalPathOk (wm_path m) \<and> canonicalRefOk (wm_branch m) \<and> oidOk (wm_anchorOid m)"

definition settlementSchemaOk :: "WorkerSettlement \<Rightarrow> bool" where
  "settlementSchemaOk s \<longleftrightarrow> textOk 1 512 (ws_processIdentity s) \<and> textOk 1 512 (ws_settlementCallId s) \<and> isSha256Hex (ws_outputDigest s) \<and> textOk 0 (8 * 1024) (ws_summary s)"

definition fenceSchemaOk :: "string \<Rightarrow> int \<Rightarrow> string \<Rightarrow> bool" where
  "fenceSchemaOk taskId taskGeneration token \<longleftrightarrow> isValidId taskId \<and> versionOk taskGeneration \<and> canonicalLeaseOk token"

definition parseMultiRepositoryCanonicalFact :: "CanonicalPrims \<Rightarrow> CanonicalFact \<Rightarrow> bool" where
  "parseMultiRepositoryCanonicalFact X f \<longleftrightarrow> isValidId (cf_factId f) \<and> (case f of
     PlanFact _ plan \<Rightarrow> materializedPlanSchemaOk X plan
   | SchedulerFact _ e \<Rightarrow> parseMultiRepoSchedulerEvent (cx_scheduler X) e
   | WorktreeGroupFact r \<Rightarrow> fenceSchemaOk (wf_taskId r) (wf_taskGeneration r) (wf_leaseToken r) \<and> canonicalPathOk (wf_groupRoot r) \<and> isValidId (wf_groupId r) \<and>
       isSha256Hex (wf_repositorySetId r) \<and> isSha256Hex (wf_receiptDigest r) \<and> maxItems 32 (wf_members r) \<and> list_all workerMemberSchemaOk (wf_members r) \<and>
       maxItems 128 (wf_issueCodes r) \<and> list_all isValidId (wf_issueCodes r)
   | WorkerSettledFact r \<Rightarrow> fenceSchemaOk (kf_taskId r) (kf_taskGeneration r) (kf_leaseToken r) \<and> isValidId (kf_attemptId r) \<and> settlementSchemaOk (kf_settlement r)
   | IntentFact r \<Rightarrow> fenceSchemaOk (ci_taskId r) (ci_taskGeneration r) (ci_leaseToken r) \<and> isValidId (ci_attemptId r) \<and> isValidId (ci_repositoryId r) \<and>
       canonicalRefOk (ci_branchRef r) \<and> oidOk (ci_expectedOid r) \<and> oidOk (ci_treeOid r) \<and> textOk 1 (8 * 1024) (ci_message r)
   | HeadRecordedFact r \<Rightarrow> fenceSchemaOk (hf_taskId r) (hf_taskGeneration r) (hf_leaseToken r) \<and> isValidId (hf_attemptId r) \<and> isValidId (hf_repositoryId r) \<and>
       canonicalRefOk (hf_branchRef r) \<and> oidOk (hf_expectedOid r) \<and> oidOk (hf_childOid r) \<and> oidOk (hf_treeOid r)
   | IntegrationFact _ k g token e \<Rightarrow> fenceSchemaOk k g token \<and> parseMultiRepoIntegrationEvent X e
   | ReceiptFact r \<Rightarrow> fenceSchemaOk (lf_taskId r) (lf_taskGeneration r) (lf_leaseToken r) \<and> isValidId (lf_transactionId r) \<and> isSha256Hex (lf_repositorySetId r) \<and>
       isSha256Hex (lf_verificationReceiptDigest r) \<and> isSha256Hex (lf_appliedEntriesDigest r) \<and> isSha256Hex (lf_receiptDigest r)
   | PublicationFact _ k g e \<Rightarrow> isValidId k \<and> versionOk g \<and> parseMultiRepoPublicationEvent (cx_publication X) e)"

section \<open>Replay\<close>

record CanonicalProjection =
  cj_plan :: "RunPlan option"
  cj_scheduler :: SchedulerProjection
  cj_worktreeGroups :: "WorktreeFact obj"
  cj_workers :: "WorkerFact obj"
  cj_commitIntents :: "CommitIntentFact obj"
  cj_heads :: "HeadFact obj"
  cj_integrations :: "IntegrationProjection obj"
  cj_localReceipts :: "LocalReceiptFact obj"
  cj_publications :: "PublicationProjection obj"
  cj_seenFactIds :: "string obj"

definition emptyCanonicalProjection :: CanonicalProjection where
  "emptyCanonicalProjection = \<lparr>cj_plan = None, cj_scheduler = emptyProjection, cj_worktreeGroups = [], cj_workers = [], cj_commitIntents = [],
     cj_heads = [], cj_integrations = [], cj_localReceipts = [], cj_publications = [], cj_seenFactIds = []\<rparr>"

text \<open>What replay may throw: an orchestration error, or the error of the reducer it calls.\<close>

datatype CanonicalFailure =
    CanonicalError OrchestrationErrorCode | FromScheduler SchedulerErrorCode | FromIntegration MultiRepoIntegrationErrorCode
  | FromPublication MultiRepoPublicationErrorCode

abbreviation corrupt :: CanonicalFailure where
  "corrupt \<equiv> CanonicalError CANONICAL_HISTORY_CORRUPT"

definition taskRepositoryKey :: "string \<Rightarrow> string \<Rightarrow> string" where
  "taskRepositoryKey taskId repositoryId = taskId @ [CHR 0x00] @ repositoryId"

definition leaseFenced :: "SchedulerProjection \<Rightarrow> string \<Rightarrow> int \<Rightarrow> string \<Rightarrow> bool" where
  "leaseFenced sq taskId taskGeneration token = (case obj_get (sq_tasks sq) taskId of None \<Rightarrow> False
     | Some t \<Rightarrow> sk_taskGeneration t = taskGeneration \<and> leaseToken t = Some token)"

definition attemptFenced :: "SchedulerProjection \<Rightarrow> string \<Rightarrow> int \<Rightarrow> string \<Rightarrow> string \<Rightarrow> bool" where
  "attemptFenced sq taskId taskGeneration token attemptId = (case obj_get (sq_tasks sq) taskId of None \<Rightarrow> False
     | Some t \<Rightarrow> sk_taskGeneration t = taskGeneration \<and> leaseToken t = Some token \<and> map_option (\<lambda>l. lg_attemptId (sl_grant l)) (sk_lease t) = Some attemptId)"

definition onPlan :: "CanonicalPrims \<Rightarrow> CanonicalProjection \<Rightarrow> RunPlan \<Rightarrow> CanonicalFailure + CanonicalProjection" where
  "onPlan X p plan = bind_res (checks [(cj_plan p \<noteq> None \<or> rn_planDigest plan \<noteq> rx_planDigest (cx_run X) (plan\<lparr>rn_planDigest := []\<rparr>), corrupt)])
     (\<lambda>_. Inr (p\<lparr>cj_plan := Some plan\<rparr>))"

definition onScheduler :: "CanonicalPrims \<Rightarrow> CanonicalProjection \<Rightarrow> SchedulerEvent \<Rightarrow> CanonicalFailure + CanonicalProjection" where
  "onScheduler X p e = bind_res (checks [(cj_plan p = None, corrupt)]) (\<lambda>_.
     bind_res (mapErr FromScheduler (applyMultiRepoSchedulerEvent (cx_scheduler X) (cj_scheduler p) e)) (\<lambda>sq. Inr (p\<lparr>cj_scheduler := sq\<rparr>)))"

definition onWorktreeGroup :: "CanonicalProjection \<Rightarrow> WorktreeFact \<Rightarrow> CanonicalFailure + CanonicalProjection" where
  "onWorktreeGroup p r = bind_res (checks
     [(\<not> leaseFenced (cj_scheduler p) (wf_taskId r) (wf_taskGeneration r) (wf_leaseToken r) \<or>
         map_option sk_repositorySetId (obj_get (sq_tasks (cj_scheduler p)) (wf_taskId r)) \<noteq> Some (wf_repositorySetId r), corrupt)])
     (\<lambda>_. Inr (p\<lparr>cj_worktreeGroups := obj_set (wf_taskId r) r (cj_worktreeGroups p)\<rparr>))"

definition onWorkerSettled :: "CanonicalProjection \<Rightarrow> WorkerFact \<Rightarrow> CanonicalFailure + CanonicalProjection" where
  "onWorkerSettled p r = bind_res (checks [(\<not> attemptFenced (cj_scheduler p) (kf_taskId r) (kf_taskGeneration r) (kf_leaseToken r) (kf_attemptId r), corrupt)])
     (\<lambda>_. Inr (p\<lparr>cj_workers := obj_set (kf_taskId r) r (cj_workers p)\<rparr>))"

definition onCommitIntent :: "CanonicalPrims \<Rightarrow> CanonicalProjection \<Rightarrow> CommitIntentFact \<Rightarrow> CanonicalFailure + CanonicalProjection" where
  "onCommitIntent X p r = (let key = taskRepositoryKey (ci_taskId r) (ci_repositoryId r) in
     bind_res (checks
       [(\<not> attemptFenced (cj_scheduler p) (ci_taskId r) (ci_taskGeneration r) (ci_leaseToken r) (ci_attemptId r), corrupt),
        ((case obj_get (cj_commitIntents p) key of None \<Rightarrow> False | Some existing \<Rightarrow> cx_factDigest X (IntentFact existing) \<noteq> cx_factDigest X (IntentFact r)), corrupt)])
     (\<lambda>_. Inr (p\<lparr>cj_commitIntents := obj_set key r (cj_commitIntents p)\<rparr>)))"

definition headMatches :: "CommitIntentFact \<Rightarrow> HeadFact \<Rightarrow> bool" where
  "headMatches intent r \<longleftrightarrow> ci_taskGeneration intent = hf_taskGeneration r \<and> ci_leaseToken intent = hf_leaseToken r \<and>
     ci_expectedOid intent = hf_expectedOid r \<and> ci_treeOid intent = hf_treeOid r \<and> ci_branchRef intent = hf_branchRef r"

definition onHeadRecorded :: "CanonicalProjection \<Rightarrow> HeadFact \<Rightarrow> CanonicalFailure + CanonicalProjection" where
  "onHeadRecorded p r = (let key = taskRepositoryKey (hf_taskId r) (hf_repositoryId r) in
     bind_res (require_some corrupt (obj_get (cj_commitIntents p) key)) (\<lambda>intent.
     bind_res (checks [(\<not> headMatches intent r, corrupt)]) (\<lambda>_. Inr (p\<lparr>cj_heads := obj_set key r (cj_heads p)\<rparr>))))"

definition onIntegration :: "CanonicalPrims \<Rightarrow> CanonicalProjection \<Rightarrow> string \<Rightarrow> int \<Rightarrow> string \<Rightarrow> IntegrationEvent \<Rightarrow> CanonicalFailure + CanonicalProjection" where
  "onIntegration X p taskId taskGeneration token e =
     bind_res (checks [(\<not> leaseFenced (cj_scheduler p) taskId taskGeneration token, corrupt)]) (\<lambda>_.
     bind_res (mapErr FromIntegration (applyMultiRepoIntegrationEvent (cx_integration X) (obj_get (cj_integrations p) (iv_transactionId e)) e)) (\<lambda>next.
     Inr (p\<lparr>cj_integrations := obj_set (iv_transactionId e) next (cj_integrations p)\<rparr>)))"

definition receiptBinds :: "LocalReceiptFact \<Rightarrow> IntegrationProjection \<Rightarrow> bool" where
  "receiptBinds r i \<longleftrightarrow> in_state i = VectorApplied \<and> in_repositorySetId i = lf_repositorySetId r \<and>
     map_option cvr_receiptDigest (in_verification i) = Some (lf_verificationReceiptDigest r)"

definition localIntegrationReceiptDigest :: "CanonicalPrims \<Rightarrow> LocalReceiptFact \<Rightarrow> string" where
  "localIntegrationReceiptDigest X r = cx_receiptDigest X (lf_transactionId r, lf_repositorySetId r, lf_verificationReceiptDigest r, lf_appliedEntriesDigest r)"

definition onLocalReceipt :: "CanonicalPrims \<Rightarrow> CanonicalProjection \<Rightarrow> LocalReceiptFact \<Rightarrow> CanonicalFailure + CanonicalProjection" where
  "onLocalReceipt X p r =
     bind_res (require_some corrupt (obj_get (cj_integrations p) (lf_transactionId r))) (\<lambda>i.
     bind_res (checks [(\<not> receiptBinds r i, corrupt), (localIntegrationReceiptDigest X r \<noteq> lf_receiptDigest r, corrupt)])
     (\<lambda>_. Inr (p\<lparr>cj_localReceipts := obj_set (lf_taskId r) r (cj_localReceipts p)\<rparr>)))"

definition onPublication :: "CanonicalPrims \<Rightarrow> CanonicalProjection \<Rightarrow> string \<Rightarrow> PublicationEvent \<Rightarrow> CanonicalFailure + CanonicalProjection" where
  "onPublication X p taskId e =
     bind_res (mapErr FromPublication (applyMultiRepoPublicationEvent (cx_publication X) (obj_get (cj_publications p) (pv_transactionId e)) e)) (\<lambda>next.
     bind_res (checks [(map_option lf_receiptDigest (obj_get (cj_localReceipts p) taskId) \<noteq> Some (lp_localIntegrationReceiptDigest (pj_plan next)), corrupt)]) (\<lambda>_.
     Inr (p\<lparr>cj_publications := obj_set (pv_transactionId e) next (cj_publications p)\<rparr>)))"

definition nextCanonical :: "CanonicalPrims \<Rightarrow> CanonicalProjection \<Rightarrow> CanonicalFact \<Rightarrow> CanonicalFailure + CanonicalProjection" where
  "nextCanonical X p f = (case f of
     PlanFact _ plan \<Rightarrow> onPlan X p plan
   | SchedulerFact _ e \<Rightarrow> onScheduler X p e
   | WorktreeGroupFact r \<Rightarrow> onWorktreeGroup p r
   | WorkerSettledFact r \<Rightarrow> onWorkerSettled p r
   | IntentFact r \<Rightarrow> onCommitIntent X p r
   | HeadRecordedFact r \<Rightarrow> onHeadRecorded p r
   | IntegrationFact _ k g token e \<Rightarrow> onIntegration X p k g token e
   | ReceiptFact r \<Rightarrow> onLocalReceipt X p r
   | PublicationFact _ k _ e \<Rightarrow> onPublication X p k e)"

definition applyCanonicalFact :: "CanonicalPrims \<Rightarrow> CanonicalProjection \<Rightarrow> CanonicalFact \<Rightarrow> CanonicalFailure + CanonicalProjection" where
  "applyCanonicalFact X p f =
     (if \<not> parseMultiRepositoryCanonicalFact X f then Inl corrupt
      else case obj_get (cj_seenFactIds p) (cf_factId f) of
        Some prior \<Rightarrow> if prior \<noteq> cx_factDigest X f then Inl corrupt else Inr p
      | None \<Rightarrow> bind_res (nextCanonical X p f) (\<lambda>p'. Inr (p'\<lparr>cj_seenFactIds := obj_set (cf_factId f) (cx_factDigest X f) (cj_seenFactIds p)\<rparr>)))"

definition maximumJournalFacts :: int where "maximumJournalFacts = 200000"

definition projectMultiRepositoryCanonicalFacts :: "CanonicalPrims \<Rightarrow> CanonicalFact list \<Rightarrow> CanonicalFailure + CanonicalProjection" where
  "projectMultiRepositoryCanonicalFacts X facts =
     (if int (length facts) > maximumJournalFacts then Inl corrupt else fold_res (applyCanonicalFact X) emptyCanonicalProjection facts)"


section \<open>Reading and appending\<close>

record JournalSnapshot =
  sn_runId :: string
  sn_runEpoch :: string
  sn_controlHeadSeq :: int
  sn_headVersion :: int
  sn_facts :: "CanonicalFact list"

datatype AppendResult = Appended JournalSnapshot | HeadConflict | AppendThrew

text \<open>A read that throws is \<open>None\<close>; an append throws the conflict error of a moved head, or another error.\<close>

record 'w CanonicalJournal =
  jn_read :: "'w \<Rightarrow> JournalSnapshot option \<times> 'w"
  jn_append :: "'w \<Rightarrow> int \<Rightarrow> int \<Rightarrow> CanonicalFact \<Rightarrow> AppendResult \<times> 'w"

definition snapshotIdentityOk :: "RunPlan \<Rightarrow> JournalSnapshot \<Rightarrow> bool" where
  "snapshotIdentityOk plan s \<longleftrightarrow> sn_runId s = rn_runId plan \<and> sn_runEpoch s = rn_runEpoch plan \<and> 0 \<le> sn_controlHeadSeq s \<and>
     sn_controlHeadSeq s \<le> MAX_SAFE_INTEGER \<and> 0 \<le> sn_headVersion s \<and> sn_headVersion s \<le> MAX_SAFE_INTEGER \<and> sn_headVersion s = int (length (sn_facts s))"

definition checkSnapshot :: "CanonicalPrims \<Rightarrow> RunPlan \<Rightarrow> JournalSnapshot \<Rightarrow> CanonicalFailure + JournalSnapshot \<times> CanonicalProjection" where
  "checkSnapshot X plan s =
     bind_res (checks [(\<not> snapshotIdentityOk plan s, CanonicalError CANONICAL_IDENTITY_MISMATCH)]) (\<lambda>_.
     bind_res (projectMultiRepositoryCanonicalFacts X (sn_facts s)) (\<lambda>p.
     bind_res (checks [((case cj_plan p of None \<Rightarrow> False | Some q \<Rightarrow> rn_planDigest q \<noteq> rn_planDigest plan), CanonicalError CANONICAL_IDENTITY_MISMATCH)]) (\<lambda>_.
     Inr (s, p))))"

definition readCanonical :: "CanonicalPrims \<Rightarrow> 'w CanonicalJournal \<Rightarrow> RunPlan \<Rightarrow> 'w \<Rightarrow> (CanonicalFailure + JournalSnapshot \<times> CanonicalProjection) \<times> 'w" where
  "readCanonical X J plan w = (case jn_read J w of (None, w') \<Rightarrow> (Inl corrupt, w') | (Some s, w') \<Rightarrow> (checkSnapshot X plan s, w'))"

definition appendReceiptOk :: "CanonicalPrims \<Rightarrow> RunPlan \<Rightarrow> CanonicalFact \<Rightarrow> JournalSnapshot \<Rightarrow> JournalSnapshot \<Rightarrow> bool" where
  "appendReceiptOk X plan newFact observed s \<longleftrightarrow> sn_runId s = rn_runId plan \<and> sn_runEpoch s = rn_runEpoch plan \<and>
     sn_controlHeadSeq s = sn_controlHeadSeq observed + 1 \<and> sn_headVersion s = sn_headVersion observed + 1 \<and> int (length (sn_facts s)) = sn_headVersion s \<and>
     list_all (\<lambda>(a, b). cx_factDigest X a = cx_factDigest X b) (zip (butlast (sn_facts s)) (sn_facts observed)) \<and>
     cx_factDigest X (last (sn_facts s)) = cx_factDigest X newFact"

definition maximumAppendConflicts :: nat where "maximumAppendConflicts = 16"

fun appendLoop :: "CanonicalPrims \<Rightarrow> 'w CanonicalJournal \<Rightarrow> RunPlan \<Rightarrow> CanonicalFact \<Rightarrow> nat \<Rightarrow> 'w \<Rightarrow>
    (CanonicalFailure + JournalSnapshot \<times> CanonicalProjection) \<times> 'w" where
  "appendLoop X J plan newFact 0 w = (Inl (CanonicalError CANONICAL_APPEND_FAILED), w)"
| "appendLoop X J plan newFact (Suc n) w = (case readCanonical X J plan w of
     (Inl e, w1) \<Rightarrow> (Inl e, w1)
   | (Inr (observed, p), w1) \<Rightarrow>
       (case obj_get (cj_seenFactIds p) (cf_factId newFact) of
          Some prior \<Rightarrow> (if prior \<noteq> cx_factDigest X newFact then Inl corrupt else Inr (observed, p), w1)
        | None \<Rightarrow> (case jn_append J w1 (sn_controlHeadSeq observed) (sn_headVersion observed) newFact of
            (HeadConflict, w2) \<Rightarrow> appendLoop X J plan newFact n w2
          | (AppendThrew, w2) \<Rightarrow> (Inl (CanonicalError CANONICAL_APPEND_FAILED), w2)
          | (Appended s, w2) \<Rightarrow>
              (if \<not> appendReceiptOk X plan newFact observed s then Inl (CanonicalError CANONICAL_APPEND_FAILED)
               else bind_res (projectMultiRepositoryCanonicalFacts X (sn_facts s)) (\<lambda>q. Inr (s, q)), w2))))"

definition appendCanonical :: "CanonicalPrims \<Rightarrow> 'w CanonicalJournal \<Rightarrow> RunPlan \<Rightarrow> CanonicalFact \<Rightarrow> 'w \<Rightarrow>
    (CanonicalFailure + JournalSnapshot \<times> CanonicalProjection) \<times> 'w" where
  "appendCanonical X J plan newFact w = appendLoop X J plan newFact maximumAppendConflicts w"


section \<open>Replay keeps its promises\<close>

text \<open>
  A reducer with an invariant that speaks of the facts replayed so far: at each step the state is the replay of those facts.
\<close>

locale history_fold =
  fixes step :: "'s \<Rightarrow> 'a \<Rightarrow> 'e + 's"
    and s0 :: 's
    and inv :: "'a list \<Rightarrow> 's \<Rightarrow> bool"
  assumes inv_start: "inv [] s0"
    and inv_snoc: "fold_res step s0 fs = Inr s \<Longrightarrow> inv fs s \<Longrightarrow> step s f = Inr s' \<Longrightarrow> inv (fs @ [f]) s'"
begin

lemma replay_history: "fold_res step s0 fs = Inr s \<Longrightarrow> inv fs s"
proof (induction fs arbitrary: s rule: rev_induct)
  case Nil
  then show ?case using inv_start by simp
next
  case (snoc f fs)
  then obtain t where "fold_res step s0 fs = Inr t" "step t f = Inr s" by (auto simp: fold_res_snoc split: sum.splits)
  with snoc.IH inv_snoc show ?case by blast
qed

end

lemmas canonical_handlers =
  nextCanonical_def onPlan_def onScheduler_def onWorktreeGroup_def onWorkerSettled_def onCommitIntent_def onHeadRecorded_def onIntegration_def
  onLocalReceipt_def onPublication_def Let_def

lemma applyCanonical_cases:
  assumes "applyCanonicalFact X p f = Inr p'"
  obtains (seen) "p' = p" | (fresh) q where "nextCanonical X p f = Inr q" "p' = q\<lparr>cj_seenFactIds := obj_set (cf_factId f) (cx_factDigest X f) (cj_seenFactIds p)\<rparr>"
proof (cases "obj_get (cj_seenFactIds p) (cf_factId f)")
  case None
  with assms obtain q where "nextCanonical X p f = Inr q" "p' = q\<lparr>cj_seenFactIds := obj_set (cf_factId f) (cx_factDigest X f) (cj_seenFactIds p)\<rparr>"
    unfolding applyCanonicalFact_def by (simp split: if_splits) blast
  then show thesis by (rule fresh)
next
  case (Some d)
  with assms have "p' = p" unfolding applyCanonicalFact_def by (simp split: if_splits)
  then show thesis by (rule seen)
qed

text \<open>What one fact changes, table by table.\<close>

lemma obj_change_set: "P k (obj_get ob k) v \<Longrightarrow> obj_change P ob (obj_set k v ob)"
  by (auto simp: obj_change_def)

lemma next_scheduler:
  "nextCanonical X p f = Inr q \<Longrightarrow> cj_scheduler q = cj_scheduler p \<or> (\<exists>e. applyMultiRepoSchedulerEvent (cx_scheduler X) (cj_scheduler p) e = Inr (cj_scheduler q))"
  by (cases f) (auto simp: canonical_handlers)

lemma next_integrations:
  "nextCanonical X p f = Inr q \<Longrightarrow>
   obj_change (\<lambda>tx old new. \<exists>e. iv_transactionId e = tx \<and> applyMultiRepoIntegrationEvent (cx_integration X) old e = Inr new) (cj_integrations p) (cj_integrations q)"
  by (cases f) (auto simp: canonical_handlers intro!: obj_change_set)

lemma next_receipts:
  "nextCanonical X p f = Inr q \<Longrightarrow>
   obj_change (\<lambda>k _ r. f = ReceiptFact r \<and> lf_taskId r = k \<and> localIntegrationReceiptDigest X r = lf_receiptDigest r \<and>
     (\<exists>i. obj_get (cj_integrations p) (lf_transactionId r) = Some i \<and> receiptBinds r i)) (cj_localReceipts p) (cj_localReceipts q)"
  by (cases f) (auto simp: canonical_handlers intro!: obj_change_set)

lemma next_publications:
  "nextCanonical X p f = Inr q \<Longrightarrow>
   obj_change (\<lambda>tx old new. (\<exists>e. pv_transactionId e = tx \<and> applyMultiRepoPublicationEvent (cx_publication X) old e = Inr new) \<and>
     (\<exists>k r. obj_get (cj_localReceipts p) k = Some r \<and> lf_receiptDigest r = lp_localIntegrationReceiptDigest (pj_plan new))) (cj_publications p) (cj_publications q)"
  by (cases f) (auto simp: canonical_handlers intro!: obj_change_set, blast+)

lemma next_workers:
  "nextCanonical X p f = Inr q \<Longrightarrow>
   obj_change (\<lambda>k _ r. f = WorkerSettledFact r \<and> attemptFenced (cj_scheduler p) (kf_taskId r) (kf_taskGeneration r) (kf_leaseToken r) (kf_attemptId r))
     (cj_workers p) (cj_workers q)"
  by (cases f) (auto simp: canonical_handlers intro!: obj_change_set)

lemma next_intents:
  "nextCanonical X p f = Inr q \<Longrightarrow>
   obj_change (\<lambda>k old r. f = IntentFact r \<and> k = taskRepositoryKey (ci_taskId r) (ci_repositoryId r) \<and>
     attemptFenced (cj_scheduler p) (ci_taskId r) (ci_taskGeneration r) (ci_leaseToken r) (ci_attemptId r) \<and>
     (\<forall>existing. old = Some existing \<longrightarrow> cx_factDigest X (IntentFact existing) = cx_factDigest X (IntentFact r))) (cj_commitIntents p) (cj_commitIntents q)"
  by (cases f) (auto simp: canonical_handlers split: option.splits intro!: obj_change_set)

lemma next_heads:
  "nextCanonical X p f = Inr q \<Longrightarrow>
   obj_change (\<lambda>k _ r. k = taskRepositoryKey (hf_taskId r) (hf_repositoryId r) \<and> (\<exists>i. obj_get (cj_commitIntents p) k = Some i \<and> headMatches i r))
     (cj_heads p) (cj_heads q)"
  by (cases f) (auto simp: canonical_handlers intro!: obj_change_set)

text \<open>An applied transaction never changes again, so what a receipt binds stays bound.\<close>

lemma applied_integration_final:
  assumes "applyMultiRepoIntegrationEvent X (Some i) e = Inr i'" "in_state i = VectorApplied"
  shows "i' = i"
proof (cases "obj_get (in_eventIds i) (iv_eventId e)")
  case None
  have "\<not> (\<exists>j. nextIntegration X i (iv_body e) = Inr j)" using assms(2) by (cases "iv_body e") (auto simp: nextIntegration_def integrationGuard_def)
  with assms None show ?thesis by (auto simp: applyMultiRepoIntegrationEvent_def split: if_splits)
next
  case (Some d)
  with assms show ?thesis by (auto simp: applyMultiRepoIntegrationEvent_def split: if_splits)
qed

lemma integration_transaction:
  assumes "applyMultiRepoIntegrationEvent X old e = Inr new" "\<And>i. old = Some i \<Longrightarrow> in_transactionId i = iv_transactionId e"
  shows "in_transactionId new = iv_transactionId e"
proof (cases old)
  case None
  with assms show ?thesis by (auto simp: applyMultiRepoIntegrationEvent_def createdIntegration_def split: IntegrationBody.splits if_splits)
next
  case (Some i)
  with assms next_state show ?thesis by (fastforce simp: applyMultiRepoIntegrationEvent_def split: option.splits if_splits)
qed

interpretation applied: sticky_fold "applyCanonicalFact X" "\<lambda>p. obj_get (cj_integrations p)" "\<lambda>i. in_state i = VectorApplied" for X
proof
  fix p f p' tx i
  assume ap: "applyCanonicalFact X p f = Inr p'" and i: "obj_get (cj_integrations p) tx = Some i" "in_state i = VectorApplied"
  from ap show "obj_get (cj_integrations p') tx = Some i"
  proof (cases rule: applyCanonical_cases)
    case (fresh q)
    obtain i' where "obj_get (cj_integrations q) tx = Some i'" "i' = i \<or> (\<exists>e. iv_transactionId e = tx \<and> applyMultiRepoIntegrationEvent (cx_integration X) (Some i) e = Inr i')"
      using obj_change_forward [OF next_integrations [OF fresh(1)] i(1)] by blast
    then show ?thesis using applied_integration_final i(2) fresh(2) by auto
  qed (use i in simp)
qed

text \<open>A receipt of the history that binds an applied transaction of the projection.\<close>

definition receipted :: "CanonicalPrims \<Rightarrow> CanonicalFact list \<Rightarrow> CanonicalProjection \<Rightarrow> LocalReceiptFact \<Rightarrow> bool" where
  "receipted X facts p r \<longleftrightarrow> ReceiptFact r \<in> set facts \<and> localIntegrationReceiptDigest X r = lf_receiptDigest r \<and>
     (\<exists>i. obj_get (cj_integrations p) (lf_transactionId r) = Some i \<and> receiptBinds r i)"

lemma receipted_step: "receipted X facts p r \<Longrightarrow> applyCanonicalFact X p f = Inr p' \<Longrightarrow> receipted X (facts @ [f]) p' r"
  using applied.step_sticky by (auto simp: receipted_def receiptBinds_def)

definition chain_ok :: "CanonicalPrims \<Rightarrow> CanonicalFact list \<Rightarrow> CanonicalProjection \<Rightarrow> bool" where
  "chain_ok X facts p \<longleftrightarrow> sched_ok (cj_scheduler p) \<and>
     (\<forall>tx i. obj_get (cj_integrations p) tx = Some i \<longrightarrow> integ_ok i \<and> in_transactionId i = tx) \<and>
     (\<forall>k r. obj_get (cj_localReceipts p) k = Some r \<longrightarrow> receipted X facts p r) \<and>
     (\<forall>tx q. obj_get (cj_publications p) tx = Some q \<longrightarrow> pub_ok q \<and>
        (\<exists>r. receipted X facts p r \<and> lf_receiptDigest r = lp_localIntegrationReceiptDigest (pj_plan q)))"

lemma chain_ok_snoc:
  assumes ok: "chain_ok X facts p" and ap: "applyCanonicalFact X p f = Inr p'"
  shows "chain_ok X (facts @ [f]) p'"
  using ap
proof (cases rule: applyCanonical_cases)
  case seen
  then show ?thesis using ok receipted_step [OF _ ap] unfolding chain_ok_def by blast
next
  case (fresh q)
  have tables: "cj_scheduler p' = cj_scheduler q" "cj_integrations p' = cj_integrations q" "cj_localReceipts p' = cj_localReceipts q" "cj_publications p' = cj_publications q"
    using fresh(2) by simp_all
  have keep: "receipted X facts p r \<Longrightarrow> receipted X (facts @ [f]) p' r" for r by (rule receipted_step [OF _ ap])
  have "sched_ok (cj_scheduler p')" using next_scheduler [OF fresh(1)] ok sched_ok_step unfolding tables chain_ok_def by metis
  moreover have "integ_ok i \<and> in_transactionId i = tx" if "obj_get (cj_integrations p') tx = Some i" for tx i
  proof -
    from obj_change_backward [OF next_integrations [OF fresh(1)]] that tables(2)
    consider "obj_get (cj_integrations p) tx = Some i"
      | e where "iv_transactionId e = tx" "applyMultiRepoIntegrationEvent (cx_integration X) (obj_get (cj_integrations p) tx) e = Inr i" by auto
    then show ?thesis
    proof cases
      case 2
      have old: "integ_ok j \<and> in_transactionId j = tx" if "obj_get (cj_integrations p) tx = Some j" for j using ok that unfolding chain_ok_def by blast
      have "integ_ok i" by (rule apply_integ_ok [OF 2(2)]) (use old in blast)
      moreover have "in_transactionId i = iv_transactionId e" by (rule integration_transaction [OF 2(2)]) (use old 2(1) in blast)
      ultimately show ?thesis using 2(1) by blast
    qed (use ok chain_ok_def in blast)
  qed
  moreover have "receipted X (facts @ [f]) p' r" if "obj_get (cj_localReceipts p') k = Some r" for k r
  proof -
    from obj_change_backward [OF next_receipts [OF fresh(1)]] that tables(3)
    consider "obj_get (cj_localReceipts p) k = Some r"
      | i where "f = ReceiptFact r" "localIntegrationReceiptDigest X r = lf_receiptDigest r" "obj_get (cj_integrations p) (lf_transactionId r) = Some i" "receiptBinds r i"
      by auto
    then show ?thesis
    proof cases
      case 1
      with ok keep show ?thesis unfolding chain_ok_def by blast
    next
      case (2 i)
      have "obj_get (cj_integrations p') (lf_transactionId r) = Some i" by (rule applied.step_sticky [OF ap 2(3)]) (use 2(4) in \<open>simp add: receiptBinds_def\<close>)
      with 2 show ?thesis by (simp add: receipted_def)
    qed
  qed
  moreover have "pub_ok c \<and> (\<exists>r. receipted X (facts @ [f]) p' r \<and> lf_receiptDigest r = lp_localIntegrationReceiptDigest (pj_plan c))"
    if "obj_get (cj_publications p') tx = Some c" for tx c
  proof -
    have "obj_get (cj_publications q) tx = Some c" using that tables(4) by simp
    from obj_change_backward [OF next_publications [OF fresh(1)] this]
    consider "obj_get (cj_publications p) tx = Some c"
      | e k r where "applyMultiRepoPublicationEvent (cx_publication X) (obj_get (cj_publications p) tx) e = Inr c"
          "obj_get (cj_localReceipts p) k = Some r" "lf_receiptDigest r = lp_localIntegrationReceiptDigest (pj_plan c)" by blast
    then show ?thesis
    proof cases
      case 1
      with ok keep show ?thesis unfolding chain_ok_def by blast
    next
      case (2 e k r)
      have "pub_ok c" by (rule apply_pub_ok [OF 2(1)]) (use ok in \<open>simp add: chain_ok_def\<close>)
      moreover have "receipted X (facts @ [f]) p' r" using ok keep 2(2) unfolding chain_ok_def by blast
      ultimately show ?thesis using 2(3) by blast
    qed
  qed
  ultimately show ?thesis unfolding chain_ok_def by blast
qed

interpretation chain: history_fold "applyCanonicalFact X" emptyCanonicalProjection "chain_ok X" for X
proof
  show "chain_ok X [] emptyCanonicalProjection" by (simp add: chain_ok_def emptyCanonicalProjection_def sched_ok_def emptyProjection_def)
qed (rule chain_ok_snoc)

text \<open>
  C23. Nothing is published that was not integrated and verified. Whatever history the journal holds, a publication of its
  projection names the digest of a local receipt of that history, and the receipt binds a transaction of the projection
  that is applied: its verification is the one the receipt names, and every entry was moved to its prepared candidate.
\<close>

theorem canonical_publication_chain:
  assumes "projectMultiRepositoryCanonicalFacts X facts = Inr p" "obj_get (cj_publications p) tx = Some publication"
  shows "\<exists>r i v. ReceiptFact r \<in> set facts \<and> lp_localIntegrationReceiptDigest (pj_plan publication) = localIntegrationReceiptDigest X r \<and>
    obj_get (cj_integrations p) (lf_transactionId r) = Some i \<and> in_state i = VectorApplied \<and> in_repositorySetId i = lf_repositorySetId r \<and>
    in_verification i = Some v \<and> cvr_transactionId v = lf_transactionId r \<and> cvr_receiptDigest v = lf_verificationReceiptDigest r \<and>
    map ie_plan (in_entries i) = np_entries (in_plan i) \<and>
    (\<forall>e \<in> set (in_entries i). \<exists>c result. ie_candidate e = Some c \<and> ie_applyResult e = Some result \<and> appliedOid result = rc_candidateOid c)"
proof -
  have f: "fold_res (applyCanonicalFact X) emptyCanonicalProjection facts = Inr p"
    using assms(1) by (simp add: projectMultiRepositoryCanonicalFacts_def split: if_splits)
  note ok = chain.replay_history [OF f, unfolded chain_ok_def]
  from ok assms(2) obtain r where r: "receipted X facts p r" "lf_receiptDigest r = lp_localIntegrationReceiptDigest (pj_plan publication)" by blast
  from r(1) obtain i where i: "obj_get (cj_integrations p) (lf_transactionId r) = Some i" "receiptBinds r i" unfolding receipted_def by blast
  have io: "integ_ok i" "in_transactionId i = lf_transactionId r" using ok i(1) by blast+
  have st: "in_state i = VectorApplied" using i(2) by (simp add: receiptBinds_def)
  from io(1) st obtain v where v: "in_verification i = Some v" "cvr_transactionId v = in_transactionId i" by (auto simp: integ_ok_def receipt_ok_def)
  have entries: "\<exists>c result. ie_candidate e = Some c \<and> ie_applyResult e = Some result \<and> appliedOid result = rc_candidateOid c" if "e \<in> set (in_entries i)" for e
    using io(1) st that by (fastforce simp: integ_ok_def list_all_iff entry_ok_def)
  show ?thesis using r i io st v entries by (intro exI [of _ r] exI [of _ i] exI [of _ v]) (auto simp: receipted_def receiptBinds_def integ_ok_def)
qed

text \<open>A fact that was accepted while its task held exactly this lease and attempt.\<close>

definition recorded_under :: "CanonicalPrims \<Rightarrow> CanonicalFact list \<Rightarrow> CanonicalFact \<Rightarrow> string \<Rightarrow> int \<Rightarrow> string \<Rightarrow> string \<Rightarrow> bool" where
  "recorded_under X facts f k g token attempt \<longleftrightarrow> (\<exists>before_f after_f p. facts = before_f @ f # after_f \<and>
     fold_res (applyCanonicalFact X) emptyCanonicalProjection before_f = Inr p \<and> attemptFenced (cj_scheduler p) k g token attempt)"

lemma recorded_under_snoc: "recorded_under X facts f k g token attempt \<Longrightarrow> recorded_under X (facts @ [f']) f k g token attempt"
  unfolding recorded_under_def by (metis append.assoc append_Cons)

lemma recorded_under_last:
  "fold_res (applyCanonicalFact X) emptyCanonicalProjection facts = Inr p \<Longrightarrow> attemptFenced (cj_scheduler p) k g token attempt \<Longrightarrow>
   recorded_under X (facts @ [f]) f k g token attempt"
  unfolding recorded_under_def by blast

lemma recorded_under_in: "recorded_under X facts f k g token attempt \<Longrightarrow> f \<in> set facts"
  by (auto simp: recorded_under_def)

text \<open>SHA-256 does not collide on the facts of this history.\<close>

definition digests_distinct :: "CanonicalPrims \<Rightarrow> CanonicalFact list \<Rightarrow> bool" where
  "digests_distinct X facts \<longleftrightarrow> (\<forall>f \<in> set facts. \<forall>g \<in> set facts. cx_factDigest X f = cx_factDigest X g \<longrightarrow> f = g)"

definition fences_ok :: "CanonicalPrims \<Rightarrow> CanonicalFact list \<Rightarrow> CanonicalProjection \<Rightarrow> bool" where
  "fences_ok X facts p \<longleftrightarrow>
     (\<forall>k r. obj_get (cj_workers p) k = Some r \<longrightarrow> recorded_under X facts (WorkerSettledFact r) (kf_taskId r) (kf_taskGeneration r) (kf_leaseToken r) (kf_attemptId r)) \<and>
     (\<forall>k r. obj_get (cj_commitIntents p) k = Some r \<longrightarrow> k = taskRepositoryKey (ci_taskId r) (ci_repositoryId r) \<and>
        recorded_under X facts (IntentFact r) (ci_taskId r) (ci_taskGeneration r) (ci_leaseToken r) (ci_attemptId r)) \<and>
     (digests_distinct X facts \<longrightarrow> (\<forall>k h. obj_get (cj_heads p) k = Some h \<longrightarrow> k = taskRepositoryKey (hf_taskId h) (hf_repositoryId h) \<and>
        (\<exists>r. obj_get (cj_commitIntents p) k = Some r \<and> headMatches r h)))"

lemma digests_distinct_snoc: "digests_distinct X (facts @ [f]) \<Longrightarrow> digests_distinct X facts"
  by (auto simp: digests_distinct_def)

lemma intent_kept:
  assumes ok: "fences_ok X facts p" and nx: "nextCanonical X p f = Inr q" and d: "digests_distinct X (facts @ [f])" and r: "obj_get (cj_commitIntents p) k = Some r"
  shows "obj_get (cj_commitIntents q) k = Some r"
proof -
  obtain r' where r': "obj_get (cj_commitIntents q) k = Some r'" "r' = r \<or> (f = IntentFact r' \<and> cx_factDigest X (IntentFact r) = cx_factDigest X (IntentFact r'))"
    using obj_change_forward [OF next_intents [OF nx] r] by blast
  have "IntentFact r \<in> set facts" using ok r recorded_under_in unfolding fences_ok_def by blast
  with r'(2) d have "r' = r" unfolding digests_distinct_def by auto
  with r'(1) show ?thesis by simp
qed

lemma fences_ok_snoc:
  assumes h: "fold_res (applyCanonicalFact X) emptyCanonicalProjection facts = Inr p" and ok: "fences_ok X facts p" and ap: "applyCanonicalFact X p f = Inr p'"
  shows "fences_ok X (facts @ [f]) p'"
  using ap
proof (cases rule: applyCanonical_cases)
  case seen
  then show ?thesis using ok recorded_under_snoc digests_distinct_snoc unfolding fences_ok_def by blast
next
  case (fresh q)
  have tables: "cj_workers p' = cj_workers q" "cj_commitIntents p' = cj_commitIntents q" "cj_heads p' = cj_heads q" using fresh(2) by simp_all
  have "recorded_under X (facts @ [f]) (WorkerSettledFact r) (kf_taskId r) (kf_taskGeneration r) (kf_leaseToken r) (kf_attemptId r)"
    if "obj_get (cj_workers q) k = Some r" for k r
    using obj_change_backward [OF next_workers [OF fresh(1)] that] ok recorded_under_snoc recorded_under_last [OF h] unfolding fences_ok_def by blast
  moreover have "k = taskRepositoryKey (ci_taskId r) (ci_repositoryId r) \<and>
      recorded_under X (facts @ [f]) (IntentFact r) (ci_taskId r) (ci_taskGeneration r) (ci_leaseToken r) (ci_attemptId r)"
    if "obj_get (cj_commitIntents q) k = Some r" for k r
    using obj_change_backward [OF next_intents [OF fresh(1)] that] ok recorded_under_snoc recorded_under_last [OF h] unfolding fences_ok_def by blast
  moreover have "k = taskRepositoryKey (hf_taskId c) (hf_repositoryId c) \<and> (\<exists>r. obj_get (cj_commitIntents q) k = Some r \<and> headMatches r c)"
    if d: "digests_distinct X (facts @ [f])" and c: "obj_get (cj_heads q) k = Some c" for k c
  proof -
    have "k = taskRepositoryKey (hf_taskId c) (hf_repositoryId c) \<and> (\<exists>r. obj_get (cj_commitIntents p) k = Some r \<and> headMatches r c)"
      using obj_change_backward [OF next_heads [OF fresh(1)] c] ok digests_distinct_snoc [OF d] unfolding fences_ok_def by blast
    then show ?thesis using intent_kept [OF ok fresh(1) d] by blast
  qed
  ultimately show ?thesis unfolding fences_ok_def tables by blast
qed

interpretation fences: history_fold "applyCanonicalFact X" emptyCanonicalProjection "fences_ok X" for X
proof
  show "fences_ok X [] emptyCanonicalProjection" by (simp add: fences_ok_def emptyCanonicalProjection_def)
qed (rule fences_ok_snoc)

text \<open>
  C25. No record of a run outlives the lease it was made under by mistake: a worker's settlement and a commit intent in the
  projection were each accepted at a moment when the task held exactly the generation, lease and attempt they name, and
  (unless digests collide in the history) a recorded head agrees with the intent recorded for its repository: same
  lease, parent, tree and branch.
\<close>

theorem canonical_fenced:
  assumes "projectMultiRepositoryCanonicalFacts X facts = Inr p"
  shows "(\<forall>k r. obj_get (cj_workers p) k = Some r \<longrightarrow>
      recorded_under X facts (WorkerSettledFact r) (kf_taskId r) (kf_taskGeneration r) (kf_leaseToken r) (kf_attemptId r)) \<and>
    (\<forall>k r. obj_get (cj_commitIntents p) k = Some r \<longrightarrow>
      recorded_under X facts (IntentFact r) (ci_taskId r) (ci_taskGeneration r) (ci_leaseToken r) (ci_attemptId r)) \<and>
    (digests_distinct X facts \<longrightarrow> (\<forall>k h. obj_get (cj_heads p) k = Some h \<longrightarrow>
      (\<exists>r. obj_get (cj_commitIntents p) (taskRepositoryKey (hf_taskId h) (hf_repositoryId h)) = Some r \<and> headMatches r h)))"
proof -
  have f: "fold_res (applyCanonicalFact X) emptyCanonicalProjection facts = Inr p"
    using assms by (simp add: projectMultiRepositoryCanonicalFacts_def split: if_splits)
  from fences.replay_history [OF f] show ?thesis unfolding fences_ok_def by blast
qed

text \<open>Every accepted fact is among those seen, under its digest.\<close>

lemma accepted_seen: "applyCanonicalFact X p f = Inr p' \<Longrightarrow> obj_get (cj_seenFactIds p') (cf_factId f) = Some (cx_factDigest X f)"
  by (cases "obj_get (cj_seenFactIds p) (cf_factId f)") (auto simp: applyCanonicalFact_def split: if_splits)

lemma project_last_seen:
  assumes "projectMultiRepositoryCanonicalFacts X (facts @ [f]) = Inr p"
  shows "obj_get (cj_seenFactIds p) (cf_factId f) = Some (cx_factDigest X f)"
  using assms accepted_seen by (fastforce simp: projectMultiRepositoryCanonicalFacts_def fold_res_snoc split: if_splits sum.splits)

lemma checkSnapshot_Inr:
  "checkSnapshot X plan s = Inr (s', p) \<Longrightarrow> s' = s \<and> snapshotIdentityOk plan s \<and> projectMultiRepositoryCanonicalFacts X (sn_facts s) = Inr p"
  by (auto simp: checkSnapshot_def)

text \<open>
  The reads before the last one: each was followed by an append that the journal refused because its head had moved.
\<close>

inductive conflicts :: "CanonicalPrims \<Rightarrow> 'w CanonicalJournal \<Rightarrow> RunPlan \<Rightarrow> CanonicalFact \<Rightarrow> 'w \<Rightarrow> 'w \<Rightarrow> bool" for X J plan newFact where
  no_conflict: "conflicts X J plan newFact w w"
| conflict: "readCanonical X J plan w = (Inr (observed, q), w1) \<Longrightarrow>
    jn_append J w1 (sn_controlHeadSeq observed) (sn_headVersion observed) newFact = (HeadConflict, w2) \<Longrightarrow>
    conflicts X J plan newFact w2 w' \<Longrightarrow> conflicts X J plan newFact w w'"

text \<open>What a successful append returns, against what the last read of the journal returned in the world \<open>w0\<close>.\<close>

definition append_of :: "CanonicalPrims \<Rightarrow> 'w CanonicalJournal \<Rightarrow> RunPlan \<Rightarrow> CanonicalFact \<Rightarrow> 'w \<Rightarrow> JournalSnapshot \<Rightarrow> CanonicalProjection \<Rightarrow> JournalSnapshot \<Rightarrow>
    CanonicalProjection \<Rightarrow> 'w \<Rightarrow> bool" where
  "append_of X J plan newFact w0 observed q s p w' \<longleftrightarrow> snapshotIdentityOk plan observed \<and> projectMultiRepositoryCanonicalFacts X (sn_facts observed) = Inr q \<and>
     projectMultiRepositoryCanonicalFacts X (sn_facts s) = Inr p \<and>
     (\<exists>w1. jn_read J w0 = (Some observed, w1) \<and>
       (s = observed \<and> w' = w1 \<and> obj_get (cj_seenFactIds q) (cf_factId newFact) = Some (cx_factDigest X newFact) \<or>
        obj_get (cj_seenFactIds q) (cf_factId newFact) = None \<and>
        jn_append J w1 (sn_controlHeadSeq observed) (sn_headVersion observed) newFact = (Appended s, w') \<and> appendReceiptOk X plan newFact observed s))"

lemma appendLoop_result:
  "appendLoop X J plan newFact n w = (Inr (s, p), w') \<Longrightarrow>
     \<exists>w0 observed q. conflicts X J plan newFact w w0 \<and> append_of X J plan newFact w0 observed q s p w'"
proof (induction n arbitrary: w)
  case (Suc n)
  from Suc.prems obtain observed q w1 where rd: "readCanonical X J plan w = (Inr (observed, q), w1)"
    by (auto split: prod.splits sum.splits)
  have obs: "snapshotIdentityOk plan observed" "projectMultiRepositoryCanonicalFacts X (sn_facts observed) = Inr q" "jn_read J w = (Some observed, w1)"
    using rd by (auto simp: readCanonical_def split: prod.splits option.splits dest!: checkSnapshot_Inr)
  show ?case
  proof (cases "obj_get (cj_seenFactIds q) (cf_factId newFact)")
    case (Some d)
    with Suc.prems rd obs have "append_of X J plan newFact w observed q s p w'" by (auto simp: append_of_def split: if_splits)
    then show ?thesis by (intro exI conjI) (rule no_conflict)
  next
    case None
    obtain res w2 where ap: "jn_append J w1 (sn_controlHeadSeq observed) (sn_headVersion observed) newFact = (res, w2)" by fastforce
    show ?thesis
    proof (cases res)
      case (Appended t)
      with Suc.prems rd None ap obs have "append_of X J plan newFact w observed q s p w'" by (auto simp: append_of_def split: if_splits)
      then show ?thesis by (intro exI conjI) (rule no_conflict)
    next
      case HeadConflict
      with Suc.prems rd None ap have "appendLoop X J plan newFact n w2 = (Inr (s, p), w')" by simp
      from Suc.IH [OF this] obtain w0 t r where later: "conflicts X J plan newFact w2 w0" "append_of X J plan newFact w0 t r s p w'" by blast
      from conflict [OF rd ap [unfolded HeadConflict] later(1)] later(2) show ?thesis by blast
    next
      case AppendThrew
      with Suc.prems rd None ap show ?thesis by simp
    qed
  qed
qed simp

lemma appendReceipt_facts:
  assumes "appendReceiptOk X plan newFact observed s" "snapshotIdentityOk plan observed"
  obtains f pre where "sn_facts s = pre @ [f]" "map (cx_factDigest X) pre = map (cx_factDigest X) (sn_facts observed)" "cx_factDigest X f = cx_factDigest X newFact"
proof -
  have len: "length (sn_facts s) = Suc (length (sn_facts observed))" using assms by (simp add: appendReceiptOk_def snapshotIdentityOk_def)
  then have split: "sn_facts s = butlast (sn_facts s) @ [last (sn_facts s)]" by (cases "sn_facts s" rule: rev_cases) auto
  have "list_all2 (\<lambda>a b. cx_factDigest X a = cx_factDigest X b) (butlast (sn_facts s)) (sn_facts observed)"
    using assms(1) len by (auto simp: appendReceiptOk_def list_all2_iff list_all_iff)
  then have "map (cx_factDigest X) (butlast (sn_facts s)) = map (cx_factDigest X) (sn_facts observed)" by (simp add: list_all2_map_eq list.rel_eq flip: list.rel_map)
  with split assms(1) that show thesis by (metis appendReceiptOk_def)
qed

text \<open>
  C24. An append is exact, whatever the journal does. When \<open>appendCanonical\<close> returns, the history it returns belongs to this
  run and replays to the projection it returns, and the fact is among those of the projection under its own digest, unless the
  digests of two facts of the history collide. The last history it read from the journal, after reads that lost a race, belongs to this run and
  replays; if that history has the fact, it is returned and nothing was written; otherwise the fact was appended once, against the heads of
  that history, and what the journal answered is that history with exactly the one fact more, at the next global
  head, fact by fact of the same digest.
\<close>

theorem append_canonical_exact:
  assumes "appendCanonical X J plan newFact w = (Inr (s, p), w')"
    and "\<forall>f \<in> set (sn_facts s). cx_factDigest X f = cx_factDigest X newFact \<longrightarrow> f = newFact"
  shows "sn_runId s = rn_runId plan \<and> sn_runEpoch s = rn_runEpoch plan \<and> sn_headVersion s = int (length (sn_facts s)) \<and>
    projectMultiRepositoryCanonicalFacts X (sn_facts s) = Inr p \<and> obj_get (cj_seenFactIds p) (cf_factId newFact) = Some (cx_factDigest X newFact) \<and>
    (\<exists>w0 w1 observed q. conflicts X J plan newFact w w0 \<and> jn_read J w0 = (Some observed, w1) \<and> snapshotIdentityOk plan observed \<and>
       projectMultiRepositoryCanonicalFacts X (sn_facts observed) = Inr q \<and>
       (case obj_get (cj_seenFactIds q) (cf_factId newFact) of
          Some d \<Rightarrow> d = cx_factDigest X newFact \<and> s = observed \<and> p = q \<and> w' = w1
        | None \<Rightarrow> jn_append J w1 (sn_controlHeadSeq observed) (sn_headVersion observed) newFact = (Appended s, w') \<and>
            sn_controlHeadSeq s = sn_controlHeadSeq observed + 1 \<and>
            map (cx_factDigest X) (sn_facts s) = map (cx_factDigest X) (sn_facts observed @ [newFact])))"
proof -
  from appendLoop_result [OF assms(1) [unfolded appendCanonical_def]] obtain w0 observed q where
    c: "conflicts X J plan newFact w w0" and o: "append_of X J plan newFact w0 observed q s p w'" by blast
  then obtain w1 where obs: "snapshotIdentityOk plan observed" and pr: "projectMultiRepositoryCanonicalFacts X (sn_facts s) = Inr p"
      "projectMultiRepositoryCanonicalFacts X (sn_facts observed) = Inr q" and rd: "jn_read J w0 = (Some observed, w1)"
    and or: "s = observed \<and> w' = w1 \<and> obj_get (cj_seenFactIds q) (cf_factId newFact) = Some (cx_factDigest X newFact) \<or>
        obj_get (cj_seenFactIds q) (cf_factId newFact) = None \<and>
        jn_append J w1 (sn_controlHeadSeq observed) (sn_headVersion observed) newFact = (Appended s, w') \<and> appendReceiptOk X plan newFact observed s"
    by (auto simp: append_of_def)
  from or show ?thesis
  proof (elim disjE conjE)
    assume "s = observed" "w' = w1" "obj_get (cj_seenFactIds q) (cf_factId newFact) = Some (cx_factDigest X newFact)"
    with obs pr rd c show ?thesis by (auto simp: snapshotIdentityOk_def)
  next
    assume new: "obj_get (cj_seenFactIds q) (cf_factId newFact) = None" "appendReceiptOk X plan newFact observed s"
      "jn_append J w1 (sn_controlHeadSeq observed) (sn_headVersion observed) newFact = (Appended s, w')"
    from appendReceipt_facts [OF new(2) obs] obtain f pre where f: "sn_facts s = pre @ [f]" "map (cx_factDigest X) pre = map (cx_factDigest X) (sn_facts observed)"
        "cx_factDigest X f = cx_factDigest X newFact" .
    have "f = newFact" using assms(2) f(1,3) by simp
    with f(1) pr(1) have "obj_get (cj_seenFactIds p) (cf_factId newFact) = Some (cx_factDigest X newFact)" using project_last_seen by metis
    moreover have "map (cx_factDigest X) (sn_facts s) = map (cx_factDigest X) (sn_facts observed @ [newFact])" using f by simp
    ultimately show ?thesis using new obs pr rd c by (intro conjI exI [of _ w0] exI [of _ w1] exI [of _ observed] exI [of _ q]) (auto simp: appendReceiptOk_def)
  qed
qed

section \<open>Witnesses\<close>

definition hexes :: "char \<Rightarrow> string" where "hexes c = replicate 64 c"

definition oid_of :: "char \<Rightarrow> string" where "oid_of c = replicate 40 c"

definition run_prims :: CanonicalPrims where
  "run_prims = \<lparr>cx_run = plan_prims\<lparr>rx_domain := sample_domain\<lparr>dp_setDigest := \<lambda>_. hexes CHR ''a''\<rparr>, rx_planDigest := \<lambda>_. hexes CHR ''d''\<rparr>,
     cx_scheduler = sample_prims,
     cx_integration = \<lparr>ix_eventDigest = iv_eventId, ix_candidateDigest = rc_candidateOid, ix_eventId = (\<lambda>_ _ _. []), ix_assertHeld = (\<lambda>_. True), ix_verifiedAt = []\<rparr>,
     cx_publication = \<lparr>px_eventDigest = pv_eventId, px_eventId = (\<lambda>_ _ _. []), px_canParseUrl = (\<lambda>_. True), px_zodUrl = (\<lambda>_. True)\<rparr>,
     cx_datetime = (\<lambda>_. True), cx_reasonText = (\<lambda>_. []), cx_factDigest = cf_factId, cx_receiptDigest = (\<lambda>_. hexes CHR ''f''), cx_appliedDigest = (\<lambda>_. hexes CHR ''e'')\<rparr>"

definition run_plan :: RunPlan where
  "run_plan = (case materializeMultiRepositoryRunPlan (cx_run run_prims) plan_request of Inr plan \<Rightarrow> plan | Inl _ \<Rightarrow> undefined)"

definition run_lease :: LeaseGrant where
  "run_lease = \<lparr>lg_leaseToken = hexes CHR ''c'', lg_leaseVersion = 1, lg_attemptId = ''attempt-1'', lg_repositorySetId = hexes CHR ''a'', lg_providerId = ''claude'',
     lg_repositoryIds = [''api''], lg_ownerId = ''worker'', lg_ownerIncarnation = ''worker:1'', lg_issuedAt = ''2026-01-01T00:00:00.000Z'',
     lg_expiresAt = ''2026-01-01T00:05:00.000Z''\<rparr>"

definition run_entry :: IntegrationEntryPlan where
  "run_entry = \<lparr>ip_repository = hd (rn_registry run_plan), ip_targetRef = ''refs/heads/integration'', ip_expectedOid = oid_of CHR ''1'', ip_childOid = oid_of CHR ''2'',
     ip_canonicalWorkspacePath = ''/tmp/ws/api'', ip_message = ''ship''\<rparr>"

definition run_step :: "int \<Rightarrow> string \<Rightarrow> IntegrationBody \<Rightarrow> CanonicalFact" where
  "run_step v k body = IntegrationFact k ''ship'' 1 (hexes CHR ''c'') \<lparr>iv_eventId = k, iv_transactionId = ''tx'', iv_expectedVersion = v, iv_body = body\<rparr>"

definition run_facts :: "CanonicalFact list" where
  "run_facts =
     [PlanFact ''f0'' run_plan,
      SchedulerFact ''f1'' (sample_event 1 ''e1'' ''ship'' (TaskRegistered (hexes CHR ''a'') [''api''] ''claude'' [] 0)),
      SchedulerFact ''f2'' (sample_event 2 ''e2'' ''ship'' (LeaseGranted 1 run_lease)),
      WorkerSettledFact \<lparr>kf_factId = ''f3'', kf_taskId = ''ship'', kf_taskGeneration = 1, kf_attemptId = ''attempt-1'', kf_leaseToken = hexes CHR ''c'',
        kf_settlement = \<lparr>ws_processIdentity = ''p'', ws_settlementCallId = ''s'', ws_outputDigest = hexes CHR ''b'', ws_summary = [], ws_transportTrusted = True,
          ws_scopeTrusted = True, ws_scopeReaped = True, ws_settlementTrusted = True\<rparr>\<rparr>,
      IntentFact \<lparr>ci_factId = ''f4'', ci_taskId = ''ship'', ci_taskGeneration = 1, ci_attemptId = ''attempt-1'', ci_leaseToken = hexes CHR ''c'', ci_repositoryId = ''api'',
        ci_branchRef = ''refs/heads/agent/ship'', ci_expectedOid = oid_of CHR ''1'', ci_treeOid = oid_of CHR ''3'', ci_message = ''ship''\<rparr>,
      HeadRecordedFact \<lparr>hf_factId = ''f5'', hf_taskId = ''ship'', hf_taskGeneration = 1, hf_attemptId = ''attempt-1'', hf_leaseToken = hexes CHR ''c'', hf_repositoryId = ''api'',
        hf_branchRef = ''refs/heads/agent/ship'', hf_expectedOid = oid_of CHR ''1'', hf_childOid = oid_of CHR ''2'', hf_treeOid = oid_of CHR ''3''\<rparr>,
      run_step 0 ''f6'' (IntegrationCreated \<lparr>np_transactionId = ''tx'', np_repositorySetId = hexes CHR ''a'', np_entries = [run_entry], np_verifyCommands = [''make''],
        np_verifyEnvironment = []\<rparr>),
      run_step 1 ''f7'' (CandidatePrepared ''api'' \<lparr>rc_repositoryId = ''api'', rc_targetRef = ''refs/heads/integration'', rc_expectedOid = oid_of CHR ''1'',
        rc_childOid = oid_of CHR ''2'', rc_candidateOid = oid_of CHR ''4'', rc_treeOid = oid_of CHR ''5'', rc_parents = (oid_of CHR ''1'', oid_of CHR ''2'')\<rparr>),
      run_step 2 ''f8'' IntegrationPrepared, run_step 3 ''f9'' VerificationStarted,
      run_step 4 ''f10'' (IntegrationVerified \<lparr>cvr_transactionId = ''tx'', cvr_repositorySetId = hexes CHR ''a'', cvr_manifestDigest = hexes CHR ''9'', cvr_verifiedAt = [],
        cvr_resultDigests = [], cvr_receiptDigest = hexes CHR ''8''\<rparr>),
      run_step 5 ''f11'' ApplyingStarted, run_step 6 ''f12'' (EntryApplied ''api'' (Applied (oid_of CHR ''4''))), run_step 7 ''f13'' IntegrationApplied,
      ReceiptFact \<lparr>lf_factId = ''f14'', lf_taskId = ''ship'', lf_taskGeneration = 1, lf_leaseToken = hexes CHR ''c'', lf_transactionId = ''tx'',
        lf_repositorySetId = hexes CHR ''a'', lf_verificationReceiptDigest = hexes CHR ''8'', lf_appliedEntriesDigest = hexes CHR ''e'', lf_receiptDigest = hexes CHR ''f''\<rparr>,
      PublicationFact ''f15'' ''ship'' 1 \<lparr>pv_eventId = ''f15'', pv_transactionId = ''tx'', pv_expectedVersion = 0, pv_body = PublicationCreated
        \<lparr>lp_transactionId = ''tx'', lp_repositorySetId = hexes CHR ''a'', lp_localIntegrationReceiptDigest = hexes CHR ''f'', lp_policyApproved = True,
          lp_entries = [\<lparr>ep_repositoryId = ''api'', ep_publicationId = ''pub'', ep_candidateOid = oid_of CHR ''4'', ep_localIntegrationRef = ''refs/heads/integration'',
            ep_remoteName = ''origin'', ep_expectedPushUrl = ''https://h/r'', ep_remoteRef = ''refs/heads/ship'', ep_expectedRemoteOid = None, ep_baseRef = ''refs/heads/main'',
            ep_title = [], ep_body = []\<rparr>]\<rparr>\<rparr>]"

lemma run_replays: "map_sum id (\<lambda>p. (map fst (cj_publications p), map fst (cj_workers p))) (projectMultiRepositoryCanonicalFacts run_prims run_facts) = Inr ([''tx''], [''ship''])"
  by code_simp

lemma run_projection:
  obtains p publication r where "projectMultiRepositoryCanonicalFacts run_prims run_facts = Inr p" "obj_get (cj_publications p) ''tx'' = Some publication"
    "obj_get (cj_workers p) ''ship'' = Some r"
proof -
  from run_replays obtain p where p: "projectMultiRepositoryCanonicalFacts run_prims run_facts = Inr p" "map fst (cj_publications p) = [''tx'']" "map fst (cj_workers p) = [''ship'']"
    by (cases "projectMultiRepositoryCanonicalFacts run_prims run_facts") auto
  then obtain publication r where "cj_publications p = [(''tx'', publication)]" "cj_workers p = [(''ship'', r)]" by (auto simp: Cons_eq_map_conv)
  then show thesis using that p(1) by auto
qed

theorem canonical_publication_chain_witness:
  "\<exists>p publication r i. projectMultiRepositoryCanonicalFacts run_prims run_facts = Inr p \<and> obj_get (cj_publications p) ''tx'' = Some publication \<and>
     ReceiptFact r \<in> set run_facts \<and> obj_get (cj_integrations p) (lf_transactionId r) = Some i \<and> in_state i = VectorApplied"
proof -
  obtain p publication where "projectMultiRepositoryCanonicalFacts run_prims run_facts = Inr p" "obj_get (cj_publications p) ''tx'' = Some publication"
    using run_projection by metis
  with canonical_publication_chain [OF this] show ?thesis by blast
qed

theorem canonical_fenced_witness:
  "\<exists>p r. projectMultiRepositoryCanonicalFacts run_prims run_facts = Inr p \<and> obj_get (cj_workers p) ''ship'' = Some r \<and>
     recorded_under run_prims run_facts (WorkerSettledFact r) (kf_taskId r) (kf_taskGeneration r) (kf_leaseToken r) (kf_attemptId r)"
proof -
  obtain p r where "projectMultiRepositoryCanonicalFacts run_prims run_facts = Inr p" "obj_get (cj_workers p) ''ship'' = Some r"
    using run_projection by metis
  with canonical_fenced [OF this(1)] show ?thesis by blast
qed

text \<open>A journal that keeps its facts in memory.\<close>

definition memory_journal :: "CanonicalFact list CanonicalJournal" where
  "memory_journal = (let snapshot = \<lambda>w. \<lparr>sn_runId = rn_runId run_plan, sn_runEpoch = rn_runEpoch run_plan, sn_controlHeadSeq = int (length w),
       sn_headVersion = int (length w), sn_facts = w\<rparr> in
     \<lparr>jn_read = \<lambda>w. (Some (snapshot w), w),
      jn_append = \<lambda>w headSeq version f. if headSeq = int (length w) then (Appended (snapshot (w @ [f])), w @ [f]) else (HeadConflict, w)\<rparr>)"

theorem append_canonical_exact_witness:
  "\<exists>s p. appendCanonical run_prims memory_journal run_plan (PlanFact ''f0'' run_plan) [] = (Inr (s, p), [PlanFact ''f0'' run_plan]) \<and>
     obj_get (cj_seenFactIds p) ''f0'' = Some ''f0''"
proof -
  let ?f = "PlanFact ''f0'' run_plan"
  have "\<not> isl (projectMultiRepositoryCanonicalFacts run_prims [?f])" by code_simp
  then obtain p where p: "projectMultiRepositoryCanonicalFacts run_prims [?f] = Inr p" by (cases "projectMultiRepositoryCanonicalFacts run_prims [?f]") auto
  have e: "projectMultiRepositoryCanonicalFacts run_prims [] = Inr emptyCanonicalProjection" by (simp add: projectMultiRepositoryCanonicalFacts_def maximumJournalFacts_def)
  obtain s where a: "appendCanonical run_prims memory_journal run_plan ?f [] = (Inr (s, p), [?f])" "sn_facts s = [?f]"
    using p e by (simp add: appendCanonical_def maximumAppendConflicts_def numeral_eq_Suc readCanonical_def memory_journal_def checkSnapshot_def snapshotIdentityOk_def
        appendReceiptOk_def bind_res_def checks.simps emptyCanonicalProjection_def MAX_SAFE_INTEGER_def)
  have "cf_factId ?f = ''f0''" "cx_factDigest run_prims ?f = ''f0''" by (simp_all add: cf_factId_def run_prims_def)
  with append_canonical_exact [OF a(1)] a show ?thesis by auto
qed

end
