(* ===== verification/Control_Store.thy ===== *)
theory Control_Store
  imports Control_Props "HOL-Library.Multiset"
begin

text \<open>
  The durable control store (\<open>src/control/store.ts\<close>): an append-only table of events in SQLite, tables that
  materialise the projection of the reducer, consumer cursors and snapshots.

  A database is a record of tables; a table keyed by a text column is an object, a table without one a list of rows.
  \<open>db.transaction(f)\<close> is \<open>transaction\<close>: the rows of a throwing body are rolled back. Columns of the
  projection tables that nothing reads (the copies of status, version and sequence number beside \<open>fact_json\<close>)
  are left out, except the three of \<open>attempt_projection\<close> a UNIQUE constraint covers.

  The texts of \<open>canonicalJson\<close> are values of a type parameter. A \<open>Codec\<close> pairs \<open>canonicalJson\<close> of one kind of value
  with the \<open>JSON.parse\<close> that reads it back; \<open>codec_ok\<close> is what the store relies on. The schema of events is
  \<open>schemaOk\<close>: the bounds of the numbers an event is filed by are written out, the rest of the zod object is the parameter
  \<open>sp_schema\<close>; the CHECK constraints of \<open>control_events\<close> repeat that schema. Errors keep their code and lose their
  message. The path, inode and pragma checks of opening a file, the wake-ups of subscribers and the test-only fault hook are
  left out, and so are the observation and multirepo events.
\<close>

section \<open>Rows and tables\<close>

datatype ControlStoreErrorCode =
    RECOVERY_REQUIRED | CURSOR_EXPIRED | EVENT_ID_CONFLICT | STALE_GENERATION | STALE_VERSION
  | RUN_IDENTITY_MISMATCH | STORE_CLOSED | STORE_BUSY | INVALID_EVENT

record ('txt, 'v) Codec =
  cd_encode :: "'v \<Rightarrow> 'txt"
  cd_decode :: "'txt \<Rightarrow> 'v option"

record ExternalSource =
  xs_kind :: string
  xs_id :: string
  xs_generation :: nat
  xs_eventId :: string

text \<open>An event as its producer wrote it: \<open>seq\<close> and \<open>recordedAt\<close> are not part of it, and are blank here.\<close>

record ControlIntent =
  it_event :: ControlEvent
  it_source :: "ExternalSource option"

record PersistedControlEvent =
  pe_intent :: ControlIntent
  pe_seq :: nat
  pe_recordedAt :: string
  pe_intentDigest :: string
  pe_digest :: string

record 'txt FactRow =
  fr_factJson :: 'txt
  fr_digest :: string

record 'txt MessageRow =
  mr_messageId :: string
  mr_seq :: nat
  mr_fact :: "'txt FactRow"

record 'txt AttemptRow =
  ar_taskId :: string
  ar_taskGeneration :: nat
  ar_attemptGeneration :: nat
  ar_fact :: "'txt FactRow"

record 'txt EventRow =
  er_seq :: nat
  er_eventId :: string
  er_runId :: string
  er_runEpoch :: string
  er_taskId :: "string option"
  er_taskGeneration :: "nat option"
  er_expectedVersion :: nat
  er_occurredAt :: string
  er_recordedAt :: string
  er_actorKind :: ControlActorKind
  er_actorId :: string
  er_source :: "ExternalSource option"
  er_eventType :: string
  er_payloadJson :: 'txt
  er_canonicalJson :: 'txt
  er_intentDigest :: string
  er_digest :: string

record 'txt SnapshotRow =
  sn_seq :: nat
  sn_storeId :: string
  sn_schemaVersion :: nat
  sn_reducerVersion :: nat
  sn_runId :: string
  sn_runEpoch :: string
  sn_payloadJson :: 'txt
  sn_digest :: string
  sn_createdAt :: string
  sn_verifiedAt :: string

record ConsumerCursor =
  cu_consumerId :: string
  cu_generation :: nat
  cu_lastSeq :: nat
  cu_updatedAt :: string

record MetaRow =
  mt_storeId :: string
  mt_schemaVersion :: nat
  mt_reducerVersion :: nat
  mt_runId :: string
  mt_runEpoch :: string
  mt_retainedFloor :: nat
  mt_headSeq :: nat
  mt_createdAt :: string

record 'txt Database =
  db_meta :: MetaRow
  db_events :: "'txt EventRow list"
  db_run :: "'txt FactRow option"
  db_tasks :: "'txt FactRow obj"
  db_messages :: "'txt MessageRow list"
  db_runtimes :: "'txt FactRow obj"
  db_attempts :: "'txt AttemptRow obj"
  db_steering :: "'txt FactRow obj"
  db_aggregates :: "AggregateVersion obj"
  db_snapshots :: "'txt SnapshotRow list"
  db_cursors :: "ConsumerCursor obj"

record 'txt StorePrims =
  sp_control :: ControlPrims
  sp_sha256 :: "'txt \<Rightarrow> string"
  sp_schema :: "ControlIntent \<Rightarrow> bool"
  sp_intent :: "('txt, ControlIntent) Codec"
  sp_persisted :: "('txt, ControlIntent \<times> string) Codec"
  sp_payload :: "('txt, ControlEventBody) Codec"
  sp_run :: "('txt, RunFact) Codec"
  sp_task :: "('txt, TaskFact) Codec"
  sp_message :: "('txt, MessageFact) Codec"
  sp_runtime :: "('txt, RuntimeFact) Codec"
  sp_attempt :: "('txt, AttemptFact) Codec"
  sp_steering :: "('txt, SteeringFact) Codec"
  sp_projection :: "('txt, ControlProjection) Codec"

text \<open>The open handle: the identity the store was opened with, and whether it was closed.\<close>

record ControlStore =
  cst_runId :: string
  cst_runEpoch :: string
  cst_storeId :: string
  cst_closed :: bool

type_synonym 'a stored = "ControlStoreErrorCode + 'a"

section \<open>Reading rows\<close>

definition isSafeInteger :: "nat \<Rightarrow> bool" where
  "isSafeInteger n \<longleftrightarrow> int n \<le> 9007199254740991"

definition safeOption :: "nat option \<Rightarrow> bool" where
  "safeOption x = (case x of None \<Rightarrow> True | Some n \<Rightarrow> isSafeInteger n)"

definition asSafeInteger :: "nat \<Rightarrow> nat stored" where
  "asSafeInteger n = (if isSafeInteger n then Inr n else Inl RECOVERY_REQUIRED)"

definition canonicalUtc :: "'txt StorePrims \<Rightarrow> string \<Rightarrow> string stored" where
  "canonicalUtc P v =
     (let C = sp_control P in
      if v = [] \<or> last v \<noteq> CHR ''Z'' \<or> cx_toISOString C (cx_dateParse C v) \<noteq> v then Inl RECOVERY_REQUIRED else Inr v)"

definition hexRun :: "nat \<Rightarrow> string \<Rightarrow> bool" where
  "hexRun n s \<longleftrightarrow> length s = n \<and> list_all (\<lambda>c. is_lower_hex c \<or> c \<in> set ''ABCDEF'') s"

definition storeIdOk :: "string \<Rightarrow> bool" where
  "storeIdOk s = (case split_on (CHR ''-'') s of
     [a, b, c, d, e] \<Rightarrow> hexRun 8 a \<and> hexRun 4 b \<and> hexRun 4 c \<and> hd c = CHR ''4'' \<and> hexRun 4 d \<and> hd d \<in> set ''89abAB'' \<and> hexRun 12 e
   | _ \<Rightarrow> False)"

definition readMeta :: "'txt StorePrims \<Rightarrow> 'txt Database \<Rightarrow> MetaRow stored" where
  "readMeta P db =
     (let row = db_meta db in
      bind_res (checks [(mt_schemaVersion row \<noteq> 1 \<or> mt_reducerVersion row \<noteq> 1, RECOVERY_REQUIRED),
                        (\<not> isSafeInteger (mt_retainedFloor row) \<or> mt_retainedFloor row < 1, RECOVERY_REQUIRED),
                        (\<not> isSafeInteger (mt_headSeq row), RECOVERY_REQUIRED),
                        (\<not> storeIdOk (mt_storeId row), RECOVERY_REQUIRED)]) (\<lambda>_.
      bind_res (canonicalUtc P (mt_createdAt row)) (\<lambda>_. Inr row)))"

definition verifyRunIdentity :: "MetaRow \<Rightarrow> string \<Rightarrow> string \<Rightarrow> unit stored" where
  "verifyRunIdentity meta runId runEpoch = checks [(mt_runId meta \<noteq> runId \<or> mt_runEpoch meta \<noteq> runEpoch, RUN_IDENTITY_MISMATCH)]"

definition eventType :: "ControlEventBody \<Rightarrow> string" where
  "eventType b = (case b of
     EvRunStarted _ _ _ \<Rightarrow> ''run.started'' | EvRunCompleted _ \<Rightarrow> ''run.completed'' | EvRunFailed _ _ \<Rightarrow> ''run.failed''
   | EvRunCancelled _ _ \<Rightarrow> ''run.cancelled'' | EvRunCheckpointed _ \<Rightarrow> ''run.checkpointed''
   | EvTaskCreated _ \<Rightarrow> ''task.created'' | EvTaskReopened _ _ \<Rightarrow> ''task.reopened'' | EvTaskStatusChanged _ _ _ \<Rightarrow> ''task.status_changed''
   | EvMessagePosted _ _ _ _ \<Rightarrow> ''message.posted'' | EvRuntimeObserved _ \<Rightarrow> ''runtime.observed''
   | EvAttemptPrepared _ \<Rightarrow> ''attempt.prompt_prepared'' | EvAttemptLaunchPlanned _ _ \<Rightarrow> ''attempt.launch_planned''
   | EvAttemptStarted _ _ _ _ \<Rightarrow> ''attempt.started'' | EvAttemptExited _ _ _ _ \<Rightarrow> ''attempt.exited''
   | EvAttemptAbandoned _ _ _ \<Rightarrow> ''attempt.abandoned''
   | EvSteeringAdmitted _ \<Rightarrow> ''steering.command_admitted'' | EvSteeringRefused _ \<Rightarrow> ''steering.command_refused''
   | EvSteeringTerminalRefused _ \<Rightarrow> ''steering.command_terminal_refused'' | EvSteeringIncluded _ _ _ _ \<Rightarrow> ''steering.command_included''
   | EvSteeringWithdrawn _ _ \<Rightarrow> ''steering.command_withdrawn'' | EvSteeringSuperseded _ _ \<Rightarrow> ''steering.command_superseded''
   | EvSteeringExpired _ \<Rightarrow> ''steering.command_expired''
   | EvPublicationRecorded _ \<Rightarrow> ''scm.publication_recorded'' | EvPublicationStateChanged _ \<Rightarrow> ''scm.publication_state_changed''
   | EvPollStarted _ \<Rightarrow> ''scm.poll_started'' | EvPollCompleted _ \<Rightarrow> ''scm.poll_completed'' | EvPollFailed _ _ \<Rightarrow> ''scm.poll_failed''
   | EvBucketAccepted _ \<Rightarrow> ''scm.bucket_accepted'' | EvReactionCreated _ \<Rightarrow> ''scm.reaction_created''
   | EvReactionTransitioned _ \<Rightarrow> ''scm.reaction_transitioned'')"

text \<open>\<open>positive\<close> and \<open>nonNegative\<close> of the event schema: a number is at most \<open>Number.MAX_SAFE_INTEGER\<close>.\<close>

definition safeNumbers :: "ControlIntent \<Rightarrow> bool" where
  "safeNumbers i =
     (let e = it_event i in
      isSafeInteger (ev_expectedVersion e) \<and> safeOption (ev_taskGeneration e) \<and>
      safeOption (map_option xs_generation (it_source i)) \<and>
      safeOption (map_option snd (eventSession (ev_body e))) \<and>
      (case ev_body e of EvTaskReopened g _ \<Rightarrow> isSafeInteger g | _ \<Rightarrow> True))"

definition schemaOk :: "'txt StorePrims \<Rightarrow> ControlIntent \<Rightarrow> bool" where
  "schemaOk P i \<longleftrightarrow> safeNumbers i \<and> sp_schema P i"

definition canonicalControlEvent :: "'txt StorePrims \<Rightarrow> ControlIntent \<Rightarrow> 'txt" where
  "canonicalControlEvent P i = cd_encode (sp_intent P) i"

definition controlEventDigest :: "'txt StorePrims \<Rightarrow> ControlIntent \<Rightarrow> string" where
  "controlEventDigest P i = sp_sha256 P (canonicalControlEvent P i)"

definition canonicalPersistedControlEvent :: "'txt StorePrims \<Rightarrow> ControlIntent \<Rightarrow> string \<Rightarrow> 'txt" where
  "canonicalPersistedControlEvent P i recordedAt = cd_encode (sp_persisted P) (i, recordedAt)"

definition persistedControlEventDigest :: "'txt StorePrims \<Rightarrow> ControlIntent \<Rightarrow> string \<Rightarrow> string" where
  "persistedControlEventDigest P i recordedAt = sp_sha256 P (canonicalPersistedControlEvent P i recordedAt)"

text \<open>The event the reducer sees: the intent with the fields the store allocated.\<close>

definition persistedEvent :: "PersistedControlEvent \<Rightarrow> ControlEvent" where
  "persistedEvent pe = (it_event (pe_intent pe))\<lparr>ev_seq := pe_seq pe, ev_recordedAt := pe_recordedAt pe\<rparr>"

definition decodeEventRow :: "'txt StorePrims \<Rightarrow> 'txt EventRow \<Rightarrow> PersistedControlEvent stored" where
  "decodeEventRow P row =
     bind_res (asSafeInteger (er_seq row)) (\<lambda>seq.
     bind_res (require_some RECOVERY_REQUIRED (cd_decode (sp_persisted P) (er_canonicalJson row))) (\<lambda>(i, recordedAt).
     bind_res (canonicalUtc P recordedAt) (\<lambda>_.
     let e = it_event i in
     bind_res (checks
       [(\<not> schemaOk P i, RECOVERY_REQUIRED),
        (canonicalPersistedControlEvent P i recordedAt \<noteq> er_canonicalJson row \<or>
         persistedControlEventDigest P i recordedAt \<noteq> er_digest row, RECOVERY_REQUIRED),
        (controlEventDigest P i \<noteq> er_intentDigest row, RECOVERY_REQUIRED),
        (cd_encode (sp_payload P) (ev_body e) \<noteq> er_payloadJson row, RECOVERY_REQUIRED),
        (ev_eventId e \<noteq> er_eventId row \<or> ev_runId e \<noteq> er_runId row \<or> ev_runEpoch e \<noteq> er_runEpoch row \<or>
         ev_taskId e \<noteq> er_taskId row \<or> ev_taskGeneration e \<noteq> er_taskGeneration row \<or>
         ev_expectedVersion e \<noteq> er_expectedVersion row \<or> ev_occurredAt e \<noteq> er_occurredAt row \<or>
         recordedAt \<noteq> er_recordedAt row \<or> ev_actorKind e \<noteq> er_actorKind row \<or> ev_actorId e \<noteq> er_actorId row \<or>
         it_source i \<noteq> er_source row \<or> eventType (ev_body e) \<noteq> er_eventType row, RECOVERY_REQUIRED)]) (\<lambda>_.
     Inr \<lparr>pe_intent = i, pe_seq = seq, pe_recordedAt = recordedAt, pe_intentDigest = er_intentDigest row,
          pe_digest = er_digest row\<rparr>))))"

text \<open>\<open>SELECT * FROM control_events [WHERE seq <= throughSeq] ORDER BY seq\<close>\<close>

definition readAllEvents :: "'txt StorePrims \<Rightarrow> 'txt Database \<Rightarrow> nat option \<Rightarrow> PersistedControlEvent list stored" where
  "readAllEvents P db throughSeq =
     mapRes (decodeEventRow P)
       (sort_key er_seq (filter (\<lambda>r. case throughSeq of None \<Rightarrow> True | Some t \<Rightarrow> er_seq r \<le> t) (db_events db)))"

text \<open>A \<open>ControlReductionError\<close> leaves the store as \<open>INVALID_EVENT\<close> (\<open>normalizeStoreError\<close>).\<close>

definition reduceStored :: "'txt StorePrims \<Rightarrow> ControlStore \<Rightarrow> PersistedControlEvent list \<Rightarrow> ControlProjection option \<Rightarrow> ControlProjection stored" where
  "reduceStored P S pes initial =
     mapErr (\<lambda>_. INVALID_EVENT) (reduceControlEvents (sp_control P) (cst_runId S) (cst_runEpoch S) (map persistedEvent pes) initial)"

definition decodeFact :: "'txt StorePrims \<Rightarrow> ('txt, 'v) Codec \<Rightarrow> 'txt FactRow \<Rightarrow> 'v stored" where
  "decodeFact P codec row =
     bind_res (checks [(sp_sha256 P (fr_factJson row) \<noteq> fr_digest row, RECOVERY_REQUIRED)]) (\<lambda>_.
     bind_res (require_some RECOVERY_REQUIRED (cd_decode codec (fr_factJson row))) (\<lambda>v.
     bind_res (checks [(cd_encode codec v \<noteq> fr_factJson row, RECOVERY_REQUIRED)]) (\<lambda>_. Inr v)))"

text \<open>\<open>ORDER BY key\<close>: by the bytes of the key.\<close>

definition by_key :: "'v obj \<Rightarrow> 'v obj" where
  "by_key t = sort_key (\<lambda>r. map (of_char :: char \<Rightarrow> nat) (fst r)) t"

definition loadFacts :: "'txt StorePrims \<Rightarrow> ('txt, 'v) Codec \<Rightarrow> 'txt FactRow obj \<Rightarrow> 'v obj stored" where
  "loadFacts P codec table = mapRes (\<lambda>(k, row). bind_res (decodeFact P codec row) (\<lambda>v. Inr (k, v))) (by_key table)"

definition isScmRow :: "'txt EventRow \<Rightarrow> bool" where
  "isScmRow row \<longleftrightarrow> take 4 (er_eventType row) = ''scm.''"

definition loadScm :: "'txt StorePrims \<Rightarrow> ControlStore \<Rightarrow> 'txt Database \<Rightarrow> ScmControlProjection stored" where
  "loadScm P S db =
     (if list_ex isScmRow (db_events db) then
        bind_res (readAllEvents P db (Some (mt_headSeq (db_meta db)))) (\<lambda>pes.
        bind_res (reduceStored P S pes None) (\<lambda>replayed. Inr (cs_scm replayed)))
      else Inr emptyScmControlProjection)"

definition loadAggregates :: "AggregateVersion obj \<Rightarrow> AggregateVersion obj stored" where
  "loadAggregates table =
     bind_res (checks (map (\<lambda>(_, a). (\<not> isSafeInteger (ag_generation a) \<or> \<not> isSafeInteger (ag_version a) \<or>
        \<not> isSafeInteger (ag_updatedSeq a), RECOVERY_REQUIRED)) (by_key table))) (\<lambda>_. Inr (by_key table))"

definition loadProjection :: "'txt StorePrims \<Rightarrow> ControlStore \<Rightarrow> 'txt Database \<Rightarrow> ControlProjection stored" where
  "loadProjection P S db =
     bind_res (readMeta P db) (\<lambda>meta.
     bind_res (verifyRunIdentity meta (cst_runId S) (cst_runEpoch S)) (\<lambda>_.
     bind_res (case db_run db of None \<Rightarrow> Inr None | Some row \<Rightarrow> bind_res (decodeFact P (sp_run P) row) (\<lambda>r. Inr (Some r))) (\<lambda>run.
     bind_res (loadFacts P (sp_task P) (db_tasks db)) (\<lambda>tasks.
     bind_res (mapRes (\<lambda>row. decodeFact P (sp_message P) (mr_fact row)) (sort_key mr_seq (db_messages db))) (\<lambda>messages.
     bind_res (loadFacts P (sp_runtime P) (db_runtimes db)) (\<lambda>runtimes.
     bind_res (loadFacts P (sp_attempt P) (map (map_prod id ar_fact) (db_attempts db))) (\<lambda>attempts.
     bind_res (loadFacts P (sp_steering P) (db_steering db)) (\<lambda>steering.
     bind_res (loadAggregates (db_aggregates db)) (\<lambda>aggregates.
     bind_res (loadScm P S db) (\<lambda>scm.
     Inr \<lparr>cs_runId = cst_runId S, cs_runEpoch = cst_runEpoch S, cs_headSeq = mt_headSeq meta, cs_run = run, cs_tasks = tasks,
       cs_messages = messages, cs_runtimes = runtimes, cs_attempts = attempts, cs_steering = steering, cs_scm = scm,
       cs_aggregateVersions = aggregates\<rparr>))))))))))"

section \<open>Writing rows\<close>

definition factRow :: "'txt StorePrims \<Rightarrow> ('txt, 'v) Codec \<Rightarrow> 'v \<Rightarrow> 'txt FactRow" where
  "factRow P codec v = \<lparr>fr_factJson = cd_encode codec v, fr_digest = sp_sha256 P (cd_encode codec v)\<rparr>"

definition attemptRow :: "'txt StorePrims \<Rightarrow> AttemptFact \<Rightarrow> 'txt AttemptRow" where
  "attemptRow P a = \<lparr>ar_taskId = a_taskId a, ar_taskGeneration = a_taskGeneration a,
     ar_attemptGeneration = a_attemptGeneration a, ar_fact = factRow P (sp_attempt P) a\<rparr>"

definition messageRow :: "'txt StorePrims \<Rightarrow> MessageFact \<Rightarrow> 'txt MessageRow" where
  "messageRow P m = \<lparr>mr_messageId = m_messageId m, mr_seq = m_seq m, mr_fact = factRow P (sp_message P) m\<rparr>"

text \<open>\<open>INSERT\<close> under the constraints of \<open>message_projection\<close>, and the upsert under those of \<open>attempt_projection\<close>.\<close>

definition insertMessage :: "'txt StorePrims \<Rightarrow> MessageFact \<Rightarrow> 'txt MessageRow list \<Rightarrow> 'txt MessageRow list stored" where
  "insertMessage P m rows =
     bind_res (checks [(list_ex (\<lambda>r. mr_messageId r = m_messageId m \<or> mr_seq r = m_seq m) rows, RECOVERY_REQUIRED)]) (\<lambda>_.
     Inr (rows @ [messageRow P m]))"

definition upsertAttempt :: "'txt StorePrims \<Rightarrow> AttemptFact \<Rightarrow> 'txt AttemptRow obj \<Rightarrow> 'txt AttemptRow obj stored" where
  "upsertAttempt P a rows =
     bind_res (checks [(list_ex (\<lambda>(k, r). k \<noteq> a_attemptId a \<and> ar_taskId r = a_taskId a \<and>
        ar_taskGeneration r = a_taskGeneration a \<and> ar_attemptGeneration r = a_attemptGeneration a) rows, RECOVERY_REQUIRED)]) (\<lambda>_.
     Inr (obj_set (a_attemptId a) (attemptRow P a) rows))"

definition insertFact :: "'txt StorePrims \<Rightarrow> ('txt, 'v) Codec \<Rightarrow> ('v \<Rightarrow> string) \<Rightarrow> 'txt FactRow obj \<Rightarrow> 'v \<Rightarrow> 'txt FactRow obj stored" where
  "insertFact P codec key rows v =
     bind_res (checks [(obj_has rows (key v), RECOVERY_REQUIRED)]) (\<lambda>_. Inr (rows @ [(key v, factRow P codec v)]))"

definition insertAttempt :: "'txt StorePrims \<Rightarrow> 'txt AttemptRow obj \<Rightarrow> AttemptFact \<Rightarrow> 'txt AttemptRow obj stored" where
  "insertAttempt P rows a =
     bind_res (checks [(obj_has rows (a_attemptId a), RECOVERY_REQUIRED)]) (\<lambda>_. upsertAttempt P a rows)"

definition replaceProjection :: "'txt StorePrims \<Rightarrow> ControlProjection \<Rightarrow> 'txt Database \<Rightarrow> 'txt Database stored" where
  "replaceProjection P st db =
     bind_res (fold_res (insertFact P (sp_task P) t_id) [] (obj_values (cs_tasks st))) (\<lambda>tasks.
     bind_res (fold_res (\<lambda>rows m. insertMessage P m rows) [] (sort_key m_seq (cs_messages st))) (\<lambda>messages.
     bind_res (fold_res (insertFact P (sp_runtime P) rt_sessionId) [] (obj_values (cs_runtimes st))) (\<lambda>runtimes.
     bind_res (fold_res (insertAttempt P) [] (obj_values (cs_attempts st))) (\<lambda>attempts.
     bind_res (fold_res (insertFact P (sp_steering P) sf_commandId) [] (obj_values (cs_steering st))) (\<lambda>steering.
     Inr (db\<lparr>db_run := map_option (factRow P (sp_run P)) (cs_run st), db_tasks := tasks, db_messages := messages,
       db_runtimes := runtimes, db_attempts := attempts, db_steering := steering,
       db_aggregates := cs_aggregateVersions st\<rparr>))))))"

text \<open>The key of the fact an attempt or steering event writes.\<close>

definition attemptOf :: "ControlEventBody \<Rightarrow> string" where
  "attemptOf b = (case b of EvAttemptPrepared p \<Rightarrow> ab_attemptId p | EvAttemptLaunchPlanned p _ \<Rightarrow> ab_attemptId p
     | EvAttemptStarted p _ _ _ \<Rightarrow> ab_attemptId p | EvAttemptExited p _ _ _ \<Rightarrow> ab_attemptId p
     | EvAttemptAbandoned p _ _ \<Rightarrow> ab_attemptId p | _ \<Rightarrow> [])"

definition steeringOf :: "ControlEventBody \<Rightarrow> string" where
  "steeringOf b = (case b of EvSteeringAdmitted p \<Rightarrow> tg_commandId p | EvSteeringRefused p \<Rightarrow> tg_commandId p
     | EvSteeringTerminalRefused p \<Rightarrow> tg_commandId p | EvSteeringIncluded p _ _ _ \<Rightarrow> tg_commandId p
     | EvSteeringWithdrawn p _ \<Rightarrow> tg_commandId p | EvSteeringSuperseded p _ \<Rightarrow> tg_commandId p
     | EvSteeringExpired p \<Rightarrow> tg_commandId p | _ \<Rightarrow> [])"

definition sessionOf :: "ControlEventBody \<Rightarrow> string" where
  "sessionOf b = (case b of EvRuntimeObserved p \<Rightarrow> ro_sessionId p | _ \<Rightarrow> [])"

definition persistFactDelta :: "'txt StorePrims \<Rightarrow> 'txt Database \<Rightarrow> ControlProjection \<Rightarrow> ControlEvent \<Rightarrow> 'txt Database stored" where
  "persistFactDelta P db st e = (case eventFamily (ev_body e) of
     FamRun \<Rightarrow> bind_res (require_some RECOVERY_REQUIRED (cs_run st)) (\<lambda>run.
       Inr (db\<lparr>db_run := Some (factRow P (sp_run P) run)\<rparr>))
   | FamTask \<Rightarrow> bind_res (require_some RECOVERY_REQUIRED (obj_get (cs_tasks st) (evTask e))) (\<lambda>task.
       Inr (db\<lparr>db_tasks := obj_set (t_id task) (factRow P (sp_task P) task) (db_tasks db)\<rparr>))
   | FamMessage \<Rightarrow> bind_res (require_some RECOVERY_REQUIRED (find (\<lambda>m. m_seq m = ev_seq e) (cs_messages st))) (\<lambda>message.
       bind_res (insertMessage P message (db_messages db)) (\<lambda>rows. Inr (db\<lparr>db_messages := rows\<rparr>)))
   | FamRuntime \<Rightarrow> bind_res (require_some RECOVERY_REQUIRED (obj_get (cs_runtimes st) (sessionOf (ev_body e)))) (\<lambda>runtime.
       Inr (db\<lparr>db_runtimes := obj_set (rt_sessionId runtime) (factRow P (sp_runtime P) runtime) (db_runtimes db)\<rparr>))
   | FamAttempt \<Rightarrow> bind_res (require_some RECOVERY_REQUIRED (obj_get (cs_attempts st) (attemptOf (ev_body e)))) (\<lambda>attempt.
       bind_res (upsertAttempt P attempt (db_attempts db)) (\<lambda>rows. Inr (db\<lparr>db_attempts := rows\<rparr>)))
   | FamSteering \<Rightarrow> bind_res (require_some RECOVERY_REQUIRED (obj_get (cs_steering st) (steeringOf (ev_body e)))) (\<lambda>command.
       Inr (db\<lparr>db_steering := obj_set (sf_commandId command) (factRow P (sp_steering P) command) (db_steering db)\<rparr>))
   | FamScm \<Rightarrow> Inr db)"

definition changedAggregates :: "ControlEvent \<Rightarrow> string list stored" where
  "changedAggregates e =
     bind_res (mapErr (\<lambda>_. INVALID_EVENT) (aggregateForEvent e)) (\<lambda>agg.
     Inr (agg_key agg # (case ev_body e of EvTaskReopened g _ \<Rightarrow> [aggregateKey ''task'' (evTask e) g] | _ \<Rightarrow> [])))"

definition persistProjectionDelta :: "'txt StorePrims \<Rightarrow> 'txt Database \<Rightarrow> ControlProjection \<Rightarrow> ControlEvent \<Rightarrow> 'txt Database stored" where
  "persistProjectionDelta P db st e =
     bind_res (persistFactDelta P db st e) (\<lambda>db1.
     bind_res (changedAggregates e) (\<lambda>keys.
     fold_res (\<lambda>d key. bind_res (require_some RECOVERY_REQUIRED (obj_get (cs_aggregateVersions st) key)) (\<lambda>aggregate.
        Inr (d\<lparr>db_aggregates := obj_set key aggregate (db_aggregates d)\<rparr>))) db1 keys))"

section \<open>Batches\<close>

definition acceptDecision :: "ScmBucketDecision \<Rightarrow> bool" where
  "acceptDecision d \<longleftrightarrow> d \<in> {AcceptNew, AcceptChanged, AcceptRefresh, AcceptMergedPartial}"

definition completionsOf :: "ControlIntent list \<Rightarrow> (ControlEvent \<times> ScmPollCompletedPayload) list" where
  "completionsOf es = List.map_filter (\<lambda>i. case ev_body (it_event i) of EvPollCompleted p \<Rightarrow> Some (it_event i, p) | _ \<Rightarrow> None) es"

definition failuresOf :: "ControlIntent list \<Rightarrow> ScmPollRef list" where
  "failuresOf es = List.map_filter (\<lambda>i. case ev_body (it_event i) of EvPollFailed p _ \<Rightarrow> Some p | _ \<Rightarrow> None) es"

definition bucketsOf :: "ControlIntent list \<Rightarrow> ScmBucketAcceptedPayload list" where
  "bucketsOf es = List.map_filter (\<lambda>i. case ev_body (it_event i) of EvBucketAccepted p \<Rightarrow> Some p | _ \<Rightarrow> None) es"

definition startsOf :: "ControlIntent list \<Rightarrow> ScmPollStartedPayload list" where
  "startsOf es = List.map_filter (\<lambda>i. case ev_body (it_event i) of EvPollStarted p \<Rightarrow> Some p | _ \<Rightarrow> None) es"

definition reactionsOf :: "ControlIntent list \<Rightarrow> (ControlEvent \<times> ScmReactionCreatedPayload) list" where
  "reactionsOf es = List.map_filter (\<lambda>i. case ev_body (it_event i) of EvReactionCreated p \<Rightarrow> Some (it_event i, p) | _ \<Rightarrow> None) es"

definition bucketOfPoll :: "ScmPollCompletedPayload \<Rightarrow> ScmBucketAcceptedPayload \<Rightarrow> bool" where
  "bucketOfPoll c b \<longleftrightarrow> ba_pollId b = pf_pollId c \<and> ba_publicationId b = pf_publicationId c \<and>
     ba_publicationGeneration b = pf_publicationGeneration c"

text \<open>An accepted outcome of a completed poll has its one bucket in the batch, any other outcome none.\<close>

definition outcomeOk :: "ScmBucketAcceptedPayload list \<Rightarrow> ScmPollCompletedPayload \<Rightarrow> ScmPollBucketOutcome \<Rightarrow> bool" where
  "outcomeOk buckets c out =
     (let matching = filter (\<lambda>b. bucketOfPoll c b \<and> bucketKind (ba_bucket b) = bo_kind out) buckets in
      if acceptDecision (bo_decision out) then
        (case matching of [b] \<Rightarrow> ba_decision b = bo_decision out \<and> Some (bm_semanticHash (bucketMeta (ba_bucket b))) = bo_semanticHash out
         | _ \<Rightarrow> False)
      else matching = [])"

definition validateScmBatch :: "ControlIntent list \<Rightarrow> unit stored" where
  "validateScmBatch es =
     (let completions = completionsOf es; failures = failuresOf es; buckets = bucketsOf es in
      checks
       [(list_ex (\<lambda>s. pf_pollId s \<in> set (map (\<lambda>c. pf_pollId (snd c)) completions) \<or> pf_pollId s \<in> set (map pf_pollId failures)) (startsOf es),
         INVALID_EVENT),
        (\<not> list_all (\<lambda>c. length (filter (\<lambda>d. pf_pollId (snd d) = pf_pollId (snd c)) completions) = 1 \<and>
            list_all (outcomeOk buckets (snd c)) (pc_bucketOutcomes (snd c))) completions, INVALID_EVENT),
        (\<not> list_all (\<lambda>b. length (filter (\<lambda>c. bucketOfPoll (snd c) b) completions) = 1) buckets, INVALID_EVENT),
        (list_ex (\<lambda>f. ba_pollId f \<in> set (map pf_pollId failures)) buckets, INVALID_EVENT),
        (\<not> list_all (\<lambda>(e, r). length (filter (\<lambda>(d, c). pf_publicationId c = rc_publicationId r \<and>
              pf_publicationGeneration c = rc_publicationGeneration r \<and> pf_expectedHeadSha c = rc_headSha r \<and>
              ev_taskId d = ev_taskId e \<and> ev_taskGeneration d = ev_taskGeneration e \<and>
              list_ex (\<lambda>out. bo_kind out = (case rc_factKind r of FactCi \<Rightarrow> BkCi | FactReview \<Rightarrow> BkReview) \<and>
                 acceptDecision (bo_decision out)) (pc_bucketOutcomes c)) completions) = 1) (reactionsOf es), INVALID_EVENT)])"

definition fencedSession :: "ControlEventBody \<Rightarrow> (string \<times> nat \<times> bool) option" where
  "fencedSession b = (case b of
     EvRuntimeObserved p \<Rightarrow> Some (ro_sessionId p, ro_sessionGeneration p, False)
   | EvSteeringAdmitted p \<Rightarrow> Some (tg_sessionId p, tg_sessionGeneration p, True)
   | EvSteeringIncluded p _ _ _ \<Rightarrow> Some (tg_sessionId p, tg_sessionGeneration p, True)
   | EvSteeringWithdrawn p _ \<Rightarrow> Some (tg_sessionId p, tg_sessionGeneration p, True)
   | EvSteeringSuperseded p _ \<Rightarrow> Some (tg_sessionId p, tg_sessionGeneration p, True)
   | EvSteeringExpired p \<Rightarrow> Some (tg_sessionId p, tg_sessionGeneration p, True)
   | EvPollStarted p \<Rightarrow> Some (po_sessionId p, po_sessionGeneration p, True)
   | EvReactionCreated p \<Rightarrow> Some (rc_sessionId p, rc_sessionGeneration p, True)
   | _ \<Rightarrow> None)"

definition validateFences :: "ControlProjection \<Rightarrow> ControlEvent \<Rightarrow> unit stored" where
  "validateFences st e =
     bind_res (case ev_body e of
         EvTaskCreated _ \<Rightarrow> checks [(obj_has (cs_tasks st) (evTask e), STALE_GENERATION),
                                    (ev_taskGeneration e \<noteq> Some 1, STALE_GENERATION)]
       | EvSteeringRefused _ \<Rightarrow> Inr ()
       | EvSteeringTerminalRefused _ \<Rightarrow> Inr ()
       | _ \<Rightarrow> (case ev_taskId e of None \<Rightarrow> Inr ()
           | Some t \<Rightarrow> checks [(map_option (\<lambda>task. Some (t_generation task)) (obj_get (cs_tasks st) t) \<noteq> Some (ev_taskGeneration e),
                                STALE_GENERATION)])) (\<lambda>_.
     bind_res (case fencedSession (ev_body e) of None \<Rightarrow> Inr ()
       | Some (sid, g, requireExisting) \<Rightarrow>
           (let current = map_option rt_sessionGeneration (obj_get (cs_runtimes st) sid) in
            checks [(case current of None \<Rightarrow> False | Some c \<Rightarrow> g < c, STALE_GENERATION),
                    (requireExisting \<and> current \<noteq> Some g, STALE_GENERATION)])) (\<lambda>_.
     bind_res (mapErr (\<lambda>_. INVALID_EVENT) (aggregateForEvent e)) (\<lambda>agg.
     checks [(ev_expectedVersion e \<noteq> actualVersion st (agg_key agg), STALE_VERSION)])))"

section \<open>Appending\<close>

record StoreAppendResult =
  rs_eventId :: string
  rs_seq :: nat
  rs_digest :: string
  rs_intentDigest :: string
  rs_recordedAt :: string
  rs_idempotent :: bool
  rs_aggregateVersion :: nat

record ConsumerCursorAdvance =
  ca_consumerId :: string
  ca_generation :: nat
  ca_expectedLastSeq :: nat
  ca_nextLastSeq :: nat

definition validateExistingEvent :: "'txt StorePrims \<Rightarrow> 'txt EventRow \<Rightarrow> ControlIntent \<Rightarrow> StoreAppendResult stored" where
  "validateExistingEvent P row i =
     bind_res (decodeEventRow P row) (\<lambda>pe.
     bind_res (checks [(er_intentDigest row \<noteq> controlEventDigest P i \<or>
                        canonicalControlEvent P (pe_intent pe) \<noteq> canonicalControlEvent P i, EVENT_ID_CONFLICT)]) (\<lambda>_.
     Inr \<lparr>rs_eventId = ev_eventId (it_event i), rs_seq = pe_seq pe, rs_digest = pe_digest pe,
          rs_intentDigest = pe_intentDigest pe, rs_recordedAt = pe_recordedAt pe, rs_idempotent = True,
          rs_aggregateVersion = ev_expectedVersion (it_event i) + 1\<rparr>))"

definition existingEvent :: "'txt Database \<Rightarrow> ControlIntent \<Rightarrow> 'txt EventRow option" where
  "existingEvent db i = find (\<lambda>r. er_eventId r = ev_eventId (it_event i)) (db_events db)"

definition existingReceipt :: "'txt StorePrims \<Rightarrow> 'txt Database \<Rightarrow> ControlIntent \<Rightarrow> StoreAppendResult option stored" where
  "existingReceipt P db i = (case existingEvent db i of None \<Rightarrow> Inr None
     | Some row \<Rightarrow> bind_res (validateExistingEvent P row i) (\<lambda>r. Inr (Some r)))"

definition sourceReused :: "'txt StorePrims \<Rightarrow> 'txt Database \<Rightarrow> ControlIntent \<Rightarrow> unit stored" where
  "sourceReused P db i =
     (if it_source i = None then Inr ()
      else case find (\<lambda>r. er_source r = it_source i) (db_events db) of None \<Rightarrow> Inr ()
        | Some row \<Rightarrow> bind_res (decodeEventRow P row) (\<lambda>_. Inl EVENT_ID_CONFLICT))"

text \<open>\<open>INTEGER PRIMARY KEY AUTOINCREMENT\<close>: one more than the greatest sequence number (no row is ever deleted).\<close>

definition nextRowid :: "'txt Database \<Rightarrow> nat" where
  "nextRowid db = Suc (fold max (map er_seq (db_events db)) 0)"

definition eventRow :: "'txt StorePrims \<Rightarrow> ControlIntent \<Rightarrow> nat \<Rightarrow> string \<Rightarrow> 'txt EventRow" where
  "eventRow P i seq recordedAt =
     (let e = it_event i in
      \<lparr>er_seq = seq, er_eventId = ev_eventId e, er_runId = ev_runId e, er_runEpoch = ev_runEpoch e, er_taskId = ev_taskId e,
       er_taskGeneration = ev_taskGeneration e, er_expectedVersion = ev_expectedVersion e, er_occurredAt = ev_occurredAt e,
       er_recordedAt = recordedAt, er_actorKind = ev_actorKind e, er_actorId = ev_actorId e, er_source = it_source i,
       er_eventType = eventType (ev_body e), er_payloadJson = cd_encode (sp_payload P) (ev_body e),
       er_canonicalJson = canonicalPersistedControlEvent P i recordedAt, er_intentDigest = controlEventDigest P i,
       er_digest = persistedControlEventDigest P i recordedAt\<rparr>)"

definition persistedOf :: "'txt StorePrims \<Rightarrow> ControlIntent \<Rightarrow> nat \<Rightarrow> string \<Rightarrow> PersistedControlEvent" where
  "persistedOf P i seq recordedAt = \<lparr>pe_intent = i, pe_seq = seq, pe_recordedAt = recordedAt,
     pe_intentDigest = controlEventDigest P i, pe_digest = persistedControlEventDigest P i recordedAt\<rparr>"

text \<open>
  One event of a batch. \<open>now n\<close> is what the clock reads while the event table holds \<open>n\<close> rows: every reading of a
  transaction happens at another \<open>n\<close>.
\<close>

definition insertEvent :: "'txt StorePrims \<Rightarrow> (nat \<Rightarrow> string) \<Rightarrow> 'txt Database \<Rightarrow> ControlProjection \<Rightarrow> ControlIntent \<Rightarrow>
    ('txt Database \<times> ControlProjection \<times> StoreAppendResult) stored" where
  "insertEvent P now db projection i =
     bind_res (sourceReused P db i) (\<lambda>_.
     bind_res (validateFences projection (it_event i)) (\<lambda>_.
     bind_res (canonicalUtc P (now (length (db_events db)))) (\<lambda>recordedAt.
     bind_res (asSafeInteger (nextRowid db)) (\<lambda>seq.
     let e = persistedEvent (persistedOf P i seq recordedAt); db1 = db\<lparr>db_events := db_events db @ [eventRow P i seq recordedAt]\<rparr> in
     bind_res (mapErr (\<lambda>_. INVALID_EVENT) (applyControlEvent (sp_control P) projection e)) (\<lambda>projection'.
     bind_res (persistProjectionDelta P db1 projection' e) (\<lambda>db2.
     bind_res (mapErr (\<lambda>_. INVALID_EVENT) (aggregateForEvent (it_event i))) (\<lambda>agg.
     Inr (db2, projection', \<lparr>rs_eventId = ev_eventId (it_event i), rs_seq = seq,
       rs_digest = persistedControlEventDigest P i recordedAt, rs_intentDigest = controlEventDigest P i,
       rs_recordedAt = recordedAt, rs_idempotent = False, rs_aggregateVersion = actualVersion projection' (agg_key agg)\<rparr>))))))))"

definition commitEvent :: "'txt StorePrims \<Rightarrow> (nat \<Rightarrow> string) \<Rightarrow> 'txt Database \<times> ControlProjection \<times> StoreAppendResult list \<Rightarrow> ControlIntent \<Rightarrow>
    ('txt Database \<times> ControlProjection \<times> StoreAppendResult list) stored" where
  "commitEvent P now s i = (case s of (db, projection, results) \<Rightarrow>
     (case existingEvent db i of
        Some row \<Rightarrow> bind_res (validateExistingEvent P row i) (\<lambda>r. Inr (db, projection, results @ [r]))
      | None \<Rightarrow> bind_res (insertEvent P now db projection i) (\<lambda>(db', projection', r). Inr (db', projection', results @ [r]))))"

definition consumerIdOk :: "string \<Rightarrow> bool" where
  "consumerIdOk s \<longleftrightarrow> s \<noteq> [] \<and> length s \<le> 128 \<and> (is_digit (hd s) \<or> is_upper (hd s) \<or> is_lower (hd s)) \<and>
     list_all (\<lambda>c. is_digit c \<or> is_upper c \<or> is_lower c \<or> c \<in> set ''._:-'') (tl s)"

definition decodeConsumerCursor :: "'txt StorePrims \<Rightarrow> ConsumerCursor \<Rightarrow> ConsumerCursor stored" where
  "decodeConsumerCursor P row =
     bind_res (asSafeInteger (cu_generation row)) (\<lambda>_.
     bind_res (asSafeInteger (cu_lastSeq row)) (\<lambda>_.
     bind_res (canonicalUtc P (cu_updatedAt row)) (\<lambda>_. Inr row)))"

definition advanceCursor :: "'txt StorePrims \<Rightarrow> (nat \<Rightarrow> string) \<Rightarrow> nat \<Rightarrow> 'txt Database \<Rightarrow> ConsumerCursorAdvance \<Rightarrow>
    ('txt Database \<times> ConsumerCursor) stored" where
  "advanceCursor P now headBefore db adv =
     bind_res (checks [(\<not> consumerIdOk (ca_consumerId adv) \<or> \<not> isSafeInteger (ca_generation adv) \<or> ca_generation adv < 1 \<or>
                        \<not> isSafeInteger (ca_expectedLastSeq adv) \<or> \<not> isSafeInteger (ca_nextLastSeq adv) \<or>
                        ca_nextLastSeq adv < ca_expectedLastSeq adv, INVALID_EVENT),
                       (headBefore < ca_nextLastSeq adv, STALE_VERSION)]) (\<lambda>_.
     bind_res (case obj_get (db_cursors db) (ca_consumerId adv) of
         None \<Rightarrow> checks [(ca_generation adv \<noteq> 1, STALE_GENERATION), (ca_expectedLastSeq adv \<noteq> 0, STALE_VERSION)]
       | Some row \<Rightarrow> bind_res (decodeConsumerCursor P row) (\<lambda>_.
           checks [(cu_generation row \<noteq> ca_generation adv, STALE_GENERATION),
                   (cu_lastSeq row \<noteq> ca_expectedLastSeq adv, STALE_VERSION)])) (\<lambda>_.
     bind_res (canonicalUtc P (now (length (db_events db)))) (\<lambda>updatedAt.
     let cursor = \<lparr>cu_consumerId = ca_consumerId adv, cu_generation = ca_generation adv, cu_lastSeq = ca_nextLastSeq adv,
                   cu_updatedAt = updatedAt\<rparr> in
     Inr (db\<lparr>db_cursors := obj_set (ca_consumerId adv) cursor (db_cursors db)\<rparr>, cursor))))"

definition setHead :: "nat \<Rightarrow> 'txt Database \<Rightarrow> 'txt Database" where
  "setHead n db = db\<lparr>db_meta := (db_meta db)\<lparr>mt_headSeq := n\<rparr>\<rparr>"

text \<open>The body of the transaction: the results, the cursor and the rows it leaves.\<close>

definition commitBody :: "'txt StorePrims \<Rightarrow> ControlStore \<Rightarrow> (nat \<Rightarrow> string) \<Rightarrow> ControlIntent list \<Rightarrow> ConsumerCursorAdvance option \<Rightarrow>
    nat option \<Rightarrow> 'txt Database \<Rightarrow> ((StoreAppendResult list \<times> ConsumerCursor option) \<times> 'txt Database) stored" where
  "commitBody P S now batch advance expectedHead db =
     bind_res (loadProjection P S db) (\<lambda>projection.
     let headBefore = cs_headSeq projection in
     if expectedHead \<noteq> None \<and> expectedHead \<noteq> Some headBefore then
       bind_res (mapRes (existingReceipt P db) batch) (\<lambda>existing.
       if batch \<noteq> [] \<and> None \<notin> set existing then Inr ((map the existing, None), db) else Inl STALE_VERSION)
     else
       bind_res (fold_res (commitEvent P now) (db, projection, []) batch) (\<lambda>(db1, projection', results).
       let db2 = (if list_ex (\<lambda>r. \<not> rs_idempotent r) results then setHead (cs_headSeq projection') db1 else db1) in
       case advance of None \<Rightarrow> Inr ((results, None), db2)
       | Some adv \<Rightarrow> bind_res (advanceCursor P now headBefore db2 adv) (\<lambda>(db3, cursor). Inr ((results, Some cursor), db3))))"

definition transaction :: "('d \<Rightarrow> ('a \<times> 'd) stored) \<Rightarrow> 'd \<Rightarrow> 'a stored \<times> 'd" where
  "transaction f d = (case f d of Inl e \<Rightarrow> (Inl e, d) | Inr (x, d') \<Rightarrow> (Inr x, d'))"

section \<open>Operations of the handle\<close>

definition assertOpen :: "ControlStore \<Rightarrow> unit stored" where
  "assertOpen S = checks [(cst_closed S, STORE_CLOSED)]"

text \<open>\<open>parse\<close> reads the shape of an event; an intent carries no sequence number and no recording time.\<close>

definition bareIntent :: "ControlIntent \<Rightarrow> ControlIntent" where
  "bareIntent i = i\<lparr>it_event := (it_event i)\<lparr>ev_seq := 0, ev_recordedAt := []\<rparr>\<rparr>"

definition parseControlEvent :: "'txt StorePrims \<Rightarrow> ('raw \<Rightarrow> ControlIntent option) \<Rightarrow> 'raw \<Rightarrow> ControlIntent stored" where
  "parseControlEvent P parse v =
     bind_res (require_some INVALID_EVENT (parse v)) (\<lambda>i.
     bind_res (checks [(\<not> schemaOk P (bareIntent i), INVALID_EVENT)]) (\<lambda>_. Inr (bareIntent i)))"

definition parseEvents :: "'txt StorePrims \<Rightarrow> ('raw \<Rightarrow> ControlIntent option) \<Rightarrow> ControlStore \<Rightarrow> 'raw list \<Rightarrow> ControlIntent list stored" where
  "parseEvents P parse S values =
     bind_res (mapRes (parseControlEvent P parse) values) (\<lambda>events.
     bind_res (mapRes (\<lambda>i. bind_res (mapErr (\<lambda>_. INVALID_EVENT) (assertControlEventScope (it_event i))) (\<lambda>_.
        checks [(ev_runId (it_event i) \<noteq> cst_runId S \<or> ev_runEpoch (it_event i) \<noteq> cst_runEpoch S, RUN_IDENTITY_MISMATCH)])) events) (\<lambda>_.
     bind_res (validateScmBatch events) (\<lambda>_. Inr events)))"

definition appendBatch :: "'txt StorePrims \<Rightarrow> ('raw \<Rightarrow> ControlIntent option) \<Rightarrow> ControlStore \<Rightarrow> (nat \<Rightarrow> string) \<Rightarrow> 'raw list \<Rightarrow>
    'txt Database \<Rightarrow> StoreAppendResult list stored \<times> 'txt Database" where
  "appendBatch P parse S now values = transaction (\<lambda>db.
     bind_res (assertOpen S) (\<lambda>_.
     if values = [] then Inr ([], db) else
     bind_res (parseEvents P parse S values) (\<lambda>events.
     bind_res (commitBody P S now events None None db) (\<lambda>((results, _), db'). Inr (results, db')))))"

definition appendBatchIf :: "'txt StorePrims \<Rightarrow> ('raw \<Rightarrow> ControlIntent option) \<Rightarrow> ControlStore \<Rightarrow> (nat \<Rightarrow> string) \<Rightarrow> nat \<Rightarrow> 'raw list \<Rightarrow>
    'txt Database \<Rightarrow> StoreAppendResult list stored \<times> 'txt Database" where
  "appendBatchIf P parse S now expectedHeadSeq values = transaction (\<lambda>db.
     bind_res (assertOpen S) (\<lambda>_.
     bind_res (checks [(\<not> isSafeInteger expectedHeadSeq, INVALID_EVENT)]) (\<lambda>_.
     bind_res (parseEvents P parse S values) (\<lambda>events.
     bind_res (commitBody P S now events None (Some expectedHeadSeq) db) (\<lambda>((results, _), db'). Inr (results, db'))))))"

definition append_one :: "'txt StorePrims \<Rightarrow> ('raw \<Rightarrow> ControlIntent option) \<Rightarrow> ControlStore \<Rightarrow> (nat \<Rightarrow> string) \<Rightarrow> 'raw \<Rightarrow>
    'txt Database \<Rightarrow> StoreAppendResult stored \<times> 'txt Database" where
  "append_one P parse S now v db = (case appendBatch P parse S now [v] db of (r, db') \<Rightarrow> (bind_res r (\<lambda>rs. Inr (hd rs)), db'))"

definition appendBatchWithCursor :: "'txt StorePrims \<Rightarrow> ('raw \<Rightarrow> ControlIntent option) \<Rightarrow> ControlStore \<Rightarrow> (nat \<Rightarrow> string) \<Rightarrow> 'raw list \<Rightarrow>
    ConsumerCursorAdvance \<Rightarrow> 'txt Database \<Rightarrow> (StoreAppendResult list \<times> ConsumerCursor) stored \<times> 'txt Database" where
  "appendBatchWithCursor P parse S now values advance = transaction (\<lambda>db.
     bind_res (assertOpen S) (\<lambda>_.
     bind_res (parseEvents P parse S values) (\<lambda>events.
     bind_res (commitBody P S now events (Some advance) None db) (\<lambda>((results, cursor), db').
     bind_res (require_some RECOVERY_REQUIRED cursor) (\<lambda>c. Inr ((results, c), db'))))))"

definition advanceConsumerCursor :: "'txt StorePrims \<Rightarrow> ControlStore \<Rightarrow> (nat \<Rightarrow> string) \<Rightarrow> ConsumerCursorAdvance \<Rightarrow> 'txt Database \<Rightarrow>
    ConsumerCursor stored \<times> 'txt Database" where
  "advanceConsumerCursor P S now advance db =
     (case appendBatchWithCursor P (\<lambda>_ :: unit. None) S now [] advance db of (r, db') \<Rightarrow> (bind_res r (\<lambda>(_, c). Inr c), db'))"

definition readConsumerCursor :: "'txt StorePrims \<Rightarrow> ControlStore \<Rightarrow> 'txt Database \<Rightarrow> string \<Rightarrow> ConsumerCursor option stored" where
  "readConsumerCursor P S db consumerId =
     bind_res (assertOpen S) (\<lambda>_.
     bind_res (checks [(\<not> consumerIdOk consumerId, INVALID_EVENT)]) (\<lambda>_.
     case obj_get (db_cursors db) consumerId of None \<Rightarrow> Inr None
     | Some row \<Rightarrow> bind_res (decodeConsumerCursor P row) (\<lambda>c. Inr (Some c))))"

record EventRange =
  rg_runEpoch :: string
  rg_floorSeq :: nat
  rg_headSeq :: nat
  rg_afterSeq :: nat
  rg_events :: "PersistedControlEvent list"
  rg_hasMore :: bool

definition readRange :: "'txt StorePrims \<Rightarrow> ControlStore \<Rightarrow> 'txt Database \<Rightarrow> nat \<Rightarrow> nat option \<Rightarrow> string option \<Rightarrow> EventRange stored" where
  "readRange P S db afterSeq limitOpt runEpoch =
     (let limit = (case limitOpt of None \<Rightarrow> 1000 | Some l \<Rightarrow> l) in
      bind_res (assertOpen S) (\<lambda>_.
      bind_res (checks [(\<not> isSafeInteger afterSeq \<or> limit < 1 \<or> 10000 < limit, INVALID_EVENT),
                        (runEpoch \<noteq> None \<and> runEpoch \<noteq> Some (cst_runEpoch S), RUN_IDENTITY_MISMATCH)]) (\<lambda>_.
      bind_res (readMeta P db) (\<lambda>meta.
      bind_res (verifyRunIdentity meta (cst_runId S) (cst_runEpoch S)) (\<lambda>_.
      bind_res (checks [(afterSeq + 1 < mt_retainedFloor meta, CURSOR_EXPIRED),
                        (mt_headSeq meta < afterSeq, RECOVERY_REQUIRED)]) (\<lambda>_.
      bind_res (mapRes (decodeEventRow P)
        (take limit (sort_key er_seq (filter (\<lambda>r. afterSeq < er_seq r \<and> er_seq r \<le> mt_headSeq meta) (db_events db))))) (\<lambda>events.
      Inr \<lparr>rg_runEpoch = cst_runEpoch S, rg_floorSeq = mt_retainedFloor meta, rg_headSeq = mt_headSeq meta, rg_afterSeq = afterSeq, rg_events = events,
           rg_hasMore = (events \<noteq> [] \<and> pe_seq (last events) < mt_headSeq meta)\<rparr>)))))))"

definition getProjection :: "'txt StorePrims \<Rightarrow> ControlStore \<Rightarrow> 'txt Database \<Rightarrow> ControlProjection stored" where
  "getProjection P S db = bind_res (assertOpen S) (\<lambda>_. loadProjection P S db)"

text \<open>\<open>head()\<close>, \<open>identity()\<close> and \<open>close()\<close>\<close>

definition headOf :: "'txt StorePrims \<Rightarrow> ControlStore \<Rightarrow> 'txt Database \<Rightarrow> (string \<times> string \<times> nat \<times> nat) stored" where
  "headOf P S db =
     bind_res (assertOpen S) (\<lambda>_.
     bind_res (readMeta P db) (\<lambda>meta.
     bind_res (verifyRunIdentity meta (cst_runId S) (cst_runEpoch S)) (\<lambda>_.
     Inr (cst_runId S, cst_runEpoch S, mt_retainedFloor meta, mt_headSeq meta))))"

definition identityOf :: "'txt StorePrims \<Rightarrow> ControlStore \<Rightarrow> 'txt Database \<Rightarrow> (string \<times> string \<times> string) stored" where
  "identityOf P S db =
     bind_res (assertOpen S) (\<lambda>_.
     bind_res (readMeta P db) (\<lambda>meta.
     bind_res (verifyRunIdentity meta (cst_runId S) (cst_runEpoch S)) (\<lambda>_.
     bind_res (checks [(mt_storeId meta \<noteq> cst_storeId S, RECOVERY_REQUIRED)]) (\<lambda>_.
     Inr (cst_storeId S, cst_runId S, cst_runEpoch S)))))"

definition closeStore :: "ControlStore \<Rightarrow> ControlStore" where
  "closeStore S = S\<lparr>cst_closed := True\<rparr>"

section \<open>Snapshots, recovery and integrity\<close>

definition canonicalProjectionValue :: "ControlProjection \<Rightarrow> ControlProjection" where
  "canonicalProjectionValue st = st\<lparr>cs_tasks := by_key (cs_tasks st), cs_messages := sort_key m_seq (cs_messages st),
     cs_runtimes := by_key (cs_runtimes st), cs_attempts := by_key (cs_attempts st), cs_steering := by_key (cs_steering st),
     cs_scm := \<lparr>scm_publications = by_key (scm_publications (cs_scm st)), scm_polls = by_key (scm_polls (cs_scm st)),
       scm_observations = by_key (scm_observations (cs_scm st)), scm_reactions = by_key (scm_reactions (cs_scm st))\<rparr>,
     cs_aggregateVersions := by_key (cs_aggregateVersions st)\<rparr>"

definition projectionText :: "'txt StorePrims \<Rightarrow> ControlProjection \<Rightarrow> 'txt" where
  "projectionText P st = cd_encode (sp_projection P) (canonicalProjectionValue st)"

definition projectionsEqual :: "'txt StorePrims \<Rightarrow> ControlProjection \<Rightarrow> ControlProjection \<Rightarrow> bool" where
  "projectionsEqual P a b \<longleftrightarrow> projectionText P a = projectionText P b"

definition parseSnapshotProjection :: "'txt StorePrims \<Rightarrow> ControlStore \<Rightarrow> 'txt SnapshotRow \<Rightarrow> ControlProjection stored" where
  "parseSnapshotProjection P S row =
     bind_res (asSafeInteger (sn_seq row)) (\<lambda>seq.
     bind_res (checks [(sn_storeId row \<noteq> cst_storeId S \<or> sn_schemaVersion row \<noteq> 1 \<or> sn_reducerVersion row \<noteq> 1 \<or>
                        sn_runId row \<noteq> cst_runId S \<or> sn_runEpoch row \<noteq> cst_runEpoch S, RECOVERY_REQUIRED),
                       (sp_sha256 P (sn_payloadJson row) \<noteq> sn_digest row, RECOVERY_REQUIRED)]) (\<lambda>_.
     bind_res (canonicalUtc P (sn_createdAt row)) (\<lambda>_.
     bind_res (canonicalUtc P (sn_verifiedAt row)) (\<lambda>_.
     bind_res (require_some RECOVERY_REQUIRED (cd_decode (sp_projection P) (sn_payloadJson row))) (\<lambda>parsed.
     bind_res (checks [(projectionText P parsed \<noteq> sn_payloadJson row \<or> cs_headSeq parsed \<noteq> seq, RECOVERY_REQUIRED)]) (\<lambda>_.
     Inr parsed))))))"

record SnapshotReceipt =
  sc_seq :: nat
  sc_storeId :: string
  sc_runId :: string
  sc_runEpoch :: string
  sc_schemaVersion :: nat
  sc_reducerVersion :: nat
  sc_digest :: string
  sc_createdAt :: string
  sc_verifiedAt :: string

definition snapshotReceipt :: "ControlStore \<Rightarrow> nat \<Rightarrow> string \<Rightarrow> string \<Rightarrow> string \<Rightarrow> SnapshotReceipt" where
  "snapshotReceipt S seq digest createdAt verifiedAt = \<lparr>sc_seq = seq, sc_storeId = cst_storeId S, sc_runId = cst_runId S,
     sc_runEpoch = cst_runEpoch S, sc_schemaVersion = 1, sc_reducerVersion = 1, sc_digest = digest, sc_createdAt = createdAt, sc_verifiedAt = verifiedAt\<rparr>"

definition snapshotBody :: "'txt StorePrims \<Rightarrow> ControlStore \<Rightarrow> string \<Rightarrow> 'txt Database \<Rightarrow> (SnapshotReceipt \<times> 'txt Database) stored" where
  "snapshotBody P S now db =
     bind_res (assertOpen S) (\<lambda>_.
     bind_res (loadProjection P S db) (\<lambda>state.
     bind_res (readAllEvents P db (Some (cs_headSeq state))) (\<lambda>pes.
     bind_res (reduceStored P S pes None) (\<lambda>replayed.
     bind_res (checks [(\<not> projectionsEqual P state replayed, RECOVERY_REQUIRED)]) (\<lambda>_.
     let payloadJson = projectionText P state; digest = sp_sha256 P payloadJson in
     case find (\<lambda>r. sn_seq r = cs_headSeq state) (db_snapshots db) of
       Some existing \<Rightarrow>
         bind_res (parseSnapshotProjection P S existing) (\<lambda>existingProjection.
         bind_res (checks [(sn_digest existing \<noteq> digest \<or> sn_payloadJson existing \<noteq> payloadJson, RECOVERY_REQUIRED),
                           (\<not> projectionsEqual P existingProjection replayed, RECOVERY_REQUIRED)]) (\<lambda>_.
         Inr (snapshotReceipt S (cs_headSeq state) digest (sn_createdAt existing) (sn_verifiedAt existing), db)))
     | None \<Rightarrow>
         bind_res (canonicalUtc P now) (\<lambda>verifiedAt.
         Inr (snapshotReceipt S (cs_headSeq state) digest verifiedAt verifiedAt,
              db\<lparr>db_snapshots := db_snapshots db @ [\<lparr>sn_seq = cs_headSeq state, sn_storeId = cst_storeId S, sn_schemaVersion = 1,
                sn_reducerVersion = 1, sn_runId = cst_runId S, sn_runEpoch = cst_runEpoch S, sn_payloadJson = payloadJson,
                sn_digest = digest, sn_createdAt = verifiedAt, sn_verifiedAt = verifiedAt\<rparr>]\<rparr>)))))))"

definition createSnapshot :: "'txt StorePrims \<Rightarrow> ControlStore \<Rightarrow> string \<Rightarrow> 'txt Database \<Rightarrow> SnapshotReceipt stored \<times> 'txt Database" where
  "createSnapshot P S now = transaction (snapshotBody P S now)"

text \<open>\<open>ORDER BY seq DESC LIMIT 1\<close>\<close>

definition latestSnapshot :: "'txt Database \<Rightarrow> 'txt SnapshotRow option" where
  "latestSnapshot db = (case rev (sort_key sn_seq (db_snapshots db)) of [] \<Rightarrow> None | r # _ \<Rightarrow> Some r)"

definition verifySnapshotRow :: "'txt StorePrims \<Rightarrow> ControlStore \<Rightarrow> PersistedControlEvent list \<Rightarrow> 'txt SnapshotRow \<Rightarrow> ControlProjection stored" where
  "verifySnapshotRow P S pes row =
     bind_res (parseSnapshotProjection P S row) (\<lambda>snapshot.
     bind_res (reduceStored P S (filter (\<lambda>pe. pe_seq pe \<le> cs_headSeq snapshot) pes) None) (\<lambda>prefix.
     bind_res (checks [(\<not> projectionsEqual P snapshot prefix, RECOVERY_REQUIRED)]) (\<lambda>_. Inr snapshot)))"

definition verifySnapshot :: "'txt StorePrims \<Rightarrow> ControlStore \<Rightarrow> 'txt Database \<Rightarrow> nat option \<Rightarrow> SnapshotReceipt stored" where
  "verifySnapshot P S db seq =
     bind_res (assertOpen S) (\<lambda>_.
     bind_res (checks [(\<not> safeOption seq, INVALID_EVENT)]) (\<lambda>_.
     bind_res (require_some RECOVERY_REQUIRED (case seq of None \<Rightarrow> latestSnapshot db | Some n \<Rightarrow> find (\<lambda>r. sn_seq r = n) (db_snapshots db))) (\<lambda>row.
     bind_res (parseSnapshotProjection P S row) (\<lambda>snapshot.
     bind_res (readAllEvents P db (Some (cs_headSeq snapshot))) (\<lambda>pes.
     bind_res (reduceStored P S pes None) (\<lambda>replayed.
     bind_res (checks [(\<not> projectionsEqual P snapshot replayed, RECOVERY_REQUIRED)]) (\<lambda>_.
     Inr ((snapshotReceipt S (cs_headSeq snapshot) (sn_digest row) (sn_createdAt row) (sn_verifiedAt row))
       \<lparr>sc_schemaVersion := sn_schemaVersion row, sc_reducerVersion := sn_reducerVersion row\<rparr>))))))))"

definition eventHead :: "'txt Database \<Rightarrow> nat" where
  "eventHead db = fold max (map er_seq (db_events db)) 0"

definition installProjection :: "'txt StorePrims \<Rightarrow> ControlProjection \<Rightarrow> 'txt Database \<Rightarrow> 'txt Database stored" where
  "installProjection P rebuilt db =
     bind_res (asSafeInteger (eventHead db)) (\<lambda>head.
     bind_res (checks [(head \<noteq> cs_headSeq rebuilt, RECOVERY_REQUIRED)]) (\<lambda>_.
     bind_res (replaceProjection P rebuilt db) (\<lambda>db'. Inr (setHead (cs_headSeq rebuilt) db'))))"

definition rebuildAuthority :: "'txt StorePrims \<Rightarrow> ControlStore \<Rightarrow> 'txt Database \<Rightarrow> PersistedControlEvent list \<Rightarrow> ControlProjection stored" where
  "rebuildAuthority P S db pes = (case latestSnapshot db of
     Some row \<Rightarrow> bind_res (verifySnapshotRow P S pes row) (\<lambda>snapshot.
       reduceStored P S (filter (\<lambda>pe. cs_headSeq snapshot < pe_seq pe) pes) (Some snapshot))
   | None \<Rightarrow> reduceStored P S pes None)"

definition rebuildProjections :: "'txt StorePrims \<Rightarrow> ControlStore \<Rightarrow> 'txt Database \<Rightarrow> ControlProjection stored \<times> 'txt Database" where
  "rebuildProjections P S = transaction (\<lambda>db.
     bind_res (assertOpen S) (\<lambda>_.
     bind_res (readAllEvents P db None) (\<lambda>pes.
     bind_res (rebuildAuthority P S db pes) (\<lambda>rebuilt.
     bind_res (installProjection P rebuilt db) (\<lambda>db'. Inr (rebuilt, db'))))))"

record IntegrityReceipt =
  ir_full :: bool
  ir_storeId :: string
  ir_runId :: string
  ir_runEpoch :: string
  ir_headSeq :: nat
  ir_verifiedAt :: string

definition integrityReceipt :: "ControlStore \<Rightarrow> bool \<Rightarrow> nat \<Rightarrow> string \<Rightarrow> IntegrityReceipt" where
  "integrityReceipt S full headSeq verifiedAt = \<lparr>ir_full = full, ir_storeId = cst_storeId S, ir_runId = cst_runId S,
     ir_runEpoch = cst_runEpoch S, ir_headSeq = headSeq, ir_verifiedAt = verifiedAt\<rparr>"

definition verifyIntegrity :: "'txt StorePrims \<Rightarrow> ControlStore \<Rightarrow> string \<Rightarrow> bool \<Rightarrow> 'txt Database \<Rightarrow> IntegrityReceipt stored" where
  "verifyIntegrity P S now full db =
     bind_res (assertOpen S) (\<lambda>_.
     bind_res (readMeta P db) (\<lambda>meta.
     bind_res (verifyRunIdentity meta (cst_runId S) (cst_runEpoch S)) (\<lambda>_.
     bind_res (checks [(mt_storeId meta \<noteq> cst_storeId S, RECOVERY_REQUIRED)]) (\<lambda>_.
     bind_res (readAllEvents P db None) (\<lambda>pes.
     bind_res (checks [(map pe_seq pes \<noteq> [1..<Suc (mt_headSeq meta)], RECOVERY_REQUIRED)]) (\<lambda>_.
     bind_res (reduceStored P S pes None) (\<lambda>replayed.
     bind_res (loadProjection P S db) (\<lambda>stored.
     bind_res (checks [(\<not> projectionsEqual P replayed stored, RECOVERY_REQUIRED)]) (\<lambda>_.
     bind_res (mapRes (\<lambda>(_, row). bind_res (decodeConsumerCursor P row) (\<lambda>_.
        checks [(mt_headSeq meta < cu_lastSeq row \<or> cu_lastSeq row + 1 < mt_retainedFloor meta, RECOVERY_REQUIRED)])) (by_key (db_cursors db))) (\<lambda>_.
     bind_res (if full then mapRes (verifySnapshotRow P S pes) (sort_key sn_seq (db_snapshots db)) else Inr []) (\<lambda>_.
     bind_res (canonicalUtc P now) (\<lambda>verifiedAt. Inr (integrityReceipt S full (mt_headSeq meta) verifiedAt)))))))))))))"

text \<open>Opening a database that exists: the metadata, then the materialised projection against the history.\<close>

definition bootstrap :: "'txt StorePrims \<Rightarrow> string \<Rightarrow> string \<Rightarrow> string \<Rightarrow> string \<Rightarrow> 'txt Database stored" where
  "bootstrap P storeId runId runEpoch now =
     bind_res (canonicalUtc P now) (\<lambda>_.
     Inr \<lparr>db_meta = \<lparr>mt_storeId = storeId, mt_schemaVersion = 1, mt_reducerVersion = 1, mt_runId = runId, mt_runEpoch = runEpoch,
            mt_retainedFloor = 1, mt_headSeq = 0, mt_createdAt = now\<rparr>,
          db_events = [], db_run = None, db_tasks = [], db_messages = [], db_runtimes = [], db_attempts = [], db_steering = [],
          db_aggregates = [], db_snapshots = [], db_cursors = []\<rparr>)"

definition verifyOrRebuildProjection :: "'txt StorePrims \<Rightarrow> ControlStore \<Rightarrow> bool \<Rightarrow> 'txt Database \<Rightarrow> 'txt Database stored" where
  "verifyOrRebuildProjection P S rebuild db =
     (let authority = bind_res (readAllEvents P db None) (\<lambda>pes. reduceStored P S pes None) in
      case (authority, loadProjection P S db) of
        (Inr replayed, Inr stored) \<Rightarrow>
          if projectionsEqual P replayed stored then Inr db
          else if rebuild then installProjection P replayed db else Inl RECOVERY_REQUIRED
      | (Inl e, _) \<Rightarrow> Inl e
      | (Inr replayed, Inl e) \<Rightarrow> if rebuild then installProjection P replayed db else Inl e)"

definition openControlStore :: "'txt StorePrims \<Rightarrow> string \<Rightarrow> string \<Rightarrow> bool \<Rightarrow> 'txt Database \<Rightarrow> (ControlStore \<times> 'txt Database) stored" where
  "openControlStore P runId runEpoch rebuild db =
     bind_res (checks [(runId = [] \<or> runEpoch = [], INVALID_EVENT)]) (\<lambda>_.
     bind_res (readMeta P db) (\<lambda>meta.
     bind_res (verifyRunIdentity meta runId runEpoch) (\<lambda>_.
     bind_res (checks [(mt_retainedFloor meta \<noteq> 1, RECOVERY_REQUIRED)]) (\<lambda>_.
     let S = \<lparr>cst_runId = runId, cst_runEpoch = runEpoch, cst_storeId = mt_storeId meta, cst_closed = False\<rparr> in
     bind_res (verifyOrRebuildProjection P S rebuild db) (\<lambda>db'. Inr (S, db'))))))"

end
