(* ===== verification/Control_Order.thy ===== *)
theory Control_Order
  imports Control_Props
begin

text \<open>
  The reducer reads its objects by key: the order of their properties does not matter to it. A projection read back from
  tables, which come sorted by key, is therefore as good as the one the events built.
\<close>

definition same_scm :: "ScmControlProjection \<Rightarrow> ScmControlProjection \<Rightarrow> bool" where
  "same_scm a b \<longleftrightarrow> obj_get (scm_publications a) = obj_get (scm_publications b) \<and> obj_get (scm_polls a) = obj_get (scm_polls b) \<and>
     obj_get (scm_observations a) = obj_get (scm_observations b) \<and> obj_get (scm_reactions a) = obj_get (scm_reactions b) \<and>
     obj_wf (scm_polls a) \<and> obj_wf (scm_polls b) \<and> obj_wf (scm_reactions a) \<and> obj_wf (scm_reactions b)"

definition same_objects :: "ControlProjection \<Rightarrow> ControlProjection \<Rightarrow> bool" where
  "same_objects a b \<longleftrightarrow> cs_runId a = cs_runId b \<and> cs_runEpoch a = cs_runEpoch b \<and> cs_headSeq a = cs_headSeq b \<and>
     cs_run a = cs_run b \<and> cs_messages a = cs_messages b \<and> same_scm (cs_scm a) (cs_scm b) \<and>
     obj_get (cs_tasks a) = obj_get (cs_tasks b) \<and> obj_get (cs_runtimes a) = obj_get (cs_runtimes b) \<and>
     obj_get (cs_attempts a) = obj_get (cs_attempts b) \<and> obj_get (cs_steering a) = obj_get (cs_steering b) \<and>
     obj_get (cs_aggregateVersions a) = obj_get (cs_aggregateVersions b) \<and>
     obj_wf (cs_attempts a) \<and> obj_wf (cs_attempts b)"

lemma fold_max_set: "fold max xs (b::nat) = Max (insert b (set xs))"
  by (metis List.finite_set Max.set_eq_fold list.simps(15))

lemma obj_values_same: "obj_wf a \<Longrightarrow> obj_wf b \<Longrightarrow> obj_get a = obj_get b \<Longrightarrow> set (obj_values a) = set (obj_values b)"
  by (auto simp: in_obj_values)

lemma same_reads:
  assumes "same_objects a b"
  shows "assertTask a = assertTask b" "assertSession a = assertSession b" "assertScmPublication a = assertScmPublication b"
    "assertOptionalTask a = assertOptionalTask b" "attemptIn a = attemptIn b" "pendingCommand a = pendingCommand b"
    "obj_has (cs_tasks a) = obj_has (cs_tasks b)" "obj_has (cs_attempts a) = obj_has (cs_attempts b)"
    "obj_has (cs_steering a) = obj_has (cs_steering b)"
    "(activePoll a :: _ \<Rightarrow> 'x ScmPollRef_scheme \<Rightarrow> _) = activePoll b"
    "currentObservation a = currentObservation b" "actualVersion a = actualVersion b"
    "obj_has (scm_publications (cs_scm a)) = obj_has (scm_publications (cs_scm b))"
    "obj_has (scm_reactions (cs_scm a)) = obj_has (scm_reactions (cs_scm b))"
  using assms
  by (simp_all add: same_objects_def same_scm_def fun_eq_iff assertTask_def assertSession_def assertScmPublication_def assertOptionalTask_def
      attemptIn_def pendingCommand_def obj_has_def activePoll_def currentObservation_def actualVersion_def)

lemma same_attempt_generation:
  assumes "same_objects a b"
  shows "nextAttemptGeneration a = nextAttemptGeneration b"
proof
  fix e
  have "set (obj_values (cs_attempts a)) = set (obj_values (cs_attempts b))"
    using assms obj_values_same [of "cs_attempts a" "cs_attempts b"] by (simp add: same_objects_def)
  then show "nextAttemptGeneration a e = nextAttemptGeneration b e"
    by (simp add: nextAttemptGeneration_def fold_max_set)
qed

lemma same_scm_values:
  assumes "same_objects a b"
  shows "list_ex Q (obj_values (scm_polls (cs_scm a))) = list_ex Q (obj_values (scm_polls (cs_scm b)))"
    "list_ex R (obj_values (scm_reactions (cs_scm a))) = list_ex R (obj_values (scm_reactions (cs_scm b)))"
  using assms obj_values_same [of "scm_polls (cs_scm a)" "scm_polls (cs_scm b)"]
    obj_values_same [of "scm_reactions (cs_scm a)" "scm_reactions (cs_scm b)"]
  by (simp_all add: same_objects_def same_scm_def list_ex_iff)

text \<open>Two runs agree: the same error, or projections with the same objects.\<close>

definition same_result :: "string + ControlProjection \<Rightarrow> string + ControlProjection \<Rightarrow> bool" where
  "same_result x y = (case x of Inl e \<Rightarrow> y = Inl e | Inr a \<Rightarrow> (case y of Inl _ \<Rightarrow> False | Inr b \<Rightarrow> same_objects a b))"

lemma same_result_bind: "(\<And>x. m = Inr x \<Longrightarrow> same_result (f x) (g x)) \<Longrightarrow> same_result (bind_res m f) (bind_res m g)"
  by (cases m) (simp_all add: bind_res_def same_result_def)

lemma same_result_Inr: "same_objects a b \<Longrightarrow> same_result (Inr a) (Inr b)"
  by (simp add: same_result_def)

lemma body_same:
  assumes same: "same_objects a b"
  shows "same_result (applyBody C a e) (applyBody C b e)"
proof -
  note reads = same_reads [OF same] same_attempt_generation [OF same] same_scm_values [OF same]
  have fields: "cs_runId a = cs_runId b" "cs_runEpoch a = cs_runEpoch b" "cs_run a = cs_run b" "cs_messages a = cs_messages b"
    "same_scm (cs_scm a) (cs_scm b)" "obj_get (cs_runtimes a) = obj_get (cs_runtimes b)" "obj_get (cs_steering a) = obj_get (cs_steering b)"
    "cs_headSeq a = cs_headSeq b" "obj_get (cs_tasks a) = obj_get (cs_tasks b)" "obj_get (cs_attempts a) = obj_get (cs_attempts b)"
    "obj_get (cs_aggregateVersions a) = obj_get (cs_aggregateVersions b)" "obj_wf (cs_attempts a)" "obj_wf (cs_attempts b)"
    using same by (simp_all add: same_objects_def)
  note scm = fields(5) [unfolded same_scm_def]
  show ?thesis
    by (cases "ev_body e";
        (simp add: applyBody_def handler_defs Let_def reads fields scm del: ball_simps,
         (rule same_result_bind | rule same_result_Inr)+,
         simp add: same_objects_def same_scm_def fields scm fun_eq_iff))
qed

lemma apply_same:
  assumes same: "same_objects a b"
  shows "same_result (applyControlEvent C a e) (applyControlEvent C b e)"
proof -
  have stamp: "same_objects (stampEvent agg e x) (stampEvent agg e y)" if "same_objects x y" for agg x y
    using that by (simp add: same_objects_def stampEvent_def fun_eq_iff)
  have bind: "same_result (bind_res x (\<lambda>st. Inr (stampEvent agg e st))) (bind_res y (\<lambda>st. Inr (stampEvent agg e st)))"
    if "same_result x y" for x y agg
    using that stamp by (auto simp: same_result_def bind_res_def split: sum.splits)
  have fields: "cs_runId a = cs_runId b" "cs_runEpoch a = cs_runEpoch b" "cs_headSeq a = cs_headSeq b"
    using same by (simp_all add: same_objects_def)
  show ?thesis
    unfolding applyControlEvent_def fields same_reads(12) [OF same]
    by (intro same_result_bind bind body_same same)
qed

lemma fold_same:
  "same_objects a b \<Longrightarrow> same_result (fold_res (applyControlEvent C) a es) (fold_res (applyControlEvent C) b es)"
proof (induction es arbitrary: a b)
  case (Cons e es)
  note step = apply_same [OF Cons.prems, of C e]
  show ?case
  proof (cases "applyControlEvent C a e")
    case (Inl err)
    with step show ?thesis by (simp add: same_result_def)
  next
    case (Inr a')
    with step obtain b' where b': "applyControlEvent C b e = Inr b'" "same_objects a' b'"
      by (cases "applyControlEvent C b e") (simp_all add: same_result_def)
    with Inr Cons.IH [OF b'(2)] show ?thesis by simp
  qed
qed (simp add: same_result_def)

lemma apply_same_Inr:
  assumes "same_objects a b" "applyControlEvent C b e = Inr b'"
  obtains a' where "applyControlEvent C a e = Inr a'" "same_objects a' b'"
  using apply_same [OF assms(1), of C e] assms(2) that by (cases "applyControlEvent C a e") (simp_all add: same_result_def)

end
