(* ===== verification/Control_Tables.thy ===== *)
theory Control_Tables
  imports Control_Store Control_Order
begin

text \<open>
  The tables of the control store against the reducer. Rows read back are the values written, given that the texts of
  \<open>canonicalJson\<close> read back; the delta persisted for one event is exactly what the reducer changed, so the tables stay equal to
  the projection; loading them gives the projection of the replay, up to the order of its objects.
\<close>

section \<open>Texts and rows read back\<close>

definition codec_ok :: "('txt, 'v) Codec \<Rightarrow> bool" where
  "codec_ok c \<longleftrightarrow> (\<forall>v. cd_decode c (cd_encode c v) = Some v)"

text \<open>What the store relies on of \<open>canonicalJson\<close> and \<open>JSON.parse\<close>: a text read back is the value written.\<close>

definition texts_ok :: "'txt StorePrims \<Rightarrow> bool" where
  "texts_ok P \<longleftrightarrow> codec_ok (sp_intent P) \<and> codec_ok (sp_persisted P) \<and> codec_ok (sp_run P) \<and> codec_ok (sp_task P) \<and>
     codec_ok (sp_message P) \<and> codec_ok (sp_runtime P) \<and> codec_ok (sp_attempt P) \<and> codec_ok (sp_steering P) \<and>
     codec_ok (sp_projection P)"

lemma codec_inj: "codec_ok c \<Longrightarrow> cd_encode c v = cd_encode c w \<longleftrightarrow> v = w"
  unfolding codec_ok_def by (metis option.inject)

lemma texts_okD:
  assumes "texts_ok P"
  shows "codec_ok (sp_intent P)" "codec_ok (sp_persisted P)" "codec_ok (sp_run P)" "codec_ok (sp_task P)" "codec_ok (sp_message P)"
    "codec_ok (sp_runtime P)" "codec_ok (sp_attempt P)" "codec_ok (sp_steering P)" "codec_ok (sp_projection P)"
  using assms by (simp_all add: texts_ok_def)

lemma mapRes_map: "(\<And>x. x \<in> set xs \<Longrightarrow> f x = Inr (g x)) \<Longrightarrow> mapRes f xs = Inr (map g xs)"
  by (induction xs) simp_all

lemma decodeFact_factRow: "codec_ok c \<Longrightarrow> decodeFact P c (factRow P c v) = Inr v"
  by (simp add: decodeFact_def factRow_def codec_ok_def)

lemma set_by_key [simp]: "set (by_key t) = set t"
  by (simp add: by_key_def)

lemma by_key_wf: "obj_wf t \<Longrightarrow> obj_wf (by_key t)"
  by (metis by_key_def mset_map mset_sort obj_wf_def mset_eq_imp_distinct_iff)

lemma obj_get_set_eq: "obj_wf a \<Longrightarrow> obj_wf b \<Longrightarrow> set a = set b \<Longrightarrow> obj_get a = obj_get b"
  unfolding obj_wf_def by (metis map_of_inject_set)

lemma by_key_get: "obj_wf t \<Longrightarrow> obj_get (by_key t) = obj_get t"
  by (rule obj_get_set_eq) (simp_all add: by_key_wf)

lemma by_key_same:
  assumes "obj_wf a" "obj_wf b" "obj_get a = obj_get b"
  shows "by_key a = by_key b"
proof -
  have "mset a = mset b"
    using assms by (metis map_of_eqI distinct_map set_eq_iff_mset_eq_distinct obj_wf_def map_of_eq_Some_iff prod.exhaust_sel subrelI subset_antisym)
  moreover have "inj_on (\<lambda>r. map (of_char :: char \<Rightarrow> nat) (fst r)) (set a)"
    using assms(1) by (auto simp: obj_wf_def inj_on_def distinct_map eq_key_imp_eq_value)
  ultimately show ?thesis
    unfolding by_key_def by (metis mset_eq_setD mset_sort sort_key_inj_key_eq sorted_sort_key)
qed

text \<open>A table of facts: a row for every property of the object, and no other.\<close>

definition rows_of :: "('v \<Rightarrow> 'r) \<Rightarrow> 'r obj \<Rightarrow> 'v obj \<Rightarrow> bool" where
  "rows_of row table ob \<longleftrightarrow> obj_wf table \<and> (\<forall>k. obj_get table k = map_option row (obj_get ob k))"

lemma rows_of_set: "rows_of row table ob \<Longrightarrow> rows_of row (obj_set k (row v) table) (obj_set k v ob)"
  by (auto simp: rows_of_def)

lemma loadFacts_rows:
  fixes table :: "'txt FactRow obj"
  assumes "codec_ok c" "rows_of (factRow P c) table ob"
  obtains l where "loadFacts P c table = Inr l" "obj_get l = obj_get ob" "obj_wf l"
proof -
  let ?l = "map (\<lambda>(k, row). (k, the (obj_get ob k))) (by_key table)"
  have row: "\<exists>v. obj_get ob k = Some v \<and> row = factRow P c v" if "(k, row) \<in> set table" for k row
    using assms(2) that unfolding rows_of_def obj_wf_def by (metis map_of_eq_Some_iff map_option_eq_Some)
  have "loadFacts P c table = Inr ?l"
    unfolding loadFacts_def
    by (rule mapRes_map) (use row decodeFact_factRow [OF assms(1)] in fastforce)
  moreover have "obj_get ?l = obj_get ob"
  proof
    fix k
    have "obj_get (map (\<lambda>(k, row). (k, the (obj_get ob k))) t) k = map_option (\<lambda>_. the (obj_get ob k)) (obj_get t k)" for t :: "'txt FactRow obj"
      by (induction t) auto
    then show "obj_get ?l k = obj_get ob k"
      using assms(2) by (cases "obj_get ob k") (simp_all add: rows_of_def by_key_get)
  qed
  moreover have "obj_wf ?l"
    using by_key_wf [of table] assms(2) by (simp add: rows_of_def obj_wf_def case_prod_beta comp_def)
  ultimately show thesis by (rule that)
qed

section \<open>What one event writes\<close>

text \<open>Facts are stored under their own identifier, and messages in the order of their sequence numbers.\<close>

definition keys_ok :: "ControlProjection \<Rightarrow> bool" where
  "keys_ok st \<longleftrightarrow> obj_wf (cs_tasks st) \<and> obj_wf (cs_runtimes st) \<and> obj_wf (cs_steering st) \<and> obj_wf (cs_aggregateVersions st) \<and>
     obj_wf (scm_publications (cs_scm st)) \<and> obj_wf (scm_observations (cs_scm st)) \<and>
     (\<forall>k t. obj_get (cs_tasks st) k = Some t \<longrightarrow> t_id t = k) \<and>
     (\<forall>k r. obj_get (cs_runtimes st) k = Some r \<longrightarrow> rt_sessionId r = k) \<and>
     sorted_wrt (<) (map m_seq (cs_messages st)) \<and> distinct (map m_messageId (cs_messages st)) \<and> (\<forall>m \<in> set (cs_messages st). m_seq m \<le> cs_headSeq st)"

text \<open>The fact of its family an event writes, under the key the store takes from the event.\<close>

definition writes :: "ControlProjection \<Rightarrow> ControlEvent \<Rightarrow> ControlProjection \<Rightarrow> bool" where
  "writes st e st' = (case eventFamily (ev_body e) of
     FamRun \<Rightarrow> cs_run st' \<noteq> None
   | FamTask \<Rightarrow> (\<exists>t. cs_tasks st' = obj_set (evTask e) t (cs_tasks st) \<and> t_id t = evTask e)
   | FamMessage \<Rightarrow> (\<exists>m. cs_messages st' = cs_messages st @ [m] \<and> m_seq m = ev_seq e \<and> m_messageId m \<notin> m_messageId ` set (cs_messages st))
   | FamRuntime \<Rightarrow> (\<exists>r. cs_runtimes st' = obj_set (sessionOf (ev_body e)) r (cs_runtimes st) \<and> rt_sessionId r = sessionOf (ev_body e))
   | FamAttempt \<Rightarrow> (\<exists>a. cs_attempts st' = obj_set (attemptOf (ev_body e)) a (cs_attempts st) \<and> a_attemptId a = attemptOf (ev_body e))
   | FamSteering \<Rightarrow> (\<exists>c. cs_steering st' = obj_set (steeringOf (ev_body e)) c (cs_steering st) \<and> sf_commandId c = steeringOf (ev_body e))
   | FamScm \<Rightarrow> True)"

lemma set_witness: "f v = y \<Longrightarrow> \<exists>w. obj_set k v ob = obj_set k w ob \<and> f w = y"
  by blast

lemma body_writes:
  assumes "applyBody C st e = Inr st'" "control_ok st" "keys_ok st"
  shows "writes st e st'"
proof -
  have t: "obj_get (cs_tasks st) k = Some x \<Longrightarrow> t_id x = k" for k x using assms(3) by (simp add: keys_ok_def)
  have a: "obj_get (cs_attempts st) k = Some x \<Longrightarrow> a_attemptId x = k" for k x using assms(2) by (simp add: control_ok_def attempts_ok_def)
  have c: "obj_get (cs_steering st) k = Some x \<Longrightarrow> sf_commandId x = k" for k x using assms(2) by (simp add: control_ok_def steering_ok_def)
  show ?thesis
    using assms(1)
    by (cases "ev_body e")
       (auto simp: writes_def applyBody_def eventFamily_def handler_defs sessionOf_def attemptOf_def steeringOf_def
          attemptIn_def pendingCommand_def assertTask_def list_ex_iff intro!: set_witness dest!: t a c split: if_splits)
qed

section \<open>The materialised projection\<close>

definition facts_match :: "'txt StorePrims \<Rightarrow> ControlProjection \<Rightarrow> 'txt Database \<Rightarrow> bool" where
  "facts_match P st db \<longleftrightarrow> db_run db = map_option (factRow P (sp_run P)) (cs_run st) \<and>
     rows_of (factRow P (sp_task P)) (db_tasks db) (cs_tasks st) \<and> db_messages db = map (messageRow P) (cs_messages st) \<and>
     rows_of (factRow P (sp_runtime P)) (db_runtimes db) (cs_runtimes st) \<and> rows_of (attemptRow P) (db_attempts db) (cs_attempts st) \<and>
     rows_of (factRow P (sp_steering P)) (db_steering db) (cs_steering st)"

text \<open>A write that leaves the events, the metadata, the snapshots and the cursors alone.\<close>

definition projection_write :: "'txt Database \<Rightarrow> 'txt Database \<Rightarrow> bool" where
  "projection_write db db' \<longleftrightarrow> db_events db' = db_events db \<and> db_meta db' = db_meta db \<and> db_snapshots db' = db_snapshots db \<and>
     db_cursors db' = db_cursors db"

lemma same_objects_fields:
  assumes "same_objects a b"
  shows "cs_run a = cs_run b" "cs_messages a = cs_messages b" "obj_get (cs_tasks a) = obj_get (cs_tasks b)"
    "obj_get (cs_runtimes a) = obj_get (cs_runtimes b)" "obj_get (cs_attempts a) = obj_get (cs_attempts b)"
    "obj_get (cs_steering a) = obj_get (cs_steering b)" "obj_get (cs_aggregateVersions a) = obj_get (cs_aggregateVersions b)"
    "cs_headSeq a = cs_headSeq b"
  using assms by (simp_all add: same_objects_def)

lemma step_writes:
  assumes "applyControlEvent C st e = Inr st'" "control_ok st" "keys_ok st"
  shows "writes st e st'"
proof -
  obtain agg st1 where "applyBody C st e = Inr st1" "st' = stampEvent agg e st1"
    using applyControlEvent_body [OF assms(1)] by blast
  with body_writes [of C st e st1] assms(2,3) show ?thesis
    by (simp add: writes_def stampEvent_def split: EventFamily.splits)
qed

lemma attempt_rows_free:
  assumes rows: "rows_of (attemptRow P) rows (cs_attempts st)" and ok: "attempts_ok st'"
    and st': "cs_attempts st' = obj_set k a (cs_attempts st)" and k: "a_attemptId a = k"
  shows "upsertAttempt P a rows = Inr (obj_set k (attemptRow P a) rows)"
proof -
  have "\<not> (ar_taskId r = a_taskId a \<and> ar_taskGeneration r = a_taskGeneration a \<and> ar_attemptGeneration r = a_attemptGeneration a)"
    if r: "(j, r) \<in> set rows" "j \<noteq> k" for j r
  proof -
    obtain b where b: "obj_get (cs_attempts st) j = Some b" "r = attemptRow P b"
      using rows r(1) unfolding rows_of_def obj_wf_def by (metis map_of_eq_Some_iff map_option_eq_Some)
    then have "obj_get (cs_attempts st') j = Some b" "obj_get (cs_attempts st') k = Some a" using st' r(2) by simp_all
    with ok r(2) have "a_taskId b = a_taskId a \<longrightarrow> a_taskGeneration b = a_taskGeneration a \<longrightarrow> a_attemptGeneration b \<noteq> a_attemptGeneration a"
      unfolding attempts_ok_def by blast
    then show ?thesis using b(2) by (simp add: attemptRow_def)
  qed
  then show ?thesis using k by (auto simp: upsertAttempt_def list_ex_iff bind_res_def checks.simps)
qed

lemma find_snoc: "(\<And>x. x \<in> set xs \<Longrightarrow> \<not> Q x) \<Longrightarrow> Q y \<Longrightarrow> find Q (xs @ [y]) = Some y"
  by (induction xs) auto

lemma facts_delta:
  assumes st: "keys_ok st" "control_ok st" and step: "applyControlEvent C st e = Inr st'"
    and same: "same_objects l st'" and match: "facts_match P st db"
  shows "\<exists>db'. persistFactDelta P db l e = Inr db' \<and> facts_match P st' db' \<and> db_aggregates db' = db_aggregates db \<and> projection_write db db'"
proof -
  note w = step_writes [OF step st(2,1)] and l = same_objects_fields [OF same] and un = untouched [OF step]
  have head: "ev_seq e = Suc (cs_headSeq st)" using applyControlEvent_frame [OF step] by simp
  note defs = persistFactDelta_def writes_def touches_def facts_match_def projection_write_def
  show ?thesis
  proof (cases "eventFamily (ev_body e)")
    case FamRun
    with w un match show ?thesis by (auto simp: defs l)
  next
    case FamTask
    with w un match show ?thesis by (auto simp: defs l intro: rows_of_set)
  next
    case FamMessage
    with w obtain m where m: "cs_messages st' = cs_messages st @ [m]" "m_seq m = ev_seq e" "m_messageId m \<notin> m_messageId ` set (cs_messages st)"
      by (auto simp: writes_def)
    have old: "m_seq x \<noteq> ev_seq e \<and> m_messageId x \<noteq> m_messageId m" if "x \<in> set (cs_messages st)" for x
    proof -
      have "m_seq x \<le> cs_headSeq st" using st(1) that by (simp add: keys_ok_def)
      moreover have "m_messageId x \<noteq> m_messageId m" using m(3) that by (metis imageI)
      ultimately show ?thesis using head by simp
    qed
    have "find (\<lambda>x. m_seq x = ev_seq e) (cs_messages st') = Some m"
      unfolding m(1) by (rule find_snoc) (use m(2) old in auto)
    moreover have "insertMessage P m (db_messages db) = Inr (db_messages db @ [messageRow P m])"
      using m old match by (auto simp: insertMessage_def facts_match_def list_ex_iff messageRow_def bind_res_def checks.simps)
    ultimately show ?thesis using FamMessage un match m(1) by (auto simp: defs l)
  next
    case FamRuntime
    with w un match show ?thesis by (auto simp: defs l intro: rows_of_set)
  next
    case FamAttempt
    with w obtain a where a: "cs_attempts st' = obj_set (attemptOf (ev_body e)) a (cs_attempts st)" "a_attemptId a = attemptOf (ev_body e)"
      by (auto simp: writes_def)
    have "upsertAttempt P a (db_attempts db) = Inr (obj_set (attemptOf (ev_body e)) (attemptRow P a) (db_attempts db))"
      using attempt_rows_free [OF _ _ a, where P = P and rows = "db_attempts db"] match control_ok_step [OF st(2) step] by (simp add: facts_match_def control_ok_def)
    with FamAttempt a un match show ?thesis by (auto simp: defs l intro: rows_of_set)
  next
    case FamSteering
    with w un match show ?thesis by (auto simp: defs l intro: rows_of_set)
  next
    case FamScm
    with un match show ?thesis by (auto simp: defs)
  qed
qed

text \<open>The aggregates an event writes: its own, and the next generation of a task it reopens.\<close>

lemma aggregates_step:
  assumes "applyControlEvent C st e = Inr st'" "keys_ok st"
  obtains keys where "changedAggregates e = Inr keys" "\<And>k. k \<notin> set keys \<Longrightarrow> obj_get (cs_aggregateVersions st') k = obj_get (cs_aggregateVersions st) k"
    "\<And>k. k \<in> set keys \<Longrightarrow> obj_get (cs_aggregateVersions st') k \<noteq> None"
    "obj_wf (cs_aggregateVersions st) \<Longrightarrow> obj_wf (cs_aggregateVersions st')"
proof -
  obtain agg st1 where b: "aggregateForEvent e = Inr agg" "applyBody C st e = Inr st1" "st' = stampEvent agg e st1"
    using applyControlEvent_body [OF assms(1)] by blast
  let ?extra = "case ev_body e of EvTaskReopened g _ \<Rightarrow> [aggregateKey ''task'' (evTask e) g] | _ \<Rightarrow> []"
  have keys: "changedAggregates e = Inr (agg_key agg # ?extra)" by (simp add: changedAggregates_def b(1))
  have "(\<exists>g m v. ev_body e = EvTaskReopened g m \<and> cs_aggregateVersions st1 = obj_set (aggregateKey ''task'' (evTask e) g) v (cs_aggregateVersions st)) \<or>
      (\<forall>g m. ev_body e \<noteq> EvTaskReopened g m) \<and> cs_aggregateVersions st1 = cs_aggregateVersions st"
  proof (cases "touches (ev_body e) = ToTasks")
    case True
    have t: "obj_get (cs_tasks st) k = Some x \<Longrightarrow> t_id x = k" for k x using assms(2) by (simp add: keys_ok_def)
    from True show ?thesis
      by (cases rule: touches_tasks)
         (use b(2) t in \<open>auto simp: applyBody_def onTaskCreated_def onTaskReopened_def onTaskStatusChanged_def setTask_def assertTask_def split: if_splits\<close>)
  next
    case False
    with body_frame [OF b(2)] show ?thesis by (cases "ev_body e") (auto simp: touches_def eventFamily_def)
  qed
  then consider g m v where "ev_body e = EvTaskReopened g m"
      "cs_aggregateVersions st1 = obj_set (aggregateKey ''task'' (evTask e) g) v (cs_aggregateVersions st)"
    | "?extra = []" "cs_aggregateVersions st1 = cs_aggregateVersions st"
    by (cases "ev_body e") auto
  then show thesis
    by cases (intro that [OF keys]; auto simp: b(3) stampEvent_def split: if_splits)+
qed

lemma aggregates_persist:
  assumes "\<And>k. k \<in> set keys \<Longrightarrow> obj_get ag k \<noteq> None"
  shows "\<exists>t. fold_res (\<lambda>d key. bind_res (require_some RECOVERY_REQUIRED (obj_get ag key))
      (\<lambda>aggregate. Inr (d\<lparr>db_aggregates := obj_set key aggregate (db_aggregates d)\<rparr>))) db keys = Inr (db\<lparr>db_aggregates := t\<rparr>) \<and>
    (\<forall>k. obj_get t k = (if k \<in> set keys then obj_get ag k else obj_get (db_aggregates db) k)) \<and>
    (obj_wf (db_aggregates db) \<longrightarrow> obj_wf t)"
  using assms
proof (induction keys arbitrary: db)
  case Nil
  show ?case by (intro exI [of _ "db_aggregates db"]) simp
next
  case (Cons key keys)
  then obtain v where v: "obj_get ag key = Some v" by fastforce
  let ?d = "db\<lparr>db_aggregates := obj_set key v (db_aggregates db)\<rparr>"
  have "k \<in> set keys \<Longrightarrow> obj_get ag k \<noteq> None" for k using Cons.prems by simp
  from Cons.IH [OF this, of ?d] show ?case using v by (auto simp: bind_res_def require_some_def)
qed

definition tables_match :: "'txt StorePrims \<Rightarrow> ControlProjection \<Rightarrow> 'txt Database \<Rightarrow> bool" where
  "tables_match P st db \<longleftrightarrow> facts_match P st db \<and> rows_of id (db_aggregates db) (cs_aggregateVersions st)"

text \<open>Persisting the delta of an event keeps the tables equal to the projection, and never fails.\<close>

lemma delta_matches:
  assumes st: "keys_ok st" "control_ok st" and step: "applyControlEvent C st e = Inr st'"
    and same: "same_objects l st'" and match: "tables_match P st db"
  shows "\<exists>db'. persistProjectionDelta P db l e = Inr db' \<and> tables_match P st' db' \<and> projection_write db db'"
proof -
  obtain db1 where db1: "persistFactDelta P db l e = Inr db1" "facts_match P st' db1" "db_aggregates db1 = db_aggregates db" "projection_write db db1"
    using facts_delta [OF st step same] match unfolding tables_match_def by blast
  obtain keys where keys: "changedAggregates e = Inr keys" "\<And>k. k \<notin> set keys \<Longrightarrow> obj_get (cs_aggregateVersions st') k = obj_get (cs_aggregateVersions st) k"
    "\<And>k. k \<in> set keys \<Longrightarrow> obj_get (cs_aggregateVersions st') k \<noteq> None"
    using aggregates_step [OF step st(1)] by metis
  obtain t where "persistProjectionDelta P db l e = Inr (db1\<lparr>db_aggregates := t\<rparr>)"
    "\<forall>k. obj_get t k = (if k \<in> set keys then obj_get (cs_aggregateVersions st') k else obj_get (db_aggregates db1) k)"
    "obj_wf (db_aggregates db1) \<longrightarrow> obj_wf t"
    using aggregates_persist [OF keys(3), where db = db1] by (auto simp: persistProjectionDelta_def db1(1) keys(1) same_objects_fields(7) [OF same] bind_res_def)
  with db1 keys(2) match show ?thesis
    by (intro exI [of _ "db1\<lparr>db_aggregates := t\<rparr>"])
       (auto simp: tables_match_def facts_match_def projection_write_def rows_of_def option.map_id)
qed

lemma scm_wf_step:
  assumes "applyControlEvent C st e = Inr st'" "obj_wf (scm_publications (cs_scm st))" "obj_wf (scm_observations (cs_scm st))"
  shows "obj_wf (scm_publications (cs_scm st')) \<and> obj_wf (scm_observations (cs_scm st'))"
proof (cases "touches (ev_body e) = ToScm")
  case True
  obtain agg st1 where b: "applyBody C st e = Inr st1" "st' = stampEvent agg e st1"
    using applyControlEvent_body [OF assms(1)] by blast
  from True show ?thesis
    by (cases rule: touches_scm) (use b assms(2,3) in \<open>auto simp: applyBody_def handler_defs Let_def simp del: ball_simps\<close>)
qed (simp add: untouched [OF assms(1)] assms)

lemma keys_ok_step:
  assumes "keys_ok st" "control_ok st" "applyControlEvent C st e = Inr st'"
  shows "keys_ok st'"
proof -
  note w = step_writes [OF assms(3,2,1)] and un = untouched [OF assms(3)]
  have head: "cs_headSeq st' = Suc (cs_headSeq st)" "ev_seq e = Suc (cs_headSeq st)" using applyControlEvent_frame [OF assms(3)] by simp_all
  have agg: "obj_wf (cs_aggregateVersions st')"
    using aggregates_step [OF assms(3,1)] assms(1) unfolding keys_ok_def by metis
  note defs = keys_ok_def writes_def touches_def
  have scm: "obj_wf (scm_publications (cs_scm st')) \<and> obj_wf (scm_observations (cs_scm st'))"
    using scm_wf_step [OF assms(3)] assms(1) by (simp add: keys_ok_def)
  show ?thesis
    using w un assms(1) head agg scm by (cases "eventFamily (ev_body e)") (auto simp: defs sorted_wrt_append le_Suc_eq less_Suc_eq_le split: if_splits)
qed

definition facts_ok :: "ControlProjection \<Rightarrow> bool" where
  "facts_ok st \<longleftrightarrow> control_ok st \<and> keys_ok st"

lemma facts_ok_empty: "facts_ok (emptyControlProjection r ep)"
  using control_ok_empty [of r ep] by (simp add: facts_ok_def keys_ok_def emptyControlProjection_def emptyScmControlProjection_def)

interpretation facts: event_fold "applyControlEvent C" facts_ok for C
  by unfold_locales (auto simp: facts_ok_def intro: control_ok_step keys_ok_step)

section \<open>Reading the projection back\<close>

lemma rows_of_map:
  assumes "rows_of row table ob"
  shows "rows_of (\<lambda>v. h (row v)) (map (map_prod id h) table) ob"
proof -
  have "map fst (map (map_prod id h) table) = map fst table" by simp
  moreover have "obj_get (map (map_prod id h) table) k = map_option h (obj_get table k)" for k
    by (simp add: map_prod_def map_of_map)
  ultimately show ?thesis using assms by (simp add: rows_of_def obj_wf_def option.map_comp comp_def)
qed

text \<open>The rows of the event table, and the events they decode to.\<close>

definition rowOf :: "'txt StorePrims \<Rightarrow> PersistedControlEvent \<Rightarrow> 'txt EventRow" where
  "rowOf P pe = eventRow P (pe_intent pe) (pe_seq pe) (pe_recordedAt pe)"

definition recorded :: "'txt StorePrims \<Rightarrow> PersistedControlEvent \<Rightarrow> bool" where
  "recorded P pe \<longleftrightarrow> pe = persistedOf P (pe_intent pe) (pe_seq pe) (pe_recordedAt pe) \<and>
     canonicalUtc P (pe_recordedAt pe) = Inr (pe_recordedAt pe) \<and> asSafeInteger (pe_seq pe) = Inr (pe_seq pe) \<and>
     schemaOk P (pe_intent pe)"

lemma er_seq_rowOf [simp]: "er_seq (rowOf P pe) = pe_seq pe"
  by (simp add: rowOf_def eventRow_def Let_def)

lemma decode_rowOf:
  assumes "texts_ok P" "recorded P pe"
  shows "decodeEventRow P (rowOf P pe) = Inr pe"
proof -
  define i s r where defs: "i = pe_intent pe" "s = pe_seq pe" "r = pe_recordedAt pe"
  have pe: "pe = persistedOf P i s r" "canonicalUtc P r = Inr r" "asSafeInteger s = Inr s" "schemaOk P i"
    using assms(2) by (simp_all add: recorded_def defs)
  have "cd_decode (sp_persisted P) (cd_encode (sp_persisted P) (i, r)) = Some (i, r)"
    using texts_okD(2) [OF assms(1)] by (simp add: codec_ok_def)
  then show ?thesis
    unfolding rowOf_def defs(1-3) [symmetric]
    by (simp add: decodeEventRow_def eventRow_def Let_def pe persistedOf_def canonicalPersistedControlEvent_def)
qed

text \<open>An event history: recorded events that replay from the empty projection.\<close>

definition history :: "'txt StorePrims \<Rightarrow> ControlStore \<Rightarrow> PersistedControlEvent list \<Rightarrow> ControlProjection \<Rightarrow> bool" where
  "history P S pes st \<longleftrightarrow> list_all (recorded P) pes \<and> reduceStored P S pes None = Inr st"

lemma history_reduce:
  "history P S pes st \<longleftrightarrow> list_all (recorded P) pes \<and>
     fold_res (applyControlEvent (sp_control P)) (emptyControlProjection (cst_runId S) (cst_runEpoch S)) (map persistedEvent pes) = Inr st"
  by (simp add: history_def reduceStored_def reduceControlEvents_def)

lemma history_facts_ok: "history P S pes st \<Longrightarrow> facts_ok st"
  using facts.replay_inv [OF facts_ok_empty] by (auto simp: history_reduce)

lemma history_seqs:
  assumes "history P S pes st"
  shows "map pe_seq pes = [1..<Suc (length pes)]" "cs_headSeq st = length pes"
proof -
  have "map ev_seq (map persistedEvent pes) = [1..<Suc (length pes)]"
    using control.replay_seqs [of "sp_control P" "emptyControlProjection (cst_runId S) (cst_runEpoch S)" "map persistedEvent pes" st] assms
    by (simp add: history_reduce emptyControlProjection_def del: upt_Suc map_map)
  then show "map pe_seq pes = [1..<Suc (length pes)]" by (simp add: persistedEvent_def comp_def del: upt_Suc)
  show "cs_headSeq st = length pes"
    using control.replay_head [of "sp_control P" "emptyControlProjection (cst_runId S) (cst_runEpoch S)" "map persistedEvent pes" st] assms
    by (simp add: history_reduce emptyControlProjection_def)
qed

lemma history_identity:
  assumes "history P S pes st"
  shows "cs_runId st = cst_runId S \<and> cs_runEpoch st = cst_runEpoch S"
proof -
  have "cs_runId s' = cs_runId s \<and> cs_runEpoch s' = cs_runEpoch s" if "fold_res (applyControlEvent C) s es = Inr s'" for C s s' es
    using that by (induction es arbitrary: s) (auto split: sum.splits dest: applyControlEvent_frame)
  from this [OF history_reduce [THEN iffD1, OF assms, THEN conjunct2]] show ?thesis by (simp add: emptyControlProjection_def)
qed

lemma history_prefix:
  assumes "history P S (pes @ qes) st"
  obtains st0 where "history P S pes st0" "fold_res (applyControlEvent (sp_control P)) st0 (map persistedEvent qes) = Inr st"
  using assms by (auto simp: history_reduce dest!: fold_res_prefix)

lemma history_snoc:
  "history P S pes st \<Longrightarrow> recorded P pe \<Longrightarrow> applyControlEvent (sp_control P) st (persistedEvent pe) = Inr st' \<Longrightarrow>
     history P S (pes @ [pe]) st'"
  by (simp add: history_reduce fold_res_append)

lemma filter_numbered:
  assumes "map f xs = [Suc k..<Suc (k + length xs)]"
  shows "filter (\<lambda>x. f x \<le> k + n) xs = take n xs \<and> filter (\<lambda>x. k + n < f x) xs = drop n xs"
  using assms
proof (induction xs arbitrary: k n)
  case (Cons x xs)
  then have x: "f x = Suc k" "map f xs = [Suc (Suc k)..<Suc (Suc k + length xs)]" by (simp_all add: upt_conv_Cons del: upt_Suc)
  show ?case
  proof (cases n)
    case 0
    have "k < f y" if "y \<in> set xs" for y
    proof -
      have "f y \<in> set (map f xs)" using that by simp
      then show ?thesis unfolding x(2) by (simp del: upt_Suc)
    qed
    then have "filter (\<lambda>y. f y \<le> k) xs = []" "filter (\<lambda>y. k < f y) xs = xs" by (fastforce simp: filter_empty_conv)+
    with 0 x(1) show ?thesis by simp
  next
    case (Suc m)
    with Cons.IH [OF x(2), of m] x(1) show ?thesis by simp
  qed
qed simp

lemma mapRes_decode: "(\<And>x. x \<in> set xs \<Longrightarrow> f (r x) = Inr x) \<Longrightarrow> mapRes f (map r xs) = Inr xs"
  by (induction xs) simp_all

lemma history_filter:
  assumes "history P S pes st"
  shows "filter (\<lambda>pe. pe_seq pe \<le> n) pes = take n pes" "filter (\<lambda>pe. n < pe_seq pe) pes = drop n pes"
  using filter_numbered [of pe_seq pes 0 n] history_seqs(1) [OF assms] by simp_all

lemma history_rows:
  assumes "texts_ok P" "history P S pes st" "set qes \<subseteq> set pes"
  shows "mapRes (decodeEventRow P) (map (rowOf P) qes) = Inr qes"
  using assms by (intro mapRes_decode decode_rowOf) (auto simp: history_def list_all_iff)

lemma sort_history_rows:
  assumes "history P S pes st"
  shows "sort_key er_seq (map (rowOf P) (take n (drop m pes))) = map (rowOf P) (take n (drop m pes))"
proof (rule sort_key_id_if_sorted)
  have "sorted (take n (drop m (map pe_seq pes)))"
    unfolding history_seqs(1) [OF assms] by (intro sorted_wrt_take sorted_wrt_drop) (simp del: upt_Suc)
  then show "sorted (map er_seq (map (rowOf P) (take n (drop m pes))))" by (simp add: comp_def take_map drop_map)
qed

lemma readAllEvents_history:
  assumes "texts_ok P" "history P S pes st" "db_events db = map (rowOf P) pes"
  shows "readAllEvents P db None = Inr pes" "readAllEvents P db (Some n) = Inr (take n pes)"
  using history_rows [OF assms(1,2), of pes] history_rows [OF assms(1,2), of "take n pes"]
    sort_history_rows [OF assms(2), of "length pes" 0] sort_history_rows [OF assms(2), of n 0] history_filter(1) [OF assms(2), of n]
  by (simp_all add: readAllEvents_def assms(3) filter_map comp_def set_take_subset)

text \<open>Source control facts come from the replay, and a history without such events has none.\<close>

lemma isScm_rowOf: "isScmRow (rowOf P pe) \<longleftrightarrow> eventFamily (ev_body (persistedEvent pe)) = FamScm"
  by (cases "ev_body (it_event (pe_intent pe))")
     (simp_all add: isScmRow_def rowOf_def eventRow_def Let_def eventType_def eventFamily_def persistedEvent_def)

lemma history_no_scm:
  assumes "history P S pes st" "\<not> list_ex isScmRow (map (rowOf P) pes)"
  shows "cs_scm st = emptyScmControlProjection"
  using assms
proof (induction pes arbitrary: st rule: rev_induct)
  case Nil
  then show ?case by (auto simp: history_reduce emptyControlProjection_def)
next
  case (snoc pe pes)
  obtain st0 where st0: "history P S pes st0" "applyControlEvent (sp_control P) st0 (persistedEvent pe) = Inr st"
    by (rule history_prefix [OF snoc.prems(1)]) (simp split: sum.splits)
  have "eventFamily (ev_body (persistedEvent pe)) \<noteq> FamScm" using snoc.prems(2) by (simp add: isScm_rowOf)
  then have "touches (ev_body (persistedEvent pe)) \<noteq> ToScm"
    by (cases "eventFamily (ev_body (persistedEvent pe))") (simp_all add: touches_def)
  with untouched(7) [OF st0(2)] snoc.IH [OF st0(1)] snoc.prems(2) show ?case by simp
qed

lemma loadScm_history:
  assumes "texts_ok P" "history P S pes st" "db_events db = map (rowOf P) pes" "mt_headSeq (db_meta db) = length pes"
  shows "loadScm P S db = Inr (cs_scm st)"
proof (cases "list_ex isScmRow (db_events db)")
  case True
  moreover have "reduceStored P S pes None = Inr st" using assms(2) by (simp add: history_def)
  ultimately show ?thesis using readAllEvents_history(2) [OF assms(1-3)] assms(4) by (simp add: loadScm_def)
next
  case False
  with history_no_scm [OF assms(2)] show ?thesis by (simp add: loadScm_def assms(3))
qed

text \<open>The numbers of the aggregates are safe integers: versions and sequence numbers stay below the head.\<close>

definition aggregates_bounded :: "nat \<Rightarrow> AggregateVersion obj \<Rightarrow> bool" where
  "aggregates_bounded n t \<longleftrightarrow>
     (\<forall>k a. obj_get t k = Some a \<longrightarrow> isSafeInteger (ag_generation a) \<and> ag_version a \<le> n \<and> ag_updatedSeq a \<le> n)"

lemma aggregates_bounded_mono: "aggregates_bounded m t \<Longrightarrow> m \<le> n \<Longrightarrow> aggregates_bounded n t"
  unfolding aggregates_bounded_def by (meson le_trans)

lemma aggregates_bounded_set:
  assumes "aggregates_bounded n t" "isSafeInteger (ag_generation a)" "ag_version a \<le> n" "ag_updatedSeq a \<le> n"
  shows "aggregates_bounded n (obj_set k a t)"
  using assms by (auto simp: aggregates_bounded_def)

lemma aggregates_bounded_step:
  assumes app: "applyControlEvent C st (persistedEvent pe) = Inr st'" and safe: "safeNumbers (pe_intent pe)"
    and st: "aggregates_bounded (cs_headSeq st) (cs_aggregateVersions st)"
  shows "aggregates_bounded (cs_headSeq st') (cs_aggregateVersions st')"
proof -
  let ?e = "persistedEvent pe"
  obtain agg st1 where b: "aggregateForEvent ?e = Inr agg" "applyBody C st ?e = Inr st1" "st' = stampEvent agg ?e st1"
      "ev_seq ?e = Suc (cs_headSeq st)" "ev_expectedVersion ?e = actualVersion st (agg_key agg)"
    using applyControlEvent_body [OF app] by blast
  have gen: "isSafeInteger (agg_generation agg)"
    using b(1) safe by (auto simp: aggregateForEvent_def safeNumbers_def persistedEvent_def Let_def safeOption_def isSafeInteger_def split: option.splits)
  have version: "ev_expectedVersion ?e \<le> cs_headSeq st"
    using st b(5) by (auto simp: actualVersion_def aggregates_bounded_def split: option.splits)
  have same: "aggregates_bounded (ev_seq ?e) (cs_aggregateVersions st)"
    using aggregates_bounded_mono [OF st] b(4) by simp
  have st1: "aggregates_bounded (ev_seq ?e) (cs_aggregateVersions st1)"
  proof (cases "touches (ev_body ?e) = ToTasks")
    case True
    have reopened: "isSafeInteger g" if "ev_body ?e = EvTaskReopened g m" for g m
      using safe that by (simp add: safeNumbers_def persistedEvent_def Let_def)
    from True show ?thesis
      by (cases rule: touches_tasks)
        (use b(2,4) same reopened in \<open>auto simp: applyBody_def onTaskCreated_def onTaskReopened_def onTaskStatusChanged_def setTask_def
           intro!: aggregates_bounded_set split: if_splits\<close>)
  next
    case False
    with body_frame [OF b(2)] same show ?thesis by simp
  qed
  show ?thesis
    using aggregates_bounded_set [OF st1] gen version b(4) by (simp add: b(3) stampEvent_def)
qed

lemma history_bounded:
  assumes "history P S pes st"
  shows "aggregates_bounded (length pes) (cs_aggregateVersions st)"
  using assms
proof (induction pes arbitrary: st rule: rev_induct)
  case Nil
  then show ?case by (auto simp: history_reduce emptyControlProjection_def aggregates_bounded_def)
next
  case (snoc pe pes)
  obtain st0 where st0: "history P S pes st0" "applyControlEvent (sp_control P) st0 (persistedEvent pe) = Inr st"
    using snoc.prems by (rule history_prefix) (auto split: sum.splits)
  have "safeNumbers (pe_intent pe)" using snoc.prems by (simp add: history_def recorded_def schemaOk_def)
  from aggregates_bounded_step [OF st0(2) this] snoc.IH [OF st0(1)] history_seqs(2) [OF st0(1)] history_seqs(2) [OF snoc.prems]
  show ?case by simp
qed

lemma history_head_safe:
  assumes "history P S pes st"
  shows "isSafeInteger (length pes)"
proof (cases pes rule: rev_cases)
  case (snoc qes pe)
  have "map pe_seq pes ! length qes = length pes" unfolding history_seqs(1) [OF assms] by (simp add: snoc del: upt_Suc)
  then have "pe_seq pe = length pes" by (simp add: snoc nth_append)
  moreover have "recorded P pe" using assms by (simp add: snoc history_def)
  ultimately show ?thesis by (simp add: recorded_def asSafeInteger_def split: if_splits)
qed (simp add: isSafeInteger_def)

lemma loadAggregates_history:
  assumes "history P S pes st" "rows_of id table (cs_aggregateVersions st)"
  shows "loadAggregates table = Inr (by_key table)"
proof -
  have "isSafeInteger (ag_generation a) \<and> isSafeInteger (ag_version a) \<and> isSafeInteger (ag_updatedSeq a)" if "(k, a) \<in> set table" for k a
  proof -
    have "obj_wf table" using assms(2) by (simp add: rows_of_def)
    with that have "obj_get table k = Some a" by (simp add: obj_wf_def)
    then have "obj_get (cs_aggregateVersions st) k = Some a" using assms(2) by (simp add: rows_of_def option.map_id)
    with history_bounded [OF assms(1)] history_head_safe [OF assms(1)] show ?thesis
      by (fastforce simp: aggregates_bounded_def isSafeInteger_def)
  qed
  then have "checks (map (\<lambda>(_, a). (\<not> isSafeInteger (ag_generation a) \<or> \<not> isSafeInteger (ag_version a) \<or>
      \<not> isSafeInteger (ag_updatedSeq a), RECOVERY_REQUIRED)) (by_key table)) = Inr ()"
    by auto
  then show ?thesis by (simp add: loadAggregates_def)
qed

definition objects_wf :: "ControlProjection \<Rightarrow> bool" where
  "objects_wf st \<longleftrightarrow> obj_wf (cs_tasks st) \<and> obj_wf (cs_runtimes st) \<and> obj_wf (cs_steering st) \<and> obj_wf (cs_aggregateVersions st)"

lemma same_scm_refl: "control_ok st \<Longrightarrow> same_scm (cs_scm st) (cs_scm st)"
  by (simp add: same_scm_def control_ok_def polls_ok_def reactions_ok_def)

lemma loadProjection_same:
  assumes P: "texts_ok P" and h: "history P S pes st" "db_events db = map (rowOf P) pes" "mt_headSeq (db_meta db) = length pes"
    and match: "tables_match P st db" and meta: "readMeta P db = Inr (db_meta db)" "mt_runId (db_meta db) = cst_runId S" "mt_runEpoch (db_meta db) = cst_runEpoch S"
  obtains l where "loadProjection P S db = Inr l" "same_objects l st" "cs_scm l = cs_scm st" "objects_wf l"
proof -
  note codecs = texts_okD [OF P]
  have tm: "db_run db = map_option (factRow P (sp_run P)) (cs_run st)" "rows_of (factRow P (sp_task P)) (db_tasks db) (cs_tasks st)"
    "db_messages db = map (messageRow P) (cs_messages st)" "rows_of (factRow P (sp_runtime P)) (db_runtimes db) (cs_runtimes st)"
    "rows_of (attemptRow P) (db_attempts db) (cs_attempts st)" "rows_of (factRow P (sp_steering P)) (db_steering db) (cs_steering st)"
    "rows_of id (db_aggregates db) (cs_aggregateVersions st)"
    using match by (simp_all add: tables_match_def facts_match_def)
  obtain tasks where tasks: "loadFacts P (sp_task P) (db_tasks db) = Inr tasks" "obj_get tasks = obj_get (cs_tasks st)" "obj_wf tasks"
    by (rule loadFacts_rows [OF codecs(4) tm(2)])
  obtain runtimes where runtimes: "loadFacts P (sp_runtime P) (db_runtimes db) = Inr runtimes" "obj_get runtimes = obj_get (cs_runtimes st)" "obj_wf runtimes"
    by (rule loadFacts_rows [OF codecs(6) tm(4)])
  have "rows_of (factRow P (sp_attempt P)) (map (map_prod id ar_fact) (db_attempts db)) (cs_attempts st)"
    using rows_of_map [OF tm(5), of ar_fact] by (simp add: attemptRow_def)
  then obtain attempts where attempts: "loadFacts P (sp_attempt P) (map (map_prod id ar_fact) (db_attempts db)) = Inr attempts"
    "obj_get attempts = obj_get (cs_attempts st)" "obj_wf attempts"
    by (rule loadFacts_rows [OF codecs(7)])
  obtain steering where steering: "loadFacts P (sp_steering P) (db_steering db) = Inr steering" "obj_get steering = obj_get (cs_steering st)" "obj_wf steering"
    by (rule loadFacts_rows [OF codecs(8) tm(6)])
  have ok: "facts_ok st" by (rule history_facts_ok [OF h(1)])
  have messages: "mapRes (\<lambda>row. decodeFact P (sp_message P) (mr_fact row)) (sort_key mr_seq (db_messages db)) = Inr (cs_messages st)"
  proof -
    have "sorted (map mr_seq (db_messages db))"
      using ok by (simp add: facts_ok_def keys_ok_def tm(3) messageRow_def comp_def strict_sorted_iff)
    then have "sort_key mr_seq (db_messages db) = map (messageRow P) (cs_messages st)" using tm(3) by (simp add: sort_key_id_if_sorted)
    then show ?thesis by (simp add: mapRes_decode messageRow_def decodeFact_factRow [OF codecs(5)])
  qed
  have run: "(case db_run db of None \<Rightarrow> Inr None | Some row \<Rightarrow> bind_res (decodeFact P (sp_run P) row) (\<lambda>r. Inr (Some r))) = Inr (cs_run st)"
    by (cases "cs_run st") (simp_all add: tm(1) decodeFact_factRow [OF codecs(3)])
  have aggs: "obj_get (by_key (db_aggregates db)) = obj_get (cs_aggregateVersions st)" "obj_wf (by_key (db_aggregates db))"
    using tm(7) by (simp_all add: rows_of_def by_key_get by_key_wf fun_eq_iff option.map_id)
  have load: "loadAggregates (db_aggregates db) = Inr (by_key (db_aggregates db))"
    by (rule loadAggregates_history [OF h(1) tm(7)])
  have scm: "loadScm P S db = Inr (cs_scm st)" by (rule loadScm_history [OF P h])
  have ids: "cs_runId st = cst_runId S" "cs_runEpoch st = cst_runEpoch S"
    using history_identity [OF h(1)] by simp_all
  show thesis
    by (rule that [of "\<lparr>cs_runId = cst_runId S, cs_runEpoch = cst_runEpoch S, cs_headSeq = length pes, cs_run = cs_run st, cs_tasks = tasks,
       cs_messages = cs_messages st, cs_runtimes = runtimes, cs_attempts = attempts, cs_steering = steering, cs_scm = cs_scm st,
       cs_aggregateVersions = by_key (db_aggregates db)\<rparr>"])
       (use ok tasks runtimes attempts steering aggs history_seqs(2) [OF h(1)] ids same_scm_refl [of st] in
         \<open>simp_all add: loadProjection_def meta h(3) verifyRunIdentity_def run messages load scm same_objects_def objects_wf_def facts_ok_def control_ok_def attempts_ok_def\<close>)
qed

end
