(* ===== verification/Control_Commit.thy ===== *)
theory Control_Commit
  imports Control_Tables
begin

text \<open>
  The invariant of the control store and a committed batch: the event table holds a history that replays, the tables
  materialise it, cursors and snapshots lie within it. A batch that commits extends the history by its new events, answers every
  event with the receipt of the one row that holds it, and keeps the invariant.
\<close>

section \<open>The invariant of the store\<close>

definition intentId :: "PersistedControlEvent \<Rightarrow> string" where
  "intentId pe = ev_eventId (it_event (pe_intent pe))"

lemma er_eventId_rowOf [simp]: "er_eventId (rowOf P pe) = intentId pe"
  by (simp add: rowOf_def eventRow_def Let_def intentId_def)

text \<open>The events, the tables that materialise them, and the projection the transaction holds.\<close>

definition materialised :: "'txt StorePrims \<Rightarrow> ControlStore \<Rightarrow> 'txt Database \<Rightarrow> PersistedControlEvent list \<Rightarrow> ControlProjection \<Rightarrow> bool" where
  "materialised P S db pes st \<longleftrightarrow> history P S pes st \<and> db_events db = map (rowOf P) pes \<and> tables_match P st db \<and> distinct (map intentId pes)"

definition meta_ok :: "'txt StorePrims \<Rightarrow> ControlStore \<Rightarrow> 'txt Database \<Rightarrow> bool" where
  "meta_ok P S db \<longleftrightarrow> readMeta P db = Inr (db_meta db) \<and> mt_runId (db_meta db) = cst_runId S \<and> mt_runEpoch (db_meta db) = cst_runEpoch S \<and>
     mt_storeId (db_meta db) = cst_storeId S \<and> mt_retainedFloor (db_meta db) = 1"

definition cursors_ok :: "'txt StorePrims \<Rightarrow> nat \<Rightarrow> ConsumerCursor obj \<Rightarrow> bool" where
  "cursors_ok P head t \<longleftrightarrow> obj_wf t \<and> (\<forall>k c. obj_get t k = Some c \<longrightarrow>
     cu_consumerId c = k \<and> cu_lastSeq c \<le> head \<and> decodeConsumerCursor P c = Inr c)"

definition snapshot_ok :: "'txt StorePrims \<Rightarrow> ControlStore \<Rightarrow> PersistedControlEvent list \<Rightarrow> 'txt SnapshotRow \<Rightarrow> bool" where
  "snapshot_ok P S pes row \<longleftrightarrow> sn_seq row \<le> length pes \<and> sn_storeId row = cst_storeId S \<and> sn_schemaVersion row = 1 \<and>
     sn_reducerVersion row = 1 \<and> sn_runId row = cst_runId S \<and> sn_runEpoch row = cst_runEpoch S \<and>
     sn_digest row = sp_sha256 P (sn_payloadJson row) \<and> canonicalUtc P (sn_createdAt row) = Inr (sn_createdAt row) \<and>
     canonicalUtc P (sn_verifiedAt row) = Inr (sn_verifiedAt row) \<and>
     (\<exists>st. history P S (take (sn_seq row) pes) st \<and> sn_payloadJson row = projectionText P st)"

definition stored :: "'txt StorePrims \<Rightarrow> ControlStore \<Rightarrow> 'txt Database \<Rightarrow> PersistedControlEvent list \<Rightarrow> ControlProjection \<Rightarrow> bool" where
  "stored P S db pes st \<longleftrightarrow> materialised P S db pes st \<and> meta_ok P S db \<and> mt_headSeq (db_meta db) = length pes \<and>
     cursors_ok P (length pes) (db_cursors db) \<and> list_all (snapshot_ok P S pes) (db_snapshots db)"

definition store_ok :: "'txt StorePrims \<Rightarrow> ControlStore \<Rightarrow> 'txt Database \<Rightarrow> bool" where
  "store_ok P S db \<longleftrightarrow> (\<exists>pes st. stored P S db pes st)"

lemma stored_load:
  assumes "texts_ok P" "stored P S db pes st"
  obtains l where "loadProjection P S db = Inr l" "same_objects l st" "cs_headSeq l = length pes" "cs_scm l = cs_scm st" "objects_wf l"
proof -
  obtain l where l: "loadProjection P S db = Inr l" "same_objects l st" "cs_scm l = cs_scm st" "objects_wf l"
    using loadProjection_same [OF assms(1), of S pes st db] assms(2) by (auto simp: stored_def materialised_def meta_ok_def)
  have "cs_headSeq l = length pes"
    using l(2) history_seqs(2) [of P S pes st] assms(2) by (simp add: same_objects_def stored_def materialised_def)
  with l that show thesis by blast
qed

lemma same_objects_sym: "same_objects a b \<Longrightarrow> same_objects b a"
  by (simp add: same_objects_def same_scm_def)

section \<open>One event of a batch\<close>

lemma nextRowid_history:
  assumes "history P S pes st" "db_events db = map (rowOf P) pes"
  shows "nextRowid db = Suc (length pes)" "eventHead db = length pes"
proof -
  have "map er_seq (db_events db) = [1..<Suc (length pes)]"
    using history_seqs(1) [OF assms(1)] by (simp add: assms(2) comp_def del: upt_Suc)
  then have "fold max (map er_seq (db_events db)) 0 = Max (insert 0 {1..<Suc (length pes)})"
    by (simp add: fold_max_set del: upt_Suc)
  also have "\<dots> = length pes" by (rule Max_eqI) (auto simp: Suc_le_eq)
  finally show "nextRowid db = Suc (length pes)" "eventHead db = length pes" by (simp_all add: nextRowid_def eventHead_def)
qed

lemma aggregateForEvent_stamp [simp]: "aggregateForEvent (e\<lparr>ev_seq := n, ev_recordedAt := t\<rparr>) = aggregateForEvent e"
  by (cases "eventSession (ev_body e)"; cases "ev_taskId e") (simp_all add: aggregateForEvent_def split: prod.splits)

text \<open>The receipt of an event: it names the row that holds it.\<close>

definition receipt :: "PersistedControlEvent \<Rightarrow> bool \<Rightarrow> StoreAppendResult" where
  "receipt pe idem = \<lparr>rs_eventId = intentId pe, rs_seq = pe_seq pe, rs_digest = pe_digest pe, rs_intentDigest = pe_intentDigest pe,
     rs_recordedAt = pe_recordedAt pe, rs_idempotent = idem, rs_aggregateVersion = ev_expectedVersion (it_event (pe_intent pe)) + 1\<rparr>"

lemma insertEvent_materialised:
  assumes mat: "materialised P S db pes st" and same: "same_objects proj st" and fresh: "existingEvent db i = None" and schema: "schemaOk P i"
    and ins: "insertEvent P now db proj i = Inr (db', proj', r)"
  obtains pe st' where "pe_intent pe = i" "materialised P S db' (pes @ [pe]) st'" "same_objects proj' st'" "r = receipt pe False"
    "db_meta db' = db_meta db" "db_snapshots db' = db_snapshots db" "db_cursors db' = db_cursors db"
proof -
  have h: "history P S pes st" "db_events db = map (rowOf P) pes" "tables_match P st db" "distinct (map intentId pes)"
    using mat by (simp_all add: materialised_def)
  have ok: "facts_ok st" by (rule history_facts_ok [OF h(1)])
  define recordedAt where "recordedAt = now (length (db_events db))"
  define pe where "pe = persistedOf P i (nextRowid db) recordedAt"
  define db1 where "db1 = db\<lparr>db_events := db_events db @ [eventRow P i (nextRowid db) recordedAt]\<rparr>"
  from ins obtain agg where
      utc: "canonicalUtc P recordedAt = Inr recordedAt" and safe: "asSafeInteger (nextRowid db) = Inr (nextRowid db)"
    and app: "applyControlEvent (sp_control P) proj (persistedEvent pe) = Inr proj'"
    and delta: "persistProjectionDelta P db1 proj' (persistedEvent pe) = Inr db'"
    and agg: "aggregateForEvent (it_event i) = Inr agg"
    and r: "r = \<lparr>rs_eventId = ev_eventId (it_event i), rs_seq = nextRowid db,
       rs_digest = persistedControlEventDigest P i recordedAt, rs_intentDigest = controlEventDigest P i,
       rs_recordedAt = recordedAt, rs_idempotent = False, rs_aggregateVersion = actualVersion proj' (agg_key agg)\<rparr>"
    by (auto simp: insertEvent_def Let_def pe_def db1_def recordedAt_def asSafeInteger_def canonicalUtc_def split: if_splits)
  have rec: "recorded P pe" using utc safe schema by (simp add: recorded_def pe_def persistedOf_def)
  obtain st' where st': "applyControlEvent (sp_control P) st (persistedEvent pe) = Inr st'" "same_objects st' proj'"
    by (rule apply_same_Inr [OF same_objects_sym [OF same] app])
  have "tables_match P st db1" using h(3) by (simp add: tables_match_def facts_match_def db1_def)
  from delta_matches [OF _ _ st'(1) same_objects_sym [OF st'(2)] this] ok delta
  have tab: "tables_match P st' db'" "projection_write db1 db'" by (simp_all add: facts_ok_def)
  have rows: "db_events db' = map (rowOf P) (pes @ [pe])"
    using tab(2) h(2) by (simp add: projection_write_def db1_def rowOf_def pe_def persistedOf_def)
  have new: "intentId pe \<notin> set (map intentId pes)"
  proof
    assume "intentId pe \<in> set (map intentId pes)"
    then obtain q where "q \<in> set pes" "intentId q = intentId pe" by auto
    then have "rowOf P q \<in> set (db_events db)" "er_eventId (rowOf P q) = ev_eventId (it_event i)"
      by (simp_all add: h(2)) (simp add: intentId_def pe_def persistedOf_def)
    with fresh show False by (auto simp: existingEvent_def find_None_iff)
  qed
  have "aggregateForEvent (persistedEvent pe) = Inr agg"
    using agg by (simp add: persistedEvent_def pe_def persistedOf_def)
  then have "actualVersion proj' (agg_key agg) = ev_expectedVersion (it_event i) + 1"
    using applyControlEvent_body [OF app] by (auto simp: stampEvent_def actualVersion_def persistedEvent_def pe_def persistedOf_def)
  then have "r = receipt pe False" by (simp add: r receipt_def pe_def persistedOf_def intentId_def)
  moreover have "materialised P S db' (pes @ [pe]) st'"
    using history_snoc [OF h(1) rec st'(1)] rows tab(1) h(4) new by (simp add: materialised_def)
  moreover have "pe_intent pe = i" by (simp add: pe_def persistedOf_def)
  ultimately show thesis
    using that [of pe st'] same_objects_sym [OF st'(2)] tab(2) by (simp add: projection_write_def db1_def)
qed

lemma existing_receipt:
  assumes P: "texts_ok P" and h: "history P S pes st" "db_events db = map (rowOf P) pes" and ex: "existingEvent db i = Some row"
    and val: "validateExistingEvent P row i = Inr r"
  obtains pe where "pe \<in> set pes" "pe_intent pe = i" "r = receipt pe True"
proof -
  obtain pe where pe: "pe \<in> set pes" "row = rowOf P pe"
    using ex h(2) by (auto simp: existingEvent_def dest!: find_member)
  have "decodeEventRow P row = Inr pe" using decode_rowOf [OF P] pe h(1) by (auto simp: history_def list_all_iff)
  with val have "pe_intent pe = i" and "r = \<lparr>rs_eventId = ev_eventId (it_event i), rs_seq = pe_seq pe, rs_digest = pe_digest pe,
      rs_intentDigest = pe_intentDigest pe, rs_recordedAt = pe_recordedAt pe, rs_idempotent = True,
      rs_aggregateVersion = ev_expectedVersion (it_event i) + 1\<rparr>"
    using texts_okD(1) [OF P] by (auto simp: validateExistingEvent_def canonicalControlEvent_def codec_inj)
  with pe(1) that show thesis by (simp add: receipt_def intentId_def)
qed

section \<open>A batch\<close>

text \<open>Every event of a batch is answered by the receipt of the one row that holds it.\<close>

definition answered :: "PersistedControlEvent list \<Rightarrow> ControlIntent \<Rightarrow> StoreAppendResult \<Rightarrow> bool" where
  "answered pes i r \<longleftrightarrow> (\<exists>pe \<in> set pes. pe_intent pe = i \<and> r = receipt pe (rs_idempotent r))"

lemma answered_mono: "answered pes i r \<Longrightarrow> set pes \<subseteq> set qes \<Longrightarrow> answered qes i r"
  by (auto simp: answered_def)

definition same_frame :: "'txt Database \<Rightarrow> 'txt Database \<Rightarrow> bool" where
  "same_frame db db' \<longleftrightarrow> db_meta db' = db_meta db \<and> db_snapshots db' = db_snapshots db \<and> db_cursors db' = db_cursors db"

lemma commitEvent_step:
  assumes P: "texts_ok P" and mat: "materialised P S db pes st" and same: "same_objects proj st"
    and schema: "schemaOk P i" and com: "commitEvent P now (db, proj, rs) i = Inr (db', proj', rs')"
  obtains new st' r where "materialised P S db' (pes @ new) st'" "same_objects proj' st'" "same_frame db db'" "rs' = rs @ [r]"
    "answered (pes @ new) i r" "map pe_intent new = (if rs_idempotent r then [] else [i])" "rs_idempotent r \<longrightarrow> db' = db"
proof (cases "existingEvent db i")
  case None
  with com obtain r where r: "insertEvent P now db proj i = Inr (db', proj', r)" "rs' = rs @ [r]"
    by (auto simp: commitEvent_def)
  obtain pe st' where "pe_intent pe = i" "materialised P S db' (pes @ [pe]) st'" "same_objects proj' st'" "r = receipt pe False"
    "db_meta db' = db_meta db" "db_snapshots db' = db_snapshots db" "db_cursors db' = db_cursors db"
    by (rule insertEvent_materialised [OF mat same None schema r(1)])
  with r(2) show thesis by (intro that [of "[pe]" st' r]) (simp_all add: same_frame_def answered_def receipt_def)
next
  case (Some row)
  with com obtain r where r: "validateExistingEvent P row i = Inr r" "rs' = rs @ [r]" "db' = db" "proj' = proj"
    by (auto simp: commitEvent_def)
  have h: "history P S pes st" "db_events db = map (rowOf P) pes" using mat by (simp_all add: materialised_def)
  obtain pe where "pe \<in> set pes" "pe_intent pe = i" "r = receipt pe True"
    by (rule existing_receipt [OF P h Some r(1)])
  with r mat same show thesis by (intro that [of "[]" st r]) (auto simp: same_frame_def answered_def receipt_def)
qed

lemma commit_fold:
  assumes P: "texts_ok P"
  shows "fold_res (commitEvent P now) (db, proj, rs) batch = Inr (db', proj', rs') \<Longrightarrow> materialised P S db pes st \<Longrightarrow> same_objects proj st \<Longrightarrow>
    list_all (schemaOk P) batch \<Longrightarrow> \<exists>new st' results. materialised P S db' (pes @ new) st' \<and> same_objects proj' st' \<and> same_frame db db' \<and> rs' = rs @ results \<and>
      list_all2 (answered (pes @ new)) batch results \<and>
      map pe_intent new = map fst (filter (\<lambda>x. \<not> rs_idempotent (snd x)) (zip batch results)) \<and>
      (list_all rs_idempotent results \<longrightarrow> db' = db)"
proof (induction batch arbitrary: db proj rs pes st)
  case Nil
  then show ?case by (intro exI [of _ "[]"] exI [of _ st]) (auto simp: same_frame_def)
next
  case (Cons i batch)
  then obtain db1 proj1 rs1 where one: "commitEvent P now (db, proj, rs) i = Inr (db1, proj1, rs1)"
    and rest: "fold_res (commitEvent P now) (db1, proj1, rs1) batch = Inr (db', proj', rs')"
    by (auto split: sum.splits)
  obtain new1 st1 r where s1: "materialised P S db1 (pes @ new1) st1" "same_objects proj1 st1" "same_frame db db1" "rs1 = rs @ [r]"
    "answered (pes @ new1) i r" "map pe_intent new1 = (if rs_idempotent r then [] else [i])" "rs_idempotent r \<longrightarrow> db1 = db"
    by (rule commitEvent_step [OF P Cons.prems(2,3) _ one]) (use Cons.prems(4) in simp)
  from Cons.IH [OF rest s1(1,2)] Cons.prems(4) obtain new st' results where s2: "materialised P S db' (pes @ new1 @ new) st'" "same_objects proj' st'"
    "same_frame db1 db'" "rs' = rs1 @ results" "list_all2 (answered (pes @ new1 @ new)) batch results"
    "map pe_intent new = map fst (filter (\<lambda>x. \<not> rs_idempotent (snd x)) (zip batch results))" "list_all rs_idempotent results \<longrightarrow> db' = db1"
    by auto
  have "answered (pes @ new1 @ new) i r" by (rule answered_mono [OF s1(5)]) auto
  with s1 s2 show ?case
    by (intro exI [of _ "new1 @ new"] exI [of _ st'] exI [of _ "r # results"]) (auto simp: same_frame_def)
qed

lemma materialised_meta:
  "materialised P S (db\<lparr>db_meta := m\<rparr>) pes st = materialised P S db pes st"
  "materialised P S (db\<lparr>db_cursors := t\<rparr>) pes st = materialised P S db pes st"
  "materialised P S (db\<lparr>db_snapshots := sn\<rparr>) pes st = materialised P S db pes st"
  by (simp_all add: materialised_def tables_match_def facts_match_def)

lemma snapshot_ok_append: "snapshot_ok P S pes row \<Longrightarrow> snapshot_ok P S (pes @ new) row"
  by (auto simp: snapshot_ok_def)

lemma cursors_ok_mono: "cursors_ok P n t \<Longrightarrow> n \<le> m \<Longrightarrow> cursors_ok P m t"
  unfolding cursors_ok_def by (meson le_trans)

lemma meta_ok_head:
  "isSafeInteger n \<Longrightarrow> meta_ok P S db \<Longrightarrow> meta_ok P S (setHead n db)" "meta_ok P S (db\<lparr>db_cursors := t\<rparr>) = meta_ok P S db"
  by (auto simp: meta_ok_def setHead_def readMeta_def Let_def)

lemma meta_ok_frame: "db_meta db' = db_meta db \<Longrightarrow> meta_ok P S db' = meta_ok P S db"
  by (simp add: meta_ok_def readMeta_def)

text \<open>What moving a cursor checks and writes.\<close>

definition cursor_moved :: "'txt Database \<Rightarrow> nat \<Rightarrow> ConsumerCursorAdvance \<Rightarrow> ConsumerCursor \<Rightarrow> 'txt Database \<Rightarrow> bool" where
  "cursor_moved db head adv c db' \<longleftrightarrow> cu_consumerId c = ca_consumerId adv \<and> cu_generation c = ca_generation adv \<and>
     cu_lastSeq c = ca_nextLastSeq adv \<and> ca_expectedLastSeq adv \<le> ca_nextLastSeq adv \<and> ca_nextLastSeq adv \<le> head \<and>
     (case obj_get (db_cursors db) (ca_consumerId adv) of None \<Rightarrow> ca_expectedLastSeq adv = 0 \<and> ca_generation adv = 1
      | Some old \<Rightarrow> cu_lastSeq old = ca_expectedLastSeq adv \<and> cu_generation old = ca_generation adv) \<and>
     db' = db\<lparr>db_cursors := obj_set (ca_consumerId adv) c (db_cursors db)\<rparr>"

lemma canonicalUtc_value: "canonicalUtc P v = Inr w \<Longrightarrow> w = v"
  by (auto simp: canonicalUtc_def Let_def split: if_splits)

lemma advanceCursor_moved:
  assumes "advanceCursor P now head db adv = Inr (db', c)"
  shows "cursor_moved db head adv c db' \<and> decodeConsumerCursor P c = Inr c"
proof -
  define t where "t = now (length (db_events db))"
  from assms obtain u where u: "canonicalUtc P t = Inr u" by (auto simp: advanceCursor_def Let_def t_def)
  with canonicalUtc_value [OF u] have "canonicalUtc P t = Inr t" by simp
  with assms show ?thesis
    unfolding advanceCursor_def Let_def t_def [symmetric] cursor_moved_def
    by (auto simp: decodeConsumerCursor_def asSafeInteger_def split: option.splits)
qed

lemma batch_new_empty:
  "length results = length batch \<Longrightarrow> filter (\<lambda>x. \<not> rs_idempotent (snd x)) (zip batch results) = [] \<longleftrightarrow> list_all rs_idempotent results"
  by (induction batch results rule: list_induct2') auto

lemma stored_extend:
  assumes ok: "stored P S db pes st" and mat: "materialised P S db1 (pes @ new) st'" and frame: "same_frame db db1"
    and db2: "db2 = (if c then setHead (length (pes @ new)) db1 else db1)" and c: "\<not> c \<Longrightarrow> new = []"
  shows "stored P S db2 (pes @ new) st'"
proof -
  have "cursors_ok P (length (pes @ new)) (db_cursors db)"
    using ok cursors_ok_mono [of P "length pes" "db_cursors db" "length (pes @ new)"] by (simp add: stored_def)
  moreover have "list_all (snapshot_ok P S (pes @ new)) (db_snapshots db)"
    using ok by (simp add: stored_def list_all_iff snapshot_ok_append)
  moreover have "meta_ok P S db2"
    using ok meta_ok_frame [of db1 db P S] frame history_head_safe [of P S "pes @ new" st'] mat
    by (auto simp: db2 stored_def same_frame_def materialised_def intro!: meta_ok_head(1))
  moreover have "materialised P S db2 (pes @ new) st'"
    using mat by (simp add: db2 setHead_def materialised_meta)
  moreover have "mt_headSeq (db_meta db2) = length (pes @ new)"
    using ok c frame by (cases c) (simp_all add: db2 setHead_def stored_def same_frame_def)
  ultimately show ?thesis
    using frame by (simp add: stored_def db2 setHead_def same_frame_def)
qed

lemma stored_cursor:
  assumes "stored P S db pes st" "cursor_moved db n adv c db'" "n \<le> length pes" "decodeConsumerCursor P c = Inr c"
  shows "stored P S db' pes st"
  using assms by (auto simp: stored_def cursor_moved_def materialised_meta meta_ok_head(2) cursors_ok_def)

lemma existingReceipt_answered:
  assumes "texts_ok P" "materialised P S db pes st" "existingReceipt P db i = Inr y" "None \<noteq> y"
  shows "answered pes i (the y) \<and> rs_idempotent (the y)"
proof -
  obtain r where r: "y = Some r" using assms(4) by (cases y) auto
  obtain row where row: "existingEvent db i = Some row" "validateExistingEvent P row i = Inr r"
    using assms(3) r by (auto simp: existingReceipt_def split: option.splits)
  have h: "history P S pes st" "db_events db = map (rowOf P) pes" using assms(2) by (simp_all add: materialised_def)
  obtain pe where "pe \<in> set pes" "pe_intent pe = i" "r = receipt pe True"
    by (rule existing_receipt [OF assms(1) h row])
  then show ?thesis using r by (auto simp: answered_def receipt_def)
qed

text \<open>A committed batch: its events follow the history, or are already in it.\<close>

lemma commitBody_stored:
  assumes P: "texts_ok P" and ok: "stored P S db pes st" and com: "commitBody P S now batch advance expectedHead db = Inr ((results, cursor), db')"
    and schema: "list_all (schemaOk P) batch"
  obtains new st' where "stored P S db' (pes @ new) st'" "list_all2 (answered (pes @ new)) batch results"
    "map pe_intent new = map fst (filter (\<lambda>x. \<not> rs_idempotent (snd x)) (zip batch results))"
    "expectedHead = None \<or> expectedHead = Some (length pes) \<or> db' = db \<and> new = []"
    "advance = None \<Longrightarrow> db_cursors db' = db_cursors db"
    "expectedHead = None \<Longrightarrow> advance = Some adv \<Longrightarrow> \<exists>c db2. cursor = Some c \<and> cursor_moved db2 (length pes) adv c db' \<and> db_cursors db2 = db_cursors db"
proof -
  obtain l where l: "loadProjection P S db = Inr l" "same_objects l st" "cs_headSeq l = length pes"
    by (rule stored_load [OF P ok])
  have mat: "materialised P S db pes st" using ok by (simp add: stored_def)
  show thesis
  proof (cases "expectedHead \<noteq> None \<and> expectedHead \<noteq> Some (length pes)")
    case True
    with com l obtain existing where ex: "mapRes (existingReceipt P db) batch = Inr existing"
      and res: "None \<notin> set existing" "results = map the existing" "db' = db"
      by (auto simp: commitBody_def Let_def split: if_splits)
    have ans: "list_all2 (answered pes) batch results \<and> list_all rs_idempotent results"
      using ex [unfolded mapRes_Inr] res(1) unfolding res(2)
      by (induction rule: list_all2_induct) (auto dest: existingReceipt_answered [OF P mat])
    with ok res(3) True show thesis
      using batch_new_empty [of results batch] by (intro that [of "[]" st]) (auto simp: list_all2_lengthD)
  next
    case False
    have "bind_res (fold_res (commitEvent P now) (db, l, []) batch) (\<lambda>(db1, projection', results).
       let db2 = (if list_ex (\<lambda>r. \<not> rs_idempotent r) results then setHead (cs_headSeq projection') db1 else db1) in
       case advance of None \<Rightarrow> Inr ((results, None), db2)
       | Some adv \<Rightarrow> bind_res (advanceCursor P now (length pes) db2 adv) (\<lambda>(db3, cursor). Inr ((results, Some cursor), db3))) = Inr ((results, cursor), db')"
      using com unfolding commitBody_def l(1) bind_res_def [of "Inr l"] sum.case l(3) Let_def [of "length pes"] if_not_P [OF False] .
    then obtain db1 proj1 rs where fold: "fold_res (commitEvent P now) (db, l, []) batch = Inr (db1, proj1, rs)"
      and rest: "(case advance of None \<Rightarrow> Inr ((rs, None), if list_ex (\<lambda>r. \<not> rs_idempotent r) rs then setHead (cs_headSeq proj1) db1 else db1)
        | Some adv \<Rightarrow> bind_res (advanceCursor P now (length pes) (if list_ex (\<lambda>r. \<not> rs_idempotent r) rs then setHead (cs_headSeq proj1) db1 else db1) adv)
            (\<lambda>(db3, cursor). Inr ((rs, Some cursor), db3))) = Inr ((results, cursor), db')"
      by (clarsimp simp: Let_def)
    define db2 where "db2 = (if list_ex (\<lambda>r. \<not> rs_idempotent r) rs then setHead (cs_headSeq proj1) db1 else db1)"
    have results: "results = rs" using rest by (auto split: option.splits)
    from commit_fold [OF P fold mat l(2) schema] obtain new st' where new: "materialised P S db1 (pes @ new) st'" "same_objects proj1 st'" "same_frame db db1"
      "list_all2 (answered (pes @ new)) batch rs"
      "map pe_intent new = map fst (filter (\<lambda>x. \<not> rs_idempotent (snd x)) (zip batch rs))"
      by auto
    have head: "cs_headSeq proj1 = length (pes @ new)"
      using new(1,2) history_seqs(2) [of P S "pes @ new" st'] by (simp add: same_objects_def materialised_def)
    have "stored P S db2 (pes @ new) st'"
      by (rule stored_extend [OF ok new(1,3) db2_def [unfolded head]]) (use new(4,5) batch_new_empty [of rs batch] in \<open>auto simp: list_all2_lengthD list_ex_iff list_all_iff\<close>)
    moreover have "db_cursors db2 = db_cursors db" using new(3) by (simp add: db2_def same_frame_def setHead_def)
    ultimately show thesis
      using rest [folded db2_def] False new(4,5) results
      by (intro that [of new "st'"]; cases advance) (auto dest!: advanceCursor_moved intro: stored_cursor)
  qed
qed

end
