(* ===== verification/Control_Store_Props.thy ===== *)
theory Control_Store_Props
  imports Control_Commit
begin

text \<open>
  Correctness of the control store. A database written only by the operations of the store passes its own integrity check: its
  tables equal the replay of its events. Retrying a committed batch changes nothing and returns the same receipts; a conditional
  append commits only at the head the caller saw; a cursor only moves forward and never past the head; pages of events are
  contiguous; and tables that were lost or corrupted are rebuilt from the events. The last section shows that the fences and the
  reducer let an event of an attempt name another task than the attempt's.
\<close>

section \<open>Snapshots and recovery\<close>

lemma by_key_idem [simp]: "by_key (by_key t) = by_key t"
  unfolding by_key_def by (rule sort_key_id_if_sorted) simp

lemma canonical_idem [simp]: "canonicalProjectionValue (canonicalProjectionValue st) = canonicalProjectionValue st"
proof -
  have "sort_key m_seq (sort_key m_seq ms) = sort_key m_seq ms" for ms :: "MessageFact list" by (rule sort_key_id_if_sorted) simp
  then show ?thesis by (simp add: canonicalProjectionValue_def)
qed

lemma projectionText_inj: "texts_ok P \<Longrightarrow> projectionText P a = projectionText P b \<longleftrightarrow> canonicalProjectionValue a = canonicalProjectionValue b"
  by (simp add: projectionText_def codec_inj texts_okD)

lemma canonical_same:
  assumes "same_objects a b" "objects_wf a" "objects_wf b" "cs_scm a = cs_scm b"
  shows "canonicalProjectionValue a = canonicalProjectionValue b"
proof -
  have "by_key (cs_tasks a) = by_key (cs_tasks b)" "by_key (cs_runtimes a) = by_key (cs_runtimes b)" "by_key (cs_attempts a) = by_key (cs_attempts b)"
    "by_key (cs_steering a) = by_key (cs_steering b)" "by_key (cs_aggregateVersions a) = by_key (cs_aggregateVersions b)"
    using assms by (auto intro!: by_key_same simp: same_objects_def objects_wf_def)
  then show ?thesis using assms(1,4) by (simp add: canonicalProjectionValue_def same_objects_def)
qed

lemma history_objects_wf: "history P S pes st \<Longrightarrow> objects_wf st"
  using history_facts_ok by (auto simp: objects_wf_def facts_ok_def keys_ok_def)

lemma stored_text:
  assumes "texts_ok P" "stored P S db pes st"
  obtains l where "loadProjection P S db = Inr l" "same_objects l st" "cs_headSeq l = length pes" "projectionText P l = projectionText P st"
proof -
  obtain l where l: "loadProjection P S db = Inr l" "same_objects l st" "cs_headSeq l = length pes" "cs_scm l = cs_scm st" "objects_wf l"
    by (rule stored_load [OF assms])
  have "canonicalProjectionValue l = canonicalProjectionValue st"
    using canonical_same [OF l(2,5) _ l(4)] history_objects_wf [of P S pes st] assms(2) by (simp add: stored_def materialised_def)
  with l that show thesis by (simp add: projectionText_def)
qed

lemma history_safe:
  assumes "history P S pes st" "n \<le> length pes"
  shows "asSafeInteger n = Inr n"
proof (cases n)
  case 0
  then show ?thesis by (simp add: asSafeInteger_def isSafeInteger_def)
next
  case (Suc m)
  then have m: "m < length pes" using assms(2) by simp
  then have "asSafeInteger (pe_seq (pes ! m)) = Inr (pe_seq (pes ! m))"
    using assms(1) by (simp add: history_def list_all_length recorded_def)
  moreover have "pe_seq (pes ! m) = Suc m"
    using m history_seqs(1) [OF assms(1)] by (metis One_nat_def Suc_eq_plus1_left add.commute nth_map nth_upt length_upt diff_Suc_1 length_map plus_1_eq_Suc less_diff_conv)
  ultimately show ?thesis using Suc by simp
qed

text \<open>A stored snapshot parses back to the canonical form of the replay of its prefix.\<close>

lemma snapshot_parses:
  assumes P: "texts_ok P" and h: "history P S pes st" and ok: "snapshot_ok P S pes row"
  obtains sn where "history P S (take (sn_seq row) pes) sn" "parseSnapshotProjection P S row = Inr (canonicalProjectionValue sn)"
    "cs_headSeq sn = sn_seq row" "sn_payloadJson row = projectionText P sn"
proof -
  obtain sn where sn: "history P S (take (sn_seq row) pes) sn" "sn_payloadJson row = projectionText P sn"
    using ok by (auto simp: snapshot_ok_def)
  have head: "cs_headSeq sn = sn_seq row" using history_seqs(2) [OF sn(1)] ok by (simp add: snapshot_ok_def)
  have "cd_decode (sp_projection P) (projectionText P sn) = Some (canonicalProjectionValue sn)"
    using texts_okD(9) [OF P] by (simp add: projectionText_def codec_ok_def)
  moreover have "projectionText P (canonicalProjectionValue sn) = projectionText P sn" by (simp add: projectionText_def)
  moreover have "cs_headSeq (canonicalProjectionValue sn) = sn_seq row" using head by (simp add: canonicalProjectionValue_def)
  ultimately have "parseSnapshotProjection P S row = Inr (canonicalProjectionValue sn)"
    using ok sn(2) history_safe [OF h, of "sn_seq row"] by (simp add: parseSnapshotProjection_def snapshot_ok_def)
  with sn head that show thesis by blast
qed

lemma verifySnapshotRow_ok:
  assumes P: "texts_ok P" and h: "history P S pes st" and ok: "snapshot_ok P S pes row"
  obtains sn where "history P S (take (sn_seq row) pes) sn" "verifySnapshotRow P S pes row = Inr (canonicalProjectionValue sn)" "cs_headSeq sn = sn_seq row"
proof -
  obtain sn where sn: "history P S (take (sn_seq row) pes) sn" "parseSnapshotProjection P S row = Inr (canonicalProjectionValue sn)"
    "cs_headSeq sn = sn_seq row"
    by (rule snapshot_parses [OF P h ok])
  have "cs_headSeq (canonicalProjectionValue sn) = sn_seq row" using sn(3) by (simp add: canonicalProjectionValue_def)
  then have "verifySnapshotRow P S pes row = Inr (canonicalProjectionValue sn)"
    using sn(1,2) history_filter(1) [OF h, of "sn_seq row"] by (simp add: verifySnapshotRow_def projectionsEqual_def projectionText_def history_def)
  with sn that show thesis by blast
qed

text \<open>Rebuilding the tables from a projection: no insert of a well-formed projection breaks a constraint.\<close>

lemma fold_insert:
  "(\<And>pre v post. vs = pre @ v # post \<Longrightarrow> step (map g pre) v = Inr (map g pre @ [g v])) \<Longrightarrow> fold_res step [] vs = Inr (map g vs)"
proof (induction vs rule: rev_induct)
  case (snoc v vs)
  have "fold_res step [] vs = Inr (map g vs)"
  proof (rule snoc.IH)
    fix pre w post
    assume "vs = pre @ w # post"
    then show "step (map g pre) w = Inr (map g pre @ [g w])" using snoc.prems [of pre w "post @ [v]"] by simp
  qed
  with snoc.prems [of vs v "[]"] show ?case by (simp add: fold_res_snoc)
qed simp

lemma obj_entries:
  assumes "obj_wf ob" "\<And>k v. obj_get ob k = Some v \<Longrightarrow> key v = k"
  shows "map (\<lambda>v. (key v, g v)) (obj_values ob) = map (map_prod id g) ob" "distinct (map key (obj_values ob))"
proof -
  have key: "key v = k" if "(k, v) \<in> set ob" for k v using assms that by (auto simp: obj_wf_def)
  then show "map (\<lambda>v. (key v, g v)) (obj_values ob) = map (map_prod id g) ob" by (auto simp: obj_values_def)
  have "map key (obj_values ob) = map fst ob" using key by (auto simp: obj_values_def)
  then show "distinct (map key (obj_values ob))" using assms(1) by (simp add: obj_wf_def)
qed

lemma rows_of_self: "obj_wf ob \<Longrightarrow> rows_of row (map (map_prod id row) ob) ob"
  using rows_of_map [of id ob ob row] by (simp add: rows_of_def option.map_id)

lemma insertFact_all:
  assumes "obj_wf ob" "\<And>k v. obj_get ob k = Some v \<Longrightarrow> key v = k"
  obtains t where "fold_res (insertFact P c key) [] (obj_values ob) = Inr t" "rows_of (factRow P c) t ob"
proof -
  note en = obj_entries(1) [where key = key and ob = ob and g = "factRow P c", OF assms] obj_entries(2) [where key = key and ob = ob, OF assms]
  have "fold_res (insertFact P c key) [] (obj_values ob) = Inr (map (\<lambda>v. (key v, factRow P c v)) (obj_values ob))"
  proof (rule fold_insert)
    fix pre v post
    assume "obj_values ob = pre @ v # post"
    then have "key v \<notin> set (map key pre)" using en(2) by simp
    then have "obj_get (map (\<lambda>v. (key v, factRow P c v)) pre) (key v) = None" by (auto simp: map_of_eq_None_iff)
    then show "insertFact P c key (map (\<lambda>v. (key v, factRow P c v)) pre) v =
      Inr (map (\<lambda>v. (key v, factRow P c v)) pre @ [(key v, factRow P c v)])"
      by (simp add: insertFact_def obj_has_def bind_res_def checks.simps)
  qed
  then show thesis using that rows_of_self [OF assms(1), of "factRow P c"] en(1) by simp
qed

lemma insertMessage_all:
  assumes "distinct (map m_messageId ms)" "distinct (map m_seq ms)"
  shows "fold_res (\<lambda>rows m. insertMessage P m rows) [] ms = Inr (map (messageRow P) ms)"
proof (rule fold_insert)
  fix pre m post
  assume "ms = pre @ m # post"
  with assms have "m_messageId m \<notin> m_messageId ` set pre" "m_seq m \<notin> m_seq ` set pre" by auto
  then have "m_messageId x \<noteq> m_messageId m" "m_seq x \<noteq> m_seq m" if "x \<in> set pre" for x
    using that by (metis imageI)+
  then show "insertMessage P m (map (messageRow P) pre) = Inr (map (messageRow P) pre @ [messageRow P m])"
    by (auto simp: insertMessage_def list_ex_iff messageRow_def bind_res_def checks.simps)
qed

lemma insertAttempt_all:
  assumes ok: "attempts_ok st"
  obtains t where "fold_res (insertAttempt P) [] (obj_values (cs_attempts st)) = Inr t" "rows_of (attemptRow P) t (cs_attempts st)"
proof -
  have wf: "obj_wf (cs_attempts st)" and key: "\<And>k a. obj_get (cs_attempts st) k = Some a \<Longrightarrow> a_attemptId a = k"
    using ok by (simp_all add: attempts_ok_def)
  note en = obj_entries(1) [where key = a_attemptId and g = "attemptRow P", OF wf key] obj_entries(2) [where key = a_attemptId, OF wf key]
  have uniq: "\<not> (a_taskId a = a_taskId b \<and> a_taskGeneration a = a_taskGeneration b \<and> a_attemptGeneration a = a_attemptGeneration b)"
    if "a \<in> set (obj_values (cs_attempts st))" "b \<in> set (obj_values (cs_attempts st))" "a_attemptId a \<noteq> a_attemptId b" for a b
    using that ok key in_obj_values [OF wf] unfolding attempts_ok_def by metis
  have "fold_res (insertAttempt P) [] (obj_values (cs_attempts st)) = Inr (map (\<lambda>a. (a_attemptId a, attemptRow P a)) (obj_values (cs_attempts st)))"
  proof (rule fold_insert)
    fix pre a post
    assume vs: "obj_values (cs_attempts st) = pre @ a # post"
    then have new: "a_attemptId a \<notin> set (map a_attemptId pre)" using en(2) by simp
    then have free: "obj_get (map (\<lambda>a. (a_attemptId a, attemptRow P a)) pre) (a_attemptId a) = None" by (auto simp: map_of_eq_None_iff)
    have "\<not> (a_taskId b = a_taskId a \<and> a_taskGeneration b = a_taskGeneration a \<and> a_attemptGeneration b = a_attemptGeneration a)" if "b \<in> set pre" for b
      using uniq [of b a] vs that new by (metis (no_types, lifting) Un_iff image_eqI list.set_intros(1) list.set_map set_append)
    then have "\<not> list_ex (\<lambda>(k, r). k \<noteq> a_attemptId a \<and> ar_taskId r = a_taskId a \<and> ar_taskGeneration r = a_taskGeneration a \<and>
        ar_attemptGeneration r = a_attemptGeneration a) (map (\<lambda>a. (a_attemptId a, attemptRow P a)) pre)"
      by (auto simp: list_ex_iff attemptRow_def)
    then show "insertAttempt P (map (\<lambda>a. (a_attemptId a, attemptRow P a)) pre) a =
      Inr (map (\<lambda>a. (a_attemptId a, attemptRow P a)) pre @ [(a_attemptId a, attemptRow P a)])"
      using free by (simp add: insertAttempt_def upsertAttempt_def obj_has_def obj_set_append bind_res_def checks.simps)
  qed
  then show thesis using that rows_of_self [OF wf, of "attemptRow P"] en(1) by simp
qed

lemma replaceProjection_matches:
  assumes "facts_ok st"
  obtains db' where "replaceProjection P st db = Inr db'" "tables_match P st db'" "projection_write db db'"
proof -
  have keys: "keys_ok st" and ok: "control_ok st" using assms by (simp_all add: facts_ok_def)
  have k: "obj_wf (cs_tasks st)" "\<And>k t. obj_get (cs_tasks st) k = Some t \<Longrightarrow> t_id t = k" "obj_wf (cs_runtimes st)"
    "\<And>k r. obj_get (cs_runtimes st) k = Some r \<Longrightarrow> rt_sessionId r = k" "obj_wf (cs_steering st)"
    "\<And>k c. obj_get (cs_steering st) k = Some c \<Longrightarrow> sf_commandId c = k"
    using keys ok by (simp_all add: keys_ok_def control_ok_def steering_ok_def)
  obtain tasks where tasks: "fold_res (insertFact P (sp_task P) t_id) [] (obj_values (cs_tasks st)) = Inr tasks" "rows_of (factRow P (sp_task P)) tasks (cs_tasks st)"
    by (rule insertFact_all [OF k(1,2)])
  obtain runtimes where runtimes: "fold_res (insertFact P (sp_runtime P) rt_sessionId) [] (obj_values (cs_runtimes st)) = Inr runtimes"
    "rows_of (factRow P (sp_runtime P)) runtimes (cs_runtimes st)"
    by (rule insertFact_all [OF k(3,4)])
  obtain steering where steering: "fold_res (insertFact P (sp_steering P) sf_commandId) [] (obj_values (cs_steering st)) = Inr steering"
    "rows_of (factRow P (sp_steering P)) steering (cs_steering st)"
    by (rule insertFact_all [OF k(5,6)])
  obtain attempts where attempts: "fold_res (insertAttempt P) [] (obj_values (cs_attempts st)) = Inr attempts" "rows_of (attemptRow P) attempts (cs_attempts st)"
    using insertAttempt_all ok unfolding control_ok_def by blast
  have ms: "sort_key m_seq (cs_messages st) = cs_messages st" "distinct (map m_seq (cs_messages st))" "distinct (map m_messageId (cs_messages st))"
    using keys by (auto simp: keys_ok_def strict_sorted_iff intro: sort_key_id_if_sorted)
  show thesis
    by (rule that [of "db\<lparr>db_run := map_option (factRow P (sp_run P)) (cs_run st), db_tasks := tasks, db_messages := map (messageRow P) (cs_messages st),
       db_runtimes := runtimes, db_attempts := attempts, db_steering := steering, db_aggregates := cs_aggregateVersions st\<rparr>"])
       (use tasks runtimes steering attempts keys in \<open>simp_all add: replaceProjection_def ms(1) insertMessage_all [OF ms(3,2)] tables_match_def facts_match_def
          projection_write_def rows_of_def keys_ok_def option.map_id\<close>)
qed

text \<open>
  A database whose events, metadata, snapshots and cursors are intact can be recovered, whatever its projection tables and its
  head hold.
\<close>

definition intact :: "'txt StorePrims \<Rightarrow> ControlStore \<Rightarrow> 'txt Database \<Rightarrow> PersistedControlEvent list \<Rightarrow> ControlProjection \<Rightarrow> bool" where
  "intact P S db pes st \<longleftrightarrow> history P S pes st \<and> db_events db = map (rowOf P) pes \<and> distinct (map intentId pes) \<and> meta_ok P S db \<and>
     cursors_ok P (length pes) (db_cursors db) \<and> list_all (snapshot_ok P S pes) (db_snapshots db)"

lemma stored_intact: "stored P S db pes st \<Longrightarrow> intact P S db pes st"
  by (simp add: stored_def intact_def materialised_def)

lemma tables_match_same: "same_objects a b \<Longrightarrow> tables_match P a db \<Longrightarrow> tables_match P b db"
  by (simp add: tables_match_def facts_match_def rows_of_def same_objects_fields)

lemma installProjection_stored:
  assumes i: "intact P S db pes st" and same: "same_objects rebuilt st" and ok: "facts_ok rebuilt"
  obtains db' where "installProjection P rebuilt db = Inr db'" "stored P S db' pes st"
proof -
  have h: "history P S pes st" "db_events db = map (rowOf P) pes" using i by (simp_all add: intact_def)
  have head: "cs_headSeq rebuilt = length pes" "eventHead db = length pes"
    using same history_seqs(2) [OF h(1)] nextRowid_history(2) [OF h] by (simp_all add: same_objects_def)
  obtain db1 where db1: "replaceProjection P rebuilt db = Inr db1" "tables_match P rebuilt db1" "projection_write db db1"
    by (rule replaceProjection_matches [OF ok])
  have install: "installProjection P rebuilt db = Inr (setHead (length pes) db1)"
    using db1(1) head history_safe [OF h(1), of "length pes"] by (simp add: installProjection_def)
  have "tables_match P st db1" by (rule tables_match_same [OF same db1(2)])
  moreover have "meta_ok P S (setHead (length pes) db1)"
    using i db1(3) meta_ok_frame [of db1 db P S] history_head_safe [OF h(1)] by (simp add: meta_ok_head(1) intact_def projection_write_def)
  ultimately have "stored P S (setHead (length pes) db1) pes st"
    using i db1(3) by (simp add: stored_def intact_def materialised_def setHead_def projection_write_def tables_match_def facts_match_def)
  with install show thesis by (rule that)
qed

lemma canonical_facts_ok:
  assumes "facts_ok st"
  shows "facts_ok (canonicalProjectionValue st)" "same_objects (canonicalProjectionValue st) st"
proof -
  have ks: "keys_ok st" and c: "control_ok st" using assms by (simp_all add: facts_ok_def)
  have ms: "sort_key m_seq (cs_messages st) = cs_messages st"
    using ks by (auto simp: keys_ok_def strict_sorted_iff intro: sort_key_id_if_sorted)
  have wf: "obj_wf (cs_tasks st)" "obj_wf (cs_runtimes st)" "obj_wf (cs_attempts st)" "obj_wf (cs_steering st)" "obj_wf (cs_aggregateVersions st)"
    "obj_wf (scm_publications (cs_scm st))" "obj_wf (scm_polls (cs_scm st))" "obj_wf (scm_observations (cs_scm st))" "obj_wf (scm_reactions (cs_scm st))"
    using ks c by (simp_all add: keys_ok_def control_ok_def attempts_ok_def polls_ok_def reactions_ok_def)
  note g = by_key_get [OF wf(1)] by_key_get [OF wf(2)] by_key_get [OF wf(3)] by_key_get [OF wf(4)] by_key_get [OF wf(5)]
    by_key_get [OF wf(6)] by_key_get [OF wf(7)] by_key_get [OF wf(8)] by_key_get [OF wf(9)]
  note w = wf [THEN by_key_wf]
  show "same_objects (canonicalProjectionValue st) st"
    using wf w by (simp add: same_objects_def same_scm_def canonicalProjectionValue_def g ms)
  show "facts_ok (canonicalProjectionValue st)"
    using ks c w
    by (simp add: facts_ok_def keys_ok_def control_ok_def attempts_ok_def publications_ok_def pub_keys_ok_def polls_ok_def reactions_ok_def
        steering_ok_def canonicalProjectionValue_def g ms)
qed

lemma latestSnapshot_member:
  assumes "latestSnapshot db = Some row"
  shows "row \<in> set (db_snapshots db)"
proof (cases "rev (sort_key sn_seq (db_snapshots db))")
  case Nil
  with assms show ?thesis unfolding latestSnapshot_def by simp
next
  case (Cons r rows)
  then have "r = row" using assms unfolding latestSnapshot_def by simp
  moreover have "r \<in> set (rev (sort_key sn_seq (db_snapshots db)))" unfolding Cons by simp
  ultimately show ?thesis by simp
qed

lemma rebuildAuthority_same:
  assumes P: "texts_ok P" and i: "intact P S db pes st"
  obtains rebuilt where "rebuildAuthority P S db pes = Inr rebuilt" "same_objects rebuilt st" "facts_ok rebuilt"
proof (cases "latestSnapshot db")
  case None
  have h: "history P S pes st" using i by (simp add: intact_def)
  have "same_objects st st" using history_facts_ok [OF h] same_scm_refl [of st]
    by (simp add: same_objects_def facts_ok_def control_ok_def attempts_ok_def)
  with None h history_facts_ok [OF h] show thesis by (intro that) (simp_all add: history_def rebuildAuthority_def)
next
  case (Some row)
  have h: "history P S pes st" using i by (simp add: intact_def)
  have "snapshot_ok P S pes row" using Some i latestSnapshot_member [of db row] by (simp add: intact_def list_all_iff)
  then obtain sn where sn: "history P S (take (sn_seq row) pes) sn" "verifySnapshotRow P S pes row = Inr (canonicalProjectionValue sn)" "cs_headSeq sn = sn_seq row"
    by (rule verifySnapshotRow_ok [OF P h])
  note canon = canonical_facts_ok [OF history_facts_ok [OF sn(1)]]
  have "history P S (take (sn_seq row) pes @ drop (sn_seq row) pes) st" using h by simp
  then have "fold_res (applyControlEvent (sp_control P)) sn (map persistedEvent (drop (sn_seq row) pes)) = Inr st"
    by (rule history_prefix) (use sn(1) in \<open>simp add: history_def\<close>)
  then obtain rebuilt where r: "fold_res (applyControlEvent (sp_control P)) (canonicalProjectionValue sn) (map persistedEvent (drop (sn_seq row) pes)) = Inr rebuilt"
    "same_objects rebuilt st"
    using fold_same [OF canon(2), of "sp_control P" "map persistedEvent (drop (sn_seq row) pes)"]
    by (auto simp: same_result_def split: sum.splits)
  have "cs_headSeq (canonicalProjectionValue sn) = sn_seq row" using sn(3) by (simp add: canonicalProjectionValue_def)
  with Some sn(2) r facts.replay_inv [OF canon(1) r(1)] show thesis
    by (intro that [of rebuilt]) (simp_all add: rebuildAuthority_def history_filter(2) [OF h] reduceStored_def reduceControlEvents_def)
qed

lemma rebuild_restores:
  assumes P: "texts_ok P" and i: "intact P S db pes st" and S: "\<not> cst_closed S"
  obtains rebuilt db' where "rebuildProjections P S db = (Inr rebuilt, db')" "stored P S db' pes st" "same_objects rebuilt st"
proof -
  have h: "history P S pes st" "db_events db = map (rowOf P) pes" using i by (simp_all add: intact_def)
  obtain rebuilt where r: "rebuildAuthority P S db pes = Inr rebuilt" "same_objects rebuilt st" "facts_ok rebuilt"
    by (rule rebuildAuthority_same [OF P i])
  obtain db' where db': "installProjection P rebuilt db = Inr db'" "stored P S db' pes st"
    by (rule installProjection_stored [OF i r(2,3)])
  have "rebuildProjections P S db = (Inr rebuilt, db')"
    using S r(1) db'(1) readAllEvents_history(1) [OF P h] by (simp add: rebuildProjections_def transaction_def assertOpen_def bind_res_def checks.simps)
  with db'(2) r(2) show thesis by (intro that)
qed

section \<open>Every operation keeps the invariant\<close>

lemma transaction_cases: "transaction f d = (r, d') \<Longrightarrow> (\<exists>e. r = Inl e \<and> d' = d) \<or> (\<exists>x. r = Inr x \<and> f d = Inr (x, d'))"
  by (auto simp: transaction_def split: sum.splits)

lemma createSnapshot_stored:
  assumes P: "texts_ok P" and ok: "stored P S db pes st" and snap: "createSnapshot P S now db = (r, db')"
  shows "stored P S db' pes st"
proof -
  have h: "history P S pes st" "db_events db = map (rowOf P) pes" using ok by (simp_all add: stored_def materialised_def)
  obtain l where l: "loadProjection P S db = Inr l" "cs_headSeq l = length pes" "projectionText P l = projectionText P st"
    using stored_text [OF P ok] by metis
  have read: "readAllEvents P db (Some (length pes)) = Inr pes" "reduceStored P S pes None = Inr st"
    using readAllEvents_history(2) [OF P h, of "length pes"] h(1) by (simp_all add: history_def)
  from transaction_cases [OF snap [unfolded createSnapshot_def]] consider "db' = db" | x where "snapshotBody P S now db = Inr (x, db')" by blast
  then show ?thesis
  proof cases
    case (2 x)
    then consider "db' = db" | utc where "canonicalUtc P now = Inr utc" "db' = db\<lparr>db_snapshots := db_snapshots db @ [\<lparr>sn_seq = length pes, sn_storeId = cst_storeId S, sn_schemaVersion = 1,
                sn_reducerVersion = 1, sn_runId = cst_runId S, sn_runEpoch = cst_runEpoch S, sn_payloadJson = projectionText P st,
                sn_digest = sp_sha256 P (projectionText P st), sn_createdAt = utc, sn_verifiedAt = utc\<rparr>]\<rparr>"
      by (auto simp: snapshotBody_def l read Let_def split: option.splits)
    then show ?thesis
    proof cases
      case (2 utc)
      then have "canonicalUtc P utc = Inr utc" using canonicalUtc_value [of P now utc] by simp
      with 2 ok h(1) show ?thesis
        by (auto simp: stored_def materialised_meta meta_ok_def readMeta_def snapshot_ok_def intro!: exI [of _ st])
    qed (use ok in simp)
  qed (use ok in simp)
qed

lemma parseEvents_schema: "parseEvents P parse S vs = Inr events \<Longrightarrow> list_all (schemaOk P) events"
  by (auto simp: parseEvents_def parseControlEvent_def mapRes_Inr list_all2_conv_all_nth list_all_length)

lemma appendBatch_stored:
  assumes "texts_ok P" "stored P S db pes st" "appendBatch P parse S now vs db = (r, db')"
  shows "\<exists>new st'. stored P S db' (pes @ new) st'"
proof -
  from transaction_cases [OF assms(3) [unfolded appendBatch_def]] consider "db' = db"
    | events results cursor where "commitBody P S now events None None db = Inr ((results, cursor), db')" "parseEvents P parse S vs = Inr events"
    by (auto split: if_splits)
  then show ?thesis
  proof cases
    case 1
    with assms(2) show ?thesis by (metis append_Nil2)
  next
    case 2
    show ?thesis by (rule commitBody_stored [OF assms(1,2) 2(1) parseEvents_schema [OF 2(2)]]) blast
  qed
qed

lemma appendBatchIf_stored:
  assumes "texts_ok P" "stored P S db pes st" "appendBatchIf P parse S now n vs db = (r, db')"
  shows "\<exists>new st'. stored P S db' (pes @ new) st' \<and> (db' = db \<and> new = [] \<or> n = length pes) \<and>
    (n \<noteq> length pes \<longrightarrow> (\<forall>rs. r = Inr rs \<longrightarrow> list_all rs_idempotent rs))"
proof -
  from transaction_cases [OF assms(3) [unfolded appendBatchIf_def]] consider e where "db' = db" "r = Inl e"
    | events results cursor where "commitBody P S now events None (Some n) db = Inr ((results, cursor), db')" "r = Inr results" "parseEvents P parse S vs = Inr events"
    by auto
  then show ?thesis
  proof cases
    case 1
    with assms(2) show ?thesis by (intro exI [of _ "[]"] exI [of _ st]) simp
  next
    case (2 events results cursor)
    show ?thesis
    proof (rule commitBody_stored [OF assms(1,2) 2(1) parseEvents_schema [OF 2(3)]])
      fix new st'
      assume s: "stored P S db' (pes @ new) st'" "list_all2 (answered (pes @ new)) events results"
        "map pe_intent new = map fst (filter (\<lambda>x. \<not> rs_idempotent (snd x)) (zip events results))"
        "Some n = None \<or> Some n = Some (length pes) \<or> db' = db \<and> new = []"
      have "list_all rs_idempotent results" if "n \<noteq> length pes"
        using s(3,4) that batch_new_empty [of results events] list_all2_lengthD [OF s(2)] by simp
      with s 2(2) show ?thesis by auto
    qed
  qed
qed

lemma appendBatchWithCursor_stored:
  assumes "texts_ok P" "stored P S db pes st" "appendBatchWithCursor P parse S now vs adv db = (r, db')"
  shows "\<exists>new st'. stored P S db' (pes @ new) st' \<and> (case r of Inl _ \<Rightarrow> db' = db \<and> new = []
    | Inr (results, c) \<Rightarrow> \<exists>db2. cursor_moved db2 (length pes) adv c db' \<and> db_cursors db2 = db_cursors db)"
proof -
  from transaction_cases [OF assms(3) [unfolded appendBatchWithCursor_def]] consider e where "db' = db" "r = Inl e"
    | events results c where "commitBody P S now events (Some adv) None db = Inr ((results, Some c), db')" "r = Inr (results, c)"
      "parseEvents P parse S vs = Inr events"
    by auto
  then show ?thesis
  proof cases
    case 1
    with assms(2) show ?thesis by (intro exI [of _ "[]"] exI [of _ st]) simp
  next
    case (2 events results c)
    show ?thesis
      by (rule commitBody_stored [OF assms(1,2) 2(1) parseEvents_schema [OF 2(3)], where adv = adv]) (use 2(2) in fastforce)
  qed
qed

lemma mapRes_total: "(\<And>x. x \<in> set xs \<Longrightarrow> \<exists>y. f x = Inr y) \<Longrightarrow> \<exists>ys. mapRes f xs = Inr ys"
proof (induction xs)
  case (Cons x xs)
  obtain y ys where "f x = Inr y" "mapRes f xs = Inr ys" using Cons.IH Cons.prems by (metis list.set_intros)
  then show ?case by simp
qed simp

lemma cursors_verified:
  assumes "cursors_ok P n t"
  shows "\<exists>us. mapRes (\<lambda>(_, row). bind_res (decodeConsumerCursor P row) (\<lambda>_.
      checks [(n < cu_lastSeq row \<or> cu_lastSeq row + 1 < Suc 0, RECOVERY_REQUIRED)])) (by_key t) = Inr us"
proof -
  have "mapRes (\<lambda>(_, row). bind_res (decodeConsumerCursor P row) (\<lambda>_.
      checks [(n < cu_lastSeq row \<or> cu_lastSeq row + 1 < Suc 0, RECOVERY_REQUIRED)])) (by_key t) = Inr (map (\<lambda>_. ()) (by_key t))"
  proof (rule mapRes_map, clarify)
    fix k c
    assume "(k, c) \<in> set (by_key t)"
    then have "obj_get t k = Some c" using assms by (simp add: cursors_ok_def obj_wf_def)
    then have "cu_lastSeq c \<le> n" "decodeConsumerCursor P c = Inr c" using assms unfolding cursors_ok_def by blast+
    then show "bind_res (decodeConsumerCursor P c) (\<lambda>_. checks [(n < cu_lastSeq c \<or> cu_lastSeq c + 1 < Suc 0, RECOVERY_REQUIRED)]) = Inr ()"
      by simp
  qed
  then show ?thesis by blast
qed

lemma snapshots_verified:
  assumes "texts_ok P" "history P S pes st" "list_all (snapshot_ok P S pes) rows"
  shows "\<exists>sns. mapRes (verifySnapshotRow P S pes) (sort_key sn_seq rows) = Inr sns"
proof -
  have "\<exists>sn. verifySnapshotRow P S pes row = Inr sn" if "row \<in> set rows" for row
    using verifySnapshotRow_ok [OF assms(1,2), of row] assms(3) that by (auto simp: list_all_iff)
  then show ?thesis by (intro mapRes_total) simp
qed

text \<open>What \<open>verifyIntegrity\<close> needs: intact events and metadata, the head, and a projection that reads as the replay.\<close>

lemma integrity_intact:
  assumes P: "texts_ok P" and i: "intact P S db pes st" and head: "mt_headSeq (db_meta db) = length pes" and S: "\<not> cst_closed S"
    and now: "canonicalUtc P now = Inr now" and l: "loadProjection P S db = Inr l" "projectionText P l = projectionText P st"
  shows "verifyIntegrity P S now full db = Inr (integrityReceipt S full (length pes) now)"
proof -
  have h: "history P S pes st" "db_events db = map (rowOf P) pes" using i by (simp_all add: intact_def)
  have m: "readMeta P db = Inr (db_meta db)" "mt_runId (db_meta db) = cst_runId S" "mt_runEpoch (db_meta db) = cst_runEpoch S"
    "mt_storeId (db_meta db) = cst_storeId S" "mt_retainedFloor (db_meta db) = 1"
    using i by (simp_all add: intact_def meta_ok_def)
  have "reduceStored P S pes None = Inr st" using h(1) by (simp add: history_def)
  moreover have "cursors_ok P (length pes) (db_cursors db)" "list_all (snapshot_ok P S pes) (db_snapshots db)"
    using i by (simp_all add: intact_def)
  moreover from this obtain us sns where cs: "mapRes (\<lambda>(_, row). bind_res (decodeConsumerCursor P row) (\<lambda>_.
      checks [(length pes < cu_lastSeq row \<or> cu_lastSeq row + 1 < Suc 0, RECOVERY_REQUIRED)])) (by_key (db_cursors db)) = Inr us"
    "mapRes (verifySnapshotRow P S pes) (sort_key sn_seq (db_snapshots db)) = Inr sns"
    using cursors_verified [of P "length pes" "db_cursors db"] snapshots_verified [OF P h(1), of "db_snapshots db"] by blast
  ultimately show ?thesis
    using m head l S now readAllEvents_history(1) [OF P h] history_seqs(1) [OF h(1)]
    by (simp add: verifyIntegrity_def assertOpen_def verifyRunIdentity_def projectionsEqual_def del: upt_Suc)
qed

lemma integrity_stored:
  assumes P: "texts_ok P" and ok: "stored P S db pes st" and S: "\<not> cst_closed S" and now: "canonicalUtc P now = Inr now"
  shows "verifyIntegrity P S now full db = Inr (integrityReceipt S full (length pes) now)"
proof -
  obtain l where l: "loadProjection P S db = Inr l" "projectionText P l = projectionText P st"
    using stored_text [OF P ok] by metis
  have "mt_headSeq (db_meta db) = length pes" using ok by (simp add: stored_def)
  from integrity_intact [OF P stored_intact [OF ok] this S now l] show ?thesis .
qed

section \<open>Reachable stores\<close>

text \<open>The databases the operations of one handle lead to, from a new one: any batches, cursors and clocks, in any order.\<close>

inductive reachable_store :: "'txt StorePrims \<Rightarrow> ('raw \<Rightarrow> ControlIntent option) \<Rightarrow> ControlStore \<Rightarrow> 'txt Database \<Rightarrow> bool"
  for P parse S where
    created: "bootstrap P (cst_storeId S) (cst_runId S) (cst_runEpoch S) t = Inr db \<Longrightarrow> reachable_store P parse S db"
  | appended: "reachable_store P parse S db \<Longrightarrow> reachable_store P parse S (snd (appendBatch P parse S now vs db))"
  | appended_if: "reachable_store P parse S db \<Longrightarrow> reachable_store P parse S (snd (appendBatchIf P parse S now n vs db))"
  | consumed: "reachable_store P parse S db \<Longrightarrow> reachable_store P parse S (snd (appendBatchWithCursor P parse S now vs adv db))"
  | snapped: "reachable_store P parse S db \<Longrightarrow> reachable_store P parse S (snd (createSnapshot P S t db))"
  | rebuilt: "reachable_store P parse S db \<Longrightarrow> reachable_store P parse S (snd (rebuildProjections P S db))"

lemma bootstrap_stored:
  assumes "bootstrap P (cst_storeId S) (cst_runId S) (cst_runEpoch S) t = Inr db" "storeIdOk (cst_storeId S)"
  shows "stored P S db [] (emptyControlProjection (cst_runId S) (cst_runEpoch S))"
proof -
  obtain u where u: "canonicalUtc P t = Inr u" using assms(1) by (auto simp: bootstrap_def)
  with canonicalUtc_value [OF u] have t: "canonicalUtc P t = Inr t" by simp
  then have db: "db = \<lparr>db_meta = \<lparr>mt_storeId = cst_storeId S, mt_schemaVersion = 1, mt_reducerVersion = 1, mt_runId = cst_runId S,
            mt_runEpoch = cst_runEpoch S, mt_retainedFloor = 1, mt_headSeq = 0, mt_createdAt = t\<rparr>,
          db_events = [], db_run = None, db_tasks = [], db_messages = [], db_runtimes = [], db_attempts = [], db_steering = [],
          db_aggregates = [], db_snapshots = [], db_cursors = []\<rparr>"
    using assms(1) by (simp add: bootstrap_def)
  show ?thesis
    by (simp add: db t assms(2) stored_def materialised_def history_reduce tables_match_def facts_match_def rows_of_def meta_ok_def readMeta_def
        cursors_ok_def emptyControlProjection_def isSafeInteger_def)
qed

lemma rebuild_closed: "cst_closed S \<Longrightarrow> snd (rebuildProjections P S db) = db"
  by (simp add: rebuildProjections_def transaction_def assertOpen_def bind_res_def checks.simps)

lemma reachable_stored:
  assumes "reachable_store P parse S db" "texts_ok P" "storeIdOk (cst_storeId S)"
  shows "\<exists>pes st. stored P S db pes st"
  using assms(1)
proof induction
  case (created t db)
  then show ?case using bootstrap_stored assms(3) by blast
next
  case (appended db now vs)
  then obtain pes st where ok: "stored P S db pes st" by blast
  from appendBatch_stored [OF assms(2) ok prod.collapse [symmetric]] show ?case by blast
next
  case (appended_if db now n vs)
  then obtain pes st where ok: "stored P S db pes st" by blast
  from appendBatchIf_stored [OF assms(2) ok prod.collapse [symmetric]] show ?case by blast
next
  case (consumed db now vs adv)
  then obtain pes st where ok: "stored P S db pes st" by blast
  from appendBatchWithCursor_stored [OF assms(2) ok prod.collapse [symmetric]] show ?case by blast
next
  case (snapped db t)
  then obtain pes st where ok: "stored P S db pes st" by blast
  from createSnapshot_stored [OF assms(2) ok prod.collapse [symmetric]] show ?case by blast
next
  case (rebuilt db)
  then obtain pes st where ok: "stored P S db pes st" by blast
  show ?case
  proof (cases "cst_closed S")
    case True
    with ok show ?thesis by (auto simp: rebuild_closed)
  next
    case False
    obtain r db' where "rebuildProjections P S db = (Inr r, db')" "stored P S db' pes st"
      by (rule rebuild_restores [OF assms(2) stored_intact [OF ok] False])
    then show ?thesis by auto
  qed
qed

lemma page_rows:
  assumes "texts_ok P" "history P S pes st" "db_events db = map (rowOf P) pes"
  shows "mapRes (decodeEventRow P) (take k (sort_key er_seq (filter (\<lambda>r. a < er_seq r \<and> er_seq r \<le> length pes) (db_events db)))) = Inr (take k (drop a pes))"
proof -
  have "pe_seq pe \<le> length pes" if "pe \<in> set pes" for pe
  proof -
    have "pe_seq pe \<in> set (map pe_seq pes)" using that by simp
    then show ?thesis unfolding history_seqs(1) [OF assms(2)] by (simp del: upt_Suc)
  qed
  then have "filter (\<lambda>pe. a < pe_seq pe \<and> pe_seq pe \<le> length pes) pes = drop a pes"
    using history_filter(2) [OF assms(2), of a] by (metis (mono_tags, lifting) filter_cong)
  then have "filter (\<lambda>r. a < er_seq r \<and> er_seq r \<le> length pes) (db_events db) = map (rowOf P) (drop a pes)"
    by (simp add: assms(3) filter_map comp_def)
  then show ?thesis
    using sort_history_rows [OF assms(2), of "length pes" a] history_rows [OF assms(1,2), of "take k (drop a pes)"]
    by (simp add: take_map) (meson in_set_dropD in_set_takeD subsetI)
qed

section \<open>Retrying a batch\<close>

lemma existing_found:
  assumes "texts_ok P" "materialised P S db pes st" "pe \<in> set pes"
  shows "existingEvent db (pe_intent pe) = Some (rowOf P pe)" "validateExistingEvent P (rowOf P pe) (pe_intent pe) = Inr (receipt pe True)"
proof -
  have h: "history P S pes st" "db_events db = map (rowOf P) pes" "distinct (map intentId pes)" using assms(2) by (simp_all add: materialised_def)
  have "find (\<lambda>r. er_eventId r = intentId pe) (map (rowOf P) pes) = Some (rowOf P pe)"
    using assms(3) h(3)
  proof (induction pes)
    case (Cons q pes)
    then show ?case by (cases "q = pe") auto
  qed simp
  then show "existingEvent db (pe_intent pe) = Some (rowOf P pe)" by (simp add: existingEvent_def h(2) intentId_def)
  have "recorded P pe" using h(1) assms(3) by (simp add: history_def list_all_iff)
  then show "validateExistingEvent P (rowOf P pe) (pe_intent pe) = Inr (receipt pe True)"
    using decode_rowOf [OF assms(1), of pe] by (simp add: validateExistingEvent_def receipt_def intentId_def rowOf_def eventRow_def Let_def)
qed

abbreviation replayed :: "StoreAppendResult \<Rightarrow> StoreAppendResult" where
  "replayed r \<equiv> r\<lparr>rs_idempotent := True\<rparr>"

lemma answered_existing:
  assumes "texts_ok P" "materialised P S db pes st" "answered pes i r"
  obtains row where "existingEvent db i = Some row" "validateExistingEvent P row i = Inr (replayed r)"
proof -
  obtain pe where pe: "pe \<in> set pes" "pe_intent pe = i" "r = receipt pe (rs_idempotent r)" using assms(3) by (auto simp: answered_def)
  have "replayed r = receipt pe True" by (subst pe(3)) (simp add: receipt_def)
  with existing_found [OF assms(1,2) pe(1)] pe(2) that show thesis by simp
qed

lemma retry_fold:
  assumes P: "texts_ok P" and mat: "materialised P S db pes st" and ans: "list_all2 (answered pes) batch results"
  shows "fold_res (commitEvent P now) (db, proj, rs) batch = Inr (db, proj, rs @ map replayed results)"
  using ans
proof (induction arbitrary: rs rule: list_all2_induct)
  case (Cons i batch r results)
  obtain row where "existingEvent db i = Some row" "validateExistingEvent P row i = Inr (replayed r)"
    by (rule answered_existing [OF P mat Cons(1)])
  then have "commitEvent P now (db, proj, rs) i = Inr (db, proj, rs @ [replayed r])" by (simp add: commitEvent_def)
  with Cons.IH [of "rs @ [replayed r]"] show ?case by simp
qed simp

lemma retry_body:
  assumes P: "texts_ok P" and ok: "stored P S db pes st" and ans: "list_all2 (answered pes) batch results" and ne: "batch \<noteq> []"
  shows "commitBody P S now batch None exp db = Inr ((map replayed results, None), db)"
proof -
  obtain l where l: "loadProjection P S db = Inr l" "cs_headSeq l = length pes" using stored_load [OF P ok] by metis
  have mat: "materialised P S db pes st" using ok by (simp add: stored_def)
  have "mapRes (existingReceipt P db) batch = Inr (map (\<lambda>r. Some (replayed r)) results)"
    using ans
  proof (induction rule: list_all2_induct)
    case (Cons i batch r results)
    obtain row where "existingEvent db i = Some row" "validateExistingEvent P row i = Inr (replayed r)"
      by (rule answered_existing [OF P mat Cons(1)])
    with Cons.IH show ?case by (simp add: existingReceipt_def)
  qed simp
  moreover have "\<not> list_ex (\<lambda>r. \<not> rs_idempotent r) (map replayed results)" by (simp add: list_ex_iff)
  moreover have "None \<notin> set (map (\<lambda>r. Some (replayed r)) results)" by auto
  ultimately show ?thesis
    using l ne retry_fold [OF P mat ans, of now l "[]"] by (simp add: commitBody_def Let_def comp_def bind_res_def)
qed

lemma appendBatch_answers:
  assumes P: "texts_ok P" and ok: "stored P S db pes st" and app: "appendBatch P parse S now vs db = (Inr rs, db')" and ne: "vs \<noteq> []"
  obtains events new st' where "\<not> cst_closed S" "parseEvents P parse S vs = Inr events" "stored P S db' (pes @ new) st'"
    "list_all2 (answered (pes @ new)) events rs" "map pe_intent new = map fst (filter (\<lambda>x. \<not> rs_idempotent (snd x)) (zip events rs))" "events \<noteq> []"
proof -
  from transaction_cases [OF app [unfolded appendBatch_def]] ne obtain events cursor where ev: "\<not> cst_closed S" "parseEvents P parse S vs = Inr events"
    "commitBody P S now events None None db = Inr ((rs, cursor), db')"
    by (auto simp: assertOpen_def)
  have "length events = length vs" using ev(2) by (auto simp: parseEvents_def mapRes_Inr dest: list_all2_lengthD)
  with ne have "events \<noteq> []" by auto
  show thesis
    by (rule commitBody_stored [OF P ok ev(3) parseEvents_schema [OF ev(2)]]) (rule that [OF ev(1,2) _ _ _ \<open>events \<noteq> []\<close>])
qed

section \<open>Opening a damaged store\<close>

lemma projection_heads: "texts_ok P \<Longrightarrow> projectionText P a = projectionText P b \<Longrightarrow> cs_headSeq a = cs_headSeq b"
  by (auto simp: projectionText_inj canonicalProjectionValue_def dest: arg_cong [where f = cs_headSeq])

lemma handle_eq:
  "\<not> cst_closed S \<Longrightarrow> \<lparr>cst_runId = cst_runId S, cst_runEpoch = cst_runEpoch S, cst_storeId = cst_storeId S, cst_closed = False\<rparr> = S"
  by (cases S) simp

lemma open_verifies:
  assumes P: "texts_ok P" and i: "intact P S db pes st" and S: "\<not> cst_closed S" and now: "canonicalUtc P now = Inr now"
    and opened: "openControlStore P (cst_runId S) (cst_runEpoch S) False db = Inr x"
  shows "x = (S, db) \<and> verifyIntegrity P S now full db = Inr (integrityReceipt S full (length pes) now)"
proof -
  have h: "history P S pes st" "db_events db = map (rowOf P) pes" using i by (simp_all add: intact_def)
  have m: "readMeta P db = Inr (db_meta db)" "mt_storeId (db_meta db) = cst_storeId S"
    using i by (simp_all add: intact_def meta_ok_def)
  have authority: "readAllEvents P db None = Inr pes" "reduceStored P S pes None = Inr st"
    using readAllEvents_history(1) [OF P h] h(1) by (simp_all add: history_def)
  from opened obtain db' where v: "verifyOrRebuildProjection P S False db = Inr db'" "x = (S, db')"
    by (auto simp: openControlStore_def m Let_def handle_eq [OF S])
  then obtain l where l: "loadProjection P S db = Inr l" "projectionText P st = projectionText P l" "db' = db"
    using authority by (auto simp: verifyOrRebuildProjection_def projectionsEqual_def bind_res_def split: sum.splits if_splits)
  have "cs_headSeq l = mt_headSeq (db_meta db)" using l(1) m(1) by (auto simp: loadProjection_def)
  then have "mt_headSeq (db_meta db) = length pes" using projection_heads [OF P l(2)] history_seqs(2) [OF h(1)] by simp
  from integrity_intact [OF P i this S now l(1) l(2) [symmetric]] v(2) l(3) show ?thesis by simp
qed

lemma open_restores:
  assumes P: "texts_ok P" and i: "intact P S db pes st" and S: "\<not> cst_closed S" and now: "canonicalUtc P now = Inr now"
    and run: "cst_runId S \<noteq> []" "cst_runEpoch S \<noteq> []"
  obtains db' where "openControlStore P (cst_runId S) (cst_runEpoch S) True db = Inr (S, db')" "db_events db' = db_events db"
    "verifyIntegrity P S now full db' = Inr (integrityReceipt S full (length pes) now)"
proof -
  have h: "history P S pes st" "db_events db = map (rowOf P) pes" using i by (simp_all add: intact_def)
  have m: "readMeta P db = Inr (db_meta db)" "mt_runId (db_meta db) = cst_runId S" "mt_runEpoch (db_meta db) = cst_runEpoch S"
    "mt_storeId (db_meta db) = cst_storeId S" "mt_retainedFloor (db_meta db) = 1"
    using i by (simp_all add: intact_def meta_ok_def)
  note handle = handle_eq [OF S]
  have authority: "readAllEvents P db None = Inr pes" "reduceStored P S pes None = Inr st"
    using readAllEvents_history(1) [OF P h] h(1) by (simp_all add: history_def)
  have opens: "openControlStore P (cst_runId S) (cst_runEpoch S) True db = bind_res (verifyOrRebuildProjection P S True db) (\<lambda>db'. Inr (S, db'))"
    using run m by (simp add: openControlStore_def verifyRunIdentity_def handle Let_def bind_res_def checks.simps split: sum.split)
  show thesis
  proof (cases "\<exists>l. loadProjection P S db = Inr l \<and> projectionsEqual P st l")
    case True
    then obtain l where l: "loadProjection P S db = Inr l" "projectionText P st = projectionText P l" by (auto simp: projectionsEqual_def)
    then have "verifyOrRebuildProjection P S True db = Inr db"
      using authority by (simp add: verifyOrRebuildProjection_def projectionsEqual_def bind_res_def)
    moreover have "mt_headSeq (db_meta db) = length pes"
    proof -
      have "cs_headSeq l = cs_headSeq st" using projection_heads [OF P l(2)] by simp
      moreover have "cs_headSeq l = mt_headSeq (db_meta db)" using l(1) m(1) by (auto simp: loadProjection_def)
      ultimately show ?thesis using history_seqs(2) [OF h(1)] by simp
    qed
    ultimately show thesis using opens integrity_intact [OF P i _ S now l(1)] l(2) by (intro that [of db]) (simp_all add: bind_res_def)
  next
    case False
    have same: "same_objects st st" using history_facts_ok [OF h(1)] same_scm_refl [of st]
      by (simp add: same_objects_def facts_ok_def control_ok_def attempts_ok_def)
    obtain db' where db': "installProjection P st db = Inr db'" "stored P S db' pes st"
      by (rule installProjection_stored [OF i same history_facts_ok [OF h(1)]])
    have "verifyOrRebuildProjection P S True db = Inr db'"
      using False authority db'(1) by (auto simp: verifyOrRebuildProjection_def bind_res_def split: sum.splits)
    moreover have "db_events db' = db_events db" using db'(2) h(2) by (simp add: stored_def materialised_def)
    ultimately show thesis using opens integrity_stored [OF P db'(2) S now] by (intro that [of db']) (simp_all add: bind_res_def)
  qed
qed

section \<open>A concrete store\<close>

datatype Json = JIntent ControlIntent | JPersisted ControlIntent string | JPayload ControlEventBody | JRun RunFact | JTask TaskFact
  | JMessage MessageFact | JRuntime RuntimeFact | JAttempt AttemptFact | JSteering SteeringFact | JProjection ControlProjection

definition json_prims :: "Json StorePrims" where
  "json_prims = \<lparr>sp_control = \<lparr>cx_dateParse = (\<lambda>_. 0), cx_toISOString = (\<lambda>_. ''2026-01-01T00:00:00.000Z''), cx_reactionDigest = (\<lambda>_ _ _ _ _. ''k'')\<rparr>,
     sp_sha256 = (\<lambda>_. ''h''), sp_schema = (\<lambda>i. ev_eventId (it_event i) \<noteq> []),
     sp_intent = \<lparr>cd_encode = JIntent, cd_decode = (\<lambda>j. case j of JIntent v \<Rightarrow> Some v | _ \<Rightarrow> None)\<rparr>,
     sp_persisted = \<lparr>cd_encode = (\<lambda>(i, t). JPersisted i t), cd_decode = (\<lambda>j. case j of JPersisted i t \<Rightarrow> Some (i, t) | _ \<Rightarrow> None)\<rparr>,
     sp_payload = \<lparr>cd_encode = JPayload, cd_decode = (\<lambda>j. case j of JPayload v \<Rightarrow> Some v | _ \<Rightarrow> None)\<rparr>,
     sp_run = \<lparr>cd_encode = JRun, cd_decode = (\<lambda>j. case j of JRun v \<Rightarrow> Some v | _ \<Rightarrow> None)\<rparr>,
     sp_task = \<lparr>cd_encode = JTask, cd_decode = (\<lambda>j. case j of JTask v \<Rightarrow> Some v | _ \<Rightarrow> None)\<rparr>,
     sp_message = \<lparr>cd_encode = JMessage, cd_decode = (\<lambda>j. case j of JMessage v \<Rightarrow> Some v | _ \<Rightarrow> None)\<rparr>,
     sp_runtime = \<lparr>cd_encode = JRuntime, cd_decode = (\<lambda>j. case j of JRuntime v \<Rightarrow> Some v | _ \<Rightarrow> None)\<rparr>,
     sp_attempt = \<lparr>cd_encode = JAttempt, cd_decode = (\<lambda>j. case j of JAttempt v \<Rightarrow> Some v | _ \<Rightarrow> None)\<rparr>,
     sp_steering = \<lparr>cd_encode = JSteering, cd_decode = (\<lambda>j. case j of JSteering v \<Rightarrow> Some v | _ \<Rightarrow> None)\<rparr>,
     sp_projection = \<lparr>cd_encode = JProjection, cd_decode = (\<lambda>j. case j of JProjection v \<Rightarrow> Some v | _ \<Rightarrow> None)\<rparr>\<rparr>"

lemma json_texts_ok: "texts_ok json_prims"
  by (simp add: texts_ok_def codec_ok_def json_prims_def)

abbreviation sample_time :: string where
  "sample_time \<equiv> ''2026-01-01T00:00:00.000Z''"

definition sample_store :: ControlStore where
  "sample_store = \<lparr>cst_runId = ''r'', cst_runEpoch = ''p'', cst_storeId = ''01234567-89ab-4cde-8f01-23456789abcd'', cst_closed = False\<rparr>"

lemma sample_store_ok: "storeIdOk (cst_storeId sample_store)" "\<not> cst_closed sample_store" "cst_runId sample_store \<noteq> []" "cst_runEpoch sample_store \<noteq> []"
  by code_simp+

lemma sample_time_ok: "canonicalUtc json_prims sample_time = Inr sample_time"
  by code_simp

definition sample_intent :: "string \<Rightarrow> string option \<Rightarrow> nat option \<Rightarrow> nat \<Rightarrow> ControlEventBody \<Rightarrow> ControlIntent" where
  "sample_intent i t g v b = \<lparr>it_event = (example_event 0 t g v b)\<lparr>ev_eventId := i, ev_recordedAt := []\<rparr>, it_source = None\<rparr>"

definition sample_batch :: "ControlIntent list" where
  "sample_batch =
     [sample_intent ''e1'' None None 0 (EvRunStarted ''a'' None None),
      sample_intent ''e2'' (Some ''t'') (Some 1) 0 (EvTaskCreated example_task),
      sample_intent ''e3'' (Some ''t'') (Some 1) 0 (EvRuntimeObserved example_runtime),
      sample_intent ''e4'' (Some ''t'') (Some 1) 1 (EvSteeringAdmitted example_command),
      sample_intent ''e5'' (Some ''t'') (Some 1) 1 (EvAttemptPrepared example_prompt)]"

definition empty_database :: "Json Database" where
  "empty_database = (case bootstrap json_prims (cst_storeId sample_store) (cst_runId sample_store) (cst_runEpoch sample_store) sample_time of Inr db \<Rightarrow> db)"

definition sample_database :: "Json Database" where
  "sample_database = snd (appendBatch json_prims Some sample_store (\<lambda>_. sample_time) sample_batch empty_database)"

lemma empty_reachable: "reachable_store json_prims Some sample_store empty_database"
proof (rule created)
  show "bootstrap json_prims (cst_storeId sample_store) (cst_runId sample_store) (cst_runEpoch sample_store) sample_time = Inr empty_database"
    by (simp add: empty_database_def bootstrap_def sample_time_ok bind_res_def)
qed

lemma sample_reachable: "reachable_store json_prims Some sample_store sample_database"
  unfolding sample_database_def by (rule appended [OF empty_reachable])

lemma sample_appended: "map_sum id (map rs_seq) (fst (appendBatch json_prims Some sample_store (\<lambda>_. sample_time) sample_batch empty_database)) = Inr [1, 2, 3, 4, 5]"
  by code_simp

section \<open>Properties\<close>

text \<open>
  C5. The materialised view is the history: whatever batches, conditional appends, cursors, snapshots and rebuilds were run on a new
  store, in any order and with any clock, it passes its own full integrity check: the sequence numbers are contiguous from 1, every
  row decodes with its digests, the tables that each event updated incrementally equal the replay of all the events from
  the beginning, the cursors lie within the history and every snapshot equals the replay of its prefix.
\<close>

theorem store_integrity:
  assumes "texts_ok P" "storeIdOk (cst_storeId S)" "\<not> cst_closed S" "reachable_store P parse S db" "canonicalUtc P now = Inr now"
  shows "verifyIntegrity P S now full db = Inr (integrityReceipt S full (mt_headSeq (db_meta db)) now)"
proof -
  obtain pes st where ok: "stored P S db pes st" using reachable_stored [OF assms(4,1,2)] by blast
  then have "mt_headSeq (db_meta db) = length pes" by (simp add: stored_def)
  with integrity_stored [OF assms(1) ok assms(3,5)] show ?thesis by simp
qed

theorem store_integrity_witness:
  "reachable_store json_prims Some sample_store sample_database \<and>
   verifyIntegrity json_prims sample_store sample_time True sample_database = Inr (integrityReceipt sample_store True 5 sample_time)"
proof -
  have "mt_headSeq (db_meta sample_database) = 5" by code_simp
  with store_integrity [OF json_texts_ok sample_store_ok(1,2) sample_reachable sample_time_ok, of True] sample_reachable show ?thesis by simp
qed

text \<open>
  C6. Events are stored exactly once: a batch that commits leaves every event of it in exactly one row, its old rows in
  place and its new events after them in the order of the batch; the receipt of an event gives the sequence number
  of its row. Sending the batch again, with or without an expected head and at any later time, changes nothing and returns the same
  receipts, marked idempotent.
\<close>

theorem append_exactly_once:
  assumes "texts_ok P" "storeIdOk (cst_storeId S)" "reachable_store P parse S db" "vs \<noteq> []" "isSafeInteger n"
    and "appendBatch P parse S now vs db = (Inr rs, db')"
  shows "(\<exists>events pes new. parseEvents P parse S vs = Inr events \<and> readAllEvents P db None = Inr pes \<and> readAllEvents P db' None = Inr (pes @ new) \<and>
      distinct (map (\<lambda>pe. ev_eventId (it_event (pe_intent pe))) (pes @ new)) \<and>
      list_all2 (\<lambda>i r. \<exists>pe \<in> set (pes @ new). pe_intent pe = i \<and> rs_seq r = pe_seq pe \<and> rs_digest r = pe_digest pe) events rs \<and>
      map pe_intent new = map fst (filter (\<lambda>x. \<not> rs_idempotent (snd x)) (zip events rs))) \<and>
    appendBatch P parse S now' vs db' = (Inr (map (\<lambda>r. r\<lparr>rs_idempotent := True\<rparr>) rs), db') \<and>
    appendBatchIf P parse S now' n vs db' = (Inr (map (\<lambda>r. r\<lparr>rs_idempotent := True\<rparr>) rs), db')"
proof -
  obtain pes st where ok: "stored P S db pes st" using reachable_stored [OF assms(3,1,2)] by blast
  obtain events new st' where e: "\<not> cst_closed S" "parseEvents P parse S vs = Inr events" "stored P S db' (pes @ new) st'"
    "list_all2 (answered (pes @ new)) events rs" "map pe_intent new = map fst (filter (\<lambda>x. \<not> rs_idempotent (snd x)) (zip events rs))" "events \<noteq> []"
    by (rule appendBatch_answers [OF assms(1) ok assms(6,4)])
  have reads: "readAllEvents P db None = Inr pes" "readAllEvents P db' None = Inr (pes @ new)" "distinct (map intentId (pes @ new))"
    using ok e(3) readAllEvents_history(1) [OF assms(1), of S] by (auto simp: stored_def materialised_def)
  have rows: "list_all2 (\<lambda>i r. \<exists>pe \<in> set (pes @ new). pe_intent pe = i \<and> rs_seq r = pe_seq pe \<and> rs_digest r = pe_digest pe) events rs"
    by (rule list.rel_mono_strong [OF e(4)]) (auto simp: answered_def receipt_def StoreAppendResult.splits)
  have ids: "distinct (map (\<lambda>pe. ev_eventId (it_event (pe_intent pe))) (pes @ new))" using reads(3) unfolding intentId_def [abs_def] .
  have again: "appendBatch P parse S now' vs db' = (Inr (map (\<lambda>r. r\<lparr>rs_idempotent := True\<rparr>) rs), db')"
    "appendBatchIf P parse S now' n vs db' = (Inr (map (\<lambda>r. r\<lparr>rs_idempotent := True\<rparr>) rs), db')"
    using e(1,2) assms(4,5) retry_body [OF assms(1) e(3,4,6)]
    by (simp_all add: appendBatch_def appendBatchIf_def transaction_def assertOpen_def bind_res_def checks.simps)
  from e(2,5) reads(1,2) ids rows again show ?thesis by blast
qed

lemma sample_append:
  obtains rs where "appendBatch json_prims Some sample_store (\<lambda>_. sample_time) sample_batch empty_database = (Inr rs, sample_database)" "map rs_seq rs = [1, 2, 3, 4, 5]"
  using sample_appended that by (cases "fst (appendBatch json_prims Some sample_store (\<lambda>_. sample_time) sample_batch empty_database)")
    (auto simp: sample_database_def prod_eq_iff)

theorem append_exactly_once_witness:
  "\<exists>rs. map rs_seq rs = [1, 2, 3, 4, 5] \<and>
     appendBatchIf json_prims Some sample_store (\<lambda>_. sample_time) 0 sample_batch sample_database = (Inr (map (\<lambda>r. r\<lparr>rs_idempotent := True\<rparr>) rs), sample_database)"
proof -
  obtain rs where rs: "appendBatch json_prims Some sample_store (\<lambda>_. sample_time) sample_batch empty_database = (Inr rs, sample_database)" "map rs_seq rs = [1, 2, 3, 4, 5]"
    by (rule sample_append)
  have "sample_batch \<noteq> []" "isSafeInteger 0" by (simp_all add: sample_batch_def isSafeInteger_def)
  note again = append_exactly_once [OF json_texts_ok sample_store_ok(1) empty_reachable this rs(1), of "\<lambda>_. sample_time"]
  show ?thesis by (intro exI [of _ rs] conjI rs(2) again [THEN conjunct2, THEN conjunct2])
qed

text \<open>
  C7. Whole-history compare-and-append: a conditional append changes the store only if the head is the one the caller expected;
  otherwise, as after any error, not a row changes, and a stale caller gets receipts only for a batch that is already stored
  completely. What a successful append adds comes after all the rows that were there, and moves the head by as many.
\<close>

theorem append_if_fenced:
  assumes "texts_ok P" "storeIdOk (cst_storeId S)" "reachable_store P parse S db" "appendBatchIf P parse S now n vs db = (r, db')"
  shows "(n \<noteq> mt_headSeq (db_meta db) \<longrightarrow> db' = db) \<and> (\<forall>e. r = Inl e \<longrightarrow> db' = db) \<and>
    (\<forall>rs. n \<noteq> mt_headSeq (db_meta db) \<longrightarrow> r = Inr rs \<longrightarrow> list_all rs_idempotent rs) \<and>
    (\<exists>rows. db_events db' = db_events db @ rows \<and> mt_headSeq (db_meta db') = mt_headSeq (db_meta db) + length rows)"
proof -
  obtain pes st where ok: "stored P S db pes st" using reachable_stored [OF assms(3,1,2)] by blast
  obtain new st' where new: "stored P S db' (pes @ new) st'" "db' = db \<and> new = [] \<or> n = length pes"
    "\<And>rs. n \<noteq> length pes \<Longrightarrow> r = Inr rs \<Longrightarrow> list_all rs_idempotent rs"
    using appendBatchIf_stored [OF assms(1) ok assms(4)] by blast
  have "\<forall>e. r = Inl e \<longrightarrow> db' = db" using transaction_cases [OF assms(4) [unfolded appendBatchIf_def]] by auto
  with ok new show ?thesis
    by (auto simp: stored_def materialised_def intro!: exI [of _ "map (rowOf P) new"])
qed

theorem append_if_fenced_witness:
  "snd (appendBatchIf json_prims Some sample_store (\<lambda>_. sample_time) 3 [sample_intent ''e9'' None None 1 (EvRunCompleted None)] sample_database) = sample_database"
proof -
  have "3 \<noteq> mt_headSeq (db_meta sample_database)" by code_simp
  with append_if_fenced [OF json_texts_ok sample_store_ok(1) sample_reachable prod.collapse [symmetric]] show ?thesis by blast
qed

text \<open>
  C9. Consuming is exactly as far as reading: an append that moves a consumer's cursor moves it, in the same transaction as the events
  it produced, from the position the consumer named to one that is not smaller and not beyond the head the transaction found;
  it never moves another consumer's cursor, and a refused one moves nothing.
\<close>

theorem cursor_advances:
  assumes "texts_ok P" "storeIdOk (cst_storeId S)" "reachable_store P parse S db" "appendBatchWithCursor P parse S now vs adv db = (r, db')"
  shows "(case r of Inl _ \<Rightarrow> db' = db
    | Inr (rs, c) \<Rightarrow> obj_get (db_cursors db') (ca_consumerId adv) = Some c \<and> cu_lastSeq c = ca_nextLastSeq adv \<and>
        (case obj_get (db_cursors db) (ca_consumerId adv) of None \<Rightarrow> ca_expectedLastSeq adv = 0 | Some old \<Rightarrow> cu_lastSeq old = ca_expectedLastSeq adv) \<and>
        ca_expectedLastSeq adv \<le> cu_lastSeq c \<and> cu_lastSeq c \<le> mt_headSeq (db_meta db) \<and>
        (\<forall>k. k \<noteq> ca_consumerId adv \<longrightarrow> obj_get (db_cursors db') k = obj_get (db_cursors db) k))"
proof -
  obtain pes st where ok: "stored P S db pes st" using reachable_stored [OF assms(3,1,2)] by blast
  then have "mt_headSeq (db_meta db) = length pes" by (simp add: stored_def)
  note head = this
  show ?thesis
  proof (cases r)
    case (Inl e)
    with appendBatchWithCursor_stored [OF assms(1) ok assms(4)] show ?thesis by simp
  next
    case (Inr x)
    obtain rs c where x: "x = (rs, c)" by (cases x)
    with Inr appendBatchWithCursor_stored [OF assms(1) ok assms(4)] obtain db2 where mv: "cursor_moved db2 (length pes) adv c db'" "db_cursors db2 = db_cursors db"
      by auto
    have old: "case obj_get (db_cursors db) (ca_consumerId adv) of None \<Rightarrow> ca_expectedLastSeq adv = 0 | Some old \<Rightarrow> cu_lastSeq old = ca_expectedLastSeq adv"
      using mv by (cases "obj_get (db_cursors db) (ca_consumerId adv)") (simp_all add: cursor_moved_def)
    with mv head show ?thesis unfolding Inr x by (simp add: cursor_moved_def)
  qed
qed

definition sample_advance :: ConsumerCursorAdvance where
  "sample_advance = \<lparr>ca_consumerId = ''scm'', ca_generation = 1, ca_expectedLastSeq = 0, ca_nextLastSeq = 5\<rparr>"

theorem cursor_advances_witness:
  "\<exists>rs c db'. appendBatchWithCursor json_prims Some sample_store (\<lambda>_. sample_time) [sample_intent ''e9'' None None 1 (EvRunCompleted None)] sample_advance sample_database =
     (Inr (rs, c), db') \<and> cu_lastSeq c = 5"
proof -
  let ?x = "appendBatchWithCursor json_prims Some sample_store (\<lambda>_. sample_time) [sample_intent ''e9'' None None 1 (EvRunCompleted None)] sample_advance sample_database"
  have "(case fst ?x of Inl _ \<Rightarrow> False | Inr _ \<Rightarrow> True)" by code_simp
  then obtain rs c where x: "?x = (Inr (rs, c), snd ?x)" by (cases "fst ?x") (auto simp: prod_eq_iff)
  from cursor_advances [OF json_texts_ok sample_store_ok(1) sample_reachable x] x show ?thesis by (auto simp: sample_advance_def)
qed

text \<open>
  C10. Reading in pages loses and repeats nothing: from any cursor up to the head, a page holds exactly the next events of
  the history in order, at most as many as asked for, and says that there is more exactly if the head lies beyond it; a cursor beyond
  the head is refused.
\<close>

theorem read_range_pages:
  assumes "texts_ok P" "storeIdOk (cst_storeId S)" "\<not> cst_closed S" "reachable_store P parse S db" "1 \<le> limit" "limit \<le> 10000"
    and "isSafeInteger afterSeq"
  shows "\<exists>pes. readAllEvents P db None = Inr pes \<and> length pes = mt_headSeq (db_meta db) \<and>
    (if afterSeq \<le> length pes
     then \<exists>page. readRange P S db afterSeq (Some limit) None = Inr page \<and> rg_events page = take limit (drop afterSeq pes) \<and>
        map pe_seq (rg_events page) = [Suc afterSeq..<Suc (min (length pes) (afterSeq + limit))] \<and>
        (rg_hasMore page \<longleftrightarrow> afterSeq + limit < length pes)
     else readRange P S db afterSeq (Some limit) None = Inl RECOVERY_REQUIRED)"
proof -
  obtain pes st where ok: "stored P S db pes st" using reachable_stored [OF assms(4,1,2)] by blast
  have h: "history P S pes st" "db_events db = map (rowOf P) pes" using ok by (simp_all add: stored_def materialised_def)
  have m: "readMeta P db = Inr (db_meta db)" "mt_runId (db_meta db) = cst_runId S" "mt_runEpoch (db_meta db) = cst_runEpoch S"
    "mt_retainedFloor (db_meta db) = 1" "mt_headSeq (db_meta db) = length pes"
    using ok by (simp_all add: stored_def meta_ok_def)
  have rows: "mapRes (decodeEventRow P) (take limit (sort_key er_seq (filter (\<lambda>r. afterSeq < er_seq r \<and> er_seq r \<le> length pes) (db_events db)))) =
      Inr (take limit (drop afterSeq pes))"
    by (rule page_rows [OF assms(1) h])
  have seqs: "map pe_seq (take limit (drop afterSeq pes)) = [Suc afterSeq..<Suc (min (length pes) (afterSeq + limit))]"
    using history_seqs(1) [OF h(1)] by (simp add: take_map [symmetric] drop_map [symmetric] min_def del: upt_Suc) 
  have more: "take limit (drop afterSeq pes) \<noteq> [] \<and> pe_seq (last (take limit (drop afterSeq pes))) < length pes \<longleftrightarrow> afterSeq + limit < length pes"
    if "afterSeq \<le> length pes"
  proof (cases "take limit (drop afterSeq pes) = []")
    case True
    with assms(5) that show ?thesis by auto
  next
    case False
    then have "pe_seq (last (take limit (drop afterSeq pes))) = last [Suc afterSeq..<Suc (min (length pes) (afterSeq + limit))]"
      by (simp add: last_map [symmetric] seqs del: upt_Suc)
    also have "\<dots> = min (length pes) (afterSeq + limit)" using False assms(5) by (simp add: last_upt del: upt_Suc) 
    finally show ?thesis using False by auto
  qed
  show ?thesis
    using readAllEvents_history(1) [OF assms(1) h] assms(3,5,6,7) m rows seqs more
    by (auto simp: readRange_def assertOpen_def verifyRunIdentity_def bind_res_def checks.simps Let_def)
qed

definition sample_page :: bool where
  "sample_page = (case readRange json_prims sample_store sample_database 1 (Some 2) None of Inl _ \<Rightarrow> False
     | Inr page \<Rightarrow> map pe_seq (rg_events page) = [2, 3] \<and> rg_hasMore page)"

theorem read_range_pages_witness: "sample_page"
proof -
  have head: "mt_headSeq (db_meta sample_database) = 5" by code_simp
  have limits: "(1 :: nat) \<le> 2" "(2 :: nat) \<le> 10000" "isSafeInteger 1" by (simp_all add: isSafeInteger_def)
  obtain pes where "length pes = 5" and read: "if 1 \<le> length pes
     then \<exists>page. readRange json_prims sample_store sample_database 1 (Some 2) None = Inr page \<and> rg_events page = take 2 (drop 1 pes) \<and>
        map pe_seq (rg_events page) = [Suc 1..<Suc (min (length pes) (1 + 2))] \<and> (rg_hasMore page \<longleftrightarrow> 1 + 2 < length pes)
     else readRange json_prims sample_store sample_database 1 (Some 2) None = Inl RECOVERY_REQUIRED"
    using read_range_pages [OF json_texts_ok sample_store_ok(1,2) sample_reachable limits] unfolding head by (elim exE conjE)
  then have nonempty: "1 \<le> length pes" by simp
  from read obtain page where "readRange json_prims sample_store sample_database 1 (Some 2) None = Inr page"
    "map pe_seq (rg_events page) = [Suc 1..<Suc (min 5 (1 + 2))]" "rg_hasMore page \<longleftrightarrow> 1 + 2 < (5 :: nat)"
    unfolding if_P [OF nonempty] unfolding \<open>length pes = 5\<close> by (elim exE conjE)
  moreover have "[Suc 1..<Suc (min 5 (1 + 2))] = [2, 3]" by code_simp
  ultimately show ?thesis by (simp add: sample_page_def)
qed

text \<open>
  C8. The events are the authority: when the tables of the projection are lost or hold anything at all and the recorded head is any number, but the
  events, the snapshots and the cursors are intact, opening the store in rebuild mode succeeds, keeps every event and gives a store
  that passes the full integrity check at its old head. Opening it in verify mode never hides the damage: it opens only a store that
  passes that check as it is.
\<close>

theorem store_recovery:
  assumes "texts_ok P" "storeIdOk (cst_storeId S)" "\<not> cst_closed S" "cst_runId S \<noteq> []" "cst_runEpoch S \<noteq> []" "reachable_store P parse S db"
    and "canonicalUtc P now = Inr now" "isSafeInteger h"
    and "damaged = db\<lparr>db_run := a, db_tasks := b, db_messages := c, db_runtimes := d, db_attempts := e, db_steering := f, db_aggregates := g,
      db_meta := (db_meta db)\<lparr>mt_headSeq := h\<rparr>\<rparr>"
  shows "(\<exists>db'. openControlStore P (cst_runId S) (cst_runEpoch S) True damaged = Inr (S, db') \<and> db_events db' = db_events db \<and>
      verifyIntegrity P S now full db' = Inr (integrityReceipt S full (mt_headSeq (db_meta db)) now)) \<and>
    (\<forall>x. openControlStore P (cst_runId S) (cst_runEpoch S) False damaged = Inr x \<longrightarrow>
      x = (S, damaged) \<and> verifyIntegrity P S now full damaged = Inr (integrityReceipt S full (mt_headSeq (db_meta db)) now))"
proof -
  obtain pes st where ok: "stored P S db pes st" using reachable_stored [OF assms(6,1,2)] by blast
  have head: "mt_headSeq (db_meta db) = length pes" using ok by (simp add: stored_def)
  have "db_meta damaged = db_meta (setHead h db)" using assms(9) by (simp add: setHead_def)
  then have "meta_ok P S damaged" using ok meta_ok_frame [of damaged "setHead h db" P S] by (simp add: meta_ok_head(1) assms(8) stored_def)
  then have i: "intact P S damaged pes st" using stored_intact [OF ok] assms(9) by (simp add: intact_def)
  obtain db' where "openControlStore P (cst_runId S) (cst_runEpoch S) True damaged = Inr (S, db')" "db_events db' = db_events damaged"
    "verifyIntegrity P S now full db' = Inr (integrityReceipt S full (length pes) now)"
    by (rule open_restores [OF assms(1) i assms(3,7,4,5)])
  moreover have "db_events damaged = db_events db" using assms(9) by simp
  moreover have "x = (S, damaged) \<and> verifyIntegrity P S now full damaged = Inr (integrityReceipt S full (length pes) now)"
    if "openControlStore P (cst_runId S) (cst_runEpoch S) False damaged = Inr x" for x
    by (rule open_verifies [OF assms(1) i assms(3,7) that])
  ultimately show ?thesis unfolding head by auto
qed

theorem store_recovery_witness:
  "\<exists>db'. openControlStore json_prims (cst_runId sample_store) (cst_runEpoch sample_store) True
     (sample_database\<lparr>db_run := None, db_tasks := [], db_messages := [], db_runtimes := [], db_attempts := [], db_steering := [], db_aggregates := [],
        db_meta := (db_meta sample_database)\<lparr>mt_headSeq := 77\<rparr>\<rparr>) = Inr (sample_store, db') \<and>
     verifyIntegrity json_prims sample_store sample_time True db' = Inr (integrityReceipt sample_store True 5 sample_time)"
proof -
  have head: "mt_headSeq (db_meta sample_database) = 5" by code_simp
  note recovered = store_recovery [where a = None and b = "[]" and c = "[]" and d = "[]" and e = "[]" and f = "[]" and g = "[]" and h = 77
    and full = True, OF json_texts_ok sample_store_ok sample_reachable sample_time_ok _ refl, unfolded head, THEN conjunct1]
  have "isSafeInteger 77" by (simp add: isSafeInteger_def)
  from recovered [OF this] show ?thesis by blast
qed

section \<open>The task scope of an attempt's events\<close>

text \<open>The events of an attempt that follow its preparation.\<close>

definition attempt_progress :: "ControlEventBody \<Rightarrow> bool" where
  "attempt_progress b = (case b of EvAttemptLaunchPlanned _ _ \<Rightarrow> True | EvAttemptStarted _ _ _ _ \<Rightarrow> True | EvAttemptExited _ _ _ _ \<Rightarrow> True |
     EvAttemptAbandoned _ _ _ \<Rightarrow> True | _ \<Rightarrow> False)"

definition rescoped :: "ControlProjection \<Rightarrow> string \<Rightarrow> nat \<Rightarrow> ControlEvent \<Rightarrow> ControlEvent" where
  "rescoped st t g e = e\<lparr>ev_taskId := Some t, ev_taskGeneration := Some g, ev_expectedVersion := actualVersion st (aggregateKey ''task'' t g)\<rparr>"

lemma attempt_progress_cases:
  assumes "attempt_progress (ev_body e)"
  obtains (planned) p l where "ev_body e = EvAttemptLaunchPlanned p l" | (started) p l pid k where "ev_body e = EvAttemptStarted p l pid k"
    | (exited) p out code s where "ev_body e = EvAttemptExited p out code s" | (abandoned) p r s where "ev_body e = EvAttemptAbandoned p r s"
  using assms by (cases "ev_body e") (auto simp: attempt_progress_def)

lemma applyBody_rescoped: "attempt_progress (ev_body e) \<Longrightarrow> applyBody C st (rescoped st' t g e) = applyBody C st e"
  by (erule attempt_progress_cases) (simp_all add: rescoped_def applyBody_def onAttemptLaunchPlanned_def onAttemptStarted_def onAttemptExited_def onAttemptAbandoned_def)

lemma attempt_progress_scope:
  assumes "attempt_progress (ev_body e)"
  shows "eventSession (ev_body e) = None" "eventFamily (ev_body e) = FamAttempt" "fencedSession (ev_body e) = None"
    "ev_taskId e = Some t \<Longrightarrow> validateFences st e = (if map_option (\<lambda>task. Some (t_generation task)) (obj_get (cs_tasks st) t) \<noteq> Some (ev_taskGeneration e) then Inl STALE_GENERATION
       else bind_res (mapErr (\<lambda>_. INVALID_EVENT) (aggregateForEvent e)) (\<lambda>agg. checks [(ev_expectedVersion e \<noteq> actualVersion st (agg_key agg), STALE_VERSION)]))"
  using assms by (auto elim!: attempt_progress_cases simp: eventSession_def eventFamily_def fencedSession_def validateFences_def bind_res_def checks.simps)

lemma attempt_progress_body:
  assumes "attempt_progress (ev_body e)" "applyBody C st e = Inr st1"
  shows "\<exists>as. st1 = st\<lparr>cs_attempts := as\<rparr>"
  using assms by (elim attempt_progress_cases)
    (auto simp: applyBody_def onAttemptLaunchPlanned_def onAttemptStarted_def onAttemptExited_def onAttemptAbandoned_def setAttempt_def)

text \<open>
  C36. The reducer compares the task scope of a preparation with its session, but the later events of an attempt only with the attempt's
  session. Whenever a launch plan, start, exit or abandonment is accepted, the same event scoped to any other task of the run, at that task's
  generation and version, passes the fences of the store and is accepted as well: it changes the attempt exactly as the event of the
  attempt's own task does, and bumps the version of the other task, while every other version, that of the attempt's task included, stays.
\<close>

theorem attempt_event_of_another_task:
  assumes "applyControlEvent C st e = Inr st'" and "attempt_progress (ev_body e)" and "obj_get (cs_tasks st) t = Some task"
  shows "validateFences st (rescoped st t (t_generation task) e) = Inr () \<and>
    (\<exists>st''. applyControlEvent C st (rescoped st t (t_generation task) e) = Inr st'' \<and> cs_attempts st'' = cs_attempts st' \<and> cs_tasks st'' = cs_tasks st \<and>
      actualVersion st'' (aggregateKey ''task'' t (t_generation task)) = actualVersion st (aggregateKey ''task'' t (t_generation task)) + 1 \<and>
      (\<forall>k. k \<noteq> aggregateKey ''task'' t (t_generation task) \<longrightarrow> actualVersion st'' k = actualVersion st k))"
proof -
  let ?e = "rescoped st t (t_generation task) e" and ?k = "aggregateKey ''task'' t (t_generation task)"
  have at: "attempt_progress (ev_body ?e)" using assms(2) by (simp add: rescoped_def)
  note scope = attempt_progress_scope [OF assms(2)] attempt_progress_scope [OF at]
  from assms(1) obtain agg st1 where own: "ev_runId e = cs_runId st" "ev_runEpoch e = cs_runEpoch st" "ev_seq e = cs_headSeq st + 1"
      "applyBody C st e = Inr st1" "st' = stampEvent agg e st1"
    by (auto simp: applyControlEvent_def)
  have agg: "aggregateForEvent ?e = Inr \<lparr>agg_kind = AggTask, agg_id = t, agg_generation = t_generation task, agg_key = ?k\<rparr>"
    using scope by (simp add: aggregateForEvent_def rescoped_def)
  have v: "ev_expectedVersion ?e = actualVersion st ?k" "ev_taskId ?e = Some t" "ev_taskGeneration ?e = Some (t_generation task)"
    by (simp_all add: rescoped_def)
  have "validateFences st ?e = Inr ()" using scope(8) [OF v(2)] agg assms(3) v by (simp add: checks.simps bind_res_def mapErr_def)
  moreover
  have "assertControlEventScope ?e = Inr ()" using scope(6) v by (simp add: assertControlEventScope_def checks.simps)
  moreover have same: "ev_runId ?e = ev_runId e" "ev_runEpoch ?e = ev_runEpoch e" "ev_seq ?e = ev_seq e" by (simp_all add: rescoped_def)
  ultimately have "validateFences st ?e = Inr () \<and>
      applyControlEvent C st ?e = Inr (stampEvent \<lparr>agg_kind = AggTask, agg_id = t, agg_generation = t_generation task, agg_key = ?k\<rparr> ?e st1)"
    using own(1-4) agg v(1) applyBody_rescoped [OF assms(2)] by (simp add: applyControlEvent_def checks.simps bind_res_def)
  moreover obtain as where "st1 = st\<lparr>cs_attempts := as\<rparr>" using attempt_progress_body [OF assms(2) own(4)] by blast
  ultimately show ?thesis using own(5) v(1) by (simp add: stampEvent_def actualVersion_def)
qed

definition two_tasks :: "ControlEvent list" where
  "two_tasks = take 6 example_history @ [example_event 7 (Some ''u'') (Some 1) 0 (EvTaskCreated (example_task\<lparr>tc_title := ''other''\<rparr>))]"

definition abandonment :: ControlEvent where
  "abandonment = example_event 8 (Some ''t'') (Some 1) 2 (EvAttemptAbandoned example_base OperatorAbandoned None)"

definition two_tasks_state :: ControlProjection where
  "two_tasks_state = (case reduceControlEvents example_control ''r'' ''p'' two_tasks None of Inr st \<Rightarrow> st | Inl _ \<Rightarrow> undefined)"

theorem attempt_event_of_another_task_witness:
  "\<exists>st''. validateFences two_tasks_state (rescoped two_tasks_state ''u'' 1 abandonment) = Inr () \<and>
     applyControlEvent example_control two_tasks_state (rescoped two_tasks_state ''u'' 1 abandonment) = Inr st'' \<and>
     map_option a_taskId (obj_get (cs_attempts st'') ''x'') = Some ''t'' \<and> map_option a_state (obj_get (cs_attempts st'') ''x'') = Some Abandoned \<and>
     actualVersion st'' (aggregateKey ''task'' ''u'' 1) = 2"
proof -
  have own: "map_sum id (\<lambda>st. map_option (\<lambda>a. (a_taskId a, a_state a)) (obj_get (cs_attempts st) ''x''))
      (applyControlEvent example_control two_tasks_state abandonment) = Inr (Some (''t'', Abandoned))" by code_simp
  then obtain st' a where st': "applyControlEvent example_control two_tasks_state abandonment = Inr st'"
      "obj_get (cs_attempts st') ''x'' = Some a" "a_taskId a = ''t''" "a_state a = Abandoned"
    by (cases "applyControlEvent example_control two_tasks_state abandonment") auto
  have "map_option t_generation (obj_get (cs_tasks two_tasks_state) ''u'') = Some 1" by code_simp
  then obtain task where task: "obj_get (cs_tasks two_tasks_state) ''u'' = Some task" "t_generation task = 1" by blast
  have "actualVersion two_tasks_state (aggregateKey ''task'' ''u'' 1) = 1" by code_simp
  moreover have "attempt_progress (ev_body abandonment)" by code_simp
  ultimately show ?thesis using attempt_event_of_another_task [OF st'(1) _ task(1)] task(2) st' by auto
qed

end
