(* ===== verification/Spec2Isabelle.thy ===== *)
theory Spec2Isabelle
  imports Money Attest Ledger Ledger_File Control_Props Steering_Props Steering_Activity Multirepo_Run Integration_Atomic Scm_Bridge Canonical Control_Store_Props
begin

text \<open>
  RelayForge runs AI coding agents on one or several repositories. This development models the logic that
  decides what a run may do, under \<open>src/src\<close>, and proves what makes it correct.

  \<^bold>\<open>The program.\<close> A run is driven by \<open>orchestrator.ts\<close>. Before an agent is called its worst-case cost is reserved in the
  money ledger (\<open>ledger.ts\<close>, amounts in \<open>money.ts\<close>); afterwards the call is settled by an attested cost (\<open>attest.ts\<close>),
  by an attested fallback, or conservatively. What happened is recorded as events in the durable control store
  (\<open>control/store.ts\<close>) and folded into a projection (\<open>control/events.ts\<close>, \<open>control/reducer.ts\<close>); operators steer agents through commands that
  are bound to the next prompt (\<open>steering/\<close>). A run over several repositories has a registry of repositories and a graph
  of tasks (\<open>multirepo/domain.ts\<close>, \<open>multirepo/dag.ts\<close>), a scheduler of leases (\<open>multirepo/scheduler.ts\<close>) and an integration
  transaction that moves the branches of all repositories together (\<open>multirepo/integration.ts\<close> over
  \<open>multirepo/git-transaction.ts\<close>, \<open>multirepo/verification.ts\<close>, \<open>multirepo/receipt.ts\<close>). The integrated vector is published as
  branches, pull requests and links between them (\<open>multirepo/publication.ts\<close>, \<open>scm/multirepo-bridge.ts\<close>).
  \<open>multirepo/orchestration.ts\<close> checks the plan of such a run and keeps its canonical history, from which all of these
  projections are replayed.

  \<^bold>\<open>Theories.\<close>
  \<^item> \<open>Relay_Prelude\<close>: JavaScript objects as association lists (\<open>obj_get\<close>, \<open>obj_set\<close>), results of fallible code
    (\<open>bind_res\<close>, \<open>checks\<close>, \<open>fold_res\<close>), character classes, identifiers (\<open>ids.ts\<close>), and the locales of the event logs:
    \<open>event_fold\<close> (an invariant kept by every accepted event holds after every accepted history), \<open>sequenced_fold\<close>
    and their extensions, interpreted on each reducer below.
  \<^item> \<open>Money\<close>: \<open>money.ts\<close>, \<open>cost.ts\<close>. Exactness and range of the conversion, the durable form, the budget contract.
  \<^item> \<open>Attest\<close>: \<open>attest.ts\<close>, \<open>scope.ts\<close>. The canonical encoding is injective, so a tag binds its payload.
  \<^item> \<open>Ledger\<close>: the accounting of \<open>ledger.ts\<close>. The budget is never exceeded, a charge is only lowered by an
    attestation bound to the call, every call is reserved and settled at most once, and the effect of each operation.
  \<^item> \<open>Line_Log\<close>, \<open>Ledger_File\<close>: its bytes. \<open>txn\<close> is atomic whatever I/O step fails, the hash chain is tamper
    evident, a blocked ledger refuses everything, \<open>reconcile\<close> keeps the journal.
  \<^item> \<open>Control_Types\<close>, \<open>Control\<close>, \<open>Control_Frame\<close>, \<open>Control_Props\<close>: the control events and their reducer. Version fences,
    finality of terminal facts, life cycles of tasks, attempts, steering commands, publications, polls and reactions.
  \<^item> \<open>Control_Store\<close>, \<open>Control_Order\<close>, \<open>Control_Tables\<close>, \<open>Control_Commit\<close>, \<open>Control_Store_Props\<close>: the control store, as tables under
    transactions. The reducer does not depend on the order of its objects; the tables an event updates stay equal to the replay;
    the invariant \<open>stored\<close> of a database is kept by appends, cursors, snapshots and rebuilds; appends are idempotent and fenced by
    the head; pages of the history are exact; a damaged projection is recovered from the events; and an attempt's event may name
    another task than its own.
  \<^item> \<open>Steering\<close>, \<open>Steering_Props\<close>, \<open>Steering_Activity\<close>: the stricter steering reducer, the snapshots it can be
    restored from, the progress of an interrupted prompt, authority, and the derived activity of a session, which agrees with
    the control reducer's.
  \<^item> \<open>Repo_Domain\<close>, \<open>Dag\<close>, \<open>Dag_Props\<close>, \<open>Scheduler\<close>, \<open>Scheduler_Props\<close>, \<open>Multirepo_Run\<close>: registry, task graph and scheduler.
    A registry is accepted exactly when its repositories are apart, up to one kind of nesting that the test misses;
    Kahn's algorithm ends and decides; capacity limits; the scheduler refines a lease protocol; aging bounds overtaking;
    a graph never deadlocks the scheduler.
  \<^item> \<open>Git_Transaction\<close>, \<open>Verification\<close>, \<open>Integration\<close>, \<open>Integration_Props\<close>, \<open>Integration_Atomic\<close>: the integration
    transaction. It is atomic on every branch that no other process moved, also when the process dies between a git command
    and the event that records it; it comes to an end; and a \<open>show-ref\<close> that fails breaks its atomicity on that branch.
  \<^item> \<open>Publication\<close>, \<open>Publication_Props\<close>, \<open>Scm_Bridge\<close>: the publication of a vector and the adapter it runs through, whose
    laws are the locale \<open>publication_adapter\<close>. A published vector is complete; every step makes progress.
  \<^item> \<open>Run_Plan\<close>: \<open>materializeMultiRepositoryRunPlan\<close> and \<open>validateProvisionSpecs\<close>. An accepted plan stays within the capabilities.
  \<^item> \<open>Canonical\<close>: facts, their wire schema, replay and append. Locale \<open>history_fold\<close> carries invariants about the history: only
    applied and verified vectors are published, records are fenced by the exact lease, and an append adds exactly one fact to the
    history last read from the journal.

  \<^bold>\<open>Conventions.\<close> A struct is a record, a union a datatype, an exception the left side of a sum. Objects keyed by
  strings are association lists in insertion order. Reducers take a projection and an event. Code that talks to the world
  (git, the verifier) passes an abstract world and is total; the bytes of the ledger are strings, with the outcome of each
  write given by the environment of the transaction. Numbers that a schema restricts to safe integers are \<open>nat\<close> or \<open>int\<close>;
  amounts of money are \<open>int\<close>, as \<open>bigint\<close>. No definition needs fuel: loops are structural, or have a termination proof
  (\<open>kahnLoop\<close>).

  \<^bold>\<open>Parameters.\<close> SHA-256, HMAC, JSON text (\<open>texts_ok\<close>: what \<open>canonicalJson\<close> wrote is read back), the clock, \<open>Date\<close>, locale-aware collation (\<open>collate_key\<close>), the git process, the file system and
  the contained verifier are arguments. What a theorem needs of them is a hypothesis with the name of the law (no
  collision of the MAC or the hash, \<open>git_laws\<close>, \<open>quiet_verifier\<close>), and its witness instantiates them.

  \<^bold>\<open>Not modelled.\<close> Everything whose substance is the outside world: processes, sandboxes and cgroups, tmux, HTTP servers
  and clients, GitHub, adapters of the agents' protocols, worktrees, the command line, configuration files and
  rendering. Of the modelled files: the zod schemas' bounds on texts, the opening and migration of ledger files, the
  path, inode, pragma and DDL checks of the SQLite file, the wake-ups of its subscribers, and the observation and multirepo events
  of the control store. \<open>orchestrator.ts\<close> composes these parts through I/O and is not
  modelled as a whole.
\<close>

end
